(* ===== verification/Prelude.thy ===== *)
theory Prelude
  imports Main "HOL-Library.Char_ord" "HOL-Library.List_Lexorder" "HOL-Library.Sublist"
    "HOL-Library.AList"
begin

text \<open>
  Shared vocabulary of the development: Go's byte strings (a \<^typ>\<open>string\<close> is a list of
  bytes, ordered byte-wise as Go compares strings), the functions of Go's \<open>strings\<close>
  package the sources call, a stable sort by a \<open>less\<close> function as \<open>sort.SliceStable\<close>
  performs it, and the generic lemmas on lists the components share.

  \<open>ToLower\<close> and \<open>TrimSpace\<close> are modelled on the ASCII range; bytes above 127 are
  left alone.
\<close>

named_theorems go_defs \<open>definitions of the Go string functions\<close>

section \<open>Go strings\<close>

definition lower_char :: "char \<Rightarrow> char" where
  "lower_char c =
     (if CHR ''A'' \<le> c \<and> c \<le> CHR ''Z'' then char_of (of_char c + (32::nat)) else c)"

definition to_lower :: "string \<Rightarrow> string" where
  [go_defs]: "to_lower s = map lower_char s"

definition is_space :: "char \<Rightarrow> bool" where
  [go_defs]: "is_space c \<longleftrightarrow>
     c = CHR '' '' \<or> (CHR 0x09 \<le> c \<and> c \<le> CHR 0x0D)"

definition trim_space :: "string \<Rightarrow> string" where
  [go_defs]: "trim_space s = rev (dropWhile is_space (rev (dropWhile is_space s)))"

text \<open>\<open>strings.Contains(s, t)\<close>.\<close>

fun str_contains :: "'a list \<Rightarrow> 'a list \<Rightarrow> bool" where
  "str_contains [] t = (t = [])"
| "str_contains (c # s) t = (prefix t (c # s) \<or> str_contains s t)"

text \<open>\<open>strings.Join(parts, sep)\<close>.\<close>

fun join :: "string \<Rightarrow> string list \<Rightarrow> string" where
  "join sep [] = []"
| "join sep [p] = p"
| "join sep (p # q # ps) = p @ sep @ join sep (q # ps)"

text \<open>\<open>strings.Cut(s, sep)\<close> for a one-byte separator: what is before and after its first
  occurrence, \<open>None\<close> when there is none.\<close>

fun cut :: "char \<Rightarrow> string \<Rightarrow> (string \<times> string) option" where
  "cut c [] = None"
| "cut c (x # xs) =
     (if x = c then Some ([], xs)
      else map_option (\<lambda>(a, b). (x # a, b)) (cut c xs))"

text \<open>\<open>strings.Split(s, sep)\<close> and \<open>strings.SplitN(s, sep, n)\<close> for a one-byte separator.\<close>

fun split_on :: "char \<Rightarrow> string \<Rightarrow> string list" where
  "split_on c [] = [[]]"
| "split_on c (x # xs) =
     (if x = c then [] # split_on c xs
      else (case split_on c xs of [] \<Rightarrow> [[x]] | p # ps \<Rightarrow> (x # p) # ps))"

fun split_n :: "nat \<Rightarrow> char \<Rightarrow> string \<Rightarrow> string list" where
  "split_n 0 c s = []"
| "split_n (Suc 0) c s = [s]"
| "split_n (Suc (Suc n)) c s =
     (case cut c s of None \<Rightarrow> [s] | Some (a, b) \<Rightarrow> a # split_n (Suc n) c b)"

abbreviation colon :: char where "colon \<equiv> CHR '':''"

abbreviation has_prefix :: "string \<Rightarrow> string \<Rightarrow> bool" where
  "has_prefix s p \<equiv> prefix p s"

abbreviation has_suffix :: "string \<Rightarrow> string \<Rightarrow> bool" where
  "has_suffix s p \<equiv> suffix p s"

lemma str_contains_iff: "str_contains s t \<longleftrightarrow> (\<exists>u v. s = u @ t @ v)"
proof (induction s t rule: str_contains.induct)
  case (1 t)
  then show ?case by simp
next
  case (2 c s t)
  show ?case
  proof
    assume "str_contains (c # s) t"
    then consider "prefix t (c # s)" | "str_contains s t" by auto
    then show "\<exists>u v. c # s = u @ t @ v"
    proof cases
      case 1
      then obtain v where "c # s = [] @ t @ v" by (auto simp: prefix_def)
      then show ?thesis by blast
    next
      case 2
      with "2.IH" obtain u v where "s = u @ t @ v" by blast
      then have "c # s = (c # u) @ t @ v" by simp
      then show ?thesis by blast
    qed
  next
    assume "\<exists>u v. c # s = u @ t @ v"
    then obtain u v where uv: "c # s = u @ t @ v" by blast
    show "str_contains (c # s) t"
    proof (cases u)
      case Nil
      with uv have "prefix t (c # s)" by (simp add: prefix_def)
      then show ?thesis by simp
    next
      case (Cons d u')
      with uv have "s = u' @ t @ v" by simp
      with "2.IH" show ?thesis by auto
    qed
  qed
qed

lemma cut_Some: "cut c s = Some (a, b) \<Longrightarrow> s = a @ c # b \<and> c \<notin> set a"
  by (induction s arbitrary: a) (auto split: if_splits)

lemma cut_None: "cut c s = None \<longleftrightarrow> c \<notin> set s"
  by (induction s) auto

lemma cut_append [simp]: "c \<notin> set a \<Longrightarrow> cut c (a @ c # b) = Some (a, b)"
  by (induction a) auto

lemma cut_fresh [simp]: "c \<notin> set a \<Longrightarrow> cut c a = None"
  by (simp add: cut_None)

lemma split_on_nonempty [simp]: "split_on c s \<noteq> []"
  by (induction s) (auto split: list.splits)

lemma split_on_append [simp]:
  "c \<notin> set a \<Longrightarrow> split_on c (a @ c # b) = a # split_on c b"
  by (induction a) auto

lemma split_on_fresh [simp]: "c \<notin> set a \<Longrightarrow> split_on c a = [a]"
  by (induction a) auto

lemma length_split_on: "length (split_on c s) = Suc (count_list s c)"
  by (induction s) (auto split: list.splits)

lemma join_Cons: "ps \<noteq> [] \<Longrightarrow> join sep (p # ps) = p @ sep @ join sep ps"
  by (cases ps) auto

text \<open>Splitting a joined list gives the list back, and the join is injective on lists of
  separator-free parts: the fact that makes a \<open>:\<close>-separated key decodable.\<close>

lemma split_on_join:
  "ps \<noteq> [] \<Longrightarrow> \<forall>p \<in> set ps. c \<notin> set p \<Longrightarrow> split_on c (join [c] ps) = ps"
proof (induction ps)
  case Nil
  then show ?case by simp
next
  case (Cons p ps)
  then show ?case by (cases ps) auto
qed

lemma join_inject:
  assumes "ps \<noteq> []" "qs \<noteq> []" "\<forall>p \<in> set ps. c \<notin> set p" "\<forall>q \<in> set qs. c \<notin> set q"
    and "join [c] ps = join [c] qs"
  shows "ps = qs"
  using assms split_on_join by metis

lemma to_lower_append [simp]: "to_lower (a @ b) = to_lower a @ to_lower b"
  by (simp add: to_lower_def)

lemma lower_char_idem [simp]: "lower_char (lower_char c) = lower_char c"
proof (cases "CHR ''A'' \<le> c \<and> c \<le> CHR ''Z''")
  case True
  then have "(of_char c :: nat) \<le> 90" "(65::nat) \<le> of_char c"
    by (simp_all add: less_eq_char_def)
  then have "\<not> (char_of (of_char c + (32::nat)) \<le> CHR ''Z'')"
    by (simp add: less_eq_char_def of_char_of)
  with True show ?thesis by (simp add: lower_char_def)
next
  case False
  then show ?thesis by (auto simp: lower_char_def)
qed

lemma to_lower_idem [simp]: "to_lower (to_lower s) = to_lower s"
  by (simp add: to_lower_def)

section \<open>strconv: numbers and booleans as strings\<close>

text \<open>\<open>ParseBool\<close>, \<open>ParseInt(s, 10, 64)\<close> and decimal printing (\<open>%d\<close>).\<close>

definition parse_bool :: "string \<Rightarrow> bool option" where
  "parse_bool s =
     (if s \<in> {''1'', ''t'', ''T'', ''TRUE'', ''true'', ''True''} then Some True
      else if s \<in> {''0'', ''f'', ''F'', ''FALSE'', ''false'', ''False''} then Some False
      else None)"

definition digit_val :: "char \<Rightarrow> int option" where
  "digit_val c =
     (if CHR ''0'' \<le> c \<and> c \<le> CHR ''9'' then Some (int (of_char c) - 48) else None)"

fun parse_digits :: "int \<Rightarrow> string \<Rightarrow> int option" where
  "parse_digits acc [] = Some acc"
| "parse_digits acc (c # cs) =
     (case digit_val c of None \<Rightarrow> None | Some d \<Rightarrow> parse_digits (10 * acc + d) cs)"

definition parse_uint :: "string \<Rightarrow> int option" where
  "parse_uint s = (if s = [] then None else parse_digits 0 s)"

definition parse_int64 :: "string \<Rightarrow> int option" where
  "parse_int64 s =
     (let (neg, rest) =
        (case s of [] \<Rightarrow> (False, [])
         | c # cs \<Rightarrow> if c = CHR ''-'' then (True, cs) else if c = CHR ''+'' then (False, cs)
                    else (False, s))
      in case parse_uint rest of
           None \<Rightarrow> None
         | Some n \<Rightarrow> (let v = (if neg then - n else n)
                      in if - (2 ^ 63) \<le> v \<and> v < 2 ^ 63 then Some v else None))"

fun show_nat :: "nat \<Rightarrow> string" where
  "show_nat n =
     (if n < 10 then [char_of (48 + n)] else show_nat (n div 10) @ [char_of (48 + n mod 10)])"

declare show_nat.simps [simp del]

definition show_int :: "int \<Rightarrow> string" where
  "show_int i = (if i < 0 then CHR ''-'' # show_nat (nat (- i)) else show_nat (nat i))"

lemma digit_val_char [simp]: "d < 10 \<Longrightarrow> digit_val (char_of (48 + d :: nat)) = Some (int d)"
  by (simp add: digit_val_def less_eq_char_def of_char_of)

lemma parse_digits_append:
  "parse_digits acc (xs @ ys) =
     (case parse_digits acc xs of None \<Rightarrow> None | Some a \<Rightarrow> parse_digits a ys)"
  by (induction xs arbitrary: acc) (auto split: option.splits)

lemma parse_digits_show: "parse_digits 0 (show_nat n) = Some (int n)"
proof (induction n rule: show_nat.induct)
  case (1 n)
  show ?case
  proof (cases "n < 10")
    case True
    then show ?thesis by (simp add: show_nat.simps [of n])
  next
    case False
    with 1 have "parse_digits 0 (show_nat (n div 10)) = Some (int (n div 10))" by simp
    moreover have "10 * int (n div 10) + int (n mod 10) = int n" by presburger
    ultimately show ?thesis using False
      by (simp add: show_nat.simps [of n] parse_digits_append del: of_nat_mod of_nat_div)
  qed
qed

lemma show_nat_nonempty [simp]: "show_nat n \<noteq> []"
  by (subst show_nat.simps) simp

lemma show_nat_digits: "c \<in> set (show_nat n) \<Longrightarrow> CHR ''0'' \<le> c \<and> c \<le> CHR ''9''"
proof (induction n rule: show_nat.induct)
  case (1 n)
  show ?case
  proof (cases "n < 10")
    case True
    with 1 show ?thesis by (auto simp: show_nat.simps [of n] less_eq_char_def of_char_of)
  next
    case False
    have "n mod 10 < 10" by simp
    with False 1 show ?thesis by (auto simp: show_nat.simps [of n] less_eq_char_def of_char_of)
  qed
qed

lemma show_nat_hd: "hd (show_nat n) \<noteq> CHR ''-''" "hd (show_nat n) \<noteq> CHR ''+''"
  using show_nat_digits [of "hd (show_nat n)" n] by (auto simp: less_eq_char_def)

text \<open>Printing and parsing are inverse on 64-bit integers.\<close>

lemma parse_show_int:
  assumes "- (2 ^ 63) \<le> i" "i < 2 ^ 63"
  shows "parse_int64 (show_int i) = Some i"
proof (cases "i < 0")
  case True
  with assms show ?thesis
    by (simp add: parse_int64_def show_int_def parse_uint_def parse_digits_show)
next
  case False
  obtain c cs where s: "show_nat (nat i) = c # cs" by (cases "show_nat (nat i)") auto
  then have "c \<noteq> CHR ''-''" "c \<noteq> CHR ''+''" using show_nat_hd [of "nat i"] by auto
  with False assms s parse_digits_show [of "nat i"] show ?thesis
    by (simp add: parse_int64_def show_int_def parse_uint_def)
qed

lemma show_nat_inject: "show_nat m = show_nat n \<Longrightarrow> m = n"
  by (metis of_nat_eq_iff option.inject parse_digits_show)

section \<open>Machine integers\<close>

text \<open>Two's complement wrap-around of a Go \<open>int\<close>.\<close>

definition wrap64 :: "int \<Rightarrow> int" where
  "wrap64 x = (x + 2 ^ 63) mod 2 ^ 64 - 2 ^ 63"

lemma wrap64_id: "- (2 ^ 63) \<le> x \<Longrightarrow> x < 2 ^ 63 \<Longrightarrow> wrap64 x = x"
  by (simp add: wrap64_def)

section \<open>Go maps\<close>

text \<open>
  A Go map is an association list with distinct keys: \<^const>\<open>map_of\<close> looks a key up,
  \<^const>\<open>AList.update\<close> stores and \<^const>\<open>AList.delete\<close> deletes. Go leaves the order of
  \<open>range\<close> over a map unspecified; here it is the order of the list, and every list with
  the same entries represents the same map, so a theorem about all lists is a theorem about
  all iteration orders.
\<close>

type_synonym ('k, 'v) gomap = "('k \<times> 'v) list"

abbreviation wf_map :: "('k, 'v) gomap \<Rightarrow> bool" where
  "wf_map m \<equiv> distinct (map fst m)"

lemma map_of_update [simp]:
  "map_of (AList.update k v m) = (map_of m)(k \<mapsto> v)"
  by (simp add: update_conv' fun_eq_iff)

lemma map_of_delete [simp]:
  "map_of (AList.delete k m) = (map_of m)(k := None)"
  by (simp add: delete_conv' fun_eq_iff)

lemma wf_map_update [simp]: "wf_map m \<Longrightarrow> wf_map (AList.update k v m)"
  by (rule distinct_update)

lemma wf_map_delete [simp]: "wf_map m \<Longrightarrow> wf_map (AList.delete k m)"
  by (rule distinct_delete)

lemma wf_map_lookup: "wf_map m \<Longrightarrow> (k, v) \<in> set m \<longleftrightarrow> map_of m k = Some v"
  by (auto intro: map_of_is_SomeI dest: map_of_SomeD)

lemma map_of_filter_key:
  "map_of (filter (\<lambda>(k, v). \<not> P k) m) k = (if P k then None else map_of m k)"
  by (induction m) auto

text \<open>Rewriting every value of a map, key by key, as a loop over its entries does.\<close>

definition map_values :: "('k \<Rightarrow> 'v \<Rightarrow> 'w) \<Rightarrow> ('k, 'v) gomap \<Rightarrow> ('k, 'w) gomap" where
  "map_values f m = map (\<lambda>(k, v). (k, f k v)) m"

lemma fst_map_values [simp]: "map fst (map_values f m) = map fst m"
  by (auto simp: map_values_def)

lemma map_of_map_values [simp]:
  "map_of (map_values f m) k = map_option (f k) (map_of m k)"
  by (induction m) (auto simp: map_values_def)

lemma map_values_cong:
  "(\<And>k v. (k, v) \<in> set m \<Longrightarrow> f k v = g k v) \<Longrightarrow> map_values f m = map_values g m"
  by (auto simp: map_values_def)

lemma map_values_map_values [simp]: "map_values f (map_values g m) = map_values (\<lambda>k v. f k (g k v)) m"
  by (auto simp: map_values_def)

lemma update_existing:
  assumes "wf_map m" "map_of m k = Some v0"
  shows "AList.update k v m = map_values (\<lambda>k' v'. if k' = k then v else v') m"
  using assms
proof (induction m)
  case (Cons p m)
  show ?case
  proof (cases "fst p = k")
    case True
    with Cons.prems(1) have "map_values (\<lambda>k' v'. if k' = k then v else v') m = map_values (\<lambda>_ v'. v') m"
      by (intro map_values_cong) (force simp: image_iff)
    with True show ?thesis by (cases p) (simp add: map_values_def)
  next
    case False
    with Cons show ?thesis by (cases p) (simp add: map_values_def)
  qed
qed simp

text \<open>A property that each step of a loop can only establish.\<close>

lemma foldl_disj:
  assumes "\<And>c r. P (f c r) \<longleftrightarrow> P c \<or> Q r"
  shows "P (foldl f c rs) \<longleftrightarrow> P c \<or> (\<exists>r \<in> set rs. Q r)"
  by (induction rs arbitrary: c) (auto simp: assms)

section \<open>Stable sorting by a less function\<close>

text \<open>
  \<open>sort.SliceStable(xs, less)\<close>: an element is placed before the first element that is
  not less than it, working from the back of the list, so equal elements keep their order.
\<close>

fun insert_by :: "('a \<Rightarrow> 'a \<Rightarrow> bool) \<Rightarrow> 'a \<Rightarrow> 'a list \<Rightarrow> 'a list" where
  "insert_by lt x [] = [x]"
| "insert_by lt x (y # ys) =
     (if lt y x then y # insert_by lt x ys else x # y # ys)"

definition stable_sort :: "('a \<Rightarrow> 'a \<Rightarrow> bool) \<Rightarrow> 'a list \<Rightarrow> 'a list" where
  "stable_sort lt xs = foldr (insert_by lt) xs []"

fun merge_by :: "('a \<Rightarrow> 'a \<Rightarrow> bool) \<Rightarrow> 'a list \<Rightarrow> 'a list \<Rightarrow> 'a list" where
  "merge_by lt [] ys = ys"
| "merge_by lt xs [] = xs"
| "merge_by lt (x # xs) (y # ys) =
     (if lt y x then y # merge_by lt (x # xs) ys else x # merge_by lt xs (y # ys))"

lemma stable_sort_simps [simp]:
  "stable_sort lt [] = []"
  "stable_sort lt (x # xs) = insert_by lt x (stable_sort lt xs)"
  by (simp_all add: stable_sort_def)

lemma set_insert_by [simp]: "set (insert_by lt x ys) = insert x (set ys)"
  by (induction ys) auto

lemma length_insert_by [simp]: "length (insert_by lt x ys) = Suc (length ys)"
  by (induction ys) auto

lemma set_stable_sort [simp]: "set (stable_sort lt xs) = set xs"
  by (induction xs) auto

lemma length_stable_sort [simp]: "length (stable_sort lt xs) = length xs"
  by (induction xs) auto

lemma distinct_insert_by [simp]:
  "distinct (insert_by lt x ys) \<longleftrightarrow> x \<notin> set ys \<and> distinct ys"
  by (induction ys) auto

lemma distinct_stable_sort [simp]: "distinct (stable_sort lt xs) = distinct xs"
  by (induction xs) auto

lemma merge_by_Nil2 [simp]: "merge_by lt xs [] = xs"
  by (cases xs) auto

text \<open>The head of a merge depends on the heads only, so its first \<open>k\<close> elements depend
  on the first \<open>k\<close> elements of each side.\<close>

lemma take_merge_by:
  "take k (merge_by lt xs ys) = take k (merge_by lt (take k xs) (take k ys))"
proof (induction k arbitrary: xs ys)
  case 0
  then show ?case by simp
next
  case (Suc k)
  show ?case
  proof (cases xs)
    case Nil
    then show ?thesis by simp
  next
    case xs: (Cons x xs')
    show ?thesis
    proof (cases ys)
      case Nil
      with xs show ?thesis by simp
    next
      case ys: (Cons y ys')
      have a: "take k (merge_by lt (x # take k xs') (take k ys'))
                 = take k (merge_by lt (x # xs') ys')"
        using Suc.IH [of "x # xs'" ys'] Suc.IH [of "x # take k xs'" "take k ys'"]
        by (cases k) (simp_all add: min_def)
      have b: "take k (merge_by lt (take k xs') (y # take k ys'))
                 = take k (merge_by lt xs' (y # ys'))"
        using Suc.IH [of xs' "y # ys'"] Suc.IH [of "take k xs'" "y # take k ys'"]
        by (cases k) (simp_all add: min_def)
      show ?thesis using xs ys a b by simp
    qed
  qed
qed

locale go_less =
  fixes lt :: "'a \<Rightarrow> 'a \<Rightarrow> bool"
  assumes lt_irrefl: "\<not> lt x x"
    and lt_trans: "lt x y \<Longrightarrow> lt y z \<Longrightarrow> lt x z"
    and lt_weak: "lt x z \<Longrightarrow> lt x y \<or> lt y z"
begin

abbreviation "ordered \<equiv> sorted_wrt (\<lambda>x y. \<not> lt y x)"

lemma insert_by_ordered: "ordered ys \<Longrightarrow> ordered (insert_by lt x ys)"
proof (induction ys)
  case Nil
  then show ?case by simp
next
  case (Cons y ys)
  then show ?case using lt_trans lt_irrefl lt_weak by auto blast+
qed

lemma stable_sort_ordered: "ordered (stable_sort lt xs)"
  by (induction xs) (auto intro: insert_by_ordered)

lemma insert_by_front: "\<forall>y \<in> set ys. \<not> lt y x \<Longrightarrow> insert_by lt x ys = x # ys"
  by (cases ys) auto

lemma stable_sort_id: "ordered xs \<Longrightarrow> stable_sort lt xs = xs"
  by (induction xs) (auto simp: insert_by_front)

lemma insert_by_merge:
  "ordered xs \<Longrightarrow> ordered ys \<Longrightarrow>
   insert_by lt x (merge_by lt xs ys) = merge_by lt (insert_by lt x xs) ys"
proof (induction xs arbitrary: ys)
  case Nil
  show ?case by (induction ys) auto
next
  case (Cons z zs)
  note IH = Cons.IH and zs = Cons.prems(1)
  from Cons.prems(2) show ?case
  proof (induction ys)
    case Nil
    show ?case by simp
  next
    case (Cons y ys)
    show ?case
    proof (cases "lt y z")
      case True
      then have "lt z x \<Longrightarrow> lt y x" using lt_trans by blast
      with True Cons show ?thesis by (cases "lt y x") auto
    next
      case False
      then have "lt y x \<Longrightarrow> lt z x" using lt_weak by blast
      with False Cons.prems IH [of "y # ys"] zs show ?thesis by (cases "lt z x") auto
    qed
  qed
qed

lemma stable_sort_append:
  "stable_sort lt (xs @ ys) = merge_by lt (stable_sort lt xs) (stable_sort lt ys)"
  by (induction xs) (simp_all add: insert_by_merge stable_sort_ordered)

text \<open>The top-\<open>k\<close> merge: when every part is already in order, the first \<open>k\<close> of the sorted
  union can be computed from the first \<open>k\<close> of every part.\<close>

lemma take_stable_sort_concat:
  assumes "\<forall>l \<in> set ls. ordered l"
  shows "take k (stable_sort lt (concat (map (take k) ls)))
           = take k (stable_sort lt (concat ls))"
  using assms
proof (induction ls)
  case Nil
  then show ?case by simp
next
  case (Cons l ls)
  let ?S = "stable_sort lt (concat ls)"
  let ?T = "stable_sort lt (concat (map (take k) ls))"
  have l: "ordered l" and ordt: "ordered (take k l)"
    using Cons.prems by (simp_all add: sorted_wrt_take)
  have "take k (stable_sort lt (concat (map (take k) (l # ls))))
          = take k (merge_by lt (take k l) ?T)"
    by (simp add: stable_sort_append stable_sort_id [OF ordt])
  also have "\<dots> = take k (merge_by lt (take k l) (take k ?T))"
    by (subst take_merge_by) simp
  also have "take k ?T = take k ?S"
    using Cons by simp
  also have "take k (merge_by lt (take k l) (take k ?S)) = take k (merge_by lt l ?S)"
    by (rule take_merge_by [symmetric])
  also have "merge_by lt l ?S = stable_sort lt (concat (l # ls))"
    by (simp add: stable_sort_append stable_sort_id [OF l])
  finally show ?case .
qed

end

end
