(* ===== verification/HashSet.thy ===== *)
theory HashSet
  imports Prelude
begin

text \<open>
  \<open>collections/hashset.go\<close>: a set as a Go map with empty values. \<open>hash_set_data\<close> is the
  map; the operations that mutate it return the new set, with the boolean the Go method
  returns. The locale \<open>go_set\<close> is the contract the clients rely on, interpreted here on the
  model of the code.
\<close>

record 'a HashSet =
  hs_data :: "('a, unit) gomap"

definition NewHashSet :: "'a HashSet" where
  "NewHashSet = \<lparr>hs_data = []\<rparr>"

definition Contains :: "'a HashSet \<Rightarrow> 'a \<Rightarrow> bool" where
  "Contains d s = (case map_of (hs_data d) s of None \<Rightarrow> False | Some _ \<Rightarrow> True)"

definition Insert :: "'a HashSet \<Rightarrow> 'a \<Rightarrow> 'a HashSet \<times> bool" where
  "Insert d s =
     (if Contains d s then (d, False)
      else (d\<lparr>hs_data := AList.update s () (hs_data d)\<rparr>, True))"

definition Remove :: "'a HashSet \<Rightarrow> 'a \<Rightarrow> 'a HashSet \<times> bool" where
  "Remove d s =
     (if Contains d s then (d\<lparr>hs_data := AList.delete s (hs_data d)\<rparr>, True)
      else (d, False))"

definition Len :: "'a HashSet \<Rightarrow> nat" where
  "Len d = length (hs_data d)"

definition IsEmpty :: "'a HashSet \<Rightarrow> bool" where
  "IsEmpty d \<longleftrightarrow> Len d = 0"

definition Clear :: "'a HashSet \<Rightarrow> 'a HashSet" where
  "Clear d = d\<lparr>hs_data := []\<rparr>"

definition Iter :: "'a HashSet \<Rightarrow> 'a list" where
  "Iter d = map fst (hs_data d)"

definition Slice :: "'a HashSet \<Rightarrow> 'a list" where
  "Slice d = Iter d"

text \<open>The abstraction: the mathematical set of the keys.\<close>

definition hs_set :: "'a HashSet \<Rightarrow> 'a set" where
  "hs_set d = set (map fst (hs_data d))"

definition hs_wf :: "'a HashSet \<Rightarrow> bool" where
  "hs_wf d = wf_map (hs_data d)"

section \<open>The contract of a set\<close>

locale go_set =
  fixes empty :: 's
    and member :: "'s \<Rightarrow> 'a \<Rightarrow> bool"
    and add :: "'s \<Rightarrow> 'a \<Rightarrow> 's \<times> bool"
    and drop :: "'s \<Rightarrow> 'a \<Rightarrow> 's \<times> bool"
    and size_of :: "'s \<Rightarrow> nat"
    and elems :: "'s \<Rightarrow> 'a list"
    and abs :: "'s \<Rightarrow> 'a set"
    and inv :: "'s \<Rightarrow> bool"
  assumes empty_abs: "abs empty = {}" and empty_inv: "inv empty"
    and member_abs: "inv s \<Longrightarrow> member s x \<longleftrightarrow> x \<in> abs s"
    and add_abs: "inv s \<Longrightarrow> abs (fst (add s x)) = insert x (abs s)"
    and add_new: "inv s \<Longrightarrow> snd (add s x) \<longleftrightarrow> x \<notin> abs s"
    and add_inv: "inv s \<Longrightarrow> inv (fst (add s x))"
    and drop_abs: "inv s \<Longrightarrow> abs (fst (drop s x)) = abs s - {x}"
    and drop_old: "inv s \<Longrightarrow> snd (drop s x) \<longleftrightarrow> x \<in> abs s"
    and drop_inv: "inv s \<Longrightarrow> inv (fst (drop s x))"
    and size_abs: "inv s \<Longrightarrow> size_of s = card (abs s)"
    and elems_abs: "inv s \<Longrightarrow> set (elems s) = abs s"
    and elems_distinct: "inv s \<Longrightarrow> distinct (elems s)"
begin

text \<open>A client's loop that collects a list of values into a fresh set.\<close>

definition collect :: "'a list \<Rightarrow> 's" where
  "collect xs = foldl (\<lambda>s x. fst (add s x)) empty xs"

lemma foldl_add: "inv s \<Longrightarrow>
  inv (foldl (\<lambda>s x. fst (add s x)) s xs) \<and>
  abs (foldl (\<lambda>s x. fst (add s x)) s xs) = abs s \<union> set xs"
  by (induction xs arbitrary: s) (auto simp: add_inv add_abs)

lemma collect_inv: "inv (collect xs)"
  by (simp add: collect_def foldl_add empty_inv)

lemma collect_abs: "abs (collect xs) = set xs"
  by (simp add: collect_def foldl_add empty_inv empty_abs)

lemma collect_elems: "set (elems (collect xs)) = set xs" "distinct (elems (collect xs))"
  by (simp_all add: elems_abs elems_distinct collect_inv collect_abs)

end

lemma Contains_iff: "Contains d s \<longleftrightarrow> s \<in> hs_set d"
  by (auto simp: Contains_def hs_set_def map_of_eq_None_iff split: option.splits)
     (metis domI dom_map_of_conv_image_fst)

lemma Insert_set: "hs_set (fst (Insert d s)) = insert s (hs_set d)"
  by (auto simp: Insert_def Contains_iff) (auto simp: hs_set_def update_keys)

lemma Insert_wf: "hs_wf d \<Longrightarrow> hs_wf (fst (Insert d s))"
  by (simp add: Insert_def hs_wf_def)

lemma Remove_set: "hs_set (fst (Remove d s)) = hs_set d - {s}"
  by (auto simp: Remove_def Contains_iff) (auto simp: hs_set_def delete_keys)

lemma Remove_wf: "hs_wf d \<Longrightarrow> hs_wf (fst (Remove d s))"
  by (simp add: Remove_def hs_wf_def)

lemma Len_card: "hs_wf d \<Longrightarrow> Len d = card (hs_set d)"
  using distinct_card [of "map fst (hs_data d)"] by (simp add: Len_def hs_set_def hs_wf_def)

interpretation hs: go_set NewHashSet Contains Insert Remove Len Slice hs_set hs_wf
proof unfold_locales
  show "hs_set NewHashSet = {}" "hs_wf NewHashSet"
    by (simp_all add: NewHashSet_def hs_set_def hs_wf_def)
qed (auto simp: Contains_iff Insert_set Insert_wf Remove_set Remove_wf Len_card,
     auto simp: Insert_def Remove_def Contains_iff Slice_def Iter_def hs_set_def hs_wf_def
       split: if_splits)

end
