(* ===== verification/ConfigModule.thy ===== *)
theory ConfigModule
  imports HashSet "HOL-Library.Word"
begin

text \<open>
  \<open>config/config.go\<close> and \<open>config/interface.go\<close>: the operator's configuration. A
  \<open>Config\<close> maps declared keys to their current value, their declaration and two 64-bit
  access counters. Every operation of the module is a function on that state; a panic
  (\<open>assert.Assert\<close>, \<open>Get\<close>, \<open>Set\<close>) and an error return are values of \<open>config_error\<close>.
  The callbacks registered with \<open>OnChanged\<close> are opaque values; running them is the list of
  calls made, in order. The locks of the code serialise the operations and have no other
  effect, so an operation is one step. The process environment is an argument.
\<close>

section \<open>State\<close>

datatype config_type = ConfigVariableTypeString | ConfigVariableTypeInt | ConfigVariableTypeBool
  | OtherType string

record ConfigDeclaration =
  cd_Key :: string
  cd_Type :: "config_type option"
  cd_DefaultValue :: "string option"
  cd_Description :: "string option"
  cd_IsSecret :: bool
  cd_ReadOnly :: bool
  cd_Envs :: "string list"
  cd_Validate :: "(string \<Rightarrow> string option) option"

record configValue =
  cv_value :: "string option"
  cv_declaration :: ConfigDeclaration
  cv_getCounter :: "64 word"
  cv_setCounter :: "64 word"

record 'cb onChangeCallbackConfig =
  oc_onKeys :: "string list"
  oc_callback :: 'cb

record 'cb Config =
  cfg_data :: "(string, configValue) gomap"
  cfg_onChangedCallbacks :: "'cb onChangeCallbackConfig list"

record ConfigVariable =
  var_Key :: string
  var_Value :: string
  var_IsSecret :: bool

record Usage =
  us_Key :: string
  us_Initialized :: bool
  us_SetCalls :: "64 word"
  us_GetCalls :: "64 word"

datatype config_error =
    AssertFailed
  | KeyEmpty
  | Undeclared string
  | Uninitialized string
  | ReadOnlyKey string
  | ValidationFailed string string
  | NotDeclaredAs string config_type
  | NotAValid string config_type
  | UnknownType string

text \<open>One call of a change callback: the callback and its three arguments.\<close>

type_synonym 'cb callback_call = "'cb \<times> string \<times> string \<times> bool"

section \<open>Operations\<close>

definition NewConfig :: "'cb Config" where
  "NewConfig = \<lparr>cfg_data = [], cfg_onChangedCallbacks = []\<rparr>"

definition run_validate :: "ConfigDeclaration \<Rightarrow> string \<Rightarrow> string option" where
  "run_validate d v = (case cd_Validate d of None \<Rightarrow> None | Some f \<Rightarrow> f v)"

text \<open>The checks \<open>Validate()\<close> makes on one entry; \<open>None\<close> when the entry is fine.\<close>

definition validate_entry :: "string \<Rightarrow> configValue \<Rightarrow> config_error option" where
  "validate_entry key cv =
     (case cv_value cv of
        None \<Rightarrow> Some (Uninitialized key)
      | Some v \<Rightarrow>
          (case run_validate (cv_declaration cv) v of
             Some e \<Rightarrow> Some (ValidationFailed key e)
           | None \<Rightarrow>
               (case cd_Type (cv_declaration cv) of
                  None \<Rightarrow> None
                | Some ConfigVariableTypeString \<Rightarrow> None
                | Some ConfigVariableTypeInt \<Rightarrow>
                    (if parse_int64 v = None then Some (NotAValid key ConfigVariableTypeInt) else None)
                | Some ConfigVariableTypeBool \<Rightarrow>
                    (if parse_bool v = None then Some (NotAValid key ConfigVariableTypeBool) else None)
                | Some (OtherType t) \<Rightarrow> Some (UnknownType key))))"

text \<open>\<open>Validate()\<close>: with at least one error the process exits with status 1 (\<open>Inl\<close>).\<close>

definition Validate :: "'cb Config \<Rightarrow> config_error list + unit" where
  "Validate c =
     (let errs = List.map_filter (\<lambda>(k, cv). validate_entry k cv) (cfg_data c)
      in if errs \<noteq> [] then Inl errs else Inr ())"

definition callback_selected :: "'cb onChangeCallbackConfig \<Rightarrow> string \<Rightarrow> bool" where
  "callback_selected cb key \<longleftrightarrow> oc_onKeys cb = [] \<or> key \<in> set (oc_onKeys cb)"

definition runOnChangedCallbacks ::
  "'cb Config \<Rightarrow> string \<Rightarrow> string \<Rightarrow> bool \<Rightarrow> 'cb callback_call list" where
  "runOnChangedCallbacks c key value isSecret =
     map (\<lambda>cb. (oc_callback cb, key, value, isSecret))
       (filter (\<lambda>cb. callback_selected cb key) (cfg_onChangedCallbacks c))"

abbreviation newline :: char where "newline \<equiv> CHR 0x0A"

definition declaration_ok :: "'cb Config \<Rightarrow> ConfigDeclaration \<Rightarrow> bool" where
  "declaration_ok c opts \<longleftrightarrow>
     cd_Key opts \<noteq> [] \<and> newline \<notin> set (cd_Key opts)
     \<and> map_of (cfg_data c) (cd_Key opts) = None
     \<and> (case cd_Description opts of None \<Rightarrow> True | Some d \<Rightarrow> newline \<notin> set d)
     \<and> list_all (\<lambda>env. newline \<notin> set env) (cd_Envs opts)"

definition Declare ::
  "'cb Config \<Rightarrow> ConfigDeclaration \<Rightarrow> config_error + ('cb Config \<times> 'cb callback_call list)" where
  "Declare c opts =
     (if \<not> declaration_ok c opts then Inl AssertFailed
      else
        let cv = \<lparr>cv_value = cd_DefaultValue opts, cv_declaration = opts, cv_getCounter = 0,
                  cv_setCounter = (case cd_DefaultValue opts of None \<Rightarrow> 0 | Some _ \<Rightarrow> 1)\<rparr>;
            c' = c\<lparr>cfg_data := AList.update (cd_Key opts) cv (cfg_data c)\<rparr>
        in Inr (c', case cd_DefaultValue opts of
                      None \<Rightarrow> []
                    | Some v \<Rightarrow> runOnChangedCallbacks c' (cd_Key opts) v (cd_IsSecret opts)))"

text \<open>\<open>getValueForKey\<close> counts the access in the entry it returns.\<close>

definition getValueForKey ::
  "'cb Config \<Rightarrow> string \<Rightarrow> config_error + ('cb Config \<times> configValue \<times> string)" where
  "getValueForKey c key =
     (if key = [] then Inl KeyEmpty
      else case map_of (cfg_data c) key of
             None \<Rightarrow> Inl (Undeclared key)
           | Some cv \<Rightarrow>
               (case cv_value cv of
                  None \<Rightarrow> Inl (Uninitialized key)
                | Some v \<Rightarrow>
                    let cv' = cv\<lparr>cv_getCounter := cv_getCounter cv + 1\<rparr>
                    in Inr (c\<lparr>cfg_data := AList.update key cv' (cfg_data c)\<rparr>, cv', v)))"

definition TryGet :: "'cb Config \<Rightarrow> string \<Rightarrow> config_error + ('cb Config \<times> string)" where
  "TryGet c key =
     (case getValueForKey c key of
        Inl e \<Rightarrow> Inl e
      | Inr (c', cv, v) \<Rightarrow> Inr (c', v))"

text \<open>\<open>Get\<close> panics with the error \<open>TryGet\<close> returns.\<close>

definition Get :: "'cb Config \<Rightarrow> string \<Rightarrow> config_error + ('cb Config \<times> string)" where
  "Get c key = (case TryGet c key of Inl e \<Rightarrow> Inl e | Inr r \<Rightarrow> Inr r)"

text \<open>The typed getters: the access is counted even when the type check or the parse then
  fails, so the new state is returned with either outcome.\<close>

definition TryGetBool :: "'cb Config \<Rightarrow> string \<Rightarrow> 'cb Config \<times> (config_error + bool)" where
  "TryGetBool c key =
     (case getValueForKey c key of
        Inl e \<Rightarrow> (c, Inl e)
      | Inr (c', cv, v) \<Rightarrow>
          (c', if cd_Type (cv_declaration cv) \<noteq> Some ConfigVariableTypeBool
               then Inl (NotDeclaredAs key ConfigVariableTypeBool)
               else case parse_bool v of
                      None \<Rightarrow> Inl (NotAValid key ConfigVariableTypeBool)
                    | Some b \<Rightarrow> Inr b))"

definition TryGetInt :: "'cb Config \<Rightarrow> string \<Rightarrow> 'cb Config \<times> (config_error + int)" where
  "TryGetInt c key =
     (case getValueForKey c key of
        Inl e \<Rightarrow> (c, Inl e)
      | Inr (c', cv, v) \<Rightarrow>
          (c', if cd_Type (cv_declaration cv) \<noteq> Some ConfigVariableTypeInt
               then Inl (NotDeclaredAs key ConfigVariableTypeInt)
               else case parse_int64 v of
                      None \<Rightarrow> Inl (NotAValid key ConfigVariableTypeInt)
                    | Some n \<Rightarrow> Inr n))"

definition IsSet :: "'cb Config \<Rightarrow> string \<Rightarrow> bool" where
  "IsSet c key =
     (if key = [] then False
      else case map_of (cfg_data c) key of
             None \<Rightarrow> False
           | Some cv \<Rightarrow> cv_value cv \<noteq> None)"

definition set_value :: "'cb Config \<Rightarrow> string \<Rightarrow> string \<Rightarrow> config_error + 'cb Config" where
  "set_value c key value =
     (case map_of (cfg_data c) key of
        None \<Rightarrow> Inl (Undeclared key)
      | Some cv \<Rightarrow>
          if cd_ReadOnly (cv_declaration cv) then Inl (ReadOnlyKey key)
          else case run_validate (cv_declaration cv) value of
                 Some e \<Rightarrow> Inl (ValidationFailed key e)
               | None \<Rightarrow>
                   Inr (c\<lparr>cfg_data := AList.update key
                          (cv\<lparr>cv_value := Some value, cv_setCounter := cv_setCounter cv + 1\<rparr>)
                          (cfg_data c)\<rparr>))"

definition isSecret :: "'cb Config \<Rightarrow> string \<Rightarrow> bool" where
  "isSecret c key =
     (case find (\<lambda>(k, cv). cd_Key (cv_declaration cv) = key) (cfg_data c) of
        None \<Rightarrow> False
      | Some (k, cv) \<Rightarrow> cd_IsSecret (cv_declaration cv))"

definition TrySet ::
  "'cb Config \<Rightarrow> string \<Rightarrow> string \<Rightarrow> config_error + ('cb Config \<times> 'cb callback_call list)" where
  "TrySet c key value =
     (case set_value c key value of
        Inl e \<Rightarrow> Inl e
      | Inr c' \<Rightarrow> Inr (c', runOnChangedCallbacks c' key value (isSecret c' key)))"

text \<open>\<open>Set\<close> panics with the error \<open>TrySet\<close> returns.\<close>

definition Set ::
  "'cb Config \<Rightarrow> string \<Rightarrow> string \<Rightarrow> config_error + ('cb Config \<times> 'cb callback_call list)" where
  "Set c key value = (case TrySet c key value of Inl e \<Rightarrow> Inl e | Inr r \<Rightarrow> Inr r)"

text \<open>\<open>OnChanged\<close>: \<open>keys == nil\<close> is normalised to the empty list.\<close>

definition OnChanged :: "'cb Config \<Rightarrow> string list option \<Rightarrow> 'cb \<Rightarrow> 'cb Config" where
  "OnChanged c keys cb =
     c\<lparr>cfg_onChangedCallbacks := cfg_onChangedCallbacks c @
        [\<lparr>oc_onKeys = (case keys of None \<Rightarrow> [] | Some ks \<Rightarrow> ks), oc_callback = cb\<rparr>]\<rparr>"

definition GetUsage :: "'cb Config \<Rightarrow> Usage list" where
  "GetUsage c =
     stable_sort (\<lambda>u v. us_Key u < us_Key v)
       (map (\<lambda>(k, cv). \<lparr>us_Key = k, us_Initialized = (cv_value cv \<noteq> None),
                        us_SetCalls = cv_setCounter cv, us_GetCalls = cv_getCounter cv\<rparr>)
         (cfg_data c))"

text \<open>\<open>LoadEnvs\<close>: for one entry, the variable named like the key, otherwise the first alias
  that is set. A value its declaration rejects is a panic.\<close>

fun first_env :: "(string \<rightharpoonup> string) \<Rightarrow> string list \<Rightarrow> string option" where
  "first_env env [] = None"
| "first_env env (a # as) = (case env a of Some v \<Rightarrow> Some v | None \<Rightarrow> first_env env as)"

definition load_env_entry :: "(string \<rightharpoonup> string) \<Rightarrow> string \<Rightarrow> configValue \<Rightarrow> config_error + configValue" where
  "load_env_entry env key cv =
     (case first_env env (key # cd_Envs (cv_declaration cv)) of
        None \<Rightarrow> Inr cv
      | Some v \<Rightarrow>
          (case run_validate (cv_declaration cv) v of
             Some e \<Rightarrow> Inl AssertFailed
           | None \<Rightarrow> Inr (cv\<lparr>cv_value := Some v\<rparr>)))"

fun load_envs :: "(string \<rightharpoonup> string) \<Rightarrow> (string, configValue) gomap \<Rightarrow>
    config_error + (string, configValue) gomap" where
  "load_envs env [] = Inr []"
| "load_envs env ((key, cv) # m) =
     (case load_env_entry env key cv of
        Inl e \<Rightarrow> Inl e
      | Inr cv' \<Rightarrow> (case load_envs env m of Inl e \<Rightarrow> Inl e | Inr m' \<Rightarrow> Inr ((key, cv') # m')))"

definition LoadEnvs :: "(string \<rightharpoonup> string) \<Rightarrow> 'cb Config \<Rightarrow> config_error + 'cb Config" where
  "LoadEnvs env c =
     (case load_envs env (cfg_data c) of
        Inl e \<Rightarrow> Inl e
      | Inr m \<Rightarrow> Inr (c\<lparr>cfg_data := m\<rparr>))"

definition GetAll :: "'cb Config \<Rightarrow> ConfigVariable list" where
  "GetAll c =
     List.map_filter
       (\<lambda>(k, cv). case cv_value cv of
                    None \<Rightarrow> None
                  | Some v \<Rightarrow> Some \<lparr>var_Key = k, var_Value = v,
                                     var_IsSecret = cd_IsSecret (cv_declaration cv)\<rparr>)
       (cfg_data c)"

section \<open>Well-formedness\<close>

text \<open>Keys are unique, name their declaration, are not empty and hold no newline.\<close>

definition cfg_wf :: "'cb Config \<Rightarrow> bool" where
  "cfg_wf c \<longleftrightarrow> wf_map (cfg_data c) \<and>
     list_all (\<lambda>(k, cv). cd_Key (cv_declaration cv) = k \<and> k \<noteq> [] \<and> newline \<notin> set k) (cfg_data c)"

text \<open>A stored value is the declared default or was accepted by the declared validation.\<close>

definition cfg_validated :: "'cb Config \<Rightarrow> bool" where
  "cfg_validated c \<longleftrightarrow>
     list_all (\<lambda>(k, cv). case cv_value cv of
         None \<Rightarrow> True
       | Some v \<Rightarrow> cv_value cv = cd_DefaultValue (cv_declaration cv)
                   \<or> run_validate (cv_declaration cv) v = None) (cfg_data c)"

definition config_value :: "'cb Config \<Rightarrow> string \<Rightarrow> string option" where
  "config_value c k = Option.bind (map_of (cfg_data c) k) cv_value"

lemma cfg_wf_lookup:
  "cfg_wf c \<Longrightarrow> map_of (cfg_data c) k = Some cv \<Longrightarrow>
   cd_Key (cv_declaration cv) = k \<and> k \<noteq> [] \<and> newline \<notin> set k"
  by (auto simp: cfg_wf_def list_all_iff dest!: map_of_SomeD)

lemma list_all_update:
  "list_all P m \<Longrightarrow> P (k, v) \<Longrightarrow> list_all P (AList.update k v m)"
  by (induction m) auto

lemma wf_update:
  assumes "cfg_wf c" "cd_Key (cv_declaration cv) = k" "k \<noteq> []" "newline \<notin> set k"
  shows "cfg_wf (c\<lparr>cfg_data := AList.update k cv (cfg_data c)\<rparr>)"
  using assms by (auto simp: cfg_wf_def intro!: list_all_update)

lemma Declare_wf: "cfg_wf c \<Longrightarrow> Declare c d = Inr (c', calls) \<Longrightarrow> cfg_wf c'"
  by (auto simp: Declare_def declaration_ok_def Let_def intro!: wf_update split: if_splits)

lemma getValueForKey_wf:
  "cfg_wf c \<Longrightarrow> getValueForKey c k = Inr (c', cv, v) \<Longrightarrow> cfg_wf c'"
  by (auto simp: getValueForKey_def Let_def intro!: wf_update dest: cfg_wf_lookup
      split: if_splits option.splits)

lemma set_value_wf: "cfg_wf c \<Longrightarrow> set_value c k v = Inr c' \<Longrightarrow> cfg_wf c'"
  by (auto simp: set_value_def intro!: wf_update dest: cfg_wf_lookup
      split: if_splits option.splits)

lemma load_envs_keys: "load_envs env m = Inr m' \<Longrightarrow> map fst m' = map fst m"
  by (induction m arbitrary: m') (auto split: sum.splits)

lemma load_env_entry_decl:
  "load_env_entry env k cv = Inr cv' \<Longrightarrow> cv_declaration cv' = cv_declaration cv"
  by (auto simp: load_env_entry_def split: option.splits)

lemma load_envs_all:
  assumes "load_envs env m = Inr m'"
    and "\<And>k cv cv'. P (k, cv) \<Longrightarrow> load_env_entry env k cv = Inr cv' \<Longrightarrow> Q (k, cv')"
    and "list_all P m"
  shows "list_all Q m'"
  using assms(1,3)
proof (induction m arbitrary: m')
  case Nil
  then show ?case by simp
next
  case (Cons e m)
  obtain k cv where e: "e = (k, cv)" by (cases e)
  with Cons.prems obtain cv' m1 where "load_env_entry env k cv = Inr cv'"
    "load_envs env m = Inr m1" "m' = (k, cv') # m1"
    by (auto split: sum.splits)
  with Cons e assms(2) [of k cv cv'] show ?case by simp
qed

lemma load_envs_lookup:
  "load_envs env m = Inr m' \<Longrightarrow> map_of m k = Some cv \<Longrightarrow>
   \<exists>cv'. load_env_entry env k cv = Inr cv' \<and> map_of m' k = Some cv'"
  by (induction m arbitrary: m') (auto split: sum.splits if_splits)

lemma LoadEnvs_wf:
  assumes "cfg_wf c" "LoadEnvs env c = Inr c'"
  shows "cfg_wf c'"
proof -
  obtain m where m: "load_envs env (cfg_data c) = Inr m" "c' = c\<lparr>cfg_data := m\<rparr>"
    using assms(2) by (auto simp: LoadEnvs_def split: sum.splits)
  let ?P = "\<lambda>(k, cv). cd_Key (cv_declaration cv) = k \<and> k \<noteq> [] \<and> newline \<notin> set k"
  have "list_all ?P m"
    by (rule load_envs_all [OF m(1), where P = ?P])
      (use assms(1) in \<open>auto simp: cfg_wf_def load_env_entry_decl\<close>)
  then show ?thesis using assms(1) m load_envs_keys [OF m(1)] by (simp add: cfg_wf_def)
qed

lemma TryGet_reads: "TryGet c k = Inr (c', v) \<Longrightarrow> config_value c k = Some v"
  by (auto simp: TryGet_def getValueForKey_def config_value_def Let_def
      split: if_splits option.splits)

lemma getValueForKey_keeps:
  "getValueForKey c k = Inr (c', cv, v) \<Longrightarrow> config_value c' k' = config_value c k'"
  by (auto simp: getValueForKey_def config_value_def Let_def split: if_splits option.splits)

lemma set_value_value:
  "set_value c k v = Inr c' \<Longrightarrow> config_value c' k' = (if k' = k then Some v else config_value c k')"
  by (auto simp: set_value_def config_value_def split: if_splits option.splits)

lemma set_value_callbacks:
  "set_value c k v = Inr c' \<Longrightarrow> cfg_onChangedCallbacks c' = cfg_onChangedCallbacks c"
  by (auto simp: set_value_def split: if_splits option.splits)

lemma set_value_declaration:
  "set_value c k v = Inr c' \<Longrightarrow>
   map_option cv_declaration (map_of (cfg_data c') k')
     = map_option cv_declaration (map_of (cfg_data c) k')"
  by (auto simp: set_value_def split: if_splits option.splits)

lemma TryGet_value:
  "k \<noteq> [] \<Longrightarrow> config_value c k = Some v \<Longrightarrow> \<exists>c'. TryGet c k = Inr (c', v)"
  by (auto simp: TryGet_def getValueForKey_def config_value_def Let_def bind_eq_Some_conv)

lemma isSecret_lookup:
  assumes "cfg_wf c" "map_of (cfg_data c) k = Some cv"
  shows "isSecret c k = cd_IsSecret (cv_declaration cv)"
proof -
  let ?P = "\<lambda>(k', cv'). cd_Key (cv_declaration cv') = k"
  have in_c: "(k, cv) \<in> set (cfg_data c)" using assms(2) by (rule map_of_SomeD)
  have key: "\<And>k' cv'. (k', cv') \<in> set (cfg_data c) \<Longrightarrow> cd_Key (cv_declaration cv') = k'"
    using assms(1) by (auto simp: cfg_wf_def list_all_iff)
  have "find ?P (cfg_data c) = Some (k, cv)"
  proof (cases "find ?P (cfg_data c)")
    case None
    with in_c key show ?thesis by (auto simp: find_None_iff)
  next
    case (Some e)
    then have "e \<in> set (cfg_data c)" "?P e" by (auto simp: find_Some_iff in_set_conv_nth)
    moreover obtain k' cv' where e: "e = (k', cv')" by (cases e)
    ultimately have kcv: "(k', cv') \<in> set (cfg_data c)" "cd_Key (cv_declaration cv') = k" by simp_all
    then have "k' = k" using key [of k' cv'] by simp
    have "map_of (cfg_data c) k = Some cv'"
      using kcv assms(1) \<open>k' = k\<close> by (simp add: cfg_wf_def map_of_is_SomeI)
    with assms(2) have "cv' = cv" by simp
    with \<open>k' = k\<close> e Some show ?thesis by simp
  qed
  then show ?thesis by (simp add: isSecret_def)
qed

section \<open>The contract of a key-value configuration\<close>

locale key_store =
  fixes read :: "'s \<Rightarrow> string \<Rightarrow> string option"
    and store :: "'s \<Rightarrow> string \<Rightarrow> string \<Rightarrow> 'e + 's"
    and inv :: "'s \<Rightarrow> bool"
  assumes store_read: "inv s \<Longrightarrow> store s k v = Inr s' \<Longrightarrow>
      read s' k' = (if k' = k then Some v else read s k')"
    and store_inv: "inv s \<Longrightarrow> store s k v = Inr s' \<Longrightarrow> inv s'"
begin

fun store_all :: "'s \<Rightarrow> (string \<times> string) list \<Rightarrow> 'e + 's" where
  "store_all s [] = Inr s"
| "store_all s ((k, v) # kvs) =
     (case store s k v of Inl e \<Rightarrow> Inl e | Inr s' \<Rightarrow> store_all s' kvs)"

text \<open>A sequence of writes: every key reads as the last value written to it.\<close>

lemma last_write_wins:
  "inv s \<Longrightarrow> store_all s kvs = Inr s' \<Longrightarrow> read s' = read s ++ map_of (rev kvs)"
proof (induction kvs arbitrary: s)
  case Nil
  then show ?case by simp
next
  case (Cons kv kvs)
  obtain k0 v0 where kv: "kv = (k0, v0)" by (cases kv)
  with Cons.prems obtain s1 where s1: "store s k0 v0 = Inr s1" "store_all s1 kvs = Inr s'"
    by (auto split: sum.splits)
  have "inv s1" using store_inv [OF Cons.prems(1) s1(1)] .
  from Cons.IH [OF this s1(2)] have "read s' = read s1 ++ map_of (rev kvs)" .
  moreover have "read s1 = (read s)(k0 \<mapsto> v0)"
    using store_read [OF Cons.prems(1) s1(1)] by (simp add: fun_eq_iff)
  ultimately show ?case using kv by (simp add: map_add_def fun_eq_iff split: option.splits)
qed

lemma store_all_inv: "inv s \<Longrightarrow> store_all s kvs = Inr s' \<Longrightarrow> inv s'"
  by (induction s kvs rule: store_all.induct) (auto split: sum.splits intro: store_inv)

end

text \<open>What the callers of the configuration use: \<open>TrySet\<close> without its callback calls.\<close>

definition set_only :: "'cb Config \<Rightarrow> string \<Rightarrow> string \<Rightarrow> config_error + 'cb Config" where
  "set_only c k v = (case TrySet c k v of Inl e \<Rightarrow> Inl e | Inr (c', _) \<Rightarrow> Inr c')"

lemma set_only_eq: "set_only c k v = set_value c k v"
  by (auto simp: set_only_def TrySet_def split: sum.splits)

interpretation cfg: key_store config_value set_only cfg_wf
  by unfold_locales (auto simp: set_only_eq set_value_value set_value_wf)

section \<open>Reachable configurations\<close>

text \<open>The states an operator run can reach: any order of declarations, reads, writes,
  callback registrations and environment loads, from \<open>NewConfig\<close>. A failing operation
  leaves the state as it is (the process panics or the caller gets the error).\<close>

inductive config_reach :: "(string \<rightharpoonup> string) \<Rightarrow> 'cb Config \<Rightarrow> bool" for env where
  reach_new: "config_reach env NewConfig"
| reach_declare: "config_reach env c \<Longrightarrow> Declare c d = Inr (c', calls) \<Longrightarrow> config_reach env c'"
| reach_get: "config_reach env c \<Longrightarrow> getValueForKey c k = Inr (c', cv, v) \<Longrightarrow> config_reach env c'"
| reach_set: "config_reach env c \<Longrightarrow> TrySet c k v = Inr (c', calls) \<Longrightarrow> config_reach env c'"
| reach_onchanged: "config_reach env c \<Longrightarrow> config_reach env (OnChanged c ks cb)"
| reach_load: "config_reach env c \<Longrightarrow> LoadEnvs env c = Inr c' \<Longrightarrow> config_reach env c'"

lemma TrySet_set_value: "TrySet c k v = Inr (c', calls) \<Longrightarrow> set_value c k v = Inr c'"
  by (auto simp: TrySet_def split: sum.splits)

lemma config_reach_wf: "config_reach env c \<Longrightarrow> cfg_wf c"
proof (induction rule: config_reach.induct)
  case reach_new
  show ?case by (simp add: NewConfig_def cfg_wf_def)
next
  case (reach_onchanged c ks cb)
  then show ?case by (simp add: OnChanged_def cfg_wf_def)
qed (blast intro: Declare_wf getValueForKey_wf set_value_wf LoadEnvs_wf TrySet_set_value)+

lemma validated_update:
  assumes "cfg_validated c"
    and "\<And>v. cv_value cv = Some v \<Longrightarrow> cv_value cv = cd_DefaultValue (cv_declaration cv)
            \<or> run_validate (cv_declaration cv) v = None"
  shows "cfg_validated (c\<lparr>cfg_data := AList.update k cv (cfg_data c)\<rparr>)"
  using assms by (auto simp: cfg_validated_def intro!: list_all_update split: option.splits)

lemma Declare_validated: "cfg_validated c \<Longrightarrow> Declare c d = Inr (c', calls) \<Longrightarrow> cfg_validated c'"
  by (auto simp: Declare_def Let_def intro!: validated_update split: if_splits)

lemma validated_lookup:
  "cfg_validated c \<Longrightarrow> map_of (cfg_data c) k = Some cv \<Longrightarrow> cv_value cv = Some v \<Longrightarrow>
   cv_value cv = cd_DefaultValue (cv_declaration cv) \<or> run_validate (cv_declaration cv) v = None"
  by (auto simp: cfg_validated_def list_all_iff dest!: map_of_SomeD split: option.splits)

lemma getValueForKey_validated:
  "cfg_validated c \<Longrightarrow> getValueForKey c k = Inr (c', cv, v) \<Longrightarrow> cfg_validated c'"
  by (auto simp: getValueForKey_def Let_def intro!: validated_update dest: validated_lookup
      split: if_splits option.splits)

lemma set_value_validated:
  "cfg_validated c \<Longrightarrow> set_value c k v = Inr c' \<Longrightarrow> cfg_validated c'"
  by (auto simp: set_value_def intro!: validated_update split: if_splits option.splits)

lemma LoadEnvs_validated:
  assumes "cfg_validated c" "LoadEnvs env c = Inr c'"
  shows "cfg_validated c'"
proof -
  obtain m where m: "load_envs env (cfg_data c) = Inr m" "c' = c\<lparr>cfg_data := m\<rparr>"
    using assms(2) by (auto simp: LoadEnvs_def split: sum.splits)
  let ?P = "\<lambda>(k, cv). case cv_value cv of
         None \<Rightarrow> True
       | Some v \<Rightarrow> cv_value cv = cd_DefaultValue (cv_declaration cv)
                   \<or> run_validate (cv_declaration cv) v = None"
  have "list_all ?P m"
    by (rule load_envs_all [OF m(1), where P = ?P])
      (use assms(1) in \<open>auto simp: cfg_validated_def load_env_entry_def split: option.splits\<close>)
  then show ?thesis using m by (simp add: cfg_validated_def)
qed

lemma config_reach_validated: "config_reach env c \<Longrightarrow> cfg_validated c"
proof (induction rule: config_reach.induct)
  case reach_new
  show ?case by (simp add: NewConfig_def cfg_validated_def)
next
  case (reach_onchanged c ks cb)
  then show ?case by (simp add: OnChanged_def cfg_validated_def)
qed (blast intro: Declare_validated getValueForKey_validated set_value_validated
       LoadEnvs_validated TrySet_set_value)+

section \<open>Properties\<close>

definition example_decl :: ConfigDeclaration where
  "example_decl = \<lparr>cd_Key = ''MO_STAGE'', cd_Type = Some ConfigVariableTypeString,
     cd_DefaultValue = Some ''prod'', cd_Description = None, cd_IsSecret = True,
     cd_ReadOnly = False, cd_Envs = [''STAGE''],
     cd_Validate = Some (\<lambda>v. if v = [] then Some ''empty'' else None)\<rparr>"

definition example_config :: "nat Config" where
  "example_config =
     (case Declare (OnChanged (OnChanged NewConfig None 7) (Some [''OTHER'']) 8) example_decl of
        Inr (c, _) \<Rightarrow> c | Inl _ \<Rightarrow> NewConfig)"

text \<open>C1. In every configuration an operator run can reach, keys are unique, non-empty,
  newline-free and name their own declaration, and every stored value is either the declared
  default or a value the declared validation accepted: no order of \<open>Declare\<close>, reads,
  \<open>TrySet\<close>, \<open>OnChanged\<close> and \<open>LoadEnvs\<close> can get a rejected value in.\<close>

theorem config_reach_inv:
  assumes "config_reach env c"
  shows "cfg_wf c \<and> cfg_validated c"
  using assms config_reach_wf config_reach_validated by blast

theorem config_reach_inv_witness:
  "config_reach Map.empty example_config \<and> cfg_wf example_config \<and> cfg_validated example_config"
proof -
  let ?c0 = "OnChanged (OnChanged NewConfig None 7) (Some [''OTHER'']) (8::nat)"
  have "declaration_ok ?c0 example_decl"
    by (simp add: declaration_ok_def example_decl_def OnChanged_def NewConfig_def)
  then obtain c' calls where d: "Declare ?c0 example_decl = Inr (c', calls)"
    by (simp add: Declare_def Let_def)
  have "config_reach Map.empty c'"
    by (rule reach_declare [OF _ d]) (intro reach_onchanged reach_new)
  with d have r: "config_reach Map.empty example_config" by (simp add: example_config_def)
  with config_reach_inv [OF r] show ?thesis by simp
qed

text \<open>What \<open>TrySet\<close> does to the map of values: it stores the value exactly when the key
  is declared, is not read-only and its validation accepts the value; otherwise it reports which
  of the three failed, in that order, and nothing is stored.\<close>

lemma TrySet_outcome:
  "map_sum id (\<lambda>(c', calls). config_value c') (TrySet c key value) =
     (case map_of (cfg_data c) key of
        None \<Rightarrow> Inl (Undeclared key)
      | Some cv \<Rightarrow>
          if cd_ReadOnly (cv_declaration cv) then Inl (ReadOnlyKey key)
          else case run_validate (cv_declaration cv) value of
                 Some e \<Rightarrow> Inl (ValidationFailed key e)
               | None \<Rightarrow> Inr ((config_value c)(key \<mapsto> value)))"
proof (cases "set_value c key value")
  case (Inl e)
  then show ?thesis
    by (auto simp: TrySet_def set_value_def split: option.splits if_splits)
next
  case (Inr c')
  have "config_value c' = (config_value c)(key \<mapsto> value)"
    using set_value_value [OF Inr] by (simp add: fun_eq_iff)
  with Inr show ?thesis
    by (auto simp: TrySet_def set_value_def split: option.splits if_splits)
qed

text \<open>C2. A successful \<open>TrySet\<close> is visible to the next \<open>TryGet\<close> of that key and calls
  exactly the callbacks registered for all keys or for that key, in registration order, with the
  new value and the declaration's secrecy.\<close>

theorem TrySet_effect:
  assumes wf: "cfg_wf c" and ok: "TrySet c key value = Inr (c', calls)"
  shows "(\<exists>c''. TryGet c' key = Inr (c'', value)) \<and>
    (\<exists>cv. map_of (cfg_data c) key = Some cv \<and>
       calls = map (\<lambda>cb. (oc_callback cb, key, value, cd_IsSecret (cv_declaration cv)))
                 (filter (\<lambda>cb. oc_onKeys cb = [] \<or> key \<in> set (oc_onKeys cb))
                   (cfg_onChangedCallbacks c)))"
proof -
  have sv: "set_value c key value = Inr c'" using ok by (rule TrySet_set_value)
  have wf': "cfg_wf c'" using wf sv by (rule set_value_wf)
  obtain cv where cv: "map_of (cfg_data c) key = Some cv"
    using sv by (auto simp: set_value_def split: option.splits)
  have ne: "key \<noteq> []" using cfg_wf_lookup [OF wf cv] by simp
  have get: "\<exists>c''. TryGet c' key = Inr (c'', value)"
    using TryGet_value [OF ne] set_value_value [OF sv, of key] by simp
  from cv obtain cv' where cv': "map_of (cfg_data c') key = Some cv'"
      "cv_declaration cv' = cv_declaration cv"
    using set_value_declaration [OF sv, of key] by auto
  have "calls = runOnChangedCallbacks c' key value (cd_IsSecret (cv_declaration cv))"
    using ok sv isSecret_lookup [OF wf' cv'(1)] cv'(2) by (simp add: TrySet_def)
  with get cv set_value_callbacks [OF sv] show ?thesis
    by (simp add: runOnChangedCallbacks_def callback_selected_def)
qed

lemma example_config_eq:
  "example_config = \<lparr>cfg_data = [(''MO_STAGE'', \<lparr>cv_value = Some ''prod'',
       cv_declaration = example_decl, cv_getCounter = 0, cv_setCounter = 1\<rparr>)],
     cfg_onChangedCallbacks = [\<lparr>oc_onKeys = [], oc_callback = 7\<rparr>,
       \<lparr>oc_onKeys = [''OTHER''], oc_callback = 8\<rparr>]\<rparr>"
proof -
  let ?c0 = "OnChanged (OnChanged NewConfig None 7) (Some [''OTHER'']) (8::nat)"
  have "declaration_ok ?c0 example_decl"
    by (simp add: declaration_ok_def example_decl_def OnChanged_def NewConfig_def)
  then show ?thesis
    by (simp add: example_config_def Declare_def Let_def)
       (simp add: example_decl_def OnChanged_def NewConfig_def)
qed

theorem TrySet_effect_witness:
  "\<exists>c'. TrySet example_config ''MO_STAGE'' ''dev'' = Inr (c', [(7, ''MO_STAGE'', ''dev'', True)])
        \<and> (\<exists>c''. TryGet c' ''MO_STAGE'' = Inr (c'', ''dev''))"
proof -
  have wf: "cfg_wf example_config"
    by (simp add: example_config_eq cfg_wf_def example_decl_def)
  obtain c' calls where t: "TrySet example_config ''MO_STAGE'' ''dev'' = Inr (c', calls)"
    by (simp add: TrySet_def set_value_def example_config_eq run_validate_def example_decl_def)
  from TrySet_effect [OF wf t] have "calls = [(7, ''MO_STAGE'', ''dev'', True)]"
    "\<exists>c''. TryGet c' ''MO_STAGE'' = Inr (c'', ''dev'')"
    by (auto simp: example_config_eq example_decl_def)
  with t show ?thesis by blast
qed

lemma Validate_entry_ok:
  assumes "cfg_wf c" "Validate c = Inr ()" "map_of (cfg_data c) key = Some cv"
  shows "validate_entry key cv = None"
proof -
  have "\<forall>(k, cv) \<in> set (cfg_data c). validate_entry k cv = None"
    using assms(2) by (auto simp: Validate_def Let_def map_filter_def filter_empty_conv
        split: if_splits)
  with assms(3) show ?thesis by (auto dest!: map_of_SomeD)
qed

text \<open>C3. When \<open>Validate()\<close> lets the process start, every declared key is readable with a
  value its validation accepts, and every key declared as an integer or a boolean is readable
  through the typed getter.\<close>

theorem Validate_makes_readable:
  assumes wf: "cfg_wf c" and ok: "Validate c = Inr ()"
    and decl: "map_of (cfg_data c) key = Some cv"
  shows "\<exists>c' v. TryGet c key = Inr (c', v) \<and> run_validate (cv_declaration cv) v = None
    \<and> (cd_Type (cv_declaration cv) = Some ConfigVariableTypeInt \<longrightarrow>
         (\<exists>n. snd (TryGetInt c key) = Inr n \<and> parse_int64 v = Some n))
    \<and> (cd_Type (cv_declaration cv) = Some ConfigVariableTypeBool \<longrightarrow>
         (\<exists>b. snd (TryGetBool c key) = Inr b \<and> parse_bool v = Some b))"
proof -
  have e: "validate_entry key cv = None" by (rule Validate_entry_ok [OF assms])
  then obtain v where v: "cv_value cv = Some v" "run_validate (cv_declaration cv) v = None"
    by (auto simp: validate_entry_def split: option.splits)
  have "key \<noteq> []" using cfg_wf_lookup [OF wf decl] by simp
  then obtain c' cv' where g: "getValueForKey c key = Inr (c', cv', v)"
      "cv_declaration cv' = cv_declaration cv"
    using decl v(1) by (simp add: getValueForKey_def Let_def)
  then have "TryGet c key = Inr (c', v)" by (simp add: TryGet_def)
  then show ?thesis using v(2) g e v(1)
    by (auto simp: TryGetInt_def TryGetBool_def validate_entry_def split: option.splits if_splits)
qed

theorem Validate_makes_readable_witness:
  "\<exists>c' v. TryGet example_config ''MO_STAGE'' = Inr (c', v)
     \<and> run_validate example_decl v = None"
proof -
  have wf: "cfg_wf example_config"
    by (simp add: example_config_eq cfg_wf_def example_decl_def)
  have ok: "Validate example_config = Inr ()"
    by (simp add: Validate_def example_config_eq map_filter_def validate_entry_def run_validate_def
        example_decl_def)
  have d: "map_of (cfg_data example_config) ''MO_STAGE'' = Some \<lparr>cv_value = Some ''prod'',
       cv_declaration = example_decl, cv_getCounter = 0, cv_setCounter = 1\<rparr>"
    by (simp add: example_config_eq)
  from Validate_makes_readable [OF wf ok d] show ?thesis by auto
qed

lemma first_env_find:
  "first_env env as = Option.bind (find (\<lambda>a. env a \<noteq> None) as) env"
  by (induction as) (auto split: option.splits)

lemma first_env_None:
  "first_env env as = None \<longleftrightarrow> find (\<lambda>a. env a \<noteq> None) as = None"
  by (induction as) (auto split: option.splits)

text \<open>\<open>LoadEnvs\<close> gives a declared key the variable named like the key if it is set,
  otherwise the first set alias of its declaration, otherwise leaves its value; the access and
  write counters do not move.\<close>

lemma LoadEnvs_precedence:
  assumes ok: "LoadEnvs env c = Inr c'" and decl: "map_of (cfg_data c) key = Some cv"
  shows "\<exists>cv'. map_of (cfg_data c') key = Some cv'
    \<and> cv_value cv' =
        (if env key \<noteq> None then env key
         else case find (\<lambda>a. env a \<noteq> None) (cd_Envs (cv_declaration cv)) of
                Some a \<Rightarrow> env a
              | None \<Rightarrow> cv_value cv)
    \<and> cv_setCounter cv' = cv_setCounter cv \<and> cv_getCounter cv' = cv_getCounter cv"
proof -
  obtain m where m: "load_envs env (cfg_data c) = Inr m" "c' = c\<lparr>cfg_data := m\<rparr>"
    using ok by (auto simp: LoadEnvs_def split: sum.splits)
  obtain cv' where cv': "load_env_entry env key cv = Inr cv'" "map_of m key = Some cv'"
    using load_envs_lookup [OF m(1) decl] by blast
  show ?thesis
  proof (cases "first_env env (key # cd_Envs (cv_declaration cv))")
    case None
    with cv' m(2) show ?thesis
      by (auto simp: load_env_entry_def first_env_None split: option.splits)
  next
    case (Some v)
    with cv' m(2) show ?thesis
      by (auto simp: load_env_entry_def first_env_find split: option.splits bind_splits)
  qed
qed

end
