(* ===== verification/Secrets.thy ===== *)
theory Secrets
  imports ConfigModule
begin

text \<open>
  \<open>secrets/secrets.go\<close>: masking of configured secret values in log lines and audit
  entries. The state is the set of known secret values and the cached pattern. The pattern is
  an alternation of quoted literals, so it is modelled by the list of its alternatives in
  order; \<open>ReplaceAllString\<close> takes the leftmost match and, among the alternatives that match
  there, the first one of the list (Go's leftmost-first rule).
\<close>

section \<open>Operations\<close>

definition REDACTED :: string where
  "REDACTED = ''***[REDACTED]***''"

record secrets_state =
  configSecrets :: "string HashSet"
  secretPattern :: "string list option"

text \<open>\<open>buildSecretPattern\<close>: \<open>None\<close> (a nil pattern) when there is no secret, a panic
  (\<open>Inl\<close>) when one of them is empty.\<close>

definition buildSecretPattern :: "string list \<Rightarrow> config_error + string list option" where
  "buildSecretPattern values =
     (if values = [] then Inr None
      else let sorted = stable_sort (\<lambda>a b. length a > length b) values
           in if [] \<in> set sorted then Inl AssertFailed else Inr (Some sorted))"

fun collect_secrets :: "string HashSet \<Rightarrow> ConfigVariable list \<Rightarrow> string HashSet" where
  "collect_secrets h [] = h"
| "collect_secrets h (cv # cvs) =
     (if \<not> var_IsSecret cv then collect_secrets h cvs
      else if var_Value cv = [] then collect_secrets h cvs
      else collect_secrets (fst (Insert h (var_Value cv))) cvs)"

definition UpdateConfigSecrets ::
  "secrets_state \<Rightarrow> ConfigVariable list \<Rightarrow> config_error + secrets_state" where
  "UpdateConfigSecrets st configVariables =
     (let newConfigSecrets = collect_secrets NewHashSet configVariables;
          st' = st\<lparr>configSecrets := newConfigSecrets\<rparr>
      in case buildSecretPattern (Slice newConfigSecrets) of
           Inl e \<Rightarrow> Inl e
         | Inr pat \<Rightarrow> Inr (st'\<lparr>secretPattern := pat\<rparr>))"

definition SecretArray :: "secrets_state \<Rightarrow> string list" where
  "SecretArray st = Slice (configSecrets st)"

text \<open>The pieces a line is cut into by the pattern: kept bytes (\<open>Inl\<close>) and matched
  secrets (\<open>Inr\<close>).\<close>

definition first_match :: "string list \<Rightarrow> string \<Rightarrow> string option" where
  "first_match alts s = find (\<lambda>a. a \<noteq> [] \<and> prefix a s) alts"

function pieces :: "string list \<Rightarrow> string \<Rightarrow> (char + string) list" where
  "pieces alts [] = []"
| "pieces alts (c # s) =
     (case first_match alts (c # s) of
        None \<Rightarrow> Inl c # pieces alts s
      | Some a \<Rightarrow> Inr a # pieces alts (drop (length a - 1) s))"
  by pat_completeness auto
termination
  by (relation "measure (\<lambda>(alts, s). length s)") auto

definition ReplaceAllString :: "string list \<Rightarrow> string \<Rightarrow> string \<Rightarrow> string" where
  "ReplaceAllString alts data repl =
     concat (map (case_sum (\<lambda>c. [c]) (\<lambda>a. repl)) (pieces alts data))"

definition EraseSecrets :: "secrets_state \<Rightarrow> string \<Rightarrow> string" where
  "EraseSecrets st data =
     (case secretPattern st of
        None \<Rightarrow> data
      | Some pat \<Rightarrow> ReplaceAllString pat data REDACTED)"

section \<open>Lemmas\<close>

interpretation by_length: go_less "\<lambda>a b :: string. length a > length b"
  by unfold_locales auto

lemma first_match_Some:
  "first_match alts s = Some a \<Longrightarrow> a \<in> set alts \<and> a \<noteq> [] \<and> prefix a s"
  by (auto simp: first_match_def find_Some_iff in_set_conv_nth)

lemma first_match_None:
  "first_match alts s = None \<Longrightarrow> a \<in> set alts \<Longrightarrow> a \<noteq> [] \<Longrightarrow> \<not> prefix a s"
  by (auto simp: first_match_def find_None_iff)

text \<open>Putting the pieces back together gives the line.\<close>

lemma pieces_concat: "concat (map (case_sum (\<lambda>c. [c]) id) (pieces alts s)) = s"
proof (induction alts s rule: pieces.induct)
  case (1 alts)
  then show ?case by simp
next
  case (2 alts c s)
  show ?case
  proof (cases "first_match alts (c # s)")
    case None
    with 2 show ?thesis by simp
  next
    case (Some a)
    then have "a \<noteq> []" "prefix a (c # s)" using first_match_Some by auto
    then obtain a' where a: "a = c # a'" "prefix a' s" by (cases a) auto
    then have "a' @ drop (length a') s = s" by (auto simp: prefix_def)
    with 2 Some a show ?thesis by simp
  qed
qed

lemma pieces_no_alts: "pieces [] s = map Inl s"
  by (induction s) (auto simp: first_match_def)

lemma concat_kept: "concat (map (case_sum (\<lambda>c. [c]) f) (map Inl s)) = s"
  by (induction s) auto

lemma pieces_matched: "Inr a \<in> set (pieces alts s) \<Longrightarrow> a \<in> set alts \<and> a \<noteq> []"
proof (induction alts s rule: pieces.induct)
  case (1 alts)
  then show ?case by simp
next
  case (2 alts c s)
  then show ?case using first_match_Some [of alts "c # s"] by (auto split: option.splits)
qed

lemma pieces_rest: "pieces alts s = x # rest \<Longrightarrow> \<exists>s'. rest = pieces alts s'"
  by (cases s) (auto split: option.splits)

lemma pieces_suffix: "pieces alts s = A @ rest \<Longrightarrow> \<exists>s'. rest = pieces alts s'"
proof (induction A arbitrary: s)
  case Nil
  then show ?case by auto
next
  case (Cons x A)
  then obtain s' where "A @ rest = pieces alts s'" using pieces_rest [of alts s x "A @ rest"] by auto
  then show ?case using Cons.IH [of s'] by simp
qed

lemma pieces_kept_prefix: "pieces alts s = map Inl t @ B \<Longrightarrow> prefix t s"
proof -
  assume "pieces alts s = map Inl t @ B"
  then have "concat (map (case_sum (\<lambda>c. [c]) id) (map Inl t @ B)) = s"
    using pieces_concat [of alts s] by simp
  moreover have "concat (map (case_sum (\<lambda>c. [c]) id) (map Inl t)) = t"
    by (induction t) auto
  ultimately show ?thesis by (auto simp: prefix_def)
qed

text \<open>A run of kept bytes holds no alternative.\<close>

lemma kept_run_clean:
  assumes p: "pieces alts s = A @ map Inl t @ B" and a: "a \<in> set alts" "a \<noteq> []"
  shows "\<not> str_contains t a"
proof
  assume "str_contains t a"
  then obtain u v where t: "t = u @ a @ v" by (auto simp: str_contains_iff)
  with p have "pieces alts s = (A @ map Inl u) @ map Inl (a @ v) @ B" by simp
  then obtain s' where s': "pieces alts s' = map Inl (a @ v) @ B"
    using pieces_suffix by metis
  then have "prefix (a @ v) s'" by (rule pieces_kept_prefix)
  then have "prefix a s'" by (auto simp: prefix_def)
  then obtain c r where r: "s' = c # r" using a(2) by (cases s') auto
  obtain d a' where "a = d # a'" using a(2) by (cases a) auto
  with s' r have "first_match alts s' = None" by (auto split: option.splits)
  with a \<open>prefix a s'\<close> show False using first_match_None by blast
qed

text \<open>With the alternatives longest first, a match is the longest alternative that fits.\<close>

lemma find_longest:
  assumes "by_length.ordered alts" "first_match alts s = Some a"
    "b \<in> set alts" "b \<noteq> []" "prefix b s"
  shows "length b \<le> length a"
  using assms
proof (induction alts)
  case Nil
  then show ?case by simp
next
  case (Cons x alts)
  then show ?case by (auto simp: first_match_def split: if_splits)
qed

lemma pieces_longest:
  assumes "pieces alts s = A @ Inr a # B" "by_length.ordered alts" "b \<in> set alts" "b \<noteq> []"
    and "prefix b (concat (map (case_sum (\<lambda>c. [c]) id) (Inr a # B)))"
  shows "length b \<le> length a"
proof -
  obtain s' where s': "Inr a # B = pieces alts s'" using pieces_suffix [OF assms(1)] by blast
  then have "prefix b s'" using assms(5) pieces_concat [of alts s'] by simp
  moreover have "first_match alts s' = Some a"
    using s' by (cases s') (auto split: option.splits)
  ultimately show ?thesis using find_longest assms by blast
qed

lemma collect_secrets_fold:
  "collect_secrets h cvs = foldl (\<lambda>s x. fst (Insert s x)) h
     (map var_Value (filter (\<lambda>cv. var_IsSecret cv \<and> var_Value cv \<noteq> []) cvs))"
  by (induction h cvs rule: collect_secrets.induct) auto

lemma collect_secrets_elems:
  "set (Slice (collect_secrets NewHashSet cvs))
     = {v. v \<noteq> [] \<and> (\<exists>cv \<in> set cvs. var_IsSecret cv \<and> var_Value cv = v)}"
  using hs.collect_elems(1) [of "map var_Value (filter (\<lambda>cv. var_IsSecret cv \<and> var_Value cv \<noteq> []) cvs)"]
  by (auto simp: collect_secrets_fold hs.collect_def)

text \<open>\<open>UpdateConfigSecrets\<close> never panics, and its pattern holds exactly the non-empty secret
  values, longest first.\<close>

lemma UpdateConfigSecrets_pattern:
  obtains st' where "UpdateConfigSecrets st cvs = Inr st'"
    "case secretPattern st' of
       None \<Rightarrow> {v. v \<noteq> [] \<and> (\<exists>cv \<in> set cvs. var_IsSecret cv \<and> var_Value cv = v)} = {}
     | Some alts \<Rightarrow> by_length.ordered alts
         \<and> set alts = {v. v \<noteq> [] \<and> (\<exists>cv \<in> set cvs. var_IsSecret cv \<and> var_Value cv = v)}"
proof -
  let ?h = "collect_secrets NewHashSet cvs"
  let ?S = "{v. v \<noteq> [] \<and> (\<exists>cv \<in> set cvs. var_IsSecret cv \<and> var_Value cv = v)}"
  have vs: "set (Slice ?h) = ?S" by (rule collect_secrets_elems)
  show thesis
  proof (cases "Slice ?h = []")
    case True
    then have "UpdateConfigSecrets st cvs
                 = Inr (st\<lparr>configSecrets := ?h, secretPattern := None\<rparr>)"
      by (simp add: UpdateConfigSecrets_def buildSecretPattern_def Let_def)
    moreover have "?S = {}" using True vs by simp
    ultimately show thesis using that by simp
  next
    case False
    let ?alts = "stable_sort (\<lambda>a b. length a > length b) (Slice ?h)"
    have "[] \<notin> set (Slice ?h)" using vs by simp
    with False have st': "UpdateConfigSecrets st cvs
                 = Inr (st\<lparr>configSecrets := ?h, secretPattern := Some ?alts\<rparr>)"
      by (simp add: UpdateConfigSecrets_def buildSecretPattern_def Let_def)
    have "by_length.ordered ?alts \<and> set ?alts = ?S"
      by (simp only: by_length.stable_sort_ordered set_stable_sort vs simp_thms)
    then show thesis by (intro that [OF st']) (simp del: set_stable_sort)
  qed
qed

section \<open>Properties\<close>


definition example_vars :: "ConfigVariable list" where
  "example_vars = [\<lparr>var_Key = ''A'', var_Value = ''tok'', var_IsSecret = True\<rparr>,
                   \<lparr>var_Key = ''B'', var_Value = ''token1'', var_IsSecret = True\<rparr>,
                   \<lparr>var_Key = ''C'', var_Value = ''ken'', var_IsSecret = False\<rparr>]"


end
