(* ===== verification/StoreSearch.thy ===== *)
theory StoreSearch
  imports Prelude
begin

text \<open>
  The search filters of \<open>store/store.go\<close>: the free-text query and its \<open>field:\<close> prefix,
  constraints, groups of constraints on one attribute, and the plan that decides what can be
  settled per index shard and what has to be checked per member. The main result is that the
  plan followed by the member filter selects exactly the resources every group matches.
\<close>

section \<open>Queries, constraints and groups\<close>

record SearchQuery =
  sq_Term :: string
  sq_Field :: string
  sq_Negate :: bool

definition empty_query :: SearchQuery where
  "empty_query = \<lparr>sq_Term = [], sq_Field = [], sq_Negate = False\<rparr>"

definition search_fields :: "string list" where
  "search_fields = [''name'', ''kind'', ''namespace'', ''apiversion'', ''group'']"

definition parse_field :: "string \<Rightarrow> bool \<Rightarrow> SearchQuery" where
  "parse_field s negate =
     (case cut colon s of
        Some (field, term) \<Rightarrow>
          if trim_space field \<in> set search_fields
          then \<lparr>sq_Term = trim_space term, sq_Field = trim_space field, sq_Negate = negate\<rparr>
          else \<lparr>sq_Term = s, sq_Field = [], sq_Negate = negate\<rparr>
      | None \<Rightarrow> \<lparr>sq_Term = s, sq_Field = [], sq_Negate = negate\<rparr>)"

definition ParseSearchQuery :: "string \<Rightarrow> SearchQuery" where
  "ParseSearchQuery search =
     (let s = to_lower (trim_space search)
      in case s of
           [] \<Rightarrow> empty_query
         | c # rest \<Rightarrow>
             if c = CHR 0x21
             then (let s' = trim_space rest
                   in if s' = [] then empty_query else parse_field s' True)
             else parse_field s False)"

definition SearchQuery_IsEmpty :: "SearchQuery \<Rightarrow> bool" where
  "SearchQuery_IsEmpty q \<longleftrightarrow> sq_Term q = []"

definition SearchOperatorEquals :: string where "SearchOperatorEquals = ''equals''"
definition SearchOperatorNotContains :: string where "SearchOperatorNotContains = ''notContains''"
definition SearchOperatorNotEquals :: string where "SearchOperatorNotEquals = ''notEquals''"
definition SearchGroupOperatorOr :: string where "SearchGroupOperatorOr = ''or''"

record SearchFilter =
  sf_Field :: string
  sf_Operator :: string
  sf_Value :: string

record SearchConstraint =
  sc_Operator :: string
  sc_Value :: string

record SearchFilterGroup =
  sg_Field :: string
  sg_Operator :: string
  sg_Constraints :: "SearchConstraint list"

definition negated :: "SearchConstraint \<Rightarrow> bool" where
  "negated c \<longleftrightarrow> sc_Operator c = SearchOperatorNotContains \<or> sc_Operator c = SearchOperatorNotEquals"

definition constraint_match :: "SearchConstraint \<Rightarrow> string \<Rightarrow> bool" where
  "constraint_match c value0 =
     (let term = to_lower (trim_space (sc_Value c));
          value = to_lower value0
      in if sc_Operator c = SearchOperatorEquals then value = term
         else if sc_Operator c = SearchOperatorNotEquals then value \<noteq> term
         else if sc_Operator c = SearchOperatorNotContains then \<not> str_contains value term
         else str_contains value term)"

definition normalizeSearchField :: "string \<Rightarrow> string" where
  "normalizeSearchField field =
     (let f = to_lower (trim_space field)
      in if f = ''group'' then ''apiversion'' else f)"

text \<open>The loop both matchers share: leave at the first match under \<open>or\<close>, at the first
  mismatch otherwise.\<close>

fun join_constraints :: "bool \<Rightarrow> bool list \<Rightarrow> bool" where
  "join_constraints is_or [] = (\<not> is_or)"
| "join_constraints is_or (matched # ms) =
     (if is_or \<and> matched then True
      else if \<not> is_or \<and> \<not> matched then False
      else join_constraints is_or ms)"

definition group_is_or :: "SearchFilterGroup \<Rightarrow> bool" where
  "group_is_or g \<longleftrightarrow> to_lower (sg_Operator g) = to_lower SearchGroupOperatorOr"

definition matchValue :: "SearchFilterGroup \<Rightarrow> string \<Rightarrow> bool" where
  "matchValue g value =
     (if sg_Constraints g = [] then True
      else join_constraints (group_is_or g)
             (map (\<lambda>c. constraint_match c value) (sg_Constraints g)))"

definition match_any_constraint :: "SearchConstraint \<Rightarrow> string list \<Rightarrow> bool" where
  "match_any_constraint c attrs =
     (if negated c then list_all (constraint_match c) attrs
      else list_ex (constraint_match c) attrs)"

definition matchesAnyAttribute ::
  "SearchFilterGroup \<Rightarrow> string \<Rightarrow> string \<Rightarrow> string \<Rightarrow> string \<Rightarrow> bool" where
  "matchesAnyAttribute g name kind namespace apiVersion =
     (if sg_Constraints g = [] then True
      else join_constraints (group_is_or g)
             (map (\<lambda>c. match_any_constraint c [name, kind, namespace, apiVersion])
               (sg_Constraints g)))"

definition Matches ::
  "SearchFilterGroup \<Rightarrow> string \<Rightarrow> string \<Rightarrow> string \<Rightarrow> string \<Rightarrow> bool" where
  "Matches g name kind namespace apiVersion =
     (let f = normalizeSearchField (sg_Field g)
      in if f = ''name'' then matchValue g name
         else if f = ''kind'' then matchValue g kind
         else if f = ''namespace'' then matchValue g namespace
         else if f = ''apiversion'' then matchValue g apiVersion
         else matchesAnyAttribute g name kind namespace apiVersion)"

definition compactConstraints :: "SearchConstraint list \<Rightarrow> SearchConstraint list" where
  "compactConstraints constraints = filter (\<lambda>c. trim_space (sc_Value c) \<noteq> []) constraints"

definition BuildSearchFilterGroups ::
  "string \<Rightarrow> SearchFilter list \<Rightarrow> SearchFilterGroup list \<Rightarrow> SearchFilterGroup list" where
  "BuildSearchFilterGroups search filters groups =
     (let q = ParseSearchQuery search;
          free = (if SearchQuery_IsEmpty q then []
                  else [\<lparr>sg_Field = sq_Field q, sg_Operator = [],
                         sg_Constraints = [\<lparr>sc_Operator = (if sq_Negate q then SearchOperatorNotContains else []),
                                            sc_Value = sq_Term q\<rparr>]\<rparr>]);
          flat = map (\<lambda>f. \<lparr>sg_Field = sf_Field f, sg_Operator = [],
                           sg_Constraints = [\<lparr>sc_Operator = sf_Operator f, sc_Value = sf_Value f\<rparr>]\<rparr>)
                   (filter (\<lambda>f. trim_space (sf_Value f) \<noteq> []) filters);
          structured = map (\<lambda>g. g\<lparr>sg_Constraints := compactConstraints (sg_Constraints g)\<rparr>)
                         (filter (\<lambda>g. compactConstraints (sg_Constraints g) \<noteq> []) groups)
      in free @ flat @ structured)"

section \<open>Planning a search over index shards\<close>

record indexShard =
  sh_apiVersion :: string
  sh_kind :: string
  sh_namespace :: string

text \<open>\<open>shardSearchPlan\<close>: \<open>None\<close> when the shard is excluded, otherwise the groups left to
  check per member.\<close>

fun shardSearchPlan :: "indexShard \<Rightarrow> SearchFilterGroup list \<Rightarrow> SearchFilterGroup list option" where
  "shardSearchPlan shard [] = Some []"
| "shardSearchPlan shard (g # gs) =
     (let f = normalizeSearchField (sg_Field g)
      in if f = ''name'' then map_option ((#) g) (shardSearchPlan shard gs)
         else if f = ''kind'' then
           (if \<not> matchValue g (sh_kind shard) then None else shardSearchPlan shard gs)
         else if f = ''namespace'' then
           (if \<not> matchValue g (sh_namespace shard) then None else shardSearchPlan shard gs)
         else if f = ''apiversion'' then
           (if \<not> matchValue g (sh_apiVersion shard) then None else shardSearchPlan shard gs)
         else map_option ((#) g) (shardSearchPlan shard gs))"

type_synonym zscore = "string \<times> int"

definition member_ok :: "indexShard \<Rightarrow> SearchFilterGroup list \<Rightarrow> string \<Rightarrow> bool" where
  "member_ok shard groups member =
     list_all (\<lambda>g. if normalizeSearchField (sg_Field g) = ''name'' then matchValue g member
                    else Matches g member (sh_kind shard) (sh_namespace shard) (sh_apiVersion shard))
       groups"

definition filterMembersByGroups ::
  "zscore list \<Rightarrow> SearchFilterGroup list \<Rightarrow> indexShard \<Rightarrow> zscore list" where
  "filterMembersByGroups members groups shard =
     (if groups = [] then members else filter (\<lambda>(m, s). member_ok shard groups m) members)"

section \<open>Lemmas\<close>

lemma join_constraints_iff:
  "join_constraints is_or ms \<longleftrightarrow> (if is_or then True \<in> set ms else False \<notin> set ms)"
  by (induction ms) auto

lemma matchValue_iff:
  "matchValue g v \<longleftrightarrow>
     (if sg_Constraints g = [] then True
      else if group_is_or g then \<exists>c \<in> set (sg_Constraints g). constraint_match c v
      else \<forall>c \<in> set (sg_Constraints g). constraint_match c v)"
  by (auto simp: matchValue_def join_constraints_iff image_iff)

text \<open>A negated operator is the complement of its positive counterpart, so a negated
  unscoped constraint holds exactly when the positive one holds for no attribute.\<close>

definition positive :: "SearchConstraint \<Rightarrow> SearchConstraint" where
  "positive c = c\<lparr>sc_Operator :=
     (if sc_Operator c = SearchOperatorNotContains then []
      else if sc_Operator c = SearchOperatorNotEquals then SearchOperatorEquals
      else sc_Operator c)\<rparr>"

lemmas search_operators =
  SearchOperatorEquals_def SearchOperatorNotContains_def SearchOperatorNotEquals_def

lemma negated_complement:
  "negated c \<Longrightarrow> constraint_match c v \<longleftrightarrow> \<not> constraint_match (positive c) v"
  by (auto simp: negated_def constraint_match_def positive_def Let_def search_operators)

lemma positive_not_negated: "\<not> negated (positive c)"
  by (auto simp: negated_def positive_def search_operators)

abbreviation shard_matches :: "indexShard \<Rightarrow> string \<Rightarrow> SearchFilterGroup \<Rightarrow> bool" where
  "shard_matches shard name g \<equiv>
     Matches g name (sh_kind shard) (sh_namespace shard) (sh_apiVersion shard)"

lemma member_ok_Matches: "member_ok shard gs name \<longleftrightarrow> (\<forall>g \<in> set gs. shard_matches shard name g)"
proof -
  have "(if normalizeSearchField (sg_Field g) = ''name'' then matchValue g name
         else shard_matches shard name g) = shard_matches shard name g" for g
    by (simp add: Matches_def)
  then show ?thesis by (simp add: member_ok_def list_all_iff)
qed

lemma shardSearchPlan_selects:
  "(\<exists>mg. shardSearchPlan shard gs = Some mg \<and> member_ok shard mg name)
     \<longleftrightarrow> (\<forall>g \<in> set gs. shard_matches shard name g)"
proof (induction gs)
  case Nil
  then show ?case by (simp add: member_ok_def)
next
  case (Cons g gs)
  let ?f = "normalizeSearchField (sg_Field g)"
  consider "?f \<in> {''kind'', ''namespace'', ''apiversion''}"
    | "?f \<notin> {''kind'', ''namespace'', ''apiversion''}" by blast
  then show ?case
  proof cases
    case 1
    then have "shardSearchPlan shard (g # gs)
        = (if shard_matches shard name g then shardSearchPlan shard gs else None)"
      by (auto simp: Matches_def)
    with Cons show ?thesis by simp
  next
    case 2
    then have "shardSearchPlan shard (g # gs) = map_option ((#) g) (shardSearchPlan shard gs)"
      by (simp add: Let_def)
    with Cons show ?thesis by (auto simp: member_ok_Matches)
  qed
qed

lemma filterMembersByGroups_filter:
  "filterMembersByGroups members groups shard = filter (\<lambda>(m, s). member_ok shard groups m) members"
  by (auto simp: filterMembersByGroups_def member_ok_def)

lemma compact_nonempty:
  "g \<in> set (BuildSearchFilterGroups search filters groups) \<Longrightarrow> sg_Constraints g \<noteq> []"
  by (auto simp: BuildSearchFilterGroups_def Let_def split: if_splits)

text \<open>The shard plan and the member filter together are the resource-wise filter.\<close>

lemma shard_plan_filter:
  "(case shardSearchPlan shard groups of
      None \<Rightarrow> []
    | Some memberGroups \<Rightarrow> filterMembersByGroups members memberGroups shard)
   = filter (\<lambda>(m, s). list_all (\<lambda>g. Matches g m (sh_kind shard) (sh_namespace shard)
                                       (sh_apiVersion shard)) groups) members"
proof (cases "shardSearchPlan shard groups")
  case None
  then have "\<not> (\<forall>g \<in> set groups. shard_matches shard m g)" for m
    using shardSearchPlan_selects [where gs = groups and name = m and shard = shard] by simp
  then have "(\<lambda>(m, s). list_all (shard_matches shard m) groups) = (\<lambda>(m :: string, s :: int). False)"
    by (auto simp: list_all_iff)
  with None show ?thesis by simp
next
  case (Some mg)
  then have "member_ok shard mg m \<longleftrightarrow> (\<forall>g \<in> set groups. shard_matches shard m g)" for m
    using shardSearchPlan_selects [where gs = groups and name = m and shard = shard] by simp
  with Some show ?thesis by (simp add: filterMembersByGroups_filter list_all_iff)
qed

section \<open>Properties\<close>

text \<open>C5. Searching shard by shard is searching resource by resource: for every shard and
  every list of groups, the members that survive the shard plan and the member filter are
  exactly the members whose resource (name, kind, namespace, apiVersion) satisfies every group;
  an excluded shard has no such member.\<close>

theorem shard_search_equivalence:
  "(case shardSearchPlan shard groups of
      None \<Rightarrow> []
    | Some memberGroups \<Rightarrow> filterMembersByGroups members memberGroups shard)
   = filter (\<lambda>(m, s). list_all (\<lambda>g. Matches g m (sh_kind shard) (sh_namespace shard)
                                       (sh_apiVersion shard)) groups) members"
  by (rule shard_plan_filter)

text \<open>De Morgan for unscoped negation: an unscoped one-constraint group with a negated
  operator matches a resource exactly when the same group with the positive operator does
  not.\<close>

lemma unscoped_negation:
  assumes "negated c" and "sg_Constraints g = [c]"
  shows "matchesAnyAttribute g name kind namespace apiVersion \<longleftrightarrow>
         \<not> matchesAnyAttribute (g\<lparr>sg_Constraints := [positive c]\<rparr>) name kind namespace apiVersion"
  using assms
  by (auto simp: matchesAnyAttribute_def match_any_constraint_def negated_complement
      positive_not_negated join_constraints_iff group_is_or_def)

end
