(* ===== verification/Unstructured.thy ===== *)
theory Unstructured
  imports Prelude
begin

text \<open>
  JSON-like values, as \<open>map[string]any\<close> and \<open>[]any\<close> hold them, and the accessors of
  Kubernetes' \<open>unstructured.Unstructured\<close> that the sources call: a missing or ill-typed field
  reads as the empty string. Numbers are integers; the sources read no other number from an
  object.
\<close>

datatype json = JNull | JBool bool | JNum int | JStr string
  | JArr "json list" | JObj "(string \<times> json) list"

fun nested :: "json \<Rightarrow> string list \<Rightarrow> json option" where
  "nested v [] = Some v"
| "nested (JObj fs) (k # ks) =
     (case map_of fs k of None \<Rightarrow> None | Some v \<Rightarrow> nested v ks)"
| "nested _ (k # ks) = None"

definition nested_string :: "json \<Rightarrow> string list \<Rightarrow> string" where
  "nested_string v path = (case nested v path of Some (JStr s) \<Rightarrow> s | _ \<Rightarrow> [])"

definition set_field :: "string \<Rightarrow> json \<Rightarrow> json \<Rightarrow> json" where
  "set_field k x v = (case v of JObj fs \<Rightarrow> JObj (AList.update k x fs) | _ \<Rightarrow> v)"

definition GetKind :: "json \<Rightarrow> string" where
  "GetKind obj = nested_string obj [''kind'']"

definition GetAPIVersion :: "json \<Rightarrow> string" where
  "GetAPIVersion obj = nested_string obj [''apiVersion'']"

definition GetNamespace :: "json \<Rightarrow> string" where
  "GetNamespace obj = nested_string obj [''metadata'', ''namespace'']"

definition GetName :: "json \<Rightarrow> string" where
  "GetName obj = nested_string obj [''metadata'', ''name'']"

lemma nested_string_set_field [simp]:
  "nested_string (set_field k x (JObj fs)) (k' # ks)
     = (if k' = k then nested_string x ks else nested_string (JObj fs) (k' # ks))"
  by (simp add: nested_string_def set_field_def)

lemma set_field_JObj [simp]: "\<exists>gs. set_field k x (JObj fs) = JObj gs"
  by (simp add: set_field_def)

end
