(* ===== verification/Valkey.thy ===== *)
theory Valkey
  imports Unstructured
begin

text \<open>
  The Valkey server and the client helpers of \<open>valkeyclient/valkeyclient.go\<close>.

  The server is not part of the repository: it is a parameter \<open>vk_do\<close> of the model, a function
  from a database and a command to the database after it and the reply. What the code relies
  on is the locale \<open>valkey_server\<close>: the documented effect of every command the sources issue,
  on three observers of a database (the string, the sorted set and the set stored under a
  key). An error reply is always possible and promises nothing. A pipeline (\<open>DoMulti\<close>) runs
  its commands in order. Expiry is not a command: a key that has expired is a key the
  observers do not show, and the laws hold in every state of the database.

  JSON encoding is a parameter too: \<open>marshal\<close> and \<open>unmarshal\<close>, fields of the record of
  external services \<open>env\<close>.
\<close>

section \<open>Commands and replies\<close>

datatype vcmd =
    GET string
  | SET string string "int option"
  | DEL string
  | UNLINK string
  | EXISTS string
  | INCR string
  | EXPIRE string int
  | ZADD string string int
  | ZADDM string "(string \<times> int) list"
  | ZREM string "string list"
  | ZCARD string
  | ZRANGE string int
  | ZRANGE_WITHSCORES string int
  | ZREVRANGE string int
  | ZREVRANGE_WITHSCORES string int
  | ZRANGEBYLEX string nat
  | ZREVRANGEBYLEX string nat
  | ZREMRANGEBYSCORE string int
  | SADD string string
  | SREM string string
  | SMEMBERS string

datatype vreply = RErr | RNil | ROk | RInt int | RStr string | RStrs "string list"
  | RScores "(string \<times> int) list"

type_synonym 'db server = "'db \<Rightarrow> vcmd \<Rightarrow> 'db \<times> vreply"

record 'db env =
  vk_do :: "'db server"
  js_marshal :: "json \<Rightarrow> string option"
  js_unmarshal :: "string \<Rightarrow> json option"
  ts_unix :: "json \<Rightarrow> int"

fun DoMulti :: "'db server \<Rightarrow> 'db \<Rightarrow> vcmd list \<Rightarrow> 'db \<times> vreply list" where
  "DoMulti srv db [] = (db, [])"
| "DoMulti srv db (c # cs) =
     (let (db1, r) = srv db c; (db2, rs) = DoMulti srv db1 cs in (db2, r # rs))"

lemma DoMulti_Cons:
  "DoMulti srv db (c # cs) =
     (fst (DoMulti srv (fst (srv db c)) cs), snd (srv db c) # snd (DoMulti srv (fst (srv db c)) cs))"
  by (simp add: case_prod_unfold Let_def)

declare DoMulti.simps(2) [simp del]

lemma length_DoMulti [simp]: "length (snd (DoMulti srv db cs)) = length cs"
  by (induction cs arbitrary: db) (auto simp: DoMulti_Cons)

lemma DoMulti_append:
  "DoMulti srv db (cs @ ds) =
     (fst (DoMulti srv (fst (DoMulti srv db cs)) ds),
      snd (DoMulti srv db cs) @ snd (DoMulti srv (fst (DoMulti srv db cs)) ds))"
  by (induction cs arbitrary: db) (auto simp: DoMulti_Cons)

text \<open>The reply conversions of the client library: the value, or an error for any other
  reply.\<close>

fun as_str_slice :: "vreply \<Rightarrow> string list option" where
  "as_str_slice (RStrs l) = Some l"
| "as_str_slice _ = None"

fun as_int64 :: "vreply \<Rightarrow> int option" where
  "as_int64 (RInt n) = Some n"
| "as_int64 _ = None"

fun as_zscores :: "vreply \<Rightarrow> (string \<times> int) list option" where
  "as_zscores (RScores l) = Some l"
| "as_zscores _ = None"

section \<open>filepath.Match\<close>

text \<open>
  The glob of Go's \<open>filepath.Match\<close> on a system whose separator is \<open>/\<close>: \<open>*\<close> is any
  sequence of non-separators, \<open>?\<close> one non-separator, a bracket expression a class of
  characters, and a backslash quotes. The boolean result is false for a malformed pattern,
  which is how every call in the sources reads the error. Go commits to the leftmost match of
  the piece after a \<open>*\<close>; that can differ from trying every split, as done here, only for a
  bracket expression that lists the separator, which no pattern of the sources has.
\<close>

abbreviation separator :: char where "separator \<equiv> CHR ''/''"

fun glob_class :: "nat \<Rightarrow> bool \<Rightarrow> string \<Rightarrow> char \<Rightarrow> (bool \<times> string) option" where
  "glob_class 0 first p c = None"
| "glob_class (Suc n) first [] c = None"
| "glob_class (Suc n) first (x # p) c =
     (if x = CHR '']'' \<and> \<not> first then Some (False, p)
      else
        (case (if x = CHR 0x5C then (case p of [] \<Rightarrow> None | y # q \<Rightarrow> Some (y, q))
               else if x = CHR ''-'' \<or> x = CHR '']'' then None else Some (x, p)) of
           None \<Rightarrow> None
         | Some (lo, q) \<Rightarrow>
             (case (case q of
                      y # q1 \<Rightarrow>
                        if y = CHR ''-'' then
                          (case q1 of
                             [] \<Rightarrow> None
                           | z # q2 \<Rightarrow>
                               if z = CHR 0x5C then (case q2 of [] \<Rightarrow> None | w # q3 \<Rightarrow> Some (w, q3))
                               else if z = CHR ''-'' \<or> z = CHR '']'' then None else Some (z, q2))
                        else Some (lo, q)
                    | [] \<Rightarrow> None) of
                None \<Rightarrow> None
              | Some (hi, q') \<Rightarrow>
                  map_option (\<lambda>(m, rest). (m \<or> lo \<le> c \<and> c \<le> hi, rest)) (glob_class n False q' c))))"

lemma glob_class_length:
  "glob_class n first p c = Some (m, rest) \<Longrightarrow> length rest < length p"
proof (induction n first p c arbitrary: m rest rule: glob_class.induct)
  case (3 n first x p c)
  then show ?case
    by (auto split: if_splits list.splits option.splits) (fastforce)+
qed simp_all

function (sequential) glob :: "string \<Rightarrow> string \<Rightarrow> bool" where
  "glob [] s = (s = [])"
| "glob (x # p) s =
     (if x = CHR ''*'' then
        glob p s \<or> (case s of [] \<Rightarrow> False | c # t \<Rightarrow> c \<noteq> separator \<and> glob (x # p) t)
      else if x = CHR ''?'' then
        (case s of [] \<Rightarrow> False | c # t \<Rightarrow> c \<noteq> separator \<and> glob p t)
      else if x = CHR ''['' then
        (case s of [] \<Rightarrow> False
         | c # t \<Rightarrow>
             (let neg = (p \<noteq> [] \<and> hd p = CHR ''^'');
                  body = (if neg then tl p else p)
              in case glob_class (Suc (length body)) True body c of
                   None \<Rightarrow> False
                 | Some (m, rest) \<Rightarrow> m \<noteq> neg \<and> glob rest t))
      else if x = CHR 0x5C then
        (case p of [] \<Rightarrow> False
         | y # q \<Rightarrow> (case s of [] \<Rightarrow> False | c # t \<Rightarrow> c = y \<and> glob q t))
      else (case s of [] \<Rightarrow> False | c # t \<Rightarrow> c = x \<and> glob p t))"
  by pat_completeness auto
termination
  by (relation "measure (\<lambda>(p, s). length p + 2 * length s)")
    (auto split: list.splits if_splits dest!: glob_class_length)

section \<open>What the code relies on\<close>

text \<open>The order of a sorted set: by score, then by member.\<close>

definition zlt :: "string \<times> int \<Rightarrow> string \<times> int \<Rightarrow> bool" where
  "zlt a b \<longleftrightarrow> snd a < snd b \<or> (snd a = snd b \<and> fst a < fst b)"

abbreviation zsorted :: "(string \<times> int) list \<Rightarrow> bool" where
  "zsorted l \<equiv> sorted_wrt zlt l"

fun is_read :: "vcmd \<Rightarrow> bool" where
  "is_read (GET k) = True"
| "is_read (EXISTS k) = True"
| "is_read (ZCARD k) = True"
| "is_read (ZRANGE k stop) = True"
| "is_read (ZRANGE_WITHSCORES k stop) = True"
| "is_read (ZREVRANGE k stop) = True"
| "is_read (ZREVRANGE_WITHSCORES k stop) = True"
| "is_read (ZRANGEBYLEX k n) = True"
| "is_read (ZREVRANGEBYLEX k n) = True"
| "is_read (SMEMBERS k) = True"
| "is_read _ = False"

text \<open>The server answers every read of the current database.\<close>

definition reads_ok :: "'db server \<Rightarrow> 'db \<Rightarrow> bool" where
  "reads_ok srv db \<longleftrightarrow> (\<forall>c. is_read c \<longrightarrow> snd (srv db c) \<noteq> RErr)"

locale valkey_server =
  fixes srv :: "'db server"
    and strs :: "'db \<Rightarrow> string \<Rightarrow> string option"
    and zlist :: "'db \<Rightarrow> string \<Rightarrow> (string \<times> int) list"
    and sset :: "'db \<Rightarrow> string \<Rightarrow> string set"
  assumes zlist_sorted: "zsorted (zlist db k)"
    and zlist_keys: "distinct (map fst (zlist db k))"
    and read_same: "is_read c \<Longrightarrow> fst (srv db c) = db"
    and get_reply: "snd (srv db (GET k)) \<in> {RErr, case strs db k of None \<Rightarrow> RNil | Some v \<Rightarrow> RStr v}"
    and smembers_reply: "snd (srv db (SMEMBERS k)) = RErr \<or>
      (\<exists>l. snd (srv db (SMEMBERS k)) = RStrs l \<and> distinct l \<and> set l = sset db k)"
    and zcard_reply: "snd (srv db (ZCARD k)) \<in> {RErr, RInt (int (length (zlist db k)))}"
    and zrange_all_reply: "snd (srv db (ZRANGE k (-1))) \<in> {RErr, RStrs (map fst (zlist db k))}"
    and zrevrange_all_reply: "snd (srv db (ZREVRANGE k (-1))) \<in> {RErr, RStrs (map fst (rev (zlist db k)))}"
    and zrange_reply: "0 \<le> stop \<Longrightarrow>
      snd (srv db (ZRANGE_WITHSCORES k stop)) \<in> {RErr, RScores (take (nat stop + 1) (zlist db k))}"
    and zrevrange_reply: "0 \<le> stop \<Longrightarrow>
      snd (srv db (ZREVRANGE_WITHSCORES k stop)) \<in> {RErr, RScores (take (nat stop + 1) (rev (zlist db k)))}"
    and zrangebylex_reply: "\<forall>m \<in> set (zlist db k). snd m = sc \<Longrightarrow>
      snd (srv db (ZRANGEBYLEX k n)) \<in> {RErr, RStrs (map fst (take n (zlist db k)))}"
    and zrevrangebylex_reply: "\<forall>m \<in> set (zlist db k). snd m = sc \<Longrightarrow>
      snd (srv db (ZREVRANGEBYLEX k n)) \<in> {RErr, RStrs (map fst (take n (rev (zlist db k))))}"
    and exists_reply: "snd (srv db (EXISTS k)) \<in>
      {RErr, RInt (if strs db k \<noteq> None \<or> zlist db k \<noteq> [] \<or> sset db k \<noteq> {} then 1 else 0)}"
    and set_spec: "srv db (SET k v ex) = (db', r) \<Longrightarrow> r \<noteq> RErr \<Longrightarrow>
      strs db' = (strs db)(k \<mapsto> v) \<and> zlist db' = (zlist db)(k := []) \<and> sset db' = (sset db)(k := {})"
    and del_spec: "srv db (DEL k) = (db', r) \<Longrightarrow> r \<noteq> RErr \<Longrightarrow>
      strs db' = (strs db)(k := None) \<and> zlist db' = (zlist db)(k := []) \<and> sset db' = (sset db)(k := {})"
    and expire_spec: "srv db (EXPIRE k ttl) = (db', r) \<Longrightarrow> r \<noteq> RErr \<Longrightarrow> 0 < ttl \<Longrightarrow>
      strs db' = strs db \<and> zlist db' = zlist db \<and> sset db' = sset db"
    and zadd_spec: "srv db (ZADD k m sc) = (db', r) \<Longrightarrow> r \<noteq> RErr \<Longrightarrow>
      strs db' = strs db \<and> sset db' = sset db \<and> (\<forall>k'. k' \<noteq> k \<longrightarrow> zlist db' k' = zlist db k') \<and>
      set (zlist db' k) = insert (m, sc) {e \<in> set (zlist db k). fst e \<noteq> m}"
    and zaddm_spec: "srv db (ZADDM k es) = (db', r) \<Longrightarrow> r \<noteq> RErr \<Longrightarrow>
      strs db' = strs db \<and> sset db' = sset db \<and> (\<forall>k'. k' \<noteq> k \<longrightarrow> zlist db' k' = zlist db k') \<and>
      fst ` set (zlist db' k) = fst ` set (zlist db k) \<union> fst ` set es"
    and zrem_spec: "srv db (ZREM k ms) = (db', r) \<Longrightarrow> r \<noteq> RErr \<Longrightarrow>
      strs db' = strs db \<and> sset db' = sset db \<and> (\<forall>k'. k' \<noteq> k \<longrightarrow> zlist db' k' = zlist db k') \<and>
      zlist db' k = filter (\<lambda>e. fst e \<notin> set ms) (zlist db k)"
    and sadd_spec: "srv db (SADD k m) = (db', r) \<Longrightarrow> r \<noteq> RErr \<Longrightarrow>
      strs db' = strs db \<and> zlist db' = zlist db \<and> sset db' = (sset db)(k := insert m (sset db k))"
    and srem_spec: "srv db (SREM k m) = (db', r) \<Longrightarrow> r \<noteq> RErr \<Longrightarrow>
      strs db' = strs db \<and> zlist db' = zlist db \<and> sset db' = (sset db)(k := sset db k - {m})"
    and incr_spec: "srv db (INCR k) = (db', r) \<Longrightarrow> r \<noteq> RErr \<Longrightarrow>
      \<exists>n. r = RInt n \<and> strs db' = (strs db)(k \<mapsto> show_int n) \<and> zlist db' = zlist db \<and> sset db' = sset db"
    and unlink_spec: "srv db (UNLINK k) = (db', r) \<Longrightarrow> r \<noteq> RErr \<Longrightarrow>
      strs db' = (strs db)(k := None) \<and> zlist db' = (zlist db)(k := []) \<and> sset db' = (sset db)(k := {})"

section \<open>Client helpers\<close>

fun trim_star :: "nat \<Rightarrow> string \<Rightarrow> string" where
  "trim_star 0 key = key"
| "trim_star (Suc n) key =
     (if has_suffix key '':*:*'' then trim_star n (take (length key - 2) key) else key)"

text \<open>\<open>createKey\<close>: the loop strips at least two bytes per round, so the length of the key is
  enough fuel.\<close>

definition createKey :: "string list \<Rightarrow> string" where
  "createKey parts = (let key = join [colon] parts in trim_star (length key) key)"

text \<open>The replies of a pipeline of \<open>GET\<close>s, decoded: a reply that is not a value is skipped,
  a value that does not decode ends the loop with an error, keeping what was read so far.\<close>

fun keyed_objects :: "(string \<Rightarrow> 'o option) \<Rightarrow> (string \<times> vreply) list \<Rightarrow> (string \<times> 'o) list \<times> bool" where
  "keyed_objects dec [] = ([], True)"
| "keyed_objects dec ((k, r) # krs) =
     (case r of
        RStr v \<Rightarrow>
          (case dec v of
             None \<Rightarrow> ([], False)
           | Some obj \<Rightarrow> (let (os, ok) = keyed_objects dec krs in ((k, obj) # os, ok)))
      | _ \<Rightarrow> keyed_objects dec krs)"

text \<open>\<open>GetKeyedObjectsForKeys\<close> and \<open>GetObjectsForKeys\<close>: the objects read, and whether no
  value failed to decode.\<close>

definition GetKeyedObjectsForKeys ::
  "'db server \<Rightarrow> (string \<Rightarrow> 'o option) \<Rightarrow> 'db \<Rightarrow> string list \<Rightarrow> 'db \<times> (string \<times> 'o) list \<times> bool" where
  "GetKeyedObjectsForKeys srv dec db keyList =
     (if keyList = [] then (db, [], True)
      else let (db', rs) = DoMulti srv db (map GET keyList)
           in (db', keyed_objects dec (zip keyList rs)))"

definition GetObjectsForKeys ::
  "'db server \<Rightarrow> (string \<Rightarrow> 'o option) \<Rightarrow> 'db \<Rightarrow> string list \<Rightarrow> 'db \<times> 'o list \<times> bool" where
  "GetObjectsForKeys srv dec db keyList =
     (let (db', ps, ok) = GetKeyedObjectsForKeys srv dec db keyList in (db', map snd ps, ok))"

datatype 'o get_result = NotFound | GetError | DecodeError | Found 'o

text \<open>\<open>GetObjectForKey\<close>.\<close>

definition GetObjectForKey :: "'db server \<Rightarrow> (string \<Rightarrow> 'o option) \<Rightarrow> 'db \<Rightarrow> string list \<Rightarrow> 'db \<times> 'o get_result" where
  "GetObjectForKey srv dec db keys =
     (let (db', r) = srv db (GET (createKey keys))
      in (db', case r of
                 RNil \<Rightarrow> NotFound
               | RStr v \<Rightarrow> (case dec v of None \<Rightarrow> DecodeError | Some obj \<Rightarrow> Found obj)
               | _ \<Rightarrow> GetError))"

section \<open>Pipelines of reads\<close>

interpretation zl: go_less zlt
  by unfold_locales (auto simp: zlt_def)

lemma zlt_total: "a \<noteq> b \<Longrightarrow> zlt a b \<or> zlt b a"
  by (cases a; cases b) (auto simp: zlt_def)

context valkey_server
begin

lemma do_read: "is_read c \<Longrightarrow> srv db c = (db, snd (srv db c))"
  using read_same by (simp add: prod_eq_iff)

lemma DoMulti_reads:
  "\<forall>c \<in> set cs. is_read c \<Longrightarrow> DoMulti srv db cs = (db, map (\<lambda>c. snd (srv db c)) cs)"
  by (induction cs) (auto simp: DoMulti_Cons read_same)

text \<open>Without an error reply, a pipeline of reads is a lookup of every key.\<close>

lemma DoMulti_gets:
  assumes "reads_ok srv db"
  shows "DoMulti srv db (map GET ks)
           = (db, map (\<lambda>k. case strs db k of None \<Rightarrow> RNil | Some v \<Rightarrow> RStr v) ks)"
proof -
  have "snd (srv db (GET k)) = (case strs db k of None \<Rightarrow> RNil | Some v \<Rightarrow> RStr v)" for k
    using get_reply [of db k] assms unfolding reads_ok_def by (auto dest: spec [of _ "GET k"])
  then show ?thesis by (simp add: DoMulti_reads)
qed

end

lemma keyed_objects_lookup:
  assumes "\<forall>k \<in> set ks. \<forall>v. f k = Some v \<longrightarrow> dec v \<noteq> None"
  shows "keyed_objects dec (zip ks (map (\<lambda>k. case f k of None \<Rightarrow> RNil | Some v \<Rightarrow> RStr v) ks))
           = (map (\<lambda>k. (k, the (dec (the (f k))))) (filter (\<lambda>k. f k \<noteq> None) ks), True)"
  using assms by (induction ks) (auto split: option.splits)

end
