(* ===== verification/MemValkey.thy ===== *)
theory MemValkey
  imports Valkey
begin

text \<open>
  A database in memory with the documented commands, the instance on which the contract of
  the server is discharged and concrete runs are evaluated. A command on a key of another type
  is an error (\<open>WRONGTYPE\<close>), as on the server.
\<close>

record mem_db =
  m_strs :: "(string, string) gomap"
  m_zsets :: "(string, (string, int) gomap) gomap"
  m_sets :: "(string, string list) gomap"

definition mem_empty :: mem_db where
  "mem_empty = \<lparr>m_strs = [], m_zsets = [], m_sets = []\<rparr>"

definition mem_str :: "mem_db \<Rightarrow> string \<Rightarrow> string option" where
  "mem_str db k = map_of (m_strs db) k"

definition mem_zmap :: "mem_db \<Rightarrow> string \<Rightarrow> (string, int) gomap" where
  "mem_zmap db k = (case map_of (m_zsets db) k of None \<Rightarrow> [] | Some z \<Rightarrow> z)"

definition mem_zlist :: "mem_db \<Rightarrow> string \<Rightarrow> (string \<times> int) list" where
  "mem_zlist db k = stable_sort zlt (AList.clearjunk (mem_zmap db k))"

definition mem_slist :: "mem_db \<Rightarrow> string \<Rightarrow> string list" where
  "mem_slist db k = (case map_of (m_sets db) k of None \<Rightarrow> [] | Some l \<Rightarrow> l)"

definition mem_set :: "mem_db \<Rightarrow> string \<Rightarrow> string set" where
  "mem_set db k = set (mem_slist db k)"

definition mem_drop :: "mem_db \<Rightarrow> string \<Rightarrow> mem_db" where
  "mem_drop db k = \<lparr>m_strs = AList.delete k (m_strs db), m_zsets = AList.delete k (m_zsets db),
                    m_sets = AList.delete k (m_sets db)\<rparr>"

definition mem_put_z :: "mem_db \<Rightarrow> string \<Rightarrow> (string, int) gomap \<Rightarrow> mem_db" where
  "mem_put_z db k z = db\<lparr>m_zsets := AList.update k z (m_zsets db)\<rparr>"

definition mem_put_s :: "mem_db \<Rightarrow> string \<Rightarrow> string list \<Rightarrow> mem_db" where
  "mem_put_s db k l = db\<lparr>m_sets := AList.update k l (m_sets db)\<rparr>"

definition mem_do :: "mem_db server" where
  "mem_do db c =
     (case c of
        GET k \<Rightarrow> (db, case mem_str db k of None \<Rightarrow> RNil | Some v \<Rightarrow> RStr v)
      | SET k v ex \<Rightarrow> ((mem_drop db k)\<lparr>m_strs := AList.update k v (m_strs (mem_drop db k))\<rparr>, ROk)
      | DEL k \<Rightarrow> (mem_drop db k, RInt 1)
      | UNLINK k \<Rightarrow> (mem_drop db k, RInt 1)
      | EXISTS k \<Rightarrow> (db, RInt (if mem_str db k \<noteq> None \<or> mem_zmap db k \<noteq> [] \<or> mem_slist db k \<noteq> [] then 1 else 0))
      | INCR k \<Rightarrow>
          (case (case mem_str db k of None \<Rightarrow> Some 0 | Some v \<Rightarrow> parse_int64 v) of
             None \<Rightarrow> (db, RErr)
           | Some n \<Rightarrow> (db\<lparr>m_strs := AList.update k (show_int (n + 1)) (m_strs db)\<rparr>, RInt (n + 1)))
      | EXPIRE k ttl \<Rightarrow> (db, RInt 1)
      | ZADD k m sc \<Rightarrow>
          (if mem_str db k \<noteq> None then (db, RErr)
           else (mem_put_z db k (AList.update m sc (mem_zmap db k)), RInt 1))
      | ZADDM k ms \<Rightarrow>
          (if mem_str db k \<noteq> None then (db, RErr)
           else (mem_put_z db k (foldl (\<lambda>z (m, sc). AList.update m sc z) (mem_zmap db k) ms), RInt (int (length ms))))
      | ZREM k ms \<Rightarrow>
          (mem_put_z db k (filter (\<lambda>e. fst e \<notin> set ms) (mem_zmap db k)), RInt 1)
      | ZCARD k \<Rightarrow> (db, RInt (int (length (mem_zlist db k))))
      | ZRANGE k stop \<Rightarrow>
          (db, RStrs (map fst (if stop < 0 then mem_zlist db k else take (nat stop + 1) (mem_zlist db k))))
      | ZRANGE_WITHSCORES k stop \<Rightarrow>
          (db, RScores (if stop < 0 then mem_zlist db k else take (nat stop + 1) (mem_zlist db k)))
      | ZREVRANGE k stop \<Rightarrow>
          (db, RStrs (map fst (if stop < 0 then rev (mem_zlist db k)
                               else take (nat stop + 1) (rev (mem_zlist db k)))))
      | ZREVRANGE_WITHSCORES k stop \<Rightarrow>
          (db, RScores (if stop < 0 then rev (mem_zlist db k)
                        else take (nat stop + 1) (rev (mem_zlist db k))))
      | ZRANGEBYLEX k n \<Rightarrow> (db, RStrs (map fst (take n (mem_zlist db k))))
      | ZREVRANGEBYLEX k n \<Rightarrow> (db, RStrs (map fst (take n (rev (mem_zlist db k)))))
      | ZREMRANGEBYSCORE k mx \<Rightarrow>
          (mem_put_z db k (filter (\<lambda>e. \<not> snd e \<le> mx) (AList.clearjunk (mem_zmap db k))), RInt 1)
      | SADD k m \<Rightarrow> (mem_put_s db k (m # mem_slist db k), RInt 1)
      | SREM k m \<Rightarrow> (mem_put_s db k (removeAll m (mem_slist db k)), RInt 1)
      | SMEMBERS k \<Rightarrow> (db, RStrs (remdups (mem_slist db k))))"

lemma zsorted_of_ordered:
  "zl.ordered l \<Longrightarrow> distinct l \<Longrightarrow> zsorted l"
proof (induction l)
  case (Cons x l)
  have "zlt x y" if "y \<in> set l" for y
  proof -
    have "x \<noteq> y" "\<not> zlt y x" using Cons.prems that by auto
    then show ?thesis using zlt_total by blast
  qed
  with Cons show ?case by simp
qed simp

lemma mem_zlist_sorted: "zsorted (mem_zlist db k)"
proof -
  have "distinct (AList.clearjunk (mem_zmap db k))"
    using distinct_clearjunk [of "mem_zmap db k"] by (simp add: distinct_map)
  then show ?thesis
    by (simp add: mem_zlist_def zsorted_of_ordered zl.stable_sort_ordered)
qed

lemma distinct_fst_insert_by:
  "distinct (map fst (insert_by lt x ys)) \<longleftrightarrow> fst x \<notin> fst ` set ys \<and> distinct (map fst ys)"
  by (induction ys) auto

lemma distinct_fst_stable_sort: "distinct (map fst (stable_sort lt xs)) = distinct (map fst xs)"
  by (induction xs) (auto simp: distinct_fst_insert_by)

lemma mem_zlist_keys: "distinct (map fst (mem_zlist db k))"
  by (simp add: mem_zlist_def distinct_fst_stable_sort distinct_clearjunk)

lemma mem_zlist_elem: "(m, sc) \<in> set (mem_zlist db k) \<longleftrightarrow> map_of (mem_zmap db k) m = Some sc"
  using wf_map_lookup [OF distinct_clearjunk] by (simp add: mem_zlist_def map_of_clearjunk)

lemma mem_zmap_put [simp]: "mem_zmap (mem_put_z db k z) k' = (if k' = k then z else mem_zmap db k')"
  by (simp add: mem_zmap_def mem_put_z_def)

lemma mem_zlist_put: "k' \<noteq> k \<Longrightarrow> mem_zlist (mem_put_z db k z) k' = mem_zlist db k'"
  by (simp add: mem_zlist_def)

lemma mem_put_z_obs: "mem_str (mem_put_z db k z) = mem_str db" "mem_set (mem_put_z db k z) = mem_set db"
  by (auto simp: fun_eq_iff mem_put_z_def mem_str_def mem_set_def mem_slist_def)

lemma mem_put_s_obs:
  "mem_str (mem_put_s db k l) = mem_str db" "mem_zlist (mem_put_s db k l) = mem_zlist db"
  "mem_set (mem_put_s db k l) = (mem_set db)(k := set l)"
  by (auto simp: fun_eq_iff mem_put_s_def mem_str_def mem_zlist_def mem_zmap_def mem_set_def mem_slist_def)

lemma mem_strs_obs:
  "mem_str (db\<lparr>m_strs := AList.update k v (m_strs db)\<rparr>) = (mem_str db)(k \<mapsto> v)"
  "mem_zlist (db\<lparr>m_strs := l\<rparr>) = mem_zlist db" "mem_set (db\<lparr>m_strs := l\<rparr>) = mem_set db"
  by (auto simp: fun_eq_iff mem_str_def mem_zlist_def mem_zmap_def mem_set_def mem_slist_def)

lemma mem_drop_obs [simp]:
  "mem_str (mem_drop db k) = (mem_str db)(k := None)"
  "mem_zlist (mem_drop db k) = (mem_zlist db)(k := [])"
  "mem_set (mem_drop db k) = (mem_set db)(k := {})"
  by (auto simp: fun_eq_iff mem_drop_def mem_str_def mem_zlist_def mem_zmap_def mem_set_def mem_slist_def)

text \<open>A strictly sorted list is determined by its elements.\<close>

lemma zsorted_unique: "zsorted xs \<Longrightarrow> zsorted ys \<Longrightarrow> set xs = set ys \<Longrightarrow> xs = ys"
proof (induction xs arbitrary: ys)
  case Nil
  then show ?case by simp
next
  case (Cons x xs)
  then obtain y ys' where ys: "ys = y # ys'" by (cases ys) auto
  have "x = y"
  proof (rule ccontr)
    assume "x \<noteq> y"
    with Cons.prems ys have "y \<in> set xs" "x \<in> set ys'" by auto
    with Cons.prems ys have "zlt x y" "zlt y x" by auto
    then show False using zl.lt_trans zl.lt_irrefl by blast
  qed
  moreover have "x \<notin> set xs" "y \<notin> set ys'" using Cons.prems ys zl.lt_irrefl [of x] zl.lt_irrefl [of y]
    by (metis sorted_wrt.simps(2))+
  ultimately have "set xs = set ys'" using Cons.prems(3) ys by auto
  with Cons ys \<open>x = y\<close> show ?case by simp
qed

lemma map_of_filter_keys: "map_of (filter (\<lambda>e. P (fst e)) z) m = (if P m then map_of z m else None)"
  by (induction z) auto

lemma mem_zrem:
  "mem_zlist (mem_put_z db k (filter (\<lambda>e. fst e \<notin> set ms) (mem_zmap db k))) k
     = filter (\<lambda>e. fst e \<notin> set ms) (mem_zlist db k)"
proof (rule zsorted_unique)
  show "zsorted (mem_zlist (mem_put_z db k (filter (\<lambda>e. fst e \<notin> set ms) (mem_zmap db k))) k)"
    by (rule mem_zlist_sorted)
  show "zsorted (filter (\<lambda>e. fst e \<notin> set ms) (mem_zlist db k))"
    by (rule sorted_wrt_filter [OF mem_zlist_sorted])
  show "set (mem_zlist (mem_put_z db k (filter (\<lambda>e. fst e \<notin> set ms) (mem_zmap db k))) k)
      = set (filter (\<lambda>e. fst e \<notin> set ms) (mem_zlist db k))"
    by (auto simp: mem_zlist_elem map_of_filter_keys [where P = "\<lambda>x. x \<notin> set ms"]
        split: if_splits)
qed

lemma mem_zadd:
  "set (mem_zlist (mem_put_z db k (AList.update m sc (mem_zmap db k))) k)
     = insert (m, sc) {e \<in> set (mem_zlist db k). fst e \<noteq> m}"
  by (auto simp: mem_zlist_elem split: if_splits)

lemma foldl_update_dom:
  "dom (map_of (foldl (\<lambda>z (m, sc). AList.update m sc z) z ms)) = dom (map_of z) \<union> fst ` set ms"
  by (induction ms arbitrary: z) (auto simp: case_prod_unfold)

lemma mem_zlist_names: "fst ` set (mem_zlist db k) = dom (map_of (mem_zmap db k))"
proof -
  have "m \<in> fst ` set (mem_zlist db k) \<longleftrightarrow> (\<exists>sc. (m, sc) \<in> set (mem_zlist db k))" for m by force
  then show ?thesis by (auto simp: mem_zlist_elem)
qed

lemma mem_zaddm:
  "fst ` set (mem_zlist (mem_put_z db k (foldl (\<lambda>z (m, sc). AList.update m sc z) (mem_zmap db k) ms)) k)
     = fst ` set (mem_zlist db k) \<union> fst ` set ms"
  by (simp add: mem_zlist_names foldl_update_dom)

lemma mem_zlist_empty_iff: "mem_zlist db k = [] \<longleftrightarrow> mem_zmap db k = []"
  by (metis clearjunk.simps(1) list.size(3) length_0_conv length_stable_sort mem_zlist_def
      list.exhaust clearjunk.simps(2) prod.exhaust list.distinct(1) stable_sort_simps(1))

interpretation mem: valkey_server mem_do mem_str mem_zlist mem_set
  apply unfold_locales
  subgoal by (rule mem_zlist_sorted)
  subgoal by (rule mem_zlist_keys)
  subgoal for c by (cases c) (simp_all add: mem_do_def)
  subgoal by (simp add: mem_do_def)
  subgoal by (auto simp: mem_do_def mem_set_def)
  subgoal by (simp add: mem_do_def)
  subgoal by (simp add: mem_do_def)
  subgoal by (simp add: mem_do_def)
  subgoal by (simp add: mem_do_def)
  subgoal by (simp add: mem_do_def)
  subgoal by (simp add: mem_do_def)
  subgoal by (simp add: mem_do_def)
  subgoal by (auto simp: mem_do_def mem_zlist_empty_iff mem_set_def)
  subgoal by (auto simp: mem_do_def mem_str_def mem_zlist_def mem_zmap_def mem_set_def mem_slist_def mem_drop_def fun_eq_iff)
  subgoal by (auto simp: mem_do_def)
  subgoal by (auto simp: mem_do_def)
  subgoal by (simp add: mem_do_def mem_put_z_obs mem_zadd mem_zlist_put split: if_splits)
      (auto simp: mem_put_z_obs mem_zadd mem_zlist_put)
  subgoal premises prems for db k es db' r
  proof -
    have "db' = mem_put_z db k (foldl (\<lambda>z (m, sc). AList.update m sc z) (mem_zmap db k) es)"
      using prems by (simp add: mem_do_def split: if_splits)
    then show ?thesis by (simp only: mem_put_z_obs mem_zaddm) (simp add: mem_zlist_put)
  qed
  subgoal by (auto simp: mem_do_def mem_put_z_obs mem_zrem mem_zlist_put)
  subgoal by (auto simp: mem_do_def mem_put_s_obs mem_set_def)
  subgoal by (auto simp: mem_do_def mem_put_s_obs mem_set_def)
  subgoal by (auto simp: mem_do_def mem_strs_obs split: option.splits)
  subgoal by (auto simp: mem_do_def)
  done

lemma mem_reads_ok [simp]: "reads_ok mem_do db"
  unfolding reads_ok_def
proof (intro allI impI)
  fix c
  show "is_read c \<Longrightarrow> snd (mem_do db c) \<noteq> RErr"
    by (cases c) (auto simp: mem_do_def split: option.splits)
qed

end
