(* ===== verification/StoreIndex.thy ===== *)
theory StoreIndex
  imports StoreSearch MemValkey
begin

text \<open>
  The resource store of \<open>store/store.go\<close>: the keys under which a Kubernetes resource and its
  secondary indexes live, the writer \<open>SetResourceWithIndex\<close>, the eraser
  \<open>DeleteResourceWithIndex\<close>, and the index readers behind every list helper.

  A resource is stored under \<open>resources:apiVersion:kind:namespace:name\<close>; every
  (apiVersion, kind, namespace) has two sorted sets of names (by creation time and by name),
  every (apiVersion, kind) a set of namespaces, every node a set of pod keys. The pipeline
  that writes them is not a transaction; an operation that reports success has had no error
  reply. The reader of a wildcard namespace goes through the namespace registry, never
  through a scan.
\<close>

section \<open>Data\<close>

record ResourceDescriptor =
  rd_Kind :: string
  rd_Plural :: string
  rd_ApiVersion :: string
  rd_Namespaced :: bool

datatype store_error = MarshalError | PipelineError | IndexReadError | FetchError

type_synonym 'a store_result = "store_error + 'a"

definition VALKEY_RESOURCE_PREFIX :: string where
  "VALKEY_RESOURCE_PREFIX = ''resources''"

definition VALKEY_RESOURCE_INDEX_PREFIX :: string where
  "VALKEY_RESOURCE_INDEX_PREFIX = ''resources-idx''"

definition VALKEY_RESOURCE_INDEX_NS_PREFIX :: string where
  "VALKEY_RESOURCE_INDEX_NS_PREFIX = ''resources-idx-ns''"

definition VALKEY_RESOURCE_INDEX_NODE_PREFIX :: string where
  "VALKEY_RESOURCE_INDEX_NODE_PREFIX = ''resources-idx-node''"

definition resourceIndexSortByCreation :: string where
  "resourceIndexSortByCreation = ''by-creation''"

definition resourceIndexSortByName :: string where
  "resourceIndexSortByName = ''by-name''"

lemmas store_constants =
  VALKEY_RESOURCE_PREFIX_def VALKEY_RESOURCE_INDEX_PREFIX_def VALKEY_RESOURCE_INDEX_NS_PREFIX_def
  VALKEY_RESOURCE_INDEX_NODE_PREFIX_def resourceIndexSortByCreation_def resourceIndexSortByName_def

section \<open>Keys\<close>

definition CreateResourceKey :: "string list \<Rightarrow> string" where
  "CreateResourceKey parts = join [colon] (VALKEY_RESOURCE_PREFIX # parts)"

definition pattern_part :: "string option \<Rightarrow> string" where
  "pattern_part p = (case p of None \<Rightarrow> ''*'' | Some s \<Rightarrow> if s \<noteq> [] then s else ''*'')"

definition CreateKeyPattern ::
  "string option \<Rightarrow> string option \<Rightarrow> string option \<Rightarrow> string option \<Rightarrow> string" where
  "CreateKeyPattern apiVersion kind namespace name =
     join [colon] [VALKEY_RESOURCE_PREFIX, pattern_part apiVersion, pattern_part kind,
                   pattern_part namespace, pattern_part name]"

definition resourceIndexKey :: "string \<Rightarrow> string \<Rightarrow> string \<Rightarrow> string \<Rightarrow> string" where
  "resourceIndexKey apiVersion kind namespace sortType =
     join [colon] [VALKEY_RESOURCE_INDEX_PREFIX, apiVersion, kind, namespace, sortType]"

definition resourceNamespaceRegistryKey :: "string \<Rightarrow> string \<Rightarrow> string" where
  "resourceNamespaceRegistryKey apiVersion kind =
     join [colon] [VALKEY_RESOURCE_INDEX_NS_PREFIX, apiVersion, kind]"

definition resourceNodeIndexKey :: "string \<Rightarrow> string" where
  "resourceNodeIndexKey nodeName = VALKEY_RESOURCE_INDEX_NODE_PREFIX @ [colon] @ nodeName"

section \<open>Type information of stored objects\<close>

definition ensureTypeMeta :: "json \<Rightarrow> string \<Rightarrow> string \<Rightarrow> json" where
  "ensureTypeMeta obj apiVersion kind =
     (let obj1 = (if GetAPIVersion obj = [] \<and> apiVersion \<noteq> []
                  then set_field ''apiVersion'' (JStr apiVersion) obj else obj)
      in if GetKind obj1 = [] \<and> kind \<noteq> [] then set_field ''kind'' (JStr kind) obj1 else obj1)"

definition stampTypeMetaFromKey :: "json \<Rightarrow> string \<Rightarrow> json" where
  "stampTypeMetaFromKey obj key =
     (if GetAPIVersion obj \<noteq> [] \<and> GetKind obj \<noteq> [] then obj
      else let parts = split_n 5 colon key
           in if length parts \<noteq> 5 then obj else ensureTypeMeta obj (parts ! 1) (parts ! 2))"

definition podNodeName :: "string \<Rightarrow> string \<Rightarrow> json option \<Rightarrow> string" where
  "podNodeName apiVersion kind obj =
     (case obj of
        None \<Rightarrow> []
      | Some o' \<Rightarrow> if kind \<noteq> ''Pod'' \<or> apiVersion \<noteq> ''v1'' then []
                   else nested_string o' [''spec'', ''nodeName''])"

section \<open>Writing and deleting\<close>

text \<open>The client library reports a nil reply as an error too.\<close>

fun checkPipeline :: "vreply list \<Rightarrow> bool" where
  "checkPipeline [] = True"
| "checkPipeline (r # rs) = (if r = RErr \<or> r = RNil then False else checkPipeline rs)"

text \<open>A duration is a number of nanoseconds.\<close>

definition ttl_seconds :: "int \<Rightarrow> int" where
  "ttl_seconds ttl = (let s = ttl div 1000000000 in if s \<le> 0 then 3600 else s)"

definition set_resource_cmds ::
  "string \<Rightarrow> string \<Rightarrow> string \<Rightarrow> string \<Rightarrow> string \<Rightarrow> int \<Rightarrow> string \<Rightarrow> int \<Rightarrow> vcmd list" where
  "set_resource_cmds apiVersion kind namespace name payload score nodeName ttlSeconds =
     (let primaryKey = CreateResourceKey [apiVersion, kind, namespace, name];
          byCreationKey = resourceIndexKey apiVersion kind namespace resourceIndexSortByCreation;
          byNameKey = resourceIndexKey apiVersion kind namespace resourceIndexSortByName;
          nsRegistryKey = resourceNamespaceRegistryKey apiVersion kind
      in [SET primaryKey payload (Some ttlSeconds),
          ZADD byCreationKey name score, EXPIRE byCreationKey ttlSeconds,
          ZADD byNameKey name 0, EXPIRE byNameKey ttlSeconds,
          SADD nsRegistryKey namespace, EXPIRE nsRegistryKey ttlSeconds]
         @ (if nodeName \<noteq> [] then
              [SADD (resourceNodeIndexKey nodeName) primaryKey,
               EXPIRE (resourceNodeIndexKey nodeName) ttlSeconds]
            else []))"

definition SetResourceWithIndex ::
  "'db env \<Rightarrow> 'db \<Rightarrow> string \<Rightarrow> string \<Rightarrow> string \<Rightarrow> string \<Rightarrow> json \<Rightarrow> int \<Rightarrow> 'db \<times> unit store_result" where
  "SetResourceWithIndex E db apiVersion kind namespace name obj ttl =
     (let obj1 = ensureTypeMeta obj apiVersion kind
      in case js_marshal E obj1 of
           None \<Rightarrow> (db, Inl MarshalError)
         | Some payload \<Rightarrow>
             (let (db', rs) =
                DoMulti (vk_do E) db
                  (set_resource_cmds apiVersion kind namespace name payload (ts_unix E obj1)
                     (podNodeName apiVersion kind (Some obj1)) (ttl_seconds ttl))
              in (db', if checkPipeline rs then Inr () else Inl PipelineError)))"

definition delete_resource_cmds ::
  "string \<Rightarrow> string \<Rightarrow> string \<Rightarrow> string \<Rightarrow> string \<Rightarrow> vcmd list" where
  "delete_resource_cmds apiVersion kind namespace name nodeName =
     (let primaryKey = CreateResourceKey [apiVersion, kind, namespace, name]
      in [DEL primaryKey,
          ZREM (resourceIndexKey apiVersion kind namespace resourceIndexSortByCreation) [name],
          ZREM (resourceIndexKey apiVersion kind namespace resourceIndexSortByName) [name]]
         @ (if nodeName \<noteq> [] then [SREM (resourceNodeIndexKey nodeName) primaryKey] else []))"

definition DeleteResourceWithIndex ::
  "'db env \<Rightarrow> 'db \<Rightarrow> string \<Rightarrow> string \<Rightarrow> string \<Rightarrow> string \<Rightarrow> json option \<Rightarrow> 'db \<times> unit store_result" where
  "DeleteResourceWithIndex E db apiVersion kind namespace name obj =
     (let (db', rs) =
        DoMulti (vk_do E) db
          (delete_resource_cmds apiVersion kind namespace name (podNodeName apiVersion kind obj))
      in (db', if checkPipeline rs then Inr () else Inl PipelineError))"

text \<open>The readers are parametric in the decoder, as the Go generics are.\<close>

definition GetResource ::
  "'db server \<Rightarrow> (string \<Rightarrow> 'o option) \<Rightarrow> 'db \<Rightarrow> string \<Rightarrow> string \<Rightarrow> string \<Rightarrow> string \<Rightarrow> 'db \<times> 'o get_result" where
  "GetResource srv dec db apiVersion kind namespace name =
     GetObjectForKey srv dec db [VALKEY_RESOURCE_PREFIX, apiVersion, kind, namespace, name]"

section \<open>Reading through the indexes\<close>

definition isWildcardFilter :: "string \<Rightarrow> bool" where
  "isWildcardFilter flt \<longleftrightarrow> flt = [] \<or> flt = ''*''"

fun registry_shards ::
  "(string \<Rightarrow> bool) \<Rightarrow> (ResourceDescriptor \<times> vreply) list \<Rightarrow> indexShard list option" where
  "registry_shards keep [] = Some []"
| "registry_shards keep ((d, r) # drs) =
     (case as_str_slice r of
        None \<Rightarrow> None
      | Some namespaces \<Rightarrow>
          map_option ((@) (map (\<lambda>ns. \<lparr>sh_apiVersion = rd_ApiVersion d, sh_kind = rd_Kind d,
                                     sh_namespace = ns\<rparr>) (filter keep namespaces)))
            (registry_shards keep drs))"

definition resourceShardsFor ::
  "'db server \<Rightarrow> 'db \<Rightarrow> ResourceDescriptor list \<Rightarrow> string \<Rightarrow> 'db \<times> indexShard list store_result" where
  "resourceShardsFor srv db descriptors namespaceFilter =
     (if \<not> isWildcardFilter namespaceFilter \<and> \<not> str_contains namespaceFilter ''*'' then
        (db, Inr (map (\<lambda>d. \<lparr>sh_apiVersion = rd_ApiVersion d, sh_kind = rd_Kind d,
                           sh_namespace = namespaceFilter\<rparr>) descriptors))
      else
        let (db', rs) =
              DoMulti srv db
                (map (\<lambda>d. SMEMBERS (resourceNamespaceRegistryKey (rd_ApiVersion d) (rd_Kind d))) descriptors);
            keep = (\<lambda>ns. isWildcardFilter namespaceFilter \<or> glob namespaceFilter ns)
        in (db', case registry_shards keep (zip descriptors rs) of
                   None \<Rightarrow> Inl IndexReadError
                 | Some shards \<Rightarrow> Inr shards))"

fun index_keys :: "(string \<Rightarrow> bool) \<Rightarrow> (indexShard \<times> vreply) list \<Rightarrow> string list option" where
  "index_keys keep [] = Some []"
| "index_keys keep ((s, r) # srs) =
     (case as_str_slice r of
        None \<Rightarrow> None
      | Some names \<Rightarrow>
          map_option ((@) (map (\<lambda>name. CreateResourceKey [sh_apiVersion s, sh_kind s, sh_namespace s, name])
                             (filter keep names)))
            (index_keys keep srs))"

definition resourceKeysForShards ::
  "'db server \<Rightarrow> 'db \<Rightarrow> indexShard list \<Rightarrow> string \<Rightarrow> 'db \<times> string list store_result" where
  "resourceKeysForShards srv db shards nameFilter =
     (if shards = [] then (db, Inr [])
      else
        let (db', rs) =
              DoMulti srv db
                (map (\<lambda>s. ZRANGE (resourceIndexKey (sh_apiVersion s) (sh_kind s) (sh_namespace s)
                                    resourceIndexSortByName) (-1)) shards);
            keep = (\<lambda>name. isWildcardFilter nameFilter \<or> glob nameFilter name)
        in (db', case index_keys keep (zip shards rs) of
                   None \<Rightarrow> Inl IndexReadError
                 | Some keys \<Rightarrow> Inr keys))"

definition resourceKeysByIndex ::
  "'db server \<Rightarrow> 'db \<Rightarrow> string \<Rightarrow> string \<Rightarrow> string \<Rightarrow> string \<Rightarrow> 'db \<times> string list store_result" where
  "resourceKeysByIndex srv db apiVersion kind namespaceFilter nameFilter =
     (case resourceShardsFor srv db
             [\<lparr>rd_Kind = kind, rd_Plural = [], rd_ApiVersion = apiVersion, rd_Namespaced = False\<rparr>]
             namespaceFilter of
        (db1, Inl e) \<Rightarrow> (db1, Inl e)
      | (db1, Inr shards) \<Rightarrow> resourceKeysForShards srv db1 shards nameFilter)"

definition resourceReadChunkSize :: nat where "resourceReadChunkSize = 1000"

text \<open>\<open>slices.Chunk\<close>.\<close>

function chunk :: "nat \<Rightarrow> 'a list \<Rightarrow> 'a list list" where
  "chunk n xs = (if n = 0 \<or> xs = [] then [] else take n xs # chunk n (drop n xs))"
  by pat_completeness auto
termination by (relation "measure (\<lambda>(n, xs). length xs)") auto

declare chunk.simps [simp del]

fun read_chunks ::
  "'db server \<Rightarrow> (string \<Rightarrow> 'o option) \<Rightarrow> 'db \<Rightarrow> string list list \<Rightarrow> 'db \<times> 'o list \<times> bool" where
  "read_chunks srv dec db [] = (db, [], True)"
| "read_chunks srv dec db (c # cs) =
     (case GetObjectsForKeys srv dec db c of
        (db1, objs, False) \<Rightarrow> (db1, [], False)
      | (db1, objs, True) \<Rightarrow>
          (let (db2, rest, ok) = read_chunks srv dec db1 cs in (db2, objs @ rest, ok)))"

text \<open>A decoding error keeps the chunks read before it.\<close>

definition listResourcesByIndex ::
  "'db server \<Rightarrow> (string \<Rightarrow> 'o option) \<Rightarrow> 'db \<Rightarrow> string \<Rightarrow> string \<Rightarrow> string \<Rightarrow> string
     \<Rightarrow> 'db \<times> 'o list \<times> store_error option" where
  "listResourcesByIndex srv dec db apiVersion kind namespaceFilter nameFilter =
     (case resourceKeysByIndex srv db apiVersion kind namespaceFilter nameFilter of
        (db1, Inl e) \<Rightarrow> (db1, [], Some e)
      | (db1, Inr keys) \<Rightarrow>
          (let (db2, objs, ok) = read_chunks srv dec db1 (chunk resourceReadChunkSize keys)
           in (db2, objs, if ok then None else Some FetchError)))"

definition SearchByGroupKindNameNamespace ::
  "'db server \<Rightarrow> (string \<Rightarrow> 'o option) \<Rightarrow> 'db \<Rightarrow> string \<Rightarrow> string \<Rightarrow> string \<Rightarrow> string option
     \<Rightarrow> 'db \<times> 'o list \<times> store_error option" where
  "SearchByGroupKindNameNamespace srv dec db apiVersion kind name namespace =
     (let namespaceFilter = (case namespace of None \<Rightarrow> ''*'' | Some ns \<Rightarrow> ns)
      in case resourceKeysByIndex srv db apiVersion kind namespaceFilter name of
           (db1, Inl e) \<Rightarrow> (db1, [], Some e)
         | (db1, Inr keys) \<Rightarrow>
             (let (db2, objs, ok) = GetObjectsForKeys srv dec db1 keys
              in (db2, objs, if ok then None else Some FetchError)))"

definition GetResourcesByNamespaceAndKinds ::
  "'db server \<Rightarrow> (string \<Rightarrow> json option) \<Rightarrow> 'db \<Rightarrow> string \<Rightarrow> ResourceDescriptor list
     \<Rightarrow> 'db \<times> json list \<times> store_error option" where
  "GetResourcesByNamespaceAndKinds srv dec db namespace allowed =
     (case resourceShardsFor srv db allowed namespace of
        (db1, Inl e) \<Rightarrow> (db1, [], Some e)
      | (db1, Inr shards) \<Rightarrow>
          (case resourceKeysForShards srv db1 shards ''*'' of
             (db2, Inl e) \<Rightarrow> (db2, [], Some e)
           | (db2, Inr selected) \<Rightarrow>
               (let (db3, pairs, ok) = GetKeyedObjectsForKeys srv dec db2 selected
                in (db3, map (\<lambda>(key, obj). stampTypeMetaFromKey obj key) pairs,
                    if ok then None else Some FetchError))))"

text \<open>\<open>GetPodsOnNode\<close> and \<open>GetPods\<close>; \<open>nodeOf\<close> reads \<open>Spec.NodeName\<close> of a decoded pod.\<close>

definition GetPods :: "'db server \<Rightarrow> (string \<Rightarrow> 'o option) \<Rightarrow> 'db \<Rightarrow> string \<Rightarrow> 'db \<times> 'o list" where
  "GetPods srv dec db namespace =
     (let (db', pods, err) = listResourcesByIndex srv dec db ''v1'' ''Pod'' namespace ''*''
      in (db', if err = None then pods else []))"

definition GetPodsOnNode ::
  "'db server \<Rightarrow> (string \<Rightarrow> 'o option) \<Rightarrow> ('o \<Rightarrow> string) \<Rightarrow> 'db \<Rightarrow> string \<Rightarrow> 'db \<times> 'o list" where
  "GetPodsOnNode srv dec nodeOf db nodeName =
     (let (db1, r) = srv db (SMEMBERS (resourceNodeIndexKey nodeName));
          fallback = (\<lambda>d. let (d', pods) = GetPods srv dec d ''*''
                          in (d', filter (\<lambda>p. nodeOf p = nodeName) pods))
      in case as_str_slice r of
           None \<Rightarrow> fallback db1
         | Some members \<Rightarrow>
             if members = [] then fallback db1
             else (case GetObjectsForKeys srv dec db1 members of
                     (db2, pods, True) \<Rightarrow> (db2, pods)
                   | (db2, pods, False) \<Rightarrow> fallback db2))"

section \<open>Keys: disjoint families, decodable\<close>

lemma key_families [simp]:
  "CreateResourceKey ps \<noteq> resourceIndexKey a k n s"
  "resourceIndexKey a k n s \<noteq> CreateResourceKey ps"
  "CreateResourceKey ps \<noteq> resourceNamespaceRegistryKey a k"
  "resourceNamespaceRegistryKey a k \<noteq> CreateResourceKey ps"
  "CreateResourceKey ps \<noteq> resourceNodeIndexKey n"
  "resourceNodeIndexKey n \<noteq> CreateResourceKey ps"
  "resourceIndexKey a k n s \<noteq> resourceNamespaceRegistryKey a' k'"
  "resourceNamespaceRegistryKey a' k' \<noteq> resourceIndexKey a k n s"
  "resourceIndexKey a k n s \<noteq> resourceNodeIndexKey n'"
  "resourceNodeIndexKey n' \<noteq> resourceIndexKey a k n s"
  "resourceNamespaceRegistryKey a k \<noteq> resourceNodeIndexKey n'"
  "resourceNodeIndexKey n' \<noteq> resourceNamespaceRegistryKey a k"
  by (cases ps; simp add: CreateResourceKey_def resourceIndexKey_def resourceNamespaceRegistryKey_def
      resourceNodeIndexKey_def store_constants)+

lemma index_sort_types [simp]:
  "resourceIndexKey a k n resourceIndexSortByCreation \<noteq> resourceIndexKey a' k' n' resourceIndexSortByName"
  "resourceIndexKey a' k' n' resourceIndexSortByName \<noteq> resourceIndexKey a k n resourceIndexSortByCreation"
proof -
  have "last (resourceIndexKey a k n resourceIndexSortByCreation) = CHR ''n''"
    "last (resourceIndexKey a' k' n' resourceIndexSortByName) = CHR ''e''"
    by (simp_all add: resourceIndexKey_def store_constants)
  then show "resourceIndexKey a k n resourceIndexSortByCreation \<noteq> resourceIndexKey a' k' n' resourceIndexSortByName"
    "resourceIndexKey a' k' n' resourceIndexSortByName \<noteq> resourceIndexKey a k n resourceIndexSortByCreation"
    by auto
qed

lemma resourceIndexKey_sort [simp]: "resourceIndexKey a k n s = resourceIndexKey a k n s' \<longleftrightarrow> s = s'"
  by (simp add: resourceIndexKey_def)

lemma sort_types_differ [simp]:
  "resourceIndexSortByName \<noteq> resourceIndexSortByCreation" "resourceIndexSortByCreation \<noteq> resourceIndexSortByName"
  by (simp_all add: store_constants)

abbreviation colon_free :: "string \<Rightarrow> bool" where
  "colon_free s \<equiv> colon \<notin> set s"

lemma append_colon_inject:
  "colon_free a \<Longrightarrow> colon_free b \<Longrightarrow> a @ colon # x = b @ colon # y \<longleftrightarrow> a = b \<and> x = y"
  by (metis cut_append option.inject prod.inject)

text \<open>Names may contain colons (RBAC roles do): only the first segments must be free of
  them for a key to be decodable.\<close>

lemma CreateResourceKey_inject:
  assumes "colon_free a" "colon_free k" "colon_free n" "colon_free a'" "colon_free k'" "colon_free n'"
  shows "CreateResourceKey [a, k, n, m] = CreateResourceKey [a', k', n', m']
           \<longleftrightarrow> (a, k, n, m) = (a', k', n', m')"
  using assms by (simp add: CreateResourceKey_def append_colon_inject)

lemma resourceIndexKey_inject:
  assumes "colon_free a" "colon_free k" "colon_free n" "colon_free a'" "colon_free k'" "colon_free n'"
  shows "resourceIndexKey a k n s = resourceIndexKey a' k' n' s' \<longleftrightarrow> (a, k, n, s) = (a', k', n', s')"
  using assms by (simp add: resourceIndexKey_def append_colon_inject)

lemma resourceNamespaceRegistryKey_inject:
  assumes "colon_free a" "colon_free a'"
  shows "resourceNamespaceRegistryKey a k = resourceNamespaceRegistryKey a' k' \<longleftrightarrow> (a, k) = (a', k')"
  using assms by (simp add: resourceNamespaceRegistryKey_def append_colon_inject)

lemma split_key:
  assumes "colon_free a" "colon_free k" "colon_free n"
  shows "split_n 5 colon (CreateResourceKey [a, k, n, m]) = [VALKEY_RESOURCE_PREFIX, a, k, n, m]"
proof -
  have "colon_free VALKEY_RESOURCE_PREFIX" by (simp add: store_constants)
  with assms show ?thesis by (simp add: CreateResourceKey_def eval_nat_numeral)
qed

section \<open>Type information\<close>

lemma ensureTypeMeta_fields:
  assumes "a \<noteq> []" "k \<noteq> []"
  shows "GetAPIVersion (ensureTypeMeta (JObj fs) a k)
           = (if GetAPIVersion (JObj fs) = [] then a else GetAPIVersion (JObj fs))"
    and "GetKind (ensureTypeMeta (JObj fs) a k)
           = (if GetKind (JObj fs) = [] then k else GetKind (JObj fs))"
  using assms
  by (auto simp: ensureTypeMeta_def Let_def GetAPIVersion_def GetKind_def set_field_def nested_string_def)

section \<open>Pipelines of writes\<close>

definition pipe_ok :: "'db server \<Rightarrow> 'db \<Rightarrow> vcmd list \<Rightarrow> 'db \<Rightarrow> bool" where
  "pipe_ok srv db cs db' \<longleftrightarrow> fst (DoMulti srv db cs) = db' \<and> checkPipeline (snd (DoMulti srv db cs))"

lemma pipe_ok_Nil [simp]: "pipe_ok srv db [] db' \<longleftrightarrow> db' = db"
  by (auto simp: pipe_ok_def)

lemma pipe_ok_Cons:
  "pipe_ok srv db (c # cs) db' \<longleftrightarrow>
     (\<exists>db1 r. srv db c = (db1, r) \<and> r \<noteq> RErr \<and> r \<noteq> RNil \<and> pipe_ok srv db1 cs db')"
  by (cases "srv db c") (auto simp: pipe_ok_def DoMulti_Cons)

lemma SetResource_pipe:
  "SetResourceWithIndex E db a k n m obj ttl = (db', Inr ()) \<longleftrightarrow>
     (\<exists>payload. js_marshal E (ensureTypeMeta obj a k) = Some payload \<and>
        pipe_ok (vk_do E) db
          (set_resource_cmds a k n m payload (ts_unix E (ensureTypeMeta obj a k))
             (podNodeName a k (Some (ensureTypeMeta obj a k))) (ttl_seconds ttl)) db')"
  by (auto simp: SetResourceWithIndex_def pipe_ok_def case_prod_unfold Let_def split: option.splits if_splits)

lemma DeleteResource_pipe:
  "DeleteResourceWithIndex E db a k n m obj = (db', Inr ()) \<longleftrightarrow>
     pipe_ok (vk_do E) db (delete_resource_cmds a k n m (podNodeName a k obj)) db'"
  by (auto simp: DeleteResourceWithIndex_def pipe_ok_def case_prod_unfold Let_def split: if_splits)

lemma ttl_positive [simp]: "0 < ttl_seconds ttl"
  by (simp add: ttl_seconds_def Let_def)

context valkey_server
begin

lemma zadd_upd: "srv db (ZADD k m sc) = (db', r) \<Longrightarrow> r \<noteq> RErr \<Longrightarrow>
  strs db' = strs db \<and> sset db' = sset db \<and>
  (\<exists>l. zlist db' = (zlist db)(k := l) \<and> set l = insert (m, sc) {e \<in> set (zlist db k). fst e \<noteq> m})"
  using zadd_spec [of db k m sc db' r] by (intro conjI exI [of _ "zlist db' k"]) auto

lemma zrem_upd: "srv db (ZREM k ms) = (db', r) \<Longrightarrow> r \<noteq> RErr \<Longrightarrow>
  strs db' = strs db \<and> sset db' = sset db \<and>
  zlist db' = (zlist db)(k := filter (\<lambda>e. fst e \<notin> set ms) (zlist db k))"
  using zrem_spec [of db k ms db' r] by auto

lemma set_cmds_effect:
  assumes "pipe_ok srv db (set_resource_cmds a k n m payload score node ttl) db'" and "0 < ttl"
  shows "strs db' = (strs db)(CreateResourceKey [a, k, n, m] \<mapsto> payload)"
    and "set (zlist db' (resourceIndexKey a k n resourceIndexSortByCreation)) =
           insert (m, score) {e \<in> set (zlist db (resourceIndexKey a k n resourceIndexSortByCreation)). fst e \<noteq> m}"
    and "set (zlist db' (resourceIndexKey a k n resourceIndexSortByName)) =
           insert (m, 0) {e \<in> set (zlist db (resourceIndexKey a k n resourceIndexSortByName)). fst e \<noteq> m}"
    and "key \<notin> {resourceIndexKey a k n resourceIndexSortByCreation,
                 resourceIndexKey a k n resourceIndexSortByName, CreateResourceKey [a, k, n, m]}
           \<Longrightarrow> zlist db' key = zlist db key"
    and "sset db' (resourceNamespaceRegistryKey a' k') =
           sset db (resourceNamespaceRegistryKey a' k')
             \<union> (if resourceNamespaceRegistryKey a' k' = resourceNamespaceRegistryKey a k then {n} else {})"
proof -
  let ?pk = "CreateResourceKey [a, k, n, m]" and ?ck = "resourceIndexKey a k n resourceIndexSortByCreation"
    and ?nk = "resourceIndexKey a k n resourceIndexSortByName" and ?rk = "resourceNamespaceRegistryKey a k"
  obtain d1 d2 d3 d4 d5 d6 d7 r1 r2 r3 r4 r5 r6 r7 where
    step: "srv db (SET ?pk payload (Some ttl)) = (d1, r1)" "r1 \<noteq> RErr"
      "srv d1 (ZADD ?ck m score) = (d2, r2)" "r2 \<noteq> RErr" "srv d2 (EXPIRE ?ck ttl) = (d3, r3)" "r3 \<noteq> RErr"
      "srv d3 (ZADD ?nk m 0) = (d4, r4)" "r4 \<noteq> RErr" "srv d4 (EXPIRE ?nk ttl) = (d5, r5)" "r5 \<noteq> RErr"
      "srv d5 (SADD ?rk n) = (d6, r6)" "r6 \<noteq> RErr" "srv d6 (EXPIRE ?rk ttl) = (d7, r7)" "r7 \<noteq> RErr"
    and tl: "pipe_ok srv d7 (if node \<noteq> [] then [SADD (resourceNodeIndexKey node) ?pk,
        EXPIRE (resourceNodeIndexKey node) ttl] else []) db'"
    using assms(1) unfolding set_resource_cmds_def Let_def by (simp add: pipe_ok_Cons) blast
  have s: "strs d7 = (strs db)(?pk \<mapsto> payload)" and ss: "sset d7 = (sset db)(?pk := {}, ?rk := insert n (sset db ?rk))"
    using set_spec [OF step(1,2)] zadd_upd [OF step(3,4)] expire_spec [OF step(5,6) assms(2)]
      zadd_upd [OF step(7,8)] expire_spec [OF step(9,10) assms(2)] sadd_spec [OF step(11,12)]
      expire_spec [OF step(13,14) assms(2)] by simp_all
  have d1: "zlist d1 = (zlist db)(?pk := [])" using set_spec [OF step(1,2)] by simp
  obtain lc where z2: "zlist d2 = (zlist d1)(?ck := lc)"
    and lc: "set lc = insert (m, score) {e \<in> set (zlist db ?ck). fst e \<noteq> m}"
    using zadd_upd [OF step(3,4)] d1 by auto
  have d3: "zlist d3 = (zlist db)(?pk := [], ?ck := lc)"
    using z2 d1 expire_spec [OF step(5,6) assms(2)] by simp
  obtain ln where z4: "zlist d4 = (zlist d3)(?nk := ln)"
    and ln: "set ln = insert (m, 0) {e \<in> set (zlist db ?nk). fst e \<noteq> m}"
    using zadd_upd [OF step(7,8)] d3 by auto
  have z: "zlist d7 = (zlist db)(?pk := [], ?ck := lc, ?nk := ln)"
    using z4 d3 expire_spec [OF step(9,10) assms(2)] sadd_spec [OF step(11,12)]
      expire_spec [OF step(13,14) assms(2)] by simp
  have t: "strs db' = strs d7" "zlist db' = zlist d7"
    "sset db' (resourceNamespaceRegistryKey a' k') = sset d7 (resourceNamespaceRegistryKey a' k')"
    using tl assms(2) by (auto simp: pipe_ok_Cons split: if_splits dest!: expire_spec sadd_spec)
  show "strs db' = (strs db)(?pk \<mapsto> payload)" by (simp add: t s)
  show "set (zlist db' ?ck) = insert (m, score) {e \<in> set (zlist db ?ck). fst e \<noteq> m}" by (simp add: t z lc)
  show "set (zlist db' ?nk) = insert (m, 0) {e \<in> set (zlist db ?nk). fst e \<noteq> m}" by (simp add: t z ln)
  show "key \<notin> {?ck, ?nk, ?pk} \<Longrightarrow> zlist db' key = zlist db key" by (simp add: t z)
  show "sset db' (resourceNamespaceRegistryKey a' k') = sset db (resourceNamespaceRegistryKey a' k')
      \<union> (if resourceNamespaceRegistryKey a' k' = ?rk then {n} else {})" by (simp add: t ss)
qed

lemma delete_cmds_effect:
  assumes "pipe_ok srv db (delete_resource_cmds a k n m node) db'"
  shows "strs db' = (strs db)(CreateResourceKey [a, k, n, m] := None)"
    and "zlist db' (resourceIndexKey a k n s) =
           (if s \<in> {resourceIndexSortByCreation, resourceIndexSortByName}
            then filter (\<lambda>e. fst e \<noteq> m) (zlist db (resourceIndexKey a k n s))
            else zlist db (resourceIndexKey a k n s))"
    and "key \<notin> {resourceIndexKey a k n resourceIndexSortByCreation,
                 resourceIndexKey a k n resourceIndexSortByName, CreateResourceKey [a, k, n, m]}
           \<Longrightarrow> zlist db' key = zlist db key"
    and "sset db' (resourceNamespaceRegistryKey a' k') = sset db (resourceNamespaceRegistryKey a' k')"
  using assms
  by (auto simp: delete_resource_cmds_def Let_def pipe_ok_Cons split: if_splits
      dest!: del_spec zrem_upd srem_spec)

end

section \<open>The abstract store and its indexes\<close>

text \<open>
  What the keys mean: a partial map from (apiVersion, kind, namespace, name) to payloads.
  \<open>store_indexed\<close> is the invariant of the indexes: every stored resource has its name in both
  sorted sets of its shard and its namespace in the registry of its kind; the by-name sets
  score every member 0, which is what makes a lexicographic range meaningful.
\<close>

type_synonym resource_id = "string \<times> string \<times> string \<times> string"

fun id_ok :: "resource_id \<Rightarrow> bool" where
  "id_ok (a, k, n, m) \<longleftrightarrow> colon_free a \<and> colon_free k \<and> colon_free n"

fun id_key :: "resource_id \<Rightarrow> string" where
  "id_key (a, k, n, m) = CreateResourceKey [a, k, n, m]"

definition store_abs :: "('db \<Rightarrow> string \<Rightarrow> string option) \<Rightarrow> 'db \<Rightarrow> resource_id \<Rightarrow> string option" where
  "store_abs strs db x = (if id_ok x then strs db (id_key x) else None)"

definition store_indexed ::
  "('db \<Rightarrow> string \<Rightarrow> string option) \<Rightarrow> ('db \<Rightarrow> string \<Rightarrow> (string \<times> int) list) \<Rightarrow> ('db \<Rightarrow> string \<Rightarrow> string set)
     \<Rightarrow> 'db \<Rightarrow> bool" where
  "store_indexed strs zlist sset db \<longleftrightarrow>
     (\<forall>a k n m. store_abs strs db (a, k, n, m) \<noteq> None \<longrightarrow>
        m \<in> fst ` set (zlist db (resourceIndexKey a k n resourceIndexSortByCreation)) \<and>
        m \<in> fst ` set (zlist db (resourceIndexKey a k n resourceIndexSortByName)) \<and>
        n \<in> sset db (resourceNamespaceRegistryKey a k)) \<and>
     (\<forall>a k n. \<forall>e \<in> set (zlist db (resourceIndexKey a k n resourceIndexSortByName)). snd e = 0) \<and>
     (\<forall>a k. colon_free a \<longrightarrow> (\<forall>n \<in> sset db (resourceNamespaceRegistryKey a k). colon_free n))"

text \<open>The states reached by the successful writes and deletes of the watcher.\<close>

inductive store_reach :: "'db env \<Rightarrow> 'db \<Rightarrow> 'db \<Rightarrow> bool" for E :: "'db env" and db0 :: 'db where
  init: "store_reach E db0 db0"
| set: "store_reach E db0 db \<Longrightarrow> id_ok (a, k, n, m) \<Longrightarrow>
    SetResourceWithIndex E db a k n m obj ttl = (db', Inr ()) \<Longrightarrow> store_reach E db0 db'"
| delete: "store_reach E db0 db \<Longrightarrow> id_ok (a, k, n, m) \<Longrightarrow>
    DeleteResourceWithIndex E db a k n m obj' = (db', Inr ()) \<Longrightarrow> store_reach E db0 db'"

lemma id_key_inject: "id_ok x \<Longrightarrow> id_ok y \<Longrightarrow> id_key x = id_key y \<longleftrightarrow> x = y"
  by (cases x; cases y) (simp add: CreateResourceKey_inject)

lemma store_abs_upd:
  assumes "id_ok x" "strs db' = (strs db)(id_key x := v)"
  shows "store_abs strs db' = (store_abs strs db)(x := v)"
proof
  fix y
  show "store_abs strs db' y = ((store_abs strs db)(x := v)) y"
    using assms id_key_inject [of y x] by (auto simp: store_abs_def)
qed

context valkey_server
begin

lemma set_abs:
  assumes "vk_do E = srv" "id_ok (a, k, n, m)" "SetResourceWithIndex E db a k n m obj ttl = (db', Inr ())"
  shows "store_abs strs db' = (store_abs strs db)((a, k, n, m) := js_marshal E (ensureTypeMeta obj a k))"
proof -
  obtain payload score node where p: "js_marshal E (ensureTypeMeta obj a k) = Some payload"
    and "pipe_ok srv db (set_resource_cmds a k n m payload score node (ttl_seconds ttl)) db'"
    using assms by (auto simp: SetResource_pipe)
  then have "strs db' = (strs db)(id_key (a, k, n, m) := Some payload)"
    using set_cmds_effect(1) by simp
  from store_abs_upd [OF assms(2) this] p show ?thesis by simp
qed

lemma delete_abs:
  assumes "vk_do E = srv" "id_ok (a, k, n, m)" "DeleteResourceWithIndex E db a k n m obj = (db', Inr ())"
  shows "store_abs strs db' = (store_abs strs db)((a, k, n, m) := None)"
proof -
  have "strs db' = (strs db)(id_key (a, k, n, m) := None)"
    using assms delete_cmds_effect(1) by (simp add: DeleteResource_pipe)
  from store_abs_upd [OF assms(2) this] show ?thesis .
qed

text \<open>The names in an index after a write and after a delete.\<close>

lemma set_names:
  assumes "vk_do E = srv" "id_ok (a, k, n, m)" "SetResourceWithIndex E db a k n m obj ttl = (db', Inr ())"
    and "s \<in> {resourceIndexSortByCreation, resourceIndexSortByName}"
    and "colon_free a'" "colon_free k'" "colon_free n'"
  shows "fst ` set (zlist db' (resourceIndexKey a' k' n' s))
           = fst ` set (zlist db (resourceIndexKey a' k' n' s)) \<union> (if (a', k', n') = (a, k, n) then {m} else {})"
proof -
  obtain payload score node where
    "pipe_ok srv db (set_resource_cmds a k n m payload score node (ttl_seconds ttl)) db'"
    using assms by (auto simp: SetResource_pipe)
  note eff = set_cmds_effect [OF this ttl_positive]
  show ?thesis
  proof (cases "(a', k', n') = (a, k, n)")
    case True
    with assms(4) eff(2,3) show ?thesis by (auto simp: image_iff)
  next
    case False
    then have "resourceIndexKey a' k' n' s \<notin> {resourceIndexKey a k n resourceIndexSortByCreation,
        resourceIndexKey a k n resourceIndexSortByName, CreateResourceKey [a, k, n, m]}"
      using assms by (auto simp: resourceIndexKey_inject)
    from eff(4) [OF this] False show ?thesis by auto
  qed
qed

lemma delete_names:
  assumes "vk_do E = srv" "id_ok (a, k, n, m)" "DeleteResourceWithIndex E db a k n m obj = (db', Inr ())"
    and "s \<in> {resourceIndexSortByCreation, resourceIndexSortByName}"
    and "colon_free a'" "colon_free k'" "colon_free n'"
  shows "fst ` set (zlist db' (resourceIndexKey a' k' n' s))
           = fst ` set (zlist db (resourceIndexKey a' k' n' s)) - (if (a', k', n') = (a, k, n) then {m} else {})"
proof -
  have "pipe_ok srv db (delete_resource_cmds a k n m (podNodeName a k obj)) db'"
    using assms by (simp add: DeleteResource_pipe)
  note eff = delete_cmds_effect [OF this]
  show ?thesis
  proof (cases "(a', k', n') = (a, k, n)")
    case True
    with assms(4) eff(2) [of s] show ?thesis by (auto simp: image_iff)
  next
    case False
    then have "resourceIndexKey a' k' n' s \<notin> {resourceIndexKey a k n resourceIndexSortByCreation,
        resourceIndexKey a k n resourceIndexSortByName, CreateResourceKey [a, k, n, m]}"
      using assms by (auto simp: resourceIndexKey_inject)
    from eff(3) [OF this] False show ?thesis by auto
  qed
qed


lemma set_scores:
  assumes "vk_do E = srv" "SetResourceWithIndex E db a k n m obj ttl = (db', Inr ())"
    and "\<forall>e \<in> set (zlist db (resourceIndexKey a' k' n' resourceIndexSortByName)). snd e = 0"
  shows "\<forall>e \<in> set (zlist db' (resourceIndexKey a' k' n' resourceIndexSortByName)). snd e = 0"
proof -
  obtain payload score node where
    "pipe_ok srv db (set_resource_cmds a k n m payload score node (ttl_seconds ttl)) db'"
    using assms by (auto simp: SetResource_pipe)
  note eff = set_cmds_effect [OF this ttl_positive]
  show ?thesis
    using eff(3) eff(4) [of "resourceIndexKey a' k' n' resourceIndexSortByName"] assms(3)
    by (cases "resourceIndexKey a' k' n' resourceIndexSortByName = resourceIndexKey a k n resourceIndexSortByName") auto
qed

lemma delete_scores:
  assumes "vk_do E = srv" "DeleteResourceWithIndex E db a k n m obj = (db', Inr ())"
    and "\<forall>e \<in> set (zlist db (resourceIndexKey a' k' n' resourceIndexSortByName)). snd e = 0"
  shows "\<forall>e \<in> set (zlist db' (resourceIndexKey a' k' n' resourceIndexSortByName)). snd e = 0"
proof -
  have "pipe_ok srv db (delete_resource_cmds a k n m (podNodeName a k obj)) db'"
    using assms by (simp add: DeleteResource_pipe)
  note eff = delete_cmds_effect [OF this]
  show ?thesis
    using eff(2) [of resourceIndexSortByName] eff(3) [of "resourceIndexKey a' k' n' resourceIndexSortByName"] assms(3)
    by (cases "resourceIndexKey a' k' n' resourceIndexSortByName = resourceIndexKey a k n resourceIndexSortByName") auto
qed

lemma set_registry:
  assumes "vk_do E = srv" "SetResourceWithIndex E db a k n m obj ttl = (db', Inr ())"
  shows "sset db' (resourceNamespaceRegistryKey a' k') = sset db (resourceNamespaceRegistryKey a' k')
      \<union> (if resourceNamespaceRegistryKey a' k' = resourceNamespaceRegistryKey a k then {n} else {})"
  using assms set_cmds_effect(5) [OF _ ttl_positive] by (auto simp: SetResource_pipe)

lemma delete_registry:
  assumes "vk_do E = srv" "DeleteResourceWithIndex E db a k n m obj = (db', Inr ())"
  shows "sset db' (resourceNamespaceRegistryKey a' k') = sset db (resourceNamespaceRegistryKey a' k')"
  using assms delete_cmds_effect(4) by (simp add: DeleteResource_pipe)

lemma store_abs_ok: "store_abs strs db (a, k, n, m) \<noteq> None \<Longrightarrow> colon_free a \<and> colon_free k \<and> colon_free n"
  by (auto simp: store_abs_def split: if_splits)

lemma store_indexedD:
  assumes "store_indexed strs zlist sset db" "store_abs strs db (a, k, n, m) \<noteq> None"
  shows "m \<in> fst ` set (zlist db (resourceIndexKey a k n resourceIndexSortByCreation))"
    and "m \<in> fst ` set (zlist db (resourceIndexKey a k n resourceIndexSortByName))"
    and "n \<in> sset db (resourceNamespaceRegistryKey a k)"
  using assms unfolding store_indexed_def by blast+

lemma set_indexed:
  assumes E: "vk_do E = srv" "id_ok (a, k, n, m)" "SetResourceWithIndex E db a k n m obj ttl = (db', Inr ())"
    and inv: "store_indexed strs zlist sset db"
  shows "store_indexed strs zlist sset db'"
  unfolding store_indexed_def
proof (intro conjI allI impI)
  fix a' k' n' m'
  assume st: "store_abs strs db' (a', k', n', m') \<noteq> None"
  note cf = store_abs_ok [OF st]
  have old: "(a', k', n', m') = (a, k, n, m) \<or> store_abs strs db (a', k', n', m') \<noteq> None"
    using st set_abs [OF E] by (auto split: if_splits)
  show "m' \<in> fst ` set (zlist db' (resourceIndexKey a' k' n' resourceIndexSortByCreation))"
    "m' \<in> fst ` set (zlist db' (resourceIndexKey a' k' n' resourceIndexSortByName))"
    "n' \<in> sset db' (resourceNamespaceRegistryKey a' k')"
    using old store_indexedD [OF inv, of a' k' n' m'] cf set_names [OF E, of _ a' k' n']
      set_registry [OF E(1,3), of a' k'] by auto
next
  show "\<forall>e\<in>set (zlist db' (resourceIndexKey a' k' n' resourceIndexSortByName)). snd e = 0" for a' k' n'
    using set_scores [OF E(1,3)] inv unfolding store_indexed_def by blast
next
  show "\<forall>n\<in>sset db' (resourceNamespaceRegistryKey a' k'). colon_free n" if "colon_free a'" for a' k'
    using set_registry [OF E(1,3), of a' k'] inv that E(2) unfolding store_indexed_def by auto
qed

lemma delete_indexed:
  assumes E: "vk_do E = srv" "id_ok (a, k, n, m)" "DeleteResourceWithIndex E db a k n m obj = (db', Inr ())"
    and inv: "store_indexed strs zlist sset db"
  shows "store_indexed strs zlist sset db'"
  unfolding store_indexed_def
proof (intro conjI allI impI)
  fix a' k' n' m'
  assume st: "store_abs strs db' (a', k', n', m') \<noteq> None"
  note cf = store_abs_ok [OF st]
  have old: "(a', k', n', m') \<noteq> (a, k, n, m)" "store_abs strs db (a', k', n', m') \<noteq> None"
    using st delete_abs [OF E] by (auto split: if_splits)
  show "m' \<in> fst ` set (zlist db' (resourceIndexKey a' k' n' resourceIndexSortByCreation))"
    "m' \<in> fst ` set (zlist db' (resourceIndexKey a' k' n' resourceIndexSortByName))"
    "n' \<in> sset db' (resourceNamespaceRegistryKey a' k')"
    using old(1) store_indexedD [OF inv old(2)] cf delete_names [OF E, of _ a' k' n']
      delete_registry [OF E(1,3), of a' k'] by auto
next
  show "\<forall>e\<in>set (zlist db' (resourceIndexKey a' k' n' resourceIndexSortByName)). snd e = 0" for a' k' n'
    using delete_scores [OF E(1,3)] inv unfolding store_indexed_def by blast
next
  show "\<forall>n\<in>sset db' (resourceNamespaceRegistryKey a' k'). colon_free n" if "colon_free a'" for a' k'
    using delete_registry [OF E(1,3), of a' k'] inv that unfolding store_indexed_def by auto
qed

lemma reach_indexed:
  assumes "store_reach E db0 db" "vk_do E = srv" "store_indexed strs zlist sset db0"
  shows "store_indexed strs zlist sset db"
  using assms by (induction rule: store_reach.induct) (auto intro: set_indexed delete_indexed)

end

section \<open>Listing\<close>

lemma concat_chunk: "0 < n \<Longrightarrow> concat (chunk n xs) = xs"
proof (induction n xs rule: chunk.induct)
  case (1 n xs)
  then show ?case by (subst chunk.simps) auto
qed

lemma distinct_ids:
  "distinct ns \<Longrightarrow> (\<And>n. distinct (f n)) \<Longrightarrow>
   distinct (concat (map (\<lambda>n. map (\<lambda>m. (a, k, n, m)) (f n)) ns))"
  by (induction ns) (auto simp: distinct_map inj_on_def)

context valkey_server
begin

abbreviation shard_names :: "'db \<Rightarrow> string \<Rightarrow> string \<Rightarrow> string \<Rightarrow> string list" where
  "shard_names db a k n \<equiv> map fst (zlist db (resourceIndexKey a k n resourceIndexSortByName))"

lemma GetObjects_lookup:
  assumes "reads_ok srv db" and "\<forall>k \<in> set ks. \<forall>v. strs db k = Some v \<longrightarrow> dec v \<noteq> None"
  shows "GetObjectsForKeys srv dec db ks
           = (db, map (\<lambda>k. the (dec (the (strs db k)))) (filter (\<lambda>k. strs db k \<noteq> None) ks), True)"
proof -
  have "keyed_objects dec (zip ks (map (\<lambda>k. case strs db k of None \<Rightarrow> RNil | Some v \<Rightarrow> RStr v) ks))
      = (map (\<lambda>k. (k, the (dec (the (strs db k))))) (filter (\<lambda>k. strs db k \<noteq> None) ks), True)"
    by (rule keyed_objects_lookup) (use assms(2) in blast)
  then show ?thesis
    by (simp add: GetObjectsForKeys_def GetKeyedObjectsForKeys_def DoMulti_gets [OF assms(1)] comp_def)
qed

lemma read_chunks_lookup:
  assumes "reads_ok srv db" and "\<forall>k \<in> set (concat cs). \<forall>v. strs db k = Some v \<longrightarrow> dec v \<noteq> None"
  shows "read_chunks srv dec db cs
           = (db, map (\<lambda>k. the (dec (the (strs db k)))) (filter (\<lambda>k. strs db k \<noteq> None) (concat cs)), True)"
  using assms(2)
proof (induction cs)
  case (Cons c cs)
  have "GetObjectsForKeys srv dec db c
      = (db, map (\<lambda>k. the (dec (the (strs db k)))) (filter (\<lambda>k. strs db k \<noteq> None) c), True)"
    using Cons.prems by (intro GetObjects_lookup assms(1)) auto
  moreover have "\<forall>k \<in> set (concat cs). \<forall>v. strs db k = Some v \<longrightarrow> dec v \<noteq> None"
    using Cons.prems by auto
  note Cons.IH [OF this]
  ultimately show ?case by simp
qed simp

lemma keys_wildcard:
  assumes "reads_ok srv db"
  obtains ns where "distinct ns" "set ns = sset db (resourceNamespaceRegistryKey a k)"
    "resourceKeysByIndex srv db a k ''*'' ''*''
       = (db, Inr (map id_key (concat (map (\<lambda>n. map (\<lambda>m. (a, k, n, m)) (shard_names db a k n)) ns))))"
proof -
  have ok: "is_read c \<Longrightarrow> snd (srv db c) \<noteq> RErr" for c
    using assms by (simp add: reads_ok_def)
  obtain ns where ns: "snd (srv db (SMEMBERS (resourceNamespaceRegistryKey a k))) = RStrs ns"
    "distinct ns" "set ns = sset db (resourceNamespaceRegistryKey a k)"
    using smembers_reply [of db "resourceNamespaceRegistryKey a k"]
      ok [of "SMEMBERS (resourceNamespaceRegistryKey a k)"] by auto
  let ?sh = "\<lambda>n. \<lparr>sh_apiVersion = a, sh_kind = k, sh_namespace = n\<rparr>"
  have shards: "resourceShardsFor srv db
      [\<lparr>rd_Kind = k, rd_Plural = [], rd_ApiVersion = a, rd_Namespaced = False\<rparr>] ''*''
      = (db, Inr (map ?sh ns))"
    using ns(1) by (simp add: resourceShardsFor_def isWildcardFilter_def DoMulti_reads)
  have names: "snd (srv db (ZRANGE (resourceIndexKey a k n resourceIndexSortByName) (-1)))
      = RStrs (shard_names db a k n)" for n
    using zrange_all_reply [of db "resourceIndexKey a k n resourceIndexSortByName"]
      ok [of "ZRANGE (resourceIndexKey a k n resourceIndexSortByName) (-1)"] by simp
  have "index_keys (\<lambda>name. True) (zip (map ?sh ms)
          (map (\<lambda>c. snd (srv db c)) (map (\<lambda>s. ZRANGE (resourceIndexKey (sh_apiVersion s) (sh_kind s)
                 (sh_namespace s) resourceIndexSortByName) (-1)) (map ?sh ms))))
        = Some (map id_key (concat (map (\<lambda>n. map (\<lambda>m. (a, k, n, m)) (shard_names db a k n)) ms)))" for ms
    by (induction ms) (auto simp: names)
  from this [of ns] have "resourceKeysForShards srv db (map ?sh ns) ''*''
      = (db, Inr (map id_key (concat (map (\<lambda>n. map (\<lambda>m. (a, k, n, m)) (shard_names db a k n)) ns))))"
    by (simp add: resourceKeysForShards_def isWildcardFilter_def DoMulti_reads del: map_map)
  with shards that ns show thesis by (simp add: resourceKeysByIndex_def)
qed

lemma list_complete:
  assumes inv: "store_indexed strs zlist sset db" and ok: "reads_ok srv db"
    and cf: "colon_free a" "colon_free k"
    and dec: "\<And>x v. store_abs strs db x = Some v \<Longrightarrow> dec v \<noteq> None"
  shows "\<exists>xs. distinct xs \<and> set xs = {(a, k, n, m) | n m. store_abs strs db (a, k, n, m) \<noteq> None} \<and>
           listResourcesByIndex srv dec db a k ''*'' ''*''
             = (db, map (\<lambda>x. the (dec (the (store_abs strs db x)))) xs, None)"
proof -
  obtain ns where ns: "distinct ns" "set ns = sset db (resourceNamespaceRegistryKey a k)"
    and keys: "resourceKeysByIndex srv db a k ''*'' ''*''
       = (db, Inr (map id_key (concat (map (\<lambda>n. map (\<lambda>m. (a, k, n, m)) (shard_names db a k n)) ns))))"
    using keys_wildcard [OF ok] by blast
  define ids where "ids = concat (map (\<lambda>n. map (\<lambda>m. (a, k, n, m)) (shard_names db a k n)) ns)"
  have good: "\<forall>x \<in> set ids. id_ok x"
    using ns(2) inv cf by (auto simp: ids_def store_indexed_def)
  then have look: "\<forall>x \<in> set ids. store_abs strs db x = strs db (id_key x)"
    by (simp add: store_abs_def)
  let ?xs = "filter (\<lambda>x. store_abs strs db x \<noteq> None) ids"
  have d: "distinct ?xs" unfolding ids_def by (intro distinct_filter distinct_ids ns(1) zlist_keys)
  have "x \<in> set ids" if "store_abs strs db x \<noteq> None" "x = (a, k, n, m)" for x n m
    using store_indexedD [OF inv, of a k n m] that ns(2) by (auto simp: ids_def)
  then have st: "set ?xs = {(a, k, n, m) | n m. store_abs strs db (a, k, n, m) \<noteq> None}"
    by (fastforce simp: ids_def)
  have "read_chunks srv dec db (chunk resourceReadChunkSize (map id_key ids))
      = (db, map (\<lambda>k. the (dec (the (strs db k)))) (filter (\<lambda>k. strs db k \<noteq> None) (map id_key ids)), True)"
  proof -
    have "\<forall>k \<in> set (map id_key ids). \<forall>v. strs db k = Some v \<longrightarrow> dec v \<noteq> None"
      using look dec by fastforce
    then show ?thesis
      using read_chunks_lookup [OF ok, of "chunk resourceReadChunkSize (map id_key ids)" dec]
      by (simp add: concat_chunk resourceReadChunkSize_def del: not_None_eq)
  qed
  moreover have "map (\<lambda>k. the (dec (the (strs db k)))) (filter (\<lambda>k. strs db k \<noteq> None) (map id_key ids))
      = map (\<lambda>x. the (dec (the (store_abs strs db x)))) ?xs"
    using look by (induction ids) auto
  ultimately have "listResourcesByIndex srv dec db a k ''*'' ''*''
      = (db, map (\<lambda>x. the (dec (the (store_abs strs db x)))) ?xs, None)"
    using keys by (simp add: listResourcesByIndex_def ids_def)
  with d st show ?thesis by blast
qed

end

section \<open>Properties\<close>

text \<open>A concrete environment: the database in memory, and a codec that keeps the name.\<close>

definition demo_env :: "mem_db env" where
  "demo_env = \<lparr>vk_do = mem_do, js_marshal = (\<lambda>v. Some (GetName v)),
     js_unmarshal = (\<lambda>s. Some (JObj [(''metadata'', JObj [(''name'', JStr s)])])), ts_unix = (\<lambda>_. 100)\<rparr>"

definition demo_obj :: "string \<Rightarrow> json" where
  "demo_obj name = JObj [(''metadata'', JObj [(''name'', JStr name)])]"

definition demo_db :: mem_db where
  "demo_db = fst (SetResourceWithIndex demo_env mem_empty ''v1'' ''Pod'' ''ns'' ''web'' (demo_obj ''web'') 0)"

lemma demo_set:
  "SetResourceWithIndex demo_env mem_empty ''v1'' ''Pod'' ''ns'' ''web'' (demo_obj ''web'') 0 = (demo_db, Inr ())"
proof -
  have "snd (SetResourceWithIndex demo_env mem_empty ''v1'' ''Pod'' ''ns'' ''web'' (demo_obj ''web'') 0) = Inr ()"
    by code_simp
  then show ?thesis by (simp add: demo_db_def prod_eq_iff)
qed

lemma demo_server: "valkey_server (vk_do demo_env) mem_str mem_zlist mem_set"
  by (simp add: demo_env_def mem.valkey_server_axioms)

lemma demo_empty_indexed: "store_indexed mem_str mem_zlist mem_set mem_empty"
  by (simp add: store_indexed_def store_abs_def mem_empty_def mem_str_def mem_zlist_def mem_zmap_def
      mem_set_def mem_slist_def)

lemma demo_reach: "store_reach demo_env mem_empty demo_db"
  by (rule store_reach.set [OF store_reach.init _ demo_set]) simp

text \<open>C6. The store refines a partial map from resource identities to payloads: whatever the
  server, a write that reports success is exactly one update of that map with the encoded
  object, its apiVersion and kind filled in, and a delete that reports success removes exactly
  one identity; no other resource changes, whatever its name.\<close>

theorem store_refines_map:
  assumes "valkey_server (vk_do E) strs zlist sset" and "id_ok (a, k, n, m)"
  shows "(SetResourceWithIndex E db a k n m obj ttl = (db', Inr ()) \<longrightarrow>
            store_abs strs db' = (store_abs strs db)((a, k, n, m) := js_marshal E (ensureTypeMeta obj a k))) \<and>
         (DeleteResourceWithIndex E db a k n m obj' = (db'', Inr ()) \<longrightarrow>
            store_abs strs db'' = (store_abs strs db)((a, k, n, m) := None))"
  using valkey_server.set_abs [OF assms(1) refl assms(2)]
    valkey_server.delete_abs [OF assms(1) refl assms(2)] by blast

theorem store_refines_map_witness:
  "store_abs mem_str demo_db (''v1'', ''Pod'', ''ns'', ''web'') = Some ''web''"
  using store_refines_map [OF demo_server, of "''v1''" "''Pod''" "''ns''" "''web''" mem_empty
      "demo_obj ''web''" 0 demo_db] demo_set
  by (simp add: demo_env_def demo_obj_def ensureTypeMeta_def GetAPIVersion_def GetKind_def
      GetName_def nested_string_def set_field_def Let_def)

text \<open>C7. The indexes never lose a resource: in every state reached by successful writes and
  deletes, every stored resource is a member of both sorted sets of its shard and its namespace
  is registered for its kind, and the by-name sets score every member 0.\<close>

theorem store_reach_indexed:
  assumes "valkey_server (vk_do E) strs zlist sset" and "store_indexed strs zlist sset db0"
    and "store_reach E db0 db"
  shows "store_indexed strs zlist sset db"
  by (rule valkey_server.reach_indexed [OF assms(1) assms(3) refl assms(2)])

theorem store_reach_indexed_witness:
  "store_indexed mem_str mem_zlist mem_set demo_db"
  by (rule store_reach_indexed [OF demo_server demo_empty_indexed demo_reach])

text \<open>Listing is complete and exact: when the indexes hold every stored resource, the
  server answers and the payloads decode, a cluster-wide list of a kind returns every stored
  resource of that kind, each exactly once, and nothing else, however many chunks the read
  takes; index members whose primary key has expired are skipped.\<close>

lemma list_resources_complete:
  assumes "valkey_server srv strs zlist sset" and "store_indexed strs zlist sset db"
    and "reads_ok srv db" and "colon_free a" and "colon_free k"
    and "\<And>x v. store_abs strs db x = Some v \<Longrightarrow> dec v \<noteq> None"
  shows "\<exists>xs. distinct xs \<and> set xs = {(a, k, n, m) | n m. store_abs strs db (a, k, n, m) \<noteq> None} \<and>
           listResourcesByIndex srv dec db a k ''*'' ''*''
             = (db, map (\<lambda>x. the (dec (the (store_abs strs db x)))) xs, None)"
  by (rule valkey_server.list_complete [OF assms(1-5)]) (rule assms(6))

text \<open>A stored key carries its type: for every resource identity, splitting the key gives
  the apiVersion and the kind back even when the name contains colons, so an object stored
  without type information leaves the namespace read with the apiVersion and kind it was
  written under, and populated fields are never overwritten.\<close>

lemma stamp_from_key:
  assumes "id_ok (a, k, n, m)" and "a \<noteq> []" and "k \<noteq> []"
  shows "GetAPIVersion (stampTypeMetaFromKey (JObj fs) (CreateResourceKey [a, k, n, m]))
           = (if GetAPIVersion (JObj fs) = [] then a else GetAPIVersion (JObj fs)) \<and>
         GetKind (stampTypeMetaFromKey (JObj fs) (CreateResourceKey [a, k, n, m]))
           = (if GetKind (JObj fs) = [] then k else GetKind (JObj fs))"
  using assms ensureTypeMeta_fields [OF assms(2,3), of fs]
  by (auto simp: stampTypeMetaFromKey_def split_key Let_def)

end
