(* ===== verification/StorePage.thy ===== *)
theory StorePage
  imports StoreIndex
begin

text \<open>
  The paginated, searchable read of \<open>store/store.go\<close>: \<open>resolveIndexShards\<close>,
  \<open>readShardTopMembers\<close>, \<open>sortRankedMembers\<close>, \<open>pruneStaleIndexMembers\<close> and
  \<open>GetResourcesByWhitelistPaginated\<close>.

  A page is assembled from the first \<open>offset + limit\<close> members of every shard, merged and
  sliced. The main theorem says that this is the slice of the globally sorted list of all
  matching members. Go's \<open>int\<close> is 64 bits wide: \<open>offset + limit\<close> wraps, and a slice
  with a negative upper bound panics, which is a value of the result type here.
\<close>

section \<open>Definitions\<close>

definition sortByName :: string where "sortByName = ''name''"
definition sortOrderAsc :: string where "sortOrderAsc = ''asc''"
definition sortOrderDesc :: string where "sortOrderDesc = ''desc''"

record rankedMember =
  rm_shard :: indexShard
  rm_member :: string
  rm_score :: int

datatype page_result = Page "json list" int | PageError | PagePanic

definition blacklist_key :: "ResourceDescriptor \<Rightarrow> string" where
  "blacklist_key d = rd_ApiVersion d @ ''/'' @ rd_Kind d"

definition add_shards :: "indexShard list \<Rightarrow> indexShard list \<Rightarrow> indexShard list" where
  "add_shards shards new = foldl (\<lambda>ss s. if s \<in> set ss then ss else ss @ [s]) shards new"

abbreviation shard_of :: "ResourceDescriptor \<Rightarrow> string \<Rightarrow> indexShard" where
  "shard_of d ns \<equiv> \<lparr>sh_apiVersion = rd_ApiVersion d, sh_kind = rd_Kind d, sh_namespace = ns\<rparr>"

fun resolve_loop ::
  "'db server \<Rightarrow> string list \<Rightarrow> string list \<Rightarrow> 'db \<Rightarrow> indexShard list \<Rightarrow> ResourceDescriptor option list
     \<Rightarrow> 'db \<times> indexShard list option" where
  "resolve_loop srv blacklisted nsw db shards [] = (db, Some shards)"
| "resolve_loop srv blacklisted nsw db shards (None # ws) = resolve_loop srv blacklisted nsw db shards ws"
| "resolve_loop srv blacklisted nsw db shards (Some w # ws) =
     (if blacklist_key w \<in> set blacklisted then resolve_loop srv blacklisted nsw db shards ws
      else if nsw \<noteq> [] then
        resolve_loop srv blacklisted nsw db (add_shards shards (map (shard_of w) nsw)) ws
      else
        let (db1, r) = srv db (SMEMBERS (resourceNamespaceRegistryKey (rd_ApiVersion w) (rd_Kind w)))
        in case as_str_slice r of
             None \<Rightarrow> (db1, None)
           | Some namespaces \<Rightarrow>
               resolve_loop srv blacklisted nsw db1 (add_shards shards (map (shard_of w) namespaces)) ws)"

definition resolveIndexShards ::
  "'db server \<Rightarrow> 'db \<Rightarrow> ResourceDescriptor option list \<Rightarrow> ResourceDescriptor option list \<Rightarrow> string list
     \<Rightarrow> 'db \<times> indexShard list option" where
  "resolveIndexShards srv db whitelist blacklist namespaceWhitelist =
     resolve_loop srv (map (\<lambda>b. blacklist_key (the b)) (filter (\<lambda>b. b \<noteq> None) blacklist))
       namespaceWhitelist db [] whitelist"

definition readShardTopMembers ::
  "'db server \<Rightarrow> 'db \<Rightarrow> string \<Rightarrow> string \<Rightarrow> int \<Rightarrow> bool \<Rightarrow> bool \<Rightarrow> 'db \<times> (zscore list \<times> int) option" where
  "readShardTopMembers srv db indexKey sortOrder count0 pullAll useNameSort =
     (let (db1, r) = srv db (ZCARD indexKey)
      in case as_int64 r of
           None \<Rightarrow> (db1, None)
         | Some tot \<Rightarrow>
             if tot = 0 then (db1, Some ([], 0))
             else
               let count = (if pullAll \<or> count0 > tot then tot else count0)
               in if count \<le> 0 then (db1, Some ([], tot))
                  else if useNameSort then
                    (let (db2, r2) = srv db1 (if sortOrder = sortOrderDesc then ZREVRANGEBYLEX indexKey (nat count)
                                              else ZRANGEBYLEX indexKey (nat count))
                     in (db2, map_option (\<lambda>names. (map (\<lambda>n. (n, 0)) names, tot)) (as_str_slice r2)))
                  else
                    (let (db2, r2) = srv db1 (if sortOrder \<noteq> sortOrderAsc then ZREVRANGE_WITHSCORES indexKey (count - 1)
                                              else ZRANGE_WITHSCORES indexKey (count - 1))
                     in (db2, map_option (\<lambda>scores. (scores, tot)) (as_zscores r2))))"

text \<open>The comparison of \<open>sortRankedMembers\<close>.\<close>

definition ranked_less :: "bool \<Rightarrow> string \<Rightarrow> rankedMember \<Rightarrow> rankedMember \<Rightarrow> bool" where
  "ranked_less useNameSort sortOrder x y =
     (if useNameSort then
        (if rm_member x = rm_member y then False
         else if sortOrder = sortOrderDesc then rm_member x > rm_member y
         else rm_member x < rm_member y)
      else
        (let desc = (sortOrder \<noteq> sortOrderAsc)
         in if rm_score x = rm_score y then
              (if desc then rm_member x > rm_member y else rm_member x < rm_member y)
            else if desc then rm_score x > rm_score y
            else rm_score x < rm_score y))"

definition sortRankedMembers :: "rankedMember list \<Rightarrow> bool \<Rightarrow> string \<Rightarrow> rankedMember list" where
  "sortRankedMembers items useNameSort sortOrder = stable_sort (ranked_less useNameSort sortOrder) items"

definition rank_shard :: "indexShard \<Rightarrow> zscore list \<Rightarrow> rankedMember list" where
  "rank_shard shard members = map (\<lambda>(m, sc). \<lparr>rm_shard = shard, rm_member = m, rm_score = sc\<rparr>) members"

definition shard_index_key :: "indexShard \<Rightarrow> string \<Rightarrow> string" where
  "shard_index_key shard sortType =
     resourceIndexKey (sh_apiVersion shard) (sh_kind shard) (sh_namespace shard) sortType"

text \<open>The loop over the shards: members found and their total. A shard that cannot be read
  is skipped.\<close>

fun read_shards ::
  "'db server \<Rightarrow> SearchFilterGroup list \<Rightarrow> string \<Rightarrow> string \<Rightarrow> int \<Rightarrow> bool \<Rightarrow> bool \<Rightarrow> 'db \<Rightarrow> indexShard list
     \<Rightarrow> 'db \<times> rankedMember list \<times> int" where
  "read_shards srv groups sortType sortOrder perShardCount pullAll useNameSort db [] = (db, [], 0)"
| "read_shards srv groups sortType sortOrder perShardCount pullAll useNameSort db (shard # shards) =
     (case (if groups \<noteq> [] then shardSearchPlan shard groups else Some []) of
        None \<Rightarrow> read_shards srv groups sortType sortOrder perShardCount pullAll useNameSort db shards
      | Some memberGroups \<Rightarrow>
          (case readShardTopMembers srv db (shard_index_key shard sortType) sortOrder perShardCount
                  (pullAll \<or> groups \<noteq> []) useNameSort of
             (db1, None) \<Rightarrow> read_shards srv groups sortType sortOrder perShardCount pullAll useNameSort db1 shards
           | (db1, Some (members, shardTotal)) \<Rightarrow>
               (let members' = (if groups \<noteq> [] then filterMembersByGroups members memberGroups shard else members);
                    shardTotal' = (if groups \<noteq> [] then int (length members') else shardTotal);
                    (db2, rest, tot) =
                      read_shards srv groups sortType sortOrder perShardCount pullAll useNameSort db1 shards
                in (db2, rank_shard shard members' @ rest, shardTotal' + tot))))"

definition member_key :: "rankedMember \<Rightarrow> string" where
  "member_key rm = CreateResourceKey [sh_apiVersion (rm_shard rm), sh_kind (rm_shard rm),
                                      sh_namespace (rm_shard rm), rm_member rm]"

text \<open>The decoding loop over the replies: the objects, and the members whose key is gone.\<close>

fun page_items :: "(string \<Rightarrow> json option) \<Rightarrow> (rankedMember \<times> vreply) list \<Rightarrow> json list \<times> rankedMember list" where
  "page_items dec [] = ([], [])"
| "page_items dec ((rm, r) # rest) =
     (let (items, stale) = page_items dec rest
      in case r of
           RNil \<Rightarrow> (items, rm # stale)
         | RStr raw \<Rightarrow> (case dec raw of None \<Rightarrow> (items, stale) | Some obj \<Rightarrow> (obj # items, stale))
         | _ \<Rightarrow> (items, stale))"

definition prune_cmds :: "rankedMember list \<Rightarrow> vcmd list" where
  "prune_cmds stale =
     concat (map (\<lambda>rm. [ZREM (shard_index_key (rm_shard rm) resourceIndexSortByCreation) [rm_member rm],
                        ZREM (shard_index_key (rm_shard rm) resourceIndexSortByName) [rm_member rm]]) stale)"

definition pruneStaleIndexMembers :: "'db server \<Rightarrow> 'db \<Rightarrow> rankedMember list \<Rightarrow> 'db" where
  "pruneStaleIndexMembers srv db stale = fst (DoMulti srv db (prune_cmds stale))"

definition GetResourcesByWhitelistPaginated ::
  "'db server \<Rightarrow> (string \<Rightarrow> json option) \<Rightarrow> 'db \<Rightarrow> ResourceDescriptor option list \<Rightarrow>
   ResourceDescriptor option list \<Rightarrow> string list \<Rightarrow> int \<Rightarrow> int \<Rightarrow> string \<Rightarrow> string \<Rightarrow>
   SearchFilterGroup list \<Rightarrow> 'db \<times> page_result" where
  "GetResourcesByWhitelistPaginated srv dec db whitelist blacklist namespaceWhitelist offset0 limit
       sortBy sortOrder searchGroups =
     (let offset = (if offset0 < 0 then 0 else offset0)
      in if whitelist = [] then (db, Page [] 0)
         else
           let useNameSort = (sortBy = sortByName);
               sortType = (if useNameSort then resourceIndexSortByName else resourceIndexSortByCreation)
           in case resolveIndexShards srv db whitelist blacklist namespaceWhitelist of
                (db1, None) \<Rightarrow> (db1, PageError)
              | (db1, Some shards) \<Rightarrow>
                  if shards = [] then (db1, Page [] 0)
                  else
                    let perShardCount = wrap64 (offset + limit);
                        pullAll = (limit \<le> 0);
                        (db2, all, tot) =
                          read_shards srv searchGroups sortType sortOrder perShardCount pullAll useNameSort db1 shards
                    in if all = [] then (db2, Page [] tot)
                       else
                         let ranked = sortRankedMembers all useNameSort sortOrder
                         in if offset \<ge> int (length ranked) then (db2, Page [] tot)
                            else
                              let end0 = wrap64 (offset + limit);
                                  end1 = (if pullAll \<or> end0 > int (length ranked) then int (length ranked) else end0)
                              in if end1 < offset then (db2, PagePanic)
                                 else
                                   let page = take (nat (end1 - offset)) (drop (nat offset) ranked);
                                       (db3, values) = DoMulti srv db2 (map (\<lambda>rm. GET (member_key rm)) page);
                                       (items, stale) = page_items dec (zip page values)
                                   in if stale \<noteq> [] then
                                        (pruneStaleIndexMembers srv db3 stale,
                                         Page items (if tot - int (length stale) < 0 then 0
                                                     else tot - int (length stale)))
                                      else (db3, Page items tot))"

text \<open>\<open>GetResourceByKindAndNamespace\<close> for a named kind; \<open>None\<close> is the panic of the page read,
  which its arguments never reach. A read across kinds scans the keyspace and is not
  modelled.\<close>

definition GetResourceByKindAndNamespace_index ::
  "'db server \<Rightarrow> (string \<Rightarrow> json option) \<Rightarrow> 'db \<Rightarrow> string \<Rightarrow> string \<Rightarrow> string \<Rightarrow> 'db \<times> json list option" where
  "GetResourceByKindAndNamespace_index srv dec db apiVersion kind namespace =
     (case GetResourcesByWhitelistPaginated srv dec db
             [Some \<lparr>rd_Kind = kind, rd_Plural = [], rd_ApiVersion = apiVersion, rd_Namespaced = False\<rparr>]
             [] (if namespace \<noteq> [] then [namespace] else []) 0 0 [] sortOrderAsc [] of
        (db', Page items tot) \<Rightarrow> (db', Some items)
      | (db', PageError) \<Rightarrow> (db', Some [])
      | (db', PagePanic) \<Rightarrow> (db', None))"

section \<open>The specification of a page\<close>

definition descending :: "bool \<Rightarrow> string \<Rightarrow> bool" where
  "descending useNameSort sortOrder =
     (if useNameSort then sortOrder = sortOrderDesc else sortOrder \<noteq> sortOrderAsc)"

definition sort_type :: "bool \<Rightarrow> string" where
  "sort_type useNameSort = (if useNameSort then resourceIndexSortByName else resourceIndexSortByCreation)"

text \<open>A shard's index in the direction of the sort, and all members of all shards that match
  the search.\<close>

definition shard_list ::
  "('db \<Rightarrow> string \<Rightarrow> zscore list) \<Rightarrow> 'db \<Rightarrow> bool \<Rightarrow> string \<Rightarrow> indexShard \<Rightarrow> zscore list" where
  "shard_list zlist db useNameSort sortOrder shard =
     (let l = zlist db (shard_index_key shard (sort_type useNameSort))
      in if descending useNameSort sortOrder then rev l else l)"

definition shard_matching :: "SearchFilterGroup list \<Rightarrow> indexShard \<Rightarrow> zscore list \<Rightarrow> zscore list" where
  "shard_matching groups shard l =
     filter (\<lambda>(m, s). list_all (\<lambda>g. Matches g m (sh_kind shard) (sh_namespace shard)
                                      (sh_apiVersion shard)) groups) l"

definition all_matching ::
  "('db \<Rightarrow> string \<Rightarrow> zscore list) \<Rightarrow> 'db \<Rightarrow> SearchFilterGroup list \<Rightarrow> bool \<Rightarrow> string \<Rightarrow> indexShard list
     \<Rightarrow> rankedMember list" where
  "all_matching zlist db groups useNameSort sortOrder shards =
     concat (map (\<lambda>s. rank_shard s (shard_matching groups s (shard_list zlist db useNameSort sortOrder s))) shards)"

text \<open>The slice of a list a page asks for: a limit that is not positive means no limit.\<close>

definition page_slice :: "int \<Rightarrow> int \<Rightarrow> 'a list \<Rightarrow> 'a list" where
  "page_slice offset limit xs =
     (let rest = drop (nat offset) xs in if limit \<le> 0 then rest else take (nat limit) rest)"

interpretation rank: go_less "ranked_less useNameSort sortOrder" for useNameSort sortOrder
  by unfold_locales (auto simp: ranked_less_def Let_def split: if_splits)

lemma shard_matching_Nil [simp]: "shard_matching [] s l = l"
  by (simp add: shard_matching_def)

lemma length_rank_shard [simp]: "length (rank_shard s l) = length l"
  by (simp add: rank_shard_def)

lemma rank_shard_take: "rank_shard s (take n l) = take n (rank_shard s l)"
  by (simp add: rank_shard_def take_map)

lemma search_plan_filter:
  "(case shardSearchPlan s groups of None \<Rightarrow> [] | Some mg \<Rightarrow> filterMembersByGroups l mg s)
     = shard_matching groups s l"
  unfolding shard_matching_def by (rule shard_plan_filter)

lemma page_slice_take:
  assumes "0 \<le> offset" "0 < limit"
  shows "page_slice offset limit xs = drop (nat offset) (take (nat (offset + limit)) xs)"
  using assms by (simp add: page_slice_def drop_take nat_add_distrib)

context valkey_server
begin

abbreviation "L db useName order s \<equiv> shard_list zlist db useName order s"

abbreviation by_name_zero :: "'db \<Rightarrow> bool" where
  "by_name_zero db \<equiv> \<forall>a k n. \<forall>e \<in> set (zlist db (resourceIndexKey a k n resourceIndexSortByName)). snd e = 0"

lemma shard_list_ordered:
  assumes "by_name_zero db"
  shows "sorted_wrt (\<lambda>x y. \<not> ranked_less useName order y x) (rank_shard s (L db useName order s))"
proof -
  let ?l = "zlist db (shard_index_key s (sort_type useName))"
  have z: "zlt a b \<Longrightarrow> a \<in> set ?l \<Longrightarrow> b \<in> set ?l \<Longrightarrow>
      \<not> ranked_less useName order (if descending useName order then \<lparr>rm_shard = s, rm_member = fst a, rm_score = snd a\<rparr> else \<lparr>rm_shard = s, rm_member = fst b, rm_score = snd b\<rparr>)
         (if descending useName order then \<lparr>rm_shard = s, rm_member = fst b, rm_score = snd b\<rparr> else \<lparr>rm_shard = s, rm_member = fst a, rm_score = snd a\<rparr>)" for a b
    using assms
    by (cases useName) (fastforce simp: ranked_less_def descending_def zlt_def Let_def sort_type_def shard_index_key_def
      split: if_splits)+
  show ?thesis
  proof (cases "descending useName order")
    case True
    have "sorted_wrt (\<lambda>x y. zlt y x) (rev ?l)" using zlist_sorted by (simp add: sorted_wrt_rev)
    then have "sorted_wrt (\<lambda>x y. \<not> ranked_less useName order \<lparr>rm_shard = s, rm_member = fst y, rm_score = snd y\<rparr>
        \<lparr>rm_shard = s, rm_member = fst x, rm_score = snd x\<rparr>) (rev ?l)"
      by (rule sorted_wrt_mono_rel [rotated]) (use z True in auto)
    with True show ?thesis
      by (simp add: rank_shard_def shard_list_def sorted_wrt_map case_prod_unfold Let_def)
  next
    case False
    have "sorted_wrt (\<lambda>x y. \<not> ranked_less useName order \<lparr>rm_shard = s, rm_member = fst y, rm_score = snd y\<rparr>
        \<lparr>rm_shard = s, rm_member = fst x, rm_score = snd x\<rparr>) ?l"
      by (rule sorted_wrt_mono_rel [OF _ zlist_sorted]) (use z False in auto)
    with False show ?thesis
      by (simp add: rank_shard_def shard_list_def sorted_wrt_map case_prod_unfold Let_def)
  qed
qed

lemma read_top:
  assumes ok: "reads_ok srv db" and zero: "by_name_zero db"
  shows "readShardTopMembers srv db (shard_index_key s (sort_type useName)) order count pull useName
    = (db, Some (take (if pull then length (L db useName order s) else nat count) (L db useName order s),
                 int (length (L db useName order s))))"
proof -
  let ?k = "shard_index_key s (sort_type useName)"
  let ?l = "zlist db ?k"
  have r: "is_read c \<Longrightarrow> snd (srv db c) \<noteq> RErr" for c using ok by (simp add: reads_ok_def)
  have card: "srv db (ZCARD ?k) = (db, RInt (int (length ?l)))"
    using do_read [of "ZCARD ?k" db] zcard_reply [of db ?k] r [of "ZCARD ?k"] by simp
  have zr: "0 \<le> c \<Longrightarrow> srv db (ZRANGE_WITHSCORES ?k c) = (db, RScores (take (nat c + 1) ?l))" for c
    using do_read [of "ZRANGE_WITHSCORES ?k c" db] zrange_reply [of c db ?k] r [of "ZRANGE_WITHSCORES ?k c"] by simp
  have zv: "0 \<le> c \<Longrightarrow> srv db (ZREVRANGE_WITHSCORES ?k c) = (db, RScores (take (nat c + 1) (rev ?l)))" for c
    using do_read [of "ZREVRANGE_WITHSCORES ?k c" db] zrevrange_reply [of c db ?k] r [of "ZREVRANGE_WITHSCORES ?k c"] by simp
  have z0: "useName \<Longrightarrow> \<forall>m \<in> set ?l. snd m = 0"
    using zero by (simp add: sort_type_def shard_index_key_def)
  have lx: "useName \<Longrightarrow> srv db (ZRANGEBYLEX ?k c) = (db, RStrs (map fst (take c ?l)))" for c
    using do_read [of "ZRANGEBYLEX ?k c" db] zrangebylex_reply [of db ?k 0 c] z0 r [of "ZRANGEBYLEX ?k c"] by simp
  have lv: "useName \<Longrightarrow> srv db (ZREVRANGEBYLEX ?k c) = (db, RStrs (map fst (take c (rev ?l))))" for c
    using do_read [of "ZREVRANGEBYLEX ?k c" db] zrevrangebylex_reply [of db ?k 0 c] z0 r [of "ZREVRANGEBYLEX ?k c"] by simp
  have names: "\<forall>m \<in> set l. snd m = 0 \<Longrightarrow> map (\<lambda>n. (n, 0)) (map fst l) = l" for l :: "zscore list"
    by (induction l) auto
  define k l c where "k = ?k" and "l = ?l"
    and "c = (if pull \<or> int (length ?l) < count then int (length ?l) else count)"
  note facts = card [folded k_def l_def] zr [folded k_def l_def] zv [folded k_def l_def]
    lx [folded k_def l_def] lv [folded k_def l_def] z0 [folded l_def]
  have L: "L db useName order s = (if descending useName order then rev l else l)"
    by (simp add: shard_list_def l_def)
  have take_c: "take (nat c) l' = take (if pull then length l else nat count) l'"
    if "length l' = length l" for l' :: "zscore list"
    using that by (auto simp: c_def l_def)
  have unf: "readShardTopMembers srv db k order count pull useName =
      (if l = [] then (db, Some ([], 0)) else if c \<le> 0 then (db, Some ([], int (length l)))
       else if useName then
         (let (db2, r2) = srv db (if order = sortOrderDesc then ZREVRANGEBYLEX k (nat c) else ZRANGEBYLEX k (nat c))
          in (db2, map_option (\<lambda>names. (map (\<lambda>n. (n, 0)) names, int (length l))) (as_str_slice r2)))
       else
         (let (db2, r2) = srv db (if order \<noteq> sortOrderAsc then ZREVRANGE_WITHSCORES k (c - 1) else ZRANGE_WITHSCORES k (c - 1))
          in (db2, map_option (\<lambda>scores. (scores, int (length l))) (as_zscores r2))))"
    unfolding readShardTopMembers_def facts(1) Let_def c_def l_def [symmetric]
    by (simp split del: if_split cong: if_cong)
  have nc: "0 < c \<Longrightarrow> Suc (nat (c - 1)) = nat c" by simp
  have n0: "useName \<Longrightarrow> map ((\<lambda>n. (n, 0)) \<circ> fst) (take (nat c) l') = take (nat c) l'" if "set l' = set l" for l'
    using names [of "take (nat c) l'"] facts(6) that by (metis in_set_takeD map_map)
  have "readShardTopMembers srv db k order count pull useName
      = (db, Some (take (nat c) (L db useName order s), int (length l)))"
    unfolding unf L using facts(2-5) nc n0 [of l] n0 [of "rev l"]
    by (auto simp: descending_def)
  then show ?thesis using take_c [of "L db useName order s"] by (simp add: L k_def)
qed

lemma read_shards_all:
  assumes ok: "reads_ok srv db" and zero: "by_name_zero db" and "pull \<or> groups \<noteq> []"
  shows "read_shards srv groups (sort_type useName) order count pull useName db shards
    = (db, all_matching zlist db groups useName order shards,
       int (length (all_matching zlist db groups useName order shards)))"
proof (induction shards)
  case Nil
  then show ?case by (simp add: all_matching_def)
next
  case (Cons s shards)
  show ?case
  proof (cases "groups = []")
    case True
    with assms Cons show ?thesis
      by (simp add: read_top [OF ok zero] all_matching_def)
  next
    case False
    show ?thesis
    proof (cases "shardSearchPlan s groups")
      case None
      then have "shard_matching groups s (L db useName order s) = []"
        using search_plan_filter [where s = s and groups = groups and l = "L db useName order s"] by simp
      with None False Cons show ?thesis by (simp add: all_matching_def rank_shard_def)
    next
      case (Some mg)
      then have "filterMembersByGroups (L db useName order s) mg s
          = shard_matching groups s (L db useName order s)"
        using search_plan_filter [where s = s and groups = groups and l = "L db useName order s"] by simp
      with Some False Cons show ?thesis by (simp add: read_top [OF ok zero] all_matching_def Let_def)
    qed
  qed
qed

lemma read_shards_top:
  assumes ok: "reads_ok srv db" and zero: "by_name_zero db" and "\<not> pull"
  shows "read_shards srv [] (sort_type useName) order count pull useName db shards
    = (db, concat (map (take (nat count)) (map (\<lambda>s. rank_shard s (L db useName order s)) shards)),
       int (length (all_matching zlist db [] useName order shards)))"
  using assms(3)
  by (induction shards) (auto simp: read_top [OF ok zero] all_matching_def rank_shard_take)

text \<open>What the merge of the shard prefixes contributes to the page is what the merge of the
  whole shards would.\<close>

lemma merged_slice:
  assumes ok: "reads_ok srv db" and zero: "by_name_zero db" and off: "0 \<le> offset"
    and run: "read_shards srv groups (sort_type useName) order (offset + limit) (limit \<le> 0) useName db shards
        = (db', all, tot)"
  shows "db' = db" and "tot = int (length (all_matching zlist db groups useName order shards))"
    and "page_slice offset limit (sortRankedMembers all useName order)
      = page_slice offset limit (sortRankedMembers (all_matching zlist db groups useName order shards) useName order)"
proof -
  let ?full = "all_matching zlist db groups useName order shards"
  show "db' = db" "tot = int (length ?full)"
    using run read_shards_all [OF ok zero, where pull = "limit \<le> 0" and groups = groups and useName = useName
        and order = order and count = "offset + limit" and shards = shards]
      read_shards_top [OF ok zero, where pull = "limit \<le> 0" and useName = useName
        and order = order and count = "offset + limit" and shards = shards]
    by (cases "limit \<le> 0 \<or> groups \<noteq> []"; auto)+
  show "page_slice offset limit (sortRankedMembers all useName order)
      = page_slice offset limit (sortRankedMembers ?full useName order)"
  proof (cases "limit \<le> 0 \<or> groups \<noteq> []")
    case True
    with run read_shards_all [OF ok zero True, where useName = useName and order = order and count = "offset + limit" and shards = shards] show ?thesis by auto
  next
    case False
    let ?parts = "map (\<lambda>s. rank_shard s (L db useName order s)) shards"
    have all: "all = concat (map (take (nat (offset + limit))) ?parts)"
      using False run read_shards_top [OF ok zero, where pull = "limit \<le> 0" and useName = useName
          and order = order and count = "offset + limit" and shards = shards] by auto
    have full: "?full = concat ?parts" using False by (simp add: all_matching_def)
    have "take (nat (offset + limit)) (stable_sort (ranked_less useName order) all)
        = take (nat (offset + limit)) (stable_sort (ranked_less useName order) ?full)"
      unfolding all full
      by (rule rank.take_stable_sort_concat) (auto intro: shard_list_ordered [OF zero])
    with False off show ?thesis by (simp add: page_slice_take sortRankedMembers_def)
  qed
qed

end

text \<open>The part of \<open>GetResourcesByWhitelistPaginated\<close> after the shards are known, with the slice
  written as \<^const>\<open>page_slice\<close>.\<close>

lemma slice_bounds:
  fixes limit :: int
  assumes "0 \<le> offset" "offset < int (length xs)"
  defines "e \<equiv> (if limit \<le> 0 \<or> int (length xs) < offset + limit then int (length xs) else offset + limit)"
  shows "\<not> e < offset" "take (nat (e - offset)) (drop (nat offset) xs) = page_slice offset limit xs"
  using assms by (auto simp: page_slice_def)

lemma page_items_lookup:
  "page_items dec (zip ms (map (\<lambda>m. case f m of None \<Rightarrow> RNil | Some v \<Rightarrow> RStr v) ms))
     = (List.map_filter (\<lambda>m. Option.bind (f m) dec) ms, filter (\<lambda>m. f m = None) ms)"
  by (induction ms) (auto simp: map_filter_simps split: option.splits)

lemma prune_none [simp]: "pruneStaleIndexMembers srv db [] = db"
  by (simp add: pruneStaleIndexMembers_def prune_cmds_def)

lemma length_page_slice: "length (page_slice offset limit xs) \<le> length xs"
  by (simp add: page_slice_def Let_def min.coboundedI1)

lemma page_slice_Nil [simp]: "page_slice offset limit [] = []"
  by (simp add: page_slice_def)

lemma page_slice_beyond: "int (length xs) \<le> offset \<Longrightarrow> page_slice offset limit xs = []"
  by (simp add: page_slice_def)

text \<open>The members a page shows and those whose key is gone.\<close>

definition page_members ::
  "('db \<Rightarrow> string \<Rightarrow> zscore list) \<Rightarrow> 'db \<Rightarrow> SearchFilterGroup list \<Rightarrow> string \<Rightarrow> string \<Rightarrow> indexShard list
     \<Rightarrow> int \<Rightarrow> int \<Rightarrow> rankedMember list" where
  "page_members zlist db groups sortBy sortOrder shards offset limit =
     (let useNameSort = (sortBy = sortByName)
      in page_slice (max 0 offset) limit
           (sortRankedMembers (all_matching zlist db groups useNameSort sortOrder shards) useNameSort sortOrder))"

definition stale_members :: "('db \<Rightarrow> string \<Rightarrow> string option) \<Rightarrow> 'db \<Rightarrow> rankedMember list \<Rightarrow> rankedMember list" where
  "stale_members strs db ms = filter (\<lambda>rm. strs db (member_key rm) = None) ms"

definition live_items ::
  "(string \<Rightarrow> json option) \<Rightarrow> ('db \<Rightarrow> string \<Rightarrow> string option) \<Rightarrow> 'db \<Rightarrow> rankedMember list \<Rightarrow> json list" where
  "live_items dec strs db ms = List.map_filter (\<lambda>rm. Option.bind (strs db (member_key rm)) dec) ms"

lemma page_members_length:
  "length (stale_members strs db (page_members zlist db groups sortBy sortOrder shards offset limit))
     \<le> length (all_matching zlist db groups (sortBy = sortByName) sortOrder shards)"
proof -
  have "length (stale_members strs db (page_members zlist db groups sortBy sortOrder shards offset limit))
      \<le> length (page_members zlist db groups sortBy sortOrder shards offset limit)"
    by (simp add: stale_members_def)
  also have "\<dots> \<le> length (all_matching zlist db groups (sortBy = sortByName) sortOrder shards)"
    using length_page_slice [of "max 0 offset" limit "sortRankedMembers (all_matching zlist db groups
        (sortBy = sortByName) sortOrder shards) (sortBy = sortByName) sortOrder"]
    by (simp add: page_members_def sortRankedMembers_def Let_def)
  finally show ?thesis .
qed

context valkey_server
begin

lemma page_of_shards:
  assumes ok: "reads_ok srv db" and zero: "by_name_zero db"
    and res: "resolveIndexShards srv db wl bl nsw = (db, Some shards)"
    and bnd: "max 0 offset0 + limit < 2 ^ 63" "- (2 ^ 63) \<le> limit"
  shows "GetResourcesByWhitelistPaginated srv dec db wl bl nsw offset0 limit sortBy sortOrder groups
    = (let ms = page_members zlist db groups sortBy sortOrder shards offset0 limit;
           stale = stale_members strs db ms
       in (pruneStaleIndexMembers srv db stale,
           Page (live_items dec strs db ms)
             (int (length (all_matching zlist db groups (sortBy = sortByName) sortOrder shards)) - int (length stale))))"
proof -
  define offset where "offset = max 0 offset0"
  define useName where "useName = (sortBy = sortByName)"
  define full where "full = all_matching zlist db groups useName sortOrder shards"
  have off: "0 \<le> offset" "(if offset0 < 0 then 0 else offset0) = offset" by (auto simp: offset_def)
  have wr: "wrap64 (offset + limit) = offset + limit"
    using bnd off(1) by (intro wrap64_id) (auto simp: offset_def)
  obtain db' all tot where run: "read_shards srv groups (sort_type useName) sortOrder (offset + limit)
      (limit \<le> 0) useName db shards = (db', all, tot)" by (metis prod_cases3)
  note ms = merged_slice [OF ok zero off(1) run, folded full_def]
  define ranked where "ranked = sortRankedMembers all useName sortOrder"
  define page where "page = page_slice offset limit ranked"
  have pm: "page_members zlist db groups sortBy sortOrder shards offset0 limit = page"
    using ms(3) by (simp add: page_members_def Let_def page_def ranked_def offset_def useName_def full_def)
  have len: "length ranked = length all" by (simp add: ranked_def sortRankedMembers_def)
  have gets: "DoMulti srv db (map (\<lambda>rm. GET (member_key rm)) page)
      = (db, map (\<lambda>rm. case strs db (member_key rm) of None \<Rightarrow> RNil | Some v \<Rightarrow> RStr v) page)"
    using DoMulti_gets [OF ok, of "map member_key page"] by (simp add: comp_def)
  have items: "page_items dec (zip page (map (\<lambda>rm. case strs db (member_key rm) of None \<Rightarrow> RNil | Some v \<Rightarrow> RStr v) page))
      = (live_items dec strs db page, stale_members strs db page)"
    by (simp add: page_items_lookup live_items_def stale_members_def)
  have nonneg: "\<not> int (length full) < int (length (stale_members strs db page))"
    using page_members_length [of strs db zlist groups sortBy sortOrder shards offset0 limit]
    by (simp add: pm full_def useName_def)
  have empty: "page = [] \<Longrightarrow> ?thesis" if
    "GetResourcesByWhitelistPaginated srv dec db wl bl nsw offset0 limit sortBy sortOrder groups = (db, Page [] tot)"
    using that ms by (simp add: pm live_items_def stale_members_def map_filter_simps full_def useName_def)
  have unf: "GetResourcesByWhitelistPaginated srv dec db wl bl nsw offset0 limit sortBy sortOrder groups =
      (if shards = [] then (db, Page [] 0)
       else if all = [] then (db, Page [] tot)
       else if int (length ranked) \<le> offset then (db, Page [] tot)
       else let end1 = (if limit \<le> 0 \<or> int (length ranked) < offset + limit then int (length ranked) else offset + limit)
            in if end1 < offset then (db, PagePanic)
               else let page = take (nat (end1 - offset)) (drop (nat offset) ranked);
                        (db3, values) = DoMulti srv db (map (\<lambda>rm. GET (member_key rm)) page);
                        (items, stale) = page_items dec (zip page values)
                    in if stale \<noteq> [] then (pruneStaleIndexMembers srv db3 stale,
                          Page items (if tot - int (length stale) < 0 then 0 else tot - int (length stale)))
                       else (db3, Page items tot))"
  proof (cases "wl = []")
    case True
    with res show ?thesis by (simp add: GetResourcesByWhitelistPaginated_def resolveIndexShards_def)
  next
    case False
    then show ?thesis
      unfolding GetResourcesByWhitelistPaginated_def Let_def off(2) wr res useName_def [symmetric]
        sort_type_def [symmetric]
      by (simp add: run ms(1) ranked_def [symmetric] cong: if_cong split del: if_split)
  qed
  show ?thesis
  proof (cases "shards = [] \<or> all = [] \<or> int (length ranked) \<le> offset")
    case True
    then have "page = []" "shards = [] \<Longrightarrow> tot = 0"
      using run len by (auto simp: page_def page_slice_beyond)
    moreover have "GetResourcesByWhitelistPaginated srv dec db wl bl nsw offset0 limit sortBy sortOrder groups
        = (db, Page [] tot)" using True calculation(2) unf by auto
    ultimately show ?thesis using empty by blast
  next
    case False
    then have lt: "offset < int (length ranked)" by simp
    have "GetResourcesByWhitelistPaginated srv dec db wl bl nsw offset0 limit sortBy sortOrder groups
        = (let (items, stale) = (live_items dec strs db page, stale_members strs db page)
           in if stale \<noteq> [] then (pruneStaleIndexMembers srv db stale,
                 Page items (if tot - int (length stale) < 0 then 0 else tot - int (length stale)))
              else (db, Page items tot))"
      using False slice_bounds [OF off(1) lt, of limit] gets items unfolding unf page_def Let_def
      by (simp split del: if_split)
    then show ?thesis using nonneg ms(2) by (auto simp: pm Let_def full_def useName_def)
  qed
qed

lemma prune_effect:
  assumes "RErr \<notin> set (snd (DoMulti srv db (prune_cmds stale)))"
  shows "strs (pruneStaleIndexMembers srv db stale) = strs db \<and>
    sset (pruneStaleIndexMembers srv db stale) = sset db \<and>
    zlist (pruneStaleIndexMembers srv db stale) key =
      filter (\<lambda>e. \<not> (\<exists>rm \<in> set stale. fst e = rm_member rm \<and>
          key \<in> {shard_index_key (rm_shard rm) resourceIndexSortByCreation,
                  shard_index_key (rm_shard rm) resourceIndexSortByName})) (zlist db key)"
  using assms
proof (induction stale arbitrary: db)
  case Nil
  then show ?case by simp
next
  case (Cons rm stale)
  let ?c = "shard_index_key (rm_shard rm) resourceIndexSortByCreation"
  let ?n = "shard_index_key (rm_shard rm) resourceIndexSortByName"
  obtain d1 r1 where s1: "srv db (ZREM ?c [rm_member rm]) = (d1, r1)" by fastforce
  obtain d2 r2 where s2: "srv d1 (ZREM ?n [rm_member rm]) = (d2, r2)" by fastforce
  have cmds: "prune_cmds (rm # stale) = ZREM ?c [rm_member rm] # ZREM ?n [rm_member rm] # prune_cmds stale"
    by (simp add: prune_cmds_def)
  have r: "r1 \<noteq> RErr" "r2 \<noteq> RErr" "RErr \<notin> set (snd (DoMulti srv d2 (prune_cmds stale)))"
    and d: "pruneStaleIndexMembers srv db (rm # stale) = pruneStaleIndexMembers srv d2 stale"
    using Cons.prems by (auto simp: cmds DoMulti_Cons s1 s2 pruneStaleIndexMembers_def)
  have "strs d2 = strs db" "sset d2 = sset db"
    "zlist d2 key = filter (\<lambda>e. \<not> (fst e = rm_member rm \<and> key \<in> {?c, ?n})) (zlist db key)"
    using zrem_upd [OF s1 r(1)] zrem_upd [OF s2 r(2)] by (auto intro: filter_cong)
  with Cons.IH [OF r(3)] show ?case by (auto simp: d conj_commute intro: filter_cong)
qed

lemma prune_indexed:
  assumes "RErr \<notin> set (snd (DoMulti srv db (prune_cmds stale)))" and inv: "store_indexed strs zlist sset db"
    and gone: "\<forall>rm \<in> set stale. strs db (member_key rm) = None \<and> colon_free (sh_apiVersion (rm_shard rm)) \<and>
          colon_free (sh_kind (rm_shard rm)) \<and> colon_free (sh_namespace (rm_shard rm))"
  shows "store_indexed strs zlist sset (pruneStaleIndexMembers srv db stale)"
proof -
  let ?d = "pruneStaleIndexMembers srv db stale"
  note eff = prune_effect [OF assms(1)]
  have abs: "store_abs strs ?d = store_abs strs db" using eff by (simp add: store_abs_def fun_eq_iff)
  have keep: "m \<in> fst ` set (zlist ?d (resourceIndexKey a k n s))"
    if st: "store_abs strs db (a, k, n, m) \<noteq> None" and m: "m \<in> fst ` set (zlist db (resourceIndexKey a k n s))" for a k n m s
  proof -
    note cf = store_abs_ok [OF st]
    have "\<not> (\<exists>rm \<in> set stale. m = rm_member rm \<and>
          resourceIndexKey a k n s \<in> {shard_index_key (rm_shard rm) resourceIndexSortByCreation,
                  shard_index_key (rm_shard rm) resourceIndexSortByName})"
    proof
      assume "\<exists>rm \<in> set stale. m = rm_member rm \<and>
          resourceIndexKey a k n s \<in> {shard_index_key (rm_shard rm) resourceIndexSortByCreation,
                  shard_index_key (rm_shard rm) resourceIndexSortByName}"
      then obtain rm where rm: "rm \<in> set stale" "m = rm_member rm"
        "resourceIndexKey a k n s \<in> {shard_index_key (rm_shard rm) resourceIndexSortByCreation,
                  shard_index_key (rm_shard rm) resourceIndexSortByName}" by blast
      then have "a = sh_apiVersion (rm_shard rm) \<and> k = sh_kind (rm_shard rm) \<and> n = sh_namespace (rm_shard rm)"
        using gone cf by (auto simp: shard_index_key_def resourceIndexKey_inject)
      with rm gone have "strs db (CreateResourceKey [a, k, n, m]) = None" by (auto simp: member_key_def)
      with st show False by (auto simp: store_abs_def split: if_splits)
    qed
    with m eff [of "resourceIndexKey a k n s"] show ?thesis by auto
  qed
  have "set (zlist ?d key) \<subseteq> set (zlist db key)" for key using eff [of key] by auto
  then have zero: "\<forall>a k n. \<forall>e \<in> set (zlist ?d (resourceIndexKey a k n resourceIndexSortByName)). snd e = 0"
    using inv unfolding store_indexed_def by blast
  have reg: "sset ?d = sset db" using eff by blast
  show ?thesis
    unfolding store_indexed_def abs reg
  proof (intro conjI allI impI)
    show "m \<in> fst ` set (zlist ?d (resourceIndexKey a k n resourceIndexSortByCreation))"
      "m \<in> fst ` set (zlist ?d (resourceIndexKey a k n resourceIndexSortByName))"
      "n \<in> sset db (resourceNamespaceRegistryKey a k)"
      if "store_abs strs db (a, k, n, m) \<noteq> None" for a k n m
      using store_indexedD [OF inv that] keep [OF that] by auto
    show "\<forall>e \<in> set (zlist ?d (resourceIndexKey a k n resourceIndexSortByName)). snd e = 0" for a k n
      using zero by blast
    show "\<forall>n \<in> sset db (resourceNamespaceRegistryKey a k). colon_free n" if "colon_free a" for a k
      using inv that unfolding store_indexed_def by blast
  qed
qed

end

section \<open>Distinct members, consecutive pages\<close>

lemma add_shards_distinct: "distinct ss \<Longrightarrow> distinct (add_shards ss new)"
  by (induction new arbitrary: ss) (auto simp: add_shards_def)

lemma resolve_loop_distinct:
  "distinct ss \<Longrightarrow> resolve_loop srv bl nsw db ss ws = (db', Some shards) \<Longrightarrow> distinct shards"
proof (induction srv bl nsw db ss ws arbitrary: db' rule: resolve_loop.induct)
  case (3 srv bl nsw db ss w ws)
  show ?case
  proof (cases "blacklist_key w \<in> set bl \<or> nsw \<noteq> []")
    case True
    with 3 show ?thesis by (auto simp: add_shards_distinct split: if_splits)
  next
    case False
    obtain d r where r: "srv db (SMEMBERS (resourceNamespaceRegistryKey (rd_ApiVersion w) (rd_Kind w))) = (d, r)"
      by fastforce
    with False 3(5) obtain l where l: "as_str_slice r = Some l" by (auto split: option.splits)
    with False r 3(5) have "resolve_loop srv bl nsw d (add_shards ss (map (shard_of w) l)) ws = (db', Some shards)"
      by simp
    then show ?thesis using 3(3) [OF _ _ r [symmetric] refl l] False add_shards_distinct [OF 3(4)] by simp
  qed
qed simp_all

lemma resolve_distinct: "resolveIndexShards srv db wl bl nsw = (db', Some shards) \<Longrightarrow> distinct shards"
  unfolding resolveIndexShards_def by (rule resolve_loop_distinct [of "[]"]) simp_all

lemma rank_shard_shard: "rm \<in> set (rank_shard s l) \<Longrightarrow> rm_shard rm = s"
  by (auto simp: rank_shard_def)

lemma distinct_rank_shard: "distinct l \<Longrightarrow> distinct (rank_shard s l)"
  by (auto simp: rank_shard_def distinct_map inj_on_def)

context valkey_server
begin

lemma distinct_matching: "distinct (shard_matching groups s (L db useName order s))"
proof -
  have "distinct (zlist db k)" for k using zlist_keys [of db k] by (simp add: distinct_map)
  then show ?thesis by (simp add: shard_matching_def shard_list_def Let_def)
qed

lemma all_matching_distinct:
  "distinct shards \<Longrightarrow> distinct (all_matching zlist db groups useName order shards)"
proof (induction shards)
  case (Cons s shards)
  have "set (rank_shard s (shard_matching groups s (L db useName order s)))
      \<inter> set (all_matching zlist db groups useName order shards) = {}"
    using Cons.prems by (auto simp: all_matching_def dest!: rank_shard_shard)
  with Cons show ?case
    by (simp add: all_matching_def distinct_rank_shard distinct_matching)
qed (simp add: all_matching_def)

end

lemma slices_concat:
  "concat (map (\<lambda>i. take l (drop (i * l) xs)) [0..<n]) = take (n * l) xs"
proof (induction n)
  case (Suc n)
  then show ?case by (simp add: take_add [symmetric] add.commute)
qed simp

lemma map_filter_append: "List.map_filter f (xs @ ys) = List.map_filter f xs @ List.map_filter f ys"
  by (simp add: List.map_filter_def)

lemma live_items_concat: "concat (map (live_items dec strs db) xss) = live_items dec strs db (concat xss)"
  by (induction xss) (simp_all add: live_items_def map_filter_append map_filter_simps)

fun page_items_of :: "page_result \<Rightarrow> json list" where
  "page_items_of (Page items tot) = items"
| "page_items_of _ = []"

section \<open>Properties\<close>


abbreviation pod_descriptor :: ResourceDescriptor where
  "pod_descriptor \<equiv> \<lparr>rd_Kind = ''Pod'', rd_Plural = ''pods'', rd_ApiVersion = ''v1'', rd_Namespaced = True\<rparr>"

abbreviation demo_shard :: indexShard where
  "demo_shard \<equiv> \<lparr>sh_apiVersion = ''v1'', sh_kind = ''Pod'', sh_namespace = ''ns''\<rparr>"

lemma demo_resolve:
  "resolveIndexShards mem_do demo_db [Some pod_descriptor] [] [''ns''] = (demo_db, Some [demo_shard])"
  by (simp add: resolveIndexShards_def add_shards_def)

lemma demo_indexed: "store_indexed mem_str mem_zlist mem_set demo_db"
  by (rule valkey_server.reach_indexed [OF demo_server demo_reach refl demo_empty_indexed])


text \<open>Consecutive pages cover the list without overlap: the items of the pages at
  offsets \<open>0, limit, 2 * limit, ...\<close> of one database, put together, are the live objects of
  the sorted list of all matching members, each member exactly once, also when many members
  share a creation second or a name.\<close>

lemma consecutive_pages_cover:
  assumes "valkey_server srv strs zlist sset" and "reads_ok srv db"
    and "store_indexed strs zlist sset db"
    and "resolveIndexShards srv db wl bl nsw = (db, Some shards)"
    and "0 < limit" and "(int n + 1) * limit < 2 ^ 63"
    and "int (length (all_matching zlist db groups (sortBy = sortByName) sortOrder shards)) \<le> int n * limit"
  shows "distinct (all_matching zlist db groups (sortBy = sortByName) sortOrder shards) \<and>
    concat (map (\<lambda>i. page_items_of (snd (GetResourcesByWhitelistPaginated srv dec db wl bl nsw
                        (int i * limit) limit sortBy sortOrder groups))) [0..<n])
      = live_items dec strs db
          (sortRankedMembers (all_matching zlist db groups (sortBy = sortByName) sortOrder shards)
             (sortBy = sortByName) sortOrder)"
proof
  let ?full = "sortRankedMembers (all_matching zlist db groups (sortBy = sortByName) sortOrder shards)
             (sortBy = sortByName) sortOrder"
  show "distinct (all_matching zlist db groups (sortBy = sortByName) sortOrder shards)"
    by (rule valkey_server.all_matching_distinct [OF assms(1) resolve_distinct [OF assms(4)]])
  have zero: "\<forall>a k n. \<forall>e \<in> set (zlist db (resourceIndexKey a k n resourceIndexSortByName)). snd e = 0"
    using assms(3) unfolding store_indexed_def by blast
  have "page_items_of (snd (GetResourcesByWhitelistPaginated srv dec db wl bl nsw (int i * limit) limit sortBy sortOrder groups))
      = live_items dec strs db (take (nat limit) (drop (i * nat limit) ?full))" if "i < n" for i
  proof -
    have "int i * limit + limit \<le> (int n + 1) * limit"
      using that assms(5) by (simp add: distrib_right mult_right_mono)
    then have "max 0 (int i * limit) + limit < 2 ^ 63" "- (2 ^ 63) \<le> limit"
      using assms(5,6) by (simp_all add: max_def)
    note page = valkey_server.page_of_shards [OF assms(1,2) zero assms(4) this]
    have "page_members zlist db groups sortBy sortOrder shards (int i * limit) limit
        = take (nat limit) (drop (i * nat limit) ?full)"
      using assms(5) by (simp add: page_members_def page_slice_def Let_def max_def nat_mult_distrib)
    then show ?thesis by (simp add: page Let_def)
  qed
  then have "concat (map (\<lambda>i. page_items_of (snd (GetResourcesByWhitelistPaginated srv dec db wl bl nsw
                        (int i * limit) limit sortBy sortOrder groups))) [0..<n])
      = concat (map (live_items dec strs db) (map (\<lambda>i. take (nat limit) (drop (i * nat limit) ?full)) [0..<n]))"
    by (auto intro!: arg_cong [where f = concat] map_cong)
  also have "\<dots> = live_items dec strs db (take (n * nat limit) ?full)"
    by (simp only: live_items_concat slices_concat)
  also have "take (n * nat limit) ?full = ?full"
  proof (rule take_all)
    have "int (n * nat limit) = int n * limit" using assms(5) by simp
    moreover have "int (length ?full) \<le> int n * limit" using assms(7) by (simp add: sortRankedMembers_def)
    ultimately show "length ?full \<le> n * nat limit" by linarith
  qed
  finally show "concat (map (\<lambda>i. page_items_of (snd (GetResourcesByWhitelistPaginated srv dec db wl bl nsw
                        (int i * limit) limit sortBy sortOrder groups))) [0..<n])
      = live_items dec strs db ?full" .
qed

text \<open>Pruning heals and never harms: a prune that meets no error reply removes the given
  members from both indexes of their shards and nothing else, leaves every stored resource
  alone, and, the members being stale, keeps the indexes complete.\<close>

lemma prune_keeps_index_complete:
  assumes "valkey_server srv strs zlist sset" and "store_indexed strs zlist sset db"
    and "RErr \<notin> set (snd (DoMulti srv db (prune_cmds stale)))"
    and "\<forall>rm \<in> set stale. strs db (member_key rm) = None \<and> colon_free (sh_apiVersion (rm_shard rm)) \<and>
          colon_free (sh_kind (rm_shard rm)) \<and> colon_free (sh_namespace (rm_shard rm))"
  shows "store_indexed strs zlist sset (pruneStaleIndexMembers srv db stale) \<and>
    strs (pruneStaleIndexMembers srv db stale) = strs db \<and>
    (\<forall>rm \<in> set stale. \<forall>s \<in> {resourceIndexSortByCreation, resourceIndexSortByName}.
       rm_member rm \<notin> fst ` set (zlist (pruneStaleIndexMembers srv db stale) (shard_index_key (rm_shard rm) s)))"
  using valkey_server.prune_indexed [OF assms(1,3,2,4)] valkey_server.prune_effect [OF assms(1,3)]
  by auto

text \<open>
  The bound on \<open>offset + limit\<close> is needed: with a search active, the largest limit and an
  offset of 1, the sum wraps to a negative upper bound and the slice expression panics.
\<close>

definition overflow_db :: mem_db where
  "overflow_db = fst (SetResourceWithIndex demo_env demo_db ''v1'' ''Pod'' ''ns'' ''web-2'' (demo_obj ''web-2'') 0)"

lemma page_overflow_panics:
  "snd (GetResourcesByWhitelistPaginated mem_do (js_unmarshal demo_env) overflow_db [Some pod_descriptor] []
     [''ns''] 1 (2 ^ 63 - 1) sortByName []
     [\<lparr>sg_Field = [], sg_Operator = [], sg_Constraints = [\<lparr>sc_Operator = [], sc_Value = ''web''\<rparr>]\<rparr>])
   = PagePanic"
  by code_simp

end
