(* ===== verification/ValkeyKeys.thy ===== *)
theory ValkeyKeys
  imports StoreIndex
begin

text \<open>
  The rest of the client in \<open>valkeyclient/valkeyclient.go\<close>: plain reads and writes, the
  numbered entries of \<open>SetObjectWithAutoincrementLimit\<close>, key enumeration over the nodes of a
  cluster, pattern deletion, and the helpers of \<open>store/store.go\<close> that drop resources by
  pattern.

  A node answers \<open>SCAN\<close> page by page: \<open>scan pattern cursor\<close> is the next cursor and the keys of
  the page, or \<open>None\<close> for an error. The loop over the cursors may run forever when a node never
  returns cursor 0; \<open>scanNode\<close> is a partial function whose \<open>None\<close> is that run.
\<close>

section \<open>Single keys\<close>

definition valkey_Set :: "'db server \<Rightarrow> 'db \<Rightarrow> string \<Rightarrow> int \<Rightarrow> string list \<Rightarrow> 'db \<times> bool" where
  "valkey_Set srv db value expiration keys =
     (let (db', r) = srv db (SET (createKey keys) value
                               (if expiration \<noteq> 0 then Some (expiration div 1000000000) else None))
      in (db', r \<noteq> RErr \<and> r \<noteq> RNil))"

definition SetObject ::
  "'db server \<Rightarrow> ('v \<Rightarrow> string option) \<Rightarrow> 'db \<Rightarrow> 'v \<Rightarrow> int \<Rightarrow> string list \<Rightarrow> 'db \<times> bool" where
  "SetObject srv enc db value expiration keys =
     (case enc value of
        None \<Rightarrow> (db, False)
      | Some objStr \<Rightarrow> valkey_Set srv db objStr expiration [createKey keys])"

text \<open>A missing key reads as the empty string; \<open>None\<close> is an error.\<close>

definition valkey_Get :: "'db server \<Rightarrow> 'db \<Rightarrow> string list \<Rightarrow> 'db \<times> string option" where
  "valkey_Get srv db keys =
     (let (db', r) = srv db (GET (createKey keys))
      in (db', case r of RStr v \<Rightarrow> Some v | RNil \<Rightarrow> Some [] | _ \<Rightarrow> None))"

definition GetObject ::
  "'db server \<Rightarrow> (string \<Rightarrow> 'v option) \<Rightarrow> 'db \<Rightarrow> string list \<Rightarrow> 'db \<times> 'v option store_result" where
  "GetObject srv dec db keys =
     (case valkey_Get srv db [createKey keys] of
        (db', None) \<Rightarrow> (db', Inl FetchError)
      | (db', Some val) \<Rightarrow>
          (db', if val = [] then Inr None
                else case dec val of None \<Rightarrow> Inl FetchError | Some v \<Rightarrow> Inr (Some v)))"

definition DeleteSingle :: "'db server \<Rightarrow> 'db \<Rightarrow> string list \<Rightarrow> 'db \<times> bool" where
  "DeleteSingle srv db keys =
     (let (db', r) = srv db (DEL (createKey keys)) in (db', r \<noteq> RErr \<and> r \<noteq> RNil))"

definition valkey_Exists :: "'db server \<Rightarrow> 'db \<Rightarrow> string list \<Rightarrow> 'db \<times> bool option" where
  "valkey_Exists srv db keys =
     (let (db', r) = srv db (EXISTS (createKey keys))
      in (db', map_option (\<lambda>n. n > 0) (as_int64 r)))"

section \<open>Enumerating keys\<close>

type_synonym scanner = "string \<Rightarrow> nat \<Rightarrow> (nat \<times> string list) option"

datatype scan_outcome = ScanFailed | Scanned "string list"

text \<open>The pages from a cursor on, the keys so far in front.\<close>

partial_function (option) scan_loop :: "scanner \<Rightarrow> string \<Rightarrow> nat \<Rightarrow> string list \<Rightarrow> scan_outcome option" where
  "scan_loop node pat cursor acc =
     (case node pat cursor of
        None \<Rightarrow> Some ScanFailed
      | Some (next, elements) \<Rightarrow>
          (if next = 0 then Some (Scanned (acc @ filter (\<lambda>k. k \<noteq> []) elements))
           else scan_loop node pat next (acc @ filter (\<lambda>k. k \<noteq> []) elements)))"

definition scanNode :: "scanner \<Rightarrow> string \<Rightarrow> scan_outcome option" where
  "scanNode node pat = scan_loop node pat 0 []"

text \<open>Merging the results of the nodes, in the order they arrive: duplicates (replicas) are
  dropped, and one failed node fails the whole enumeration.\<close>

fun merge_nodes :: "string list \<Rightarrow> bool \<Rightarrow> scan_outcome list \<Rightarrow> scan_outcome" where
  "merge_nodes all failed [] = (if failed then ScanFailed else Scanned all)"
| "merge_nodes all failed (ScanFailed # rs) = merge_nodes all True rs"
| "merge_nodes all failed (Scanned keys # rs) =
     merge_nodes (foldl (\<lambda>a k. if k \<in> set a then a else a @ [k]) all keys) failed rs"

definition scanKeys :: "scan_outcome list \<Rightarrow> scan_outcome" where
  "scanKeys results = (if results = [] then ScanFailed else merge_nodes [] False results)"

section \<open>Deleting keys\<close>

definition deleteChunkSize :: nat where "deleteChunkSize = 500"

fun count_ok :: "vreply list \<Rightarrow> nat \<times> bool" where
  "count_ok [] = (0, True)"
| "count_ok (r # rs) =
     (if r = RErr \<or> r = RNil then (0, False) else (let (n, ok) = count_ok rs in (Suc n, ok)))"

fun delete_chunks :: "'db server \<Rightarrow> 'db \<Rightarrow> string list list \<Rightarrow> 'db \<times> nat \<times> bool" where
  "delete_chunks srv db [] = (db, 0, True)"
| "delete_chunks srv db (c # cs) =
     (let (db1, rs) = DoMulti srv db (map DEL c); (n, ok) = count_ok rs
      in if ok then (let (db2, m, ok') = delete_chunks srv db1 cs in (db2, n + m, ok')) else (db1, n, False))"

definition deleteKeys :: "'db server \<Rightarrow> 'db \<Rightarrow> string list \<Rightarrow> 'db \<times> nat \<times> bool" where
  "deleteKeys srv db keys = delete_chunks srv db (chunk deleteChunkSize keys)"

text \<open>\<open>allKeys\<close> is the result of enumerating the keyspace.\<close>

definition DeleteMultiple :: "'db server \<Rightarrow> 'db \<Rightarrow> scan_outcome \<Rightarrow> string list \<Rightarrow> 'db \<times> bool" where
  "DeleteMultiple srv db allKeys patterns =
     (if patterns = [] then (db, True)
      else case allKeys of
             ScanFailed \<Rightarrow> (db, False)
           | Scanned keys \<Rightarrow>
               (let (db', n, ok) = deleteKeys srv db (filter (\<lambda>key. \<exists>p \<in> set patterns. glob p key) keys)
                in (db', ok)))"

definition DropAllResourcesFromValkey :: "'db server \<Rightarrow> 'db \<Rightarrow> scan_outcome \<Rightarrow> 'db \<times> bool" where
  "DropAllResourcesFromValkey srv db allKeys =
     DeleteMultiple srv db allKeys
       [VALKEY_RESOURCE_PREFIX @ '':*'', VALKEY_RESOURCE_INDEX_PREFIX @ '':*'',
        VALKEY_RESOURCE_INDEX_NS_PREFIX @ '':*'', VALKEY_RESOURCE_INDEX_NODE_PREFIX @ '':*'']"

definition DropResourcesByKind :: "'db server \<Rightarrow> 'db \<Rightarrow> scan_outcome \<Rightarrow> string \<Rightarrow> string \<Rightarrow> 'db \<times> bool" where
  "DropResourcesByKind srv db allKeys apiVersion kind =
     DeleteMultiple srv db allKeys
       [join [colon] [VALKEY_RESOURCE_PREFIX, apiVersion, kind] @ '':*'',
        join [colon] [VALKEY_RESOURCE_INDEX_PREFIX, apiVersion, kind] @ '':*'',
        resourceNamespaceRegistryKey apiVersion kind]"

definition DropKey :: "'db server \<Rightarrow> 'db \<Rightarrow> scan_outcome \<Rightarrow> string \<Rightarrow> 'db \<times> bool" where
  "DropKey srv db allKeys key = DeleteMultiple srv db allKeys [key]"

section \<open>Numbered entries\<close>

definition extractNumber :: "string \<Rightarrow> string \<Rightarrow> int" where
  "extractNumber key baseKey =
     (if has_prefix key (baseKey @ '':'') then
        (case parse_int64 (drop (length baseKey + 1) key) of None \<Rightarrow> 0 | Some n \<Rightarrow> n)
      else 0)"

definition counter_key :: "string \<Rightarrow> string" where
  "counter_key baseKey = baseKey @ '':counter''"

definition numbered_key :: "string \<Rightarrow> int \<Rightarrow> string" where
  "numbered_key baseKey n = baseKey @ '':'' @ show_int n"

definition maxAutoincrementRetries :: nat where "maxAutoincrementRetries = 4096"

datatype slot = SlotError | NoSlot | Slot int

text \<open>The sweep: the numbered keys beyond the limit, lowest numbers first.\<close>

definition sweep_keys :: "string \<Rightarrow> int \<Rightarrow> string list \<Rightarrow> string list" where
  "sweep_keys baseKey limit existing =
     (let numerics = filter (\<lambda>(k, n). n > 0)
            (map (\<lambda>k. (k, extractNumber k baseKey)) (filter (\<lambda>k. k \<noteq> counter_key baseKey) existing))
      in if int (length numerics) \<le> limit then []
         else map fst (take (length numerics - nat limit) (stable_sort (\<lambda>a b. snd a < snd b) numerics)))"

datatype auto_result = AutoError | AutoKey string

fun find_slot :: "'db server \<Rightarrow> string \<Rightarrow> nat \<Rightarrow> 'db \<Rightarrow> 'db \<times> slot" where
  "find_slot srv baseKey 0 db = (db, NoSlot)"
| "find_slot srv baseKey (Suc n) db =
     (let (db1, r1) = srv db (INCR (counter_key baseKey))
      in case as_int64 r1 of
           None \<Rightarrow> (db1, SlotError)
         | Some nextNum \<Rightarrow>
             (let (db2, r2) = srv db1 (EXISTS (numbered_key baseKey nextNum))
              in case as_int64 r2 of
                   None \<Rightarrow> (db2, SlotError)
                 | Some existsCount \<Rightarrow>
                     if existsCount = 0 then (db2, Slot nextNum) else find_slot srv baseKey n db2))"

text \<open>The two prunes after a write; \<open>scan\<close> enumerates the keys of a database that match a
  pattern.\<close>

definition auto_prune ::
  "'db server \<Rightarrow> ('db \<Rightarrow> string \<Rightarrow> scan_outcome) \<Rightarrow> string \<Rightarrow> int \<Rightarrow> int \<Rightarrow> 'db \<Rightarrow> 'db" where
  "auto_prune srv scan baseKey limit chosenNum db =
     (if limit \<le> 0 then db
      else
        let db4 = (if chosenNum - limit > 0
                   then fst (srv db (UNLINK (numbered_key baseKey (chosenNum - limit)))) else db)
        in if chosenNum mod 100 \<noteq> 0 then db4
           else (case scan db4 (baseKey @ '':*'') of
                   ScanFailed \<Rightarrow> db4
                 | Scanned existing \<Rightarrow> fst (DoMulti srv db4 (map DEL (sweep_keys baseKey limit existing)))))"

definition SetObjectWithAutoincrementLimit ::
  "'db server \<Rightarrow> ('db \<Rightarrow> string \<Rightarrow> scan_outcome) \<Rightarrow> ('v \<Rightarrow> string option) \<Rightarrow> 'db \<Rightarrow> 'v \<Rightarrow> int \<Rightarrow> int \<Rightarrow> string list
     \<Rightarrow> 'db \<times> auto_result" where
  "SetObjectWithAutoincrementLimit srv scan enc db value limit ttl keys =
     (let baseKey = join [colon] keys
      in case enc value of
           None \<Rightarrow> (db, AutoError)
         | Some jsonValue \<Rightarrow>
             (case find_slot srv baseKey maxAutoincrementRetries db of
                (db1, Slot chosenNum) \<Rightarrow>
                  (let newKey = numbered_key baseKey chosenNum;
                       (db2, r) = srv db1 (SET newKey jsonValue (if ttl > 0 then Some (ttl div 1000000000) else None))
                   in if r = RErr \<or> r = RNil then (db2, AutoError)
                      else
                        let db3 = (if ttl > 0 then fst (srv db2 (EXPIRE (counter_key baseKey) (ttl div 1000000000))) else db2)
                        in (auto_prune srv scan baseKey limit chosenNum db3, AutoKey newKey))
              | (db1, _) \<Rightarrow> (db1, AutoError)))"

section \<open>Reading by prefix\<close>

datatype SortOrder = ORDER_NONE | ORDER_ASC | ORDER_DESC

definition key_timestamp :: "string \<Rightarrow> int" where
  "key_timestamp s = (case parse_int64 (last (split_on colon s)) of None \<Rightarrow> 0 | Some n \<Rightarrow> n)"

text \<open>\<open>sort.Slice\<close> is not stable; the stable order is one of the results it may have.\<close>

definition sortStringsByTimestamp :: "string list \<Rightarrow> SortOrder \<Rightarrow> string list" where
  "sortStringsByTimestamp l order =
     (case order of
        ORDER_NONE \<Rightarrow> l
      | ORDER_ASC \<Rightarrow> stable_sort (\<lambda>a b. key_timestamp a < key_timestamp b) l
      | ORDER_DESC \<Rightarrow> stable_sort (\<lambda>a b. key_timestamp a > key_timestamp b) l)"

fun decode_nonempty :: "(string \<Rightarrow> 'o option) \<Rightarrow> vreply list \<Rightarrow> 'o list \<times> bool" where
  "decode_nonempty dec [] = ([], True)"
| "decode_nonempty dec (r # rs) =
     (case r of
        RStr v \<Rightarrow>
          (if v = [] then decode_nonempty dec rs
           else case dec v of
                  None \<Rightarrow> ([], False)
                | Some obj \<Rightarrow> (let (os, ok) = decode_nonempty dec rs in (obj # os, ok)))
      | _ \<Rightarrow> decode_nonempty dec rs)"

definition GetObjectsByPrefix ::
  "'db server \<Rightarrow> ('db \<Rightarrow> string \<Rightarrow> scan_outcome) \<Rightarrow> (string \<Rightarrow> 'o option) \<Rightarrow> 'db \<Rightarrow> SortOrder \<Rightarrow> string list
     \<Rightarrow> 'db \<times> 'o list \<times> bool" where
  "GetObjectsByPrefix srv scan dec db order keys =
     (case scan db (createKey keys) of
        ScanFailed \<Rightarrow> (db, [], False)
      | Scanned keyList \<Rightarrow>
          (let (db', rs) = DoMulti srv db (map GET (sortStringsByTimestamp keyList order))
           in (db', decode_nonempty dec rs)))"

definition GetObjectsByPattern ::
  "'db server \<Rightarrow> ('db \<Rightarrow> string \<Rightarrow> scan_outcome) \<Rightarrow> (string \<Rightarrow> 'o option) \<Rightarrow> 'db \<Rightarrow> string \<Rightarrow> string list
     \<Rightarrow> 'db \<times> 'o list \<times> bool" where
  "GetObjectsByPattern srv scan dec db pattern keywords =
     (case scan db pattern of
        ScanFailed \<Rightarrow> (db, [], False)
      | Scanned keyList \<Rightarrow>
          GetObjectsForKeys srv dec db
            (if keywords \<noteq> [] then filter (\<lambda>k. k \<in> set keywords) keyList else keyList))"

datatype 'o sized_result = SizedError "'o list" nat | SizedPanic | Sized "'o list" nat

text \<open>Only the namespace filter looks at the key; an empty namespace list means no filter.\<close>

definition ns_of_key_in :: "string list \<Rightarrow> string \<Rightarrow> bool" where
  "ns_of_key_in namespaces key =
     (let parts = split_on colon key in length parts \<ge> 3 \<and> parts ! 1 \<in> set namespaces)"

definition GetObjectsByPrefixWithSizeAndNs ::
  "'db server \<Rightarrow> ('db \<Rightarrow> string \<Rightarrow> scan_outcome) \<Rightarrow> (string \<Rightarrow> 'o option) \<Rightarrow> 'db \<Rightarrow> int \<Rightarrow> int \<Rightarrow> string list
     \<Rightarrow> bool \<Rightarrow> string list \<Rightarrow> 'db \<times> 'o sized_result" where
  "GetObjectsByPrefixWithSizeAndNs srv scan dec db limit offset namespaces clusterWide keys =
     (case scan db (createKey keys @ ''*'') of
        ScanFailed \<Rightarrow> (db, SizedError [] 0)
      | Scanned keyList0 \<Rightarrow>
          (let keyList1 = filter (\<lambda>k. \<not> has_suffix k '':counter'') keyList0;
               keyList = (if \<not> clusterWide \<and> namespaces \<noteq> [] then filter (ns_of_key_in namespaces) keyList1
                          else keyList1);
               totalCount = length keyList
           in if totalCount = 0 then (db, Sized [] 0)
              else if offset \<ge> int totalCount then (db, Sized [] totalCount)
              else
                let e = min (wrap64 (offset + limit)) (int totalCount)
                in if offset < 0 \<or> e < offset then (db, SizedPanic)
                   else
                     let page = take (nat (e - offset)) (drop (nat offset) keyList)
                     in if page = [] then (db, Sized [] totalCount)
                        else
                          let (db', rs) = DoMulti srv db (map GET page); (objs, ok) = decode_nonempty dec rs
                          in (db', if ok then Sized objs totalCount else SizedError objs totalCount)))"

section \<open>Enumerating the keyspace\<close>

text \<open>A chain of cursors that ends at 0, with the keys of its pages.\<close>

inductive scan_pages :: "scanner \<Rightarrow> string \<Rightarrow> nat \<Rightarrow> string list \<Rightarrow> bool" for node :: scanner and pat :: string where
  last_page: "node pat c = Some (0, ks) \<Longrightarrow> scan_pages node pat c ks"
| next_page: "node pat c = Some (c', ks) \<Longrightarrow> c' \<noteq> 0 \<Longrightarrow> scan_pages node pat c' rest \<Longrightarrow>
    scan_pages node pat c (ks @ rest)"

lemma scan_loop_pages:
  "scan_pages node pat c ks \<Longrightarrow> scan_loop node pat c acc = Some (Scanned (acc @ filter (\<lambda>k. k \<noteq> []) ks))"
  by (induction arbitrary: acc rule: scan_pages.induct) (subst scan_loop.simps; simp)+

lemma foldl_add_keys:
  "distinct a \<Longrightarrow> distinct (foldl (\<lambda>a k. if k \<in> set a then a else a @ [k]) a ks) \<and>
     set (foldl (\<lambda>a k. if k \<in> set a then a else a @ [k]) a ks) = set a \<union> set ks"
  by (induction ks arbitrary: a) auto

lemma merge_nodes_outcome:
  "distinct all \<Longrightarrow>
   (case merge_nodes all failed rs of
      ScanFailed \<Rightarrow> failed \<or> ScanFailed \<in> set rs
    | Scanned keys \<Rightarrow> \<not> failed \<and> ScanFailed \<notin> set rs \<and> distinct keys \<and>
        set keys = set all \<union> (\<Union>r \<in> set rs. case r of ScanFailed \<Rightarrow> {} | Scanned l \<Rightarrow> set l))"
proof (induction all failed rs rule: merge_nodes.induct)
  case (3 all failed keys rs)
  then show ?case using foldl_add_keys [OF 3(2), of keys] by (auto split: scan_outcome.splits)
qed (auto split: scan_outcome.splits)

section \<open>Pattern deletion\<close>

lemma count_ok_all: "count_ok rs = (n, True) \<Longrightarrow> RErr \<notin> set rs \<and> n = length rs"
  by (induction rs arbitrary: n) (auto split: if_splits prod.splits)

context valkey_server
begin

lemma dels_effect:
  "RErr \<notin> set (snd (DoMulti srv db (map DEL ks))) \<Longrightarrow>
   strs (fst (DoMulti srv db (map DEL ks))) = (\<lambda>k. if k \<in> set ks then None else strs db k) \<and>
   zlist (fst (DoMulti srv db (map DEL ks))) = (\<lambda>k. if k \<in> set ks then [] else zlist db k) \<and>
   sset (fst (DoMulti srv db (map DEL ks))) = (\<lambda>k. if k \<in> set ks then {} else sset db k)"
proof (induction ks arbitrary: db)
  case (Cons k ks)
  obtain d r where s: "srv db (DEL k) = (d, r)" by fastforce
  with Cons.prems have "r \<noteq> RErr" "RErr \<notin> set (snd (DoMulti srv d (map DEL ks)))"
    by (auto simp: DoMulti_Cons)
  with del_spec [OF s] Cons.IH [of d] s show ?case by (auto simp: DoMulti_Cons fun_eq_iff)
qed simp

lemma delete_chunks_effect:
  "delete_chunks srv db cs = (db', n, True) \<Longrightarrow>
   n = length (concat cs) \<and>
   strs db' = (\<lambda>k. if k \<in> set (concat cs) then None else strs db k) \<and>
   zlist db' = (\<lambda>k. if k \<in> set (concat cs) then [] else zlist db k) \<and>
   sset db' = (\<lambda>k. if k \<in> set (concat cs) then {} else sset db k)"
proof (induction cs arbitrary: db n)
  case (Cons c cs)
  obtain d rs where d: "DoMulti srv db (map DEL c) = (d, rs)" by fastforce
  then have len: "length rs = length c" using length_DoMulti [of srv db "map DEL c"] by simp
  from Cons.prems d obtain m k where ok: "count_ok rs = (m, True)"
    and rest: "delete_chunks srv d cs = (db', k, True)" and n: "n = m + k"
    by (auto split: prod.splits if_splits)
  note e = count_ok_all [OF ok]
  show ?case using dels_effect [of db c] Cons.IH [OF rest] d e len n by (auto simp: fun_eq_iff)
qed simp

lemma DeleteMultiple_effect:
  assumes "DeleteMultiple srv db (Scanned keys) patterns = (db', True)"
  shows "strs db' = (\<lambda>k. if k \<in> set keys \<and> (\<exists>p \<in> set patterns. glob p k) then None else strs db k) \<and>
    zlist db' = (\<lambda>k. if k \<in> set keys \<and> (\<exists>p \<in> set patterns. glob p k) then [] else zlist db k) \<and>
    sset db' = (\<lambda>k. if k \<in> set keys \<and> (\<exists>p \<in> set patterns. glob p k) then {} else sset db k)"
proof (cases "patterns = []")
  case False
  let ?ks = "filter (\<lambda>key. \<exists>p \<in> set patterns. glob p key) keys"
  from False assms obtain n where "delete_chunks srv db (chunk deleteChunkSize ?ks) = (db', n, True)"
    by (auto simp: DeleteMultiple_def deleteKeys_def split: prod.splits)
  from delete_chunks_effect [OF this] show ?thesis
    by (auto simp: concat_chunk deleteChunkSize_def fun_eq_iff)
qed (use assms in \<open>simp add: DeleteMultiple_def\<close>)

end

text \<open>What a pattern with one trailing star matches: the star stops at a separator.\<close>

definition plain_char :: "char \<Rightarrow> bool" where
  "plain_char c \<longleftrightarrow> c \<notin> {CHR ''*'', CHR ''?'', CHR ''['', CHR 0x5C}"

lemma glob_star: "glob ''*'' s \<longleftrightarrow> separator \<notin> set s"
  by (induction s) auto

lemma glob_prefix_star:
  "list_all plain_char p \<Longrightarrow> glob (p @ ''*'') s \<longleftrightarrow> (\<exists>t. s = p @ t \<and> separator \<notin> set t)"
proof (induction p arbitrary: s)
  case Nil
  then show ?case by (simp only: append_Nil glob_star) simp
next
  case (Cons x p)
  then show ?case by (cases s) (auto simp: plain_char_def)
qed

declare glob.simps [simp del]

section \<open>Numbered entries\<close>

context valkey_server
begin

lemma find_slot_free:
  assumes "find_slot srv base n db = (db', Slot num)"
  shows "strs db' (numbered_key base num) = None \<and>
    (\<exists>c. strs db' = (strs db)(counter_key base \<mapsto> c)) \<and> zlist db' = zlist db \<and> sset db' = sset db"
  using assms
proof (induction n arbitrary: db)
  case (Suc n)
  let ?ck = "counter_key base"
  obtain d1 r1 where s1: "srv db (INCR ?ck) = (d1, r1)" by fastforce
  with Suc.prems obtain k where k: "as_int64 r1 = Some k" by (auto split: option.splits)
  then have "r1 \<noteq> RErr" by auto
  from incr_spec [OF s1 this] k have d1: "strs d1 = (strs db)(?ck \<mapsto> show_int k)" "zlist d1 = zlist db" "sset d1 = sset db"
    by auto
  let ?cand = "numbered_key base k"
  have s2: "srv d1 (EXISTS ?cand) = (d1, snd (srv d1 (EXISTS ?cand)))" by (rule do_read) simp
  with Suc.prems s1 k obtain ex where ex: "as_int64 (snd (srv d1 (EXISTS ?cand))) = Some ex"
    by (cases "as_int64 (snd (srv d1 (EXISTS ?cand)))") (auto simp: Let_def case_prod_unfold)
  then have free: "ex = 0 \<longleftrightarrow> strs d1 ?cand = None \<and> zlist d1 ?cand = [] \<and> sset d1 ?cand = {}"
    using exists_reply [of d1 ?cand] by (auto split: if_splits)
  show ?case
  proof (cases "ex = 0")
    case True
    with Suc.prems s1 s2 k ex have "db' = d1 \<and> num = k"
      using read_same [of "EXISTS ?cand" d1] by (auto simp: Let_def case_prod_unfold)
    with True free d1 show ?thesis by auto
  next
    case False
    with Suc.prems s1 s2 k ex have "find_slot srv base n d1 = (db', Slot num)"
      using read_same [of "EXISTS ?cand" d1] by (auto simp: Let_def case_prod_unfold)
    from Suc.IH [OF this] obtain c where
      "strs db' (numbered_key base num) = None" "strs db' = (strs d1)(?ck \<mapsto> c)"
      "zlist db' = zlist d1" "sset db' = sset d1" by blast
    moreover have "(strs d1)(?ck \<mapsto> c) = (strs db)(?ck \<mapsto> c)" by (simp only: d1 fun_upd_upd)
    ultimately show ?thesis using d1 by metis
  qed
qed simp

end

lemma show_int_not_counter: "show_int n \<noteq> ''counter''"
proof
  assume "show_int n = ''counter''"
  then have "hd (show_int n) = CHR ''c''" by simp
  then have "hd (show_nat (nat n)) = CHR ''c'' \<and> \<not> n < 0" by (auto simp: show_int_def split: if_splits)
  then have "CHR ''c'' \<le> CHR ''9''"
    using show_nat_digits [of "hd (show_nat (nat n))" "nat n"] hd_in_set [OF show_nat_nonempty [of "nat n"]]
    by simp
  then show False by (simp add: less_eq_char_def)
qed

lemma numbered_not_counter [simp]: "numbered_key base n \<noteq> counter_key base"
  using show_int_not_counter [of n] by (simp add: numbered_key_def counter_key_def)

lemma show_int_inject: "show_int m = show_int n \<Longrightarrow> m = n"
proof -
  assume eq: "show_int m = show_int n"
  have hd: "hd (show_nat k) \<noteq> CHR ''-''" for k by (rule show_nat_hd)
  show ?thesis
  proof (cases "m < 0")
    case True
    then have "n < 0" using eq hd [of "nat n"] by (metis list.sel(1) show_int_def)
    with True eq show ?thesis by (auto simp: show_int_def dest!: show_nat_inject)
  next
    case False
    then have "\<not> n < 0" using eq hd [of "nat m"] by (auto simp: show_int_def split: if_splits)
    with False eq show ?thesis by (auto simp: show_int_def dest!: show_nat_inject)
  qed
qed

text \<open>The maintenance commands, whose errors the code ignores, are answered.\<close>

definition maintenance_ok :: "'db server \<Rightarrow> bool" where
  "maintenance_ok srv \<longleftrightarrow> (\<forall>db k t. snd (srv db (EXPIRE k t)) \<noteq> RErr \<and> snd (srv db (UNLINK k)) \<noteq> RErr \<and>
     snd (srv db (DEL k)) \<noteq> RErr)"

lemma mem_maintenance_ok: "maintenance_ok mem_do"
  by (simp add: maintenance_ok_def mem_do_def)

lemma sweep_keys_family: "k \<in> set (sweep_keys base limit existing) \<Longrightarrow> has_prefix k (base @ '':'')"
proof -
  assume "k \<in> set (sweep_keys base limit existing)"
  then have "\<exists>n. n > 0 \<and> n = extractNumber k base"
    by (auto simp: sweep_keys_def Let_def split: if_splits dest!: in_set_takeD)
  then show ?thesis by (auto simp: extractNumber_def split: if_splits)
qed

context valkey_server
begin

lemma dels_maintenance:
  assumes "maintenance_ok srv"
  shows "RErr \<notin> set (snd (DoMulti srv db (map DEL ks)))"
proof (induction ks arbitrary: db)
  case (Cons k ks)
  moreover have "snd (srv db (DEL k)) \<noteq> RErr" using assms unfolding maintenance_ok_def by blast
  ultimately show ?case by (simp add: DoMulti_Cons)
qed simp

lemma auto_prune_effect:
  assumes ok: "maintenance_ok srv"
  shows "\<exists>ks. (\<forall>k \<in> set ks. has_prefix k (base @ '':'')) \<and> (limit \<le> 0 \<or> n mod 100 \<noteq> 0 \<longrightarrow> ks = []) \<and>
    strs (auto_prune srv scan base limit n db) = (\<lambda>k. if k \<in> set ks \<or>
      (limit > 0 \<and> n > limit \<and> k = numbered_key base (n - limit)) then None else strs db k)"
proof -
  define d4 where "d4 = (if n - limit > 0 then fst (srv db (UNLINK (numbered_key base (n - limit)))) else db)"
  have d4: "strs d4 = (\<lambda>k. if n > limit \<and> k = numbered_key base (n - limit) then None else strs db k)"
  proof (cases "n > limit")
    case True
    obtain d r where u: "srv db (UNLINK (numbered_key base (n - limit))) = (d, r)" by fastforce
    then have "r \<noteq> RErr" using ok unfolding maintenance_ok_def by (metis snd_conv)
    with unlink_spec [OF u] u True show ?thesis by (simp add: d4_def fun_eq_iff)
  qed (simp add: d4_def)
  have unf: "auto_prune srv scan base limit n db = (if limit \<le> 0 then db else if n mod 100 \<noteq> 0 then d4
      else (case scan d4 (base @ '':*'') of ScanFailed \<Rightarrow> d4
            | Scanned existing \<Rightarrow> fst (DoMulti srv d4 (map DEL (sweep_keys base limit existing)))))"
    unfolding auto_prune_def Let_def d4_def ..
  consider (nolimit) "limit \<le> 0" "auto_prune srv scan base limit n db = db"
    | (quick) "limit > 0" "auto_prune srv scan base limit n db = d4"
    | (sweep) existing where "limit > 0" "n mod 100 = 0"
        "auto_prune srv scan base limit n db = fst (DoMulti srv d4 (map DEL (sweep_keys base limit existing)))"
    unfolding unf by (cases "limit \<le> 0"; cases "n mod 100 = 0"; cases "scan d4 (base @ '':*'')") auto
  then show ?thesis
  proof cases
    case nolimit
    then show ?thesis by (intro exI [of _ "[]"]) simp
  next
    case quick
    then show ?thesis by (intro exI [of _ "[]"]) (simp add: d4)
  next
    case sweep
    have "strs (auto_prune srv scan base limit n db) = (\<lambda>k. if k \<in> set (sweep_keys base limit existing) then None else strs d4 k)"
      using dels_effect [OF dels_maintenance [OF ok]] sweep(3) by simp
    with sweep show ?thesis
      by (intro exI [of _ "sweep_keys base limit existing"]) (auto simp: d4 fun_eq_iff dest: sweep_keys_family)
  qed
qed

lemma autoincrement_run:
  assumes run: "SetObjectWithAutoincrementLimit srv scan enc db value limit ttl keys = (db', AutoKey key)"
    and ok: "maintenance_ok srv" and ttl: "ttl \<le> 0 \<or> 1000000000 \<le> ttl" and enc: "enc value = Some js"
  shows "\<exists>n c ks. key = numbered_key (join [colon] keys) n \<and> strs db key = None \<and>
    (\<forall>k \<in> set ks. has_prefix k (join [colon] keys @ '':'')) \<and> (limit \<le> 0 \<or> n mod 100 \<noteq> 0 \<longrightarrow> ks = []) \<and>
    strs db' = (\<lambda>k. if k \<in> set ks \<or> (limit > 0 \<and> n > limit \<and> k = numbered_key (join [colon] keys) (n - limit)) then None
      else ((strs db)(counter_key (join [colon] keys) \<mapsto> c, key \<mapsto> js)) k)"
proof -
  define base where "base = join [colon] keys"
  obtain d1 sl where fs: "find_slot srv base maxAutoincrementRetries db = (d1, sl)" by fastforce
  with run enc obtain n where sl: "sl = Slot n"
    by (auto simp: SetObjectWithAutoincrementLimit_def base_def Let_def split: slot.splits)
  obtain c where f: "strs d1 (numbered_key base n) = None" "strs d1 = (strs db)(counter_key base \<mapsto> c)"
    using find_slot_free [OF fs [unfolded sl]] by auto
  then have free: "strs db (numbered_key base n) = None" by (simp split: if_splits)
  obtain d2 r where s2: "srv d1 (SET (numbered_key base n) js (if ttl > 0 then Some (ttl div 1000000000) else None)) = (d2, r)"
    by fastforce
  define d3 where "d3 = (if ttl > 0 then fst (srv d2 (EXPIRE (counter_key base) (ttl div 1000000000))) else d2)"
  have r: "r \<noteq> RErr" and key: "key = numbered_key base n" and db': "db' = auto_prune srv scan base limit n d3"
    using run enc fs sl s2
    by (auto simp: SetObjectWithAutoincrementLimit_def base_def [symmetric] d3_def Let_def split: if_splits)
  have "strs d3 = strs d2"
  proof (cases "ttl > 0")
    case True
    obtain d r' where e: "srv d2 (EXPIRE (counter_key base) (ttl div 1000000000)) = (d, r')" by fastforce
    then have "r' \<noteq> RErr" using ok unfolding maintenance_ok_def by (metis snd_conv)
    moreover have "0 < ttl div 1000000000" using ttl True by linarith
    ultimately show ?thesis using expire_spec [OF e] e True by (simp add: d3_def)
  qed (simp add: d3_def)
  then have d3: "strs d3 = (strs db)(counter_key base \<mapsto> c, numbered_key base n \<mapsto> js)"
    using set_spec [OF s2 r] f by simp
  note pr = auto_prune_effect [OF ok, where scan = scan and base = base and limit = limit and n = n and db = d3,
      folded db', unfolded d3]
  show ?thesis
    unfolding base_def [symmetric] key
    by (rule exI [of _ n], rule exI [of _ c]) (use pr free in \<open>simp only: refl simp_thms\<close>)
qed

end

section \<open>Properties\<close>

text \<open>Enumeration is all or nothing: when every node's cursor chain ends, the scan of
  the nodes returns each key found on any node exactly once; a failed node fails the whole
  enumeration instead of truncating it.\<close>

lemma scanKeys_all_or_nothing:
  assumes "nodes \<noteq> []" and "\<forall>(node, ks) \<in> set nodes. scan_pages node pat 0 ks"
  shows "(\<exists>keys. scanKeys (map (\<lambda>(node, ks). the (scanNode node pat)) nodes) = Scanned keys \<and> distinct keys \<and>
            set keys = (\<Union>(node, ks) \<in> set nodes. set ks) - {[]}) \<and>
         (ScanFailed \<in> set results \<longrightarrow> scanKeys results = ScanFailed)"
proof
  let ?rs = "map (\<lambda>(node, ks). the (scanNode node pat)) nodes"
  have rs: "?rs = map (\<lambda>(node, ks). Scanned (filter (\<lambda>k. k \<noteq> []) ks)) nodes"
    using assms(2) scan_loop_pages [where c = 0 and acc = "[]"] by (auto simp: scanNode_def)
  have "ScanFailed \<notin> set ?rs" unfolding rs by auto
  then obtain keys where k: "scanKeys ?rs = Scanned keys" "distinct keys"
    "set keys = (\<Union>r \<in> set ?rs. case r of ScanFailed \<Rightarrow> {} | Scanned l \<Rightarrow> set l)"
    using merge_nodes_outcome [of "[]" False ?rs] assms(1)
    by (auto simp: scanKeys_def split: scan_outcome.splits)
  have "(\<Union>r \<in> set ?rs. case r of ScanFailed \<Rightarrow> {} | Scanned l \<Rightarrow> set l) = (\<Union>(node, ks) \<in> set nodes. set ks) - {[]}"
    unfolding rs by auto
  with k show "\<exists>keys. scanKeys ?rs = Scanned keys \<and> distinct keys \<and> set keys = (\<Union>(node, ks) \<in> set nodes. set ks) - {[]}"
    by auto
  show "ScanFailed \<in> set results \<longrightarrow> scanKeys results = ScanFailed"
    using merge_nodes_outcome [of "[]" False results] by (auto simp: scanKeys_def split: scan_outcome.splits)
qed

text \<open>What dropping the resources really drops: a successful \<open>DropAllResourcesFromValkey\<close>
  removes a resource key found by the scan exactly when no \<open>/\<close> follows the prefix, because the
  star of \<open>filepath.Match\<close> does not cross a separator: resources of a named API group
  (\<open>apps/v1\<close>, \<open>batch/v1\<close>, \<dots>) stay.\<close>

lemma DropAll_keeps_grouped_resources:
  assumes "valkey_server srv strs zlist sset"
    and "DropAllResourcesFromValkey srv db (Scanned keys) = (db', True)"
    and "CreateResourceKey [a, k, n, m] \<in> set keys"
  shows "strs db' (CreateResourceKey [a, k, n, m]) =
    (if separator \<in> set (a @ k @ n @ m) then strs db (CreateResourceKey [a, k, n, m]) else None)"
proof -
  let ?key = "CreateResourceKey [a, k, n, m]"
  have p: "list_all plain_char (P @ '':'')" if "P \<in> {VALKEY_RESOURCE_PREFIX, VALKEY_RESOURCE_INDEX_PREFIX,
      VALKEY_RESOURCE_INDEX_NS_PREFIX, VALKEY_RESOURCE_INDEX_NODE_PREFIX}" for P
    using that by (auto simp: store_constants plain_char_def)
  have "glob (P @ '':*'') ?key \<longleftrightarrow> P = VALKEY_RESOURCE_PREFIX \<and> separator \<notin> set (a @ k @ n @ m)"
    if "P \<in> {VALKEY_RESOURCE_PREFIX, VALKEY_RESOURCE_INDEX_PREFIX, VALKEY_RESOURCE_INDEX_NS_PREFIX,
      VALKEY_RESOURCE_INDEX_NODE_PREFIX}" for P
  proof -
    have "glob (P @ '':*'') ?key \<longleftrightarrow> (\<exists>t. ?key = P @ [colon] @ t \<and> separator \<notin> set t)"
      using glob_prefix_star [OF p [OF that], of ?key] by simp
    also have "\<dots> \<longleftrightarrow> P = VALKEY_RESOURCE_PREFIX \<and> separator \<notin> set (a @ k @ n @ m)"
      using that by (auto simp: CreateResourceKey_def store_constants)
    finally show ?thesis .
  qed
  note g = this
  have ne: "VALKEY_RESOURCE_INDEX_PREFIX \<noteq> VALKEY_RESOURCE_PREFIX"
    "VALKEY_RESOURCE_INDEX_NS_PREFIX \<noteq> VALKEY_RESOURCE_PREFIX"
    "VALKEY_RESOURCE_INDEX_NODE_PREFIX \<noteq> VALKEY_RESOURCE_PREFIX" by (simp_all add: store_constants)
  have "(\<exists>p \<in> set [VALKEY_RESOURCE_PREFIX @ '':*'', VALKEY_RESOURCE_INDEX_PREFIX @ '':*'',
        VALKEY_RESOURCE_INDEX_NS_PREFIX @ '':*'', VALKEY_RESOURCE_INDEX_NODE_PREFIX @ '':*'']. glob p ?key)
      \<longleftrightarrow> separator \<notin> set (a @ k @ n @ m)"
    using g [of VALKEY_RESOURCE_PREFIX] g [of VALKEY_RESOURCE_INDEX_PREFIX]
      g [of VALKEY_RESOURCE_INDEX_NS_PREFIX] g [of VALKEY_RESOURCE_INDEX_NODE_PREFIX] ne by simp
  moreover have "strs db' ?key = (if ?key \<in> set keys \<and>
      (\<exists>p \<in> set [VALKEY_RESOURCE_PREFIX @ '':*'', VALKEY_RESOURCE_INDEX_PREFIX @ '':*'',
        VALKEY_RESOURCE_INDEX_NS_PREFIX @ '':*'', VALKEY_RESOURCE_INDEX_NODE_PREFIX @ '':*'']. glob p ?key)
      then None else strs db ?key)"
    using valkey_server.DeleteMultiple_effect [OF assms(1) assms(2) [unfolded DropAllResourcesFromValkey_def]]
    by simp
  ultimately show ?thesis using assms(3) by simp
qed

abbreviation demo_key :: string where
  "demo_key \<equiv> CreateResourceKey [''apps/v1'', ''Deployment'', ''ns'', ''web'']"

definition drop_db :: mem_db where
  "drop_db = fst (SetResourceWithIndex demo_env mem_empty ''apps/v1'' ''Deployment'' ''ns'' ''web'' (demo_obj ''web'') 0)"

text \<open>C9. A numbered entry never overwrites: a successful
  \<open>SetObjectWithAutoincrementLimit\<close> stores the encoded value under a key that held nothing
  before, touches only keys of its own family, and, outside the sweep of every hundredth
  write, changes exactly the counter, the new entry and the one entry that fell out of the
  window.\<close>

theorem autoincrement_never_overwrites:
  assumes "valkey_server srv strs zlist sset" and "maintenance_ok srv"
    and "SetObjectWithAutoincrementLimit srv scan enc db value limit ttl keys = (db', AutoKey key)"
    and "ttl \<le> 0 \<or> 1000000000 \<le> ttl" and "enc value = Some js"
  shows "\<exists>n c swept. key = numbered_key (join [colon] keys) n \<and> strs db key = None \<and>
    (\<forall>k \<in> set swept. has_prefix k (join [colon] keys @ '':'')) \<and> (limit \<le> 0 \<or> n mod 100 \<noteq> 0 \<longrightarrow> swept = []) \<and>
    strs db' = (\<lambda>k. if k \<in> set swept \<or> (limit > 0 \<and> n > limit \<and> k = numbered_key (join [colon] keys) (n - limit)) then None
      else ((strs db)(counter_key (join [colon] keys) \<mapsto> c, key \<mapsto> js)) k)"
  by (rule valkey_server.autoincrement_run [OF assms(1,3,2,4,5)])

theorem autoincrement_never_overwrites_witness:
  "\<exists>n c swept. ''log:1'' = numbered_key ''log'' n \<and> mem_str mem_empty ''log:1'' = None \<and>
    (\<forall>k \<in> set swept. has_prefix k ''log:'') \<and> ((5::int) \<le> 0 \<or> n mod 100 \<noteq> 0 \<longrightarrow> swept = []) \<and>
    mem_str (fst (SetObjectWithAutoincrementLimit mem_do (\<lambda>_ _. ScanFailed) Some mem_empty ''v'' 5 0 [''log'']))
      = (\<lambda>k. if k \<in> set swept \<or> ((5::int) > 0 \<and> n > 5 \<and> k = numbered_key ''log'' (n - 5)) then None
        else ((mem_str mem_empty)(counter_key ''log'' \<mapsto> c, ''log:1'' \<mapsto> ''v'')) k)"
proof -
  let ?run = "SetObjectWithAutoincrementLimit mem_do (\<lambda>_ _. ScanFailed) Some mem_empty ''v'' 5 0 [''log'']"
  have "snd ?run = AutoKey ''log:1''" by code_simp
  then have "?run = (fst ?run, AutoKey ''log:1'')" by (simp add: prod_eq_iff)
  from autoincrement_never_overwrites [OF mem.valkey_server_axioms mem_maintenance_ok this, of "''v''"]
  show ?thesis by (simp only: join.simps append.simps list.simps refl simp_thms order_refl)
qed

end
