(* ===== verification/AuditLog.thy ===== *)
theory AuditLog
  imports ValkeyKeys Secrets
begin

text \<open>
  The audit log of \<open>store/store.go\<close>: building an entry from a request, removing sensitive
  material from it, storing and indexing it, the bounded queue of real-time events, and the
  listing, indexed and by scan.

  A Go value of type \<open>any\<close> is nil, raw JSON (\<open>json.RawMessage\<close>), an unstructured object or
  any other JSON-like value. Encoders, YAML, the diff and the hash are parameters. Times are
  in milliseconds.
\<close>

section \<open>Data\<close>

datatype go_any = ANil | ARaw string | AObj json | AVal json

record User =
  u_FirstName :: string
  u_LastName :: string
  u_Email :: string
  u_Source :: string

record Datagram =
  dg_Id :: string
  dg_Pattern :: string
  dg_Payload :: go_any
  dg_CreatedAt :: "int option"
  dg_User :: User
  dg_Workspace :: string

record AuditLogEntry =
  ae_RequestId :: string
  ae_Pattern :: string
  ae_Kind :: string
  ae_ApiVersion :: string
  ae_Namespace :: string
  ae_Name :: string
  ae_Success :: bool
  ae_Payload :: go_any
  ae_Diff :: string
  ae_Result :: go_any
  ae_Error :: string
  ae_CreatedAt :: int
  ae_User :: User
  ae_Workspace :: string
  ae_Seq :: int
  ae_BootId :: string

record 'db aenv =
  av_srv :: "'db server"
  av_scan :: "'db \<Rightarrow> string \<Rightarrow> scan_outcome"
  av_enc :: "AuditLogEntry \<Rightarrow> string option"
  av_dec :: "string \<Rightarrow> AuditLogEntry option"
  av_marshal :: "go_any \<Rightarrow> string option"
  av_unmarshal :: "string \<Rightarrow> json option"
  av_yaml_dec :: "string \<Rightarrow> json option"
  av_yaml_enc :: "json \<Rightarrow> string option"
  av_diff :: "json option \<Rightarrow> json option \<Rightarrow> string option"
  av_hash8 :: "string \<Rightarrow> string"
  av_secrets :: secrets_state
  av_limit :: int
  av_ttl :: int

text \<open>\<open>PayloadMap\<close>: the fields of an object payload.\<close>

definition PayloadMap :: "'db aenv \<Rightarrow> Datagram \<Rightarrow> (string \<times> json) list option" where
  "PayloadMap E dg =
     (case dg_Payload dg of
        AVal (JObj fs) \<Rightarrow> Some fs
      | ARaw p \<Rightarrow> (case av_unmarshal E p of Some (JObj fs) \<Rightarrow> Some fs | _ \<Rightarrow> None)
      | _ \<Rightarrow> None)"

section \<open>Redaction\<close>

definition redactedValuePlaceholder :: "(string \<Rightarrow> string) \<Rightarrow> string \<Rightarrow> string" where
  "redactedValuePlaceholder hash8 value = ''***[REDACTED:sha256:'' @ hash8 value @ '']***''"

definition str_of :: "json \<Rightarrow> string" where
  "str_of v = (case v of JStr s \<Rightarrow> s | _ \<Rightarrow> [])"

definition redact_field :: "(string \<Rightarrow> string) \<Rightarrow> string \<Rightarrow> json \<Rightarrow> json" where
  "redact_field hash8 field obj =
     (case nested obj [field] of
        Some (JObj vs) \<Rightarrow>
          set_field field (JObj (map (\<lambda>(k, v). (k, JStr (redactedValuePlaceholder hash8 (str_of v)))) vs)) obj
      | _ \<Rightarrow> obj)"

definition redactSecretData :: "(string \<Rightarrow> string) \<Rightarrow> json \<Rightarrow> json" where
  "redactSecretData hash8 obj =
     (if GetKind obj \<noteq> ''Secret'' then obj
      else redact_field hash8 ''stringData'' (redact_field hash8 ''data'' obj))"

definition sensitiveAuditPayloadKeys :: "string list" where
  "sensitiveAuditPayloadKeys =
     [''password'', ''token'', ''apikey'', ''accesstoken'', ''authtoken'', ''bearertoken'',
      ''clientsecret'', ''authorization'']"

fun redact_json :: "json \<Rightarrow> json" where
  "redact_json (JObj fs) =
     JObj (map (\<lambda>kv. (fst kv,
                 if to_lower (fst kv) \<in> set sensitiveAuditPayloadKeys \<and> str_of (snd kv) \<noteq> []
                 then JStr REDACTED else redact_json (snd kv))) fs)"
| "redact_json (JArr vs) = JArr (map redact_json vs)"
| "redact_json v = v"

definition redactSensitiveKeys :: "go_any \<Rightarrow> go_any" where
  "redactSensitiveKeys value = (case value of AVal v \<Rightarrow> AVal (redact_json v) | _ \<Rightarrow> value)"

definition redactSecretYamlInPayload :: "'db aenv \<Rightarrow> go_any \<Rightarrow> go_any" where
  "redactSecretYamlInPayload E payload =
     (case payload of
        AVal (JObj fs) \<Rightarrow>
          (case map_of fs ''yamlData'' of
             Some (JStr y) \<Rightarrow>
               if y = [] then payload
               else (case av_yaml_dec E y of
                       None \<Rightarrow> payload
                     | Some obj \<Rightarrow>
                         if GetKind obj \<noteq> ''Secret'' then payload
                         else AVal (JObj (AList.update ''yamlData''
                                (JStr (case av_yaml_enc E (redactSecretData (av_hash8 E) obj) of
                                         None \<Rightarrow> REDACTED | Some r \<Rightarrow> r)) fs)))
           | _ \<Rightarrow> payload)
      | _ \<Rightarrow> payload)"

definition eraseConfigSecrets :: "'db aenv \<Rightarrow> go_any \<Rightarrow> go_any" where
  "eraseConfigSecrets E value =
     (if value = ANil then ANil
      else case av_marshal E value of
             None \<Rightarrow> value
           | Some raw \<Rightarrow>
               (let masked = EraseSecrets (av_secrets E) raw
                in if masked = raw then value
                   else case av_unmarshal E masked of None \<Rightarrow> AVal (JStr masked) | Some out \<Rightarrow> AVal out))"

definition sanitizeAuditLogEntry :: "'db aenv \<Rightarrow> AuditLogEntry \<Rightarrow> AuditLogEntry" where
  "sanitizeAuditLogEntry E entry =
     entry\<lparr>ae_Payload := eraseConfigSecrets E (redactSensitiveKeys (redactSecretYamlInPayload E (ae_Payload entry))),
           ae_Result := eraseConfigSecrets E
             (case ae_Result entry of AObj res \<Rightarrow> AObj (redactSecretData (av_hash8 E) res) | r \<Rightarrow> r),
           ae_Diff := EraseSecrets (av_secrets E) (ae_Diff entry),
           ae_Error := EraseSecrets (av_secrets E) (ae_Error entry)\<rparr>"

section \<open>Real-time events\<close>

text \<open>The queue, the events handed to the callback so far (stamped), and the number of
  dropped events.\<close>

record dispatcher =
  dq_queue :: "AuditLogEntry list"
  dq_quit :: bool
  dq_stopped :: bool
  dq_seq :: int
  dq_boot :: string
  dq_delivered :: "AuditLogEntry list"
  dq_dropped :: nat

definition auditEventQueueSize :: nat where "auditEventQueueSize = 256"

definition dispatchAuditEvent :: "AuditLogEntry \<Rightarrow> dispatcher \<Rightarrow> dispatcher" where
  "dispatchAuditEvent entry d =
     (if length (dq_queue d) < auditEventQueueSize then d\<lparr>dq_queue := dq_queue d @ [entry]\<rparr>
      else d\<lparr>dq_dropped := dq_dropped d + 1\<rparr>)"

text \<open>One turn of the worker: it takes the head of the queue, stamps it and calls the
  callback when one is set. The shutdown hook closes the quit channel; the worker's \<open>select\<close>
  may serve some more entries before it takes that branch and returns.\<close>

definition dispatch_turn :: "bool \<Rightarrow> dispatcher \<Rightarrow> dispatcher" where
  "dispatch_turn has_callback d =
     (if dq_stopped d then d
      else case dq_queue d of
             [] \<Rightarrow> d
           | entry # rest \<Rightarrow>
               if has_callback then
                 d\<lparr>dq_queue := rest, dq_seq := dq_seq d + 1,
                   dq_delivered := dq_delivered d @ [entry\<lparr>ae_Seq := dq_seq d + 1, ae_BootId := dq_boot d\<rparr>]\<rparr>
               else d\<lparr>dq_queue := rest\<rparr>)"

definition close_quit :: "dispatcher \<Rightarrow> dispatcher" where
  "close_quit d = d\<lparr>dq_quit := True\<rparr>"

definition worker_returns :: "dispatcher \<Rightarrow> dispatcher" where
  "worker_returns d = (if dq_quit d then d\<lparr>dq_stopped := True\<rparr> else d)"

section \<open>Writing\<close>

definition auditLogIndexKey :: string where "auditLogIndexKey = ''idx:audit-log''"
definition auditLogIndexReadyKey :: string where "auditLogIndexReadyKey = ''idx:audit-log:ready''"
definition auditLogFallbackBucket :: string where "auditLogFallbackBucket = ''_cluster''"

definition addToAuditLogIndex :: "'db aenv \<Rightarrow> int \<Rightarrow> string \<Rightarrow> int \<Rightarrow> 'db \<Rightarrow> 'db" where
  "addToAuditLogIndex E now entryKey createdAt db =
     fst (DoMulti (av_srv E) db
            [ZADD auditLogIndexKey entryKey createdAt,
             ZREMRANGEBYSCORE auditLogIndexKey (now - av_ttl E div 1000000)])"

definition auditLogFromDatagram :: "int \<Rightarrow> Datagram \<Rightarrow> go_any \<Rightarrow> string option \<Rightarrow> AuditLogEntry" where
  "auditLogFromDatagram now dg result err =
     \<lparr>ae_RequestId = dg_Id dg, ae_Pattern = dg_Pattern dg, ae_Kind = [], ae_ApiVersion = [],
      ae_Namespace = [], ae_Name = [], ae_Success = (err = None), ae_Payload = dg_Payload dg,
      ae_Diff = [], ae_Result = result, ae_Error = (case err of None \<Rightarrow> [] | Some e \<Rightarrow> e),
      ae_CreatedAt = (case dg_CreatedAt dg of None \<Rightarrow> now | Some t \<Rightarrow> t),
      ae_User = dg_User dg, ae_Workspace = dg_Workspace dg, ae_Seq = 0, ae_BootId = []\<rparr>"

text \<open>The resource an entry is attributed to: the object when there is one, the fields of the
  payload otherwise, and a manifest in the payload for what is still missing.\<close>

definition attribute_object :: "json \<Rightarrow> AuditLogEntry \<Rightarrow> AuditLogEntry" where
  "attribute_object ref entry =
     entry\<lparr>ae_Namespace := GetNamespace ref, ae_Name := GetName ref, ae_Kind := GetKind ref,
           ae_ApiVersion := GetAPIVersion ref\<rparr>"

definition payload_str :: "(string \<times> json) list \<Rightarrow> string \<Rightarrow> string \<Rightarrow> string" where
  "payload_str fs k old = (case map_of fs k of Some (JStr s) \<Rightarrow> s | _ \<Rightarrow> old)"

definition attribute_payload :: "'db aenv \<Rightarrow> (string \<times> json) list \<Rightarrow> AuditLogEntry \<Rightarrow> AuditLogEntry" where
  "attribute_payload E fs entry =
     (let e1 = entry\<lparr>ae_Namespace := payload_str fs ''namespace'' (ae_Namespace entry),
                     ae_Name := payload_str fs ''pod'' (payload_str fs ''name'' (ae_Name entry)),
                     ae_Kind := payload_str fs ''kind'' (ae_Kind entry),
                     ae_ApiVersion := payload_str fs ''apiVersion'' (ae_ApiVersion entry)\<rparr>
      in if ae_Namespace e1 = [] \<or> ae_Name e1 = [] then
           (case map_of fs ''yamlData'' of
              Some (JStr y) \<Rightarrow>
                (case av_yaml_dec E y of
                   None \<Rightarrow> e1
                 | Some u \<Rightarrow>
                     e1\<lparr>ae_Namespace := (if ae_Namespace e1 = [] then GetNamespace u else ae_Namespace e1),
                        ae_Name := (if ae_Name e1 = [] then GetName u else ae_Name e1),
                        ae_Kind := (if ae_Kind e1 = [] then GetKind u else ae_Kind e1),
                        ae_ApiVersion := (if ae_ApiVersion e1 = [] then GetAPIVersion u else ae_ApiVersion e1)\<rparr>)
            | _ \<Rightarrow> e1)
         else e1)"

definition audit_entry ::
  "'db aenv \<Rightarrow> int \<Rightarrow> Datagram \<Rightarrow> go_any \<Rightarrow> string option \<Rightarrow> json option \<Rightarrow> json option \<Rightarrow> AuditLogEntry" where
  "audit_entry E now dg result err oldObj0 updatedObj0 =
     (let entry0 = auditLogFromDatagram now dg result err;
          oldObj = map_option (redactSecretData (av_hash8 E)) oldObj0;
          updatedObj = map_option (redactSecretData (av_hash8 E)) updatedObj0;
          entry1 = (if oldObj \<noteq> None \<or> updatedObj \<noteq> None then
                      (case av_diff E oldObj updatedObj of
                         None \<Rightarrow> entry0 | Some patch \<Rightarrow> entry0\<lparr>ae_Diff := patch\<rparr>)
                    else entry0);
          entry2 = (case oldObj of
                      Some ref \<Rightarrow> attribute_object ref entry1
                    | None \<Rightarrow>
                        (case updatedObj of
                           Some ref \<Rightarrow> attribute_object ref entry1
                         | None \<Rightarrow>
                             (case PayloadMap E dg of
                                Some fs \<Rightarrow> attribute_payload E fs entry1 | None \<Rightarrow> entry1)))
      in sanitizeAuditLogEntry E entry2)"

definition audit_bucket :: "string \<Rightarrow> AuditLogEntry \<Rightarrow> string list" where
  "audit_bucket pattern entry =
     (if ae_Namespace entry = [] \<and> ae_Name entry = [] then [''audit-log'', auditLogFallbackBucket, pattern]
      else [''audit-log'', ae_Namespace entry, ae_Name entry])"

definition store_entry ::
  "'db aenv \<Rightarrow> int \<Rightarrow> AuditLogEntry \<Rightarrow> string list \<Rightarrow> 'db \<times> dispatcher \<Rightarrow> 'db \<times> dispatcher" where
  "store_entry E now entry bucket s =
     (case SetObjectWithAutoincrementLimit (av_srv E) (av_scan E) (av_enc E) (fst s) entry (av_limit E) (av_ttl E) bucket of
        (db', AutoError) \<Rightarrow> (db', snd s)
      | (db', AutoKey entryKey) \<Rightarrow>
          (addToAuditLogIndex E now entryKey (ae_CreatedAt entry) db', dispatchAuditEvent entry (snd s)))"

definition AddToAuditLog ::
  "'db aenv \<Rightarrow> int \<Rightarrow> Datagram \<Rightarrow> go_any \<Rightarrow> string option \<Rightarrow> json option \<Rightarrow> json option \<Rightarrow> 'db \<times> dispatcher
     \<Rightarrow> ('db \<times> dispatcher) \<times> go_any \<times> string option" where
  "AddToAuditLog E now dg result err oldObj updatedObj s =
     (let entry = audit_entry E now dg result err oldObj updatedObj
      in (store_entry E now entry (audit_bucket (dg_Pattern dg) entry) s, result, err))"

definition AddAiChatAuditLog ::
  "'db aenv \<Rightarrow> int \<Rightarrow> string \<Rightarrow> go_any \<Rightarrow> go_any \<Rightarrow> string \<Rightarrow> User \<Rightarrow> string \<Rightarrow> 'db \<times> dispatcher \<Rightarrow> 'db \<times> dispatcher" where
  "AddAiChatAuditLog E now pattern payload result errStr user workspace s =
     (let entry = sanitizeAuditLogEntry E
            \<lparr>ae_RequestId = [], ae_Pattern = pattern, ae_Kind = [], ae_ApiVersion = [], ae_Namespace = [],
             ae_Name = [], ae_Success = (errStr = []), ae_Payload = payload, ae_Diff = [], ae_Result = result,
             ae_Error = errStr, ae_CreatedAt = now, ae_User = user, ae_Workspace = workspace, ae_Seq = 0, ae_BootId = []\<rparr>
      in store_entry E now entry [''audit-log'', ''ai-chat'', u_Email user] s)"

section \<open>Listing\<close>

definition auditKeyNamespace :: "string \<Rightarrow> string" where
  "auditKeyNamespace key = (let parts = split_on colon key in if length parts < 3 then [] else parts ! 1)"

text \<open>The entries that could be read and the keys that could not.\<close>

fun split_replies :: "(string \<Rightarrow> AuditLogEntry option) \<Rightarrow> (string \<times> vreply) list
    \<Rightarrow> (string \<times> AuditLogEntry) list \<times> string list" where
  "split_replies dec [] = ([], [])"
| "split_replies dec ((k, r) # krs) =
     (let (es, stale) = split_replies dec krs
      in case (case r of RStr raw \<Rightarrow> dec raw | _ \<Rightarrow> None) of
           None \<Rightarrow> (es, k # stale)
         | Some e \<Rightarrow> ((k, e) # es, stale))"

definition mgetAuditEntries ::
  "'db aenv \<Rightarrow> 'db \<Rightarrow> string list \<Rightarrow> 'db \<times> (string \<times> AuditLogEntry) list \<times> string list" where
  "mgetAuditEntries E db keys =
     (if keys = [] then (db, [], [])
      else let (db', rs) = DoMulti (av_srv E) db (map GET keys)
           in (db', split_replies (av_dec E) (zip keys rs)))"

definition removeStaleAuditIndexMembers :: "'db aenv \<Rightarrow> 'db \<Rightarrow> string list \<Rightarrow> 'db" where
  "removeStaleAuditIndexMembers E db stale =
     (if stale = [] then db else fst (av_srv E db (ZREM auditLogIndexKey stale)))"

text \<open>The backfill: entries written before the index existed are added in chunks of 500, once;
  the \<open>entries\<close> map is walked in an arbitrary order. The result is whether the index is
  ready.\<close>

fun flush_chunks :: "'db aenv \<Rightarrow> 'db \<Rightarrow> (string \<times> int) list list \<Rightarrow> 'db \<times> bool" where
  "flush_chunks E db [] = (db, True)"
| "flush_chunks E db (c # cs) =
     (let (db', r) = av_srv E db (ZADDM auditLogIndexKey c)
      in if r = RErr \<or> r = RNil then (db', False) else flush_chunks E db' cs)"

definition ensureAuditLogIndex :: "'db aenv \<Rightarrow> int \<Rightarrow> 'db \<times> bool \<Rightarrow> ('db \<times> bool) \<times> bool" where
  "ensureAuditLogIndex E now s =
     (let (db, ensured) = s
      in if ensured then (s, True)
         else case valkey_Exists (av_srv E) db [auditLogIndexReadyKey] of
                (db1, None) \<Rightarrow> ((db1, False), False)
              | (db1, Some True) \<Rightarrow> ((db1, True), True)
              | (db1, Some False) \<Rightarrow>
                  (case av_scan E db1 ''audit-log:*'' of
                     ScanFailed \<Rightarrow> ((db1, False), False)
                   | Scanned keys \<Rightarrow>
                       (let entryKeys = filter (\<lambda>k. \<not> has_suffix k '':counter'') keys;
                            (db2, entries, stale) = mgetAuditEntries E db1 entryKeys;
                            minScore = now - av_ttl E div 1000000 + 60000;
                            scored = map (\<lambda>(k, e). (k, if ae_CreatedAt e < minScore then minScore else ae_CreatedAt e)) entries;
                            (db3, ok) = flush_chunks E db2 (chunk 500 scored)
                        in if \<not> ok then ((db3, False), False)
                           else let (db4, ok') = valkey_Set (av_srv E) db3 ''1'' 0 [auditLogIndexReadyKey]
                                in ((db4, ok'), ok'))))"

definition payload_matches :: "go_any \<Rightarrow> string \<Rightarrow> bool" where
  "payload_matches payload searchLower =
     (case payload of
        AVal (JObj fs) \<Rightarrow>
          (\<exists>key \<in> set [''name'', ''targetName'', ''kind'', ''namespace''].
             case map_of fs key of Some (JStr val) \<Rightarrow> str_contains (to_lower val) searchLower | _ \<Rightarrow> False)
      | _ \<Rightarrow> False)"

definition auditLogEntryMatchesSearch :: "AuditLogEntry \<Rightarrow> string \<Rightarrow> bool" where
  "auditLogEntryMatchesSearch e searchLower =
     (str_contains (to_lower (ae_Pattern e)) searchLower \<or>
      str_contains (to_lower (ae_Workspace e)) searchLower \<or>
      (str_contains (to_lower (ae_Kind e)) searchLower \<and> ae_Kind e \<noteq> []) \<or>
      (str_contains (to_lower (ae_Namespace e)) searchLower \<and> ae_Namespace e \<noteq> []) \<or>
      (str_contains (to_lower (ae_Name e)) searchLower \<and> ae_Name e \<noteq> []) \<or>
      str_contains (to_lower (u_FirstName (ae_User e))) searchLower \<or>
      str_contains (to_lower (u_LastName (ae_User e))) searchLower \<or>
      str_contains (to_lower (u_Email (ae_User e))) searchLower \<or>
      payload_matches (ae_Payload e) searchLower)"

type_synonym candidate = "string \<times> AuditLogEntry option"

text \<open>Which index members a request may see: all of them cluster-wide; otherwise those of the
  given namespaces, and the AI entries of the given workspace, which are already loaded.\<close>

definition audit_candidate ::
  "bool \<Rightarrow> string \<Rightarrow> string list \<Rightarrow> (string \<times> AuditLogEntry) list \<Rightarrow> string \<Rightarrow> candidate option" where
  "audit_candidate clusterWide workspaceName namespaces aiEntries key =
     (let ns = auditKeyNamespace key
      in if ns = [] then None
         else if clusterWide then Some (key, None)
         else if ns = ''ai-chat'' then
           (case map_of aiEntries key of
              Some entry \<Rightarrow> if workspaceName \<noteq> [] \<and> ae_Workspace entry = workspaceName then Some (key, Some entry) else None
            | None \<Rightarrow> None)
         else if ns \<in> set namespaces then Some (key, None) else None)"

definition maxAuditListEntries :: nat where "maxAuditListEntries = 10000"

definition resolve_candidates :: "(string \<times> AuditLogEntry) list \<Rightarrow> candidate list \<Rightarrow> AuditLogEntry list" where
  "resolve_candidates loaded cs =
     List.map_filter (\<lambda>(key, pre). case pre of Some e \<Rightarrow> Some e | None \<Rightarrow> map_of loaded key) cs"

definition newest_first :: "AuditLogEntry list \<Rightarrow> AuditLogEntry list" where
  "newest_first es = stable_sort (\<lambda>a b. ae_CreatedAt a > ae_CreatedAt b) es"

datatype audit_outcome = AuditRetry | AuditFailed | AuditPanic | AuditPage "AuditLogEntry list" nat

text \<open>\<open>xs[offset:min(offset+limit, len(xs))]\<close> for an offset below the length: \<open>None\<close> is the
  panic of a negative or wrapped bound.\<close>

definition go_page :: "int \<Rightarrow> int \<Rightarrow> 'a list \<Rightarrow> 'a list option" where
  "go_page offset limit xs =
     (let e = min (wrap64 (offset + limit)) (int (length xs))
      in if offset < 0 \<or> e < offset then None else Some (take (nat (e - offset)) (drop (nat offset) xs)))"

text \<open>One attempt of \<open>listAuditLogIndexed\<close>.\<close>

definition list_attempt ::
  "'db aenv \<Rightarrow> int \<Rightarrow> int \<Rightarrow> string list \<Rightarrow> bool \<Rightarrow> string \<Rightarrow> string \<Rightarrow> 'db \<Rightarrow> 'db \<times> audit_outcome" where
  "list_attempt E limit offset namespaces clusterWide workspaceName search db =
     (let (db1, r) = av_srv E db (ZREVRANGE auditLogIndexKey (-1))
      in case as_str_slice r of
           None \<Rightarrow> (db1, AuditFailed)
         | Some members \<Rightarrow>
             (let aiKeys = filter (\<lambda>k. \<not> clusterWide \<and> auditKeyNamespace k = ''ai-chat'' \<and> workspaceName \<noteq> []) members;
                  (db2, aiEntries, staleAi) = mgetAuditEntries E db1 aiKeys;
                  candidates = List.map_filter (audit_candidate clusterWide workspaceName namespaces aiEntries) members
              in if search = [] then
                   (if offset \<ge> int (length candidates) then
                      (removeStaleAuditIndexMembers E db2 staleAi, AuditPage [] (length candidates))
                    else case go_page offset limit candidates of
                           None \<Rightarrow> (db2, AuditPanic)
                         | Some page \<Rightarrow>
                             (let (db3, loaded, stalePage) =
                                    mgetAuditEntries E db2 (map fst (filter (\<lambda>c. snd c = None) page));
                                  db4 = removeStaleAuditIndexMembers E db3 (staleAi @ stalePage)
                              in if stalePage \<noteq> [] then (db4, AuditRetry)
                                 else (db4, AuditPage (newest_first (resolve_candidates loaded page)) (length candidates))))
                 else
                   (let searched = take maxAuditListEntries candidates;
                        (db3, loaded, stalePage) =
                          mgetAuditEntries E db2 (map fst (filter (\<lambda>c. snd c = None) searched));
                        entries = filter (\<lambda>e. auditLogEntryMatchesSearch e (to_lower search)) (resolve_candidates loaded searched);
                        db4 = removeStaleAuditIndexMembers E db3 (staleAi @ stalePage)
                    in if offset \<ge> int (length entries) then (db4, AuditPage [] (length entries))
                       else case go_page offset limit entries of
                              None \<Rightarrow> (db3, AuditPanic)
                            | Some page \<Rightarrow> (db4, AuditPage (newest_first page) (length entries)))))"

fun list_attempts ::
  "nat \<Rightarrow> 'db aenv \<Rightarrow> int \<Rightarrow> int \<Rightarrow> string list \<Rightarrow> bool \<Rightarrow> string \<Rightarrow> string \<Rightarrow> 'db \<Rightarrow> 'db \<times> audit_outcome" where
  "list_attempts 0 E limit offset namespaces clusterWide workspaceName search db = (db, AuditFailed)"
| "list_attempts (Suc n) E limit offset namespaces clusterWide workspaceName search db =
     (case list_attempt E limit offset namespaces clusterWide workspaceName search db of
        (db', AuditRetry) \<Rightarrow> list_attempts n E limit offset namespaces clusterWide workspaceName search db'
      | (db', out) \<Rightarrow> (db', out))"

definition listAuditLogIndexed ::
  "'db aenv \<Rightarrow> int \<Rightarrow> int \<Rightarrow> int \<Rightarrow> string list \<Rightarrow> bool \<Rightarrow> string \<Rightarrow> string \<Rightarrow> 'db \<times> bool \<Rightarrow> ('db \<times> bool) \<times> audit_outcome" where
  "listAuditLogIndexed E now limit offset namespaces clusterWide workspaceName search s =
     (case ensureAuditLogIndex E now s of
        (s1, False) \<Rightarrow> (s1, AuditFailed)
      | ((db1, ens), True) \<Rightarrow>
          (let (db2, out) = list_attempts 3 E limit offset namespaces clusterWide workspaceName search db1
           in ((db2, ens), out)))"

text \<open>The scan path.\<close>

definition scan_entries ::
  "'db aenv \<Rightarrow> string list \<Rightarrow> bool \<Rightarrow> string \<Rightarrow> 'db \<Rightarrow> 'db \<times> AuditLogEntry list option" where
  "scan_entries E namespaces clusterWide workspaceName db =
     (case GetObjectsByPrefixWithSizeAndNs (av_srv E) (av_scan E) (av_dec E) db (int maxAuditListEntries) 0
             namespaces clusterWide [''audit-log''] of
        (db1, Sized allEntries n) \<Rightarrow>
          if clusterWide then (db1, Some allEntries)
          else (case GetObjectsByPrefixWithSizeAndNs (av_srv E) (av_scan E) (av_dec E) db1 (int maxAuditListEntries) 0
                       [] True [''audit-log'', ''ai-chat''] of
                  (db2, Sized aiEntries m) \<Rightarrow>
                    (db2, Some (allEntries @ filter (\<lambda>e. workspaceName \<noteq> [] \<and> ae_Workspace e = workspaceName) aiEntries))
                | (db2, _) \<Rightarrow> (db2, None))
      | (db1, _) \<Rightarrow> (db1, None))"

definition listAuditLogScan ::
  "'db aenv \<Rightarrow> int \<Rightarrow> int \<Rightarrow> string list \<Rightarrow> bool \<Rightarrow> string \<Rightarrow> string \<Rightarrow> 'db \<Rightarrow> 'db \<times> audit_outcome" where
  "listAuditLogScan E limit offset namespaces clusterWide workspaceName search db =
     (case scan_entries E namespaces clusterWide workspaceName db of
        (db1, None) \<Rightarrow> (db1, AuditFailed)
      | (db1, Some allEntries) \<Rightarrow>
          (let filtered = (if search \<noteq> [] then filter (\<lambda>e. auditLogEntryMatchesSearch e (to_lower search)) allEntries
                           else allEntries);
               ordered = newest_first filtered
           in if offset \<ge> int (length ordered) then (db1, AuditPage [] (length ordered))
              else case go_page offset limit ordered of
                     None \<Rightarrow> (db1, AuditPanic)
                   | Some page \<Rightarrow> (db1, AuditPage page (length ordered))))"

definition ListAuditLog ::
  "'db aenv \<Rightarrow> int \<Rightarrow> int \<Rightarrow> int \<Rightarrow> string list \<Rightarrow> bool \<Rightarrow> string \<Rightarrow> string \<Rightarrow> 'db \<times> bool \<Rightarrow> ('db \<times> bool) \<times> audit_outcome" where
  "ListAuditLog E now limit0 offset namespaces clusterWide workspaceName search s =
     (let limit = (if limit0 \<le> 0 then 100 else limit0)
      in case listAuditLogIndexed E now limit offset namespaces clusterWide workspaceName search s of
           ((db1, ens), AuditFailed) \<Rightarrow>
             (let (db2, out) = listAuditLogScan E limit offset namespaces clusterWide workspaceName search db1
              in ((db2, ens), out))
         | (s1, out) \<Rightarrow> (s1, out))"

section \<open>Redaction lemmas\<close>

text \<open>No credential-carrying key holds a readable string, at any depth.\<close>

fun credentials_hidden :: "json \<Rightarrow> bool" where
  "credentials_hidden (JObj fs) =
     list_all (\<lambda>kv. (to_lower (fst kv) \<in> set sensitiveAuditPayloadKeys \<longrightarrow> str_of (snd kv) \<in> {[], REDACTED}) \<and>
                     credentials_hidden (snd kv)) fs"
| "credentials_hidden (JArr vs) = list_all credentials_hidden vs"
| "credentials_hidden v = True"

lemma str_of_redact_json: "str_of (redact_json v) = str_of v"
  by (cases v) (auto simp: str_of_def)

lemma redact_json_hides: "credentials_hidden (redact_json v)"
proof (induction v rule: redact_json.induct)
  case (1 fs)
  then show ?case by (auto simp: list_all_iff str_of_redact_json) (auto simp: str_of_def)
qed (auto simp: list_all_iff)

lemma redact_json_id: "credentials_hidden v \<Longrightarrow> redact_json v = v"
proof (induction v rule: redact_json.induct)
  case (1 fs)
  have "(fst kv, if to_lower (fst kv) \<in> set sensitiveAuditPayloadKeys \<and> str_of (snd kv) \<noteq> []
           then JStr REDACTED else redact_json (snd kv)) = kv" if "kv \<in> set fs" for kv
  proof (cases "to_lower (fst kv) \<in> set sensitiveAuditPayloadKeys \<and> str_of (snd kv) \<noteq> []")
    case True
    then have "snd kv = JStr REDACTED"
      using 1(2) that by (auto simp: list_all_iff str_of_def split: json.splits)
    with True show ?thesis by (cases kv) simp
  next
    case False
    then have "redact_json (snd kv) = snd kv" using 1(1) [OF that] 1(2) that by (auto simp: list_all_iff)
    with False show ?thesis by (cases kv) auto
  qed
  then have "map (\<lambda>kv. (fst kv, if to_lower (fst kv) \<in> set sensitiveAuditPayloadKeys \<and> str_of (snd kv) \<noteq> []
           then JStr REDACTED else redact_json (snd kv))) fs = fs" by (rule map_idI)
  then show ?case by simp
next
  case (2 vs)
  then show ?case by (auto simp: list_all_iff intro!: map_idI)
qed auto

section \<open>Where listed entries come from\<close>

lemma DoMulti_reply: "r \<in> set (zip cs (snd (DoMulti srv db cs))) \<Longrightarrow> \<exists>d. snd r = snd (srv d (fst r))"
proof (induction cs arbitrary: db)
  case (Cons c cs)
  then show ?case by (auto simp: DoMulti_Cons)
qed simp

text \<open>\<open>read_from E key e\<close>: at some moment the server answered a read of \<open>key\<close> with \<open>e\<close>.\<close>

definition read_from :: "'db aenv \<Rightarrow> string \<Rightarrow> AuditLogEntry \<Rightarrow> bool" where
  "read_from E key e \<longleftrightarrow> (\<exists>d raw. snd (av_srv E d (GET key)) = RStr raw \<and> av_dec E raw = Some e)"

lemma split_replies_elem:
  "(k, e) \<in> set (fst (split_replies dec krs)) \<Longrightarrow> \<exists>raw. (k, RStr raw) \<in> set krs \<and> dec raw = Some e"
  by (induction dec krs rule: split_replies.induct)
    (auto simp: Let_def case_prod_unfold split: option.splits vreply.splits)

lemma mget_read_from:
  assumes "mgetAuditEntries E db keys = (db', loaded, stale)" "(k, e) \<in> set loaded"
  shows "read_from E k e \<and> k \<in> set keys"
proof -
  obtain d rs where d: "DoMulti (av_srv E) db (map GET keys) = (d, rs)" by fastforce
  have "keys \<noteq> []" using assms by (auto simp: mgetAuditEntries_def)
  then have "loaded = fst (split_replies (av_dec E) (zip keys rs))"
    using assms d by (simp add: mgetAuditEntries_def prod_eq_iff)
  with split_replies_elem assms(2) obtain raw where raw: "(k, RStr raw) \<in> set (zip keys rs)" "av_dec E raw = Some e"
    by metis
  then have "(GET k, RStr raw) \<in> set (zip (map GET keys) rs)" by (force simp: zip_map1)
  from DoMulti_reply [of "(GET k, RStr raw)" "map GET keys" "av_srv E" db] this d raw show ?thesis
    by (auto simp: read_from_def dest: set_zip_leftD) metis
qed

text \<open>What a request may see.\<close>

definition audit_visible :: "bool \<Rightarrow> string \<Rightarrow> string list \<Rightarrow> string \<Rightarrow> AuditLogEntry \<Rightarrow> bool" where
  "audit_visible clusterWide workspaceName namespaces key e \<longleftrightarrow>
     clusterWide \<or>
     (if auditKeyNamespace key = ''ai-chat'' then workspaceName \<noteq> [] \<and> ae_Workspace e = workspaceName
      else auditKeyNamespace key \<in> set namespaces)"

lemma candidate_visible:
  assumes "audit_candidate cw ws nss ai key = Some c"
  shows "fst c = key \<and> (case snd c of
      None \<Rightarrow> cw \<or> (auditKeyNamespace key \<noteq> ''ai-chat'' \<and> auditKeyNamespace key \<in> set nss)
    | Some e \<Rightarrow> map_of ai key = Some e \<and> audit_visible cw ws nss key e)"
  using assms by (auto simp: audit_candidate_def audit_visible_def Let_def split: if_splits option.splits)

lemma resolve_visible:
  assumes ai: "\<forall>(k, e) \<in> set ai. read_from E k e" and ld: "\<forall>(k, e) \<in> set loaded. read_from E k e"
    and cs: "set cs \<subseteq> set (List.map_filter (audit_candidate cw ws nss ai) members)"
    and e: "e \<in> set (resolve_candidates loaded cs)"
  shows "\<exists>key \<in> set members. read_from E key e \<and> audit_visible cw ws nss key e"
proof -
  obtain key pre where c: "(key, pre) \<in> set cs" "(case pre of Some e \<Rightarrow> Some e | None \<Rightarrow> map_of loaded key) = Some e"
    using e by (auto simp: resolve_candidates_def List.map_filter_def)
  then obtain m where m: "m \<in> set members" "audit_candidate cw ws nss ai m = Some (key, pre)"
    using cs by (force simp: List.map_filter_def)
  note v = candidate_visible [OF m(2)]
  show ?thesis
  proof (cases pre)
    case None
    with c have "read_from E key e" using ld by (auto dest: map_of_SomeD)
    with None v m show ?thesis by (auto simp: audit_visible_def)
  next
    case (Some e')
    with c v have "map_of ai m = Some e" "audit_visible cw ws nss m e" by auto
    with ai m(1) show ?thesis by (auto dest: map_of_SomeD)
  qed
qed

lemma go_page_subset: "go_page offset limit xs = Some page \<Longrightarrow> set page \<subseteq> set xs"
  by (auto simp: go_page_def Let_def split: if_splits dest!: in_set_takeD in_set_dropD)

lemma set_newest_first [simp]: "set (newest_first es) = set es"
  by (simp add: newest_first_def)

lemma attempt_visible:
  assumes "list_attempt E limit offset nss cw ws search db = (db', AuditPage es n)" "e \<in> set es"
  shows "\<exists>key. read_from E key e \<and> audit_visible cw ws nss key e"
proof -
  obtain db1 r where r: "av_srv E db (ZREVRANGE auditLogIndexKey (-1)) = (db1, r)" by fastforce
  then obtain members where mem: "as_str_slice r = Some members"
    using assms(1) by (auto simp: list_attempt_def split: option.splits)
  define aiKeys where "aiKeys = filter (\<lambda>k. \<not> cw \<and> auditKeyNamespace k = ''ai-chat'' \<and> ws \<noteq> []) members"
  obtain db2 ai staleAi where ai: "mgetAuditEntries E db1 aiKeys = (db2, ai, staleAi)" by (metis prod_cases3)
  define cands where "cands = List.map_filter (audit_candidate cw ws nss ai) members"
  have ai_ok: "\<forall>(k, e) \<in> set ai. read_from E k e" using mget_read_from [OF ai] by blast
  show ?thesis
  proof (cases "search = []")
    case True
    with assms obtain page where pg: "go_page offset limit cands = Some page"
      by (cases "go_page offset limit cands") (auto simp: list_attempt_def r mem Let_def ai [unfolded aiKeys_def] cands_def [symmetric] split: if_splits)
    obtain db3 ld st where ld: "mgetAuditEntries E db2 (map fst (filter (\<lambda>c. snd c = None) page)) = (db3, ld, st)"
      by (metis prod_cases3)
    have "es = newest_first (resolve_candidates ld page)"
      using assms True pg ld
      by (auto simp: list_attempt_def r mem Let_def ai [unfolded aiKeys_def] cands_def [symmetric] split: if_splits)
    with assms(2) have e: "e \<in> set (resolve_candidates ld page)" by simp
    have "\<forall>(k, e) \<in> set ld. read_from E k e" using mget_read_from [OF ld] by blast
    from resolve_visible [OF ai_ok this go_page_subset [OF pg, unfolded cands_def] e] show ?thesis by blast
  next
    case False
    define srch where "srch = take maxAuditListEntries cands"
    obtain db3 ld st where ld: "mgetAuditEntries E db2 (map fst (filter (\<lambda>c. snd c = None) srch)) = (db3, ld, st)"
      by (metis prod_cases3)
    define found where "found = filter (\<lambda>e. auditLogEntryMatchesSearch e (to_lower search)) (resolve_candidates ld srch)"
    obtain page where pg: "go_page offset limit found = Some page" "es = newest_first page"
      using assms False ld
      by (cases "go_page offset limit found")
        (auto simp: list_attempt_def r mem Let_def ai [unfolded aiKeys_def] cands_def [symmetric] srch_def [symmetric]
          found_def [symmetric] split: if_splits)
    then have e: "e \<in> set (resolve_candidates ld srch)" using assms(2) go_page_subset [OF pg(1)] by (auto simp: found_def)
    have sub: "set srch \<subseteq> set (List.map_filter (audit_candidate cw ws nss ai) members)"
      by (auto simp: srch_def cands_def dest: in_set_takeD)
    have "\<forall>(k, e) \<in> set ld. read_from E k e" using mget_read_from [OF ld] by blast
    from resolve_visible [OF ai_ok this sub e] show ?thesis by blast
  qed
qed

lemma attempts_visible:
  "list_attempts m E limit offset nss cw ws search db = (db', AuditPage es n) \<Longrightarrow> e \<in> set es \<Longrightarrow>
   \<exists>key. read_from E key e \<and> audit_visible cw ws nss key e"
proof (induction m arbitrary: db)
  case (Suc m)
  then show ?case by (auto split: prod.splits audit_outcome.splits intro: attempt_visible)
qed simp

section \<open>The dispatcher\<close>

definition dispatcher_init :: "string \<Rightarrow> dispatcher" where
  "dispatcher_init boot = \<lparr>dq_queue = [], dq_quit = False, dq_stopped = False, dq_seq = 0, dq_boot = boot,
     dq_delivered = [], dq_dropped = 0\<rparr>"

text \<open>Runs of writers, worker and shutdown hook in any interleaving, with the list of all entries
  written so far.\<close>

inductive disp_reach :: "string \<Rightarrow> AuditLogEntry list \<Rightarrow> dispatcher \<Rightarrow> bool" for boot :: string where
  start: "disp_reach boot [] (dispatcher_init boot)"
| written: "disp_reach boot ws d \<Longrightarrow> disp_reach boot (ws @ [e]) (dispatchAuditEvent e d)"
| turn: "disp_reach boot ws d \<Longrightarrow> disp_reach boot ws (dispatch_turn cb d)"
| quit: "disp_reach boot ws d \<Longrightarrow> disp_reach boot ws (close_quit d)"
| stop: "disp_reach boot ws d \<Longrightarrow> disp_reach boot ws (worker_returns d)"

definition unstamped :: "AuditLogEntry \<Rightarrow> AuditLogEntry" where
  "unstamped e = e\<lparr>ae_Seq := 0, ae_BootId := []\<rparr>"

definition disp_inv :: "string \<Rightarrow> AuditLogEntry list \<Rightarrow> dispatcher \<Rightarrow> bool" where
  "disp_inv boot ws d \<longleftrightarrow>
     length (dq_queue d) \<le> auditEventQueueSize \<and> dq_boot d = boot \<and>
     map ae_Seq (dq_delivered d) = map (\<lambda>i. int i + 1) [0..<length (dq_delivered d)] \<and>
     dq_seq d = int (length (dq_delivered d)) \<and>
     list_all (\<lambda>e. ae_BootId e = boot) (dq_delivered d) \<and>
     subseq (map unstamped (dq_delivered d @ dq_queue d)) (map unstamped ws)"

lemma unstamped_stamp [simp]: "unstamped (e\<lparr>ae_Seq := n, ae_BootId := b\<rparr>) = unstamped e"
  by (simp add: unstamped_def)

lemma subseq_snoc: "subseq xs ys \<Longrightarrow> subseq (xs @ [x]) (ys @ [x])"
  by (simp add: subseq_append_iff) (metis list_emb.intros(1) list_emb_append_mono subseq_order.order_refl)

lemma disp_inv_turn:
  assumes "disp_inv boot ws d"
  shows "disp_inv boot ws (dispatch_turn cb d)"
proof (cases "dq_stopped d \<or> dq_queue d = []")
  case False
  then obtain e q where q: "dq_queue d = e # q" by (cases "dq_queue d") auto
  have sub: "subseq (map unstamped (dq_delivered d) @ map unstamped q) (map unstamped ws)"
  proof -
    have "subseq (map unstamped (dq_delivered d) @ map unstamped q)
        (map unstamped (dq_delivered d) @ unstamped e # map unstamped q)"
      by (rule list_emb_append_mono [OF subseq_order.order_refl]) (rule list_emb_Cons [OF subseq_order.order_refl])
    also have "subseq \<dots> (map unstamped ws)" using assms q by (simp add: disp_inv_def)
    finally show ?thesis .
  qed
  from False q assms sub show ?thesis
    by (auto simp: disp_inv_def dispatch_turn_def)
qed (use assms in \<open>auto simp: dispatch_turn_def\<close>)

lemma disp_inv_write:
  assumes "disp_inv boot ws d"
  shows "disp_inv boot (ws @ [e]) (dispatchAuditEvent e d)"
proof -
  have s: "subseq (map unstamped (dq_delivered d @ dq_queue d)) (map unstamped ws)"
    using assms by (simp add: disp_inv_def)
  have "subseq (map unstamped (dq_delivered d @ dq_queue d) @ [unstamped e]) (map unstamped ws @ [unstamped e])"
    by (rule subseq_snoc [OF s])
  moreover have "subseq (map unstamped (dq_delivered d @ dq_queue d)) (map unstamped ws @ [unstamped e])"
    using s by (rule subseq_order.trans) (rule list_emb_prefix [OF subseq_order.order_refl])
  ultimately show ?thesis
    using assms by (auto simp: disp_inv_def dispatchAuditEvent_def auditEventQueueSize_def)
qed

lemma disp_reach_inv: "disp_reach boot ws d \<Longrightarrow> disp_inv boot ws d"
proof (induction rule: disp_reach.induct)
  case start
  then show ?case by (simp add: disp_inv_def dispatcher_init_def)
next
  case (quit ws d)
  then show ?case by (simp add: disp_inv_def close_quit_def)
next
  case (stop ws d)
  then show ?case by (simp add: disp_inv_def worker_returns_def)
qed (auto intro: disp_inv_write disp_inv_turn)

section \<open>The cluster-wide list\<close>

lemma split_replies_all:
  assumes "\<forall>k \<in> set ks. \<exists>v. f k = Some v \<and> dec v \<noteq> None"
  shows "split_replies dec (zip ks (map (\<lambda>k. case f k of None \<Rightarrow> RNil | Some v \<Rightarrow> RStr v) ks))
    = (map (\<lambda>k. (k, the (dec (the (f k))))) ks, [])"
  using assms by (induction ks) (auto simp: Let_def)

lemma go_page_slice:
  assumes "0 \<le> offset" "0 < limit" "offset + limit < 2 ^ 63" "offset < int (length xs)"
  shows "go_page offset limit xs = Some (take (nat limit) (drop (nat offset) xs))"
proof -
  have "wrap64 (offset + limit) = offset + limit" using assms by (intro wrap64_id) auto
  then show ?thesis
    using assms by (cases "offset + limit \<le> int (length xs)") (auto simp: go_page_def Let_def min_def nat_diff_distrib)
qed

lemma map_filter_Some: "List.map_filter (\<lambda>x. Some (f x)) xs = map f xs"
  by (simp add: List.map_filter_def)

lemma map_filter_cong: "(\<And>x. x \<in> set xs \<Longrightarrow> f x = g x) \<Longrightarrow> List.map_filter f xs = List.map_filter g xs"
  by (induction xs) (auto simp: map_filter_simps split: option.splits)

context valkey_server
begin

lemma cluster_attempt:
  assumes E: "av_srv E = srv" and ok: "reads_ok srv db" and rng: "0 \<le> offset" "0 < limit" "offset + limit < 2 ^ 63"
    and live: "\<forall>k \<in> fst ` set (zlist db auditLogIndexKey). auditKeyNamespace k \<noteq> [] \<and>
        (\<exists>v. strs db k = Some v \<and> av_dec E v \<noteq> None)"
  shows "list_attempt E limit offset nss True ws [] db
    = (db, AuditPage (newest_first (map (\<lambda>k. the (av_dec E (the (strs db k))))
             (take (nat limit) (drop (nat offset) (map fst (rev (zlist db auditLogIndexKey)))))))
           (length (zlist db auditLogIndexKey)))"
proof -
  define ms where "ms = map fst (rev (zlist db auditLogIndexKey))"
  have r: "srv db (ZREVRANGE auditLogIndexKey (-1)) = (db, RStrs ms)"
    using do_read [of "ZREVRANGE auditLogIndexKey (-1)" db] zrevrange_all_reply [of db auditLogIndexKey] ok
    by (auto simp: reads_ok_def ms_def dest: spec [of _ "ZREVRANGE auditLogIndexKey (-1)"])
  have live': "\<forall>k \<in> set ms. auditKeyNamespace k \<noteq> [] \<and> (\<exists>v. strs db k = Some v \<and> av_dec E v \<noteq> None)"
    using live by (simp add: ms_def)
  have "List.map_filter (audit_candidate True ws nss []) ms = List.map_filter (\<lambda>k. Some (k, None)) ms"
    by (rule map_filter_cong) (use live' in \<open>simp add: audit_candidate_def Let_def\<close>)
  then have cands: "List.map_filter (audit_candidate True ws nss []) ms = map (\<lambda>k. (k, None)) ms"
    by (simp add: map_filter_Some)
  have len: "length ms = length (zlist db auditLogIndexKey)" by (simp add: ms_def)
  show ?thesis
  proof (cases "offset \<ge> int (length ms)")
    case True
    then show ?thesis
      by (simp add: list_attempt_def E r mgetAuditEntries_def cands removeStaleAuditIndexMembers_def Let_def
          newest_first_def ms_def [symmetric] len [symmetric])
  next
    case False
    let ?page = "take (nat limit) (drop (nat offset) ms)"
    have pg: "go_page offset limit (map (\<lambda>k. (k, None)) ms) = Some (map (\<lambda>k. (k, None :: AuditLogEntry option)) ?page)"
      using go_page_slice [OF rng, of "map (\<lambda>k. (k, None)) ms"] False by (simp add: take_map drop_map)
    have sub: "set ?page \<subseteq> set ms" by (auto dest: in_set_takeD in_set_dropD)
    have mg: "mgetAuditEntries E db ?page = (db, map (\<lambda>k. (k, the (av_dec E (the (strs db k))))) ?page, [])"
    proof (cases "?page = []")
      case nonempty: False
      have "\<forall>k \<in> set ?page. \<exists>v. strs db k = Some v \<and> av_dec E v \<noteq> None" using live' sub by blast
      from split_replies_all [OF this] nonempty show ?thesis
        by (simp add: mgetAuditEntries_def E DoMulti_gets [OF ok])
    qed (simp add: mgetAuditEntries_def)
    have res: "resolve_candidates (map (\<lambda>k. (k, the (av_dec E (the (strs db k))))) ks) (map (\<lambda>k. (k, None)) ks)
        = map (\<lambda>k. the (av_dec E (the (strs db k)))) ks" for ks
    proof -
      have "map_of (map (\<lambda>k. (k, the (av_dec E (the (strs db k))))) ks) k = Some (the (av_dec E (the (strs db k))))"
        if "k \<in> set ks" for k
        using that by (auto simp: map_of_map_restrict)
      then have "List.map_filter (map_of (map (\<lambda>k. (k, the (av_dec E (the (strs db k))))) ks)) ks
          = List.map_filter (\<lambda>k. Some (the (av_dec E (the (strs db k))))) ks" by (intro map_filter_cong)
      then show ?thesis
        by (simp add: resolve_candidates_def List.map_filter_def filter_map comp_def)
    qed
    have flt: "map fst (filter (\<lambda>c. snd c = None) (map (\<lambda>k. (k, None :: AuditLogEntry option)) ks)) = ks"
      "map fst (map (\<lambda>k. (k, None :: AuditLogEntry option)) ks) = ks" for ks :: "string list"
      by (induction ks) auto
    show ?thesis
      unfolding list_attempt_def E r
      using False by (simp add: mgetAuditEntries_def [of _ _ "[]"] cands pg flt mg res Let_def removeStaleAuditIndexMembers_def
          ms_def [symmetric] len [symmetric] del: map_map)
  qed
qed

end

text \<open>Without namespaces, the read by prefix does not filter.\<close>

lemma prefix_without_namespaces:
  "GetObjectsByPrefixWithSizeAndNs srv scan dec d limit offset [] False ks
     = GetObjectsByPrefixWithSizeAndNs srv scan dec d limit offset [] True ks"
  unfolding GetObjectsByPrefixWithSizeAndNs_def by (cases "scan d (createKey ks @ ''*'')") (simp_all add: Let_def)

text \<open>Attribution and the diff leave the payload alone.\<close>

lemma attribute_payload_Payload: "ae_Payload (attribute_payload E fs e) = ae_Payload e"
  by (simp add: attribute_payload_def Let_def split: option.split json.split)

lemma attribute_object_Payload: "ae_Payload (attribute_object ref e) = ae_Payload e"
  by (simp add: attribute_object_def)

lemma audit_entry_payload:
  "ae_Payload (audit_entry E now dg result err oldObj updatedObj)
     = eraseConfigSecrets E (redactSensitiveKeys (redactSecretYamlInPayload E (dg_Payload dg)))"
proof -
  define e1 where "e1 = (if map_option (redactSecretData (av_hash8 E)) oldObj \<noteq> None \<or>
      map_option (redactSecretData (av_hash8 E)) updatedObj \<noteq> None then
        (case av_diff E (map_option (redactSecretData (av_hash8 E)) oldObj) (map_option (redactSecretData (av_hash8 E)) updatedObj) of
           None \<Rightarrow> auditLogFromDatagram now dg result err
         | Some patch \<Rightarrow> (auditLogFromDatagram now dg result err)\<lparr>ae_Diff := patch\<rparr>)
      else auditLogFromDatagram now dg result err)"
  have e1: "ae_Payload e1 = dg_Payload dg"
    by (simp add: e1_def auditLogFromDatagram_def split: option.split)
  show ?thesis
    unfolding audit_entry_def Let_def e1_def [symmetric]
    by (cases oldObj; cases updatedObj; cases "PayloadMap E dg")
      (simp_all add: sanitizeAuditLogEntry_def attribute_payload_Payload attribute_object_Payload e1)
qed

section \<open>Properties\<close>

text \<open>No readable credential survives in a decoded payload: after \<open>redactSensitiveKeys\<close> every
  string under a credential-carrying key, in any letter case and at any depth, is empty or the
  placeholder, and redacting twice is redacting once.\<close>

lemma redactSensitiveKeys_hides:
  "\<exists>w. redactSensitiveKeys (AVal v) = AVal w \<and> credentials_hidden w \<and>
       redactSensitiveKeys (AVal w) = AVal w"
  by (simp add: redactSensitiveKeys_def redact_json_hides redact_json_id)

text \<open>Raw payloads are stored as they came: a request whose payload is still raw JSON, which
  is how every request off the socket arrives, keeps its payload byte for byte in the audit
  entry unless an operator secret occurs in it: neither the credential keys nor a Secret
  manifest in it are redacted.\<close>

lemma raw_payload_bypasses_redaction:
  assumes "dg_Payload dg = ARaw raw" and "av_marshal E (ARaw raw) = Some body"
    and "EraseSecrets (av_secrets E) body = body"
  shows "ae_Payload (audit_entry E now dg result err oldObj updatedObj) = ARaw raw"
  using assms
  by (simp add: audit_entry_payload redactSecretYamlInPayload_def redactSensitiveKeys_def eraseConfigSecrets_def)

definition demo_aenv :: "mem_db aenv" where
  "demo_aenv = \<lparr>av_srv = mem_do, av_scan = (\<lambda>_ _. Scanned []), av_enc = (\<lambda>e. Some (ae_Pattern e)),
     av_dec = (\<lambda>s. Some \<lparr>ae_RequestId = [], ae_Pattern = s, ae_Kind = [], ae_ApiVersion = [], ae_Namespace = [],
       ae_Name = [], ae_Success = True, ae_Payload = ANil, ae_Diff = [], ae_Result = ANil, ae_Error = [],
       ae_CreatedAt = 7, ae_User = \<lparr>u_FirstName = [], u_LastName = [], u_Email = [], u_Source = []\<rparr>, ae_Workspace = ''ws'',
       ae_Seq = 0, ae_BootId = []\<rparr>),
     av_marshal = (\<lambda>a. case a of ARaw r \<Rightarrow> Some r | _ \<Rightarrow> None), av_unmarshal = (\<lambda>_. None), av_yaml_dec = (\<lambda>_. None),
     av_yaml_enc = (\<lambda>_. None), av_diff = (\<lambda>_ _. None), av_hash8 = (\<lambda>_. ''00000000''),
     av_secrets = \<lparr>configSecrets = NewHashSet, secretPattern = None\<rparr>, av_limit = 100, av_ttl = 0\<rparr>"

definition demo_dg :: Datagram where
  "demo_dg = \<lparr>dg_Id = ''1'', dg_Pattern = ''cluster/helm-repo-add'', dg_Payload = ARaw ''{password: pw}'',
     dg_CreatedAt = Some 5, dg_User = \<lparr>u_FirstName = [], u_LastName = [], u_Email = [], u_Source = []\<rparr>, dg_Workspace = ''ws''\<rparr>"

text \<open>A Secret leaves no value behind: in the copy of a Secret used for the diff, every value
  under \<open>data\<close> and \<open>stringData\<close> is the placeholder made from its hash, the keys and every
  other field are as they were.\<close>

lemma redactSecretData_hides:
  assumes "GetKind (JObj fs) = ''Secret''"
  shows "nested (redactSecretData hash8 (JObj fs)) [f] =
    (case nested (JObj fs) [f] of
       Some (JObj vs) \<Rightarrow>
         if f = ''data'' \<or> f = ''stringData''
         then Some (JObj (map (\<lambda>(k, v). (k, JStr (redactedValuePlaceholder hash8 (str_of v)))) vs))
         else Some (JObj vs)
     | other \<Rightarrow> other)"
  using assms
  by (auto simp: redactSecretData_def redact_field_def set_field_def split: option.splits json.splits)


definition audit_db :: mem_db where
  "audit_db = \<lparr>m_strs = [(''audit-log:prod:web:1'', ''update'')],
     m_zsets = [(''idx:audit-log'', [(''audit-log:prod:web:1'', 7)])], m_sets = []\<rparr>"

lemma audit_db_page:
  "snd (listAuditLogIndexed demo_aenv 9 10 0 [''prod''] False ''ws'' [] (audit_db, True))
     = AuditPage [the (av_dec demo_aenv ''update'')] 1"
  by code_simp


text \<open>The scan fallback has no such guarantee: for a workspace without namespaces it starts
  from every entry of the cluster, so everything a cluster-wide list would show is in it.\<close>

lemma audit_scan_leaks_without_namespaces:
  assumes "scan_entries E [] False workspaceName db = (db', Some es)"
  shows "\<exists>db1 all. scan_entries E [] True workspaceName db = (db1, Some all) \<and> set all \<subseteq> set es"
  using assms
  by (auto simp: scan_entries_def prefix_without_namespaces split: prod.splits sized_result.splits)

definition scan_aenv :: "mem_db aenv" where
  "scan_aenv = demo_aenv\<lparr>av_scan := (\<lambda>_ p. Scanned (if p = ''audit-log*'' then [''audit-log:prod:web:1''] else []))\<rparr>"

text \<open>The cluster-wide list is the requested slice of the time-ordered index: with the index
  ready and every member readable, a list request returns the entries of the requested slice,
  newest first, and the number of all entries, on the first attempt and without touching the
  database.\<close>

lemma audit_list_cluster_page:
  assumes "valkey_server (av_srv E) strs zlist sset" and "reads_ok (av_srv E) db"
    and "0 \<le> offset" and "0 < limit" and "offset + limit < 2 ^ 63"
    and "\<forall>k \<in> fst ` set (zlist db auditLogIndexKey). auditKeyNamespace k \<noteq> [] \<and>
        (\<exists>v. strs db k = Some v \<and> av_dec E v \<noteq> None)"
  shows "ListAuditLog E now limit offset namespaces True workspaceName [] (db, True)
    = ((db, True), AuditPage (newest_first (map (\<lambda>k. the (av_dec E (the (strs db k))))
             (take (nat limit) (drop (nat offset) (map fst (rev (zlist db auditLogIndexKey)))))))
           (length (zlist db auditLogIndexKey)))"
  using valkey_server.cluster_attempt [OF assms(1) refl assms(2-6)] assms(4)
  by (simp add: ListAuditLog_def listAuditLogIndexed_def ensureAuditLogIndex_def eval_nat_numeral)

text \<open>Real-time events keep their order and are numbered without gaps: in every interleaving
  of writers, worker and shutdown, the events delivered so far followed by those still queued
  are a subsequence of the entries in the order they were written, the delivered ones carry
  the numbers 1, 2, 3, ... and the identity of the process run, and the queue never exceeds
  its bound.\<close>

lemma dispatcher_order:
  assumes "disp_reach boot ws d"
  shows "length (dq_queue d) \<le> auditEventQueueSize \<and>
    map ae_Seq (dq_delivered d) = map (\<lambda>i. int i + 1) [0..<length (dq_delivered d)] \<and>
    list_all (\<lambda>e. ae_BootId e = boot) (dq_delivered d) \<and>
    subseq (map unstamped (dq_delivered d @ dq_queue d)) (map unstamped ws)"
  using disp_reach_inv [OF assms] by (simp add: disp_inv_def)

end
