(* ===== verification/Reconciler.thy ===== *)
theory Reconciler
  imports StoreIndex
begin

text \<open>
  The generic reconciler of \<open>reconciler/reconciler.go\<close> and its object cache
  (\<open>reconciler/cache.go\<close>).

  The reconciler is a state machine: watch callbacks, handler completions, the background
  sweep and the stages of \<open>Start\<close> and \<open>Stop\<close> interleave in any order. A callback that has
  updated the cache waits at the \<open>select\<close> of \<open>callHandler\<close> until it gets a slot or its context
  is done; a handler is in flight from then until its result is recorded. What a handler
  decides is not fixed here: a completion carries an arbitrary list of results. The goroutines
  of one sweep wait side by side here, where the code queues them one after the other, so the
  model has every order of the code and more. \<open>Start\<close> is called when the previous \<open>Stop\<close> has
  returned, as the leader elector's callbacks do.
\<close>

section \<open>Object accessors\<close>

definition GetResourceVersion :: "json \<Rightarrow> string" where
  "GetResourceVersion obj = nested_string obj [''metadata'', ''resourceVersion'']"

definition GetGeneration :: "json \<Rightarrow> int" where
  "GetGeneration obj = (case nested obj [''metadata'', ''generation''] of Some (JNum n) \<Rightarrow> n | _ \<Rightarrow> 0)"

text \<open>The annotations, or none when the field is missing or holds anything but strings.\<close>

fun is_JStr :: "json \<Rightarrow> bool" where
  "is_JStr (JStr s) = True"
| "is_JStr _ = False"

definition GetAnnotations :: "json \<Rightarrow> (string \<times> json) list" where
  "GetAnnotations obj =
     (case nested obj [''metadata'', ''annotations''] of
        Some (JObj fs) \<Rightarrow> if list_all (\<lambda>kv. is_JStr (snd kv)) fs then fs else []
      | _ \<Rightarrow> [])"

section \<open>The object cache\<close>

type_synonym objectCache = "(string, json) gomap"

definition newObjectCache :: objectCache where "newObjectCache = []"

definition cache_key :: "json \<Rightarrow> string" where
  "cache_key obj =
     (if GetNamespace obj \<noteq> [] then GetNamespace obj @ ''/'' @ GetName obj else GetName obj)"

definition cache_set :: "json \<Rightarrow> objectCache \<Rightarrow> objectCache" where
  "cache_set obj c = AList.update (cache_key obj) obj c"

definition cache_remove :: "json \<Rightarrow> objectCache \<Rightarrow> objectCache" where
  "cache_remove obj c = AList.delete (cache_key obj) c"

definition cache_snapshot :: "objectCache \<Rightarrow> json list" where
  "cache_snapshot c = map snd c"

definition cache_clear :: "objectCache \<Rightarrow> objectCache" where
  "cache_clear c = []"

definition cache_len :: "objectCache \<Rightarrow> nat" where
  "cache_len c = length c"

section \<open>The reconciler\<close>

datatype operation = CreateOp | UpdateOp | DeleteOp | BackgroundOp

record ReconcileResult =
  rr_Err :: "string option"
  rr_IsWarning :: bool

record ResourceConfig =
  rc_Resource :: ResourceDescriptor
  rc_Filters :: "(json \<Rightarrow> bool) list"

record objectKey =
  ok_kind :: string
  ok_namespace :: string
  ok_name :: string

record ObjectStatus =
  os_ResourceKind :: string
  os_ResourceName :: string
  os_ResourceNamespace :: string
  os_Result :: "ReconcileResult list"

text \<open>A request to run a handler: waiting for a slot, or in flight. \<open>jb_ctx\<close> is the context it
  was created under, \<open>jb_counted\<close> says whether its goroutine is counted by the wait group (a
  watch callback runs on the informer's goroutine and is not).\<close>

record job =
  jb_cfg :: ResourceConfig
  jb_obj :: json
  jb_op :: operation
  jb_ctx :: nat
  jb_counted :: bool

datatype event = Added json | Updated json json | Deleted json

datatype run_phase = Stopped | Running | Stopping | Draining

text \<open>
  \<open>rec_phase\<close> is where the sequence \<open>Start\<close>, \<open>Stop\<close> stands: \<open>active\<close> is \<open>Running\<close>;
  \<open>Stopping\<close> is after the swap and \<open>cancel\<close>, \<open>Draining\<close> after \<open>UnwatchAll\<close> (in \<open>wg.Wait\<close>).
  Contexts are numbered; \<open>Start\<close> makes a new one. \<open>rec_starting\<close> and \<open>rec_sweeping\<close> say
  whether the goroutine that waits for the store and the sweep goroutine run.
  \<open>rec_delivered\<close> holds the events an informer has handed to a callback that has not run yet.
\<close>

record reconciler =
  rec_configs :: "ResourceConfig list"
  rec_interval :: int
  rec_phase :: run_phase
  rec_ctx :: nat
  rec_starting :: bool
  rec_sweeping :: bool
  rec_watched :: "ResourceConfig list"
  rec_delivered :: "(nat \<times> ResourceConfig \<times> event) list"
  rec_caches :: "(ResourceDescriptor, objectCache) gomap"
  rec_waiting :: "job list"
  rec_in_flight :: "job list"
  rec_objectState :: "(objectKey, ObjectStatus) gomap"
  rec_lastUpdate :: "int option"

definition rec_active :: "reconciler \<Rightarrow> bool" where
  "rec_active r \<longleftrightarrow> rec_phase r = Running"

text \<open>\<open>ctx.Err() != nil\<close> for the context with number \<open>c\<close>.\<close>

definition ctx_done :: "reconciler \<Rightarrow> nat \<Rightarrow> bool" where
  "ctx_done r c \<longleftrightarrow> c < rec_ctx r \<or> rec_phase r \<noteq> Running"

definition maxConcurrentReconciles :: nat where "maxConcurrentReconciles = 50"

definition NamespaceFilter :: "string \<Rightarrow> json \<Rightarrow> bool" where
  "NamespaceFilter ns obj \<longleftrightarrow> GetNamespace obj = ns"

definition newReconciler :: "int \<Rightarrow> ResourceConfig list \<Rightarrow> reconciler" where
  "newReconciler interval configs =
     \<lparr>rec_configs = configs, rec_interval = interval, rec_phase = Stopped, rec_ctx = 0,
      rec_starting = False, rec_sweeping = False, rec_watched = [], rec_delivered = [],
      rec_caches = foldl (\<lambda>m cfg. AList.update (rc_Resource cfg) newObjectCache m) [] configs,
      rec_waiting = [], rec_in_flight = [], rec_objectState = [], rec_lastUpdate = None\<rparr>"

fun matches_all :: "(json \<Rightarrow> bool) list \<Rightarrow> json \<Rightarrow> bool" where
  "matches_all [] obj = True"
| "matches_all (f # fs) obj = (if \<not> f obj then False else matches_all fs obj)"

definition matchesFilters :: "ResourceConfig \<Rightarrow> json \<Rightarrow> bool" where
  "matchesFilters cfg obj = matches_all (rc_Filters cfg) obj"

text \<open>\<open>maps.Equal\<close>: the same keys with the same values.\<close>

definition maps_Equal :: "('k, 'v) gomap \<Rightarrow> ('k, 'v) gomap \<Rightarrow> bool" where
  "maps_Equal a b =
     (length (remdups (map fst a)) = length (remdups (map fst b)) \<and>
      list_all (\<lambda>k. map_of a k = map_of b k) (map fst a))"

definition shouldReconcileUpdate :: "json \<Rightarrow> json \<Rightarrow> bool" where
  "shouldReconcileUpdate oldObj newObj =
     (if GetResourceVersion oldObj = GetResourceVersion newObj then False
      else if GetGeneration newObj \<noteq> 0 \<and> GetGeneration oldObj = GetGeneration newObj \<and>
              maps_Equal (GetAnnotations oldObj) (GetAnnotations newObj) then False
      else True)"

definition set_cache :: "ResourceDescriptor \<Rightarrow> (objectCache \<Rightarrow> objectCache) \<Rightarrow> reconciler \<Rightarrow> reconciler" where
  "set_cache res f r =
     (case map_of (rec_caches r) res of
        None \<Rightarrow> r
      | Some c \<Rightarrow> r\<lparr>rec_caches := AList.update res (f c) (rec_caches r)\<rparr>)"

text \<open>
  \<open>callHandler\<close> up to its \<open>select\<close>: the request waits there. The select then takes a free slot
  and starts the handler's goroutine, or gives up because the context is done; when both are
  possible Go picks either.
\<close>

definition callHandler :: "nat \<Rightarrow> bool \<Rightarrow> ResourceConfig \<Rightarrow> json \<Rightarrow> operation \<Rightarrow> reconciler \<Rightarrow> reconciler" where
  "callHandler ctx counted cfg obj oper r =
     r\<lparr>rec_waiting := rec_waiting r @
         [\<lparr>jb_cfg = cfg, jb_obj = obj, jb_op = oper, jb_ctx = ctx, jb_counted = counted\<rparr>]\<rparr>"

definition acquire_slot :: "job list \<Rightarrow> job \<Rightarrow> job list \<Rightarrow> reconciler \<Rightarrow> reconciler option" where
  "acquire_slot ws w vs r =
     (if length (rec_in_flight r) < maxConcurrentReconciles
      then Some (r\<lparr>rec_waiting := ws @ vs, rec_in_flight := rec_in_flight r @ [w]\<rparr>) else None)"

definition object_key :: "ResourceDescriptor \<Rightarrow> json \<Rightarrow> objectKey" where
  "object_key res obj = \<lparr>ok_kind = rd_Kind res, ok_namespace = GetNamespace obj, ok_name = GetName obj\<rparr>"

definition recordResult ::
  "int \<Rightarrow> ResourceDescriptor \<Rightarrow> json \<Rightarrow> ReconcileResult list \<Rightarrow> reconciler \<Rightarrow> reconciler" where
  "recordResult now res obj result r =
     (let r1 = r\<lparr>rec_lastUpdate := Some now\<rparr>; key = object_key res obj
      in if result = [] then r1\<lparr>rec_objectState := AList.delete key (rec_objectState r1)\<rparr>
         else r1\<lparr>rec_objectState := AList.update key
                   \<lparr>os_ResourceKind = rd_Kind res, os_ResourceName = GetName obj,
                    os_ResourceNamespace = GetNamespace obj, os_Result = result\<rparr> (rec_objectState r1)\<rparr>)"

definition clearObjectStatus :: "json \<Rightarrow> reconciler \<Rightarrow> reconciler" where
  "clearObjectStatus obj r =
     r\<lparr>rec_objectState := filter (\<lambda>(k, s). \<not> (ok_namespace k = GetNamespace obj \<and> ok_name k = GetName obj))
                            (rec_objectState r)\<rparr>"

text \<open>The three watch callbacks.\<close>

definition on_add :: "nat \<Rightarrow> ResourceConfig \<Rightarrow> json \<Rightarrow> reconciler \<Rightarrow> reconciler" where
  "on_add ctx cfg obj r =
     (if \<not> matchesFilters cfg obj then r
      else callHandler ctx False cfg obj CreateOp (set_cache (rc_Resource cfg) (cache_set obj) r))"

definition on_update :: "nat \<Rightarrow> ResourceConfig \<Rightarrow> json \<Rightarrow> json \<Rightarrow> reconciler \<Rightarrow> reconciler" where
  "on_update ctx cfg oldObj newObj r =
     (if \<not> matchesFilters cfg newObj then r
      else let r1 = set_cache (rc_Resource cfg) (cache_set newObj) r
           in if \<not> shouldReconcileUpdate oldObj newObj then r1
              else callHandler ctx False cfg newObj UpdateOp r1)"

definition on_delete :: "nat \<Rightarrow> ResourceConfig \<Rightarrow> json \<Rightarrow> reconciler \<Rightarrow> reconciler" where
  "on_delete ctx cfg obj r =
     (if \<not> matchesFilters cfg obj then r
      else callHandler ctx False cfg obj DeleteOp
             (clearObjectStatus obj (set_cache (rc_Resource cfg) (cache_remove obj) r)))"

fun run_callback :: "nat \<Rightarrow> ResourceConfig \<Rightarrow> event \<Rightarrow> reconciler \<Rightarrow> reconciler" where
  "run_callback ctx cfg (Added obj) r = on_add ctx cfg obj r"
| "run_callback ctx cfg (Updated oldObj newObj) r = on_update ctx cfg oldObj newObj r"
| "run_callback ctx cfg (Deleted obj) r = on_delete ctx cfg obj r"

definition Start :: "reconciler \<Rightarrow> reconciler" where
  "Start r = r\<lparr>rec_ctx := Suc (rec_ctx r), rec_phase := Running, rec_objectState := [],
               rec_lastUpdate := None, rec_starting := True\<rparr>"

text \<open>Registering one kind: its cache is emptied first; a kind that is already watched is
  refused by the watcher, which is only logged.\<close>

definition watch_config :: "reconciler \<Rightarrow> ResourceConfig \<Rightarrow> reconciler" where
  "watch_config r cfg =
     (let r1 = set_cache (rc_Resource cfg) cache_clear r
      in if rc_Resource cfg \<in> set (map rc_Resource (rec_watched r1)) then r1
         else r1\<lparr>rec_watched := rec_watched r1 @ [cfg]\<rparr>)"

definition startWatchers :: "reconciler \<Rightarrow> reconciler" where
  "startWatchers r =
     (if ctx_done r (rec_ctx r) \<or> \<not> rec_active r then r\<lparr>rec_starting := False\<rparr>
      else (foldl watch_config r (rec_configs r))\<lparr>rec_starting := False, rec_sweeping := rec_interval r > 0\<rparr>)"

text \<open>\<open>Stop\<close> in its three stages: swap \<open>active\<close> and cancel; \<open>UnwatchAll\<close>; and, once the wait
  group is empty, clearing. A call when not active returns at once.\<close>

definition Stop_begin :: "reconciler \<Rightarrow> reconciler" where
  "Stop_begin r = (if \<not> rec_active r then r else r\<lparr>rec_phase := Stopping\<rparr>)"

definition Stop_unwatch :: "reconciler \<Rightarrow> reconciler" where
  "Stop_unwatch r = r\<lparr>rec_phase := Draining, rec_watched := []\<rparr>"

definition wg_empty :: "reconciler \<Rightarrow> bool" where
  "wg_empty r \<longleftrightarrow> \<not> rec_starting r \<and> \<not> rec_sweeping r \<and> rec_in_flight r = [] \<and>
     list_all (\<lambda>w. \<not> jb_counted w) (rec_waiting r)"

definition Stop_finish :: "reconciler \<Rightarrow> reconciler" where
  "Stop_finish r = r\<lparr>rec_phase := Stopped, rec_caches := map_values (\<lambda>_ c. cache_clear c) (rec_caches r),
                     rec_objectState := []\<rparr>"

text \<open>A background sweep over one kind and \<open>requeue\<close> both request a handler for every
  (matching) object of a snapshot of the cache.\<close>

definition sweep_kind :: "ResourceConfig \<Rightarrow> (json \<Rightarrow> bool) \<Rightarrow> reconciler \<Rightarrow> reconciler" where
  "sweep_kind cfg match r =
     (case map_of (rec_caches r) (rc_Resource cfg) of
        None \<Rightarrow> r
      | Some c \<Rightarrow> foldl (\<lambda>s obj. if match obj then callHandler (rec_ctx s) True cfg obj BackgroundOp s else s)
                   r (cache_snapshot c))"

definition requeue :: "ResourceDescriptor \<Rightarrow> (json \<Rightarrow> bool) \<Rightarrow> reconciler \<Rightarrow> reconciler" where
  "requeue res match r =
     (if \<not> rec_active r then r
      else foldl (\<lambda>s cfg. if rc_Resource cfg \<noteq> res then s else sweep_kind cfg match s) r (rec_configs r))"

inductive rec_step :: "reconciler \<Rightarrow> reconciler \<Rightarrow> bool" where
  start: "rec_phase r = Stopped \<Longrightarrow> rec_step r (Start r)"
| watchers: "rec_starting r \<Longrightarrow> rec_step r (startWatchers r)"
| deliver: "cfg \<in> set (rec_watched r) \<Longrightarrow>
    rec_step r (r\<lparr>rec_delivered := rec_delivered r @ [(rec_ctx r, cfg, ev)]\<rparr>)"
| callback: "rec_delivered r = es @ (ctx, cfg, ev) # fs \<Longrightarrow>
    rec_step r (run_callback ctx cfg ev (r\<lparr>rec_delivered := es @ fs\<rparr>))"
| sweep: "rec_sweeping r \<Longrightarrow> cfg \<in> set (rec_configs r) \<Longrightarrow> rec_step r (sweep_kind cfg (\<lambda>_. True) r)"
| sweep_exit: "rec_sweeping r \<Longrightarrow> ctx_done r (rec_ctx r) \<Longrightarrow> rec_step r (r\<lparr>rec_sweeping := False\<rparr>)"
| requeued: "rec_step r (requeue res match r)"
| acquire: "rec_waiting r = ws @ w # vs \<Longrightarrow> acquire_slot ws w vs r = Some r' \<Longrightarrow> rec_step r r'"
| give_up: "rec_waiting r = ws @ w # vs \<Longrightarrow> ctx_done r (jb_ctx w) \<Longrightarrow>
    rec_step r (r\<lparr>rec_waiting := ws @ vs\<rparr>)"
| finished: "rec_in_flight r = js @ j # ks \<Longrightarrow>
    rec_step r (recordResult now (rc_Resource (jb_cfg j)) (jb_obj j) result (r\<lparr>rec_in_flight := js @ ks\<rparr>))"
| stop_begin: "rec_step r (Stop_begin r)"
| stop_unwatch: "rec_phase r = Stopping \<Longrightarrow> rec_step r (Stop_unwatch r)"
| stop_finish: "rec_phase r = Draining \<Longrightarrow> wg_empty r \<Longrightarrow> rec_step r (Stop_finish r)"

inductive rec_reach :: "int \<Rightarrow> ResourceConfig list \<Rightarrow> reconciler \<Rightarrow> bool" for interval configs where
  init: "rec_reach interval configs (newReconciler interval configs)"
| step: "rec_reach interval configs r \<Longrightarrow> rec_step r r' \<Longrightarrow> rec_reach interval configs r'"

section \<open>The status report\<close>

record StatusResult =
  sr_ResourceKind :: string
  sr_ResourceName :: string
  sr_ResourceNamespace :: string
  sr_Messages :: "string list"

record Status =
  st_IsActive :: bool
  st_LastUpdate :: "int option"
  st_Results :: "StatusResult list"

fun status_messages :: "ReconcileResult list \<Rightarrow> string list" where
  "status_messages [] = []"
| "status_messages (x # xs) =
     (case rr_Err x of
        None \<Rightarrow> status_messages xs
      | Some msg \<Rightarrow> (if rr_IsWarning x then ''WARNING: '' @ msg else msg) # status_messages xs)"

definition reconciler_Status :: "reconciler \<Rightarrow> Status" where
  "reconciler_Status r =
     \<lparr>st_IsActive = rec_active r, st_LastUpdate = rec_lastUpdate r,
      st_Results = map (\<lambda>(k, v). \<lparr>sr_ResourceKind = os_ResourceKind v, sr_ResourceName = os_ResourceName v,
                                  sr_ResourceNamespace = os_ResourceNamespace v,
                                  sr_Messages = status_messages (os_Result v)\<rparr>) (rec_objectState r)\<rparr>"

section \<open>The cache as a store of objects\<close>

text \<open>What the reconciler relies on: the objects a cache holds after each operation.\<close>

locale object_store =
  fixes key :: "'o \<Rightarrow> 'k"
    and inv :: "'c \<Rightarrow> bool"
    and elems :: "'c \<Rightarrow> 'o set"
    and empty :: 'c
    and put :: "'o \<Rightarrow> 'c \<Rightarrow> 'c"
    and del :: "'o \<Rightarrow> 'c \<Rightarrow> 'c"
  assumes inv_empty: "inv empty" and elems_empty: "elems empty = {}"
    and inv_put: "inv c \<Longrightarrow> inv (put x c)"
    and elems_put: "inv c \<Longrightarrow> elems (put x c) = insert x {y \<in> elems c. key y \<noteq> key x}"
    and inv_del: "inv c \<Longrightarrow> inv (del x c)"
    and elems_del: "inv c \<Longrightarrow> elems (del x c) = {y \<in> elems c. key y \<noteq> key x}"
begin

lemma put_all: "inv c \<Longrightarrow> \<forall>y \<in> elems c. P y \<Longrightarrow> P x \<Longrightarrow> \<forall>y \<in> elems (put x c). P y"
  by (simp add: elems_put)

lemma del_all: "inv c \<Longrightarrow> \<forall>y \<in> elems c. P y \<Longrightarrow> \<forall>y \<in> elems (del x c). P y"
  by (simp add: elems_del)

lemma del_absent: "inv c \<Longrightarrow> y \<in> elems (del x c) \<Longrightarrow> key y \<noteq> key x"
  by (simp add: elems_del)

end

definition cache_inv :: "objectCache \<Rightarrow> bool" where
  "cache_inv c \<longleftrightarrow> wf_map c \<and> list_all (\<lambda>(k, obj). k = cache_key obj) c"

lemma snapshot_iff: "cache_inv c \<Longrightarrow> obj \<in> set (cache_snapshot c) \<longleftrightarrow> map_of c (cache_key obj) = Some obj"
  by (force simp: cache_inv_def cache_snapshot_def list_all_iff wf_map_lookup [symmetric])

lemma cache_inv_set: "cache_inv c \<Longrightarrow> cache_inv (cache_set x c)"
proof -
  assume c: "cache_inv c"
  then have w: "wf_map c" "wf_map (AList.update (cache_key x) x c)" by (simp_all add: cache_inv_def)
  have "k = cache_key obj" if "(k, obj) \<in> set (AList.update (cache_key x) x c)" for k obj
    using that c w unfolding wf_map_lookup [OF w(2)]
    by (auto simp: cache_inv_def list_all_iff wf_map_lookup [OF w(1), symmetric] split: if_splits)
  with w show ?thesis by (auto simp: cache_inv_def cache_set_def list_all_iff)
qed

lemma delete_entry: "e \<in> set (AList.delete k c) \<Longrightarrow> e \<in> set c"
  by (auto simp: AList.delete_eq)

lemma cache_inv_remove: "cache_inv c \<Longrightarrow> cache_inv (cache_remove x c)"
  by (auto simp: cache_inv_def cache_remove_def list_all_iff dest!: delete_entry)

interpretation oc: object_store cache_key cache_inv "\<lambda>c. set (cache_snapshot c)" newObjectCache cache_set cache_remove
proof unfold_locales
  show "cache_inv newObjectCache" "set (cache_snapshot newObjectCache) = {}"
    by (simp_all add: cache_inv_def newObjectCache_def cache_snapshot_def)
next
  fix c x assume c: "cache_inv c"
  show "cache_inv (cache_set x c)" "cache_inv (cache_remove x c)"
    by (rule cache_inv_set [OF c], rule cache_inv_remove [OF c])
  show "set (cache_snapshot (cache_set x c)) = insert x {y \<in> set (cache_snapshot c). cache_key y \<noteq> cache_key x}"
    using snapshot_iff [OF c] snapshot_iff [OF cache_inv_set [OF c], of _ x]
    by (auto simp: cache_set_def split: if_splits)
  show "set (cache_snapshot (cache_remove x c)) = {y \<in> set (cache_snapshot c). cache_key y \<noteq> cache_key x}"
    using snapshot_iff [OF c] snapshot_iff [OF cache_inv_remove [OF c], of _ x]
    by (auto simp: cache_remove_def split: if_splits)
qed

section \<open>The invariant of the reconciler\<close>

definition cfg_ok :: "ResourceConfig list \<Rightarrow> ResourceDescriptor \<Rightarrow> json \<Rightarrow> bool" where
  "cfg_ok configs res obj \<longleftrightarrow> (\<exists>cfg \<in> set configs. rc_Resource cfg = res \<and> matchesFilters cfg obj)"

definition caches_inv :: "ResourceConfig list \<Rightarrow> (ResourceDescriptor, objectCache) gomap \<Rightarrow> bool" where
  "caches_inv configs cs \<longleftrightarrow>
     (\<forall>res c. map_of cs res = Some c \<longrightarrow> cache_inv c \<and> (\<forall>obj \<in> set (cache_snapshot c). cfg_ok configs res obj))"

definition job_ok :: "ResourceConfig list \<Rightarrow> job \<Rightarrow> bool" where
  "job_ok configs j \<longleftrightarrow> jb_cfg j \<in> set configs \<and> cfg_ok configs (rc_Resource (jb_cfg j)) (jb_obj j)"

definition rec_inv :: "ResourceConfig list \<Rightarrow> reconciler \<Rightarrow> bool" where
  "rec_inv configs r \<longleftrightarrow>
     rec_configs r = configs \<and>
     length (rec_in_flight r) \<le> maxConcurrentReconciles \<and>
     caches_inv configs (rec_caches r) \<and>
     (\<forall>j \<in> set (rec_waiting r) \<union> set (rec_in_flight r). job_ok configs j) \<and>
     (\<forall>(ctx, cfg, ev) \<in> set (rec_delivered r). cfg \<in> set configs) \<and>
     set (rec_watched r) \<subseteq> set configs \<and> (rec_watched r \<noteq> [] \<longrightarrow> rec_phase r \<in> {Running, Stopping})"

text \<open>The invariant only looks at these fields, so a step that leaves them alone keeps it.\<close>

lemma rec_inv_status [simp]:
  "rec_inv configs (r\<lparr>rec_objectState := s\<rparr>) = rec_inv configs r"
  "rec_inv configs (r\<lparr>rec_lastUpdate := t\<rparr>) = rec_inv configs r"
  "rec_inv configs (r\<lparr>rec_starting := b\<rparr>) = rec_inv configs r"
  "rec_inv configs (r\<lparr>rec_sweeping := b\<rparr>) = rec_inv configs r"
  by (simp_all add: rec_inv_def)

lemma caches_inv_update:
  "caches_inv configs cs \<Longrightarrow> cache_inv c \<Longrightarrow> \<forall>obj \<in> set (cache_snapshot c). cfg_ok configs res obj \<Longrightarrow>
   caches_inv configs (AList.update res c cs)"
  by (auto simp: caches_inv_def)

lemma set_cache_fields [simp]:
  "rec_in_flight (set_cache res f r) = rec_in_flight r" "rec_objectState (set_cache res f r) = rec_objectState r"
  "rec_configs (set_cache res f r) = rec_configs r" "rec_phase (set_cache res f r) = rec_phase r"
  "rec_waiting (set_cache res f r) = rec_waiting r" "rec_watched (set_cache res f r) = rec_watched r"
  "rec_delivered (set_cache res f r) = rec_delivered r" "rec_ctx (set_cache res f r) = rec_ctx r"
  "rec_starting (set_cache res f r) = rec_starting r" "rec_sweeping (set_cache res f r) = rec_sweeping r"
  by (simp_all add: set_cache_def split: option.split)

lemma set_cache_inv:
  assumes "rec_inv configs r"
    and "\<And>c. cache_inv c \<Longrightarrow> \<forall>obj \<in> set (cache_snapshot c). cfg_ok configs res obj \<Longrightarrow>
          cache_inv (f c) \<and> (\<forall>obj \<in> set (cache_snapshot (f c)). cfg_ok configs res obj)"
  shows "rec_inv configs (set_cache res f r)"
proof (cases "map_of (rec_caches r) res")
  case (Some c)
  then have "cache_inv (f c)" "\<forall>obj \<in> set (cache_snapshot (f c)). cfg_ok configs res obj"
    using assms by (auto simp: rec_inv_def caches_inv_def)
  from caches_inv_update [OF _ this] Some assms(1) show ?thesis by (auto simp: set_cache_def rec_inv_def)
qed (use assms in \<open>simp add: set_cache_def\<close>)

lemma put_inv:
  "rec_inv configs r \<Longrightarrow> cfg_ok configs res obj \<Longrightarrow> rec_inv configs (set_cache res (cache_set obj) r)"
proof (rule set_cache_inv)
  fix c assume "cfg_ok configs res obj" "cache_inv c" "\<forall>obj \<in> set (cache_snapshot c). cfg_ok configs res obj"
  then show "cache_inv (cache_set obj c) \<and> (\<forall>y \<in> set (cache_snapshot (cache_set obj c)). cfg_ok configs res y)"
    using oc.inv_put oc.put_all [of c "cfg_ok configs res" obj] by blast
qed

lemma del_inv: "rec_inv configs r \<Longrightarrow> rec_inv configs (set_cache res (cache_remove obj) r)"
proof (rule set_cache_inv)
  fix c assume "cache_inv c" "\<forall>obj \<in> set (cache_snapshot c). cfg_ok configs res obj"
  then show "cache_inv (cache_remove obj c) \<and> (\<forall>y \<in> set (cache_snapshot (cache_remove obj c)). cfg_ok configs res y)"
    using oc.inv_del oc.del_all [of c "cfg_ok configs res" obj] by blast
qed

lemma clear_inv: "rec_inv configs r \<Longrightarrow> rec_inv configs (set_cache res cache_clear r)"
  by (rule set_cache_inv) (simp_all add: cache_clear_def cache_inv_def cache_snapshot_def)

lemma callHandler_inv:
  "rec_inv configs r \<Longrightarrow> cfg \<in> set configs \<Longrightarrow> cfg_ok configs (rc_Resource cfg) obj \<Longrightarrow>
   rec_inv configs (callHandler ctx b cfg obj oper r)"
  by (auto simp: callHandler_def rec_inv_def job_ok_def)

lemma cfg_okI: "cfg \<in> set configs \<Longrightarrow> matchesFilters cfg obj \<Longrightarrow> cfg_ok configs (rc_Resource cfg) obj"
  by (auto simp: cfg_ok_def)

lemma run_callback_inv:
  assumes "rec_inv configs r" "cfg \<in> set configs"
  shows "rec_inv configs (run_callback ctx cfg ev r)"
proof (cases ev)
  case (Added obj)
  with assms show ?thesis by (simp add: on_add_def callHandler_inv put_inv cfg_okI)
next
  case (Updated oldObj newObj)
  with assms show ?thesis by (simp add: on_update_def Let_def callHandler_inv put_inv cfg_okI)
next
  case (Deleted obj)
  with assms show ?thesis by (simp add: on_delete_def clearObjectStatus_def callHandler_inv del_inv cfg_okI)
qed

lemma fold_callHandler_inv:
  "rec_inv configs r \<Longrightarrow> cfg \<in> set configs \<Longrightarrow> \<forall>obj \<in> set objs. cfg_ok configs (rc_Resource cfg) obj \<Longrightarrow>
   rec_inv configs (foldl (\<lambda>s obj. if match obj then callHandler (rec_ctx s) True cfg obj BackgroundOp s else s) r objs)"
  by (induction objs arbitrary: r) (auto simp: callHandler_inv)

lemma sweep_kind_inv:
  "rec_inv configs r \<Longrightarrow> cfg \<in> set configs \<Longrightarrow> rec_inv configs (sweep_kind cfg match r)"
  unfolding sweep_kind_def
  by (auto split: option.split intro!: fold_callHandler_inv simp: rec_inv_def [of _ r] caches_inv_def)

lemma requeue_inv: "rec_inv configs r \<Longrightarrow> rec_inv configs (requeue res match r)"
proof -
  assume r: "rec_inv configs r"
  have "rec_inv configs s \<Longrightarrow> set cfgs \<subseteq> set configs \<Longrightarrow>
      rec_inv configs (foldl (\<lambda>s cfg. if rc_Resource cfg \<noteq> res then s else sweep_kind cfg match s) s cfgs)" for s cfgs
    by (induction cfgs arbitrary: s) (auto simp: sweep_kind_inv)
  from this [of r "rec_configs r"] r show ?thesis by (simp add: requeue_def) (simp add: rec_inv_def)
qed

lemma watch_config_phase [simp]: "rec_phase (foldl watch_config r cfgs) = rec_phase r"
  by (induction cfgs arbitrary: r) (auto simp: watch_config_def Let_def)

lemma watch_configs_inv:
  "rec_inv configs r \<Longrightarrow> rec_phase r = Running \<Longrightarrow> set cfgs \<subseteq> set configs \<Longrightarrow> rec_inv configs (foldl watch_config r cfgs)"
proof (induction cfgs arbitrary: r)
  case (Cons a cfgs)
  let ?r = "set_cache (rc_Resource a) cache_clear r"
  have "rec_inv configs ?r" by (rule clear_inv [OF Cons.prems(1)])
  with Cons.prems have "rec_inv configs (watch_config r a)"
    by (simp add: watch_config_def Let_def) (simp add: rec_inv_def)
  moreover have "rec_phase (watch_config r a) = Running"
    using watch_config_phase [of r "[a]"] Cons.prems by simp
  ultimately show ?case using Cons by simp
qed simp

lemma startWatchers_inv: "rec_inv configs r \<Longrightarrow> rec_inv configs (startWatchers r)"
  using watch_configs_inv [of configs r "rec_configs r"]
  by (auto simp: startWatchers_def rec_active_def rec_inv_def [of _ r])

lemma init_caches:
  "map_of (foldl (\<lambda>m cfg. AList.update (rc_Resource cfg) newObjectCache m) cs cfgs) res = Some c \<Longrightarrow>
   map_of cs res = Some c \<or> c = newObjectCache"
proof (induction cfgs arbitrary: cs)
  case (Cons a cfgs)
  from Cons.IH [of "AList.update (rc_Resource a) newObjectCache cs"] Cons.prems show ?case
    by (auto split: if_splits)
qed simp

lemma rec_inv_step:
  assumes "rec_step r r'" "rec_inv configs r"
  shows "rec_inv configs r'"
  using assms(1)
proof cases
  case start
  with assms(2) show ?thesis by (auto simp: Start_def rec_inv_def)
next
  case watchers
  with assms(2) show ?thesis by (simp add: startWatchers_inv)
next
  case (deliver cfg ev)
  with assms(2) show ?thesis by (auto simp: rec_inv_def)
next
  case (callback es ctx cfg ev fs)
  with assms(2) have "rec_inv configs (r\<lparr>rec_delivered := es @ fs\<rparr>)" "cfg \<in> set configs"
    by (auto simp: rec_inv_def)
  with callback show ?thesis by (simp add: run_callback_inv)
next
  case (sweep cfg)
  with assms(2) show ?thesis by (simp add: sweep_kind_inv rec_inv_def [of _ r])
next
  case (acquire ws w vs)
  with assms(2) show ?thesis by (auto simp: acquire_slot_def rec_inv_def split: if_splits)
next
  case (finished js j ks now result)
  with assms(2) show ?thesis by (auto simp: recordResult_def Let_def rec_inv_def)
next
  case stop_finish
  with assms(2) show ?thesis
    by (auto simp: Stop_finish_def rec_inv_def caches_inv_def cache_clear_def cache_inv_def cache_snapshot_def)
next
  case (requeued res match)
  with assms(2) show ?thesis by (simp add: requeue_inv)
next
  case (give_up ws w vs)
  with assms(2) show ?thesis by (simp add: rec_inv_def)
next
  case stop_begin
  with assms(2) show ?thesis by (cases "rec_active r") (simp_all add: Stop_begin_def rec_inv_def)
qed (use assms(2) in \<open>simp_all add: Stop_unwatch_def rec_inv_def\<close>)

lemma rec_reach_invD: "rec_reach interval configs r \<Longrightarrow> rec_inv configs r"
proof (induction rule: rec_reach.induct)
  case init
  have "map_of (foldl (\<lambda>m cfg. AList.update (rc_Resource cfg) newObjectCache m) [] configs) res = Some c \<Longrightarrow>
      c = newObjectCache" for res c using init_caches [of "[]"] by auto
  then have "caches_inv configs (rec_caches (newReconciler interval configs))"
    unfolding caches_inv_def newReconciler_def using oc.inv_empty oc.elems_empty by fastforce
  then show ?case by (simp add: rec_inv_def) (simp add: newReconciler_def)
qed (rule rec_inv_step)

text \<open>With one configuration per kind, "some configuration of that kind accepts it" is "its
  configuration accepts it".\<close>

lemma cfg_ok_own:
  assumes "cfg_ok configs (rc_Resource cfg) obj" "cfg \<in> set configs" "distinct (map rc_Resource configs)"
  shows "matchesFilters cfg obj"
proof -
  from assms(1) obtain cfg' where c: "cfg' \<in> set configs" "rc_Resource cfg' = rc_Resource cfg" "matchesFilters cfg' obj"
    by (auto simp: cfg_ok_def)
  then have "cfg' = cfg" using assms(2,3) by (auto simp: distinct_map dest: inj_onD)
  with c show ?thesis by simp
qed

section \<open>Stopping\<close>

definition rec_quiet :: "reconciler \<Rightarrow> bool" where
  "rec_quiet r \<longleftrightarrow>
     rec_phase r = Stopped \<and> \<not> rec_starting r \<and> \<not> rec_sweeping r \<and> rec_watched r = [] \<and> rec_delivered r = [] \<and>
     rec_waiting r = [] \<and> rec_in_flight r = [] \<and> rec_objectState r = [] \<and>
     list_all (\<lambda>(res, c). c = []) (rec_caches r)"

text \<open>What is left to do, and the steps that do it.\<close>

definition rec_load :: "reconciler \<Rightarrow> nat" where
  "rec_load r = 3 * length (rec_delivered r) + 2 * length (rec_waiting r) + length (rec_in_flight r)"

definition same_control :: "reconciler \<Rightarrow> reconciler \<Rightarrow> bool" where
  "same_control r r' \<longleftrightarrow> rec_phase r' = rec_phase r \<and> rec_starting r' = rec_starting r \<and>
     rec_sweeping r' = rec_sweeping r \<and> rec_watched r' = rec_watched r"

lemma callback_load:
  "rec_load (run_callback ctx cfg ev r) \<le> rec_load r + 2" "same_control r (run_callback ctx cfg ev r)"
  by (cases ev; simp add: on_add_def on_update_def on_delete_def callHandler_def clearObjectStatus_def Let_def
      rec_load_def same_control_def)+

lemma rec_step_load:
  assumes "rec_load r > 0"
  shows "\<exists>r'. rec_step r r' \<and> same_control r r' \<and> rec_load r' < rec_load r"
proof (cases "rec_in_flight r")
  case (Cons j ks)
  let ?r = "recordResult 0 (rc_Resource (jb_cfg j)) (jb_obj j) [] (r\<lparr>rec_in_flight := ks\<rparr>)"
  have "rec_step r ?r" using rec_step.finished [of r "[]" j ks 0 "[]"] Cons by simp
  moreover have "same_control r ?r" "rec_load ?r < rec_load r"
    using Cons by (simp_all add: recordResult_def Let_def same_control_def rec_load_def)
  ultimately show ?thesis by blast
next
  case Nil
  show ?thesis
  proof (cases "rec_waiting r")
    case (Cons w vs)
    let ?r = "r\<lparr>rec_waiting := vs, rec_in_flight := [w]\<rparr>"
    have "acquire_slot [] w vs r = Some ?r"
      using Nil by (simp add: acquire_slot_def maxConcurrentReconciles_def)
    from rec_step.acquire [OF _ this] Cons Nil show ?thesis
      by (intro exI [of _ ?r]) (auto simp: same_control_def rec_load_def)
  next
    case wait: Nil
    with Nil assms obtain ctx cfg ev fs where d: "rec_delivered r = (ctx, cfg, ev) # fs"
      by (cases "rec_delivered r") (auto simp: rec_load_def)
    let ?r = "r\<lparr>rec_delivered := fs\<rparr>"
    from d have "rec_load ?r + 3 = rec_load r" "same_control r ?r"
      by (simp_all add: rec_load_def same_control_def)
    with callback_load [where ctx = ctx and cfg = cfg and ev = ev and r = ?r]
    have "rec_load (run_callback ctx cfg ev ?r) < rec_load r" "same_control r (run_callback ctx cfg ev ?r)"
      by (auto simp: same_control_def)
    with rec_step.callback [of r "[]" ctx cfg ev fs] d show ?thesis by auto
  qed
qed

lemma rec_drain: "\<exists>r'. rec_step\<^sup>*\<^sup>* r r' \<and> same_control r r' \<and> rec_load r' = 0"
proof (induction "rec_load r" arbitrary: r rule: less_induct)
  case less
  show ?case
  proof (cases "rec_load r = 0")
    case False
    then obtain s where "rec_step r s" "same_control r s" "rec_load s < rec_load r"
      using rec_step_load by blast
    with less [of s] show ?thesis
      by (metis (no_types, opaque_lifting) converse_rtranclp_into_rtranclp same_control_def)
  qed (auto simp: same_control_def)
qed

lemma stop_from_draining:
  assumes "rec_phase r = Draining" "rec_watched r = []"
  shows "\<exists>r'. rec_step\<^sup>*\<^sup>* r r' \<and> rec_quiet r'"
proof -
  let ?a = "if rec_starting r then r\<lparr>rec_starting := False\<rparr> else r"
  have "rec_step\<^sup>*\<^sup>* r ?a"
    using rec_step.watchers [of r] assms by (auto simp: startWatchers_def ctx_done_def)
  moreover define b where "b = (if rec_sweeping ?a then ?a\<lparr>rec_sweeping := False\<rparr> else ?a)"
  have "rec_step\<^sup>*\<^sup>* ?a b"
    using rec_step.sweep_exit [of ?a] assms by (auto simp: b_def ctx_done_def)
  moreover obtain c where c: "rec_step\<^sup>*\<^sup>* b c" "same_control b c" "rec_load c = 0"
    using rec_drain by blast
  moreover have c': "rec_phase c = Draining" "wg_empty c" "rec_watched c = []"
    using c assms by (auto simp: b_def same_control_def wg_empty_def rec_load_def)
  moreover have "rec_quiet (Stop_finish c)"
    using c c' by (auto simp: rec_quiet_def Stop_finish_def wg_empty_def rec_load_def map_values_def list_all_iff cache_clear_def)
  ultimately show ?thesis
    using rec_step.stop_finish [OF c'(1,2)] by (meson rtranclp.rtrancl_into_rtrancl rtranclp_trans)
qed

lemma stop_from_stopping:
  assumes "rec_phase r = Stopping"
  shows "\<exists>r'. rec_step\<^sup>*\<^sup>* r r' \<and> rec_quiet r'"
proof -
  have "\<exists>r'. rec_step\<^sup>*\<^sup>* (Stop_unwatch r) r' \<and> rec_quiet r'"
    by (rule stop_from_draining) (simp_all add: Stop_unwatch_def)
  with rec_step.stop_unwatch [OF assms] show ?thesis
    by (meson converse_rtranclp_into_rtranclp)
qed

lemma stop_from_running:
  assumes "rec_phase r = Running"
  shows "\<exists>r'. rec_step\<^sup>*\<^sup>* r r' \<and> rec_quiet r'"
proof -
  have "\<exists>r'. rec_step\<^sup>*\<^sup>* (Stop_begin r) r' \<and> rec_quiet r'"
    by (rule stop_from_stopping) (simp add: Stop_begin_def rec_active_def assms)
  with rec_step.stop_begin [of r] show ?thesis by (meson converse_rtranclp_into_rtranclp)
qed

section \<open>A concrete reconciler\<close>

definition demo_resource :: ResourceDescriptor where
  "demo_resource = \<lparr>rd_Kind = ''Agent'', rd_Plural = ''agents'', rd_ApiVersion = ''mogenius.com/v1alpha1'', rd_Namespaced = True\<rparr>"

definition demo_config :: ResourceConfig where
  "demo_config = \<lparr>rc_Resource = demo_resource, rc_Filters = [NamespaceFilter ''mogenius'']\<rparr>"

definition demo_agent :: json where
  "demo_agent = JObj [(''metadata'', JObj [(''name'', JStr ''a''), (''namespace'', JStr ''mogenius''),
                                          (''resourceVersion'', JStr ''1'')])]"

abbreviation demo_start :: reconciler where
  "demo_start \<equiv> Start (newReconciler 900 [demo_config])"

abbreviation demo_running :: reconciler where
  "demo_running \<equiv> startWatchers demo_start"

abbreviation demo_job :: "operation \<Rightarrow> job" where
  "demo_job oper \<equiv> \<lparr>jb_cfg = demo_config, jb_obj = demo_agent, jb_op = oper, jb_ctx = 1, jb_counted = False\<rparr>"

lemma demo_agent_fields [simp]:
  "GetName demo_agent = ''a''" "GetNamespace demo_agent = ''mogenius''" "cache_key demo_agent = ''mogenius/a''"
  "matchesFilters demo_config demo_agent" "rc_Resource demo_config = demo_resource"
  by (simp_all add: demo_agent_def GetName_def GetNamespace_def nested_string_def cache_key_def
      demo_config_def matchesFilters_def NamespaceFilter_def)

lemma demo_running_eq:
  "demo_running = \<lparr>rec_configs = [demo_config], rec_interval = 900, rec_phase = Running, rec_ctx = 1,
      rec_starting = False, rec_sweeping = True, rec_watched = [demo_config], rec_delivered = [],
      rec_caches = [(demo_resource, [])],
      rec_waiting = [], rec_in_flight = [], rec_objectState = [], rec_lastUpdate = None\<rparr>"
  by (simp add: startWatchers_def Start_def newReconciler_def ctx_done_def rec_active_def watch_config_def
      set_cache_def cache_clear_def newObjectCache_def demo_config_def)

lemma demo_running_reach: "rec_reach 900 [demo_config] demo_running"
proof -
  have "rec_reach 900 [demo_config] demo_start"
    by (rule rec_reach.step [OF rec_reach.init rec_step.start]) (simp add: newReconciler_def)
  then show ?thesis by (rule rec_reach.step [OF _ rec_step.watchers]) (simp add: Start_def)
qed

text \<open>Delivering an event to the callback and running it.\<close>

lemma reach_event:
  assumes "rec_reach i configs r" "cfg \<in> set (rec_watched r)" "rec_delivered r = []"
  shows "rec_reach i configs (run_callback (rec_ctx r) cfg ev r)"
proof -
  from rec_reach.step [OF assms(1) rec_step.deliver [OF assms(2), of ev]] assms(3)
  have "rec_reach i configs (r\<lparr>rec_delivered := [(rec_ctx r, cfg, ev)]\<rparr>)" by simp
  from rec_reach.step [OF this rec_step.callback [of _ "[]" "rec_ctx r" cfg ev "[]"]] assms(3)
  show ?thesis by (cases r) simp
qed

lemma reach_acquire:
  assumes "rec_reach i configs r" "rec_waiting r = [w]" "length (rec_in_flight r) < maxConcurrentReconciles"
  shows "rec_reach i configs (r\<lparr>rec_waiting := [], rec_in_flight := rec_in_flight r @ [w]\<rparr>)"
  using rec_reach.step [OF assms(1) rec_step.acquire [of r "[]" w "[]"]] assms(2,3)
  by (simp add: acquire_slot_def)

lemma reach_finish:
  assumes "rec_reach i configs r" "rec_in_flight r = js @ j # ks"
  shows "rec_reach i configs (recordResult now (rc_Resource (jb_cfg j)) (jb_obj j) result (r\<lparr>rec_in_flight := js @ ks\<rparr>))"
  using rec_reach.step [OF assms(1) rec_step.finished [OF assms(2)]] .

lemmas demo_eval = on_add_def on_delete_def callHandler_def set_cache_def cache_set_def cache_remove_def
  clearObjectStatus_def maxConcurrentReconciles_def recordResult_def object_key_def
  cache_clear_def map_values_def Let_def Stop_finish_def cache_len_def demo_running_eq

section \<open>Properties\<close>

text \<open>C11: In every reachable state of a reconciler with one configuration per kind, at most fifty
  handlers are in flight, every cached object passes the filters of its kind, and every handler
  that runs or waits for a slot does so for an object that passes the filters it was
  registered with, whatever the order of events, sweeps, restarts and completions.\<close>

theorem reconcile_bounded_and_filtered:
  assumes "rec_reach interval configs r" "distinct (map rc_Resource configs)"
  shows "length (rec_in_flight r) \<le> maxConcurrentReconciles \<and>
    (\<forall>cfg \<in> set configs. \<forall>c. map_of (rec_caches r) (rc_Resource cfg) = Some c \<longrightarrow>
       list_all (matchesFilters cfg) (cache_snapshot c)) \<and>
    list_all (\<lambda>j. jb_cfg j \<in> set configs \<and> matchesFilters (jb_cfg j) (jb_obj j)) (rec_waiting r @ rec_in_flight r)"
proof -
  note own = cfg_ok_own [OF _ _ assms(2)]
  have r: "rec_inv configs r" by (rule rec_reach_invD [OF assms(1)])
  have "matchesFilters cfg obj"
    if "cfg \<in> set configs" "map_of (rec_caches r) (rc_Resource cfg) = Some c" "obj \<in> set (cache_snapshot c)" for cfg c obj
    using r that own by (simp add: rec_inv_def caches_inv_def)
  moreover have "jb_cfg j \<in> set configs \<and> matchesFilters (jb_cfg j) (jb_obj j)"
    if "j \<in> set (rec_waiting r @ rec_in_flight r)" for j
    using r that own by (simp add: rec_inv_def job_ok_def)
  ultimately show ?thesis using r by (simp add: rec_inv_def list_all_iff)
qed

theorem reconcile_bounded_and_filtered_witness:
  "let r = run_callback 1 demo_config (Added demo_agent) demo_running
   in rec_waiting r = [demo_job CreateOp] \<and> matchesFilters demo_config demo_agent"
proof -
  have "rec_reach 900 [demo_config] (run_callback 1 demo_config (Added demo_agent) demo_running)"
    using reach_event [OF demo_running_reach, of demo_config "Added demo_agent"] by (simp add: demo_running_eq)
  from reconcile_bounded_and_filtered [OF this] show ?thesis
    by (simp add: demo_running_eq demo_eval)
qed

text \<open>C12: \<open>Stop\<close> can always finish: from every reachable state of a running or stopping
  reconciler there is a continuation in which the waiting callbacks get their slots, the handlers
  in flight complete and \<open>Stop\<close> returns with nothing left: no watcher, no callback, no handler,
  empty caches and an empty status. No interleaving leaves the slot pool or the wait group
  stuck.\<close>

theorem Stop_can_finish:
  assumes "rec_reach interval configs r" "rec_phase r \<noteq> Stopped"
  shows "\<exists>r'. rec_step\<^sup>*\<^sup>* r r' \<and> rec_quiet r'"
proof (cases "rec_phase r")
  case Draining
  then have "rec_watched r = []" using rec_reach_invD [OF assms(1)] by (auto simp: rec_inv_def)
  with Draining show ?thesis by (rule stop_from_draining)
qed (use assms stop_from_running stop_from_stopping in blast)+

theorem Stop_can_finish_witness: "\<exists>r'. rec_step\<^sup>*\<^sup>* demo_running r' \<and> rec_quiet r'"
  by (rule Stop_can_finish [OF demo_running_reach]) (simp add: demo_running_eq)

text \<open>A reconciler that has stopped with nothing left stays as it is until \<open>Start\<close> is called.\<close>

lemma quiet_until_Start:
  assumes "rec_quiet r" "rec_step r r'"
  shows "r' = r \<or> r' = Start r"
  using assms(2,1)
  by cases (auto simp: rec_quiet_def requeue_def rec_active_def Stop_begin_def)

text \<open>The informer's callbacks are not counted by the wait group, so \<open>Stop\<close> may return before
  one of them has run: there is a run in which \<open>Stop\<close> has returned, and yet the cache holds an
  object again and a handler is in flight.\<close>

lemma callback_outlives_Stop:
  "\<exists>r c. rec_reach 900 [demo_config] r \<and> rec_phase r = Stopped \<and>
     map_of (rec_caches r) demo_resource = Some c \<and> cache_len c = 1 \<and> length (rec_in_flight r) = 1"
proof -
  let ?d = "demo_running\<lparr>rec_delivered := [(1, demo_config, Added demo_agent)]\<rparr>"
  let ?s = "?d\<lparr>rec_phase := Draining, rec_watched := [], rec_sweeping := False\<rparr>"
  let ?q = "Stop_finish ?s"
  let ?c = "run_callback 1 demo_config (Added demo_agent) (?q\<lparr>rec_delivered := []\<rparr>)"
  have "rec_reach 900 [demo_config] ?d"
    using rec_reach.step [OF demo_running_reach rec_step.deliver [of demo_config _ "Added demo_agent"]]
    by (simp add: demo_running_eq)
  from rec_reach.step [OF this rec_step.stop_begin]
  have "rec_reach 900 [demo_config] (?d\<lparr>rec_phase := Stopping\<rparr>)"
    by (simp add: Stop_begin_def rec_active_def demo_running_eq)
  from rec_reach.step [OF this rec_step.stop_unwatch]
  have "rec_reach 900 [demo_config] (?d\<lparr>rec_phase := Draining, rec_watched := []\<rparr>)"
    by (simp add: Stop_unwatch_def)
  from rec_reach.step [OF this rec_step.sweep_exit]
  have "rec_reach 900 [demo_config] ?s" by (simp add: demo_running_eq ctx_done_def)
  from rec_reach.step [OF this rec_step.stop_finish]
  have "rec_reach 900 [demo_config] ?q" by (simp add: demo_running_eq wg_empty_def)
  from rec_reach.step [OF this rec_step.callback [of _ "[]" 1 demo_config "Added demo_agent" "[]"]]
  have "rec_reach 900 [demo_config] ?c" by (simp add: demo_running_eq Stop_finish_def)
  from reach_acquire [OF this, of "demo_job CreateOp"]
  have "rec_reach 900 [demo_config] (?c\<lparr>rec_waiting := [], rec_in_flight := [demo_job CreateOp]\<rparr>)"
    by (simp add: demo_eval)
  then show ?thesis
    by (intro exI [of _ "?c\<lparr>rec_waiting := [], rec_in_flight := [demo_job CreateOp]\<rparr>"] exI conjI)
       (auto simp: demo_eval)
qed

text \<open>A handler that was still in flight when its object was deleted records its result
  afterwards: there is a run that ends with no cached object, no handler in flight and nothing
  waiting, in which the status still reports the deleted object.\<close>

lemma status_outlives_object:
  "\<exists>r. rec_reach 900 [demo_config] r \<and> rec_phase r = Running \<and> rec_waiting r = [] \<and> rec_in_flight r = [] \<and>
     map_of (rec_caches r) demo_resource = Some [] \<and>
     map sr_ResourceName (st_Results (reconciler_Status r)) = [''a'']"
proof -
  let ?err = "[\<lparr>rr_Err = Some ''boom'', rr_IsWarning = False\<rparr>]"
  let ?a = "run_callback 1 demo_config (Added demo_agent) demo_running"
  let ?b = "?a\<lparr>rec_waiting := [], rec_in_flight := [demo_job CreateOp]\<rparr>"
  let ?d = "run_callback 1 demo_config (Deleted demo_agent) ?b"
  let ?e = "?d\<lparr>rec_waiting := [], rec_in_flight := [demo_job CreateOp, demo_job DeleteOp]\<rparr>"
  let ?f = "recordResult 2 demo_resource demo_agent [] (?e\<lparr>rec_in_flight := [demo_job CreateOp]\<rparr>)"
  let ?g = "recordResult 3 demo_resource demo_agent ?err (?f\<lparr>rec_in_flight := []\<rparr>)"
  have "rec_reach 900 [demo_config] ?a"
    using reach_event [OF demo_running_reach, of demo_config "Added demo_agent"] by (simp add: demo_running_eq)
  from reach_acquire [OF this, of "demo_job CreateOp"] have "rec_reach 900 [demo_config] ?b"
    by (simp add: demo_eval)
  from reach_event [OF this, of demo_config "Deleted demo_agent"] have "rec_reach 900 [demo_config] ?d"
    by (simp add: demo_eval)
  from reach_acquire [OF this, of "demo_job DeleteOp"] have "rec_reach 900 [demo_config] ?e"
    by (simp add: demo_eval)
  from reach_finish [OF this, of "[demo_job CreateOp]" "demo_job DeleteOp" "[]" 2 "[]"]
  have "rec_reach 900 [demo_config] ?f" by (simp add: demo_eval)
  from reach_finish [OF this, of "[]" "demo_job CreateOp" "[]" 3 ?err]
  have "rec_reach 900 [demo_config] ?g" by (simp add: demo_eval)
  then show ?thesis
    by (intro exI [of _ ?g] conjI) (simp_all add: demo_eval reconciler_Status_def)
qed

text \<open>Deleting an object clears the status of every object with that namespace and name, of
  whatever kind, and no other entry.\<close>

lemma clearObjectStatus_effect:
  "map_of (rec_objectState (clearObjectStatus obj r)) k =
     (if ok_namespace k = GetNamespace obj \<and> ok_name k = GetName obj then None else map_of (rec_objectState r) k)"
  using map_of_filter_key [of "\<lambda>k. ok_namespace k = GetNamespace obj \<and> ok_name k = GetName obj" "rec_objectState r" k]
  by (simp add: clearObjectStatus_def del: de_Morgan_conj)

lemma maps_Equal_iff: "maps_Equal a b \<longleftrightarrow> map_of a = map_of b"
proof
  assume eq: "maps_Equal a b"
  then have sub: "fst ` set a \<subseteq> fst ` set b"
    by (auto simp: maps_Equal_def list_all_iff) (metis domI domIff dom_map_of_conv_image_fst image_eqI fst_conv)
  have "card (fst ` set a) = card (fst ` set b)"
    using eq unfolding maps_Equal_def by (metis length_remdups_card_conv list.set_map)
  with sub have "fst ` set a = fst ` set b" by (simp add: card_subset_eq)
  with eq show "map_of a = map_of b"
    by (auto simp: maps_Equal_def list_all_iff fun_eq_iff) (metis map_of_eq_None_iff imageE)
next
  assume "map_of a = map_of b"
  then have "fst ` set a = fst ` set b" by (metis dom_map_of_conv_image_fst)
  with \<open>map_of a = map_of b\<close> show "maps_Equal a b"
    by (simp add: maps_Equal_def list_all_iff length_remdups_card_conv)
qed

text \<open>An update event runs the handler exactly when the resource version changed and, for
  kinds with a generation, the generation or some annotation changed as well: a resync and a
  status-only patch are skipped, an annotation change is not.\<close>

lemma shouldReconcileUpdate_iff:
  "shouldReconcileUpdate oldObj newObj \<longleftrightarrow>
     GetResourceVersion oldObj \<noteq> GetResourceVersion newObj \<and>
     \<not> (GetGeneration newObj \<noteq> 0 \<and> GetGeneration oldObj = GetGeneration newObj \<and>
        (\<forall>k. map_of (GetAnnotations oldObj) k = map_of (GetAnnotations newObj) k))"
  by (auto simp: shouldReconcileUpdate_def maps_Equal_iff fun_eq_iff)

text \<open>Only an empty result list clears a status entry. A non-empty one is stored even if every
  result in it is a success: the object is then reported with the messages of its errors, warnings
  marked, which may be no message at all.\<close>

lemma recordResult_status:
  "map_of (rec_objectState (recordResult now res obj result r)) (object_key res obj) =
     (if result = [] then None
      else Some \<lparr>os_ResourceKind = rd_Kind res, os_ResourceName = GetName obj,
                 os_ResourceNamespace = GetNamespace obj, os_Result = result\<rparr>) \<and>
   (k \<noteq> object_key res obj \<longrightarrow>
      map_of (rec_objectState (recordResult now res obj result r)) k = map_of (rec_objectState r) k) \<and>
   status_messages (replicate n \<lparr>rr_Err = None, rr_IsWarning = False\<rparr>) = []"
  by (induction n) (auto simp: recordResult_def Let_def)

end
