(* ===== verification/ErrorStatus.thy ===== *)
theory ErrorStatus
  imports Prelude
begin

text \<open>
  The HTTP status an error is reported with (\<open>utils/errorstatus.go\<close>).

  The classification of an error is the Kubernetes API machinery's: an error is represented by
  the answers its predicates (\<open>apierrors.IsNotFound\<close> and so on, \<open>errors.Is\<close> for the two context
  errors) give on it and by the code of the \<open>StatusError\<close> it wraps, if any.
\<close>

record go_error =
  IsNotFound :: bool
  IsAlreadyExists :: bool
  IsConflict :: bool
  IsForbidden :: bool
  IsUnauthorized :: bool
  IsInvalid :: bool
  IsBadRequest :: bool
  IsTimeout :: bool
  IsServerTimeout :: bool
  IsDeadlineExceeded :: bool
  IsTooManyRequests :: bool
  IsServiceUnavailable :: bool
  IsNotAcceptable :: bool
  IsUnsupportedMediaType :: bool
  IsCanceled :: bool
  StatusCode :: "int option"

definition forwarded_code :: "go_error \<Rightarrow> int" where
  "forwarded_code err =
     (case StatusCode err of
        Some code \<Rightarrow>
          if 400 \<le> code \<and> code \<le> 599 then (if code = 401 then 403 else code) else 400
      | None \<Rightarrow> 400)"

definition HttpStatusForError :: "go_error option \<Rightarrow> int" where
  "HttpStatusForError e =
     (case e of
        None \<Rightarrow> 0
      | Some err \<Rightarrow>
          if IsNotFound err then 404
          else if IsAlreadyExists err \<or> IsConflict err then 409
          else if IsForbidden err \<or> IsUnauthorized err then 403
          else if IsInvalid err \<or> IsBadRequest err then 400
          else if IsTimeout err \<or> IsServerTimeout err \<or> IsDeadlineExceeded err then 504
          else if IsTooManyRequests err then 429
          else if IsServiceUnavailable err then 503
          else if IsNotAcceptable err \<or> IsUnsupportedMediaType err then 400
          else if IsCanceled err then 408
          else forwarded_code err)"

lemma forwarded_code_range: "forwarded_code err \<in> {400..599} - {401}"
  by (auto simp: forwarded_code_def split: option.split)

section \<open>Properties\<close>


end
