(* ===== verification/Watcher.thy ===== *)
theory Watcher
  imports StoreIndex "HOL-Library.Multiset"
begin

text \<open>
  The resource watcher of \<open>watcher/watcher.go\<close>: the table of watched resources with their
  states, the goroutine that registers a handler on the informer of one resource and retries,
  the callbacks waiting for the first synchronisation, and the subscriptions to single objects.

  The informer is client-go's: a goroutine registers a handler with it and is told whether its
  cache synchronised. Contexts are numbered in the order of the \<open>Watch\<close> calls.
\<close>

section \<open>State\<close>

datatype WatcherResourceState = Unknown | Watching | WatcherInitializing | WatchingFailed

record resourceContext =
  rx_state :: WatcherResourceState
  rx_handler :: "nat option"
  rx_ctx :: nat

text \<open>A goroutine of \<open>watchWithRetry\<close> with its \<open>startSingleWatcher\<close>: which resource and context
  it serves and how far it is. \<open>Failed\<close> is an attempt that returned an error, \<open>Sleeping\<close> the pause
  before the next one, \<open>Stopped\<close> an attempt that ended without error.\<close>

datatype watch_pc = Registering | Registered nat | Syncing nat | Synced nat | Failed | Sleeping | Stopped

record watch_thread =
  wt_resource :: ResourceDescriptor
  wt_ctx :: nat
  wt_pc :: watch_pc

type_synonym subscriptions = "(string \<times> string \<times> string, nat list) gomap"

record watcher =
  wa_activeHandlers :: "(ResourceDescriptor, resourceContext) gomap"
  wa_cancelled :: "nat list"
  wa_nextCtx :: nat
  wa_nextHandler :: nat
  wa_registered :: "nat list"
  wa_threads :: "watch_thread list"
  wa_syncedCallbacks :: "(ResourceDescriptor, nat list) gomap"
  wa_fired :: "nat list"
  wa_subsAdd :: subscriptions
  wa_subsUpdate :: subscriptions
  wa_subsDelete :: subscriptions

definition NewWatcher :: watcher where
  "NewWatcher = \<lparr>wa_activeHandlers = [], wa_cancelled = [], wa_nextCtx = 0, wa_nextHandler = 0, wa_registered = [],
     wa_threads = [], wa_syncedCallbacks = [], wa_fired = [], wa_subsAdd = [], wa_subsUpdate = [], wa_subsDelete = []\<rparr>"

section \<open>Operations\<close>

definition get_list :: "('k, 'v list) gomap \<Rightarrow> 'k \<Rightarrow> 'v list" where
  "get_list m k = (case map_of m k of None \<Rightarrow> [] | Some l \<Rightarrow> l)"

text \<open>The result is whether the call returned no error.\<close>

definition Watch :: "ResourceDescriptor \<Rightarrow> watcher \<Rightarrow> watcher \<times> bool" where
  "Watch resource w =
     (if resource \<in> fst ` set (wa_activeHandlers w) then (w, False)
      else (w\<lparr>wa_activeHandlers := AList.update resource
                 \<lparr>rx_state = WatcherInitializing, rx_handler = None, rx_ctx = wa_nextCtx w\<rparr> (wa_activeHandlers w),
              wa_nextCtx := Suc (wa_nextCtx w),
              wa_threads := wa_threads w @ [\<lparr>wt_resource = resource, wt_ctx = wa_nextCtx w, wt_pc = Registering\<rparr>]\<rparr>, True))"

definition setWatcherState :: "ResourceDescriptor \<Rightarrow> WatcherResourceState \<Rightarrow> watcher \<Rightarrow> watcher" where
  "setWatcherState resource st w =
     (let w1 = (case map_of (wa_activeHandlers w) resource of
                  None \<Rightarrow> w
                | Some rx \<Rightarrow> w\<lparr>wa_activeHandlers := AList.update resource (rx\<lparr>rx_state := st\<rparr>) (wa_activeHandlers w)\<rparr>)
      in if st = Watching then
           w1\<lparr>wa_fired := wa_fired w1 @ get_list (wa_syncedCallbacks w1) resource,
              wa_syncedCallbacks := AList.delete resource (wa_syncedCallbacks w1)\<rparr>
         else w1)"

definition OnSynced :: "ResourceDescriptor \<Rightarrow> nat \<Rightarrow> watcher \<Rightarrow> watcher" where
  "OnSynced resource cb w =
     (case map_of (wa_activeHandlers w) resource of
        Some rx \<Rightarrow>
          if rx_state rx = Watching then w\<lparr>wa_fired := wa_fired w @ [cb]\<rparr>
          else w\<lparr>wa_syncedCallbacks := AList.update resource (get_list (wa_syncedCallbacks w) resource @ [cb]) (wa_syncedCallbacks w)\<rparr>
      | None \<Rightarrow> w\<lparr>wa_syncedCallbacks := AList.update resource (get_list (wa_syncedCallbacks w) resource @ [cb]) (wa_syncedCallbacks w)\<rparr>)"

definition updateResourceContext :: "ResourceDescriptor \<Rightarrow> nat \<Rightarrow> watcher \<Rightarrow> watcher" where
  "updateResourceContext resource h w =
     (case map_of (wa_activeHandlers w) resource of
        None \<Rightarrow> w
      | Some rx \<Rightarrow> w\<lparr>wa_activeHandlers := AList.update resource (rx\<lparr>rx_handler := Some h\<rparr>) (wa_activeHandlers w)\<rparr>)"

definition RemoveEventHandler :: "nat \<Rightarrow> watcher \<Rightarrow> watcher" where
  "RemoveEventHandler h w = w\<lparr>wa_registered := removeAll h (wa_registered w)\<rparr>"

text \<open>\<open>Unwatch\<close>: removing a handler can fail; then the entry stays, with its context cancelled.\<close>

definition Unwatch :: "bool \<Rightarrow> ResourceDescriptor \<Rightarrow> watcher \<Rightarrow> watcher \<times> bool" where
  "Unwatch removeOk resource w =
     (case map_of (wa_activeHandlers w) resource of
        None \<Rightarrow> (w, False)
      | Some rx \<Rightarrow>
          (let w1 = w\<lparr>wa_cancelled := rx_ctx rx # wa_cancelled w\<rparr>
           in case rx_handler rx of
                None \<Rightarrow> (w1\<lparr>wa_activeHandlers := AList.delete resource (wa_activeHandlers w1)\<rparr>, True)
              | Some h \<Rightarrow>
                  if \<not> removeOk then (w1, False)
                  else ((RemoveEventHandler h w1)\<lparr>wa_activeHandlers := AList.delete resource (wa_activeHandlers w1)\<rparr>, True)))"

definition ListWatchedResources :: "watcher \<Rightarrow> ResourceDescriptor list" where
  "ListWatchedResources w = map fst (wa_activeHandlers w)"

definition State :: "ResourceDescriptor \<Rightarrow> watcher \<Rightarrow> WatcherResourceState \<times> bool" where
  "State resource w =
     (case map_of (wa_activeHandlers w) resource of None \<Rightarrow> (Unknown, False) | Some rx \<Rightarrow> (rx_state rx, True))"

definition UnwatchAll :: "bool \<Rightarrow> watcher \<Rightarrow> watcher" where
  "UnwatchAll removeOk w = foldl (\<lambda>w r. fst (Unwatch removeOk r w)) w (ListWatchedResources w)"

definition subscribe :: "string \<Rightarrow> string \<Rightarrow> string \<Rightarrow> nat \<Rightarrow> subscriptions \<Rightarrow> subscriptions" where
  "subscribe kind namespace name cb subs =
     AList.update (kind, namespace, name) (get_list subs (kind, namespace, name) @ [cb]) subs"

definition OnObjectCreated :: "string \<Rightarrow> string \<Rightarrow> string \<Rightarrow> nat \<Rightarrow> watcher \<Rightarrow> watcher" where
  "OnObjectCreated kind namespace name cb w = w\<lparr>wa_subsAdd := subscribe kind namespace name cb (wa_subsAdd w)\<rparr>"

definition OnObjectUpdated :: "string \<Rightarrow> string \<Rightarrow> string \<Rightarrow> nat \<Rightarrow> watcher \<Rightarrow> watcher" where
  "OnObjectUpdated kind namespace name cb w = w\<lparr>wa_subsUpdate := subscribe kind namespace name cb (wa_subsUpdate w)\<rparr>"

definition OnObjectDeleted :: "string \<Rightarrow> string \<Rightarrow> string \<Rightarrow> nat \<Rightarrow> watcher \<Rightarrow> watcher" where
  "OnObjectDeleted kind namespace name cb w = w\<lparr>wa_subsDelete := subscribe kind namespace name cb (wa_subsDelete w)\<rparr>"

text \<open>The callbacks called for an object, in order.\<close>

definition fireObjectSubs :: "subscriptions \<Rightarrow> json \<Rightarrow> nat list" where
  "fireObjectSubs subs obj = get_list subs (GetKind obj, GetNamespace obj, GetName obj)"

text \<open>The event handlers that \<open>startSingleWatcher\<close> registers. The informer hands over an object, the
  tombstone of one it lost track of, or something else, which is dropped. The result is what the
  handler calls: the callback of the watch with the objects, then the subscribers of the object.
  A resynchronisation (the same resource version twice) reaches the callback but no subscriber.\<close>

datatype informer_obj = Object json | DeletedFinalStateUnknown "json option" | OtherObject

definition toUnstructured :: "informer_obj \<Rightarrow> json option" where
  "toUnstructured obj = (case obj of Object u \<Rightarrow> Some u | DeletedFinalStateUnknown d \<Rightarrow> d | OtherObject \<Rightarrow> None)"

definition AddFunc :: "informer_obj \<Rightarrow> watcher \<Rightarrow> json list \<times> nat list" where
  "AddFunc obj w = (case toUnstructured obj of None \<Rightarrow> ([], []) | Some u \<Rightarrow> ([u], fireObjectSubs (wa_subsAdd w) u))"

definition UpdateFunc :: "informer_obj \<Rightarrow> informer_obj \<Rightarrow> watcher \<Rightarrow> (json \<times> json) list \<times> nat list" where
  "UpdateFunc oldObj newObj w =
     (case (toUnstructured oldObj, toUnstructured newObj) of
        (Some old, Some new) \<Rightarrow>
          ([(old, new)],
           if nested_string old [''metadata'', ''resourceVersion''] = nested_string new [''metadata'', ''resourceVersion'']
           then [] else fireObjectSubs (wa_subsUpdate w) new)
      | _ \<Rightarrow> ([], []))"

definition DeleteFunc :: "informer_obj \<Rightarrow> watcher \<Rightarrow> json list \<times> nat list" where
  "DeleteFunc obj w = (case toUnstructured obj of None \<Rightarrow> ([], []) | Some u \<Rightarrow> ([u], fireObjectSubs (wa_subsDelete w) u))"

section \<open>Retrying\<close>

text \<open>Durations are in seconds. The loop keeps a failure count and the next backoff.\<close>

definition fastRetryAttempts :: nat where "fastRetryAttempts = 20"
definition fastBackoffInitial :: int where "fastBackoffInitial = 1"
definition fastBackoffMax :: int where "fastBackoffMax = 120"
definition slowRetryInterval :: int where "slowRetryInterval = 300"

definition retry_sleep :: "nat \<times> int \<Rightarrow> (nat \<times> int) \<times> int" where
  "retry_sleep s =
     (let (retryCount0, backoff) = s; retryCount = Suc retryCount0
      in if retryCount \<le> fastRetryAttempts then ((retryCount, min (backoff * 2) fastBackoffMax), backoff)
         else ((retryCount, backoff), slowRetryInterval))"

fun retry_sleeps :: "nat \<Rightarrow> nat \<times> int \<Rightarrow> int list" where
  "retry_sleeps 0 s = []"
| "retry_sleeps (Suc n) s = (let (s', d) = retry_sleep s in d # retry_sleeps n s')"

text \<open>How \<open>startSingleWatcher\<close> went, as \<open>watchWithRetry\<close> sees it, and what the loop does next.\<close>

datatype attempt = AttemptError | AttemptNil | AttemptCancelled

fun watchWithRetry :: "nat \<times> int \<Rightarrow> attempt list \<Rightarrow> int list \<times> bool" where
  "watchWithRetry s [] = ([], False)"
| "watchWithRetry s (AttemptNil # as) = ([], True)"
| "watchWithRetry s (AttemptCancelled # as) = ([], True)"
| "watchWithRetry s (AttemptError # as) =
     (let (s', d) = retry_sleep s; (ds, stopped) = watchWithRetry s' as in (d # ds, stopped))"

section \<open>The goroutines\<close>

definition set_thread :: "watch_thread list \<Rightarrow> watch_thread \<Rightarrow> watch_pc \<Rightarrow> watch_thread list \<Rightarrow> watch_thread list" where
  "set_thread ts t pc us = ts @ t\<lparr>wt_pc := pc\<rparr> # us"

inductive watch_step :: "watcher \<Rightarrow> watcher \<Rightarrow> bool" where
  watch: "Watch resource w = (w', ok) \<Longrightarrow> watch_step w w'"
| unwatch: "Unwatch removeOk resource w = (w', ok) \<Longrightarrow> watch_step w w'"
| register: "wa_threads w = ts @ t # us \<Longrightarrow> wt_pc t = Registering \<Longrightarrow>
    watch_step w (w\<lparr>wa_threads := set_thread ts t (Registered (wa_nextHandler w)) us,
                    wa_registered := wa_nextHandler w # wa_registered w, wa_nextHandler := Suc (wa_nextHandler w)\<rparr>)"
| record_handler: "wa_threads w = ts @ t # us \<Longrightarrow> wt_pc t = Registered h \<Longrightarrow>
    watch_step w (updateResourceContext (wt_resource t) h (w\<lparr>wa_threads := set_thread ts t (Syncing h) us\<rparr>))"
| synced: "wa_threads w = ts @ t # us \<Longrightarrow> wt_pc t = Syncing h \<Longrightarrow>
    watch_step w (setWatcherState (wt_resource t) Watching (w\<lparr>wa_threads := set_thread ts t (Synced h) us\<rparr>))"
| not_registered: "wa_threads w = ts @ t # us \<Longrightarrow> wt_pc t = Registering \<Longrightarrow>
    watch_step w (w\<lparr>wa_threads := set_thread ts t Failed us\<rparr>)"
| not_synced: "wa_threads w = ts @ t # us \<Longrightarrow> wt_pc t = Syncing h \<Longrightarrow>
    watch_step w (setWatcherState (wt_resource t) WatchingFailed
      (RemoveEventHandler h (w\<lparr>wa_threads := set_thread ts t Failed us\<rparr>)))"
| cancelled: "wa_threads w = ts @ t # us \<Longrightarrow> wt_pc t = Synced h \<Longrightarrow> wt_ctx t \<in> set (wa_cancelled w) \<Longrightarrow>
    watch_step w (RemoveEventHandler h (w\<lparr>wa_threads := set_thread ts t Stopped us\<rparr>))"
| report: "wa_threads w = ts @ t # us \<Longrightarrow> wt_pc t = Failed \<Longrightarrow>
    watch_step w (setWatcherState (wt_resource t) WatchingFailed (w\<lparr>wa_threads := set_thread ts t Sleeping us\<rparr>))"
| retry: "wa_threads w = ts @ t # us \<Longrightarrow> wt_pc t = Sleeping \<Longrightarrow> wt_ctx t \<notin> set (wa_cancelled w) \<Longrightarrow>
    watch_step w (w\<lparr>wa_threads := set_thread ts t Registering us\<rparr>)"

text \<open>A run, with the callbacks handed to \<open>OnSynced\<close> in it.\<close>

inductive watch_run :: "nat list \<Rightarrow> watcher \<Rightarrow> bool" where
  init: "watch_run [] NewWatcher"
| step: "watch_run cbs w \<Longrightarrow> watch_step w w' \<Longrightarrow> watch_run cbs w'"
| await: "watch_run cbs w \<Longrightarrow> watch_run (cbs @ [cb]) (OnSynced resource cb w)"

section \<open>Callbacks fire once\<close>

definition waiting_callbacks :: "watcher \<Rightarrow> nat multiset" where
  "waiting_callbacks w = mset (concat (map snd (wa_syncedCallbacks w)))"

lemma mset_concat_update:
  "mset (concat (map snd (AList.update k (get_list m k @ [x]) m))) = add_mset x (mset (concat (map snd m)))"
  by (induction m) (auto simp: get_list_def)

lemma mset_concat_delete:
  "wf_map m \<Longrightarrow> mset (get_list m k) + mset (concat (map snd (AList.delete k m))) = mset (concat (map snd m))"
proof (induction m)
  case (Cons e m)
  then show ?case
    by (cases e) (auto simp: get_list_def AList.delete_eq filter_id_conv map_of_eq_None_iff [THEN iffD2] image_iff)
qed (simp add: get_list_def)

lemma setWatcherState_callbacks:
  assumes "wf_map (wa_syncedCallbacks w)"
  shows "mset (wa_fired (setWatcherState r st w)) + waiting_callbacks (setWatcherState r st w)
           = mset (wa_fired w) + waiting_callbacks w"
    and "wf_map (wa_syncedCallbacks (setWatcherState r st w))"
  using assms mset_concat_delete [OF assms, of r]
  by (auto simp: setWatcherState_def waiting_callbacks_def Let_def split: option.split)

definition same_callbacks :: "watcher \<Rightarrow> watcher \<Rightarrow> bool" where
  "same_callbacks w w' \<longleftrightarrow> wa_fired w' = wa_fired w \<and> wa_syncedCallbacks w' = wa_syncedCallbacks w"

lemma same_callbacks_ops:
  "same_callbacks w (fst (Watch r w))" "same_callbacks w (fst (Unwatch b r w))"
  "same_callbacks w (updateResourceContext r h w)" "same_callbacks w (RemoveEventHandler h w)"
  by (simp_all add: same_callbacks_def Watch_def Unwatch_def updateResourceContext_def RemoveEventHandler_def Let_def
      split: option.split)

definition callbacks_inv :: "nat list \<Rightarrow> watcher \<Rightarrow> bool" where
  "callbacks_inv cbs w \<longleftrightarrow>
     wf_map (wa_syncedCallbacks w) \<and> mset (wa_fired w) + waiting_callbacks w = mset cbs"

lemma callbacks_inv_same: "callbacks_inv cbs w \<Longrightarrow> same_callbacks w w' \<Longrightarrow> callbacks_inv cbs w'"
  by (simp add: callbacks_inv_def same_callbacks_def waiting_callbacks_def)

lemma callbacks_inv_threads [simp]: "callbacks_inv cbs (w\<lparr>wa_threads := ts\<rparr>) = callbacks_inv cbs w"
  by (simp add: callbacks_inv_def waiting_callbacks_def)

lemma callbacks_inv_state: "callbacks_inv cbs w \<Longrightarrow> callbacks_inv cbs (setWatcherState r st w)"
  by (simp add: callbacks_inv_def setWatcherState_callbacks)

lemma callbacks_inv_OnSynced: "callbacks_inv cbs w \<Longrightarrow> callbacks_inv (cbs @ [cb]) (OnSynced r cb w)"
  by (auto simp: callbacks_inv_def OnSynced_def waiting_callbacks_def mset_concat_update split: option.split)

lemma callbacks_inv_step:
  assumes "watch_step w w'" "callbacks_inv cbs w"
  shows "callbacks_inv cbs w'"
  using assms(1)
proof cases
  case (watch resource ok)
  with same_callbacks_ops(1) [of w resource] assms(2) show ?thesis by (auto intro: callbacks_inv_same)
next
  case (unwatch removeOk resource ok)
  with same_callbacks_ops(2) [of w removeOk resource] assms(2) show ?thesis by (auto intro: callbacks_inv_same)
next
  case (register ts t us)
  with assms(2) show ?thesis by (auto intro: callbacks_inv_same simp: same_callbacks_def)
next
  case (record_handler ts t us h)
  with assms(2) show ?thesis by (auto intro: callbacks_inv_same [OF _ same_callbacks_ops(3)])
next
  case (synced ts t us h)
  with assms(2) show ?thesis by (auto intro: callbacks_inv_state)
next
  case (report ts t us)
  with assms(2) show ?thesis by (auto intro: callbacks_inv_state)
next
  case (not_registered ts t us)
  with assms(2) show ?thesis by simp
next
  case (not_synced ts t us h)
  with assms(2) show ?thesis
    by (auto intro!: callbacks_inv_state callbacks_inv_same [OF _ same_callbacks_ops(4)])
next
  case (cancelled ts t us h)
  with assms(2) show ?thesis by (auto intro: callbacks_inv_same [OF _ same_callbacks_ops(4)])
next
  case (retry ts t us)
  with assms(2) show ?thesis by simp
qed

lemma watch_run_callbacks: "watch_run cbs w \<Longrightarrow> callbacks_inv cbs w"
  by (induction rule: watch_run.induct)
     (auto simp: callbacks_inv_step callbacks_inv_OnSynced, simp add: callbacks_inv_def waiting_callbacks_def NewWatcher_def)

section \<open>Properties\<close>

text \<open>Retries back off from one second by doubling, capped at two minutes, for twenty
  attempts and are then made every five minutes, for ever: after any number of failures the
  pauses of \<open>watchWithRetry\<close> are exactly these, so none is shorter than a second or longer than
  five minutes.\<close>

lemma watcher_retry_pauses:
  "watchWithRetry (0, fastBackoffInitial) (replicate n AttemptError)
     = (map (\<lambda>i. if i < 20 then min (2 ^ i) 120 else 300) [0..<n], False)"
proof -
  have "watchWithRetry (i, if i < 7 then 2 ^ i else 120) (replicate n AttemptError)
     = (map (\<lambda>i. if i < 20 then min (2 ^ i) 120 else 300) [i..<i + n], False)" for i
  proof (induction n arbitrary: i)
    case (Suc n)
    consider "i < 6" "(2::int) ^ i \<le> 32" | "i = 6" | "7 \<le> i" "(128::int) \<le> 2 ^ i"
      using power_increasing [of i 5 "2::int"] power_increasing [of 7 i "2::int"] by fastforce
    then have step: "retry_sleep (i, if i < 7 then 2 ^ i else 120)
        = ((Suc i, if Suc i < 7 then 2 ^ Suc i else 120), if i < 20 then min (2 ^ i) 120 else 300)"
      by cases (simp_all add: retry_sleep_def fastRetryAttempts_def fastBackoffMax_def slowRetryInterval_def)
    show ?case using Suc.IH [of "Suc i"] by (simp add: step upt_rec [of i])
  qed simp
  from this [of 0] show ?thesis by (simp add: fastBackoffInitial_def)
qed

text \<open>C14: Every callback handed to \<open>OnSynced\<close> is called at most once and never lost: in every
  interleaving of watch calls, registrations, synchronisations, failures and retries, the calls
  made and the callbacks still waiting are together exactly the callbacks handed in; and when a
  resource reaches the state Watching none is left waiting for it.\<close>

theorem OnSynced_exactly_once:
  assumes "watch_run cbs w"
  shows "mset (wa_fired w) + waiting_callbacks w = mset cbs \<and>
    get_list (wa_syncedCallbacks (setWatcherState r Watching w)) r = []"
  using watch_run_callbacks [OF assms]
  by (auto simp: callbacks_inv_def setWatcherState_def Let_def get_list_def split: option.split)

text \<open>A resource that is watched, its handler registered and its cache synchronised.\<close>

definition demo_watched :: ResourceDescriptor where
  "demo_watched = \<lparr>rd_Kind = ''Pod'', rd_Plural = ''pods'', rd_ApiVersion = ''v1'', rd_Namespaced = True\<rparr>"

lemma demo_watch_run: "watch_run [] (fst (Watch demo_watched NewWatcher))"
  by (rule watch_run.step [OF watch_run.init watch_step.watch [OF prod.collapse [symmetric]]])

theorem OnSynced_exactly_once_witness:
  "mset (wa_fired (OnSynced demo_watched 7 (fst (Watch demo_watched NewWatcher))))
     + waiting_callbacks (OnSynced demo_watched 7 (fst (Watch demo_watched NewWatcher))) = {#7#}"
  using OnSynced_exactly_once [OF watch_run.await [OF demo_watch_run, of 7 demo_watched]] by simp

text \<open>The state of a resource is keyed by the resource only, so the goroutine of an earlier
  \<open>Watch\<close> still writes to it: there is a run in which a resource was unwatched and watched
  again, the new handler is registered and synchronised, and yet the resource is reported as
  failed, with no goroutine left that would correct it.\<close>

lemma stale_watch_overwrites_state:
  "\<exists>w. watch_run [] w \<and> State demo_watched w = (WatchingFailed, True) \<and> wa_registered w = [1] \<and>
     map wt_pc (wa_threads w) = [Failed, Synced 1] \<and> wa_cancelled w = [0]"
proof -
  let ?t = "\<lambda>c pc. \<lparr>wt_resource = demo_watched, wt_ctx = c, wt_pc = pc\<rparr>"
  let ?w = "\<lambda>entry ctxs cancelled handlers registered threads.
     NewWatcher\<lparr>wa_activeHandlers := entry, wa_nextCtx := ctxs, wa_cancelled := cancelled, wa_nextHandler := handlers,
       wa_registered := registered, wa_threads := threads\<rparr>"
  let ?e = "\<lambda>st h c. [(demo_watched, \<lparr>rx_state = st, rx_handler = h, rx_ctx = c\<rparr>)]"
  note run = watch_run.step
  have "watch_run [] (?w (?e WatcherInitializing None 0) 1 [] 0 [] [?t 0 Registering])"
    by (rule run [OF watch_run.init watch_step.watch [of demo_watched]]) (simp add: Watch_def NewWatcher_def)
  from run [OF this watch_step.register [of _ "[]" "?t 0 Registering" "[]"]]
  have "watch_run [] (?w (?e WatcherInitializing None 0) 1 [] 1 [0] [?t 0 (Registered 0)])"
    by (simp add: set_thread_def NewWatcher_def numeral_2_eq_2)
  from run [OF this watch_step.record_handler [of _ "[]" "?t 0 (Registered 0)" "[]" 0]]
  have "watch_run [] (?w (?e WatcherInitializing (Some 0) 0) 1 [] 1 [0] [?t 0 (Syncing 0)])"
    by (simp add: set_thread_def updateResourceContext_def NewWatcher_def numeral_2_eq_2)
  from run [OF this watch_step.unwatch [of True demo_watched]]
  have "watch_run [] (?w [] 1 [0] 1 [] [?t 0 (Syncing 0)])"
    by (simp add: Unwatch_def RemoveEventHandler_def NewWatcher_def numeral_2_eq_2)
  from run [OF this watch_step.watch [of demo_watched]]
  have "watch_run [] (?w (?e WatcherInitializing None 1) 2 [0] 1 [] [?t 0 (Syncing 0), ?t 1 Registering])"
    by (simp add: Watch_def NewWatcher_def numeral_2_eq_2)
  from run [OF this watch_step.register [of _ "[?t 0 (Syncing 0)]" "?t 1 Registering" "[]"]]
  have "watch_run [] (?w (?e WatcherInitializing None 1) 2 [0] 2 [1] [?t 0 (Syncing 0), ?t 1 (Registered 1)])"
    by (simp add: set_thread_def NewWatcher_def numeral_2_eq_2)
  from run [OF this watch_step.record_handler [of _ "[?t 0 (Syncing 0)]" "?t 1 (Registered 1)" "[]" 1]]
  have "watch_run [] (?w (?e WatcherInitializing (Some 1) 1) 2 [0] 2 [1] [?t 0 (Syncing 0), ?t 1 (Syncing 1)])"
    by (simp add: set_thread_def updateResourceContext_def NewWatcher_def numeral_2_eq_2)
  from run [OF this watch_step.synced [of _ "[?t 0 (Syncing 0)]" "?t 1 (Syncing 1)" "[]" 1]]
  have "watch_run [] (?w (?e Watching (Some 1) 1) 2 [0] 2 [1] [?t 0 (Syncing 0), ?t 1 (Synced 1)])"
    by (simp add: set_thread_def setWatcherState_def get_list_def NewWatcher_def numeral_2_eq_2)
  from run [OF this watch_step.not_synced [of _ "[]" "?t 0 (Syncing 0)" "[?t 1 (Synced 1)]" 0]]
  have "watch_run [] (?w (?e WatchingFailed (Some 1) 1) 2 [0] 2 [1] [?t 0 Failed, ?t 1 (Synced 1)])"
    by (simp add: set_thread_def setWatcherState_def RemoveEventHandler_def NewWatcher_def numeral_2_eq_2)
  then show ?thesis by (intro exI conjI) (assumption, simp_all add: State_def NewWatcher_def)
qed

end
