(* ===== verification/AiAccess.thy ===== *)
theory AiAccess
  imports AuditLog
begin

text \<open>
  Access control of the AI tools (\<open>ai/tools.go\<close>): the tool context built from a workspace and a
  grant or from an agent, the permission checks, and the guards at the start of the tools of
  \<open>ai/tools_kubernetes.go\<close> and \<open>ai/tools_helm.go\<close>.

  A Go map is nil (\<open>None\<close>) or a map; reading a missing key gives the zero value. The nil
  context is \<open>None\<close> as well.
\<close>

section \<open>Contexts\<close>

type_synonym flags = "(string, bool) gomap"

record ToolContext =
  tc_AllowedNamespaces :: "flags option"
  tc_AllowedHelmReleases :: "(string, flags) gomap option"
  tc_AllowedArgoCDApps :: "flags option"
  tc_AllowedFluxReleases :: "flags option"
  tc_Role :: string
  tc_User :: "User option"
  tc_Workspace :: string
  tc_ExcludeResources :: flags
  tc_McpSessions :: "string list"
  tc_DisableKubernetes :: bool
  tc_DisableHelm :: bool
  tc_InterceptMutatingTools :: bool

record WorkspaceResource =
  ws_Type :: string
  ws_Id :: string
  ws_Namespace :: string

definition flag :: "flags \<Rightarrow> string \<Rightarrow> bool" where
  "flag m k \<longleftrightarrow> map_of m k = Some True"

definition set_flag :: "string \<Rightarrow> flags option \<Rightarrow> flags option" where
  "set_flag k m = Some (AList.update k True (case m of None \<Rightarrow> [] | Some m' \<Rightarrow> m'))"

text \<open>An annotation or label, empty when there is none.\<close>

definition meta_get :: "(string, string) gomap \<Rightarrow> string \<Rightarrow> string" where
  "meta_get m k = (case map_of m k of None \<Rightarrow> [] | Some v \<Rightarrow> v)"

definition aiResourceKey :: "string \<Rightarrow> string \<Rightarrow> string \<Rightarrow> string \<Rightarrow> string" where
  "aiResourceKey apiVersion kind namespace name = apiVersion @ ''|'' @ kind @ ''|'' @ namespace @ ''|'' @ name"

definition IsResourceExcluded :: "ToolContext option \<Rightarrow> string \<Rightarrow> string \<Rightarrow> string \<Rightarrow> string \<Rightarrow> bool" where
  "IsResourceExcluded tc apiVersion kind namespace name =
     (case tc of None \<Rightarrow> False
      | Some c \<Rightarrow> if tc_ExcludeResources c = [] then False
                  else flag (tc_ExcludeResources c) (aiResourceKey apiVersion kind namespace name))"

abbreviation NUL :: char where "NUL \<equiv> CHR 0x00"

definition fluxOwnerKey :: "string \<Rightarrow> string \<Rightarrow> string \<Rightarrow> string" where
  "fluxOwnerKey kind namespace name = kind @ NUL # namespace @ NUL # name"

section \<open>Checks\<close>

definition hasRestrictions :: "ToolContext option \<Rightarrow> bool" where
  "hasRestrictions tc =
     (case tc of None \<Rightarrow> False
      | Some c \<Rightarrow> tc_AllowedNamespaces c \<noteq> None \<or> tc_AllowedHelmReleases c \<noteq> None \<or>
                  tc_AllowedArgoCDApps c \<noteq> None \<or> tc_AllowedFluxReleases c \<noteq> None)"

definition hasOwnershipRestrictions :: "ToolContext option \<Rightarrow> bool" where
  "hasOwnershipRestrictions tc =
     (case tc of None \<Rightarrow> False
      | Some c \<Rightarrow> tc_AllowedArgoCDApps c \<noteq> None \<or> tc_AllowedFluxReleases c \<noteq> None)"

definition namespace_flag :: "ToolContext \<Rightarrow> string \<Rightarrow> bool" where
  "namespace_flag c namespace \<longleftrightarrow> (case tc_AllowedNamespaces c of None \<Rightarrow> False | Some m \<Rightarrow> flag m namespace)"

definition IsNamespaceAllowed :: "ToolContext option \<Rightarrow> string \<Rightarrow> bool" where
  "IsNamespaceAllowed tc namespace =
     (case tc of None \<Rightarrow> True
      | Some c \<Rightarrow>
          if \<not> hasRestrictions tc then True
          else if namespace_flag c namespace then True
          else case tc_AllowedHelmReleases c of
                 None \<Rightarrow> False
               | Some m \<Rightarrow> map_of m namespace \<noteq> None)"

definition IsHelmReleaseAllowed :: "ToolContext option \<Rightarrow> string \<Rightarrow> string \<Rightarrow> bool" where
  "IsHelmReleaseAllowed tc namespace releaseName =
     (case tc of None \<Rightarrow> True
      | Some c \<Rightarrow>
          if namespace_flag c namespace then True
          else case tc_AllowedHelmReleases c of
                 None \<Rightarrow> True
               | Some m \<Rightarrow> (case map_of m namespace of None \<Rightarrow> False | Some releases \<Rightarrow> flag releases releaseName))"

definition helm_owned :: "ToolContext \<Rightarrow> string \<Rightarrow> (string, string) gomap \<Rightarrow> bool" where
  "helm_owned c namespace meta =
     (case tc_AllowedHelmReleases c of
        None \<Rightarrow> False
      | Some m \<Rightarrow>
          (case map_of m namespace of
             None \<Rightarrow> False
           | Some releases \<Rightarrow>
               (let releaseName = meta_get meta ''meta.helm.sh/release-name''
                in releaseName \<noteq> [] \<and> flag releases releaseName)))"

definition argocd_owned :: "ToolContext \<Rightarrow> (string, string) gomap \<Rightarrow> bool" where
  "argocd_owned c meta =
     (case tc_AllowedArgoCDApps c of
        None \<Rightarrow> False
      | Some m \<Rightarrow> (let appName = meta_get meta ''argocd.argoproj.io/instance''
                   in appName \<noteq> [] \<and> flag m appName))"

definition flux_owned :: "ToolContext \<Rightarrow> (string, string) gomap \<Rightarrow> bool" where
  "flux_owned c meta =
     (case tc_AllowedFluxReleases c of
        None \<Rightarrow> False
      | Some m \<Rightarrow>
          (let name = meta_get meta ''kustomize.toolkit.fluxcd.io/name'';
               ns = meta_get meta ''kustomize.toolkit.fluxcd.io/namespace''
           in name \<noteq> [] \<and> flag m (fluxOwnerKey ''Kustomization'' ns name)) \<or>
          (let name = meta_get meta ''helm.toolkit.fluxcd.io/name'';
               ns = meta_get meta ''helm.toolkit.fluxcd.io/namespace''
           in name \<noteq> [] \<and> flag m (fluxOwnerKey ''HelmRelease'' ns name)))"

definition IsResourceAllowed :: "ToolContext option \<Rightarrow> string \<Rightarrow> (string, string) gomap \<Rightarrow> bool" where
  "IsResourceAllowed tc namespace meta =
     (case tc of None \<Rightarrow> True
      | Some c \<Rightarrow>
          if \<not> hasRestrictions tc then True
          else if namespace_flag c namespace then True
          else if helm_owned c namespace meta then True
          else if argocd_owned c meta then True
          else flux_owned c meta)"

definition IsEditor :: "ToolContext option \<Rightarrow> bool" where
  "IsEditor tc = (case tc of None \<Rightarrow> True | Some c \<Rightarrow> if tc_Role c = [] then True else tc_Role c = ''editor'')"

definition IsAdmin :: "ToolContext option \<Rightarrow> bool" where
  "IsAdmin tc = (case tc of None \<Rightarrow> True | Some c \<Rightarrow> if tc_Role c = [] then True else tc_Role c = ''admin'')"

section \<open>Building a context\<close>

definition plain_context :: "User option \<Rightarrow> string \<Rightarrow> ToolContext" where
  "plain_context user workspace =
     \<lparr>tc_AllowedNamespaces = None, tc_AllowedHelmReleases = None, tc_AllowedArgoCDApps = None,
      tc_AllowedFluxReleases = None, tc_Role = [], tc_User = user, tc_Workspace = workspace,
      tc_ExcludeResources = [], tc_McpSessions = [], tc_DisableKubernetes = False, tc_DisableHelm = False,
      tc_InterceptMutatingTools = False\<rparr>"

definition allow_helm :: "string \<Rightarrow> string \<Rightarrow> (string, flags) gomap option \<Rightarrow> (string, flags) gomap option" where
  "allow_helm namespace release m =
     (let m' = (case m of None \<Rightarrow> [] | Some x \<Rightarrow> x)
      in Some (AList.update namespace (the (set_flag release (map_of m' namespace))) m'))"

text \<open>One entry of the workspace: the body of the loop.\<close>

definition allow_resource :: "ToolContext \<Rightarrow> WorkspaceResource \<Rightarrow> ToolContext" where
  "allow_resource c res =
     (if ws_Type res = ''namespace'' then
        (if ws_Id res \<noteq> [] then c\<lparr>tc_AllowedNamespaces := set_flag (ws_Id res) (tc_AllowedNamespaces c)\<rparr> else c)
      else if ws_Type res = ''helm'' then
        (if ws_Namespace res \<noteq> [] \<and> ws_Id res \<noteq> []
         then c\<lparr>tc_AllowedHelmReleases := allow_helm (ws_Namespace res) (ws_Id res) (tc_AllowedHelmReleases c)\<rparr> else c)
      else if ws_Type res = ''argocd'' then
        (if ws_Id res \<noteq> [] then c\<lparr>tc_AllowedArgoCDApps := set_flag (ws_Id res) (tc_AllowedArgoCDApps c)\<rparr> else c)
      else if ws_Type res = ''flux'' then
        (case cut (CHR ''/'') (ws_Id res) of
           Some (kind, name) \<Rightarrow>
             if name \<noteq> [] \<and> ws_Namespace res \<noteq> []
             then c\<lparr>tc_AllowedFluxReleases := set_flag (fluxOwnerKey kind (ws_Namespace res) name) (tc_AllowedFluxReleases c)\<rparr>
             else c
         | None \<Rightarrow> c)
      else c)"

text \<open>The workspace is given by its resources, the grant by its role.\<close>

definition newToolContextFromUserGrant ::
  "User option \<Rightarrow> string \<Rightarrow> bool \<Rightarrow> WorkspaceResource list option \<Rightarrow> string option \<Rightarrow> ToolContext" where
  "newToolContextFromUserGrant user workspace isAdmin workspaceSpec workspaceGrant =
     (let tc = plain_context user workspace
      in if isAdmin \<or> (workspaceSpec = None \<and> workspaceGrant = None) then tc
         else let tc1 = (case workspaceGrant of None \<Rightarrow> tc | Some role \<Rightarrow> tc\<lparr>tc_Role := role\<rparr>)
              in case workspaceSpec of None \<Rightarrow> tc1 | Some resources \<Rightarrow> foldl allow_resource tc1 resources)"

definition newToolContextFromAgent :: "string \<Rightarrow> string \<Rightarrow> string list \<Rightarrow> ToolContext" where
  "newToolContextFromAgent agentName workspaceRef resolvedNamespaces =
     (plain_context (Some \<lparr>u_FirstName = ''Agent'', u_LastName = agentName,
                           u_Email = ''agent:'' @ agentName @ ''@system'', u_Source = ''ai-agent''\<rparr>) workspaceRef)
       \<lparr>tc_Role := ''viewer'', tc_InterceptMutatingTools := True,
        tc_AllowedNamespaces :=
          Some (foldl (\<lambda>m ns. if ns \<noteq> [] then AList.update ns True m else m) [] resolvedNamespaces)\<rparr>"

section \<open>The guards of the tools\<close>

text \<open>Each is what the tool checks before it acts; \<open>None\<close> means that the call goes ahead.\<close>

datatype refusal = NotEditor | NameMissing | NamespaceDenied | ResourceDenied | ReleaseDenied

definition update_guard :: "ToolContext option \<Rightarrow> string \<Rightarrow> (string, string) gomap \<Rightarrow> refusal option" where
  "update_guard tc namespace meta =
     (if \<not> IsEditor tc \<and> \<not> IsAdmin tc then Some NotEditor
      else if \<not> IsResourceAllowed tc namespace meta then Some ResourceDenied else None)"

definition delete_guard :: "ToolContext option \<Rightarrow> string \<Rightarrow> string \<Rightarrow> refusal option" where
  "delete_guard tc namespace name =
     (if \<not> IsEditor tc \<and> \<not> IsAdmin tc then Some NotEditor
      else if name = [] then Some NameMissing
      else if \<not> IsNamespaceAllowed tc namespace \<and> \<not> hasOwnershipRestrictions tc then Some NamespaceDenied else None)"

definition create_guard :: "ToolContext option \<Rightarrow> string \<Rightarrow> refusal option" where
  "create_guard tc namespace =
     (if \<not> IsEditor tc \<and> \<not> IsAdmin tc then Some NotEditor
      else if \<not> IsNamespaceAllowed tc namespace \<and> \<not> hasOwnershipRestrictions tc then Some NamespaceDenied else None)"

definition helm_install_guard :: "ToolContext option \<Rightarrow> string \<Rightarrow> refusal option" where
  "helm_install_guard tc namespace =
     (if \<not> IsEditor tc \<and> \<not> IsAdmin tc then Some NotEditor
      else if \<not> IsNamespaceAllowed tc namespace then Some NamespaceDenied else None)"

definition helm_uninstall_guard :: "ToolContext option \<Rightarrow> string \<Rightarrow> string \<Rightarrow> refusal option" where
  "helm_uninstall_guard tc namespace release =
     (if \<not> IsEditor tc \<and> \<not> IsAdmin tc then Some NotEditor
      else if \<not> IsHelmReleaseAllowed tc namespace release then Some ReleaseDenied else None)"

definition viewerAllowedTools :: "string list" where
  "viewerAllowedTools =
     [''get_kubernetes_resources'', ''list_kubernetes_resources'', ''check_kubernetes_resource'', ''get_pod_logs'',
      ''get_pod_events'', ''helm_chart_search'', ''helm_chart_show'', ''helm_chart_versions'', ''helm_repo_list'',
      ''helm_release_list'', ''helm_release_get'', ''helm_release_history'', ''helm_release_status'']"

definition filterAiSDKTools :: "string option \<Rightarrow> string list \<Rightarrow> string list" where
  "filterAiSDKTools grantRole tools =
     (if grantRole \<noteq> Some ''viewer'' then tools else filter (\<lambda>t. t \<in> set viewerAllowedTools) tools)"

section \<open>What a workspace grants\<close>

text \<open>The declarative reading of a workspace entry: whether it is complete, and whether it grants a
  resource with the given namespace, annotations and labels.\<close>

definition flux_ref :: "WorkspaceResource \<Rightarrow> (string \<times> string) option" where
  "flux_ref res = (case cut (CHR ''/'') (ws_Id res) of
     Some (kind, name) \<Rightarrow> if name \<noteq> [] \<and> ws_Namespace res \<noteq> [] then Some (kind, name) else None | None \<Rightarrow> None)"

definition effective :: "WorkspaceResource \<Rightarrow> bool" where
  "effective res \<longleftrightarrow>
     (ws_Type res \<in> {''namespace'', ''argocd''} \<and> ws_Id res \<noteq> []) \<or>
     (ws_Type res = ''helm'' \<and> ws_Namespace res \<noteq> [] \<and> ws_Id res \<noteq> []) \<or>
     (ws_Type res = ''flux'' \<and> flux_ref res \<noteq> None)"

definition grants_namespace :: "string \<Rightarrow> WorkspaceResource \<Rightarrow> bool" where
  "grants_namespace ns res \<longleftrightarrow> ws_Type res = ''namespace'' \<and> ws_Id res \<noteq> [] \<and> ws_Id res = ns"

definition grants_helm :: "string \<Rightarrow> string \<Rightarrow> WorkspaceResource \<Rightarrow> bool" where
  "grants_helm ns release res \<longleftrightarrow>
     ws_Type res = ''helm'' \<and> ws_Namespace res \<noteq> [] \<and> ws_Namespace res = ns \<and> ws_Id res \<noteq> [] \<and> ws_Id res = release"

definition grants_argocd :: "string \<Rightarrow> WorkspaceResource \<Rightarrow> bool" where
  "grants_argocd app res \<longleftrightarrow> ws_Type res = ''argocd'' \<and> ws_Id res \<noteq> [] \<and> ws_Id res = app"

definition grants_flux :: "string \<Rightarrow> WorkspaceResource \<Rightarrow> bool" where
  "grants_flux owner res \<longleftrightarrow>
     ws_Type res = ''flux'' \<and> (\<exists>kind name. flux_ref res = Some (kind, name) \<and> owner = fluxOwnerKey kind (ws_Namespace res) name)"

definition grants_resource :: "string \<Rightarrow> (string, string) gomap \<Rightarrow> WorkspaceResource \<Rightarrow> bool" where
  "grants_resource ns meta res \<longleftrightarrow>
     grants_namespace ns res \<or>
     grants_helm ns (meta_get meta ''meta.helm.sh/release-name'') res \<or>
     grants_argocd (meta_get meta ''argocd.argoproj.io/instance'') res \<or>
     (meta_get meta ''kustomize.toolkit.fluxcd.io/name'' \<noteq> [] \<and>
        grants_flux (fluxOwnerKey ''Kustomization'' (meta_get meta ''kustomize.toolkit.fluxcd.io/namespace'')
                       (meta_get meta ''kustomize.toolkit.fluxcd.io/name'')) res) \<or>
     (meta_get meta ''helm.toolkit.fluxcd.io/name'' \<noteq> [] \<and>
        grants_flux (fluxOwnerKey ''HelmRelease'' (meta_get meta ''helm.toolkit.fluxcd.io/namespace'')
                       (meta_get meta ''helm.toolkit.fluxcd.io/name'')) res)"

text \<open>What a context allows, map by map.\<close>

definition helm_flag :: "ToolContext \<Rightarrow> string \<Rightarrow> string \<Rightarrow> bool" where
  "helm_flag c ns release \<longleftrightarrow> (\<exists>m rs. tc_AllowedHelmReleases c = Some m \<and> map_of m ns = Some rs \<and> flag rs release)"

definition argocd_flag :: "ToolContext \<Rightarrow> string \<Rightarrow> bool" where
  "argocd_flag c app \<longleftrightarrow> (case tc_AllowedArgoCDApps c of None \<Rightarrow> False | Some m \<Rightarrow> flag m app)"

definition flux_flag :: "ToolContext \<Rightarrow> string \<Rightarrow> bool" where
  "flux_flag c owner \<longleftrightarrow> (case tc_AllowedFluxReleases c of None \<Rightarrow> False | Some m \<Rightarrow> flag m owner)"

lemmas allow_defs = allow_resource_def set_flag_def flag_def flux_ref_def

lemma allow_resource_namespace: "namespace_flag (allow_resource c res) ns \<longleftrightarrow> namespace_flag c ns \<or> grants_namespace ns res"
  by (auto simp: allow_defs namespace_flag_def grants_namespace_def split: option.splits)

lemma allow_resource_helm: "helm_flag (allow_resource c res) ns rel \<longleftrightarrow> helm_flag c ns rel \<or> grants_helm ns rel res"
  by (auto simp: allow_defs helm_flag_def grants_helm_def allow_helm_def split: option.splits if_splits)

lemma allow_resource_argocd: "argocd_flag (allow_resource c res) app \<longleftrightarrow> argocd_flag c app \<or> grants_argocd app res"
  by (auto simp: allow_defs argocd_flag_def grants_argocd_def split: option.splits)

lemma allow_resource_flux: "flux_flag (allow_resource c res) owner \<longleftrightarrow> flux_flag c owner \<or> grants_flux owner res"
  by (auto simp: allow_defs flux_flag_def grants_flux_def split: option.splits if_splits)

lemma allow_resource_restricts:
  "hasRestrictions (Some (allow_resource c res)) \<longleftrightarrow> hasRestrictions (Some c) \<or> effective res"
  by (auto simp: allow_defs hasRestrictions_def effective_def allow_helm_def split: option.splits if_splits)

lemma allow_resource_role [simp]: "tc_Role (allow_resource c res) = tc_Role c"
  by (auto simp: allow_resource_def split: option.split)

lemmas allow_folds =
  foldl_disj [where f = allow_resource and P = "\<lambda>c. namespace_flag c ns" for ns, OF allow_resource_namespace]
  foldl_disj [where f = allow_resource and P = "\<lambda>c. helm_flag c ns rel" for ns rel, OF allow_resource_helm]
  foldl_disj [where f = allow_resource and P = "\<lambda>c. argocd_flag c app" for app, OF allow_resource_argocd]
  foldl_disj [where f = allow_resource and P = "\<lambda>c. flux_flag c owner" for owner, OF allow_resource_flux]
  foldl_disj [where f = allow_resource and P = "\<lambda>c. hasRestrictions (Some c)", OF allow_resource_restricts]

text \<open>The context a workspace user works under.\<close>

abbreviation workspace_context :: "User option \<Rightarrow> string \<Rightarrow> WorkspaceResource list \<Rightarrow> string option \<Rightarrow> ToolContext" where
  "workspace_context user workspace resources grant \<equiv>
     newToolContextFromUserGrant user workspace False (Some resources) grant"

lemma workspace_context_fold:
  "workspace_context user workspace resources grant =
     foldl allow_resource (case grant of None \<Rightarrow> plain_context user workspace
       | Some role \<Rightarrow> (plain_context user workspace)\<lparr>tc_Role := role\<rparr>) resources"
  by (simp add: newToolContextFromUserGrant_def Let_def)

lemma workspace_context_flags:
  fixes u w rs g
  defines "c \<equiv> workspace_context u w rs g"
  shows "namespace_flag c ns \<longleftrightarrow> (\<exists>r \<in> set rs. grants_namespace ns r)"
    and "helm_flag c ns rel \<longleftrightarrow> (\<exists>r \<in> set rs. grants_helm ns rel r)"
    and "argocd_flag c app \<longleftrightarrow> (\<exists>r \<in> set rs. grants_argocd app r)"
    and "flux_flag c owner \<longleftrightarrow> (\<exists>r \<in> set rs. grants_flux owner r)"
    and "hasRestrictions (Some c) \<longleftrightarrow> (\<exists>r \<in> set rs. effective r)"
  unfolding c_def workspace_context_fold allow_folds
  by (auto simp: plain_context_def namespace_flag_def helm_flag_def argocd_flag_def flux_flag_def hasRestrictions_def
      split: option.splits)

lemma owned_flags:
  "helm_owned c ns meta \<longleftrightarrow> meta_get meta ''meta.helm.sh/release-name'' \<noteq> [] \<and> helm_flag c ns (meta_get meta ''meta.helm.sh/release-name'')"
  "argocd_owned c meta \<longleftrightarrow> meta_get meta ''argocd.argoproj.io/instance'' \<noteq> [] \<and> argocd_flag c (meta_get meta ''argocd.argoproj.io/instance'')"
  "flux_owned c meta \<longleftrightarrow>
     (meta_get meta ''kustomize.toolkit.fluxcd.io/name'' \<noteq> [] \<and>
        flux_flag c (fluxOwnerKey ''Kustomization'' (meta_get meta ''kustomize.toolkit.fluxcd.io/namespace'')
                       (meta_get meta ''kustomize.toolkit.fluxcd.io/name''))) \<or>
     (meta_get meta ''helm.toolkit.fluxcd.io/name'' \<noteq> [] \<and>
        flux_flag c (fluxOwnerKey ''HelmRelease'' (meta_get meta ''helm.toolkit.fluxcd.io/namespace'')
                       (meta_get meta ''helm.toolkit.fluxcd.io/name'')))"
  by (auto simp: helm_owned_def helm_flag_def argocd_owned_def argocd_flag_def flux_owned_def flux_flag_def Let_def
      split: option.splits)

section \<open>Properties\<close>


text \<open>The release check does not see the namespace scope: for a workspace without any Helm
  entry every release in every namespace passes it, so an editor of a workspace that only holds
  namespaces may upgrade, roll back and uninstall releases anywhere in the cluster.\<close>

lemma helm_release_scope_ignored:
  assumes "\<forall>res \<in> set resources. ws_Type res \<noteq> ''helm''" and "grant = Some ''editor''"
  shows "helm_uninstall_guard (Some (workspace_context user workspace resources grant)) ns release = None"
proof -
  have "tc_AllowedHelmReleases (foldl allow_resource c rs) = tc_AllowedHelmReleases c"
    if "\<forall>res \<in> set rs. ws_Type res \<noteq> ''helm''" for c rs
    using that by (induction rs arbitrary: c) (auto simp: allow_resource_def split: option.splits)
  moreover have "tc_Role (foldl allow_resource c rs) = tc_Role c" for c rs
    by (induction rs arbitrary: c) auto
  ultimately show ?thesis using assms
    by (auto simp: workspace_context_fold helm_uninstall_guard_def IsEditor_def IsHelmReleaseAllowed_def plain_context_def)
qed

text \<open>The guards of the deleting and creating tools stop looking at the object as soon as the
  workspace has an Argo CD or Flux entry.\<close>

lemma ownership_opens_every_namespace:
  assumes "hasOwnershipRestrictions tc" "IsEditor tc" "name \<noteq> []"
  shows "delete_guard tc ns name = None" "create_guard tc ns = None"
  using assms by (simp_all add: delete_guard_def create_guard_def)

text \<open>An agent's context: a viewer, confined to the resolved namespaces.\<close>

lemma agent_context_confined:
  "IsNamespaceAllowed (Some (newToolContextFromAgent name ref namespaces)) ns \<longleftrightarrow> ns \<noteq> [] \<and> ns \<in> set namespaces"
  "\<not> IsEditor (Some (newToolContextFromAgent name ref namespaces))"
  "\<not> IsAdmin (Some (newToolContextFromAgent name ref namespaces))"
proof -
  have "flag (foldl (\<lambda>m ns. if ns \<noteq> [] then AList.update ns True m else m) m nss) ns \<longleftrightarrow>
      flag m ns \<or> (\<exists>x \<in> set nss. x \<noteq> [] \<and> x = ns)" for m nss
    by (rule foldl_disj [where P = "\<lambda>m. flag m ns"]) (auto simp: flag_def)
  then show "IsNamespaceAllowed (Some (newToolContextFromAgent name ref namespaces)) ns \<longleftrightarrow> ns \<noteq> [] \<and> ns \<in> set namespaces"
    by (auto simp: IsNamespaceAllowed_def hasRestrictions_def namespace_flag_def newToolContextFromAgent_def
        plain_context_def flag_def [of "[]"])
qed (simp_all add: IsEditor_def IsAdmin_def newToolContextFromAgent_def)

end
