(* ===== verification/AiLoop.thy ===== *)
theory AiLoop
  imports AiAccess
begin

text \<open>
  The unattended agent run: \<open>ai/agent_loop.go\<close>, the dispatch of a tool call in
  \<open>ai/tools_exec.go\<close> and the compaction of the conversation in \<open>ai/compact.go\<close>.

  The model provider, the tools, MCP sessions, the approval callback, audit and progress
  reporting act on a world of arbitrary type \<open>'w\<close>; the environment holds them as functions. The
  loop has no bound of its own, so it is a partial function whose \<open>None\<close> is a run that never
  ends.
\<close>

section \<open>Messages\<close>

datatype role = RoleSystem | RoleUser | RoleAssistant | RoleTool

record ToolCall =
  tk_ID :: string
  tk_Name :: string
  tk_Arguments :: string

record Message =
  ms_Role :: role
  ms_Content :: string
  ms_ToolCallID :: string
  ms_ToolName :: string
  ms_ToolCalls :: "ToolCall list"
  ms_CacheControl :: bool

record Response =
  rs_Content :: string
  rs_ToolCalls :: "ToolCall list"
  rs_InputTokens :: int
  rs_OutputTokens :: int
  rs_FinishReason :: string

definition text_message :: "role \<Rightarrow> string \<Rightarrow> Message" where
  "text_message rl content = \<lparr>ms_Role = rl, ms_Content = content, ms_ToolCallID = [], ms_ToolName = [],
     ms_ToolCalls = [], ms_CacheControl = False\<rparr>"

definition buildAgentMessages :: "string \<Rightarrow> string \<Rightarrow> Message list" where
  "buildAgentMessages systemPrompt userPrompt =
     [(text_message RoleSystem systemPrompt)\<lparr>ms_CacheControl := True\<rparr>, text_message RoleUser userPrompt]"

definition MoveCacheBreakpoint :: "Message list \<Rightarrow> int \<Rightarrow> Message list \<times> int" where
  "MoveCacheBreakpoint messages idx =
     (if messages = [] then (messages, idx)
      else let last = int (length messages) - 1
           in if idx = last then (messages, idx)
              else let ms1 = (if 0 \<le> idx \<and> idx < last
                              then messages[nat idx := (messages ! nat idx)\<lparr>ms_CacheControl := False\<rparr>] else messages)
                   in (ms1[nat last := (ms1 ! nat last)\<lparr>ms_CacheControl := True\<rparr>], last))"

section \<open>The environment\<close>

datatype step_event = StepReasoning | StepTool string string | StepCompaction | StepDone string string

record 'w loop_env =
  le_chat :: "Message list \<Rightarrow> 'w \<Rightarrow> 'w \<times> (string + Response)"
  le_chat_plain :: "Message list \<Rightarrow> 'w \<Rightarrow> 'w \<times> (string + Response)"
  le_window :: "int option"
  le_moves :: bool
  le_ctx_err :: "'w \<Rightarrow> string option"
  le_args :: "string \<Rightarrow> json option"
  le_tool :: "string \<Rightarrow> json \<Rightarrow> ToolContext option \<Rightarrow> 'w \<Rightarrow> 'w \<times> string"
  le_audit :: "ToolContext option \<Rightarrow> string \<Rightarrow> json \<Rightarrow> string \<Rightarrow> 'w \<Rightarrow> 'w"
  le_step :: "step_event \<Rightarrow> 'w \<Rightarrow> 'w"
  le_progress :: "int \<Rightarrow> string \<Rightarrow> 'w \<Rightarrow> 'w"
  le_approval :: "(string \<Rightarrow> json \<Rightarrow> 'w \<Rightarrow> 'w \<times> (string + ToolContext)) option"
  le_mcp_in_sessions :: "string \<Rightarrow> bool"
  le_mcp_needs_approval :: "string \<Rightarrow> bool"
  le_mcp_call :: "string \<Rightarrow> json \<Rightarrow> 'w \<Rightarrow> 'w \<times> (string + string)"
  le_toolCtx :: "ToolContext option"

section \<open>Dispatching one tool call\<close>

definition kubernetesToolDefinitions :: "string list" where
  "kubernetesToolDefinitions =
     [''get_kubernetes_resources'', ''list_kubernetes_resources'', ''check_kubernetes_resource'',
      ''update_kubernetes_resource'', ''delete_kubernetes_resource'', ''create_kubernetes_resource'',
      ''get_pod_logs'', ''get_pod_events'']"

definition helmToolDefinitions :: "string list" where
  "helmToolDefinitions =
     [''helm_repo_add'', ''helm_repo_patch'', ''helm_repo_update'', ''helm_repo_list'', ''helm_repo_remove'',
      ''helm_chart_search'', ''helm_chart_install'', ''helm_oci_install'', ''helm_chart_show'', ''helm_chart_versions'',
      ''helm_release_upgrade'', ''helm_release_uninstall'', ''helm_release_list'', ''helm_release_status'',
      ''helm_release_history'', ''helm_release_rollback'', ''helm_release_get'', ''helm_release_link'',
      ''helm_release_get_workloads'']"

definition toolDefinitions :: "string list" where
  "toolDefinitions = kubernetesToolDefinitions @ helmToolDefinitions"

definition mutatingBuiltinTools :: "string list" where
  "mutatingBuiltinTools = [''update_kubernetes_resource'', ''create_kubernetes_resource'', ''delete_kubernetes_resource'']"

datatype toolOutcome = Result string | Fatal string | Panic

text \<open>\<open>%q\<close> of a plain name.\<close>

definition quoted :: "string \<Rightarrow> string" where
  "quoted s = CHR 0x22 # s @ [CHR 0x22]"

definition not_executed :: "string \<Rightarrow> string \<Rightarrow> string" where
  "not_executed name reason = ''Tool call '' @ quoted name @ '' was not executed: '' @ reason"

definition no_mechanism :: "string \<Rightarrow> string" where
  "no_mechanism name = ''Tool call '' @ quoted name @
     '' requires human approval but no approval mechanism is configured for this run. The call was blocked.''"

text \<open>A built-in tool: intercepted when it mutates, run under the approver's context once approved.\<close>

definition dispatch_builtin :: "'w loop_env \<Rightarrow> string \<Rightarrow> json \<Rightarrow> string \<Rightarrow> 'w \<Rightarrow> 'w \<times> toolOutcome" where
  "dispatch_builtin E name args rawArgs w0 =
     (let w1 = le_step E (StepTool name rawArgs) w0;
          (w2, execCtx, result) =
            (if name \<in> set mutatingBuiltinTools then
               (case le_toolCtx E of
                  None \<Rightarrow> (w1, le_toolCtx E, no_mechanism name)
                | Some c \<Rightarrow>
                    (case le_approval E of
                       None \<Rightarrow> (w1, le_toolCtx E, no_mechanism name)
                     | Some approve \<Rightarrow>
                         (case approve name args w1 of
                            (w, Inl reason) \<Rightarrow> (w, le_toolCtx E, not_executed name reason)
                          | (w, Inr approverCtx) \<Rightarrow>
                              (let (w', res) = le_tool E name args (Some approverCtx) w in (w', Some approverCtx, res)))))
             else (let (w', res) = le_tool E name args (le_toolCtx E) w1 in (w', le_toolCtx E, res)));
          w3 = le_audit E execCtx name args result w2
      in (le_step E (StepDone name result) w3, Result result))"

text \<open>An MCP tool of a connected session. Without an approval callback a tool that needs approval
  dereferences nil.\<close>

definition mcp_text :: "string + string \<Rightarrow> string" where
  "mcp_text r = (case r of Inl e \<Rightarrow> ''MCP tool error: '' @ e | Inr s \<Rightarrow> s)"

definition dispatch_mcp :: "'w loop_env \<Rightarrow> string \<Rightarrow> json \<Rightarrow> string \<Rightarrow> 'w \<Rightarrow> 'w \<times> toolOutcome" where
  "dispatch_mcp E name args rawArgs w0 =
     (let w1 = le_step E (StepTool name rawArgs) w0;
          finish = (\<lambda>ctx data w. (le_step E (StepDone name data) (le_audit E ctx name args data w), Result data));
          call = (\<lambda>ctx w. let (w', r) = le_mcp_call E name args w in finish ctx (mcp_text r) w')
      in if le_mcp_needs_approval E name then
           (case le_approval E of
              None \<Rightarrow> (w1, Panic)
            | Some approve \<Rightarrow>
                (case approve name args w1 of
                   (w, Inl reason) \<Rightarrow> finish (le_toolCtx E) (not_executed name reason) w
                 | (w, Inr approverCtx) \<Rightarrow> call (Some approverCtx) w))
         else call (le_toolCtx E) w1)"

text \<open>\<open>dispatchToolCall\<close> with the options of an agent run: mutating tools intercepted, MCP scoped
  to the agent's sessions, unknown tools fatal.\<close>

definition dispatchToolCall :: "'w loop_env \<Rightarrow> string \<Rightarrow> json \<Rightarrow> string \<Rightarrow> 'w \<Rightarrow> 'w \<times> toolOutcome" where
  "dispatchToolCall E name args rawArgs w =
     (if name \<in> set toolDefinitions then dispatch_builtin E name args rawArgs w
      else if le_mcp_in_sessions E name then dispatch_mcp E name args rawArgs w
      else (w, Fatal (''unknown tool called: '' @ name)))"

section \<open>Compaction\<close>

definition estimateAiSDKMessageBytes :: "Message list \<Rightarrow> int" where
  "estimateAiSDKMessageBytes messages =
     sum_list (map (\<lambda>m. int (length (ms_Content m)) + sum_list (map (\<lambda>c. int (length (tk_Arguments c))) (ms_ToolCalls m))) messages)"

definition compactedSummaryPrefix :: string where
  "compactedSummaryPrefix = ''[Conversation compacted]'' @ [CHR 0x0A, CHR 0x0A]"

definition buildCompactedAiSDKMessages :: "Message \<Rightarrow> Message \<Rightarrow> string \<Rightarrow> Message list" where
  "buildCompactedAiSDKMessages systemMsg originalUserMsg summary =
     [systemMsg\<lparr>ms_CacheControl := True\<rparr>, originalUserMsg, text_message RoleAssistant (compactedSummaryPrefix @ summary)]"

definition compactionSystemPrompt :: string where
  "compactionSystemPrompt = join [CHR 0x0A]
     [''You are an AI agent summarizing your own prior conversation to save context space.'',
      ''Write a concise first-person progress report that covers:'',
      ''- The original task you were given'',
      ''- Key findings from every tool result (resource states, errors, important values)'',
      ''- Actions taken and their outcomes'',
      ''- Current status and any remaining steps'',
      [],
      ''Be factual and complete. You will continue the task with only this summary as prior context.'']"

definition compactMessagesWithAI ::
  "'w loop_env \<Rightarrow> Message list \<Rightarrow> 'w \<Rightarrow> 'w \<times> (string + Message list \<times> int)" where
  "compactMessagesWithAI E messages w =
     (if length messages < 2 then (w, Inl ''message list too short to compact'')
      else case le_chat_plain E (text_message RoleSystem compactionSystemPrompt # tl messages @
                    [text_message RoleUser ''Compact this conversation into a concise first-person progress report.'']) w of
             (w', Inl err) \<Rightarrow> (w', Inl err)
           | (w', Inr resp) \<Rightarrow>
               (w', if rs_Content resp = [] then Inl ''compaction returned no content''
                    else Inr (buildCompactedAiSDKMessages (messages ! 0) (messages ! 1) (rs_Content resp),
                              rs_InputTokens resp + rs_OutputTokens resp)))"

section \<open>The loop\<close>

datatype run_end = RunOk | RunErr string | RunBudget string | RunPanic

definition runBudgetExhausted :: "int \<Rightarrow> int \<Rightarrow> int \<Rightarrow> int \<Rightarrow> string" where
  "runBudgetExhausted maxToolCalls toolCallCount maxTokensPerRun tokensUsed =
     (if maxToolCalls > 0 \<and> toolCallCount \<ge> maxToolCalls then
        ''run stopped after '' @ show_int toolCallCount @ '' tool calls (per-run tool call limit: '' @ show_int maxToolCalls @ '')''
      else if maxTokensPerRun > 0 \<and> tokensUsed \<ge> maxTokensPerRun then
        ''run stopped after '' @ show_int tokensUsed @ '' tokens (per-run token limit: '' @ show_int maxTokensPerRun @ '')''
      else [])"

text \<open>The conversation limit in bytes: four fifths of the window at four bytes a token; no limit
  when the window is unknown.\<close>

definition compact_limit :: "'w loop_env \<Rightarrow> int option" where
  "compact_limit E = (case le_window E of Some n \<Rightarrow> if n > 0 then Some (n * 4 * 80 div 100) else None | None \<Rightarrow> None)"

definition maybe_compact ::
  "'w loop_env \<Rightarrow> Message list \<Rightarrow> int \<Rightarrow> int \<Rightarrow> 'w \<Rightarrow> 'w \<times> Message list \<times> int \<times> int" where
  "maybe_compact E messages cachedIdx tokens w =
     (case compact_limit E of
        None \<Rightarrow> (w, messages, cachedIdx, tokens)
      | Some limit \<Rightarrow>
          if estimateAiSDKMessageBytes messages > limit then
            (let w1 = le_step E StepCompaction w
             in case compactMessagesWithAI E messages w1 of
                  (w2, Inl err) \<Rightarrow> (le_step E (StepDone ''Conversation compaction failed'' err) w2, messages, cachedIdx, tokens)
                | (w2, Inr (compacted, compactTokens)) \<Rightarrow>
                    (le_step E (StepDone ''Compaction finished successfully'' []) w2, compacted, -1, tokens + compactTokens))
          else (w, messages, cachedIdx, tokens))"

text \<open>The tool calls of one answer, in order. An early return ends the run.\<close>

definition describeToolCall :: "string \<Rightarrow> json \<Rightarrow> string" where
  "describeToolCall name args =
     (let part = (\<lambda>key. case nested_string args [key] of [] \<Rightarrow> [] | v \<Rightarrow> [key @ '': '' @ v]);
          details = join '', '' (concat (map part [''kind'', ''name'', ''release'', ''namespace'']))
      in if details = [] then name else name @ '' ('' @ details @ '')'')"

fun run_tools ::
  "'w loop_env \<Rightarrow> int \<Rightarrow> ToolCall list \<Rightarrow> Message list \<Rightarrow> 'w \<Rightarrow> 'w \<times> Message list \<times> run_end option" where
  "run_tools E tokens [] messages w = (w, messages, None)"
| "run_tools E tokens (tc # tcs) messages w =
     (case le_ctx_err E w of
        Some err \<Rightarrow> (w, messages, Some (RunErr err))
      | None \<Rightarrow>
          (case le_args E (tk_Arguments tc) of
             None \<Rightarrow> (w, messages, Some (RunErr ''error unmarshaling tool arguments''))
           | Some args \<Rightarrow>
               (case dispatchToolCall E (tk_Name tc) args (tk_Arguments tc)
                       (le_progress E tokens (describeToolCall (tk_Name tc) args) w) of
                  (w1, Fatal err) \<Rightarrow> (w1, messages, Some (RunErr err))
                | (w1, Panic) \<Rightarrow> (w1, messages, Some RunPanic)
                | (w1, Result content) \<Rightarrow>
                    run_tools E tokens tcs
                      (messages @ [(text_message RoleTool content)\<lparr>ms_ToolCallID := tk_ID tc, ms_ToolName := tk_Name tc\<rparr>]) w1)))"

text \<open>What one round of the loop leads to: the end of the run, or the state of the next round.\<close>

datatype 'w round = Ended 'w int run_end | Again "Message list" int int int 'w

definition agent_round ::
  "'w loop_env \<Rightarrow> int \<Rightarrow> int \<Rightarrow> Message list \<Rightarrow> int \<Rightarrow> int \<Rightarrow> int \<Rightarrow> 'w \<Rightarrow> 'w round" where
  "agent_round E maxToolCalls maxTokensPerRun messages0 cachedIdx0 tokens0 toolCallCount w0 =
     (let w1 = le_step E StepReasoning w0;
          (messages1, cachedIdx1) = (if le_moves E then MoveCacheBreakpoint messages0 cachedIdx0 else (messages0, cachedIdx0))
      in case le_chat E messages1 w1 of
           (w2, Inl err) \<Rightarrow> Ended (le_step E (StepDone ''AI model call failed'' err) w2) tokens0 (RunErr err)
         | (w2, Inr resp) \<Rightarrow>
             (let tokens1 = tokens0 + rs_InputTokens resp + rs_OutputTokens resp;
                  w3 = le_progress E tokens1 [] w2;
                  (w4, messages2, cachedIdx2, tokens2) = maybe_compact E messages1 cachedIdx1 tokens1 w3
              in if rs_FinishReason resp = ''length'' then
                   Ended (le_step E (StepDone ''Run stopped: model hit its limit (stop reason: length)'' []) w4) tokens2
                     (RunBudget ''run stopped: model hit its limit (stop reason: length)'')
                 else if rs_Content resp = [] \<and> rs_ToolCalls resp = [] then
                   Ended (le_step E (StepDone ''No content or tool calls returned; run complete'' []) w4) tokens2
                     (RunErr ''no content returned from AI model'')
                 else
                   (let messages3 = messages2 @ [(text_message RoleAssistant (rs_Content resp))\<lparr>ms_ToolCalls := rs_ToolCalls resp\<rparr>];
                        w5 = le_step E (StepDone ''Finished Reasoning'' (trim_space (rs_Content resp))) w4
                    in if rs_ToolCalls resp = [] then Ended w5 tokens2 RunOk
                       else case run_tools E tokens2 (rs_ToolCalls resp) messages3 w5 of
                              (w6, messages4, Some e) \<Rightarrow> Ended w6 tokens2 e
                            | (w6, messages4, None) \<Rightarrow>
                                (let count = toolCallCount + int (length (rs_ToolCalls resp));
                                     msg = runBudgetExhausted maxToolCalls count maxTokensPerRun tokens2
                                 in if msg \<noteq> [] then Ended w6 tokens2 (RunBudget msg)
                                    else Again messages4 cachedIdx2 tokens2 count w6))))"

partial_function (option) runAgentLoop ::
  "'w loop_env \<Rightarrow> int \<Rightarrow> int \<Rightarrow> Message list \<Rightarrow> int \<Rightarrow> int \<Rightarrow> int \<Rightarrow> 'w \<Rightarrow> ('w \<times> int \<times> run_end) option" where
  "runAgentLoop E maxToolCalls maxTokensPerRun messages cachedIdx tokens count w =
     (case agent_round E maxToolCalls maxTokensPerRun messages cachedIdx tokens count w of
        Ended w' tokens' e \<Rightarrow> Some (w', tokens', e)
      | Again messages' cachedIdx' tokens' count' w' \<Rightarrow>
          runAgentLoop E maxToolCalls maxTokensPerRun messages' cachedIdx' tokens' count' w')"

section \<open>The loop ends\<close>

text \<open>The loop cut off after a number of rounds.\<close>

fun agent_rounds ::
  "nat \<Rightarrow> 'w loop_env \<Rightarrow> int \<Rightarrow> int \<Rightarrow> Message list \<Rightarrow> int \<Rightarrow> int \<Rightarrow> int \<Rightarrow> 'w \<Rightarrow> ('w \<times> int \<times> run_end) option" where
  "agent_rounds 0 E maxToolCalls maxTokensPerRun messages cachedIdx tokens count w = None"
| "agent_rounds (Suc n) E maxToolCalls maxTokensPerRun messages cachedIdx tokens count w =
     (case agent_round E maxToolCalls maxTokensPerRun messages cachedIdx tokens count w of
        Ended w' tokens' e \<Rightarrow> Some (w', tokens', e)
      | Again messages' cachedIdx' tokens' count' w' \<Rightarrow>
          agent_rounds n E maxToolCalls maxTokensPerRun messages' cachedIdx' tokens' count' w')"

lemma agent_rounds_run:
  "agent_rounds n E m t messages i k c w = Some out \<Longrightarrow> runAgentLoop E m t messages i k c w = Some out"
proof (induction n arbitrary: messages i k c w)
  case (Suc n)
  then show ?case by (auto simp: runAgentLoop.simps [of E m t messages i k c w] split: round.splits)
qed simp

lemma budget_message: "runBudgetExhausted m c t k = [] \<Longrightarrow> m > 0 \<Longrightarrow> c < m"
  by (auto simp: runBudgetExhausted_def split: if_splits)

text \<open>A round that does not end the run has made at least one tool call and stayed within the
  limit.\<close>

lemma agent_round_again:
  assumes "agent_round E m t messages i k c w = Again messages' i' k' c' w'"
  shows "c < c'" and "m > 0 \<Longrightarrow> c' < m"
  using assms budget_message [of m c' t k']
  by (auto simp: agent_round_def Let_def split: prod.splits sum.splits if_splits option.splits)

lemma agent_rounds_enough:
  "m > 0 \<Longrightarrow> 0 < n \<Longrightarrow> m - c \<le> int n \<Longrightarrow> \<exists>out. agent_rounds n E m t messages i k c w = Some out"
proof (induction n arbitrary: messages i k c w)
  case (Suc n)
  show ?case
  proof (cases "agent_round E m t messages i k c w")
    case (Again messages' i' k' c' w')
    with agent_round_again [OF Again] Suc.prems have "m - c' \<le> int n" "0 < n" by auto
    with Suc.IH Suc.prems Again show ?thesis by auto
  qed simp
qed simp

section \<open>Mutations need an approval\<close>

text \<open>An environment in which nobody approves anything.\<close>

definition never_approved :: "'w loop_env \<Rightarrow> bool" where
  "never_approved E \<longleftrightarrow>
     (\<forall>approve name args w. le_approval E = Some approve \<longrightarrow> (\<exists>w' reason. approve name args w = (w', Inl reason)))"

text \<open>The tools that change a Kubernetes object, and an implementation of the tools that agrees on
  all others.\<close>

definition kubernetes_writers :: "string set" where
  "kubernetes_writers = {''create_kubernetes_resource'', ''update_kubernetes_resource'', ''delete_kubernetes_resource''}"

definition same_reading_tools :: "'w loop_env \<Rightarrow> (string \<Rightarrow> json \<Rightarrow> ToolContext option \<Rightarrow> 'w \<Rightarrow> 'w \<times> string) \<Rightarrow> bool" where
  "same_reading_tools E f \<longleftrightarrow> (\<forall>name. name \<notin> kubernetes_writers \<longrightarrow> f name = le_tool E name)"

lemma kubernetes_writers_intercepted: "kubernetes_writers \<subseteq> set mutatingBuiltinTools"
  by (simp add: kubernetes_writers_def mutatingBuiltinTools_def)

lemma other_fields:
  "le_chat (E\<lparr>le_tool := f\<rparr>) = le_chat E" "le_chat_plain (E\<lparr>le_tool := f\<rparr>) = le_chat_plain E"
  "le_window (E\<lparr>le_tool := f\<rparr>) = le_window E" "le_moves (E\<lparr>le_tool := f\<rparr>) = le_moves E"
  "le_ctx_err (E\<lparr>le_tool := f\<rparr>) = le_ctx_err E" "le_args (E\<lparr>le_tool := f\<rparr>) = le_args E"
  "le_audit (E\<lparr>le_tool := f\<rparr>) = le_audit E" "le_step (E\<lparr>le_tool := f\<rparr>) = le_step E"
  "le_progress (E\<lparr>le_tool := f\<rparr>) = le_progress E" "le_approval (E\<lparr>le_tool := f\<rparr>) = le_approval E"
  "le_mcp_in_sessions (E\<lparr>le_tool := f\<rparr>) = le_mcp_in_sessions E" "le_mcp_call (E\<lparr>le_tool := f\<rparr>) = le_mcp_call E"
  "le_mcp_needs_approval (E\<lparr>le_tool := f\<rparr>) = le_mcp_needs_approval E" "le_toolCtx (E\<lparr>le_tool := f\<rparr>) = le_toolCtx E"
  by simp_all

lemma dispatch_unapproved:
  assumes "never_approved E" "same_reading_tools E f"
  shows "dispatchToolCall (E\<lparr>le_tool := f\<rparr>) name args raw w = dispatchToolCall E name args raw w"
proof -
  have "dispatch_builtin (E\<lparr>le_tool := f\<rparr>) name args raw w = dispatch_builtin E name args raw w"
  proof (cases "name \<in> set mutatingBuiltinTools")
    case True
    then show ?thesis
    proof (cases "le_approval E")
      case (Some approve)
      then obtain w' reason where "approve name args (le_step E (StepTool name raw) w) = (w', Inl reason)"
        using assms(1) unfolding never_approved_def by blast
      with Some True show ?thesis by (simp add: dispatch_builtin_def Let_def split: option.splits)
    qed (simp add: dispatch_builtin_def Let_def split: option.splits)
  next
    case False
    with kubernetes_writers_intercepted have "name \<notin> kubernetes_writers" by blast
    with assms(2) False show ?thesis by (simp add: dispatch_builtin_def same_reading_tools_def)
  qed
  then show ?thesis unfolding dispatchToolCall_def dispatch_mcp_def other_fields by simp
qed

text \<open>Two environments in which every tool call has the same effect and answer give the same run.\<close>

definition same_calls :: "'w loop_env \<Rightarrow> 'w loop_env \<Rightarrow> bool" where
  "same_calls E E' \<longleftrightarrow>
     le_chat E' = le_chat E \<and> le_chat_plain E' = le_chat_plain E \<and> le_window E' = le_window E \<and> le_moves E' = le_moves E \<and>
     le_ctx_err E' = le_ctx_err E \<and> le_args E' = le_args E \<and> le_step E' = le_step E \<and> le_progress E' = le_progress E \<and>
     dispatchToolCall E' = dispatchToolCall E"

lemma run_tools_same_calls: "same_calls E E' \<Longrightarrow> run_tools E' tokens tcs messages w = run_tools E tokens tcs messages w"
proof (induction tcs arbitrary: messages w)
  case (Cons tc tcs)
  then show ?case by (simp add: same_calls_def split: option.splits prod.splits toolOutcome.splits)
qed simp

lemma agent_round_same_calls:
  assumes "same_calls E E'"
  shows "agent_round E' m t messages i k c w = agent_round E m t messages i k c w"
proof -
  have eqs: "le_chat E' = le_chat E" "le_chat_plain E' = le_chat_plain E" "le_window E' = le_window E"
    "le_moves E' = le_moves E" "le_step E' = le_step E" "le_progress E' = le_progress E"
    using assms by (simp_all add: same_calls_def)
  have "maybe_compact E' = maybe_compact E"
    unfolding maybe_compact_def compact_limit_def compactMessagesWithAI_def eqs by (rule refl)
  then show ?thesis unfolding agent_round_def eqs run_tools_same_calls [OF assms] by simp
qed

lemma agent_rounds_same_calls:
  assumes "same_calls E E'"
  shows "agent_rounds n E' m t messages i k c w = agent_rounds n E m t messages i k c w"
  by (induction n arbitrary: messages i k c w)
     (simp_all add: agent_round_same_calls [OF assms] split: round.split)

lemma run_same_calls:
  assumes "same_calls E E'" "m > 0"
  shows "runAgentLoop E' m t messages (-1) 0 0 w = runAgentLoop E m t messages (-1) 0 0 w"
proof -
  obtain out where "agent_rounds (nat m) E m t messages (-1) 0 0 w = Some out"
    using agent_rounds_enough [of m "nat m" 0] assms(2) by fastforce
  then show ?thesis
    using agent_rounds_run agent_rounds_same_calls [OF assms(1)] by metis
qed

lemma unapproved_same_calls:
  "never_approved E \<Longrightarrow> same_reading_tools E f \<Longrightarrow> same_calls E (E\<lparr>le_tool := f\<rparr>)"
  by (simp add: same_calls_def fun_eq_iff dispatch_unapproved)

section \<open>Properties\<close>

text \<open>C16: An agent run always ends: with a positive limit on tool calls, whatever the model
  answers and the tools return, the loop returns after at most as many rounds as the limit
  allows tool calls.\<close>

theorem agent_run_ends:
  assumes "maxToolCalls > 0"
  shows "\<exists>out. agent_rounds (nat maxToolCalls) E maxToolCalls maxTokensPerRun messages (-1) 0 0 w = Some out \<and>
    runAgentLoop E maxToolCalls maxTokensPerRun messages (-1) 0 0 w = Some out"
  using agent_rounds_enough [of maxToolCalls "nat maxToolCalls" 0] agent_rounds_run assms by fastforce

text \<open>A model that asks for a deletion in every answer, and a user who refuses.\<close>

definition demo_call :: ToolCall where
  "demo_call = \<lparr>tk_ID = ''1'', tk_Name = ''delete_kubernetes_resource'', tk_Arguments = ''{}''\<rparr>"

definition demo_loop :: "string list loop_env" where
  "demo_loop = \<lparr>le_chat = (\<lambda>_ w. (w, Inr \<lparr>rs_Content = ''deleting'', rs_ToolCalls = [demo_call], rs_InputTokens = 5,
                             rs_OutputTokens = 5, rs_FinishReason = ''tool_use''\<rparr>)),
     le_chat_plain = (\<lambda>_ w. (w, Inl ''offline'')), le_window = None, le_moves = True, le_ctx_err = (\<lambda>_. None),
     le_args = (\<lambda>_. Some (JObj [])), le_tool = (\<lambda>name _ _ w. (w @ [name], ''done'')), le_audit = (\<lambda>_ _ _ _ w. w),
     le_step = (\<lambda>_ w. w), le_progress = (\<lambda>_ _ w. w), le_approval = Some (\<lambda>_ _ w. (w, Inl ''rejected'')),
     le_mcp_in_sessions = (\<lambda>_. False), le_mcp_needs_approval = (\<lambda>_. False), le_mcp_call = (\<lambda>_ _ w. (w, Inl [])),
     le_toolCtx = Some (newToolContextFromAgent ''cleaner'' [] [''dev''])\<rparr>"

theorem agent_run_ends_witness:
  "\<exists>out. agent_rounds 3 demo_loop 3 0 (buildAgentMessages ''s'' ''u'') (-1) 0 0 [] = Some out \<and>
    runAgentLoop demo_loop 3 0 (buildAgentMessages ''s'' ''u'') (-1) 0 0 [] = Some out"
  using agent_run_ends [of 3 demo_loop 0 "buildAgentMessages ''s'' ''u''" "[]"] by simp

text \<open>C17: Without an approval no mutation happens: when every approval request is refused, or
  there is no way to ask for one, a whole agent run is the same whatever the create, update and
  delete tools for Kubernetes objects would do, in its effects on the world, its token count and
  its end.\<close>

theorem unapproved_run_mutates_nothing:
  assumes "maxToolCalls > 0" "never_approved E" "same_reading_tools E f"
  shows "runAgentLoop (E\<lparr>le_tool := f\<rparr>) maxToolCalls maxTokensPerRun messages (-1) 0 0 w
       = runAgentLoop E maxToolCalls maxTokensPerRun messages (-1) 0 0 w"
  by (rule run_same_calls [OF unapproved_same_calls [OF assms(2,3)] assms(1)])

theorem unapproved_run_mutates_nothing_witness:
  "runAgentLoop (demo_loop\<lparr>le_tool := \<lambda>name args ctx w. if name \<in> kubernetes_writers then ([], ''destroyed'') else (w @ [name], ''done'')\<rparr>)
       3 0 (buildAgentMessages ''s'' ''u'') (-1) 0 0 [''kept'']
   = runAgentLoop demo_loop 3 0 (buildAgentMessages ''s'' ''u'') (-1) 0 0 [''kept'']"
  by (rule unapproved_run_mutates_nothing)
     (auto simp: demo_loop_def never_approved_def same_reading_tools_def fun_eq_iff)

end
