(* ===== verification/AiModels.thy ===== *)
theory AiModels
  imports Prelude "HOL-Library.Multiset"
begin

text \<open>
  The AI model registry of \<open>ai/aimodels.go\<close> and the token accounting of
  \<open>ai/aimanager.go\<close>: validation of a model, election of the default and of the chat model,
  resolution of a model into the configuration of a run, and the daily token budget with its
  usage entries, their cached summary and their reset.

  Custom resources and Secrets are read from the resource store; what those reads return is part
  of the environment. Times are Unix seconds and token counts integers.
\<close>

section \<open>Models\<close>

datatype AiSdkType = AiSdkTypeOpenAI | AiSdkTypeAnthropic | AiSdkTypeOllama

record SecretKeyRef =
  sr_Name :: string
  sr_Key :: string

record AiModelSpec =
  sp_DisplayName :: string
  sp_Sdk :: string
  sp_Model :: string
  sp_ApiUrl :: string
  sp_ApiKeySecretRef :: "SecretKeyRef option"
  sp_Default :: bool
  sp_ChatEnabled :: bool
  sp_MaxToolCalls :: "int option"
  sp_MaxTokensPerRun :: "int option"
  sp_DailyTokenLimit :: "int option"

record AiModel =
  am_Name :: string
  am_Namespace :: string
  am_CreationTimestamp :: int
  am_Spec :: AiModelSpec

record ResolvedModelConfig =
  rc_Source :: string
  rc_ModelCrName :: string
  rc_Sdk :: AiSdkType
  rc_Model :: string
  rc_ApiKey :: string
  rc_BaseUrl :: string
  rc_MaxToolCalls :: int
  rc_MaxTokensPerRun :: int
  rc_DailyTokenLimit :: int

text \<open>The fields of an agent's spec that choose a model and its budget.\<close>

record agent_model =
  ag_ModelRef :: string
  ag_MaxToolCalls :: "int option"
  ag_MaxTokensPerRun :: "int option"

datatype model_error = UnsupportedSdk string | ModelEmpty | ApiUrlRequired string | SecretRefRequired string
  | SecretNotFound string | KeyNotFound string string | OwnNamespaceUnknown | ListFailed | GetFailed string
  | ModelNotFound string | NoDefault | NotEnabledForChat string | NoChatModel | DefaultTaken string

definition openAIDefaultApiUrl :: string where "openAIDefaultApiUrl = ''https://api.openai.com/v1''"
definition anthropicDefaultApiUrl :: string where "anthropicDefaultApiUrl = ''https://api.anthropic.com''"

definition defaultApiUrlForSdk :: "string \<Rightarrow> string" where
  "defaultApiUrlForSdk sdk =
     (if sdk = ''openai'' then openAIDefaultApiUrl else if sdk = ''anthropic'' then anthropicDefaultApiUrl else [])"

definition trim_suffix_slash :: "string \<Rightarrow> string" where
  "trim_suffix_slash s = (if s \<noteq> [] \<and> last s = CHR ''/'' then butlast s else s)"

definition NormalizeAiModelSpec :: "AiModelSpec \<Rightarrow> AiModelSpec" where
  "NormalizeAiModelSpec spec =
     (let url = trim_space (sp_ApiUrl spec); def = defaultApiUrlForSdk (sp_Sdk spec)
      in spec\<lparr>sp_ApiUrl := if def \<noteq> [] \<and> trim_suffix_slash url = def then [] else url\<rparr>)"

definition parseSdkType :: "string \<Rightarrow> model_error + AiSdkType" where
  "parseSdkType v =
     (if v = ''openai'' then Inr AiSdkTypeOpenAI else if v = ''anthropic'' then Inr AiSdkTypeAnthropic
      else if v = ''ollama'' then Inr AiSdkTypeOllama else Inl (UnsupportedSdk v))"

text \<open>The result of a check is the error, if any.\<close>

definition ValidateAiModelSpec :: "AiModelSpec \<Rightarrow> model_error option" where
  "ValidateAiModelSpec spec =
     (case parseSdkType (sp_Sdk spec) of
        Inl err \<Rightarrow> Some err
      | Inr sdk \<Rightarrow>
          if sp_Model spec = [] then Some ModelEmpty
          else if sdk = AiSdkTypeOllama then (if sp_ApiUrl spec = [] then Some (ApiUrlRequired (sp_Sdk spec)) else None)
          else (case sp_ApiKeySecretRef spec of
                  None \<Rightarrow> Some (SecretRefRequired (sp_Sdk spec))
                | Some ref \<Rightarrow> if sr_Name ref = [] then Some (SecretRefRequired (sp_Sdk spec)) else None))"

definition ValidateAiModelDefaultUnique :: "string \<Rightarrow> AiModelSpec \<Rightarrow> AiModel list \<Rightarrow> model_error option" where
  "ValidateAiModelDefaultUnique name spec existing =
     (if \<not> sp_Default spec then None
      else map_option (DefaultTaken \<circ> am_Name) (find (\<lambda>m. am_Name m \<noteq> name \<and> sp_Default (am_Spec m)) existing))"

text \<open>The order both elections use: older first, then by name.\<close>

definition model_less :: "AiModel \<Rightarrow> AiModel \<Rightarrow> bool" where
  "model_less a b =
     (if am_CreationTimestamp a \<noteq> am_CreationTimestamp b then am_CreationTimestamp a < am_CreationTimestamp b
      else am_Name a < am_Name b)"

definition first_of :: "'a list \<Rightarrow> 'a option" where
  "first_of xs = (case xs of [] \<Rightarrow> None | x # _ \<Rightarrow> Some x)"

definition PickDefaultAiModel :: "AiModel list \<Rightarrow> AiModel option" where
  "PickDefaultAiModel models = first_of (stable_sort model_less (filter (sp_Default \<circ> am_Spec) models))"

definition pickChatModel :: "AiModel list \<Rightarrow> string \<Rightarrow> model_error + AiModel" where
  "pickChatModel models modelRef =
     (let chatModels = filter (sp_ChatEnabled \<circ> am_Spec) models
      in if modelRef \<noteq> [] then
           (case find (\<lambda>m. am_Name m = modelRef) chatModels of
              Some m \<Rightarrow> Inr m
            | None \<Rightarrow> if modelRef \<in> set (map am_Name models) then Inl (NotEnabledForChat modelRef)
                      else Inl (ModelNotFound modelRef))
         else if chatModels = [] then Inl NoChatModel
         else (case find (sp_Default \<circ> am_Spec) chatModels of
                 Some m \<Rightarrow> Inr m
               | None \<Rightarrow> Inr (hd (stable_sort model_less chatModels))))"

section \<open>Resolution\<close>

text \<open>What the registry reads: the operator's namespace from the configuration, Secrets from the
  store or from the API server, models by name and all of them; a read can fail.\<close>

record model_env =
  me_ownNamespace :: "string option"
  me_storeSecret :: "string \<Rightarrow> string \<Rightarrow> (string, string) gomap option"
  me_secretGetter :: "string \<Rightarrow> string \<Rightarrow> (string, string) gomap option"
  me_GetAiModel :: "string \<Rightarrow> string \<Rightarrow> unit + AiModel option"
  me_GetAllAiModels :: "string \<Rightarrow> AiModel list option"

definition DefaultApiKeySecretKey :: string where "DefaultApiKeySecretKey = ''API_KEY''"

definition resolveApiKeyFromRef :: "model_env \<Rightarrow> string \<Rightarrow> SecretKeyRef option \<Rightarrow> model_error + string" where
  "resolveApiKeyFromRef E namespace ref =
     (case ref of
        None \<Rightarrow> Inr []
      | Some r \<Rightarrow>
          if sr_Name r = [] then Inr []
          else (let key = (if sr_Key r = [] then DefaultApiKeySecretKey else sr_Key r);
                    secret = (case me_storeSecret E namespace (sr_Name r) of
                                Some s \<Rightarrow> Some s | None \<Rightarrow> me_secretGetter E namespace (sr_Name r))
                in case secret of
                     None \<Rightarrow> Inl (SecretNotFound (sr_Name r))
                   | Some sec \<Rightarrow>
                       (case map_of sec key of
                          Some (c # cs) \<Rightarrow> Inr (c # cs)
                        | _ \<Rightarrow> Inl (KeyNotFound key (sr_Name r)))))"

definition listAiModels :: "model_env \<Rightarrow> model_error + AiModel list" where
  "listAiModels E =
     (case me_ownNamespace E of
        None \<Rightarrow> Inl OwnNamespaceUnknown
      | Some ns \<Rightarrow> (case me_GetAllAiModels E ns of None \<Rightarrow> Inl ListFailed | Some ms \<Rightarrow> Inr ms))"

definition getDefaultAiModel :: "model_env \<Rightarrow> AiModel option" where
  "getDefaultAiModel E = (case listAiModels E of Inl _ \<Rightarrow> None | Inr ms \<Rightarrow> PickDefaultAiModel ms)"

definition defaultMaxToolCalls :: int where "defaultMaxToolCalls = 50"
definition defaultMaxTokensPerRun :: int where "defaultMaxTokensPerRun = 30000"
definition defaultDailyTokenLimit :: int where "defaultDailyTokenLimit = 300000"

definition or_default :: "'a option \<Rightarrow> 'a \<Rightarrow> 'a" where
  "or_default opt d = (case opt of None \<Rightarrow> d | Some x \<Rightarrow> x)"

definition resolveAiModel :: "model_env \<Rightarrow> AiModel \<Rightarrow> string \<Rightarrow> model_error + ResolvedModelConfig" where
  "resolveAiModel E model source =
     (let spec = am_Spec model
      in case ValidateAiModelSpec spec of
           Some err \<Rightarrow> Inl err
         | None \<Rightarrow>
             (case parseSdkType (sp_Sdk spec) of
                Inl err \<Rightarrow> Inl err
              | Inr sdk \<Rightarrow>
                  (case resolveApiKeyFromRef E (am_Namespace model) (sp_ApiKeySecretRef spec) of
                     Inl err \<Rightarrow> Inl err
                   | Inr apiKey \<Rightarrow>
                       Inr \<lparr>rc_Source = source, rc_ModelCrName = am_Name model, rc_Sdk = sdk, rc_Model = sp_Model spec,
                            rc_ApiKey = apiKey, rc_BaseUrl = sp_ApiUrl spec,
                            rc_MaxToolCalls = or_default (sp_MaxToolCalls spec) defaultMaxToolCalls,
                            rc_MaxTokensPerRun = or_default (sp_MaxTokensPerRun spec) defaultMaxTokensPerRun,
                            rc_DailyTokenLimit = or_default (sp_DailyTokenLimit spec) defaultDailyTokenLimit\<rparr>)))"

definition resolveAiModelForProbe :: "model_env \<Rightarrow> AiModel \<Rightarrow> string \<Rightarrow> model_error + ResolvedModelConfig" where
  "resolveAiModelForProbe E model apiKeyOverride =
     (if apiKeyOverride = [] then resolveAiModel E model ''test''
      else
        (let spec = am_Spec model;
             checked = (case sp_ApiKeySecretRef spec of
                          None \<Rightarrow> spec\<lparr>sp_ApiKeySecretRef := Some \<lparr>sr_Name = ''probe-override'', sr_Key = []\<rparr>\<rparr>
                        | Some _ \<Rightarrow> spec)
         in case ValidateAiModelSpec checked of
              Some err \<Rightarrow> Inl err
            | None \<Rightarrow>
                (case parseSdkType (sp_Sdk spec) of
                   Inl err \<Rightarrow> Inl err
                 | Inr sdk \<Rightarrow>
                     Inr \<lparr>rc_Source = ''test'', rc_ModelCrName = am_Name model, rc_Sdk = sdk, rc_Model = sp_Model spec,
                          rc_ApiKey = apiKeyOverride, rc_BaseUrl = sp_ApiUrl spec,
                          rc_MaxToolCalls = 0, rc_MaxTokensPerRun = 0, rc_DailyTokenLimit = 0\<rparr>)))"

definition applyAgentBudgetOverrides :: "ResolvedModelConfig \<Rightarrow> agent_model option \<Rightarrow> ResolvedModelConfig" where
  "applyAgentBudgetOverrides rc spec =
     (case spec of
        None \<Rightarrow> rc
      | Some a \<Rightarrow> rc\<lparr>rc_MaxToolCalls := or_default (ag_MaxToolCalls a) (rc_MaxToolCalls rc),
                     rc_MaxTokensPerRun := or_default (ag_MaxTokensPerRun a) (rc_MaxTokensPerRun rc)\<rparr>)"

definition modelRef_of :: "agent_model option \<Rightarrow> string" where
  "modelRef_of spec = (case spec of None \<Rightarrow> [] | Some a \<Rightarrow> ag_ModelRef a)"

definition resolveModelConfig :: "model_env \<Rightarrow> agent_model option \<Rightarrow> model_error + ResolvedModelConfig" where
  "resolveModelConfig E agentSpec =
     (let resolved =
        (if modelRef_of agentSpec \<noteq> [] then
           (case me_ownNamespace E of
              None \<Rightarrow> Inl OwnNamespaceUnknown
            | Some ns \<Rightarrow>
                (case me_GetAiModel E ns (modelRef_of agentSpec) of
                   Inl _ \<Rightarrow> Inl (GetFailed (modelRef_of agentSpec))
                 | Inr None \<Rightarrow> Inl (ModelNotFound (modelRef_of agentSpec))
                 | Inr (Some m) \<Rightarrow> resolveAiModel E m ''modelRef''))
         else (case getDefaultAiModel E of
                 Some m \<Rightarrow> resolveAiModel E m ''default''
               | None \<Rightarrow> Inl NoDefault))
      in case resolved of Inl err \<Rightarrow> Inl err | Inr rc \<Rightarrow> Inr (applyAgentBudgetOverrides rc agentSpec))"

definition resolveChatModelConfig :: "model_env \<Rightarrow> string \<Rightarrow> model_error + ResolvedModelConfig" where
  "resolveChatModelConfig E modelRef =
     (case listAiModels E of
        Inl err \<Rightarrow> Inl err
      | Inr models \<Rightarrow>
          (case pickChatModel models modelRef of
             Inl err \<Rightarrow> Inl err
           | Inr m \<Rightarrow> resolveAiModel E m ''chat''))"

section \<open>Token usage\<close>

record UsedToken =
  ut_Timestamp :: int
  ut_TokensUsed :: int
  ut_IsIgnored :: bool
  ut_Key :: string
  ut_Model :: string
  ut_TimeUsedInMs :: int
  ut_ModelRef :: string

record tokenUsageSnapshot =
  us_TotalTokens :: int
  us_TotalRuns :: int
  us_PerModel :: "(string, int) gomap"

text \<open>The usage entries under their keys, the cached summary with its time, and how the server
  answers: which keys cannot be read or written, and whether the keys can be listed.\<close>

record usage_state =
  tu_entries :: "(string, UsedToken) gomap"
  tu_cache :: "(tokenUsageSnapshot \<times> int) option"

record usage_server =
  sv_list :: bool
  sv_readable :: "string \<Rightarrow> bool"
  sv_writable :: "string \<Rightarrow> bool"

definition per_model :: "(string, int) gomap \<Rightarrow> string \<Rightarrow> int" where
  "per_model m k = (case map_of m k of None \<Rightarrow> 0 | Some n \<Rightarrow> n)"

definition add_usage :: "int \<Rightarrow> tokenUsageSnapshot \<Rightarrow> UsedToken \<Rightarrow> tokenUsageSnapshot" where
  "add_usage startOfDay s e =
     (if ut_Timestamp e < startOfDay \<or> ut_IsIgnored e then s
      else s\<lparr>us_TotalTokens := us_TotalTokens s + ut_TokensUsed e, us_TotalRuns := us_TotalRuns s + 1,
             us_PerModel := if ut_ModelRef e = [] then us_PerModel s
               else AList.update (ut_ModelRef e) (per_model (us_PerModel s) (ut_ModelRef e) + ut_TokensUsed e) (us_PerModel s)\<rparr>)"

definition aggregateTokenUsage :: "UsedToken list \<Rightarrow> int \<Rightarrow> tokenUsageSnapshot" where
  "aggregateTokenUsage es startOfDay =
     foldl (add_usage startOfDay) \<lparr>us_TotalTokens = 0, us_TotalRuns = 0, us_PerModel = []\<rparr> es"

definition usageSnapshotTTL :: int where "usageSnapshotTTL = 30"

definition loadTokenUsageEntries :: "usage_server \<Rightarrow> usage_state \<Rightarrow> UsedToken list option" where
  "loadTokenUsageEntries V u =
     (if sv_list V then Some (map snd (filter (sv_readable V \<circ> fst) (tu_entries u))) else None)"

definition todayUsageSnapshot ::
  "usage_server \<Rightarrow> (int \<Rightarrow> int) \<Rightarrow> int \<Rightarrow> usage_state \<Rightarrow> usage_state \<times> tokenUsageSnapshot option" where
  "todayUsageSnapshot V startOfTodayUnix now u =
     (case tu_cache u of
        Some (s, t) \<Rightarrow>
          if now - t < usageSnapshotTTL then (u, Some s)
          else (case loadTokenUsageEntries V u of
                  None \<Rightarrow> (u, None)
                | Some es \<Rightarrow> (let s' = aggregateTokenUsage es (startOfTodayUnix now) in (u\<lparr>tu_cache := Some (s', now)\<rparr>, Some s')))
      | None \<Rightarrow>
          (case loadTokenUsageEntries V u of
             None \<Rightarrow> (u, None)
           | Some es \<Rightarrow> (let s' = aggregateTokenUsage es (startOfTodayUnix now) in (u\<lparr>tu_cache := Some (s', now)\<rparr>, Some s'))))"

definition invalidateUsageSnapshot :: "usage_state \<Rightarrow> usage_state" where
  "invalidateUsageSnapshot u = u\<lparr>tu_cache := None\<rparr>"

definition isModelBudgetExceeded ::
  "usage_server \<Rightarrow> (int \<Rightarrow> int) \<Rightarrow> int \<Rightarrow> ResolvedModelConfig option \<Rightarrow> usage_state \<Rightarrow> usage_state \<times> bool" where
  "isModelBudgetExceeded V startOfTodayUnix now rc u =
     (case rc of
        None \<Rightarrow> (u, False)
      | Some c \<Rightarrow>
          if rc_DailyTokenLimit c \<le> 0 then (u, False)
          else (case todayUsageSnapshot V startOfTodayUnix now u of
                  (u', None) \<Rightarrow> (u', True)
                | (u', Some s) \<Rightarrow> (u', per_model (us_PerModel s) (rc_ModelCrName c) \<ge> rc_DailyTokenLimit c)))"

text \<open>A booking is written under a key with a fresh random suffix.\<close>

definition addTokenUsage ::
  "usage_server \<Rightarrow> int \<Rightarrow> string \<Rightarrow> int \<Rightarrow> string \<Rightarrow> int \<Rightarrow> string \<Rightarrow> string \<Rightarrow> usage_state \<Rightarrow> usage_state \<times> bool" where
  "addTokenUsage V now key tokensUsed model timeUsedInMs entryKey modelRef u =
     (if \<not> sv_writable V key then (u, False)
      else (invalidateUsageSnapshot
              (u\<lparr>tu_entries := AList.update key
                  \<lparr>ut_Timestamp = now, ut_TokensUsed = tokensUsed, ut_IsIgnored = False, ut_Key = entryKey,
                   ut_Model = model, ut_TimeUsedInMs = timeUsedInMs, ut_ModelRef = modelRef\<rparr> (tu_entries u)\<rparr>), True))"

text \<open>The loop over the keys of \<open>resetTodayTokenUsage\<close>: it stops at the first key that cannot be
  read or written, leaving the earlier entries reset.\<close>

definition reset_applies :: "string \<Rightarrow> int \<Rightarrow> UsedToken \<Rightarrow> bool" where
  "reset_applies modelRef startOfDay e \<longleftrightarrow>
     \<not> (ut_Timestamp e < startOfDay \<or> ut_TokensUsed e = 0) \<and> \<not> (modelRef \<noteq> [] \<and> ut_ModelRef e \<noteq> modelRef)"

fun reset_loop ::
  "usage_server \<Rightarrow> string \<Rightarrow> int \<Rightarrow> string list \<Rightarrow> (string, UsedToken) gomap \<Rightarrow> int \<Rightarrow> (string, UsedToken) gomap \<times> int \<times> bool" where
  "reset_loop V modelRef startOfDay [] m n = (m, n, True)"
| "reset_loop V modelRef startOfDay (k # ks) m n =
     (case (if sv_readable V k then map_of m k else None) of
        None \<Rightarrow> (m, n, False)
      | Some e \<Rightarrow>
          if \<not> reset_applies modelRef startOfDay e then reset_loop V modelRef startOfDay ks m n
          else if \<not> sv_writable V k then (m, n + ut_TokensUsed e, False)
          else reset_loop V modelRef startOfDay ks (AList.update k (e\<lparr>ut_TokensUsed := 0\<rparr>) m) (n + ut_TokensUsed e))"

definition resetTodayTokenUsage ::
  "usage_server \<Rightarrow> (int \<Rightarrow> int) \<Rightarrow> int \<Rightarrow> string \<Rightarrow> usage_state \<Rightarrow> usage_state \<times> int \<times> bool" where
  "resetTodayTokenUsage V startOfTodayUnix now modelRef u =
     (if \<not> sv_list V then (u, 0, False)
      else case reset_loop V modelRef (startOfTodayUnix now) (map fst (tu_entries u)) (tu_entries u) 0 of
             (m, n, True) \<Rightarrow> (invalidateUsageSnapshot (u\<lparr>tu_entries := m\<rparr>), n, True)
           | (m, n, False) \<Rightarrow> (u\<lparr>tu_entries := m\<rparr>, n, False))"

definition ResetTokenUsageForModel ::
  "usage_server \<Rightarrow> (int \<Rightarrow> int) \<Rightarrow> int \<Rightarrow> string \<Rightarrow> usage_state \<Rightarrow> usage_state \<times> int \<times> bool" where
  "ResetTokenUsageForModel V startOfTodayUnix now modelCrName u =
     (if modelCrName = [] then (u, 0, False) else resetTodayTokenUsage V startOfTodayUnix now modelCrName u)"

section \<open>Counting and resetting\<close>

definition counted :: "int \<Rightarrow> string \<Rightarrow> UsedToken \<Rightarrow> bool" where
  "counted startOfDay r e \<longleftrightarrow> startOfDay \<le> ut_Timestamp e \<and> \<not> ut_IsIgnored e \<and> ut_ModelRef e = r"

text \<open>What the entries of a day add up to for one model, without the summary.\<close>

definition used_today :: "int \<Rightarrow> string \<Rightarrow> UsedToken list \<Rightarrow> int" where
  "used_today startOfDay r es = sum_list (map ut_TokensUsed (filter (counted startOfDay r) es))"

lemma per_model_update [simp]:
  "per_model (AList.update k n m) k' = (if k' = k then n else per_model m k')"
  by (simp add: per_model_def)

lemma add_usage_per_model:
  "r \<noteq> [] \<Longrightarrow> per_model (us_PerModel (add_usage d s e)) r
     = per_model (us_PerModel s) r + (if counted d r e then ut_TokensUsed e else 0)"
  by (auto simp: add_usage_def counted_def)

lemma aggregate_per_model:
  assumes "r \<noteq> []"
  shows "per_model (us_PerModel (aggregateTokenUsage es d)) r = used_today d r es"
proof -
  have "per_model (us_PerModel (foldl (add_usage d) s es)) r = per_model (us_PerModel s) r + used_today d r es" for s
    by (induction es arbitrary: s) (auto simp: add_usage_per_model [OF assms] used_today_def)
  then show ?thesis by (simp add: aggregateTokenUsage_def) (simp add: per_model_def)
qed

definition zero_tokens :: "string \<Rightarrow> int \<Rightarrow> UsedToken \<Rightarrow> UsedToken" where
  "zero_tokens r d e = (if reset_applies r d e then e\<lparr>ut_TokensUsed := 0\<rparr> else e)"

lemma zero_tokens_idem [simp]: "zero_tokens r d (zero_tokens r d e) = zero_tokens r d e"
  by (simp add: zero_tokens_def reset_applies_def)

definition entry_tokens :: "(string, UsedToken) gomap \<Rightarrow> int" where
  "entry_tokens m = sum_list (map (ut_TokensUsed \<circ> snd) m)"

lemma entry_tokens_update:
  "wf_map m \<Longrightarrow> map_of m k = Some e \<Longrightarrow>
   entry_tokens (AList.update k e' m) = entry_tokens m - ut_TokensUsed e + ut_TokensUsed e'"
  by (induction m) (auto simp: entry_tokens_def split: if_splits)

lemma reset_loop_ok:
  assumes "reset_loop V r d ks m n = (m', n', True)" "wf_map m"
  shows "m' = map_values (\<lambda>k e. if k \<in> set ks then zero_tokens r d e else e) m"
    and "n' + entry_tokens m' = n + entry_tokens m" and "\<forall>k \<in> set ks. sv_readable V k"
proof -
  have "m' = map_values (\<lambda>k e. if k \<in> set ks then zero_tokens r d e else e) m \<and>
      n' + entry_tokens m' = n + entry_tokens m \<and> (\<forall>k \<in> set ks. sv_readable V k)"
    using assms
  proof (induction ks arbitrary: m n)
    case Nil
    then show ?case by (simp add: map_values_def)
  next
    case (Cons k ks)
    from Cons.prems(1) obtain e where e: "map_of m k = Some e" "sv_readable V k"
      by (auto split: if_splits option.splits)
    then have at_k: "(k, v) \<in> set m \<Longrightarrow> v = e" for v
      using Cons.prems(2) by (metis map_of_is_SomeI option.inject)
    show ?case
    proof (cases "reset_applies r d e")
      case True
      with Cons.prems e have "reset_loop V r d ks (AList.update k (zero_tokens r d e) m) (n + ut_TokensUsed e) = (m', n', True)"
        by (auto simp: zero_tokens_def split: if_splits)
      note IH = Cons.IH [OF this wf_map_update [OF Cons.prems(2)]]
      have upd: "AList.update k (zero_tokens r d e) m = map_values (\<lambda>k' e'. if k' = k then zero_tokens r d e else e') m"
        by (rule update_existing [OF Cons.prems(2) e(1)])
      have "m' = map_values (\<lambda>k' e'. if k' \<in> set (k # ks) then zero_tokens r d e' else e') m"
        unfolding IH [THEN conjunct1] upd map_values_map_values
        by (rule map_values_cong) (auto dest: at_k)
      moreover have "ut_TokensUsed (zero_tokens r d e) = 0" using True by (simp add: zero_tokens_def)
      ultimately show ?thesis
        using IH e(2) entry_tokens_update [OF Cons.prems(2) e(1), of "zero_tokens r d e"] by auto
    next
      case False
      with Cons.prems e have "reset_loop V r d ks m n = (m', n', True)" by simp
      note IH = Cons.IH [OF this Cons.prems(2)]
      have "m' = map_values (\<lambda>k' e'. if k' \<in> set (k # ks) then zero_tokens r d e' else e') m"
        unfolding IH [THEN conjunct1]
        by (rule map_values_cong) (auto simp: zero_tokens_def False dest: at_k)
      with IH e(2) show ?thesis by auto
    qed
  qed
  then show "m' = map_values (\<lambda>k e. if k \<in> set ks then zero_tokens r d e else e) m"
    and "n' + entry_tokens m' = n + entry_tokens m" and "\<forall>k \<in> set ks. sv_readable V k" by blast+
qed

lemma reset_applies_counted: "reset_applies r d e \<Longrightarrow> counted d r' e \<Longrightarrow> r \<noteq> [] \<Longrightarrow> r' = r"
  by (auto simp: reset_applies_def counted_def)

lemma used_today_zeroed:
  "r \<noteq> [] \<Longrightarrow> used_today d r' (map (zero_tokens r d) es) = (if r' = r then 0 else used_today d r' es)"
proof (induction es)
  case Nil
  then show ?case by (simp add: used_today_def)
next
  case (Cons e es)
  have "counted d r' (zero_tokens r d e) = counted d r' e" by (simp add: counted_def zero_tokens_def)
  moreover have "counted d r' e \<Longrightarrow> ut_TokensUsed (zero_tokens r d e) = (if r' = r then 0 else ut_TokensUsed e)"
    using Cons.prems by (auto simp: counted_def zero_tokens_def reset_applies_def)
  ultimately show ?case using Cons by (auto simp: used_today_def)
qed

interpretation model_order: go_less model_less
  by unfold_locales (auto simp: model_less_def split: if_splits)

lemma model_less_total: "am_Name a \<noteq> am_Name b \<Longrightarrow> model_less a b \<or> model_less b a"
  by (auto simp: model_less_def)

lemma stable_sort_hd:
  assumes "x \<in> set xs"
  shows "\<not> model_less x (hd (stable_sort model_less xs)) \<and> hd (stable_sort model_less xs) \<in> set xs"
proof -
  have "stable_sort model_less xs \<noteq> []" using assms by (metis empty_iff empty_set set_stable_sort)
  then obtain y ys where ys: "stable_sort model_less xs = y # ys" by (cases "stable_sort model_less xs") auto
  then have "set xs = insert y (set ys)" by (metis list.simps(15) set_stable_sort)
  with model_order.stable_sort_ordered [of xs] ys assms show ?thesis by (auto simp: model_order.lt_irrefl)
qed

lemma PickDefault_Some:
  assumes "m \<in> set models" "sp_Default (am_Spec m)"
  obtains d where "PickDefaultAiModel models = Some d" "d \<in> set models" "sp_Default (am_Spec d)" "\<not> model_less m d"
proof -
  let ?ds = "filter (sp_Default \<circ> am_Spec) models"
  have "m \<in> set ?ds" using assms by simp
  from stable_sort_hd [OF this] obtain y ys where "stable_sort model_less ?ds = y # ys"
    by (metis empty_iff empty_set list.exhaust set_stable_sort \<open>m \<in> set ?ds\<close>)
  with stable_sort_hd [OF \<open>m \<in> set ?ds\<close>] that [of y] show ?thesis
    by (simp add: PickDefaultAiModel_def first_of_def)
qed

section \<open>Properties\<close>

text \<open>The election of the default model does not depend on the order in which the store lists
  the models, and is what its comment says: with unique names, every default-flagged model other
  than the elected one is younger, or as old and later by name; there is no default exactly when
  no model carries the flag.\<close>

lemma default_election_order_free:
  assumes "distinct (map am_Name models)" "mset models' = mset models"
  shows "PickDefaultAiModel models' = PickDefaultAiModel models \<and>
    (case PickDefaultAiModel models of
       None \<Rightarrow> filter (sp_Default \<circ> am_Spec) models = []
     | Some d \<Rightarrow> d \<in> set models \<and> sp_Default (am_Spec d) \<and>
         (\<forall>m \<in> set models. sp_Default (am_Spec m) \<longrightarrow> m = d \<or> model_less d m))"
proof -
  have same: "set models' = set models" using assms(2) by (metis set_mset_mset)
  have unique: "\<lbrakk>a \<in> set models; b \<in> set models; a \<noteq> b\<rbrakk> \<Longrightarrow> am_Name a \<noteq> am_Name b" for a b
    using assms(1) by (auto simp: distinct_map inj_on_def)
  show ?thesis
  proof (cases "\<exists>m \<in> set models. sp_Default (am_Spec m)")
    case False
    with same have "filter (sp_Default \<circ> am_Spec) models = []" "filter (sp_Default \<circ> am_Spec) models' = []"
      by (auto simp: filter_empty_conv)
    then show ?thesis by (simp add: PickDefaultAiModel_def first_of_def)
  next
    case True
    then obtain m where m: "m \<in> set models" "sp_Default (am_Spec m)" by blast
    from PickDefault_Some [OF m] obtain d where d: "PickDefaultAiModel models = Some d" "d \<in> set models" "sp_Default (am_Spec d)"
      by metis
    have least: "model_less d x" if "x \<in> set models" "sp_Default (am_Spec x)" "x \<noteq> d" for x
      using PickDefault_Some [OF that(1,2)] d model_less_total unique [OF that(1) d(2) that(3)] by (metis option.inject)
    from PickDefault_Some [of d models'] d same obtain d' where
      d': "PickDefaultAiModel models' = Some d'" "d' \<in> set models" "sp_Default (am_Spec d')" "\<not> model_less d d'" by metis
    with least have "d' = d" by blast
    with d d' least show ?thesis by auto
  qed
qed

definition demo_model :: "string \<Rightarrow> int \<Rightarrow> AiModel" where
  "demo_model name created =
     \<lparr>am_Name = name, am_Namespace = ''mogenius'', am_CreationTimestamp = created,
      am_Spec = \<lparr>sp_DisplayName = [], sp_Sdk = ''ollama'', sp_Model = ''llama'', sp_ApiUrl = ''http://ollama'', sp_ApiKeySecretRef = None,
        sp_Default = True, sp_ChatEnabled = True, sp_MaxToolCalls = None, sp_MaxTokensPerRun = None, sp_DailyTokenLimit = None\<rparr>\<rparr>"

text \<open>The chat model is elected differently: among default-flagged models the first one listed
  wins, so the answer depends on the order of the list.\<close>

lemma chat_election_depends_on_order:
  "pickChatModel [demo_model ''b'' 2, demo_model ''a'' 1] [] = Inr (demo_model ''b'' 2) \<and>
   pickChatModel [demo_model ''a'' 1, demo_model ''b'' 2] [] = Inr (demo_model ''a'' 1)"
  by (simp add: pickChatModel_def demo_model_def)

text \<open>C19: Resetting a model's usage frees its budget at once and touches no other model: after a
  reset that reported success the budget check passes for that model, whatever was cached before,
  the recount of every other model is unchanged, and the number of tokens reported is exactly what
  was taken off the entries.\<close>

theorem reset_frees_budget:
  assumes "wf_map (tu_entries u)" "rc_ModelCrName rc \<noteq> []"
    and reset: "ResetTokenUsageForModel V midnight now (rc_ModelCrName rc) u = (u', n, True)"
  shows "\<not> snd (isModelBudgetExceeded V midnight now (Some rc) u') \<and>
    (r \<noteq> rc_ModelCrName rc \<longrightarrow>
       used_today (midnight now) r (map snd (tu_entries u')) = used_today (midnight now) r (map snd (tu_entries u))) \<and>
    n + entry_tokens (tu_entries u') = entry_tokens (tu_entries u)"
proof -
  let ?r = "rc_ModelCrName rc" and ?d = "midnight now"
  from reset assms(2) obtain m' where loop: "reset_loop V ?r ?d (map fst (tu_entries u)) (tu_entries u) 0 = (m', n, True)"
    and u': "u' = invalidateUsageSnapshot (u\<lparr>tu_entries := m'\<rparr>)" and V: "sv_list V"
    by (auto simp: ResetTokenUsageForModel_def resetTodayTokenUsage_def split: if_splits prod.splits bool.splits)
  note ok = reset_loop_ok [OF loop assms(1)]
  have m': "m' = map_values (\<lambda>_. zero_tokens ?r ?d) (tu_entries u)"
    unfolding ok(1) by (rule map_values_cong) (auto simp: image_iff)
  then have entries: "map snd m' = map (zero_tokens ?r ?d) (map snd (tu_entries u))"
    by (auto simp: map_values_def)
  have "fst ` set m' = fst ` set (tu_entries u)"
    using fst_map_values [of _ "tu_entries u"] unfolding m' by (metis list.set_map)
  with ok(3) have "filter (sv_readable V \<circ> fst) m' = m'"
    unfolding filter_id_conv by (metis comp_apply image_eqI list.set_map)
  then have "snd (todayUsageSnapshot V midnight now u') = Some (aggregateTokenUsage (map snd m') ?d)"
    using V by (simp add: u' invalidateUsageSnapshot_def todayUsageSnapshot_def loadTokenUsageEntries_def Let_def)
  then have "\<not> snd (isModelBudgetExceeded V midnight now (Some rc) u')"
    using assms(2) aggregate_per_model [OF assms(2), of "map snd m'" ?d] used_today_zeroed [OF assms(2), of ?d ?r "map snd (tu_entries u)"]
    by (auto simp: isModelBudgetExceeded_def entries split: prod.splits option.splits)
  with ok(2) used_today_zeroed [OF assms(2), of ?d r "map snd (tu_entries u)"] show ?thesis
    by (simp add: u' invalidateUsageSnapshot_def entries)
qed

definition demo_usage :: "string \<Rightarrow> UsedToken" where
  "demo_usage r = \<lparr>ut_Timestamp = 100, ut_TokensUsed = 70, ut_IsIgnored = False, ut_Key = [], ut_Model = [], ut_TimeUsedInMs = 5, ut_ModelRef = r\<rparr>"

definition demo_limits :: ResolvedModelConfig where
  "demo_limits = \<lparr>rc_Source = [], rc_ModelCrName = ''m'', rc_Sdk = AiSdkTypeOllama, rc_Model = [], rc_ApiKey = [], rc_BaseUrl = [],
     rc_MaxToolCalls = 50, rc_MaxTokensPerRun = 0, rc_DailyTokenLimit = 60\<rparr>"

definition demo_server :: usage_server where
  "demo_server = \<lparr>sv_list = True, sv_readable = \<lambda>_. True, sv_writable = \<lambda>_. True\<rparr>"

definition demo_state :: usage_state where
  "demo_state = \<lparr>tu_entries = [(''k1'', demo_usage ''m''), (''k2'', demo_usage ''n'')], tu_cache = None\<rparr>"

theorem reset_frees_budget_witness:
  "snd (isModelBudgetExceeded demo_server (\<lambda>_. 0) 200 (Some demo_limits) demo_state) \<and>
   \<not> snd (isModelBudgetExceeded demo_server (\<lambda>_. 0) 200 (Some demo_limits)
       (fst (ResetTokenUsageForModel demo_server (\<lambda>_. 0) 200 ''m'' demo_state)))"
proof
  let ?R = "ResetTokenUsageForModel demo_server (\<lambda>_. 0) 200 ''m'' demo_state"
  have "?R = (fst ?R, 70, True)"
    by (simp add: demo_state_def demo_server_def demo_usage_def ResetTokenUsageForModel_def resetTodayTokenUsage_def
        reset_applies_def)
  with reset_frees_budget [of demo_state demo_limits demo_server "\<lambda>_. 0" 200 "fst ?R" 70 "''n''"]
  show "\<not> snd (isModelBudgetExceeded demo_server (\<lambda>_. 0) 200 (Some demo_limits) (fst ?R))"
    by (simp add: demo_state_def demo_limits_def)
qed (simp add: demo_state_def demo_server_def demo_usage_def demo_limits_def isModelBudgetExceeded_def todayUsageSnapshot_def
    loadTokenUsageEntries_def aggregateTokenUsage_def add_usage_def per_model_def Let_def)

end
