(* ===== verification/AiAgents.thy ===== *)
theory AiAgents
  imports AiAccess AiModels
begin

text \<open>
  The agent definitions of \<open>ai/agents.go\<close> and \<open>crds/v1alpha1/type_agent.go\<close>: validation of a
  spec, the namespaces an agent may see, its triggers with their cooldown, the cache of enabled
  agents, and the storage keys of its runs with their grouping by run.

  Whether a cron expression parses and when it is next due is robfig/cron's: both are parameters.
  The texts of the prompts are not modelled.
\<close>

section \<open>Specs\<close>

record AgentScope =
  sc_WorkspaceRef :: string
  sc_Namespaces :: "string list"

record AgentChangeTrigger =
  oc_Kinds :: "string list"
  oc_On :: "string list"
  oc_MinInterval :: int

record AgentSpec =
  as_Enabled :: bool
  as_Scope :: AgentScope
  as_Cron :: string
  as_OnChange :: "AgentChangeTrigger option"
  as_Model :: agent_model
  as_McpServerRefs :: "string list"
  as_Builtin :: "(bool \<times> bool) option"

text \<open>The last field says which of the built-in Kubernetes and Helm tools are on; unset is both.\<close>

record Agent =
  an_Name :: string
  an_Spec :: AgentSpec

datatype agent_error = ScopeMissing | EmptyNamespace | InvalidCron string | InvalidChangeType string

definition validChangeEventTypes :: "string list" where
  "validChangeEventTypes = [''created'', ''updated'', ''deleted'']"

definition ValidateAgentSpec :: "(string \<Rightarrow> bool) \<Rightarrow> AgentSpec \<Rightarrow> agent_error option" where
  "ValidateAgentSpec parses spec =
     (if sc_WorkspaceRef (as_Scope spec) = [] \<and> sc_Namespaces (as_Scope spec) = [] then Some ScopeMissing
      else if \<exists>ns \<in> set (sc_Namespaces (as_Scope spec)). trim_space ns = [] then Some EmptyNamespace
      else if as_Cron spec \<noteq> [] \<and> \<not> parses (as_Cron spec) then Some (InvalidCron (as_Cron spec))
      else case as_OnChange spec of
             None \<Rightarrow> None
           | Some oc \<Rightarrow> map_option InvalidChangeType (find (\<lambda>evt. evt \<notin> set validChangeEventTypes) (oc_On oc)))"

definition defaultChangeCooldown :: int where "defaultChangeCooldown = 6 * 60 * 60"

definition changeCooldown :: "AgentChangeTrigger option \<Rightarrow> int" where
  "changeCooldown oc =
     (case oc of None \<Rightarrow> defaultChangeCooldown
      | Some c \<Rightarrow> if oc_MinInterval c > 0 then oc_MinInterval c else defaultChangeCooldown)"

section \<open>Scope\<close>

text \<open>What the scope reads from the store: the operator's namespace, the names of all namespaces
  (empty names included, as the objects give them) and a workspace's resources.\<close>

record scope_env =
  se_ownNamespace :: "string option"
  se_namespaces :: "string list"
  se_GetWorkspace :: "string \<Rightarrow> string \<Rightarrow> WorkspaceResource list option"

definition verbatim_namespaces :: "scope_env \<Rightarrow> string list \<Rightarrow> string list" where
  "verbatim_namespaces E nss =
     concat (map (\<lambda>ns. if ns = ''*'' then filter (\<lambda>n. n \<noteq> []) (se_namespaces E) else if ns \<noteq> [] then [ns] else []) nss)"

definition workspace_namespaces :: "scope_env \<Rightarrow> string \<Rightarrow> string list" where
  "workspace_namespaces E ref =
     (if ref = [] then []
      else case se_ownNamespace E of
             None \<Rightarrow> []
           | Some own \<Rightarrow>
               (case se_GetWorkspace E own ref of
                  None \<Rightarrow> []
                | Some rs \<Rightarrow> map ws_Id (filter (\<lambda>r. ws_Type r = ''namespace'' \<and> ws_Id r \<noteq> []) rs)))"

definition resolveAgentScope :: "scope_env \<Rightarrow> Agent \<Rightarrow> string list" where
  "resolveAgentScope E agent =
     sort (remdups (verbatim_namespaces E (sc_Namespaces (as_Scope (an_Spec agent)))
                    @ workspace_namespaces E (sc_WorkspaceRef (as_Scope (an_Spec agent)))))"

section \<open>Triggers\<close>

definition changeTypeSelected :: "string list \<Rightarrow> string \<Rightarrow> bool" where
  "changeTypeSelected on changeType \<longleftrightarrow> on = [] \<or> changeType \<in> set on"

definition kindSelected :: "string list \<Rightarrow> string \<Rightarrow> bool" where
  "kindSelected kinds kind \<longleftrightarrow> kinds = [] \<or> kind \<in> set kinds"

definition namespaceSelected :: "string list \<Rightarrow> string \<Rightarrow> bool" where
  "namespaceSelected scope namespace \<longleftrightarrow> (\<exists>ns \<in> set scope. ns = ''*'' \<or> ns = namespace)"

definition changeCooldownElapsed :: "int \<Rightarrow> (string, int) gomap \<Rightarrow> string \<Rightarrow> AgentChangeTrigger \<Rightarrow> bool" where
  "changeCooldownElapsed now lastAgentRun agentName oc =
     (case map_of lastAgentRun agentName of None \<Rightarrow> True | Some t \<Rightarrow> now - t \<ge> changeCooldown (Some oc))"

text \<open>Whether a change wakes an agent: the guards of \<open>triggerChangeAgents\<close> before it enqueues.\<close>

definition change_wakes :: "scope_env \<Rightarrow> int \<Rightarrow> (string, int) gomap \<Rightarrow> json \<Rightarrow> string \<Rightarrow> Agent \<Rightarrow> bool" where
  "change_wakes E now lastAgentRun obj changeType agent =
     (case as_OnChange (an_Spec agent) of
        None \<Rightarrow> False
      | Some oc \<Rightarrow>
          changeTypeSelected (oc_On oc) changeType \<and> kindSelected (oc_Kinds oc) (GetKind obj) \<and>
          namespaceSelected (resolveAgentScope E agent) (GetNamespace obj) \<and>
          changeCooldownElapsed now lastAgentRun (an_Name agent) oc)"

text \<open>One agent of \<open>processAgentCronTriggers\<close>: the new anchor and whether the schedule fires. The
  first sighting only anchors.\<close>

definition cron_turn ::
  "(string \<Rightarrow> (int \<Rightarrow> int) option) \<Rightarrow> int \<Rightarrow> Agent \<Rightarrow> (string, int) gomap \<Rightarrow> (string, int) gomap \<times> bool" where
  "cron_turn ParseStandard now agent lastCronRun =
     (if as_Cron (an_Spec agent) = [] then (lastCronRun, False)
      else case ParseStandard (as_Cron (an_Spec agent)) of
             None \<Rightarrow> (lastCronRun, False)
           | Some nextRun \<Rightarrow>
               (case map_of lastCronRun (an_Name agent) of
                  None \<Rightarrow> (AList.update (an_Name agent) now lastCronRun, False)
                | Some lastRun \<Rightarrow>
                    if nextRun lastRun \<le> now then (AList.update (an_Name agent) now lastCronRun, True)
                    else (lastCronRun, False)))"

section \<open>The cache of enabled agents\<close>

record agent_cache =
  ac_cachedEnabledAgents :: "Agent list"
  ac_Time :: int
  ac_Valid :: bool
  ac_Fetching :: bool
  ac_Gen :: nat

definition agentCacheTTL :: int where "agentCacheTTL = 30"

definition fetchEnabledAgents :: "Agent list option \<Rightarrow> Agent list" where
  "fetchEnabledAgents agents = (case agents of None \<Rightarrow> [] | Some l \<Rightarrow> filter (as_Enabled \<circ> an_Spec) l)"

text \<open>\<open>getEnabledAgents\<close> is two critical sections with the read of the store between them. The first
  answers from the cache or takes the generation it reads for.\<close>

definition cache_lookup :: "int \<Rightarrow> agent_cache \<Rightarrow> agent_cache \<times> (Agent list + nat)" where
  "cache_lookup now c =
     (if ac_Fetching c \<or> (ac_Valid c \<and> now - ac_Time c < agentCacheTTL) then (c, Inl (ac_cachedEnabledAgents c))
      else (c\<lparr>ac_Fetching := True\<rparr>, Inr (ac_Gen c)))"

definition cache_store :: "int \<Rightarrow> nat \<Rightarrow> Agent list \<Rightarrow> agent_cache \<Rightarrow> agent_cache" where
  "cache_store now generation enabled c =
     (let c1 = c\<lparr>ac_Fetching := False\<rparr>
      in if ac_Gen c1 = generation then c1\<lparr>ac_cachedEnabledAgents := enabled, ac_Time := now, ac_Valid := True\<rparr> else c1)"

definition invalidateAgentCache :: "agent_cache \<Rightarrow> agent_cache" where
  "invalidateAgentCache c = c\<lparr>ac_Gen := Suc (ac_Gen c), ac_Valid := False\<rparr>"

text \<open>The cache with the store it mirrors and the read that is under way, with what it has read so
  far. An agent changes in the store first; the event that invalidates the cache follows, so the
  number of events still to come is kept.\<close>

record cache_run =
  cr_cache :: agent_cache
  cr_store :: "Agent list"
  cr_fetch :: "(nat \<times> Agent list option) option"
  cr_events :: nat

inductive cache_reach :: "cache_run \<Rightarrow> bool" where
  init: "cache_reach \<lparr>cr_cache = \<lparr>ac_cachedEnabledAgents = [], ac_Time = 0, ac_Valid = False, ac_Fetching = False, ac_Gen = 0\<rparr>,
           cr_store = [], cr_fetch = None, cr_events = 0\<rparr>"
| change: "cache_reach s \<Longrightarrow> cache_reach (s\<lparr>cr_store := agents, cr_events := Suc (cr_events s)\<rparr>)"
| event: "cache_reach s \<Longrightarrow> cr_events s = Suc n \<Longrightarrow>
    cache_reach (s\<lparr>cr_cache := invalidateAgentCache (cr_cache s), cr_events := n\<rparr>)"
| lookup: "cache_reach s \<Longrightarrow> cache_lookup now (cr_cache s) = (c, Inr g) \<Longrightarrow>
    cache_reach (s\<lparr>cr_cache := c, cr_fetch := Some (g, None)\<rparr>)"
| read: "cache_reach s \<Longrightarrow> cr_fetch s = Some (g, None) \<Longrightarrow>
    cache_reach (s\<lparr>cr_fetch := Some (g, Some (fetchEnabledAgents (Some (cr_store s))))\<rparr>)"
| keep: "cache_reach s \<Longrightarrow> cr_fetch s = Some (g, Some l) \<Longrightarrow>
    cache_reach (s\<lparr>cr_cache := cache_store now g l (cr_cache s), cr_fetch := None\<rparr>)"

text \<open>A valid cache, and a read that will still be kept, hold the enabled agents of the store as
  soon as every change has been announced.\<close>

definition cache_inv :: "cache_run \<Rightarrow> bool" where
  "cache_inv s \<longleftrightarrow>
     (cr_events s = 0 \<and> ac_Valid (cr_cache s) \<longrightarrow> ac_cachedEnabledAgents (cr_cache s) = fetchEnabledAgents (Some (cr_store s))) \<and>
     (\<forall>g l. cr_events s = 0 \<and> cr_fetch s = Some (g, Some l) \<and> g = ac_Gen (cr_cache s) \<longrightarrow> l = fetchEnabledAgents (Some (cr_store s))) \<and>
     (\<forall>g r. cr_fetch s = Some (g, r) \<longrightarrow> g \<le> ac_Gen (cr_cache s))"

lemmas cache_op_defs = cache_lookup_def cache_store_def invalidateAgentCache_def Let_def

lemma cache_reach_inv: "cache_reach s \<Longrightarrow> cache_inv s"
proof (induction rule: cache_reach.induct)
  case (event s n)
  then show ?case by (auto simp: cache_inv_def cache_op_defs)
qed (auto simp: cache_inv_def cache_op_defs split: if_splits)

section \<open>Keys of runs\<close>

definition DB_AI_BUCKET_TASKS :: string where "DB_AI_BUCKET_TASKS = ''ai_tasks''"

definition agentTaskIDPrefix :: string where "agentTaskIDPrefix = DB_AI_BUCKET_TASKS @ '':Agent:''"

definition agentRunKeyPrefix :: "string \<Rightarrow> string \<Rightarrow> string" where
  "agentRunKeyPrefix namespace agentName = agentTaskIDPrefix @ namespace @ '':'' @ agentName @ ''-run-''"

definition isAgentTaskID :: "string \<Rightarrow> bool" where
  "isAgentTaskID i = prefix agentTaskIDPrefix i"

definition agentTaskKeyForNamespace :: "string \<Rightarrow> string \<Rightarrow> string" where
  "agentTaskKeyForNamespace key namespace =
     (case split_n 4 (CHR '':'') key of
        [a, b, c, d] \<Rightarrow> if namespace = [] \<or> b \<noteq> ''Agent'' then key else join '':'' [a, b, namespace, d]
      | _ \<Rightarrow> key)"

text \<open>The key pattern \<open>ai_tasks:Agent:*:<agent>-run-*\<close>, for an agent name without wildcards.\<close>

definition matches_agent_runs :: "string \<Rightarrow> string \<Rightarrow> bool" where
  "matches_agent_runs agentName key \<longleftrightarrow>
     prefix agentTaskIDPrefix key \<and> str_contains (drop (length agentTaskIDPrefix) key) ('':'' @ agentName @ ''-run-'')"

text \<open>The timestamp of \<open>-run-(\\d+)(?:-f\\d+)?$\<close>: at the leftmost place where the rest of the key is
  \<open>-run-\<close>, digits, and perhaps \<open>-f\<close> and digits.\<close>

definition is_digit :: "char \<Rightarrow> bool" where
  "is_digit c \<longleftrightarrow> CHR ''0'' \<le> c \<and> c \<le> CHR ''9''"

definition finding_suffix :: "string \<Rightarrow> bool" where
  "finding_suffix s \<longleftrightarrow> s = [] \<or> (take 2 s = ''-f'' \<and> drop 2 s \<noteq> [] \<and> list_all is_digit (drop 2 s))"

definition run_suffix :: "string \<Rightarrow> string option" where
  "run_suffix s =
     (let rest = drop 5 s; ds = takeWhile is_digit rest
      in if take 5 s = ''-run-'' \<and> ds \<noteq> [] \<and> finding_suffix (dropWhile is_digit rest) then Some ds else None)"

fun run_digits :: "string \<Rightarrow> string option" where
  "run_digits [] = None"
| "run_digits (c # s) = (case run_suffix (c # s) of Some ds \<Rightarrow> Some ds | None \<Rightarrow> run_digits s)"

definition run_timestamp :: "string \<Rightarrow> int option" where
  "run_timestamp key = (case run_digits key of None \<Rightarrow> None | Some ds \<Rightarrow> parse_int64 ds)"

text \<open>The runs, newest first, each with its keys in order.\<close>

definition groupAgentRunKeys :: "string list \<Rightarrow> (int \<times> string list) list" where
  "groupAgentRunKeys keys =
     map (\<lambda>ts. (ts, sort (filter (\<lambda>k. run_timestamp k = Some ts) keys)))
       (rev (sort (remdups (concat (map (\<lambda>k. case run_timestamp k of None \<Rightarrow> [] | Some t \<Rightarrow> [t]) keys)))))"

section \<open>Properties\<close>

text \<open>The cache of enabled agents is never stale once the watch has caught up: in every
  interleaving of changes, watch events, lookups and reads, a lookup that is answered from the
  cache while no read is under way and no event is outstanding gives the enabled agents of the
  store.\<close>

lemma agent_cache_coherent:
  assumes "cache_reach s" "cr_events s = 0" "\<not> ac_Fetching (cr_cache s)" "cache_lookup now (cr_cache s) = (c, Inl agents)"
  shows "agents = fetchEnabledAgents (Some (cr_store s))"
  using cache_reach_inv [OF assms(1)] assms(2-) by (auto simp: cache_inv_def cache_lookup_def split: if_splits)

definition demo_cached_agent :: "bool \<Rightarrow> Agent" where
  "demo_cached_agent on = \<lparr>an_Name = ''a'', an_Spec = \<lparr>as_Enabled = on, as_Scope = \<lparr>sc_WorkspaceRef = [], sc_Namespaces = [''ns'']\<rparr>,
     as_Cron = [], as_OnChange = None, as_Model = \<lparr>ag_ModelRef = [], ag_MaxToolCalls = None, ag_MaxTokensPerRun = None\<rparr>,
     as_McpServerRefs = [], as_Builtin = None\<rparr>\<rparr>"

definition demo_cache :: cache_run where
  "demo_cache = \<lparr>cr_cache = \<lparr>ac_cachedEnabledAgents = [demo_cached_agent True], ac_Time = 7, ac_Valid = True, ac_Fetching = False, ac_Gen = 1\<rparr>,
     cr_store = [demo_cached_agent True, demo_cached_agent False], cr_fetch = None, cr_events = 0\<rparr>"

lemma demo_cache_reach: "cache_reach demo_cache"
proof -
  let ?l = "[demo_cached_agent True, demo_cached_agent False]"
  note init = cache_reach.init
  note changed = cache_reach.change [OF init, of ?l]
  from cache_reach.event [OF changed, of 0] have
    "cache_reach \<lparr>cr_cache = \<lparr>ac_cachedEnabledAgents = [], ac_Time = 0, ac_Valid = False, ac_Fetching = False, ac_Gen = 1\<rparr>,
       cr_store = ?l, cr_fetch = None, cr_events = 0\<rparr>" by (simp add: invalidateAgentCache_def)
  from cache_reach.lookup [OF this, of 5 _ 1] have
    "cache_reach \<lparr>cr_cache = \<lparr>ac_cachedEnabledAgents = [], ac_Time = 0, ac_Valid = False, ac_Fetching = True, ac_Gen = 1\<rparr>,
       cr_store = ?l, cr_fetch = Some (1, None), cr_events = 0\<rparr>" by (simp add: cache_lookup_def)
  from cache_reach.read [OF this, of 1] have
    "cache_reach \<lparr>cr_cache = \<lparr>ac_cachedEnabledAgents = [], ac_Time = 0, ac_Valid = False, ac_Fetching = True, ac_Gen = 1\<rparr>,
       cr_store = ?l, cr_fetch = Some (1, Some [demo_cached_agent True]), cr_events = 0\<rparr>"
    by (simp add: fetchEnabledAgents_def demo_cached_agent_def)
  from cache_reach.keep [OF this, of 1 "[demo_cached_agent True]" 7] show ?thesis
    by (simp add: cache_store_def demo_cache_def Let_def)
qed

end
