(* ===== verification/OwnerCache.thy ===== *)
theory OwnerCache
  imports StoreIndex
begin

text \<open>
  The owner lookup of \<open>store/ownercacheservice.go\<close>: from a pod up its owner references to the
  controller on top, with a cache by pod.

  The typed getters of the store (\<open>GetPod\<close>, \<open>GetReplicaset\<close>, ...) each read one object by its key;
  what they find, as the object's name, namespace and owner references, is a parameter. The recursion
  follows data that nothing bounds, so it is a partial function: \<open>None\<close> is a call that never
  returns.
\<close>

section \<open>Objects\<close>

record OwnerReference =
  ow_Kind :: string
  ow_Name :: string

text \<open>A request for one workload embeds its descriptor.\<close>

record WorkloadSingleRequest = ResourceDescriptor +
  wl_Namespace :: string
  wl_ResourceName :: string

text \<open>References that are absent (nil) are told apart from an empty list.\<close>

record owned_object =
  oo_Name :: string
  oo_Namespace :: string
  oo_OwnerReferences :: "OwnerReference list option"

type_synonym object_getter = "ResourceDescriptor \<Rightarrow> string \<Rightarrow> string \<Rightarrow> owned_object option"

definition DeploymentResource :: ResourceDescriptor where
  "DeploymentResource = \<lparr>rd_Kind = ''Deployment'', rd_Plural = ''deployments'', rd_ApiVersion = ''apps/v1'', rd_Namespaced = True\<rparr>"
definition StatefulSetResource :: ResourceDescriptor where
  "StatefulSetResource = \<lparr>rd_Kind = ''StatefulSet'', rd_Plural = ''statefulsets'', rd_ApiVersion = ''apps/v1'', rd_Namespaced = True\<rparr>"
definition DaemonSetResource :: ResourceDescriptor where
  "DaemonSetResource = \<lparr>rd_Kind = ''DaemonSet'', rd_Plural = ''daemonsets'', rd_ApiVersion = ''apps/v1'', rd_Namespaced = True\<rparr>"
definition JobResource :: ResourceDescriptor where
  "JobResource = \<lparr>rd_Kind = ''Job'', rd_Plural = ''jobs'', rd_ApiVersion = ''batch/v1'', rd_Namespaced = True\<rparr>"
definition CronJobResource :: ResourceDescriptor where
  "CronJobResource = \<lparr>rd_Kind = ''CronJob'', rd_Plural = ''cronjobs'', rd_ApiVersion = ''batch/v1'', rd_Namespaced = True\<rparr>"
definition ReplicaSetResource :: ResourceDescriptor where
  "ReplicaSetResource = \<lparr>rd_Kind = ''ReplicaSet'', rd_Plural = ''replicasets'', rd_ApiVersion = ''apps/v1'', rd_Namespaced = True\<rparr>"
definition PodResource :: ResourceDescriptor where
  "PodResource = \<lparr>rd_Kind = ''Pod'', rd_Plural = ''pods'', rd_ApiVersion = ''v1'', rd_Namespaced = True\<rparr>"
definition NodeResource :: ResourceDescriptor where
  "NodeResource = \<lparr>rd_Kind = ''Node'', rd_Plural = ''nodes'', rd_ApiVersion = ''v1'', rd_Namespaced = False\<rparr>"

definition NewK8sController :: "ResourceDescriptor \<Rightarrow> string \<Rightarrow> string \<Rightarrow> WorkloadSingleRequest" where
  "NewK8sController resource name namespace =
     \<lparr>rd_Kind = rd_Kind resource, rd_Plural = rd_Plural resource, rd_ApiVersion = rd_ApiVersion resource,
      rd_Namespaced = rd_Namespaced resource, wl_Namespace = namespace, wl_ResourceName = name\<rparr>"

section \<open>Following references\<close>

text \<open>The kinds the lookup knows; an owner of another kind ends it.\<close>

definition owner_resources :: "ResourceDescriptor list" where
  "owner_resources = [ReplicaSetResource, DeploymentResource, StatefulSetResource, DaemonSetResource, JobResource,
     CronJobResource, PodResource, NodeResource]"

text \<open>The first owner, if it is of a known kind and in the store: its controller and its own
  references. A node is looked up, and reported, without a namespace.\<close>

definition first_owner ::
  "object_getter \<Rightarrow> string \<Rightarrow> OwnerReference list \<Rightarrow> (WorkloadSingleRequest \<times> OwnerReference list option) option" where
  "first_owner get namespace ownerRefs =
     (case ownerRefs of
        [] \<Rightarrow> None
      | owner # _ \<Rightarrow>
          (case find (\<lambda>r. rd_Kind r = ow_Kind owner) owner_resources of
             None \<Rightarrow> None
           | Some resource \<Rightarrow>
               (let ns = (if resource = NodeResource then [] else namespace)
                in case get resource ns (ow_Name owner) of
                     None \<Rightarrow> None
                   | Some data \<Rightarrow> Some (NewK8sController resource (oo_Name data) ns, oo_OwnerReferences data))))"

definition returnOrUpdated :: "'a option \<Rightarrow> 'a option \<Rightarrow> 'a option" where
  "returnOrUpdated lastValid result = (case result of Some r \<Rightarrow> Some r | None \<Rightarrow> lastValid)"

partial_function (option) OwnerFromReference ::
  "object_getter \<Rightarrow> string \<Rightarrow> OwnerReference list \<Rightarrow> WorkloadSingleRequest option option" where
  "OwnerFromReference get namespace ownerRefs =
     (case first_owner get namespace ownerRefs of
        None \<Rightarrow> Some None
      | Some (ctlr, refs) \<Rightarrow>
          (case refs of
             None \<Rightarrow> Some (Some ctlr)
           | Some rs \<Rightarrow> Option.bind (OwnerFromReference get namespace rs) (\<lambda>r. Some (returnOrUpdated (Some ctlr) r))))"

section \<open>The cache\<close>

definition podCacheKey :: "string \<Rightarrow> string \<Rightarrow> string" where
  "podCacheKey namespace podName = namespace @ ''/'' @ podName"

definition ClearOwnerCachePodEntry ::
  "string \<Rightarrow> string \<Rightarrow> (string, WorkloadSingleRequest) gomap \<Rightarrow> (string, WorkloadSingleRequest) gomap" where
  "ClearOwnerCachePodEntry namespace podName = AList.delete (podCacheKey namespace podName)"

text \<open>The result with the cache it leaves; a pod that has no references is its own controller and is
  not cached.\<close>

definition ControllerForPod ::
  "object_getter \<Rightarrow> string \<Rightarrow> string \<Rightarrow> (string, WorkloadSingleRequest) gomap
    \<Rightarrow> (WorkloadSingleRequest option \<times> (string, WorkloadSingleRequest) gomap) option" where
  "ControllerForPod get namespace podName ownerCache =
     (case map_of ownerCache (podCacheKey namespace podName) of
        Some ctlr \<Rightarrow> Some (Some ctlr, ownerCache)
      | None \<Rightarrow>
          (case get PodResource namespace podName of
             None \<Rightarrow> Some (None, ownerCache)
           | Some pod \<Rightarrow>
               Option.bind (OwnerFromReference get (oo_Namespace pod) (case oo_OwnerReferences pod of None \<Rightarrow> [] | Some rs \<Rightarrow> rs)) (\<lambda>ctlr.
                 case ctlr of
                   Some c \<Rightarrow> Some (Some c, AList.update (podCacheKey namespace podName) c ownerCache)
                 | None \<Rightarrow> Some (case oo_OwnerReferences pod of None \<Rightarrow> Some (NewK8sController PodResource (oo_Name pod) namespace) | Some _ \<Rightarrow> None,
                     ownerCache))))"

section \<open>What the lookup finds\<close>

text \<open>The controllers above some references, bottom up: first owners, for as long as they exist and
  have references themselves.\<close>

inductive owners_above :: "object_getter \<Rightarrow> string \<Rightarrow> OwnerReference list \<Rightarrow> WorkloadSingleRequest list \<Rightarrow> bool" for get namespace where
  no_owner: "first_owner get namespace refs = None \<Longrightarrow> owners_above get namespace refs []"
| top: "first_owner get namespace refs = Some (c, None) \<Longrightarrow> owners_above get namespace refs [c]"
| up: "first_owner get namespace refs = Some (c, Some rs) \<Longrightarrow> owners_above get namespace rs cs \<Longrightarrow> owners_above get namespace refs (c # cs)"

inductive_cases owners_aboveE: "owners_above get namespace refs cs"

definition last_of :: "'a list \<Rightarrow> 'a option" where
  "last_of xs = (if xs = [] then None else Some (last xs))"

lemma last_of_Cons: "last_of (x # xs) = returnOrUpdated (Some x) (last_of xs)"
  by (simp add: last_of_def returnOrUpdated_def)

lemma OwnerFromReference_above:
  "owners_above get namespace refs cs \<Longrightarrow> OwnerFromReference get namespace refs = Some (last_of cs)"
  by (induction rule: owners_above.induct) (subst OwnerFromReference.simps, simp add: last_of_Cons returnOrUpdated_def last_of_def)+

text \<open>A returned call followed a finite chain.\<close>

lemma OwnerFromReference_returns:
  assumes "OwnerFromReference get namespace refs = Some r"
  shows "\<exists>cs. owners_above get namespace refs cs \<and> r = last_of cs"
proof (rule OwnerFromReference.raw_induct [OF _ assms, where P = "\<lambda>get namespace refs r. \<exists>cs. owners_above get namespace refs cs \<and> r = last_of cs"])
  fix f get namespace refs r
  assume IH: "\<And>get namespace refs r. f get namespace refs = Some r \<Longrightarrow> \<exists>cs. owners_above get namespace refs cs \<and> r = last_of cs"
    and body: "(case first_owner get namespace refs of
        None \<Rightarrow> Some None
      | Some (ctlr, refs) \<Rightarrow>
          (case refs of
             None \<Rightarrow> Some (Some ctlr)
           | Some rs \<Rightarrow> Option.bind (f get namespace rs) (\<lambda>r. Some (returnOrUpdated (Some ctlr) r)))) = Some r"
  show "\<exists>cs. owners_above get namespace refs cs \<and> r = last_of cs"
  proof (cases "first_owner get namespace refs")
    case None
    with body show ?thesis by (auto simp: last_of_def intro: owners_above.no_owner)
  next
    case (Some step)
    then obtain c up where step: "first_owner get namespace refs = Some (c, up)" by (cases step) auto
    show ?thesis
    proof (cases up)
      case None
      with body step show ?thesis by (auto simp: last_of_def intro!: exI [of _ "[c]"] owners_above.top)
    next
      case (Some rs)
      with body step obtain r' where "f get namespace rs = Some r'" "r = returnOrUpdated (Some c) r'"
        by (auto simp: bind_eq_Some_conv)
      with IH Some step show ?thesis by (metis last_of_Cons owners_above.up)
    qed
  qed
qed

lemma owners_above_exists:
  assumes "\<forall>refs c rs. first_owner get namespace refs = Some (c, Some rs) \<longrightarrow> rank rs < (rank refs :: nat)"
  shows "\<exists>cs. owners_above get namespace refs cs"
proof (induction refs rule: measure_induct_rule [of rank])
  case (less refs)
  show ?case
  proof (cases "first_owner get namespace refs")
    case None
    then show ?thesis by (auto intro: owners_above.no_owner)
  next
    case (Some step)
    then obtain c up where step: "first_owner get namespace refs = Some (c, up)" by (cases step) auto
    show ?thesis
    proof (cases up)
      case None
      with step show ?thesis by (auto intro: owners_above.top)
    next
      case (Some rs)
      with step assms less [of rs] show ?thesis by (auto intro: owners_above.up)
    qed
  qed
qed

text \<open>References that lead back to themselves have no end, and the lookup never returns.\<close>

lemma owner_cycle_never_returns:
  assumes "first_owner get namespace refs = Some (c, Some refs)"
  shows "OwnerFromReference get namespace refs = None"
proof -
  have "owners_above get namespace refs' cs \<Longrightarrow> refs' \<noteq> refs" for refs' cs
    by (induction rule: owners_above.induct) (use assms in auto)
  then show ?thesis using OwnerFromReference_returns by (cases "OwnerFromReference get namespace refs") blast+
qed

section \<open>Properties\<close>

text \<open>C20: The owner lookup ends and finds the controller on top: whenever some measure
  decreases along first owners, as it does for references without a cycle, the lookup of a pod
  that is not cached returns the topmost owner that is stored, the pod itself when it has no
  references, and nothing when its owner is not stored; and it caches exactly an owner it found.\<close>

theorem pod_owner_found:
  assumes ranked: "\<forall>refs c rs. first_owner get (oo_Namespace pod) refs = Some (c, Some rs) \<longrightarrow> rank rs < (rank refs :: nat)"
    and pod: "get PodResource namespace podName = Some pod" "map_of cache (podCacheKey namespace podName) = None"
  shows "\<exists>cs. owners_above get (oo_Namespace pod) (case oo_OwnerReferences pod of None \<Rightarrow> [] | Some rs \<Rightarrow> rs) cs \<and>
    ControllerForPod get namespace podName cache =
      Some (if cs \<noteq> [] then (Some (last cs), AList.update (podCacheKey namespace podName) (last cs) cache)
            else (if oo_OwnerReferences pod = None then Some (NewK8sController PodResource (oo_Name pod) namespace) else None, cache))"
proof -
  let ?refs = "case oo_OwnerReferences pod of None \<Rightarrow> [] | Some rs \<Rightarrow> rs"
  obtain cs where cs: "owners_above get (oo_Namespace pod) ?refs cs"
    using owners_above_exists [OF ranked, of ?refs] by (elim exE)
  have "ControllerForPod get namespace podName cache =
      Some (if cs \<noteq> [] then (Some (last cs), AList.update (podCacheKey namespace podName) (last cs) cache)
            else (if oo_OwnerReferences pod = None then Some (NewK8sController PodResource (oo_Name pod) namespace) else None, cache))"
    using OwnerFromReference_above [OF cs] pod
    by (cases "oo_OwnerReferences pod"; cases "cs = []") (simp_all add: ControllerForPod_def last_of_def)
  with cs show ?thesis by (intro exI conjI)
qed

text \<open>A deployment's pod: the replica set refers to the deployment, which refers to nothing.\<close>

definition demo_object :: "string \<Rightarrow> OwnerReference list option \<Rightarrow> owned_object" where
  "demo_object name refs = \<lparr>oo_Name = name, oo_Namespace = ''shop'', oo_OwnerReferences = refs\<rparr>"

definition demo_getter :: object_getter where
  "demo_getter r ns name =
     (if rd_Kind r = ''Pod'' \<and> name = ''web-1-x'' then Some (demo_object name (Some [\<lparr>ow_Kind = ''ReplicaSet'', ow_Name = ''web-1''\<rparr>]))
      else if rd_Kind r = ''ReplicaSet'' \<and> name = ''web-1'' then Some (demo_object name (Some [\<lparr>ow_Kind = ''Deployment'', ow_Name = ''web''\<rparr>]))
      else if rd_Kind r = ''Deployment'' \<and> name = ''web'' then Some (demo_object name None) else None)"

definition demo_rank :: "OwnerReference list \<Rightarrow> nat" where
  "demo_rank refs = (case refs of [] \<Rightarrow> 0 | r # _ \<Rightarrow> if ow_Kind r = ''Pod'' then 3 else if ow_Kind r = ''ReplicaSet'' then 2 else 1)"

lemma found_kind: "find (\<lambda>r. rd_Kind r = k) rs = Some d \<Longrightarrow> rd_Kind d = k"
  by (auto simp: find_Some_iff)

lemma demo_ranked: "first_owner demo_getter ns refs = Some (c, Some rs) \<Longrightarrow> demo_rank rs < demo_rank refs"
  by (auto simp: first_owner_def demo_getter_def demo_object_def demo_rank_def Let_def dest!: found_kind split: if_splits option.splits list.splits)

theorem pod_owner_found_witness:
  "\<exists>cs. owners_above demo_getter ''shop'' [\<lparr>ow_Kind = ''ReplicaSet'', ow_Name = ''web-1''\<rparr>] cs \<and>
    ControllerForPod demo_getter ''shop'' ''web-1-x'' [] =
      Some (if cs \<noteq> [] then (Some (last cs), [(podCacheKey ''shop'' ''web-1-x'', last cs)]) else (None, []))"
proof -
  let ?pod = "demo_object ''web-1-x'' (Some [\<lparr>ow_Kind = ''ReplicaSet'', ow_Name = ''web-1''\<rparr>])"
  have "demo_getter PodResource ''shop'' ''web-1-x'' = Some ?pod"
    by (simp add: demo_getter_def PodResource_def)
  then show ?thesis
    using pod_owner_found [of demo_getter ?pod demo_rank "''shop''" "''web-1-x''" "[]"] demo_ranked
    by (simp add: demo_object_def cong: if_cong split del: if_split)
qed

end
