(* ===== verification/AiTasks.thy ===== *)
theory AiTasks
  imports AiAgents OwnerCache
begin

text \<open>
  The life of an agent run as a stored task: \<open>ai/aimanager.go\<close> (queue, runs, startup),
  \<open>aimanager_api.go\<close> (state changes by clients), \<open>aimanager_cancel.go\<close>,
  \<open>aimanager_delete.go\<close>, \<open>aimanager_execute.go\<close> (approval) and the approval wait of
  \<open>agents.go\<close>.

  The tasks live in the key-value store under their keys; what was marshalled is what is read back.
  The server can be unreachable for reads or for writes, entries expire, and every goroutine is
  interleaved at the granularity of the operations below. Events sent to the platform and log
  lines are left out. A task's structure in a goroutine and the stored one are different things:
  a run keeps the structure it was started with and writes that one back.
\<close>

section \<open>Tasks\<close>

datatype AiTaskState = PENDING | IN_PROGRESS | COMPLETED | FAILED | IGNORED | SOLVED | CANCELLING | CANCELED
  | PROPOSED | REJECTED | EXECUTING | EXECUTED | EXECUTION_FAILED

fun state_text :: "AiTaskState \<Rightarrow> string" where
  "state_text PENDING = ''pending''"
| "state_text IN_PROGRESS = ''in-progress''"
| "state_text COMPLETED = ''completed''"
| "state_text FAILED = ''failed''"
| "state_text IGNORED = ''ignored''"
| "state_text SOLVED = ''solved''"
| "state_text CANCELLING = ''cancelling''"
| "state_text CANCELED = ''canceled''"
| "state_text PROPOSED = ''proposed''"
| "state_text REJECTED = ''rejected''"
| "state_text EXECUTING = ''executing''"
| "state_text EXECUTED = ''executed''"
| "state_text EXECUTION_FAILED = ''execution-failed''"

record ApprovalRecord =
  ap_User :: User
  ap_At :: int
  ap_Rejected :: bool
  ap_Reason :: string

record ToolRequest =
  tr_Name :: string
  tr_Args :: json
  tr_Sessions :: "string list"

definition no_resource :: WorkloadSingleRequest where
  "no_resource = \<lparr>rd_Kind = [], rd_Plural = [], rd_ApiVersion = [], rd_Namespaced = False, wl_Namespace = [], wl_ResourceName = []\<rparr>"

record AiTask =
  t_ID :: string
  t_Prompt :: string
  t_Response :: "ToolRequest list option"
  t_State :: AiTaskState
  t_TokensUsed :: int
  t_Retries :: int
  t_CurrentActivity :: string
  t_Model :: string
  t_TimeUsedInMs :: int
  t_CreatedAt :: int
  t_UpdatedAt :: int
  t_ReferencingResource :: WorkloadSingleRequest
  t_ReadByUsers :: "(User \<times> int) list"
  t_Error :: string
  t_AgentRef :: string
  t_Trigger :: string
  t_TriggeredByUser :: "User option"
  t_ScopeNamespaces :: "string list"
  t_ScopeAllNamespaces :: bool
  t_Approval :: "ApprovalRecord option"

definition maxAiTaskRetries :: int where "maxAiTaskRetries = 2"
definition maxConcurrentRuns :: nat where "maxConcurrentRuns = 10"
definition maxAgentRunHistory :: nat where "maxAgentRunHistory = 10"

section \<open>State\<close>

text \<open>A run's goroutine: before it has a slot, in the tool loop, or waiting for an approval on the
  channel with its number.\<close>

datatype run_pc = Queued | Running | Awaiting nat

record run =
  rn_id :: nat
  rn_task :: AiTask
  rn_key :: string
  rn_config :: ResolvedModelConfig
  rn_cancelled :: bool
  rn_pc :: run_pc

text \<open>The manager with the part of the store it uses. The last three fields only record what
  happened: who approved which task, which tasks a client marked solved, and to whom a waiting
  run attributed the approval it continued with.\<close>

record ai_state =
  ai_tasks :: "(string, AiTask) gomap"
  ai_latest :: "AiTask option"
  ai_latestNs :: "(string, AiTask) gomap"
  ai_cancels :: "(string, string) gomap"
  ai_readOk :: bool
  ai_writeOk :: bool
  ai_usage :: usage_state
  ai_kick :: bool
  ai_error :: string
  ai_lastAgentRun :: "(string, int) gomap"
  ai_next :: nat
  ai_runs :: "run list"
  ai_runCancels :: "(string, nat) gomap"
  ai_pendingApprovals :: "(string, nat) gomap"
  ai_buffers :: "(string \<times> nat, User \<times> string option) gomap"
  ai_pass :: "(string \<times> AiTask) list"
  ai_approved :: "(string \<times> User) list"
  ai_solved :: "string list"
  ai_grants :: "(string \<times> User) list"

definition NewAiManager :: ai_state where
  "NewAiManager = \<lparr>ai_tasks = [], ai_latest = None, ai_latestNs = [], ai_cancels = [], ai_readOk = True, ai_writeOk = True,
     ai_usage = \<lparr>tu_entries = [], tu_cache = None\<rparr>, ai_kick = False, ai_error = [], ai_lastAgentRun = [], ai_next = 0, ai_runs = [],
     ai_runCancels = [], ai_pendingApprovals = [], ai_buffers = [], ai_pass = [], ai_approved = [], ai_solved = [], ai_grants = []\<rparr>"

datatype task_error = ReadFailed | WriteFailed | TaskNotFound | NotAllowed | WrongState | NoUser | OpenRun | NoScope | AgentError string

section \<open>Storing tasks\<close>

definition latestTaskNamespaces :: "AiTask \<Rightarrow> string \<Rightarrow> string list" where
  "latestTaskNamespaces task key =
     (case split_n 4 (CHR '':'') key of
        [a, b, c, d] \<Rightarrow>
          if b \<noteq> ''Agent'' then [c] else if t_ScopeNamespaces task \<noteq> [] then t_ScopeNamespaces task else [c]
      | _ \<Rightarrow> [])"

definition createOrUpdateAiTask :: "int \<Rightarrow> AiTask \<Rightarrow> string \<Rightarrow> ai_state \<Rightarrow> ai_state \<times> bool" where
  "createOrUpdateAiTask now task key S =
     (if \<not> ai_writeOk S then (S, False)
      else (let t = task\<lparr>t_UpdatedAt := now\<rparr>
            in (S\<lparr>ai_tasks := AList.update key t (ai_tasks S),
                  ai_kick := ai_kick S \<or> t_State task = PENDING,
                  ai_latest := Some t,
                  ai_latestNs := foldl (\<lambda>m ns. AList.update ns t m) (ai_latestNs S) (latestTaskNamespaces task key)\<rparr>, True)))"

definition getTaskByKey :: "string \<Rightarrow> ai_state \<Rightarrow> task_error + AiTask option" where
  "getTaskByKey key S = (if ai_readOk S then Inr (map_of (ai_tasks S) key) else Inl ReadFailed)"

definition DeleteKey :: "string \<Rightarrow> ai_state \<Rightarrow> ai_state \<times> bool" where
  "DeleteKey key S = (if ai_writeOk S then (S\<lparr>ai_tasks := AList.delete key (ai_tasks S)\<rparr>, True) else (S, False))"

text \<open>The common start of the handlers below.\<close>

definition with_task :: "string \<Rightarrow> ai_state \<Rightarrow> (AiTask \<Rightarrow> ai_state \<times> (task_error + AiTask)) \<Rightarrow> ai_state \<times> (task_error + AiTask)" where
  "with_task taskID S f =
     (case getTaskByKey taskID S of
        Inl err \<Rightarrow> (S, Inl err)
      | Inr None \<Rightarrow> (S, Inl TaskNotFound)
      | Inr (Some task) \<Rightarrow> f task)"

definition save_task :: "int \<Rightarrow> AiTask \<Rightarrow> string \<Rightarrow> ai_state \<Rightarrow> ai_state \<times> (task_error + AiTask)" where
  "save_task now task key S =
     (case createOrUpdateAiTask now task key S of
        (S', True) \<Rightarrow> (S', Inr (task\<lparr>t_UpdatedAt := now\<rparr>))
      | (S', False) \<Rightarrow> (S', Inl WriteFailed))"

section \<open>What clients do\<close>

definition genericStateTransitions :: "AiTaskState list" where
  "genericStateTransitions = [PENDING, IGNORED, SOLVED]"

definition UpdateTaskState :: "int \<Rightarrow> string \<Rightarrow> AiTaskState \<Rightarrow> ai_state \<Rightarrow> ai_state \<times> (task_error + AiTask)" where
  "UpdateTaskState now taskID newState S =
     (if newState \<notin> set genericStateTransitions then (S, Inl NotAllowed)
      else with_task taskID S (\<lambda>task.
        if t_State task = EXECUTING then (S, Inl WrongState)
        else save_task now (task\<lparr>t_State := newState\<rparr>) taskID
               (if newState = SOLVED \<and> ai_writeOk S then S\<lparr>ai_solved := taskID # ai_solved S\<rparr> else S)))"

definition userSeesTaskForTheFirstTime :: "User \<Rightarrow> (User \<times> int) list \<Rightarrow> bool" where
  "userSeesTaskForTheFirstTime readBy users \<longleftrightarrow> (\<forall>u \<in> set users. u_Email (fst u) \<noteq> u_Email readBy)"

definition UpdateTaskReadState :: "int \<Rightarrow> string \<Rightarrow> User \<Rightarrow> ai_state \<Rightarrow> ai_state \<times> (task_error + AiTask)" where
  "UpdateTaskReadState now taskID user S =
     (if u_Email user = [] then (S, Inl NoUser)
      else with_task taskID S (\<lambda>task.
        if userSeesTaskForTheFirstTime user (t_ReadByUsers task)
        then save_task now (task\<lparr>t_ReadByUsers := t_ReadByUsers task @ [(user, now)]\<rparr>) taskID S
        else (S, Inr task)))"

definition canceledByMessage :: "User \<Rightarrow> string" where
  "canceledByMessage user = (if u_Email user = [] then ''canceled by user'' else ''canceled by '' @ u_Email user)"

definition cancelLocalRun :: "string \<Rightarrow> ai_state \<Rightarrow> ai_state" where
  "cancelLocalRun taskID S =
     (case map_of (ai_runCancels S) taskID of
        None \<Rightarrow> S
      | Some i \<Rightarrow> S\<lparr>ai_runs := map (\<lambda>r. if rn_id r = i then r\<lparr>rn_cancelled := True\<rparr> else r) (ai_runs S)\<rparr>)"

definition CancelTask :: "int \<Rightarrow> string \<Rightarrow> User \<Rightarrow> ai_state \<Rightarrow> ai_state \<times> (task_error + AiTask)" where
  "CancelTask now taskID user S =
     with_task taskID S (\<lambda>task.
       if t_State task = PENDING then
         save_task now (task\<lparr>t_State := CANCELED, t_Error := canceledByMessage user\<rparr>) taskID S
       else if t_State task = IN_PROGRESS then
         (if \<not> ai_writeOk S then (S, Inl WriteFailed)
          else (case save_task now (task\<lparr>t_State := CANCELLING, t_Error := canceledByMessage user\<rparr>) taskID
                       (S\<lparr>ai_cancels := AList.update taskID (canceledByMessage user) (ai_cancels S)\<rparr>) of
                  (S', Inl err) \<Rightarrow> (S', Inl err)
                | (S', Inr t) \<Rightarrow> (cancelLocalRun taskID S', Inr t)))
       else if t_State task = CANCELLING then (S, Inr task)
       else (S, Inl WrongState))"

definition DeleteTask :: "string \<Rightarrow> ai_state \<Rightarrow> ai_state \<times> (task_error + AiTask)" where
  "DeleteTask taskID S =
     with_task taskID S (\<lambda>task.
       if t_State task \<in> {IN_PROGRESS, EXECUTING, CANCELLING} then (S, Inl WrongState)
       else (case DeleteKey taskID S of (S', True) \<Rightarrow> (S', Inr task) | (S', False) \<Rightarrow> (S', Inl WriteFailed)))"

text \<open>The channel of a waiting run holds one result.\<close>

definition signalApproval :: "string \<Rightarrow> User \<Rightarrow> string option \<Rightarrow> ai_state \<Rightarrow> ai_state" where
  "signalApproval taskID approver err S =
     (case map_of (ai_pendingApprovals S) taskID of
        None \<Rightarrow> S
      | Some c \<Rightarrow> S\<lparr>ai_buffers := AList.update (taskID, c) (approver, err) (ai_buffers S)\<rparr>)"

definition ApproveTask :: "int \<Rightarrow> string \<Rightarrow> User \<Rightarrow> ai_state \<Rightarrow> ai_state \<times> (task_error + AiTask)" where
  "ApproveTask now taskID user S =
     with_task taskID S (\<lambda>task.
       if t_State task \<noteq> PROPOSED then (S, Inl WrongState)
       else if u_Email user = [] then (S, Inl NoUser)
       else (case save_task now (task\<lparr>t_State := EXECUTED,
                      t_Approval := Some \<lparr>ap_User = user, ap_At = now, ap_Rejected = False, ap_Reason = []\<rparr>\<rparr>) taskID S of
               (S', Inl err) \<Rightarrow> (S', Inl err)
             | (S', Inr t) \<Rightarrow> (signalApproval taskID user None (S'\<lparr>ai_approved := (taskID, user) # ai_approved S'\<rparr>), Inr t)))"

definition RejectTask :: "int \<Rightarrow> string \<Rightarrow> User \<Rightarrow> string \<Rightarrow> ai_state \<Rightarrow> ai_state \<times> (task_error + AiTask)" where
  "RejectTask now taskID user reason S =
     with_task taskID S (\<lambda>task.
       if t_State task \<noteq> PROPOSED then (S, Inl WrongState)
       else if u_Email user = [] then (S, Inl NoUser)
       else (case save_task now (task\<lparr>t_State := REJECTED,
                      t_Approval := Some \<lparr>ap_User = user, ap_At = now, ap_Rejected = True, ap_Reason = reason\<rparr>\<rparr>) taskID S of
               (S', Inl err) \<Rightarrow> (S', Inl err)
             | (S', Inr t) \<Rightarrow>
                 (signalApproval taskID user
                    (Some (''rejected by '' @ u_Email user @ (if reason \<noteq> [] then '': '' @ reason else []))) S', Inr t)))"

section \<open>Startup and cleanup\<close>

definition clearTaskCancelRequest :: "string \<Rightarrow> ai_state \<Rightarrow> ai_state" where
  "clearTaskCancelRequest taskID S = (if ai_writeOk S then S\<lparr>ai_cancels := AList.delete taskID (ai_cancels S)\<rparr> else S)"

definition taskCancelReason :: "string \<Rightarrow> ai_state \<Rightarrow> string" where
  "taskCancelReason taskID S =
     (if ai_readOk S then (case map_of (ai_cancels S) taskID of None \<Rightarrow> [] | Some reason \<Rightarrow> reason) else [])"

definition reset_task :: "int \<Rightarrow> ai_state \<Rightarrow> string \<Rightarrow> ai_state" where
  "reset_task now S key =
     (case getTaskByKey key S of
        Inr (Some task) \<Rightarrow>
          if t_State task = IN_PROGRESS then
            fst (createOrUpdateAiTask now (task\<lparr>t_State := PENDING, t_Error := [], t_CurrentActivity := []\<rparr>) key S)
          else if t_State task = CANCELLING then
            fst (createOrUpdateAiTask now (task\<lparr>t_State := CANCELED, t_CurrentActivity := [],
                     t_Error := if t_Error task = [] then ''canceled by user'' else t_Error task\<rparr>) key
                   (clearTaskCancelRequest (t_ID task) S))
          else if t_State task = EXECUTING then
            fst (createOrUpdateAiTask now (task\<lparr>t_State := EXECUTION_FAILED,
                     t_Error := ''operator restarted during execution; verify the target resource state manually''\<rparr>) key S)
          else S
      | _ \<Rightarrow> S)"

definition resetInProgressTasksOnStartup :: "int \<Rightarrow> ai_state \<Rightarrow> ai_state" where
  "resetInProgressTasksOnStartup now S =
     (if ai_readOk S then foldl (reset_task now) S (map fst (ai_tasks S)) else S)"

definition orphaned :: "(WorkloadSingleRequest \<Rightarrow> bool) \<Rightarrow> AiTask \<Rightarrow> bool" where
  "orphaned inStore task \<longleftrightarrow>
     t_State task \<in> {COMPLETED, FAILED, REJECTED, EXECUTED, EXECUTION_FAILED} \<and>
     wl_ResourceName (t_ReferencingResource task) \<noteq> [] \<and> \<not> inStore (t_ReferencingResource task)"

definition cleanup_key :: "(WorkloadSingleRequest \<Rightarrow> bool) \<Rightarrow> ai_state \<Rightarrow> string \<Rightarrow> ai_state" where
  "cleanup_key inStore S key =
     (case getTaskByKey key S of
        Inr (Some task) \<Rightarrow> if orphaned inStore task then fst (DeleteKey key S) else S
      | _ \<Rightarrow> S)"

definition cleanupOrphanedTasks :: "(WorkloadSingleRequest \<Rightarrow> bool) \<Rightarrow> ai_state \<Rightarrow> ai_state" where
  "cleanupOrphanedTasks inStore S =
     (if ai_readOk S then foldl (cleanup_key inStore) S (map fst (ai_tasks S)) else S)"

section \<open>Enqueueing runs\<close>

definition hasOpenAgentRun :: "string \<Rightarrow> ai_state \<Rightarrow> task_error + bool" where
  "hasOpenAgentRun agentName S =
     (if \<not> ai_readOk S then Inl ReadFailed
      else Inr (\<exists>e \<in> set (ai_tasks S). matches_agent_runs agentName (fst e) \<and> t_State (snd e) \<in> {PENDING, IN_PROGRESS, CANCELLING}))"

definition enqueueAgentRun ::
  "int \<Rightarrow> Agent \<Rightarrow> string list \<Rightarrow> string \<Rightarrow> User option \<Rightarrow> string \<Rightarrow> ai_state \<Rightarrow> ai_state \<times> (task_error + AiTask)" where
  "enqueueAgentRun now agent namespaces trigger triggeredBy prompt S =
     (case hasOpenAgentRun (an_Name agent) S of
        Inl err \<Rightarrow> (S, Inl err)
      | Inr True \<Rightarrow> (S, Inl OpenRun)
      | Inr False \<Rightarrow>
          (let key = agentRunKeyPrefix (hd namespaces) (an_Name agent) @ show_int now;
               task = \<lparr>t_ID = key, t_Prompt = prompt, t_Response = None, t_State = PENDING, t_TokensUsed = 0, t_Retries = 0,
                       t_CurrentActivity = [], t_Model = [], t_TimeUsedInMs = 0, t_CreatedAt = now, t_UpdatedAt = now,
                       t_ReferencingResource = no_resource,
                       t_ReadByUsers = [], t_Error = [], t_AgentRef = an_Name agent, t_Trigger = trigger,
                       t_TriggeredByUser = triggeredBy, t_ScopeNamespaces = namespaces,
                       t_ScopeAllNamespaces = (''*'' \<in> set (sc_Namespaces (as_Scope (an_Spec agent)))), t_Approval = None\<rparr>
           in case save_task now task key S of
                (S', Inl err) \<Rightarrow> (S', Inl err)
              | (S', Inr t) \<Rightarrow> (S'\<lparr>ai_lastAgentRun := AList.update (an_Name agent) now (ai_lastAgentRun S')\<rparr>, Inr t)))"

definition createAgentRunTask ::
  "scope_env \<Rightarrow> int \<Rightarrow> Agent \<Rightarrow> string \<Rightarrow> User option \<Rightarrow> string \<Rightarrow> ai_state \<Rightarrow> ai_state \<times> (task_error + AiTask)" where
  "createAgentRunTask E now agent trigger triggeredBy prompt S =
     (case resolveAgentScope E agent of
        [] \<Rightarrow> (S, Inl NoScope)
      | namespaces \<Rightarrow> enqueueAgentRun now agent namespaces trigger triggeredBy prompt S)"

definition agentTaskVisibleInNamespaces :: "AiTask \<Rightarrow> string list \<Rightarrow> bool" where
  "agentTaskVisibleInNamespaces task namespaces =
     (if t_ScopeAllNamespaces task then True
      else if t_ScopeNamespaces task \<noteq> [] then (\<exists>ns \<in> set (t_ScopeNamespaces task). ns \<in> set namespaces)
      else (case split_n 4 (CHR '':'') (t_ID task) of [a, b, c, d] \<Rightarrow> c \<in> set namespaces | _ \<Rightarrow> False))"

section \<open>The history of an agent\<close>

definition openAgentTaskStates :: "AiTaskState list" where
  "openAgentTaskStates = [PENDING, IN_PROGRESS, CANCELLING, PROPOSED, EXECUTING]"

definition run_open :: "ai_state \<Rightarrow> string list \<Rightarrow> bool" where
  "run_open S ks \<longleftrightarrow>
     (\<exists>k \<in> set ks. case getTaskByKey k S of
        Inl _ \<Rightarrow> True | Inr None \<Rightarrow> False | Inr (Some task) \<Rightarrow> t_State task \<in> set openAgentTaskStates)"

definition prune_group :: "ai_state \<Rightarrow> int \<times> string list \<Rightarrow> ai_state" where
  "prune_group S g = (if run_open S (snd g) then S else foldl (\<lambda>S k. fst (DeleteKey k S)) S (snd g))"

definition pruneAgentRunsToLimit :: "string \<Rightarrow> ai_state \<Rightarrow> ai_state" where
  "pruneAgentRunsToLimit agentName S =
     (if agentName = [] \<or> \<not> ai_readOk S then S
      else foldl prune_group S
             (drop maxAgentRunHistory (groupAgentRunKeys (filter (matches_agent_runs agentName) (map fst (ai_tasks S))))))"

section \<open>The queue\<close>

text \<open>What the queue asks of the rest of the operator: an agent by name (or the error text), the
  scope and the models, local midnight, and the text of a model error.\<close>

record queue_env =
  qe_getAgent :: "string \<Rightarrow> string + Agent"
  qe_scope :: scope_env
  qe_models :: model_env
  qe_midnight :: "int \<Rightarrow> int"
  qe_message :: "model_error \<Rightarrow> string"

definition in_quotes :: "string \<Rightarrow> string" where
  "in_quotes s = [CHR 0x22] @ s @ [CHR 0x22]"

definition agent_context :: "Agent \<Rightarrow> string list \<Rightarrow> ToolContext" where
  "agent_context agent namespaces =
     (let c = (newToolContextFromAgent (an_Name agent) (sc_WorkspaceRef (as_Scope (an_Spec agent))) namespaces)
                \<lparr>tc_McpSessions := as_McpServerRefs (an_Spec agent)\<rparr>
      in case as_Builtin (an_Spec agent) of
           None \<Rightarrow> c | Some (kubernetes, helm) \<Rightarrow> c\<lparr>tc_DisableKubernetes := \<not> kubernetes, tc_DisableHelm := \<not> helm\<rparr>)"

definition buildAgentTaskContext :: "queue_env \<Rightarrow> AiTask \<Rightarrow> string + Agent \<times> ToolContext" where
  "buildAgentTaskContext E task =
     (if t_AgentRef task = [] then Inl ''task has no agent reference (created by a previous operator version)''
      else case qe_getAgent E (t_AgentRef task) of
             Inl err \<Rightarrow> Inl err
           | Inr agent \<Rightarrow>
               if \<not> as_Enabled (an_Spec agent) then Inl (''agent '' @ in_quotes (an_Name agent) @ '' is disabled'')
               else (let namespaces = resolveAgentScope (qe_scope E) agent; ns = wl_Namespace (t_ReferencingResource task)
                     in if namespaces = [] then Inl (''agent '' @ in_quotes (an_Name agent) @ '' has no resolvable scope namespaces'')
                        else if ns \<noteq> [] \<and> ns \<notin> set namespaces then
                          Inl (''resource namespace '' @ in_quotes ns @ '' is no longer in the scope of agent '' @ in_quotes (an_Name agent))
                        else Inr (agent, agent_context agent namespaces)))"

text \<open>The context an approved call runs with: the agent's, with the approver as its user and, when
  the agent belongs to a workspace in which the approver has a grant, the role of that grant.\<close>

definition buildApproverCtx :: "(string \<Rightarrow> string \<Rightarrow> string option) \<Rightarrow> ToolContext \<Rightarrow> User \<Rightarrow> ToolContext" where
  "buildApproverCtx grantRole toolCtx approver =
     (let c = toolCtx\<lparr>tc_User := Some approver\<rparr>
      in if tc_Workspace toolCtx = [] then c
         else case grantRole (u_Email approver) (tc_Workspace toolCtx) of None \<Rightarrow> c | Some role \<Rightarrow> c\<lparr>tc_Role := role\<rparr>)"

definition server :: "ai_state \<Rightarrow> usage_server" where
  "server S = \<lparr>sv_list = ai_readOk S, sv_readable = \<lambda>_. ai_readOk S, sv_writable = \<lambda>_. ai_writeOk S\<rparr>"

definition modelBudgetExceededMessage :: "ResolvedModelConfig \<Rightarrow> int \<Rightarrow> string" where
  "modelBudgetExceededMessage rc used =
     ''Daily token limit of AI model '' @ in_quotes (rc_ModelCrName rc) @ '' reached ('' @ show_int used @ '' of ''
     @ show_int (rc_DailyTokenLimit rc) @ '' tokens used today). Runs resume after midnight, or reset the usage via the model settings (annotation mogenius.com/reset-usage-at).''"

definition modelBudgetError :: "(int \<Rightarrow> int) \<Rightarrow> int \<Rightarrow> ResolvedModelConfig \<Rightarrow> ai_state \<Rightarrow> string" where
  "modelBudgetError midnight now rc S =
     modelBudgetExceededMessage rc
       (case snd (todayUsageSnapshot (server S) midnight now (ai_usage S)) of
          None \<Rightarrow> 0 | Some s \<Rightarrow> per_model (us_PerModel s) (rc_ModelCrName rc))"

definition queue_candidates :: "ai_state \<Rightarrow> (string \<times> AiTask) list" where
  "queue_candidates S =
     (if \<not> ai_readOk S then []
      else stable_sort (\<lambda>a b. t_CreatedAt (snd a) < t_CreatedAt (snd b))
             (filter (\<lambda>e. t_State (snd e) = PENDING \<or> (t_State (snd e) = FAILED \<and> t_Retries (snd e) < maxAiTaskRetries)) (ai_tasks S)))"

definition giving_up :: "int \<Rightarrow> string \<Rightarrow> string" where
  "giving_up n err = ''giving up after '' @ show_int n @ '' failed attempts: '' @ err"

definition taskFailureErrorPrefix :: string where "taskFailureErrorPrefix = ''AI task failed''"

definition failed_after :: "int \<Rightarrow> string \<Rightarrow> string" where
  "failed_after n err = taskFailureErrorPrefix @ '' after '' @ show_int n @ '' attempts: '' @ err"

text \<open>A failed attempt: counted, and the task is given up at the limit.\<close>

definition count_failure :: "string \<Rightarrow> AiTask \<Rightarrow> ai_state \<Rightarrow> AiTask \<times> ai_state" where
  "count_failure err task S =
     (let n = t_Retries task + 1
      in if n \<ge> maxAiTaskRetries
         then (task\<lparr>t_Retries := n, t_State := IGNORED, t_Error := giving_up n err\<rparr>, S\<lparr>ai_error := failed_after n err\<rparr>)
         else (task\<lparr>t_Retries := n, t_State := FAILED, t_Error := err\<rparr>, S))"

definition start_run :: "AiTask \<Rightarrow> string \<Rightarrow> ResolvedModelConfig \<Rightarrow> ai_state \<Rightarrow> ai_state" where
  "start_run task key rc S =
     S\<lparr>ai_runs := ai_runs S @ [\<lparr>rn_id = ai_next S, rn_task = task, rn_key = key, rn_config = rc, rn_cancelled = False, rn_pc = Queued\<rparr>],
       ai_next := Suc (ai_next S)\<rparr>"

definition queue_entry :: "queue_env \<Rightarrow> int \<Rightarrow> string \<times> AiTask \<Rightarrow> ai_state \<Rightarrow> ai_state" where
  "queue_entry E now e S =
     (let (key, task) = e
      in case buildAgentTaskContext E task of
           Inl err \<Rightarrow> fst (createOrUpdateAiTask now (task\<lparr>t_State := IGNORED, t_Error := err\<rparr>) key S)
         | Inr (agent, ctx) \<Rightarrow>
             (case resolveModelConfig (qe_models E) (Some (as_Model (an_Spec agent))) of
                Inl err \<Rightarrow> (let (t, S1) = count_failure (qe_message E err) task S in fst (createOrUpdateAiTask now t key S1))
              | Inr rc \<Rightarrow>
                  (case isModelBudgetExceeded (server S) (qe_midnight E) now (Some rc) (ai_usage S) of
                     (u, True) \<Rightarrow>
                       (let S1 = S\<lparr>ai_usage := u\<rparr>
                        in fst (createOrUpdateAiTask now (task\<lparr>t_State := FAILED, t_Error := modelBudgetError (qe_midnight E) now rc S1\<rparr>) key S1))
                   | (u, False) \<Rightarrow>
                       (let S1 = S\<lparr>ai_usage := u\<rparr>
                        in case getTaskByKey key S1 of
                             Inr (Some current) \<Rightarrow>
                               if t_State current \<notin> {PENDING, FAILED} then S1
                               else (let t = task\<lparr>t_State := IN_PROGRESS, t_Error := []\<rparr>
                                     in case createOrUpdateAiTask now t key S1 of
                                          (S2, True) \<Rightarrow> start_run (t\<lparr>t_UpdatedAt := now\<rparr>) key rc S2
                                        | (S2, False) \<Rightarrow> S2)
                           | _ \<Rightarrow> S1))))"

section \<open>A run\<close>

definition set_run :: "nat \<Rightarrow> (run \<Rightarrow> run) \<Rightarrow> ai_state \<Rightarrow> ai_state" where
  "set_run i f S = S\<lparr>ai_runs := map (\<lambda>r. if rn_id r = i then f r else r) (ai_runs S)\<rparr>"

definition registerRunCancel :: "string \<Rightarrow> nat \<Rightarrow> ai_state \<Rightarrow> ai_state" where
  "registerRunCancel taskID i S = S\<lparr>ai_runCancels := AList.update taskID i (ai_runCancels S)\<rparr>"

definition unregisterRunCancel :: "string \<Rightarrow> ai_state \<Rightarrow> ai_state" where
  "unregisterRunCancel taskID S = S\<lparr>ai_runCancels := AList.delete taskID (ai_runCancels S)\<rparr>"

text \<open>Once a run has a slot it registers its cancel function.\<close>

definition begin_run :: "run \<Rightarrow> ai_state \<Rightarrow> ai_state" where
  "begin_run r S = registerRunCancel (t_ID (rn_task r)) (rn_id r) (set_run (rn_id r) (\<lambda>r. r\<lparr>rn_pc := Running\<rparr>) S)"

text \<open>\<open>onProgress\<close>, after every model turn and before every tool call; \<open>push\<close> says whether the
  throttle lets this one be saved.\<close>

definition onProgress :: "int \<Rightarrow> int \<Rightarrow> string \<Rightarrow> bool \<Rightarrow> run \<Rightarrow> ai_state \<Rightarrow> ai_state" where
  "onProgress now tokens activity push r S =
     (if taskCancelReason (t_ID (rn_task r)) S \<noteq> [] then set_run (rn_id r) (\<lambda>r. r\<lparr>rn_cancelled := True\<rparr>) S
      else
        (let t = (rn_task r)\<lparr>t_TokensUsed := tokens,
                   t_CurrentActivity := if activity \<noteq> [] then activity else t_CurrentActivity (rn_task r)\<rparr>;
             S1 = set_run (rn_id r) (\<lambda>r. r\<lparr>rn_task := t\<rparr>) S
         in if push then fst (createOrUpdateAiTask now t (rn_key r) S1) else S1))"

text \<open>\<open>CreateApprovalRequest\<close> up to the wait: the stored task becomes a proposal and a channel is
  registered for it. If the task cannot be loaded or saved the call fails and the run goes on.\<close>

definition request_approval :: "int \<Rightarrow> ToolRequest \<Rightarrow> run \<Rightarrow> ai_state \<Rightarrow> ai_state" where
  "request_approval now req r S =
     (let i = t_ID (rn_task r)
      in case getTaskByKey i S of
           Inr (Some task) \<Rightarrow>
             (case createOrUpdateAiTask now (task\<lparr>t_State := PROPOSED, t_Response := Some [req]\<rparr>) i S of
                (S1, False) \<Rightarrow> S1
              | (S1, True) \<Rightarrow>
                  set_run (rn_id r) (\<lambda>r. r\<lparr>rn_pc := Awaiting (ai_next S1)\<rparr>)
                    (S1\<lparr>ai_pendingApprovals := AList.update i (ai_next S1) (ai_pendingApprovals S1), ai_next := Suc (ai_next S1)\<rparr>))
         | _ \<Rightarrow> S)"

definition resetToInProgress :: "int \<Rightarrow> string \<Rightarrow> ai_state \<Rightarrow> ai_state" where
  "resetToInProgress now i S =
     (case getTaskByKey i S of
        Inr (Some current) \<Rightarrow> fst (createOrUpdateAiTask now (current\<lparr>t_State := IN_PROGRESS, t_Response := None\<rparr>) i S)
      | _ \<Rightarrow> S)"

text \<open>The wait ends: the channel is unregistered and the run is back in its loop, with the approval
  it got, if any.\<close>

definition end_wait :: "run \<Rightarrow> ai_state \<Rightarrow> ai_state" where
  "end_wait r S =
     set_run (rn_id r) (\<lambda>r. r\<lparr>rn_pc := Running\<rparr>)
       (S\<lparr>ai_pendingApprovals := AList.delete (t_ID (rn_task r)) (ai_pendingApprovals S)\<rparr>)"

definition grant :: "int \<Rightarrow> User \<Rightarrow> run \<Rightarrow> ai_state \<Rightarrow> ai_state" where
  "grant now approver r S =
     (let S1 = resetToInProgress now (t_ID (rn_task r)) S
      in end_wait r (S1\<lparr>ai_grants := (t_ID (rn_task r), approver) # ai_grants S1\<rparr>))"

text \<open>A result on the channel.\<close>

definition approval_signal :: "int \<Rightarrow> nat \<Rightarrow> User \<times> string option \<Rightarrow> run \<Rightarrow> ai_state \<Rightarrow> ai_state" where
  "approval_signal now c res r S =
     (let S1 = S\<lparr>ai_buffers := AList.delete (t_ID (rn_task r), c) (ai_buffers S)\<rparr>
      in case res of (approver, None) \<Rightarrow> grant now approver r S1 | (approver, Some err) \<Rightarrow> end_wait r S1)"

definition no_user :: User where
  "no_user = \<lparr>u_FirstName = [], u_LastName = [], u_Email = [], u_Source = []\<rparr>"

text \<open>One tick of the fallback, which reads the stored task.\<close>

definition approval_poll :: "int \<Rightarrow> run \<Rightarrow> ai_state \<Rightarrow> ai_state" where
  "approval_poll now r S =
     (case getTaskByKey (t_ID (rn_task r)) S of
        Inr (Some current) \<Rightarrow>
          if t_State current = PROPOSED then S
          else if t_State current \<in> {EXECUTED, SOLVED} then
            grant now (case t_Approval current of None \<Rightarrow> no_user | Some a \<Rightarrow> ap_User a) r S
          else end_wait r S
      | _ \<Rightarrow> end_wait r S)"

text \<open>How the tool loop of a run ended.\<close>

datatype run_err = ErrCanceled string | ErrBudget string | ErrApi int string | ErrOther string

fun err_text :: "run_err \<Rightarrow> string" where
  "err_text (ErrCanceled m) = m" | "err_text (ErrBudget m) = m" | "err_text (ErrApi c m) = m" | "err_text (ErrOther m) = m"

record run_result =
  res_tokensUsed :: int
  res_timeUsedInMs :: int
  res_modelUsed :: string
  res_err :: "run_err option"

definition is_canceled :: "run_err \<Rightarrow> bool" where
  "is_canceled err = (case err of ErrCanceled _ \<Rightarrow> True | _ \<Rightarrow> False)"

text \<open>The state a failed attempt leaves the task in, and the status error it sets.\<close>

definition failed_run :: "string \<Rightarrow> run_err \<Rightarrow> AiTask \<Rightarrow> ai_state \<Rightarrow> AiTask \<times> ai_state" where
  "failed_run cancelReason err task S =
     (if is_canceled err \<and> cancelReason \<noteq> [] then (task\<lparr>t_State := CANCELED, t_Error := cancelReason\<rparr>, S)
      else
        (let t = task\<lparr>t_Error := err_text err, t_Retries := t_Retries task + 1\<rparr>
         in case err of
              ErrBudget _ \<Rightarrow> (t\<lparr>t_State := CANCELED\<rparr>, S)
            | ErrApi code _ \<Rightarrow>
                if code \<in> {400, 401, 403} then
                  (t\<lparr>t_State := IGNORED\<rparr>,
                   S\<lparr>ai_error := taskFailureErrorPrefix @ '' (HTTP '' @ show_int code @ '', not retried): '' @ err_text err\<rparr>)
                else count_failure (err_text err) task S
            | _ \<Rightarrow> count_failure (err_text err) task S))"

definition clearTaskFailureError :: "ai_state \<Rightarrow> ai_state" where
  "clearTaskFailureError S = (if prefix taskFailureErrorPrefix (ai_error S) then S\<lparr>ai_error := []\<rparr> else S)"

definition book_tokens :: "int \<Rightarrow> string \<Rightarrow> run_result \<Rightarrow> run \<Rightarrow> ai_state \<Rightarrow> ai_state" where
  "book_tokens now usageKey res r S =
     S\<lparr>ai_usage := fst (addTokenUsage (server S) now usageKey (res_tokensUsed res) (res_modelUsed res) (res_timeUsedInMs res)
                        (rn_key r) (rc_ModelCrName (rn_config r)) (ai_usage S))\<rparr>"

definition drop_run :: "run \<Rightarrow> ai_state \<Rightarrow> ai_state" where
  "drop_run r S = S\<lparr>ai_runs := filter (\<lambda>r'. rn_id r' \<noteq> rn_id r) (ai_runs S)\<rparr>"

text \<open>The rest of \<open>runOneTask\<close> after the tool loop has returned.\<close>

definition finish_run :: "int \<Rightarrow> string \<Rightarrow> run_result \<Rightarrow> run \<Rightarrow> ai_state \<Rightarrow> ai_state" where
  "finish_run now usageKey res r S0 =
     (let i = t_ID (rn_task r);
          S1 = unregisterRunCancel i S0;
          reason = taskCancelReason i S1;
          S2 = (if reason \<noteq> [] then clearTaskCancelRequest i S1 else S1);
          t = (rn_task r)\<lparr>t_CurrentActivity := [], t_Model := res_modelUsed res, t_TimeUsedInMs := res_timeUsedInMs res,
                          t_TokensUsed := res_tokensUsed res\<rparr>
      in drop_run r
          (case res_err res of
             None \<Rightarrow>
               (case createOrUpdateAiTask now (t\<lparr>t_State := COMPLETED, t_Response := None, t_Error := []\<rparr>) (rn_key r)
                       (book_tokens now usageKey res r (clearTaskFailureError S2)) of
                  (S3, True) \<Rightarrow> pruneAgentRunsToLimit (t_AgentRef t) S3
                | (S3, False) \<Rightarrow> S3)
           | Some err \<Rightarrow>
               (let (t', S3) = failed_run reason err t S2
                in case createOrUpdateAiTask now t' (rn_key r) (book_tokens now usageKey res r S3) of
                     (S4, True) \<Rightarrow> if t_State t' \<noteq> FAILED then pruneAgentRunsToLimit (t_AgentRef t') S4 else S4
                   | (S4, False) \<Rightarrow> S4)))"

section \<open>Interleavings\<close>

text \<open>A new process over the same store: everything in memory is gone.\<close>

definition restart :: "int \<Rightarrow> ai_state \<Rightarrow> ai_state" where
  "restart now S =
     resetInProgressTasksOnStartup now
       (S\<lparr>ai_runs := [], ai_pass := [], ai_runCancels := [], ai_pendingApprovals := [], ai_buffers := [], ai_kick := False,
          ai_error := [], ai_lastAgentRun := [], ai_usage := (ai_usage S)\<lparr>tu_cache := None\<rparr>\<rparr>)"

definition slots :: "ai_state \<Rightarrow> nat" where
  "slots S = length (filter (\<lambda>r. rn_pc r \<noteq> Queued) (ai_runs S))"

text \<open>One step: a call of a client, a turn of the queue loop, progress of a run, or something that
  happens to the store. A second result for a channel that still holds one would block its sender.\<close>

inductive ai_step :: "queue_env \<Rightarrow> ai_state \<Rightarrow> ai_state \<Rightarrow> bool" for E where
  enqueue: "createAgentRunTask (qe_scope E) now agent trigger user prompt S = (S', res) \<Longrightarrow> ai_step E S S'"
| set_state: "UpdateTaskState now i newState S = (S', res) \<Longrightarrow> ai_step E S S'"
| set_read: "UpdateTaskReadState now i user S = (S', res) \<Longrightarrow> ai_step E S S'"
| cancel: "CancelTask now i user S = (S', res) \<Longrightarrow> ai_step E S S'"
| delete: "DeleteTask i S = (S', res) \<Longrightarrow> ai_step E S S'"
| approve: "ApproveTask now i user S = (S', res) \<Longrightarrow> ai_step E S S'"
| reject: "RejectTask now i user reason S = (S', res) \<Longrightarrow> ai_step E S S'"
| server: "ai_step E S (S\<lparr>ai_readOk := readable, ai_writeOk := writable\<rparr>)"
| expire: "ai_step E S (S\<lparr>ai_tasks := AList.delete key (ai_tasks S)\<rparr>)"
| expire_cancel: "ai_step E S (S\<lparr>ai_cancels := AList.delete i (ai_cancels S)\<rparr>)"
| cleanup: "ai_step E S (cleanupOrphanedTasks inStore S)"
| pass_begin: "ai_pass S = [] \<Longrightarrow> ai_step E S (S\<lparr>ai_pass := queue_candidates S, ai_kick := False, ai_error := []\<rparr>)"
| pass_entry: "ai_pass S = e # es \<Longrightarrow> ai_step E S (queue_entry E now e (S\<lparr>ai_pass := es\<rparr>))"
| slot: "r \<in> set (ai_runs S) \<Longrightarrow> rn_pc r = Queued \<Longrightarrow> slots S < maxConcurrentRuns \<Longrightarrow> ai_step E S (begin_run r S)"
| progress: "r \<in> set (ai_runs S) \<Longrightarrow> rn_pc r = Running \<Longrightarrow> ai_step E S (onProgress now tokens activity push r S)"
| request: "r \<in> set (ai_runs S) \<Longrightarrow> rn_pc r = Running \<Longrightarrow> ai_step E S (request_approval now req r S)"
| signal: "r \<in> set (ai_runs S) \<Longrightarrow> rn_pc r = Awaiting c \<Longrightarrow> map_of (ai_buffers S) (t_ID (rn_task r), c) = Some res \<Longrightarrow>
    ai_step E S (approval_signal now c res r S)"
| poll: "r \<in> set (ai_runs S) \<Longrightarrow> rn_pc r = Awaiting c \<Longrightarrow> ai_step E S (approval_poll now r S)"
| give_up: "r \<in> set (ai_runs S) \<Longrightarrow> rn_pc r = Awaiting c \<Longrightarrow> ai_step E S (end_wait r S)"
| finish: "r \<in> set (ai_runs S) \<Longrightarrow> rn_pc r = Running \<Longrightarrow> ai_step E S (finish_run now usageKey res r S)"
| restart: "ai_step E S (restart now S)"

inductive ai_reach :: "queue_env \<Rightarrow> ai_state \<Rightarrow> bool" for E where
  init: "ai_reach E NewAiManager"
| step: "ai_reach E S \<Longrightarrow> ai_step E S S' \<Longrightarrow> ai_reach E S'"

section \<open>Approvals are attributed\<close>

text \<open>A stored task that reads as decided was decided: approved by the user its record names, or
  marked solved by a client.\<close>

definition settled :: "AiTask \<Rightarrow> bool" where
  "settled t \<longleftrightarrow> t_State t = EXECUTED \<or> t_State t = SOLVED"

definition decided :: "ai_state \<Rightarrow> string \<Rightarrow> AiTask \<Rightarrow> bool" where
  "decided S k t \<longleftrightarrow>
     (t_State t = EXECUTED \<longrightarrow> (\<exists>a. t_Approval t = Some a \<and> (k, ap_User a) \<in> set (ai_approved S))) \<and>
     (t_State t = SOLVED \<longrightarrow> k \<in> set (ai_solved S))"

definition approval_inv :: "ai_state \<Rightarrow> bool" where
  "approval_inv S \<longleftrightarrow>
     (\<forall>k t. map_of (ai_tasks S) k = Some t \<longrightarrow> decided S k t) \<and>
     (\<forall>e \<in> set (ai_pass S). \<not> settled (snd e)) \<and>
     (\<forall>r \<in> set (ai_runs S). \<not> settled (rn_task r)) \<and>
     (\<forall>k c u. map_of (ai_buffers S) (k, c) = Some (u, None) \<longrightarrow> (k, u) \<in> set (ai_approved S)) \<and>
     (\<forall>(k, u) \<in> set (ai_approved S). u_Email u \<noteq> []) \<and>
     (\<forall>(k, u) \<in> set (ai_grants S). (k, u) \<in> set (ai_approved S) \<or> k \<in> set (ai_solved S))"

lemma decided_unsettled: "\<not> settled t \<Longrightarrow> decided S k t"
  by (simp add: decided_def settled_def)

lemma approval_inv_fields [simp]:
  "approval_inv (S\<lparr>ai_usage := a\<rparr>) = approval_inv S" "approval_inv (S\<lparr>ai_kick := b\<rparr>) = approval_inv S"
  "approval_inv (S\<lparr>ai_error := c\<rparr>) = approval_inv S" "approval_inv (S\<lparr>ai_cancels := d\<rparr>) = approval_inv S"
  "approval_inv (S\<lparr>ai_lastAgentRun := l\<rparr>) = approval_inv S" "approval_inv (S\<lparr>ai_next := n\<rparr>) = approval_inv S"
  "approval_inv (S\<lparr>ai_runCancels := m\<rparr>) = approval_inv S" "approval_inv (S\<lparr>ai_pendingApprovals := p\<rparr>) = approval_inv S"
  "approval_inv (S\<lparr>ai_readOk := ro\<rparr>) = approval_inv S" "approval_inv (S\<lparr>ai_writeOk := wo\<rparr>) = approval_inv S"
  "approval_inv (S\<lparr>ai_latest := x\<rparr>) = approval_inv S" "approval_inv (S\<lparr>ai_latestNs := y\<rparr>) = approval_inv S"
  by (simp_all add: approval_inv_def decided_def)

lemma approval_inv_stored:
  "approval_inv S \<Longrightarrow> getTaskByKey k S = Inr (Some t) \<Longrightarrow> decided S k t"
  by (auto simp: approval_inv_def getTaskByKey_def split: if_splits)

lemma approval_inv_save:
  assumes "approval_inv S" "decided S k t"
  shows "approval_inv (fst (createOrUpdateAiTask now t k S))"
  using assms by (auto simp: createOrUpdateAiTask_def Let_def approval_inv_def decided_def)

lemma approval_inv_saved:
  assumes "createOrUpdateAiTask now t k S = (S', b)" "approval_inv S" "decided S k t"
  shows "approval_inv S'"
  using approval_inv_save [OF assms(2,3), of now] assms(1) by simp

lemma approval_inv_save_task:
  assumes "save_task now t k S = (S', res)" "approval_inv S" "decided S k t"
  shows "approval_inv S'"
  using assms by (auto simp: save_task_def split: prod.splits bool.splits intro: approval_inv_saved)

lemma approval_inv_delete [simp]: "approval_inv S \<Longrightarrow> approval_inv (S\<lparr>ai_tasks := AList.delete k (ai_tasks S)\<rparr>)"
  by (auto simp: approval_inv_def decided_def)

lemma approval_inv_DeleteKey: "approval_inv S \<Longrightarrow> approval_inv (fst (DeleteKey k S))"
  by (simp add: DeleteKey_def)

lemma approval_inv_set_run:
  assumes "approval_inv S" "\<And>r. \<not> settled (rn_task r) \<Longrightarrow> \<not> settled (rn_task (f r))"
  shows "approval_inv (set_run i f S)"
  using assms by (auto simp: approval_inv_def set_run_def decided_def)

lemma approval_inv_foldl:
  "(\<And>S x. approval_inv S \<Longrightarrow> approval_inv (f S x)) \<Longrightarrow> approval_inv S \<Longrightarrow> approval_inv (foldl f S xs)"
  by (induction xs arbitrary: S) auto

lemma approval_inv_prune: "approval_inv S \<Longrightarrow> approval_inv (pruneAgentRunsToLimit a S)"
  unfolding pruneAgentRunsToLimit_def prune_group_def
  by (auto intro!: approval_inv_foldl approval_inv_DeleteKey)

lemma with_task_cases:
  assumes "with_task i S f = (S', res)"
  obtains "S' = S" | task where "getTaskByKey i S = Inr (Some task)" "f task = (S', res)"
  using assms by (auto simp: with_task_def split: sum.splits option.splits)

lemma approval_inv_mono:
  assumes "approval_inv S"
  shows "approval_inv (S\<lparr>ai_solved := i # ai_solved S\<rparr>)"
    and "u_Email u \<noteq> [] \<Longrightarrow> approval_inv (S\<lparr>ai_approved := (i, u) # ai_approved S\<rparr>)"
  using assms by (auto simp: approval_inv_def decided_def; blast)+

lemma save_task_unwritable: "\<not> ai_writeOk S \<Longrightarrow> save_task now t k S = (S, Inl WriteFailed)"
  by (simp add: save_task_def createOrUpdateAiTask_def)

lemma approval_inv_enqueue:
  assumes "createAgentRunTask E now agent trigger user prompt S = (S', res)" "approval_inv S"
  shows "approval_inv S'"
  using assms
  by (auto simp: createAgentRunTask_def enqueueAgentRun_def Let_def decided_def elim!: approval_inv_save_task
      split: list.splits sum.splits bool.splits prod.splits)

lemma approval_inv_UpdateTaskState:
  assumes "UpdateTaskState now i newState S = (S', res)" "approval_inv S"
  shows "approval_inv S'"
proof (cases "newState \<in> set genericStateTransitions")
  case True
  with assms(1) have "with_task i S (\<lambda>task. if t_State task = EXECUTING then (S, Inl WrongState)
        else save_task now (task\<lparr>t_State := newState\<rparr>) i
               (if newState = SOLVED \<and> ai_writeOk S then S\<lparr>ai_solved := i # ai_solved S\<rparr> else S)) = (S', res)"
    by (simp add: UpdateTaskState_def)
  then show ?thesis
  proof (cases rule: with_task_cases)
    case (2 task)
    with True assms(2) approval_inv_mono(1) [OF assms(2), of i] show ?thesis
      by (cases "ai_writeOk S")
         (auto simp: genericStateTransitions_def decided_def save_task_unwritable elim!: approval_inv_save_task split: if_splits)
  qed (use assms in simp)
qed (use assms in \<open>simp add: UpdateTaskState_def\<close>)

lemma approval_inv_UpdateTaskReadState:
  assumes "UpdateTaskReadState now i user S = (S', res)" "approval_inv S"
  shows "approval_inv S'"
proof (cases "u_Email user = []")
  case False
  with assms(1) have "with_task i S (\<lambda>task. if userSeesTaskForTheFirstTime user (t_ReadByUsers task)
        then save_task now (task\<lparr>t_ReadByUsers := t_ReadByUsers task @ [(user, now)]\<rparr>) i S else (S, Inr task)) = (S', res)"
    by (simp add: UpdateTaskReadState_def)
  then show ?thesis
  proof (cases rule: with_task_cases)
    case (2 task)
    with approval_inv_stored [OF assms(2) 2(1)] assms(2) show ?thesis
      by (auto simp: decided_def elim!: approval_inv_save_task split: if_splits)
  qed (use assms in simp)
qed (use assms in \<open>simp add: UpdateTaskReadState_def\<close>)

lemma approval_inv_cancelLocalRun: "approval_inv S \<Longrightarrow> approval_inv (cancelLocalRun i S)"
  unfolding cancelLocalRun_def
  by (auto split: option.splits simp: set_run_def [symmetric] intro!: approval_inv_set_run)

lemma approval_inv_CancelTask:
  assumes "CancelTask now i user S = (S', res)" "approval_inv S"
  shows "approval_inv S'"
  using assms(1) unfolding CancelTask_def
proof (cases rule: with_task_cases)
  case (2 task)
  with assms(2) show ?thesis
    by (auto simp: decided_def split: if_splits sum.splits prod.splits
        intro!: approval_inv_cancelLocalRun elim!: approval_inv_save_task)
qed (use assms in simp)

lemma approval_inv_DeleteTask:
  assumes "DeleteTask i S = (S', res)" "approval_inv S"
  shows "approval_inv S'"
  using assms(1) unfolding DeleteTask_def
proof (cases rule: with_task_cases)
  case (2 task)
  with assms(2) approval_inv_DeleteKey [OF assms(2), of i] show ?thesis
    by (auto split: if_splits prod.splits bool.splits)
qed (use assms in simp)

lemma approval_inv_signal:
  assumes "approval_inv S" "err = None \<Longrightarrow> (i, u) \<in> set (ai_approved S)"
  shows "approval_inv (signalApproval i u err S)"
  using assms by (auto simp: signalApproval_def approval_inv_def decided_def split: option.splits)

text \<open>An approval writes the task and its record together.\<close>

lemma approval_inv_approved:
  assumes "approval_inv S" "u_Email u \<noteq> []" "save_task now (t\<lparr>t_State := EXECUTED, t_Approval := Some a\<rparr>) i S = (S', Inr t')" "ap_User a = u"
  shows "approval_inv (S'\<lparr>ai_approved := (i, u) # ai_approved S'\<rparr>)"
proof -
  let ?S = "S\<lparr>ai_approved := (i, u) # ai_approved S\<rparr>"
  have "save_task now (t\<lparr>t_State := EXECUTED, t_Approval := Some a\<rparr>) i ?S = (S'\<lparr>ai_approved := (i, u) # ai_approved S'\<rparr>, Inr t')"
    using assms(3) by (auto simp: save_task_def createOrUpdateAiTask_def Let_def split: if_splits)
  from approval_inv_save_task [OF this approval_inv_mono(2) [OF assms(1,2)]] show ?thesis
    using assms(4) by (simp add: decided_def)
qed

lemma approval_inv_ApproveTask:
  assumes "ApproveTask now i user S = (S', res)" "approval_inv S"
  shows "approval_inv S'"
  using assms(1) unfolding ApproveTask_def
proof (cases rule: with_task_cases)
  case (2 task)
  show ?thesis
  proof (cases "t_State task = PROPOSED \<and> u_Email user \<noteq> []")
    case True
    obtain S1 out where saved: "save_task now (task\<lparr>t_State := EXECUTED,
        t_Approval := Some \<lparr>ap_User = user, ap_At = now, ap_Rejected = False, ap_Reason = []\<rparr>\<rparr>) i S = (S1, out)"
      by fastforce
    show ?thesis
    proof (cases out)
      case (Inl err)
      with 2 True saved assms(2) show ?thesis
        by (auto simp: save_task_def createOrUpdateAiTask_def Let_def split: if_splits)
    next
      case (Inr t)
      with 2 True saved approval_inv_approved [OF assms(2), of user] show ?thesis
        by (auto intro!: approval_inv_signal)
    qed
  qed (use 2 assms(2) in \<open>auto split: if_splits\<close>)
qed (use assms in simp)

lemma approval_inv_RejectTask:
  assumes "RejectTask now i user reason S = (S', res)" "approval_inv S"
  shows "approval_inv S'"
  using assms(1) unfolding RejectTask_def
proof (cases rule: with_task_cases)
  case (2 task)
  with assms(2) show ?thesis
    by (auto simp: decided_def split: if_splits sum.splits prod.splits intro!: approval_inv_signal elim!: approval_inv_save_task)
qed (use assms in simp)

lemma approval_inv_reset_task: "approval_inv S \<Longrightarrow> approval_inv (reset_task now S k)"
  unfolding reset_task_def clearTaskCancelRequest_def
  by (auto split: sum.splits option.splits intro!: approval_inv_save simp: decided_def)

lemma approval_inv_restart: "approval_inv S \<Longrightarrow> approval_inv (restart now S)"
  unfolding restart_def resetInProgressTasksOnStartup_def
  by (auto intro!: approval_inv_foldl approval_inv_reset_task) (auto simp: approval_inv_def decided_def)

lemma approval_inv_cleanup: "approval_inv S \<Longrightarrow> approval_inv (cleanupOrphanedTasks inStore S)"
  unfolding cleanupOrphanedTasks_def cleanup_key_def
  by (auto intro!: approval_inv_foldl approval_inv_DeleteKey split: sum.splits option.splits)

lemma approval_inv_pass:
  "approval_inv S \<Longrightarrow> approval_inv (S\<lparr>ai_pass := queue_candidates S\<rparr>)"
  "approval_inv S \<Longrightarrow> ai_pass S = e # es \<Longrightarrow> approval_inv (S\<lparr>ai_pass := es\<rparr>)"
  by (auto simp: approval_inv_def decided_def queue_candidates_def settled_def)

lemma approval_inv_count_failure:
  "approval_inv S \<Longrightarrow> count_failure err t S = (t', S') \<Longrightarrow> approval_inv S' \<and> \<not> settled t'"
  by (auto simp: count_failure_def Let_def settled_def split: if_splits)

lemma approval_inv_start_run: "approval_inv S \<Longrightarrow> \<not> settled t \<Longrightarrow> approval_inv (start_run t k rc S)"
  by (auto simp: start_run_def approval_inv_def decided_def)

lemma approval_inv_queue_entry: "approval_inv S \<Longrightarrow> approval_inv (queue_entry E now e S)"
  unfolding queue_entry_def
  by (auto simp: Let_def decided_def settled_def split: prod.split sum.split option.split bool.split
      intro!: approval_inv_save approval_inv_start_run
      dest: approval_inv_count_failure approval_inv_saved)

lemma approval_inv_run: "approval_inv S \<Longrightarrow> r \<in> set (ai_runs S) \<Longrightarrow> \<not> settled (rn_task r)"
  by (auto simp: approval_inv_def)

lemma approval_inv_begin_run: "approval_inv S \<Longrightarrow> approval_inv (begin_run r S)"
  by (auto simp: begin_run_def registerRunCancel_def intro!: approval_inv_set_run)

lemma settled_same [simp]:
  "settled (t\<lparr>t_TokensUsed := a\<rparr>) = settled t"
  "settled (t\<lparr>t_TokensUsed := a, t_CurrentActivity := b\<rparr>) = settled t"
  "settled (t\<lparr>t_CurrentActivity := b, t_Model := c, t_TimeUsedInMs := d, t_TokensUsed := a\<rparr>) = settled t"
  by (simp_all add: settled_def)

lemma approval_inv_onProgress:
  assumes "approval_inv S" "r \<in> set (ai_runs S)"
  shows "approval_inv (onProgress now tokens activity push r S)"
  using approval_inv_run [OF assms] assms(1)
  by (auto simp: onProgress_def Let_def intro!: approval_inv_save approval_inv_set_run decided_unsettled)

lemma approval_inv_request: "approval_inv S \<Longrightarrow> approval_inv (request_approval now req r S)"
  unfolding request_approval_def
  by (auto simp: Let_def decided_def split: sum.split option.split prod.split bool.split
      intro!: approval_inv_set_run dest: approval_inv_saved)

lemma resetToInProgress_log [simp]:
  "ai_grants (resetToInProgress now i S) = ai_grants S" "ai_approved (resetToInProgress now i S) = ai_approved S"
  "ai_solved (resetToInProgress now i S) = ai_solved S"
  by (auto simp: resetToInProgress_def createOrUpdateAiTask_def Let_def split: sum.split option.split)

lemma approval_inv_resetToInProgress: "approval_inv S \<Longrightarrow> approval_inv (resetToInProgress now i S)"
  unfolding resetToInProgress_def by (auto simp: decided_def split: sum.split option.split intro!: approval_inv_save)

lemma approval_inv_end_wait: "approval_inv S \<Longrightarrow> approval_inv (end_wait r S)"
  by (auto simp: end_wait_def intro!: approval_inv_set_run)

lemma approval_inv_grant:
  assumes "approval_inv S" "(t_ID (rn_task r), u) \<in> set (ai_approved S) \<or> t_ID (rn_task r) \<in> set (ai_solved S)"
  shows "approval_inv (grant now u r S)"
proof -
  let ?S = "resetToInProgress now (t_ID (rn_task r)) S"
  have "approval_inv ?S" by (rule approval_inv_resetToInProgress [OF assms(1)])
  with assms(2) have "approval_inv (?S\<lparr>ai_grants := (t_ID (rn_task r), u) # ai_grants ?S\<rparr>)"
    by (auto simp: approval_inv_def decided_def)
  then show ?thesis by (simp add: grant_def Let_def approval_inv_end_wait)
qed

lemma approval_inv_signal_step:
  assumes "approval_inv S" "map_of (ai_buffers S) (t_ID (rn_task r), c) = Some res"
  shows "approval_inv (approval_signal now c res r S)"
proof -
  have "approval_inv (S\<lparr>ai_buffers := AList.delete (t_ID (rn_task r), c) (ai_buffers S)\<rparr>)"
    using assms(1) by (auto simp: approval_inv_def decided_def)
  moreover have "res = (u, None) \<Longrightarrow> (t_ID (rn_task r), u) \<in> set (ai_approved S)" for u
    using assms by (auto simp: approval_inv_def)
  ultimately show ?thesis
    by (auto simp: approval_signal_def Let_def split: prod.split option.split intro!: approval_inv_grant approval_inv_end_wait)
qed

lemma approval_inv_poll: "approval_inv S \<Longrightarrow> approval_inv (approval_poll now r S)"
  using approval_inv_stored [of S "t_ID (rn_task r)"]
  by (auto simp: approval_poll_def decided_def split: sum.split option.split intro!: approval_inv_grant approval_inv_end_wait)

lemma approval_inv_failed_run:
  "approval_inv S \<Longrightarrow> failed_run reason err t S = (t', S') \<Longrightarrow> approval_inv S' \<and> \<not> settled t'"
  by (auto simp: failed_run_def Let_def settled_def split: if_splits run_err.splits dest: approval_inv_count_failure)

lemma approval_inv_finish_run: "approval_inv S \<Longrightarrow> approval_inv (finish_run now usageKey res r S)"
proof -
  assume inv: "approval_inv S"
  have drop: "approval_inv S \<Longrightarrow> approval_inv (drop_run r S)" for S
    by (auto simp: drop_run_def approval_inv_def decided_def)
  have book: "approval_inv (book_tokens now usageKey res r S) = approval_inv S" for S by (simp add: book_tokens_def)
  have clear: "approval_inv (clearTaskFailureError S) = approval_inv S" for S by (simp add: clearTaskFailureError_def)
  let ?i = "t_ID (rn_task r)"
  define S2 where "S2 = (let S1 = unregisterRunCancel ?i S in if taskCancelReason ?i S1 \<noteq> [] then clearTaskCancelRequest ?i S1 else S1)"
  have "approval_inv S2" using inv by (simp add: S2_def unregisterRunCancel_def clearTaskCancelRequest_def Let_def)
  then show ?thesis
    unfolding finish_run_def Let_def S2_def [unfolded Let_def, symmetric]
    by (auto simp: settled_def decided_def split: option.split prod.split bool.split
        intro!: drop approval_inv_prune
        dest!: approval_inv_failed_run [rotated] approval_inv_saved [where S = "book_tokens now usageKey res r _"] simp: book clear)
qed

lemmas approval_inv_ops =
  approval_inv_enqueue approval_inv_UpdateTaskState approval_inv_UpdateTaskReadState approval_inv_CancelTask approval_inv_DeleteTask
  approval_inv_ApproveTask approval_inv_RejectTask approval_inv_cleanup approval_inv_pass approval_inv_queue_entry
  approval_inv_begin_run approval_inv_onProgress approval_inv_request approval_inv_signal_step approval_inv_poll
  approval_inv_end_wait approval_inv_finish_run approval_inv_restart

lemma approval_inv_step: "ai_step E S S' \<Longrightarrow> approval_inv S \<Longrightarrow> approval_inv S'"
  by (cases rule: ai_step.cases) (auto intro: approval_inv_ops)

lemma ai_reach_approval: "ai_reach E S \<Longrightarrow> approval_inv S"
  by (induction rule: ai_reach.induct) (auto intro: approval_inv_step, simp add: approval_inv_def NewAiManager_def)

section \<open>Slots\<close>

text \<open>The number of runs past their slot and the numbering of the runs.\<close>

definition slots_inv :: "ai_state \<Rightarrow> bool" where
  "slots_inv S \<longleftrightarrow> slots S \<le> maxConcurrentRuns \<and> distinct (map rn_id (ai_runs S)) \<and>
     (\<forall>i \<in> set (map rn_id (ai_runs S)). i < ai_next S)"

definition same_runs :: "ai_state \<Rightarrow> ai_state \<Rightarrow> bool" where
  "same_runs S S' \<longleftrightarrow> ai_runs S' = ai_runs S \<and> ai_next S' = ai_next S"

lemma slots_inv_same: "slots_inv S \<Longrightarrow> same_runs S S' \<Longrightarrow> slots_inv S'"
  by (simp add: slots_inv_def same_runs_def slots_def)

lemma same_runs_trans: "same_runs S S' \<Longrightarrow> same_runs S' S'' \<Longrightarrow> same_runs S S''"
  by (simp add: same_runs_def)

lemma same_runs_refl [simp]: "same_runs S S"
  by (simp add: same_runs_def)

lemma same_runs_foldl: "(\<And>S x. same_runs S (f S x)) \<Longrightarrow> same_runs S (foldl f S xs)"
  by (induction xs arbitrary: S) (auto intro: same_runs_trans)

lemma same_runs_save: "same_runs S (fst (createOrUpdateAiTask now t k S))"
  by (simp add: createOrUpdateAiTask_def same_runs_def Let_def)

lemma same_runs_saved: "createOrUpdateAiTask now t k S = (S', b) \<Longrightarrow> same_runs S S'"
  by (metis same_runs_save fst_conv)

lemma same_runs_save_task: "save_task now t k S = (S', res) \<Longrightarrow> same_runs S S'"
  by (auto simp: save_task_def split: prod.splits bool.splits dest: same_runs_saved)

lemma same_runs_DeleteKey: "same_runs S (fst (DeleteKey k S))"
  by (simp add: DeleteKey_def same_runs_def)

lemma same_runs_prune: "same_runs S (pruneAgentRunsToLimit a S)"
  unfolding pruneAgentRunsToLimit_def prune_group_def
  by (auto intro!: same_runs_foldl same_runs_DeleteKey)

text \<open>A step of one run that has a slot keeps the count, whatever it does to the run.\<close>

lemma slots_inv_set_run:
  assumes "slots_inv S" "\<And>r. rn_id (f r) = rn_id r"
    and "\<And>r. r \<in> set (ai_runs S) \<Longrightarrow> rn_id r = i \<Longrightarrow> rn_pc (f r) \<noteq> Queued \<longleftrightarrow> rn_pc r \<noteq> Queued"
  shows "slots_inv (set_run i f S)"
proof -
  have "map rn_id (ai_runs (set_run i f S)) = map rn_id (ai_runs S)" by (simp add: set_run_def assms(2))
  moreover have "slots (set_run i f S) = slots S"
    using assms(3) unfolding slots_def set_run_def
    by (auto simp: filter_map o_def intro!: arg_cong [where f = length] filter_cong)
  moreover have "ai_next (set_run i f S) = ai_next S" by (simp add: set_run_def)
  ultimately show ?thesis using assms(1) unfolding slots_inv_def by simp
qed

lemma slots_inv_begin_run:
  assumes "slots_inv S" "r \<in> set (ai_runs S)" "rn_pc r = Queued" "slots S < maxConcurrentRuns"
  shows "slots_inv (begin_run r S)"
proof -
  let ?f = "\<lambda>r. r\<lparr>rn_pc := Running\<rparr>"
  let ?S = "set_run (rn_id r) ?f S"
  obtain us vs where runs: "ai_runs S = us @ r # vs" using assms(2) by (auto simp: in_set_conv_decomp)
  with assms(1) have other: "x \<in> set us \<or> x \<in> set vs \<Longrightarrow> rn_id x \<noteq> rn_id r" for x
    by (auto simp: slots_inv_def) (metis image_eqI)+
  have runs': "ai_runs ?S = us @ ?f r # vs"
    unfolding set_run_def runs by (auto intro!: map_idI simp: other)
  have "slots ?S = Suc (slots S)" using assms(3) by (simp add: slots_def runs runs')
  with assms(1,4) runs runs' have "slots_inv ?S" by (simp add: slots_inv_def set_run_def)
  then show ?thesis by (rule slots_inv_same) (simp add: begin_run_def registerRunCancel_def same_runs_def)
qed

lemma unique_run:
  "slots_inv S \<Longrightarrow> r \<in> set (ai_runs S) \<Longrightarrow> r' \<in> set (ai_runs S) \<Longrightarrow> rn_id r' = rn_id r \<Longrightarrow> r' = r"
  by (auto simp: slots_inv_def distinct_map inj_on_def)

lemma slots_inv_drop_run: "slots_inv S \<Longrightarrow> slots_inv (drop_run r S)"
proof -
  assume inv: "slots_inv S"
  have "slots (drop_run r S) \<le> slots S"
  proof -
    have "length (filter P (filter Q rs)) \<le> length (filter P rs)" for P Q and rs :: "run list" by (induction rs) auto
    then show ?thesis by (simp add: slots_def drop_run_def del: filter_filter)
  qed
  with inv show ?thesis by (auto simp: slots_inv_def drop_run_def distinct_map_filter)
qed

lemma slots_inv_start_run:
  assumes "slots_inv S" shows "slots_inv (start_run t k rc S)"
  using assms by (auto simp: slots_inv_def start_run_def slots_def)

lemma slots_inv_fields [simp]:
  "slots_inv (S\<lparr>ai_usage := a\<rparr>) = slots_inv S" "slots_inv (S\<lparr>ai_kick := b\<rparr>) = slots_inv S"
  "slots_inv (S\<lparr>ai_error := c\<rparr>) = slots_inv S" "slots_inv (S\<lparr>ai_cancels := d\<rparr>) = slots_inv S"
  "slots_inv (S\<lparr>ai_lastAgentRun := l\<rparr>) = slots_inv S" "slots_inv (S\<lparr>ai_runCancels := m\<rparr>) = slots_inv S"
  "slots_inv (S\<lparr>ai_pendingApprovals := p\<rparr>) = slots_inv S" "slots_inv (S\<lparr>ai_buffers := q\<rparr>) = slots_inv S"
  "slots_inv (S\<lparr>ai_readOk := ro\<rparr>) = slots_inv S" "slots_inv (S\<lparr>ai_writeOk := wo\<rparr>) = slots_inv S"
  "slots_inv (S\<lparr>ai_tasks := x\<rparr>) = slots_inv S" "slots_inv (S\<lparr>ai_pass := y\<rparr>) = slots_inv S"
  "slots_inv (S\<lparr>ai_approved := z\<rparr>) = slots_inv S" "slots_inv (S\<lparr>ai_solved := v\<rparr>) = slots_inv S"
  "slots_inv (S\<lparr>ai_grants := g\<rparr>) = slots_inv S"
  by (simp_all add: slots_inv_def slots_def)

lemma slots_inv_save: "slots_inv S \<Longrightarrow> slots_inv (fst (createOrUpdateAiTask now t k S))"
  by (rule slots_inv_same [OF _ same_runs_save])

lemma slots_inv_saved: "createOrUpdateAiTask now t k S = (S', b) \<Longrightarrow> slots_inv S \<Longrightarrow> slots_inv S'"
  by (rule slots_inv_same [OF _ same_runs_saved])

lemma slots_inv_save_task: "save_task now t k S = (S', res) \<Longrightarrow> slots_inv S \<Longrightarrow> slots_inv S'"
  by (rule slots_inv_same [OF _ same_runs_save_task])

lemma slots_inv_count_failure: "slots_inv S \<Longrightarrow> count_failure err t S = (t', S') \<Longrightarrow> slots_inv S'"
  by (auto simp: count_failure_def Let_def split: if_splits)

lemma slots_inv_queue_entry: "slots_inv S \<Longrightarrow> slots_inv (queue_entry E now e S)"
  unfolding queue_entry_def Let_def
  by (auto split: prod.split sum.split option.split bool.split intro!: slots_inv_save slots_inv_start_run
      dest: slots_inv_count_failure slots_inv_saved)

lemma slots_inv_clients:
  "createAgentRunTask A now agent trigger by prompt S = (S', res) \<Longrightarrow> slots_inv S \<Longrightarrow> slots_inv S'"
  "UpdateTaskState now i newState S = (S', res) \<Longrightarrow> slots_inv S \<Longrightarrow> slots_inv S'"
  "UpdateTaskReadState now i user S = (S', res) \<Longrightarrow> slots_inv S \<Longrightarrow> slots_inv S'"
  "DeleteTask i S = (S', res) \<Longrightarrow> slots_inv S \<Longrightarrow> slots_inv S'"
  "ApproveTask now i user S = (S', res) \<Longrightarrow> slots_inv S \<Longrightarrow> slots_inv S'"
  "RejectTask now i user reason S = (S', res) \<Longrightarrow> slots_inv S \<Longrightarrow> slots_inv S'"
  by (auto simp: createAgentRunTask_def enqueueAgentRun_def UpdateTaskState_def UpdateTaskReadState_def DeleteTask_def ApproveTask_def
      RejectTask_def with_task_def Let_def signalApproval_def DeleteKey_def
      split: list.splits sum.splits bool.splits prod.splits option.splits if_splits elim!: slots_inv_save_task)

lemma slots_inv_CancelTask:
  assumes "CancelTask now i user S = (S', res)" "slots_inv S"
  shows "slots_inv S'"
proof -
  have local: "slots_inv S \<Longrightarrow> slots_inv (cancelLocalRun i S)" for S
    unfolding cancelLocalRun_def
    by (auto split: option.splits simp: set_run_def [symmetric] intro!: slots_inv_set_run)
  with assms show ?thesis
    by (auto simp: CancelTask_def with_task_def split: sum.splits option.splits if_splits prod.splits intro!: local
        elim!: slots_inv_save_task)
qed

lemma slots_inv_loops:
  "slots_inv S \<Longrightarrow> slots_inv (cleanupOrphanedTasks inStore S)"
  "slots_inv S \<Longrightarrow> slots_inv (restart now S)"
proof -
  show "slots_inv S \<Longrightarrow> slots_inv (cleanupOrphanedTasks inStore S)"
    unfolding cleanupOrphanedTasks_def cleanup_key_def
    by (auto intro!: slots_inv_same [OF _ same_runs_foldl] same_runs_DeleteKey split: sum.splits option.splits)
  have "same_runs S (reset_task now S k)" for S k
    unfolding reset_task_def clearTaskCancelRequest_def
    by (auto simp: same_runs_def createOrUpdateAiTask_def Let_def split: sum.split option.split)
  then show "slots_inv (restart now S)"
    unfolding restart_def resetInProgressTasksOnStartup_def
    by (auto intro!: slots_inv_same [OF _ same_runs_foldl]) (simp_all add: slots_inv_def slots_def)
qed

lemma slots_inv_onProgress:
  "slots_inv S \<Longrightarrow> slots_inv (onProgress now tokens activity push r S)"
  by (auto simp: onProgress_def Let_def intro!: slots_inv_save slots_inv_set_run)

text \<open>What a run with a slot does to its own entry.\<close>

lemma slots_inv_set_pc:
  assumes "slots_inv S" "r \<in> set (ai_runs S)" "rn_pc r \<noteq> Queued" "pc \<noteq> Queued" "same_runs S S1"
  shows "slots_inv (set_run (rn_id r) (\<lambda>r. r\<lparr>rn_pc := pc\<rparr>) S1)"
proof (rule slots_inv_set_run)
  show "slots_inv S1" by (rule slots_inv_same [OF assms(1,5)])
qed (use assms unique_run [OF assms(1,2)] in \<open>auto simp: same_runs_def\<close>)

lemma slots_inv_request:
  assumes "slots_inv S" "r \<in> set (ai_runs S)" "rn_pc r = Running"
  shows "slots_inv (request_approval now req r S)"
proof -
  have "slots_inv (set_run (rn_id r) (\<lambda>r. r\<lparr>rn_pc := Awaiting c\<rparr>) (S1\<lparr>ai_pendingApprovals := m, ai_next := Suc (ai_next S1)\<rparr>))"
    if "same_runs S S1" for S1 c m
  proof -
    have "slots_inv (set_run (rn_id r) (\<lambda>r. r\<lparr>rn_pc := Awaiting c\<rparr>) S1)"
      using slots_inv_set_pc [OF assms(1,2)] assms(3) that by simp
    then show ?thesis by (auto simp: slots_inv_def slots_def set_run_def)
  qed
  with assms(1) show ?thesis
    by (auto simp: request_approval_def Let_def split: sum.split option.split prod.split bool.split
        dest: same_runs_saved intro: slots_inv_same)
qed

lemma slots_inv_waits:
  assumes "slots_inv S" "r \<in> set (ai_runs S)" "rn_pc r = Awaiting c"
  shows "slots_inv (end_wait r S)" "slots_inv (approval_signal now c res r S)" "slots_inv (approval_poll now r S)"
proof -
  have wait: "slots_inv (end_wait r S1)" if "same_runs S S1" for S1
    using slots_inv_set_pc [OF assms(1,2), of Running "S1\<lparr>ai_pendingApprovals := _\<rparr>"] assms(3) that
    by (simp add: end_wait_def same_runs_def)
  have "same_runs S (resetToInProgress now i S)" for S i
    by (auto simp: resetToInProgress_def split: sum.split option.split intro: same_runs_save)
  then have grant: "slots_inv (grant now u r S1)" if "same_runs S S1" for S1 u
    using that by (auto simp: grant_def Let_def intro!: wait) (simp add: same_runs_def)
  show "slots_inv (end_wait r S)" by (rule wait) simp
  show "slots_inv (approval_signal now c res r S)"
    by (auto simp: approval_signal_def Let_def split: prod.split option.split intro!: wait grant) (simp_all add: same_runs_def)
  show "slots_inv (approval_poll now r S)"
    using assms(1) by (auto simp: approval_poll_def split: sum.split option.split intro!: wait grant)
qed

lemma slots_inv_finish_run:
  assumes "slots_inv S" shows "slots_inv (finish_run now usageKey res r S)"
proof -
  have failed: "slots_inv S \<Longrightarrow> failed_run reason err t S = (t', S') \<Longrightarrow> slots_inv S'" for S S' reason err t t'
    by (auto simp: failed_run_def Let_def split: if_splits run_err.splits dest: slots_inv_count_failure)
  have book: "slots_inv (book_tokens now usageKey res r S) = slots_inv S" for S by (simp add: book_tokens_def)
  have clear: "slots_inv (clearTaskFailureError S) = slots_inv S" for S by (simp add: clearTaskFailureError_def)
  have prune: "slots_inv S \<Longrightarrow> slots_inv (pruneAgentRunsToLimit a S)" for S a by (rule slots_inv_same [OF _ same_runs_prune])
  let ?i = "t_ID (rn_task r)"
  define S2 where "S2 = (let S1 = unregisterRunCancel ?i S in if taskCancelReason ?i S1 \<noteq> [] then clearTaskCancelRequest ?i S1 else S1)"
  have "slots_inv S2" using assms by (simp add: S2_def unregisterRunCancel_def clearTaskCancelRequest_def Let_def)
  then show ?thesis
    unfolding finish_run_def Let_def S2_def [unfolded Let_def, symmetric]
    by (auto split: option.split prod.split bool.split intro!: slots_inv_drop_run prune
        dest!: failed [rotated] slots_inv_saved simp: book clear)
qed

lemma slots_inv_step: "ai_step E S S' \<Longrightarrow> slots_inv S \<Longrightarrow> slots_inv S'"
  by (cases rule: ai_step.cases)
     (auto intro: slots_inv_clients slots_inv_CancelTask slots_inv_loops slots_inv_queue_entry slots_inv_begin_run slots_inv_onProgress
        slots_inv_request slots_inv_waits slots_inv_finish_run)

lemma ai_reach_slots: "ai_reach E S \<Longrightarrow> slots_inv S"
  by (induction rule: ai_reach.induct)
     (auto intro: slots_inv_step, simp add: slots_inv_def slots_def NewAiManager_def maxConcurrentRuns_def)

section \<open>Example runs\<close>

definition demo_agent :: Agent where
  "demo_agent = \<lparr>an_Name = ''a'', an_Spec = \<lparr>as_Enabled = True, as_Scope = \<lparr>sc_WorkspaceRef = [], sc_Namespaces = [''ns'']\<rparr>,
     as_Cron = [], as_OnChange = None, as_Model = \<lparr>ag_ModelRef = [], ag_MaxToolCalls = None, ag_MaxTokensPerRun = None\<rparr>,
     as_McpServerRefs = [], as_Builtin = None\<rparr>\<rparr>"

definition demo_queue :: queue_env where
  "demo_queue =
     \<lparr>qe_getAgent = \<lambda>_. Inr demo_agent,
      qe_scope = \<lparr>se_ownNamespace = Some ''mogenius'', se_namespaces = [], se_GetWorkspace = \<lambda>_ _. None\<rparr>,
      qe_models = \<lparr>me_ownNamespace = Some ''mogenius'', me_storeSecret = \<lambda>_ _. None, me_secretGetter = \<lambda>_ _. None,
        me_GetAiModel = \<lambda>_ _. Inr None, me_GetAllAiModels = \<lambda>_. Some [demo_model ''m'' 1]\<rparr>,
      qe_midnight = \<lambda>_. 0, qe_message = \<lambda>_. []\<rparr>"

definition demo_key :: string where "demo_key = ''ai_tasks:Agent:ns:a-run-100''"

definition demo_pass :: "ai_state \<Rightarrow> ai_state" where
  "demo_pass S = (let S1 = S\<lparr>ai_pass := queue_candidates S, ai_kick := False, ai_error := []\<rparr>
                  in queue_entry demo_queue 100 (hd (ai_pass S1)) (S1\<lparr>ai_pass := tl (ai_pass S1)\<rparr>))"

lemma demo_pass_reach:
  assumes "ai_reach demo_queue S" "ai_pass S = []" "queue_candidates S \<noteq> []"
  shows "ai_reach demo_queue (demo_pass S)"
proof -
  let ?S = "S\<lparr>ai_pass := queue_candidates S, ai_kick := False, ai_error := []\<rparr>"
  have "ai_reach demo_queue ?S" by (rule ai_reach.step [OF assms(1) ai_step.pass_begin [OF assms(2)]])
  from ai_reach.step [OF this ai_step.pass_entry [of ?S "hd (ai_pass ?S)" "tl (ai_pass ?S)"]] assms(3)
  show ?thesis by (simp add: demo_pass_def Let_def)
qed

definition demo_task :: AiTask where
  "demo_task = \<lparr>t_ID = demo_key, t_Prompt = ''look around'', t_Response = None, t_State = PENDING, t_TokensUsed = 0, t_Retries = 0,
     t_CurrentActivity = [], t_Model = [], t_TimeUsedInMs = 0, t_CreatedAt = 100, t_UpdatedAt = 100,
     t_ReferencingResource = no_resource,
     t_ReadByUsers = [], t_Error = [], t_AgentRef = ''a'', t_Trigger = ''manual'', t_TriggeredByUser = None,
     t_ScopeNamespaces = [''ns''], t_ScopeAllNamespaces = False, t_Approval = None\<rparr>"

text \<open>The stored task, the runs and the rest of the manager in the examples below.\<close>

definition demo_state :: "AiTask \<Rightarrow> bool \<Rightarrow> run list \<Rightarrow> nat \<Rightarrow> usage_state \<Rightarrow> ai_state" where
  "demo_state t kick runs n u = NewAiManager\<lparr>ai_usage := u, ai_tasks := [(demo_key, t)], ai_latest := Some t, ai_latestNs := [(''ns'', t)],
     ai_kick := kick, ai_lastAgentRun := [(''a'', 100)], ai_runs := runs, ai_next := n\<rparr>"

lemma demo_scope: "resolveAgentScope (qe_scope demo_queue) demo_agent = [''ns'']"
  by (simp add: resolveAgentScope_def demo_agent_def demo_queue_def verbatim_namespaces_def workspace_namespaces_def)

lemma demo_split: "split_n 4 (CHR '':'') demo_key = [''ai_tasks'', ''Agent'', ''ns'', ''a-run-100'']" "show_int 100 = ''100''"
  by code_simp+

lemma demo_namespaces: "t_ScopeNamespaces t = [''ns''] \<Longrightarrow> latestTaskNamespaces t demo_key = [''ns'']"
  by (simp add: latestTaskNamespaces_def demo_split)

lemma demo_save:
  "t_ScopeNamespaces t = [''ns''] \<Longrightarrow>
   createOrUpdateAiTask 100 t demo_key (demo_state t0 kick runs n u)
     = (demo_state (t\<lparr>t_UpdatedAt := 100\<rparr>) (kick \<or> t_State t = PENDING) runs n u, True)"
  by (simp add: createOrUpdateAiTask_def demo_state_def NewAiManager_def demo_namespaces Let_def)

lemma demo_created:
  "createAgentRunTask (qe_scope demo_queue) 100 demo_agent ''manual'' None ''look around'' NewAiManager
     = (demo_state demo_task True [] 0 (ai_usage NewAiManager), Inr demo_task)"
proof -
  have "agentRunKeyPrefix ''ns'' ''a'' @ show_int 100 = demo_key"
    by (simp add: agentRunKeyPrefix_def agentTaskIDPrefix_def DB_AI_BUCKET_TASKS_def demo_split(2) demo_key_def)
  then have "enqueueAgentRun 100 demo_agent [''ns''] ''manual'' None ''look around'' NewAiManager
      = (case save_task 100 demo_task demo_key NewAiManager of
           (S', Inl err) \<Rightarrow> (S', Inl err)
         | (S', Inr t) \<Rightarrow> (S'\<lparr>ai_lastAgentRun := AList.update ''a'' 100 (ai_lastAgentRun S')\<rparr>, Inr t))"
    by (simp add: enqueueAgentRun_def hasOpenAgentRun_def NewAiManager_def demo_agent_def demo_task_def Let_def)
  also have "\<dots> = (demo_state demo_task True [] 0 (ai_usage NewAiManager), Inr demo_task)"
    using demo_namespaces [of demo_task]
    by (simp add: save_task_def createOrUpdateAiTask_def NewAiManager_def demo_state_def demo_task_def Let_def)
  finally show ?thesis by (simp add: createAgentRunTask_def demo_scope)
qed

definition demo_config :: ResolvedModelConfig where
  "demo_config = \<lparr>rc_Source = ''default'', rc_ModelCrName = ''m'', rc_Sdk = AiSdkTypeOllama, rc_Model = ''llama'', rc_ApiKey = [],
     rc_BaseUrl = ''http://ollama'', rc_MaxToolCalls = 50, rc_MaxTokensPerRun = 30000, rc_DailyTokenLimit = 300000\<rparr>"

lemma demo_resolved: "resolveModelConfig (qe_models demo_queue) (Some (as_Model (an_Spec demo_agent))) = Inr demo_config"
  by (simp add: resolveModelConfig_def demo_queue_def demo_agent_def modelRef_of_def getDefaultAiModel_def listAiModels_def
      PickDefaultAiModel_def first_of_def demo_model_def resolveAiModel_def ValidateAiModelSpec_def parseSdkType_def
      resolveApiKeyFromRef_def applyAgentBudgetOverrides_def or_default_def demo_config_def defaultMaxToolCalls_def
      defaultMaxTokensPerRun_def defaultDailyTokenLimit_def)

text \<open>The usage with nothing booked, before and after its summary is cached.\<close>

definition demo_used :: usage_state where
  "demo_used = \<lparr>tu_entries = [], tu_cache = Some (\<lparr>us_TotalTokens = 0, us_TotalRuns = 0, us_PerModel = []\<rparr>, 100)\<rparr>"

lemma demo_budget:
  assumes "u = ai_usage NewAiManager \<or> u = demo_used" "ai_readOk S"
  shows "isModelBudgetExceeded (server S) (qe_midnight demo_queue) 100 (Some demo_config) u = (demo_used, False)"
  using assms
  by (auto simp: isModelBudgetExceeded_def demo_config_def todayUsageSnapshot_def NewAiManager_def demo_used_def loadTokenUsageEntries_def
      server_def aggregateTokenUsage_def usageSnapshotTTL_def per_model_def Let_def)

abbreviation demo_run :: "nat \<Rightarrow> AiTask \<Rightarrow> run_pc \<Rightarrow> run" where
  "demo_run i t pc \<equiv> \<lparr>rn_id = i, rn_task = t, rn_key = demo_key, rn_config = demo_config, rn_cancelled = False, rn_pc = pc\<rparr>"

definition demo_started :: "AiTask \<Rightarrow> AiTask" where
  "demo_started t = t\<lparr>t_State := IN_PROGRESS, t_Error := [], t_UpdatedAt := 100\<rparr>"

text \<open>A pass of the queue over the pending task starts a run for it, whatever runs there are.\<close>

lemma demo_pass_starts:
  assumes t: "t_ScopeNamespaces t = [''ns'']" "t_AgentRef t = ''a''" "t_State t = PENDING" "t_ReferencingResource t = t_ReferencingResource demo_task"
    and u: "u = ai_usage NewAiManager \<or> u = demo_used" and reach: "ai_reach demo_queue (demo_state t kick runs n u)"
  shows "ai_reach demo_queue (demo_state (demo_started t) False (runs @ [demo_run n (demo_started t) Queued]) (Suc n) demo_used)"
proof -
  let ?S = "demo_state t kick runs n u"
  have fields: "ai_pass ?S = []" "queue_candidates ?S = [(demo_key, t)]"
    using t by (simp_all add: demo_state_def NewAiManager_def queue_candidates_def)
  have quiet: "?S\<lparr>ai_kick := False, ai_error := [], ai_pass := []\<rparr> = demo_state t False runs n u"
    by (simp add: demo_state_def NewAiManager_def)
  have server: "ai_readOk (demo_state t False runs n u)" "ai_usage (demo_state t False runs n u) = u"
    "demo_state t False runs n u\<lparr>ai_usage := demo_used\<rparr> = demo_state t False runs n demo_used"
    "getTaskByKey demo_key (demo_state t False runs n demo_used) = Inr (Some t)"
    by (simp_all add: demo_state_def NewAiManager_def getTaskByKey_def)
  have ctx: "buildAgentTaskContext demo_queue t = Inr (demo_agent, agent_context demo_agent [''ns''])"
    using t demo_scope by (simp add: buildAgentTaskContext_def demo_task_def no_resource_def Let_def demo_queue_def demo_agent_def)
  have "demo_pass ?S = queue_entry demo_queue 100 (demo_key, t) (demo_state t False runs n u)"
    by (simp add: demo_pass_def fields quiet Let_def)
  also have "\<dots> = start_run (demo_started t) demo_key demo_config (demo_state (demo_started t) False runs n demo_used)"
    using t by (simp add: queue_entry_def ctx demo_resolved demo_budget [OF u server(1)] server demo_save demo_started_def Let_def)
  also have "\<dots> = demo_state (demo_started t) False (runs @ [demo_run n (demo_started t) Queued]) (Suc n) demo_used"
    by (simp add: start_run_def demo_state_def NewAiManager_def)
  finally show ?thesis using demo_pass_reach [OF reach] fields by simp
qed

lemma demo_first_run:
  "ai_reach demo_queue (demo_state (demo_started demo_task) False [demo_run 0 (demo_started demo_task) Queued] 1 demo_used)"
proof -
  have "ai_reach demo_queue (demo_state demo_task True [] 0 (ai_usage NewAiManager))"
    by (rule ai_reach.step [OF ai_reach.init ai_step.enqueue [OF demo_created]])
  from demo_pass_starts [OF _ _ _ _ _ this] show ?thesis by (simp add: demo_task_def)
qed

text \<open>The run in its slot, and registered for cancelling.\<close>

abbreviation demo_slotted :: ai_state where
  "demo_slotted \<equiv> demo_state (demo_started demo_task) False [demo_run 0 (demo_started demo_task) Running] 1 demo_used
     \<lparr>ai_runCancels := [(demo_key, 0)]\<rparr>"

lemma demo_slotted_reach: "ai_reach demo_queue demo_slotted"
proof -
  let ?r = "demo_run 0 (demo_started demo_task) Queued"
  let ?S = "demo_state (demo_started demo_task) False [?r] 1 demo_used"
  have "?r \<in> set (ai_runs ?S)" "slots ?S < maxConcurrentRuns"
    by (simp_all add: demo_state_def slots_def maxConcurrentRuns_def)
  from ai_reach.step [OF demo_first_run ai_step.slot [OF this(1) _ this(2)]] show ?thesis
    by (simp add: begin_run_def registerRunCancel_def set_run_def demo_state_def NewAiManager_def demo_started_def demo_task_def)
qed

section \<open>Properties\<close>

text \<open>C18: A mutating call goes ahead only after a decision: in every interleaving of clients, queue
  passes, runs, expiring keys, store outages and restarts, whenever a waiting run continues with an
  approval attributed to a user, that user approved this task and has an email address, unless a
  client has marked the task solved; and at most ten runs are past their slot.\<close>

theorem approvals_attributed:
  assumes "ai_reach E S"
  shows "slots S \<le> 10 \<and>
    (\<forall>(i, user) \<in> set (ai_grants S). i \<notin> set (ai_solved S) \<longrightarrow> (i, user) \<in> set (ai_approved S) \<and> u_Email user \<noteq> [])"
  using ai_reach_approval [OF assms] ai_reach_slots [OF assms]
  by (fastforce simp: approval_inv_def slots_inv_def maxConcurrentRuns_def)

text \<open>A run that asked for an approval and whose task was then marked solved.\<close>

definition demo_request :: ToolRequest where
  "demo_request = \<lparr>tr_Name = ''delete_kubernetes_resource'', tr_Args = JNull, tr_Sessions = []\<rparr>"

definition demo_proposed :: ai_state where
  "demo_proposed = request_approval 100 demo_request (hd (ai_runs demo_slotted)) demo_slotted"

definition demo_solved :: ai_state where
  "demo_solved = fst (UpdateTaskState 100 demo_key SOLVED demo_proposed)"

definition demo_granted :: ai_state where
  "demo_granted = approval_poll 100 (hd (ai_runs demo_solved)) demo_solved"

lemmas demo_state_defs = demo_state_def NewAiManager_def demo_started_def demo_task_def

lemma demo_proposed_reach: "ai_reach demo_queue demo_proposed"
  unfolding demo_proposed_def
  by (rule ai_reach.step [OF demo_slotted_reach ai_step.request]) (simp_all add: demo_state_defs)

lemma demo_proposed_task:
  "map_of (ai_tasks demo_proposed) demo_key = Some ((demo_started demo_task)\<lparr>t_State := PROPOSED, t_Response := Some [demo_request]\<rparr>)"
  "ai_runs demo_proposed = [demo_run 0 (demo_started demo_task) (Awaiting 1)]"
  "ai_readOk demo_proposed" "ai_writeOk demo_proposed" "ai_grants demo_proposed = []" "ai_approved demo_proposed = []"
  by (simp_all add: demo_proposed_def request_approval_def getTaskByKey_def createOrUpdateAiTask_def set_run_def demo_state_defs Let_def)

lemma demo_granted_facts:
  "ai_reach demo_queue demo_granted" "ai_grants demo_granted = [(demo_key, no_user)]" "ai_approved demo_granted = []"
  "ai_solved demo_granted \<noteq> []" "map rn_pc (ai_runs demo_granted) = [Running]"
proof -
  have reach: "ai_reach demo_queue demo_solved"
    unfolding demo_solved_def
    by (rule ai_reach.step [OF demo_proposed_reach ai_step.set_state [OF prod.collapse [symmetric]]])
  have solved: "map_of (ai_tasks demo_solved) demo_key = Some ((demo_started demo_task)\<lparr>t_State := SOLVED, t_Response := Some [demo_request]\<rparr>)"
    "ai_runs demo_solved = [demo_run 0 (demo_started demo_task) (Awaiting 1)]" "ai_readOk demo_solved"
    "ai_grants demo_solved = []" "ai_approved demo_solved = []" "ai_solved demo_solved \<noteq> []"
    using demo_proposed_task
    by (simp_all add: demo_solved_def UpdateTaskState_def with_task_def getTaskByKey_def genericStateTransitions_def save_task_def
        createOrUpdateAiTask_def Let_def) (simp add: demo_started_def)
  show "ai_reach demo_queue demo_granted"
    unfolding demo_granted_def
    by (rule ai_reach.step [OF reach ai_step.poll]) (simp_all add: solved)
  have id: "t_ID (demo_started demo_task) = demo_key" "t_Approval (demo_started demo_task) = None"
    by (simp_all add: demo_started_def demo_task_def)
  have runs: "ai_runs (resetToInProgress now i S) = ai_runs S" for now i S
    by (auto simp: resetToInProgress_def createOrUpdateAiTask_def Let_def split: sum.split option.split)
  show "ai_grants demo_granted = [(demo_key, no_user)]" "ai_approved demo_granted = []" "ai_solved demo_granted \<noteq> []"
    "map rn_pc (ai_runs demo_granted) = [Running]"
    using solved by (simp_all add: demo_granted_def approval_poll_def getTaskByKey_def id grant_def end_wait_def set_run_def runs Let_def)
qed

text \<open>The exception is real: the solved task above released the run with an approval by nobody.\<close>

theorem approvals_attributed_witness:
  "slots demo_granted \<le> 10 \<and> (demo_key, no_user) \<in> set (ai_grants demo_granted) \<and> demo_key \<in> set (ai_solved demo_granted)"
proof -
  have "demo_key \<in> set (ai_solved demo_granted)"
    using approvals_attributed [OF demo_granted_facts(1)] by (auto simp: demo_granted_facts(2,3))
  with approvals_attributed [OF demo_granted_facts(1)] show ?thesis by (simp add: demo_granted_facts)
qed

lemma demo_begin:
  assumes "ai_reach demo_queue S" "ai_runs S = us @ r # vs" "rn_pc r = Queued" "rn_id r \<notin> rn_id ` (set us \<union> set vs)" "slots S < maxConcurrentRuns"
  obtains S' where "ai_reach demo_queue S'" "ai_runs S' = us @ r\<lparr>rn_pc := Running\<rparr> # vs"
proof
  show "ai_reach demo_queue (begin_run r S)"
    by (rule ai_reach.step [OF assms(1) ai_step.slot]) (simp_all add: assms)
  have other: "x \<in> set us \<or> x \<in> set vs \<Longrightarrow> rn_id x \<noteq> rn_id r" for x using assms(4) by (metis UnI1 UnI2 image_eqI)
  show "ai_runs (begin_run r S) = us @ r\<lparr>rn_pc := Running\<rparr> # vs"
    by (auto simp: begin_run_def registerRunCancel_def set_run_def assms(2) other intro!: map_idI)
qed

text \<open>The retry of a task that is still running starts a second run of it: a client may set a
  task in progress back to pending, the next queue pass picks it up, and two goroutines work on
  the same task at the same time.\<close>

lemma retry_starts_second_run:
  "\<exists>S. ai_reach demo_queue S \<and> map rn_key (ai_runs S) = [demo_key, demo_key] \<and> map rn_pc (ai_runs S) = [Running, Running]"
proof -
  let ?t = "demo_started demo_task" and ?t' = "(demo_started demo_task)\<lparr>t_State := PENDING\<rparr>"
  let ?r = "demo_run 0 ?t Queued"
  have "UpdateTaskState 100 demo_key PENDING (demo_state ?t False [?r] 1 demo_used) = (demo_state ?t' True [?r] 1 demo_used, Inr ?t')"
  proof -
    have "t_ScopeNamespaces ?t' = [''ns'']" "t_State ?t \<noteq> EXECUTING" "?t'\<lparr>t_UpdatedAt := 100\<rparr> = ?t'"
      by (simp_all add: demo_started_def demo_task_def)
    moreover have "getTaskByKey demo_key (demo_state ?t False [?r] 1 demo_used) = Inr (Some ?t)"
      by (simp add: getTaskByKey_def demo_state_def NewAiManager_def)
    ultimately show ?thesis
      by (simp add: UpdateTaskState_def genericStateTransitions_def with_task_def save_task_def demo_save)
  qed
  from ai_reach.step [OF demo_first_run ai_step.set_state [OF this]]
  have "ai_reach demo_queue (demo_state ?t' True [?r] 1 demo_used)" .
  from demo_pass_starts [OF _ _ _ _ _ this]
  have "ai_reach demo_queue (demo_state (demo_started ?t') False [?r, demo_run 1 (demo_started ?t') Queued] 2 demo_used)"
    by (simp add: demo_started_def demo_task_def numeral_2_eq_2)
  from demo_begin [OF this, of "[]" ?r "[demo_run 1 (demo_started ?t') Queued]"]
  obtain S1 where S1: "ai_reach demo_queue S1" "ai_runs S1 = [demo_run 0 ?t Running, demo_run 1 (demo_started ?t') Queued]"
    by (auto simp: demo_state_def slots_def maxConcurrentRuns_def)
  from demo_begin [OF S1(1), of "[demo_run 0 ?t Running]" "demo_run 1 (demo_started ?t') Queued" "[]"]
  obtain S2 where "ai_reach demo_queue S2" "ai_runs S2 = [demo_run 0 ?t Running, demo_run 1 (demo_started ?t') Running]"
    by (auto simp: S1 slots_def maxConcurrentRuns_def)
  then show ?thesis by (intro exI [of _ S2]) simp
qed

text \<open>Pruning an agent's history never removes a task that is still open, nor one outside the runs
  beyond the cap.\<close>

lemma DeleteKeys_keep:
  "k \<notin> set ks \<Longrightarrow>
   map_of (ai_tasks (foldl (\<lambda>S k. fst (DeleteKey k S)) S ks)) k = map_of (ai_tasks S) k \<and>
   ai_readOk (foldl (\<lambda>S k. fst (DeleteKey k S)) S ks) = ai_readOk S"
  by (induction ks arbitrary: S) (auto simp: DeleteKey_def)

lemma prune_group_keeps:
  assumes "map_of (ai_tasks S) k = Some t" "ai_readOk S" "t_State t \<in> set openAgentTaskStates \<or> k \<notin> set (snd g)"
  shows "map_of (ai_tasks (prune_group S g)) k = Some t \<and> ai_readOk (prune_group S g)"
proof (cases "run_open S (snd g)")
  case False
  with assms have "k \<notin> set (snd g)" by (auto simp: run_open_def getTaskByKey_def)
  from DeleteKeys_keep [OF this, of S] False assms(1,2) show ?thesis by (simp add: prune_group_def)
qed (use assms in \<open>simp add: prune_group_def\<close>)

lemma prune_keeps_open_runs:
  assumes "map_of (ai_tasks S) k = Some t"
    and "t_State t \<in> set openAgentTaskStates \<or>
         k \<notin> set (concat (map snd (drop maxAgentRunHistory (groupAgentRunKeys (filter (matches_agent_runs a) (map fst (ai_tasks S)))))))"
  shows "map_of (ai_tasks (pruneAgentRunsToLimit a S)) k = Some t"
proof -
  have "map_of (ai_tasks (foldl prune_group S gs)) k = Some t"
    if "ai_readOk S" "t_State t \<in> set openAgentTaskStates \<or> k \<notin> set (concat (map snd gs))" for gs
    using that assms(1)
  proof (induction gs arbitrary: S)
    case (Cons g gs)
    with prune_group_keeps [OF Cons.prems(3,1), of g] show ?case by auto
  qed simp
  with assms show ?thesis by (auto simp: pruneAgentRunsToLimit_def)
qed

text \<open>A task that a client retries after it was given up keeps its count of attempts. If the budget is
  exhausted when its turn comes it is put back as failed, and no queue pass picks it up again.\<close>

lemma budget_strands_retried_task:
  assumes "wf_map (ai_tasks S)" "t_Retries t \<ge> maxAiTaskRetries" "buildAgentTaskContext E t = Inr (agent, ctx)"
    and "resolveModelConfig (qe_models E) (Some (as_Model (an_Spec agent))) = Inr rc"
    and "isModelBudgetExceeded (server S) (qe_midnight E) now (Some rc) (ai_usage S) = (u, True)" "ai_writeOk S"
  shows "k \<notin> fst ` set (queue_candidates (queue_entry E now (k, t) S))"
proof
  let ?S = "queue_entry E now (k, t) S"
  assume "k \<in> fst ` set (queue_candidates ?S)"
  then obtain t' where t': "(k, t') \<in> set (ai_tasks ?S)" "t_State t' = PENDING \<or> t_State t' = FAILED \<and> t_Retries t' < maxAiTaskRetries"
    by (auto simp: queue_candidates_def split: if_splits)
  have "map_of (ai_tasks ?S) k = Some (t\<lparr>t_State := FAILED, t_Error := modelBudgetError (qe_midnight E) now rc (S\<lparr>ai_usage := u\<rparr>), t_UpdatedAt := now\<rparr>)"
    "wf_map (ai_tasks ?S)"
    using assms by (simp_all add: queue_entry_def createOrUpdateAiTask_def Let_def)
  with t' assms(2) wf_map_lookup [of "ai_tasks ?S" k t'] show False by auto
qed

text \<open>An agent outside a workspace has no role to take over: a change approved by anyone is refused
  by the tool itself.\<close>

lemma approved_change_refused:
  "sc_WorkspaceRef (as_Scope (an_Spec agent)) = [] \<Longrightarrow>
   update_guard (Some (buildApproverCtx grantRole (agent_context agent namespaces) approver)) ns meta = Some NotEditor"
  by (auto simp: buildApproverCtx_def agent_context_def newToolContextFromAgent_def plain_context_def update_guard_def IsEditor_def
      IsAdmin_def Let_def split: option.split)

end
