(* ===== verification/AiMcp.thy ===== *)
theory AiMcp
  imports AiLoop AiModels
begin

text \<open>
  Connections to MCP servers and the policies of their tools: \<open>ai/mcp_client.go\<close>,
  \<open>ai/mcp_crd_connector.go\<close>, \<open>crds/v1alpha1/type_mcp_server.go\<close> and the reconcile handler
  \<open>reconciler/mcp_servers.go\<close>.

  The protocol client is third-party code: connecting, listing, pinging, closing and calling act
  on a world of arbitrary type and are the fields of \<open>mcp_client\<close>. Sessions live in a Go map whose
  iteration order changes from loop to loop, so every operation that ranges over them takes the
  list of sessions in the order it visits them.
\<close>

section \<open>Tools, policies and sessions\<close>

datatype MCPToolPolicyType = MCPToolPolicyDeny | MCPToolPolicyNeedsApprove | MCPToolPolicyAutoApprove

type_synonym tool_policies = "(string, MCPToolPolicyType) gomap"

datatype MCPTransportType = MCPTransportStreamableHTTP | MCPTransportSSE

text \<open>A tool as the server lists it; the hint is set when there are annotations that set it.\<close>

record mcp_tool =
  mt_Name :: string
  mt_Description :: string
  mt_InputSchema :: json
  mt_ReadOnlyHint :: bool

record MCPServerConfig =
  mc_Name :: string
  mc_URL :: string
  mc_Transport :: MCPTransportType
  mc_Headers :: "(string, string) gomap"
  mc_ToolPolicies :: tool_policies

record 'c mcpSession =
  mx_name :: string
  mx_session :: 'c
  mx_cfg :: MCPServerConfig
  mx_allTools :: "mcp_tool list"
  mx_tools :: "mcp_tool list"
  mx_sanitizedToOriginal :: "(string, string) gomap"
  mx_toolPolicies :: tool_policies

type_synonym 'c mcp_sessions = "(string, 'c mcpSession) gomap"

datatype mcp_content = TextContent string | OtherContent "string option"

record CallToolResult =
  cr_IsError :: bool
  cr_Content :: "mcp_content list"

record ('w, 'c) mcp_client =
  cl_connect :: "MCPServerConfig \<Rightarrow> 'w \<Rightarrow> 'w \<times> (string + 'c)"
  cl_list :: "'c \<Rightarrow> 'w \<Rightarrow> 'w \<times> (string + mcp_tool list)"
  cl_ping :: "'c \<Rightarrow> 'w \<Rightarrow> 'w \<times> string option"
  cl_close :: "'c \<Rightarrow> 'w \<Rightarrow> 'w"
  cl_call :: "'c \<Rightarrow> string \<Rightarrow> json \<Rightarrow> 'w \<Rightarrow> 'w \<times> (string + CallToolResult)"

text \<open>Every rune outside the allowed range becomes one underscore: a byte that continues a rune is
  dropped, any other byte is replaced.\<close>

definition tool_name_char :: "char \<Rightarrow> bool" where
  "tool_name_char c \<longleftrightarrow> (CHR ''a'' \<le> c \<and> c \<le> CHR ''z'') \<or> (CHR ''A'' \<le> c \<and> c \<le> CHR ''Z'') \<or>
     (CHR ''0'' \<le> c \<and> c \<le> CHR ''9'') \<or> c = CHR ''_'' \<or> c = CHR ''-''"

definition sanitizeToolName :: "string \<Rightarrow> string" where
  "sanitizeToolName name =
     map (\<lambda>c. if tool_name_char c then c else CHR ''_'') (filter (\<lambda>c. \<not> (CHR 0x80 \<le> c \<and> c \<le> CHR 0xBF)) name)"

definition policy_filter :: "tool_policies \<Rightarrow> mcp_tool list \<Rightarrow> mcp_tool list" where
  "policy_filter policies tools =
     (if policies = [] then tools
      else filter (\<lambda>t. case map_of policies (mt_Name t) of None \<Rightarrow> False | Some p \<Rightarrow> p \<noteq> MCPToolPolicyDeny) tools)"

definition name_map :: "mcp_tool list \<Rightarrow> (string, string) gomap" where
  "name_map tools = foldl (\<lambda>m t. AList.update (sanitizeToolName (mt_Name t)) (mt_Name t) m) [] tools"

section \<open>Managing sessions\<close>

datatype mcp_error = ConnectFailed string string | ListFailed string string | NoSession string
  | Unreachable string string mcp_error

definition Connect ::
  "('w, 'c) mcp_client \<Rightarrow> MCPServerConfig \<Rightarrow> 'c mcp_sessions \<Rightarrow> 'w \<Rightarrow> 'c mcp_sessions \<times> 'w \<times> mcp_error option" where
  "Connect C cfg m w =
     (case cl_connect C cfg w of
        (w1, Inl e) \<Rightarrow> (m, w1, Some (ConnectFailed (mc_Name cfg) e))
      | (w1, Inr c) \<Rightarrow>
          (case cl_list C c w1 of
             (w2, Inl e) \<Rightarrow> (m, cl_close C c w2, Some (ListFailed (mc_Name cfg) e))
           | (w2, Inr allTools) \<Rightarrow>
               (let tools = policy_filter (mc_ToolPolicies cfg) allTools;
                    w3 = (case map_of m (mc_Name cfg) of Some old \<Rightarrow> cl_close C (mx_session old) w2 | None \<Rightarrow> w2)
                in (AList.update (mc_Name cfg)
                      \<lparr>mx_name = mc_Name cfg, mx_session = c, mx_cfg = cfg, mx_allTools = allTools, mx_tools = tools,
                       mx_sanitizedToOriginal = name_map tools, mx_toolPolicies = mc_ToolPolicies cfg\<rparr> m,
                    w3, None))))"

definition list_session ::
  "('w, 'c) mcp_client \<Rightarrow> string \<Rightarrow> 'c mcpSession \<Rightarrow> 'c mcp_sessions \<Rightarrow> 'w \<Rightarrow> 'c mcp_sessions \<times> 'w \<times> (mcp_error + string list)" where
  "list_session C name s m w =
     (case cl_list C (mx_session s) w of
        (w1, Inl e) \<Rightarrow> (m, w1, Inl (ListFailed name e))
      | (w1, Inr allTools) \<Rightarrow>
          (let tools = policy_filter (mx_toolPolicies s) allTools
           in (AList.update name (s\<lparr>mx_allTools := allTools, mx_tools := tools, mx_sanitizedToOriginal := name_map tools\<rparr>) m,
               w1, Inr (map mt_Name allTools))))"

definition RefreshSessionTools ::
  "('w, 'c) mcp_client \<Rightarrow> string \<Rightarrow> 'c mcp_sessions \<Rightarrow> 'w \<Rightarrow> 'c mcp_sessions \<times> 'w \<times> (mcp_error + string list)" where
  "RefreshSessionTools C name m w =
     (case map_of m name of
        None \<Rightarrow> (m, w, Inl (NoSession name))
      | Some s \<Rightarrow>
          (case cl_ping C (mx_session s) w of
             (w1, None) \<Rightarrow> list_session C name s m w1
           | (w1, Some e) \<Rightarrow>
               (case Connect C (mx_cfg s) m w1 of
                  (m2, w2, Some err) \<Rightarrow> (m2, w2, Inl (Unreachable name e err))
                | (m2, w2, None) \<Rightarrow>
                    (case map_of m2 name of
                       None \<Rightarrow> (m2, w2, Inl (NoSession name))
                     | Some s2 \<Rightarrow> list_session C name s2 m2 w2))))"

definition RemoveSession :: "('w, 'c) mcp_client \<Rightarrow> string \<Rightarrow> 'c mcp_sessions \<Rightarrow> 'w \<Rightarrow> 'c mcp_sessions \<times> 'w" where
  "RemoveSession C name m w =
     (case map_of m name of None \<Rightarrow> (m, w) | Some s \<Rightarrow> (AList.delete name m, cl_close C (mx_session s) w))"

definition Close_all :: "('w, 'c) mcp_client \<Rightarrow> 'c mcp_sessions \<Rightarrow> 'w \<Rightarrow> 'c mcp_sessions \<times> 'w" where
  "Close_all C m w = ([], foldl (\<lambda>w e. cl_close C (mx_session (snd e)) w) w m)"

definition HasSession :: "string \<Rightarrow> 'c mcp_sessions \<Rightarrow> bool" where
  "HasSession name m \<longleftrightarrow> map_of m name \<noteq> None"

section \<open>Finding and calling a tool\<close>

text \<open>The tool of a session a name stands for: the original of a sanitized name, or the name itself,
  if the session offers it.\<close>

definition session_tool :: "'c mcpSession \<Rightarrow> string \<Rightarrow> string option" where
  "session_tool s toolName =
     (let orig = (case map_of (mx_sanitizedToOriginal s) toolName of Some mapped \<Rightarrow> mapped | None \<Rightarrow> toolName)
      in if \<exists>t \<in> set (mx_tools s). mt_Name t = orig then Some orig else None)"

definition has_tool :: "'c mcpSession \<Rightarrow> string \<Rightarrow> bool" where
  "has_tool s toolName \<longleftrightarrow>
     map_of (mx_sanitizedToOriginal s) toolName \<noteq> None \<or> (\<exists>t \<in> set (mx_tools s). mt_Name t = toolName)"

definition content_text :: "mcp_content \<Rightarrow> string list" where
  "content_text c = (case c of TextContent t \<Rightarrow> [t] | OtherContent (Some b) \<Rightarrow> [b] | OtherContent None \<Rightarrow> [])"

definition extractMCPText :: "CallToolResult \<Rightarrow> string" where
  "extractMCPText r =
     (let texts = concat (map content_text (cr_Content r)) in if texts = [] then ''No content returned'' else join [CHR 0x0A] texts)"

definition call_result :: "string \<Rightarrow> string + CallToolResult \<Rightarrow> string + string" where
  "call_result orig r =
     (case r of
        Inl e \<Rightarrow> Inl (''MCP tool call '' @ quoted orig @ '' failed: '' @ e)
      | Inr res \<Rightarrow> Inr (if cr_IsError res then ''MCP tool error: '' @ extractMCPText res else extractMCPText res))"

fun find_tool :: "string \<Rightarrow> 'c mcpSession list \<Rightarrow> ('c mcpSession \<times> string) option" where
  "find_tool toolName [] = None"
| "find_tool toolName (s # ss) =
     (case session_tool s toolName of Some orig \<Rightarrow> Some (s, orig) | None \<Rightarrow> find_tool toolName ss)"

definition CallTool ::
  "('w, 'c) mcp_client \<Rightarrow> 'c mcpSession list \<Rightarrow> string \<Rightarrow> json \<Rightarrow> 'w \<Rightarrow> 'w \<times> (string + string)" where
  "CallTool C ss toolName args w =
     (case find_tool toolName ss of
        None \<Rightarrow> (w, Inl (''MCP tool '' @ quoted toolName @ '' not found on any connected server''))
      | Some (s, orig) \<Rightarrow> apsnd (call_result orig) (cl_call C (mx_session s) orig args w))"

definition IsMCPTool :: "'c mcpSession list \<Rightarrow> string \<Rightarrow> bool" where
  "IsMCPTool ss toolName \<longleftrightarrow> (\<exists>s \<in> set ss. has_tool s toolName)"

definition sessionFilter :: "string list \<Rightarrow> flags" where
  "sessionFilter sessions = foldl (\<lambda>f s. AList.update s True f) [] sessions"

definition in_scope :: "string list \<Rightarrow> 'c mcpSession list \<Rightarrow> 'c mcpSession list" where
  "in_scope sessions ss = filter (\<lambda>s. flag (sessionFilter sessions) (mx_name s)) ss"

definition IsMCPToolInSessions :: "'c mcpSession list \<Rightarrow> string \<Rightarrow> string list \<Rightarrow> bool" where
  "IsMCPToolInSessions ss toolName sessions \<longleftrightarrow> (if sessions = [] then False else IsMCPTool (in_scope sessions ss) toolName)"

definition MCPToolNeedsApproval :: "'c mcpSession list \<Rightarrow> string \<Rightarrow> string list \<Rightarrow> bool" where
  "MCPToolNeedsApproval ss toolName sessions \<longleftrightarrow>
     (if sessions = [] then False
      else case find_tool toolName (in_scope sessions ss) of
             None \<Rightarrow> False
           | Some (s, orig) \<Rightarrow>
               if mx_toolPolicies s = [] then False else map_of (mx_toolPolicies s) orig = Some MCPToolPolicyNeedsApprove)"

definition denied :: "'c mcpSession \<Rightarrow> string \<Rightarrow> bool" where
  "denied s orig \<longleftrightarrow> mx_toolPolicies s \<noteq> [] \<and> map_of (mx_toolPolicies s) orig \<in> {None, Some MCPToolPolicyDeny}"

definition CallToolInSessions ::
  "('w, 'c) mcp_client \<Rightarrow> 'c mcpSession list \<Rightarrow> string \<Rightarrow> json \<Rightarrow> string list \<Rightarrow> 'w \<Rightarrow> 'w \<times> (string + string)" where
  "CallToolInSessions C ss toolName args sessions w =
     (if sessions = [] then (w, Inl (''MCP tool '' @ quoted toolName @ '': no sessions in scope''))
      else case find_tool toolName (in_scope sessions ss) of
             None \<Rightarrow> (w, Inl (''MCP tool '' @ quoted toolName @ '' not found in requested sessions''))
           | Some (s, orig) \<Rightarrow>
               if denied s orig then (w, Inl (''MCP tool '' @ quoted orig @ '' is denied by policy''))
               else apsnd (call_result orig) (cl_call C (mx_session s) orig args w))"

section \<open>What is reported and offered\<close>

record MCPToolWithPolicy =
  tp_Name :: string
  tp_Policy :: MCPToolPolicyType
  tp_ReadOnly :: bool

definition tool_with_policy :: "tool_policies \<Rightarrow> mcp_tool \<Rightarrow> MCPToolWithPolicy" where
  "tool_with_policy policies t =
     (if policies \<noteq> []
      then \<lparr>tp_Name = mt_Name t,
            tp_Policy = (case map_of policies (mt_Name t) of Some p \<Rightarrow> p | None \<Rightarrow> MCPToolPolicyDeny), tp_ReadOnly = False\<rparr>
      else \<lparr>tp_Name = mt_Name t,
            tp_Policy = (if mt_ReadOnlyHint t then MCPToolPolicyAutoApprove else MCPToolPolicyNeedsApprove),
            tp_ReadOnly = mt_ReadOnlyHint t\<rparr>)"

definition GetToolsWithPolicies :: "string \<Rightarrow> 'c mcp_sessions \<Rightarrow> MCPToolWithPolicy list" where
  "GetToolsWithPolicies sessionName m =
     (case map_of m sessionName of None \<Rightarrow> [] | Some s \<Rightarrow> map (tool_with_policy (mx_toolPolicies s)) (mx_allTools s))"

record aisdk_tool =
  at_Name :: string
  at_Description :: string
  at_InputSchema :: "(string, json) gomap"
  at_Required :: "string list"

definition mcpSchemaToPropertiesAndRequired :: "json \<Rightarrow> (string, json) gomap \<times> string list" where
  "mcpSchemaToPropertiesAndRequired schema =
     (case schema of
        JObj m \<Rightarrow>
          ((case map_of m ''properties'' of Some (JObj props) \<Rightarrow> props | _ \<Rightarrow> []),
           (case map_of m ''required'' of
              Some (JArr req) \<Rightarrow> concat (map (\<lambda>r. case r of JStr s \<Rightarrow> [s] | _ \<Rightarrow> []) req) | _ \<Rightarrow> []))
      | _ \<Rightarrow> ([], []))"

definition mcpToolToAiSDK :: "mcp_tool \<Rightarrow> aisdk_tool" where
  "mcpToolToAiSDK t =
     (let (properties, required) = mcpSchemaToPropertiesAndRequired (mt_InputSchema t)
      in \<lparr>at_Name = sanitizeToolName (mt_Name t), at_Description = mt_Description t, at_InputSchema = properties, at_Required = required\<rparr>)"

definition GetAiSDKTools :: "'c mcpSession list \<Rightarrow> aisdk_tool list" where
  "GetAiSDKTools ss = concat (map (\<lambda>s. map mcpToolToAiSDK (mx_tools s)) ss)"

definition GetAiSDKToolsForSessions :: "'c mcpSession list \<Rightarrow> string list \<Rightarrow> aisdk_tool list" where
  "GetAiSDKToolsForSessions ss sessions = GetAiSDKTools (in_scope sessions ss)"

section \<open>Connecting the servers that are declared\<close>

record McpServerHeader =
  hd_Name :: string
  hd_Value :: string
  hd_ValueFrom :: "SecretKeyRef option"

record McpServerAuth =
  au_Type :: string
  au_SecretRef :: "SecretKeyRef option"
  au_Header :: string

record McpServer =
  sv_Namespace :: string
  sv_Name :: string
  sv_Generation :: int
  sv_Transport :: string
  sv_URL :: string
  sv_Auth :: "McpServerAuth option"
  sv_Headers :: "McpServerHeader list"
  sv_ToolPolicies :: "(string \<times> MCPToolPolicyType) list"

text \<open>What the connector reads: its namespace, the server objects of the store and the getter of
  secrets, which may not be configured.\<close>

record mcp_env =
  mv_ownNamespace :: "string option"
  mv_getServer :: "string \<Rightarrow> string \<Rightarrow> McpServer option"
  mv_allServers :: "string \<Rightarrow> McpServer list option"
  mv_secretGetter :: "(string \<Rightarrow> string \<Rightarrow> string + (string, string) gomap option) option"

definition resolveSecretValue :: "mcp_env \<Rightarrow> string \<Rightarrow> string \<Rightarrow> string \<Rightarrow> string + string" where
  "resolveSecretValue E namespace secretName key =
     (case mv_secretGetter E of
        None \<Rightarrow> Inl ''no secret getter configured''
      | Some get \<Rightarrow>
          (case get namespace secretName of
             Inl e \<Rightarrow> Inl (''secret '' @ namespace @ ''/'' @ secretName @ '': '' @ e)
           | Inr None \<Rightarrow> Inl (''secret '' @ namespace @ ''/'' @ secretName @ '' not found'')
           | Inr (Some data) \<Rightarrow>
               (let k = (if key = [] then ''API_KEY'' else key)
                in case map_of data k of
                     None \<Rightarrow> Inl (''key '' @ quoted k @ '' not found in secret '' @ namespace @ ''/'' @ secretName)
                   | Some val \<Rightarrow> Inr val)))"

definition auth_headers :: "mcp_env \<Rightarrow> string \<Rightarrow> McpServerAuth option \<Rightarrow> string + (string, string) gomap" where
  "auth_headers E own auth =
     (case auth of
        None \<Rightarrow> Inr []
      | Some a \<Rightarrow>
          if au_Type a = ''none'' then Inr []
          else case au_SecretRef a of
                 None \<Rightarrow> Inl (''auth type '' @ quoted (au_Type a) @ '' requires secretRef'')
               | Some r \<Rightarrow>
                   (case resolveSecretValue E own (sr_Name r) (sr_Key r) of
                      Inl e \<Rightarrow> Inl (''auth secretRef: '' @ e)
                    | Inr token \<Rightarrow>
                        Inr (if au_Type a = ''bearer'' then [(''Authorization'', ''Bearer '' @ token)]
                             else if au_Type a = ''apiKey'' then [(au_Header a, token)] else [])))"

fun extra_headers :: "mcp_env \<Rightarrow> string \<Rightarrow> McpServerHeader list \<Rightarrow> (string, string) gomap \<Rightarrow> string + (string, string) gomap" where
  "extra_headers E own [] hs = Inr hs"
| "extra_headers E own (h # rest) hs =
     (case hd_ValueFrom h of
        Some r \<Rightarrow>
          (case resolveSecretValue E own (sr_Name r) (sr_Key r) of
             Inl e \<Rightarrow> Inl (''header '' @ quoted (hd_Name h) @ '' valueFrom: '' @ e)
           | Inr val \<Rightarrow> extra_headers E own rest (AList.update (hd_Name h) val hs))
      | None \<Rightarrow> extra_headers E own rest (AList.update (hd_Name h) (hd_Value h) hs))"

definition policy_map :: "(string \<times> MCPToolPolicyType) list \<Rightarrow> tool_policies" where
  "policy_map tps = foldl (\<lambda>m tp. AList.update (fst tp) (snd tp) m) [] tps"

definition buildMcpConfig :: "mcp_env \<Rightarrow> McpServer \<Rightarrow> string + MCPServerConfig" where
  "buildMcpConfig E tool =
     (case mv_ownNamespace E of
        None \<Rightarrow> Inl ''MO_OWN_NAMESPACE''
      | Some own \<Rightarrow>
          (case auth_headers E own (sv_Auth tool) of
             Inl e \<Rightarrow> Inl e
           | Inr hs \<Rightarrow>
               (case extra_headers E own (sv_Headers tool) hs of
                  Inl e \<Rightarrow> Inl e
                | Inr headers \<Rightarrow>
                    Inr \<lparr>mc_Name = sv_Name tool, mc_URL = sv_URL tool,
                         mc_Transport = (if sv_Transport tool = ''sse'' then MCPTransportSSE else MCPTransportStreamableHTTP),
                         mc_Headers = headers, mc_ToolPolicies = policy_map (sv_ToolPolicies tool)\<rparr>)))"

datatype notify_error = NoNamespace | ServerNotFound string | ConfigFailed string string | ConnectError string mcp_error

definition NotifyMcpServerChanged ::
  "mcp_env \<Rightarrow> ('w, 'c) mcp_client \<Rightarrow> string \<Rightarrow> 'c mcp_sessions \<Rightarrow> 'w \<Rightarrow> 'c mcp_sessions \<times> 'w \<times> notify_error option" where
  "NotifyMcpServerChanged E C name m w =
     (case mv_ownNamespace E of
        None \<Rightarrow> (m, w, Some NoNamespace)
      | Some own \<Rightarrow>
          (case mv_getServer E own name of
             None \<Rightarrow> (m, w, Some (ServerNotFound name))
           | Some tool \<Rightarrow>
               (case buildMcpConfig E tool of
                  Inl e \<Rightarrow> (m, w, Some (ConfigFailed name e))
                | Inr cfg \<Rightarrow>
                    (let (m1, w1) = RemoveSession C name m w
                     in case Connect C cfg m1 w1 of
                          (m2, w2, None) \<Rightarrow> (m2, w2, None)
                        | (m2, w2, Some e) \<Rightarrow> (m2, w2, Some (ConnectError name e))))))"

definition NotifyMcpServerDeleted :: "('w, 'c) mcp_client \<Rightarrow> string \<Rightarrow> 'c mcp_sessions \<Rightarrow> 'w \<Rightarrow> 'c mcp_sessions \<times> 'w" where
  "NotifyMcpServerDeleted C name m w = RemoveSession C name m w"

fun refresh_servers ::
  "mcp_env \<Rightarrow> ('w, 'c) mcp_client \<Rightarrow> McpServer list \<Rightarrow> 'c mcp_sessions \<Rightarrow> 'w \<Rightarrow> 'c mcp_sessions \<times> 'w" where
  "refresh_servers E C [] m w = (m, w)"
| "refresh_servers E C (tool # tools) m w =
     (case buildMcpConfig E tool of
        Inl e \<Rightarrow> refresh_servers E C tools m w
      | Inr cfg \<Rightarrow>
          (let (m1, w1) = RemoveSession C (sv_Name tool) m w; (m2, w2, err) = Connect C cfg m1 w1
           in refresh_servers E C tools m2 w2))"

definition RefreshAllMcpServerCRConnections ::
  "mcp_env \<Rightarrow> ('w, 'c) mcp_client \<Rightarrow> 'c mcp_sessions \<Rightarrow> 'w \<Rightarrow> 'c mcp_sessions \<times> 'w" where
  "RefreshAllMcpServerCRConnections E C m w =
     (case mv_ownNamespace E of
        None \<Rightarrow> (m, w)
      | Some own \<Rightarrow> (case mv_allServers E own of None \<Rightarrow> (m, w) | Some tools \<Rightarrow> refresh_servers E C tools m w))"

section \<open>Reconciling a declared server\<close>

text \<open>The Ready condition (status, reason, message), the checks of a spec, and the handler. The
  conditions are a list of the API machinery, of which the handler only finds and sets the Ready
  condition; setting it, the URL check, the secrets of the store and the status write are
  parameters.\<close>

type_synonym condition_text = "bool \<times> string \<times> string"

record 'k McpServerStatus =
  st_Conditions :: 'k
  st_ObservedGeneration :: int
  st_ToolCount :: nat
  st_LastConnectedAt :: string
  st_ToolsWithPolicies :: "MCPToolWithPolicy list"

record ('w, 'k) reconcile_env =
  rv_own :: string
  rv_validURL :: "string \<Rightarrow> bool"
  rv_hasSecret :: "string \<Rightarrow> string \<Rightarrow> bool"
  rv_ready :: "'k \<Rightarrow> condition_text option"
  rv_setReady :: "condition_text \<Rightarrow> int \<Rightarrow> 'k \<Rightarrow> 'k"
  rv_updateStatus :: "McpServer \<Rightarrow> 'k McpServerStatus \<Rightarrow> 'w \<Rightarrow> 'w \<times> string option"
  rv_requeueAgents :: "string \<Rightarrow> string \<Rightarrow> 'w \<Rightarrow> 'w"
  rv_now :: string

fun check_headers :: "('w, 'k) reconcile_env \<Rightarrow> string \<Rightarrow> McpServerHeader list \<Rightarrow> condition_text option" where
  "check_headers R ns [] = None"
| "check_headers R ns (h # hs) =
     (if hd_Name h = [] then Some (False, ''InvalidSpec'', ''headers entry has an empty name'')
      else case hd_ValueFrom h of
             Some r \<Rightarrow>
               if \<not> rv_hasSecret R ns (sr_Name r) then
                 Some (False, ''SecretNotFound'', ''header '' @ quoted (hd_Name h) @ '' valueFrom references Secret '' @
                   quoted (sr_Name r) @ '' which does not exist'')
               else check_headers R ns hs
           | None \<Rightarrow> check_headers R ns hs)"

definition check_auth :: "('w, 'k) reconcile_env \<Rightarrow> string \<Rightarrow> McpServerAuth option \<Rightarrow> condition_text option" where
  "check_auth R ns auth =
     (case auth of
        None \<Rightarrow> None
      | Some a \<Rightarrow>
          if au_Type a = ''none'' then None
          else case au_SecretRef a of
                 None \<Rightarrow> Some (False, ''InvalidSpec'', ''auth type '' @ quoted (au_Type a) @ '' requires secretRef'')
               | Some r \<Rightarrow>
                   if \<not> rv_hasSecret R ns (sr_Name r) then
                     Some (False, ''SecretNotFound'', ''auth.secretRef references Secret '' @ quoted (sr_Name r) @ '' which does not exist'')
                   else None)"

definition evaluateMcpServer :: "('w, 'k) reconcile_env \<Rightarrow> McpServer \<Rightarrow> condition_text" where
  "evaluateMcpServer R server =
     (if sv_Namespace server \<noteq> rv_own R then
        (False, ''IgnoredNamespace'', ''McpServers are only processed in namespace '' @ quoted (rv_own R))
      else if sv_URL server = [] then (False, ''InvalidSpec'', ''spec.url must not be empty'')
      else if \<not> rv_validURL R (sv_URL server) then (False, ''InvalidSpec'', ''spec.url is not a valid URL'')
      else if sv_Transport server \<notin> {''streamableHttp'', ''sse''} then
        (False, ''InvalidSpec'', ''unsupported transport '' @ quoted (sv_Transport server) @ '' (allowed: streamableHttp, sse)'')
      else case check_auth R (sv_Namespace server) (sv_Auth server) of
             Some c \<Rightarrow> c
           | None \<Rightarrow>
               (case check_headers R (sv_Namespace server) (sv_Headers server) of
                  Some c \<Rightarrow> c
                | None \<Rightarrow> (True, ''Valid'', ''spec is valid'')))"

text \<open>Connecting, or probing a session that is up to date: the condition it leads to and whether a
  connection was made.\<close>

definition connect_or_probe ::
  "mcp_env \<Rightarrow> (notify_error \<Rightarrow> string) \<Rightarrow> ('w, 'c) mcp_client \<Rightarrow> McpServer \<Rightarrow> int \<Rightarrow> condition_text
    \<Rightarrow> 'c mcp_sessions \<Rightarrow> 'w \<Rightarrow> 'c mcp_sessions \<times> 'w \<times> condition_text \<times> bool" where
  "connect_or_probe E err_text C server observed cond m w =
     (if \<not> HasSession (sv_Name server) m \<or> sv_Generation server \<noteq> observed then
        (case NotifyMcpServerChanged E C (sv_Name server) m w of
           (m1, w1, Some e) \<Rightarrow> (m1, w1, (False, ''ConnectionFailed'', err_text e), False)
         | (m1, w1, None) \<Rightarrow> (m1, w1, cond, True))
      else case RefreshSessionTools C (sv_Name server) m w of (m1, w1, _) \<Rightarrow> (m1, w1, cond, False))"

definition same_tools :: "MCPToolWithPolicy list \<Rightarrow> MCPToolWithPolicy list \<Rightarrow> bool" where
  "same_tools as bs \<longleftrightarrow> list_all2 (\<lambda>a b. tp_Name a = tp_Name b \<and> tp_Policy a = tp_Policy b) as bs"

definition reconcileMcpServers ::
  "('w, 'k) reconcile_env \<Rightarrow> mcp_env \<Rightarrow> (notify_error \<Rightarrow> string) \<Rightarrow> ('w, 'c) mcp_client \<Rightarrow> bool \<Rightarrow> McpServer \<Rightarrow> 'k McpServerStatus
    \<Rightarrow> 'c mcp_sessions \<Rightarrow> 'w \<Rightarrow> 'c mcp_sessions \<times> 'w \<times> string option" where
  "reconcileMcpServers R E err_text C deleted server status m w =
     (if deleted then (case NotifyMcpServerDeleted C (sv_Name server) m w of (m1, w1) \<Rightarrow> (m1, w1, None))
      else
        (let cond0 = evaluateMcpServer R server;
             (m1, w1, cond, didConnect) =
               (if fst cond0 then connect_or_probe E err_text C server (st_ObservedGeneration status) cond0 m w
                else (m, w, cond0, False));
             newTools = GetToolsWithPolicies (sv_Name server) m1;
             toolsChanged = (fst cond \<and> \<not> same_tools (st_ToolsWithPolicies status) newTools);
             status1 = (if fst cond then
                          status\<lparr>st_ToolsWithPolicies := newTools, st_ToolCount := length newTools,
                                 st_LastConnectedAt := (if didConnect then rv_now R else st_LastConnectedAt status)\<rparr>
                        else if \<not> fst cond0 then status\<lparr>st_ToolCount := 0, st_ToolsWithPolicies := []\<rparr> else status);
             current = rv_ready R (st_Conditions status);
             wasReady = (case current of Some c \<Rightarrow> fst c | None \<Rightarrow> False);
             upToDate = (current = Some cond \<and> st_ObservedGeneration status = sv_Generation server);
             result = (if fst cond then None
                       else Some (''McpServer '' @ quoted (sv_Name server) @ '' is not ready: '' @ fst (snd cond) @ '': '' @ snd (snd cond)))
         in if \<not> upToDate \<or> toolsChanged \<or> didConnect then
              (let status2 = status1\<lparr>st_Conditions := rv_setReady R cond (sv_Generation server) (st_Conditions status1),
                                     st_ObservedGeneration := sv_Generation server\<rparr>
               in case rv_updateStatus R server status2 w1 of
                    (w2, Some e) \<Rightarrow> (m1, w2, Some (''failed to update status of McpServer '' @ quoted (sv_Name server) @ '': '' @ e))
                  | (w2, None) \<Rightarrow>
                      (m1, if fst cond \<and> \<not> wasReady then rv_requeueAgents R (sv_Namespace server) (sv_Name server) w2 else w2, result))
            else (m1, w1, result)))"

section \<open>What holds of every session\<close>

text \<open>A session is stored under its name, offers exactly the tools its policies let through, and
  enforces the policies of the configuration it was connected with.\<close>

definition session_ok :: "string \<Rightarrow> 'c mcpSession \<Rightarrow> bool" where
  "session_ok name s \<longleftrightarrow> mx_name s = name \<and> mc_Name (mx_cfg s) = name \<and> mx_toolPolicies s = mc_ToolPolicies (mx_cfg s) \<and>
     mx_tools s = policy_filter (mx_toolPolicies s) (mx_allTools s) \<and> mx_sanitizedToOriginal s = name_map (mx_tools s)"

definition sessions_ok :: "'c mcp_sessions \<Rightarrow> bool" where
  "sessions_ok m \<longleftrightarrow> wf_map m \<and> (\<forall>name s. map_of m name = Some s \<longrightarrow> session_ok name s)"

lemma sessions_ok_update: "sessions_ok m \<Longrightarrow> session_ok name s \<Longrightarrow> sessions_ok (AList.update name s m)"
  by (simp add: sessions_ok_def)

lemma sessions_ok_delete: "sessions_ok m \<Longrightarrow> sessions_ok (AList.delete name m)"
  by (simp add: sessions_ok_def)

lemma Connect_ok:
  assumes "sessions_ok m" "Connect C cfg m w = (m', w', r)"
  shows "sessions_ok m'"
  using assms by (auto simp: Connect_def Let_def session_ok_def split: prod.splits sum.splits intro!: sessions_ok_update)

lemma list_session_ok:
  assumes "sessions_ok m" "map_of m name = Some s" "list_session C name s m w = (m', w', r)"
  shows "sessions_ok m'"
proof -
  have "session_ok name s" using assms(1,2) by (simp add: sessions_ok_def)
  with assms(1,3) show ?thesis
    by (auto simp: list_session_def Let_def session_ok_def split: prod.splits sum.splits intro!: sessions_ok_update)
qed

lemma RefreshSessionTools_ok:
  assumes "sessions_ok m" "RefreshSessionTools C name m w = (m', w', r)"
  shows "sessions_ok m'"
  using assms
  by (auto simp: RefreshSessionTools_def split: option.splits prod.splits dest: list_session_ok dest!: Connect_ok [OF assms(1)])

lemma RemoveSession_ok: "sessions_ok m \<Longrightarrow> sessions_ok (fst (RemoveSession C name m w))"
  by (auto simp: RemoveSession_def sessions_ok_delete split: option.splits)

text \<open>Every history of the manager: connections, refreshes, removals and closes in any order, with
  the servers changing in between.\<close>

inductive mcp_reach :: "('w, 'c) mcp_client \<Rightarrow> 'c mcp_sessions \<Rightarrow> 'w \<Rightarrow> bool" for C where
  start: "mcp_reach C [] w"
| world: "mcp_reach C m w \<Longrightarrow> mcp_reach C m w'"
| connect: "mcp_reach C m w \<Longrightarrow> Connect C cfg m w = (m', w', r) \<Longrightarrow> mcp_reach C m' w'"
| refresh: "mcp_reach C m w \<Longrightarrow> RefreshSessionTools C name m w = (m', w', r') \<Longrightarrow> mcp_reach C m' w'"
| remove: "mcp_reach C m w \<Longrightarrow> RemoveSession C name m w = (m', w') \<Longrightarrow> mcp_reach C m' w'"
| close: "mcp_reach C m w \<Longrightarrow> Close_all C m w = (m', w') \<Longrightarrow> mcp_reach C m' w'"

lemma mcp_reach_ok: "mcp_reach C m w \<Longrightarrow> sessions_ok m"
proof (induction rule: mcp_reach.induct)
  case (remove m w name m' w')
  then show ?case using RemoveSession_ok [of m C name w] by simp
next
  case (close m w m' w')
  then show ?case by (simp add: Close_all_def sessions_ok_def)
qed (auto intro: Connect_ok RefreshSessionTools_ok, simp add: sessions_ok_def)

text \<open>The operations of the connector and the reconcile handler stay within these histories.\<close>

lemma NotifyMcpServerChanged_reach:
  assumes "mcp_reach C m w" "NotifyMcpServerChanged E C name m w = (m', w', r)"
  shows "mcp_reach C m' w'"
  using assms
  by (auto simp: NotifyMcpServerChanged_def split: option.splits sum.splits prod.splits intro: mcp_reach.connect mcp_reach.remove)

lemma refresh_servers_reach:
  "mcp_reach C m w \<Longrightarrow> mcp_reach C (fst (refresh_servers E C tools m w)) (snd (refresh_servers E C tools m w))"
proof (induction tools arbitrary: m w)
  case (Cons tool tools)
  then show ?case
    by (auto split: sum.split prod.split dest!: mcp_reach.remove [OF Cons.prems] dest: mcp_reach.connect)
qed simp

lemma reconcileMcpServers_reach:
  assumes "mcp_reach C m w" "reconcileMcpServers R E err_text C deleted server status m w = (m', w', r)"
  shows "mcp_reach C m' w'"
proof (cases deleted)
  case True
  with assms show ?thesis
    by (auto simp: reconcileMcpServers_def NotifyMcpServerDeleted_def split: prod.splits intro: mcp_reach.remove)
next
  case False
  have probe: "connect_or_probe E err_text C server g c m w = (m1, w1, c', d) \<Longrightarrow> mcp_reach C m1 w1" for g c m1 w1 c' d
    using assms(1)
    by (auto simp: connect_or_probe_def split: if_splits prod.splits option.splits
        intro: NotifyMcpServerChanged_reach mcp_reach.refresh)
  from False assms show ?thesis
    unfolding reconcileMcpServers_def Let_def
    by (auto split: if_splits prod.splits option.splits intro: mcp_reach.world dest: probe)
qed

section \<open>Names\<close>

lemma flag_sessionFilter [simp]: "flag (sessionFilter sessions) name \<longleftrightarrow> name \<in> set sessions"
proof -
  have "flag (foldl (\<lambda>f s. AList.update s True f) f sessions) name \<longleftrightarrow> flag f name \<or> name \<in> set sessions" for f
    by (induction sessions arbitrary: f) (auto simp: flag_def)
  then show ?thesis by (simp add: sessionFilter_def flag_def)
qed

lemma name_map_sound: "map_of (name_map tools) n = Some orig \<Longrightarrow> n = sanitizeToolName orig \<and> orig \<in> mt_Name ` set tools"
proof -
  have "map_of (foldl (\<lambda>m t. AList.update (sanitizeToolName (mt_Name t)) (mt_Name t) m) m tools) n = Some orig
    \<Longrightarrow> map_of m n = Some orig \<or> (n = sanitizeToolName orig \<and> orig \<in> mt_Name ` set tools)" for m
    by (induction tools arbitrary: m) (fastforce split: if_splits)+
  then show "map_of (name_map tools) n = Some orig \<Longrightarrow> n = sanitizeToolName orig \<and> orig \<in> mt_Name ` set tools"
    by (fastforce simp: name_map_def)
qed

lemma name_map_complete: "t \<in> set tools \<Longrightarrow> map_of (name_map tools) (sanitizeToolName (mt_Name t)) \<noteq> None"
proof -
  have "map_of m n \<noteq> None \<or> (\<exists>t \<in> set tools. n = sanitizeToolName (mt_Name t)) \<Longrightarrow>
    map_of (foldl (\<lambda>m t. AList.update (sanitizeToolName (mt_Name t)) (mt_Name t) m) m tools) n \<noteq> None" for m n
    by (induction tools arbitrary: m) auto
  then show "t \<in> set tools \<Longrightarrow> map_of (name_map tools) (sanitizeToolName (mt_Name t)) \<noteq> None"
    unfolding name_map_def by blast
qed

lemma find_tool_Some:
  "find_tool toolName ss = Some (s, orig) \<Longrightarrow> s \<in> set ss \<and> session_tool s toolName = Some orig"
  by (induction ss) (auto split: option.splits)

lemma find_tool_None: "find_tool toolName ss = None \<longleftrightarrow> (\<forall>s \<in> set ss. session_tool s toolName = None)"
  by (induction ss) (auto split: option.splits)

lemma session_tool_ok:
  assumes "session_ok name s" "session_tool s toolName = Some orig"
  shows "orig \<in> mt_Name ` set (mx_allTools s)" "toolName = orig \<or> toolName = sanitizeToolName orig" "\<not> denied s orig"
  using assms
  by (auto simp: session_tool_def session_ok_def Let_def policy_filter_def denied_def
      split: option.splits if_splits dest!: name_map_sound)

text \<open>What \<open>IsMCPTool\<close> answers is what a call finds.\<close>

lemma has_tool_iff:
  assumes "session_ok name s"
  shows "has_tool s toolName \<longleftrightarrow> session_tool s toolName \<noteq> None"
  using assms
  by (auto simp: has_tool_def session_tool_def session_ok_def Let_def split: option.splits dest: name_map_sound)

lemma scoped_session:
  assumes "sessions_ok m" "mset ss = mset (map snd m)" "s \<in> set (in_scope sessions ss)"
  shows "map_of m (mx_name s) = Some s" "session_ok (mx_name s) s" "mx_name s \<in> set sessions"
proof -
  have "s \<in> set ss" using assms(3) by (simp add: in_scope_def)
  then obtain name where "map_of m name = Some s"
    using assms(1) mset_eq_setD [OF assms(2)] by (auto simp: sessions_ok_def)
  with assms(1) show "map_of m (mx_name s) = Some s" "session_ok (mx_name s) s"
    by (auto simp: sessions_ok_def session_ok_def)
  from assms(3) show "mx_name s \<in> set sessions" by (simp add: in_scope_def)
qed

lemma visited_session:
  assumes "sessions_ok m" "mset ss = mset (map snd m)" "s \<in> set ss"
  shows "map_of m (mx_name s) = Some s" "session_ok (mx_name s) s"
  using scoped_session [OF assms(1,2), of s "[mx_name s]"] assms(3) by (simp_all add: in_scope_def)

lemma in_scope_one:
  assumes "sessions_ok m" "mset ss = mset (map snd m)" "map_of m name = Some s"
  shows "in_scope [name] ss = [s]"
proof -
  have "s \<in> set ss" using mset_eq_setD [OF assms(2)] map_of_SomeD [OF assms(3)] by force
  have "mx_name s = name" using assms(1,3) by (auto simp: sessions_ok_def session_ok_def)
  have "distinct ss"
  proof -
    have name: "fst p = mx_name (snd p)" if "p \<in> set m" for p
      using assms(1) that by (cases p) (auto simp: sessions_ok_def session_ok_def)
    have "inj_on snd (set m)" by (rule inj_onI) (metis name prod.expand)
    moreover have "distinct m" using assms(1) by (simp add: sessions_ok_def distinct_map)
    ultimately have "distinct (map snd m)" by (simp add: distinct_map)
    then show ?thesis using assms(2) by (metis mset_eq_imp_distinct_iff)
  qed
  have "s' = s" if "s' \<in> set ss" "mx_name s' = name" for s'
    using visited_session(1) [OF assms(1,2) that(1)] that(2) assms(3) by simp
  then have "filter (\<lambda>s. mx_name s = name) ss = filter (\<lambda>s'. s' = s) ss"
    using \<open>mx_name s = name\<close> by (auto intro: filter_cong)
  also have "\<dots> = [s]" using \<open>distinct ss\<close> \<open>s \<in> set ss\<close>
    by (induction ss) (auto simp: filter_empty_conv)
  finally show ?thesis by (simp add: in_scope_def)
qed

section \<open>Properties\<close>

text \<open>A call that was refused without reaching any server, or that went to a session in scope, for a
  tool the server listed under this name and its declared policies do not deny.\<close>

definition allowed_call ::
  "('w, 'c) mcp_client \<Rightarrow> 'c mcp_sessions \<Rightarrow> string set \<Rightarrow> string \<Rightarrow> json \<Rightarrow> 'w \<Rightarrow> 'w \<times> (string + string) \<Rightarrow> bool" where
  "allowed_call C m scope toolName args w out \<longleftrightarrow>
     (\<exists>e. out = (w, Inl e)) \<or>
     (\<exists>name s orig. map_of m name = Some s \<and> name \<in> scope \<and> orig \<in> mt_Name ` set (mx_allTools s) \<and>
        toolName \<in> {orig, sanitizeToolName orig} \<and>
        (mc_ToolPolicies (mx_cfg s) = [] \<or> map_of (mc_ToolPolicies (mx_cfg s)) orig \<in> {Some MCPToolPolicyNeedsApprove, Some MCPToolPolicyAutoApprove}) \<and>
        out = apsnd (call_result orig) (cl_call C (mx_session s) orig args w))"

lemma not_denied: "\<not> denied s orig \<Longrightarrow>
  mx_toolPolicies s = [] \<or> map_of (mx_toolPolicies s) orig \<in> {Some MCPToolPolicyNeedsApprove, Some MCPToolPolicyAutoApprove}"
  by (cases "map_of (mx_toolPolicies s) orig") (auto simp: denied_def, metis MCPToolPolicyType.exhaust)

lemma allowed_callI:
  assumes "session_ok (mx_name s) s" "map_of m (mx_name s) = Some s" "mx_name s \<in> scope" "session_tool s toolName = Some orig"
  shows "allowed_call C m scope toolName args w (apsnd (call_result orig) (cl_call C (mx_session s) orig args w))"
  using assms session_tool_ok [OF assms(1,4)] not_denied [of s orig]
  unfolding allowed_call_def session_ok_def by (intro disjI2 exI [of _ "mx_name s"] exI [of _ s] exI [of _ orig]) auto

text \<open>C21: Denied tools are never called: whatever connections, refreshes and removals happened, in
  whatever order the sessions are visited, a call by an agent or in a chat either reaches no
  server or runs a tool that the server listed and the declared policies of that server do not
  deny; a call by an agent only goes to a server the agent refers to.\<close>

theorem mcp_calls_allowed:
  assumes "mcp_reach C m w0" "mset ss = mset (map snd m)"
  shows "allowed_call C m (set sessions) toolName args w (CallToolInSessions C ss toolName args sessions w)
    \<and> allowed_call C m UNIV toolName args w (CallTool C ss toolName args w)"
proof
  note ok = mcp_reach_ok [OF assms(1)]
  show "allowed_call C m (set sessions) toolName args w (CallToolInSessions C ss toolName args sessions w)"
  proof (cases "sessions \<noteq> [] \<and> (\<exists>s orig. find_tool toolName (in_scope sessions ss) = Some (s, orig) \<and> \<not> denied s orig)")
    case True
    then obtain s orig where found: "find_tool toolName (in_scope sessions ss) = Some (s, orig)" "\<not> denied s orig" "sessions \<noteq> []" by blast
    with find_tool_Some [OF found(1)] scoped_session [OF ok assms(2)] show ?thesis
      by (auto simp: CallToolInSessions_def intro!: allowed_callI)
  qed (auto simp: CallToolInSessions_def allowed_call_def split: option.splits)
  show "allowed_call C m UNIV toolName args w (CallTool C ss toolName args w)"
  proof (cases "find_tool toolName ss")
    case (Some found)
    then obtain s orig where found: "find_tool toolName ss = Some (s, orig)" by (cases found) auto
    with find_tool_Some [OF found] visited_session [OF ok assms(2)] show ?thesis
      by (auto simp: CallTool_def intro!: allowed_callI)
  qed (simp add: CallTool_def allowed_call_def)
qed

text \<open>A server with a denied tool, a tool that needs approval and an unlisted one. The world records
  the calls.\<close>

definition demo_tool :: "string \<Rightarrow> mcp_tool" where
  "demo_tool name = \<lparr>mt_Name = name, mt_Description = [], mt_InputSchema = JNull, mt_ReadOnlyHint = False\<rparr>"

definition demo_client :: "((string \<times> string) list, string) mcp_client" where
  "demo_client = \<lparr>cl_connect = (\<lambda>cfg w. (w, Inr (mc_Name cfg))), cl_list = (\<lambda>_ w. (w, Inr [demo_tool ''read'', demo_tool ''drop'', demo_tool ''wipe''])),
     cl_ping = (\<lambda>_ w. (w, None)), cl_close = (\<lambda>_ w. w),
     cl_call = (\<lambda>c n _ w. (w @ [(c, n)], Inr \<lparr>cr_IsError = False, cr_Content = [TextContent ''ok'']\<rparr>))\<rparr>"

definition demo_cfg :: "tool_policies \<Rightarrow> MCPServerConfig" where
  "demo_cfg policies = \<lparr>mc_Name = ''db'', mc_URL = ''http://db'', mc_Transport = MCPTransportSSE, mc_Headers = [], mc_ToolPolicies = policies\<rparr>"

definition demo_sessions :: "tool_policies \<Rightarrow> string mcp_sessions" where
  "demo_sessions policies = fst (Connect demo_client (demo_cfg policies) [] [])"

lemma demo_mcp_reach: "mcp_reach demo_client (demo_sessions policies) []"
proof -
  have "Connect demo_client (demo_cfg policies) [] [] = (demo_sessions policies, [], None)"
    by (simp add: demo_sessions_def Connect_def demo_client_def demo_cfg_def Let_def)
  then show ?thesis by (rule mcp_reach.connect [OF mcp_reach.start])
qed

theorem mcp_calls_allowed_witness:
  "allowed_call demo_client (demo_sessions [(''read'', MCPToolPolicyAutoApprove), (''drop'', MCPToolPolicyDeny)]) (set [''db'']) ''drop'' JNull []
      (CallToolInSessions demo_client (map snd (demo_sessions [(''read'', MCPToolPolicyAutoApprove), (''drop'', MCPToolPolicyDeny)])) ''drop'' JNull [''db''] [])
   \<and> allowed_call demo_client (demo_sessions [(''read'', MCPToolPolicyAutoApprove), (''drop'', MCPToolPolicyDeny)]) UNIV ''drop'' JNull []
      (CallTool demo_client (map snd (demo_sessions [(''read'', MCPToolPolicyAutoApprove), (''drop'', MCPToolPolicyDeny)])) ''drop'' JNull [])"
  by (rule mcp_calls_allowed [OF demo_mcp_reach refl])

text \<open>A server without policies runs mutating tools unasked: such a tool is reported as one that
  needs approval, but the check that agents make answers that it does not, and the call goes to
  the server.\<close>

lemma unpoliced_tools_run_unasked:
  assumes "mcp_reach C m w0" "mset ss = mset (map snd m)" "map_of m name = Some s" "mc_ToolPolicies (mx_cfg s) = []"
    and tool: "t \<in> set (mx_allTools s)" "\<not> mt_ReadOnlyHint t"
    and names: "inj_on sanitizeToolName (mt_Name ` set (mx_allTools s))"
  shows "\<lparr>tp_Name = mt_Name t, tp_Policy = MCPToolPolicyNeedsApprove, tp_ReadOnly = False\<rparr> \<in> set (GetToolsWithPolicies name m)
    \<and> \<not> MCPToolNeedsApproval ss (sanitizeToolName (mt_Name t)) [name]
    \<and> CallToolInSessions C ss (sanitizeToolName (mt_Name t)) args [name] w
        = apsnd (call_result (mt_Name t)) (cl_call C (mx_session s) (mt_Name t) args w)"
proof -
  have ok: "session_ok name s" using mcp_reach_ok [OF assms(1)] assms(3) by (simp add: sessions_ok_def)
  then have s: "mx_toolPolicies s = []" "mx_tools s = mx_allTools s" "mx_sanitizedToOriginal s = name_map (mx_allTools s)"
    using assms(4) by (simp_all add: session_ok_def policy_filter_def)
  obtain orig where "map_of (name_map (mx_allTools s)) (sanitizeToolName (mt_Name t)) = Some orig"
    using name_map_complete [OF tool(1)] by blast
  with name_map_sound [OF this] names tool(1) have "session_tool s (sanitizeToolName (mt_Name t)) = Some (mt_Name t)"
    using s by (auto simp: session_tool_def Let_def dest: inj_onD)
  then show ?thesis
    using tool assms(3) s in_scope_one [OF mcp_reach_ok [OF assms(1)] assms(2,3)]
    by (auto simp: GetToolsWithPolicies_def tool_with_policy_def MCPToolNeedsApproval_def CallToolInSessions_def denied_def image_iff)
qed

section \<open>Runs of agents\<close>

text \<open>The environment of an agent run whose MCP calls go to a manager; each of the three loops over
  the sessions visits them in an order of its own.\<close>

definition mcp_loop ::
  "('w, 'c) mcp_client \<Rightarrow> 'c mcpSession list \<Rightarrow> 'c mcpSession list \<Rightarrow> 'c mcpSession list \<Rightarrow> string list \<Rightarrow> 'w loop_env \<Rightarrow> 'w loop_env" where
  "mcp_loop C ss1 ss2 ss3 sessions E =
     E\<lparr>le_mcp_in_sessions := \<lambda>name. IsMCPToolInSessions ss1 name sessions,
       le_mcp_needs_approval := \<lambda>name. MCPToolNeedsApproval ss2 name sessions,
       le_mcp_call := \<lambda>name args w. CallToolInSessions C ss3 name args sessions w\<rparr>"

text \<open>Every name is offered by at most one session in scope.\<close>

definition one_offer :: "'c mcp_sessions \<Rightarrow> string list \<Rightarrow> bool" where
  "one_offer m sessions \<longleftrightarrow>
     (\<forall>toolName n1 n2 s1 s2. n1 \<in> set sessions \<and> n2 \<in> set sessions \<and> map_of m n1 = Some s1 \<and> map_of m n2 = Some s2
        \<and> session_tool s1 toolName \<noteq> None \<and> session_tool s2 toolName \<noteq> None \<longrightarrow> n1 = n2)"

text \<open>A client that treats every tool alike that does not need approval.\<close>

definition same_free_tools :: "('w, 'c) mcp_client \<Rightarrow> ('w, 'c) mcp_client \<Rightarrow> 'c mcp_sessions \<Rightarrow> bool" where
  "same_free_tools C C' m \<longleftrightarrow>
     (\<forall>name s orig. map_of m name = Some s \<and> map_of (mc_ToolPolicies (mx_cfg s)) orig \<noteq> Some MCPToolPolicyNeedsApprove
        \<longrightarrow> cl_call C' (mx_session s) orig = cl_call C (mx_session s) orig)"

lemma found_tool_unique:
  assumes "sessions_ok m" "one_offer m sessions" "mset ss = mset (map snd m)" "mset ss' = mset (map snd m)"
    and "find_tool toolName (in_scope sessions ss) = Some (s, orig)"
  shows "find_tool toolName (in_scope sessions ss') = Some (s, orig)"
proof -
  note found = find_tool_Some [OF assms(5)]
  have "set ss = set ss'" using assms(3,4) by (metis mset_eq_setD)
  with found have "s \<in> set (in_scope sessions ss')" by (simp add: in_scope_def)
  then obtain s' orig' where f': "find_tool toolName (in_scope sessions ss') = Some (s', orig')"
    using found find_tool_None [of toolName "in_scope sessions ss'"] by fastforce
  note found' = find_tool_Some [OF f']
  have "mx_name s = mx_name s'"
    using scoped_session [OF assms(1,3)] scoped_session [OF assms(1,4)] found found' assms(2)
    unfolding one_offer_def by (metis option.distinct(1))
  then have "s = s'"
    using scoped_session(1) [OF assms(1,3)] scoped_session(1) [OF assms(1,4)] found found' by (metis option.inject)
  with found found' f' show ?thesis by simp
qed

lemma free_call_same:
  assumes "sessions_ok m" "one_offer m sessions" "mset ss2 = mset (map snd m)" "mset ss3 = mset (map snd m)"
    and "same_free_tools C C' m" "\<not> MCPToolNeedsApproval ss2 name sessions"
  shows "CallToolInSessions C' ss3 name args sessions w = CallToolInSessions C ss3 name args sessions w"
proof (cases "find_tool name (in_scope sessions ss3)")
  case (Some found)
  then obtain s orig where f: "find_tool name (in_scope sessions ss3) = Some (s, orig)" by (cases found) auto
  have s: "map_of m (mx_name s) = Some s" "session_ok (mx_name s) s"
    using scoped_session [OF assms(1,4)] find_tool_Some [OF f] by auto
  have "map_of (mc_ToolPolicies (mx_cfg s)) orig \<noteq> Some MCPToolPolicyNeedsApprove" if "sessions \<noteq> []"
    using assms(6) found_tool_unique [OF assms(1,2,4,3) f] s(2) that
    by (auto simp: MCPToolNeedsApproval_def session_ok_def split: if_splits)
  with assms(5) s(1) f show ?thesis by (auto simp: CallToolInSessions_def same_free_tools_def)
qed (simp add: CallToolInSessions_def)

lemma dispatch_builtin_mcp_call: "dispatch_builtin (E\<lparr>le_mcp_call := f\<rparr>) = dispatch_builtin E"
proof -
  have "le_step (E\<lparr>le_mcp_call := f\<rparr>) = le_step E" "le_toolCtx (E\<lparr>le_mcp_call := f\<rparr>) = le_toolCtx E"
    "le_approval (E\<lparr>le_mcp_call := f\<rparr>) = le_approval E" "le_tool (E\<lparr>le_mcp_call := f\<rparr>) = le_tool E"
    "le_audit (E\<lparr>le_mcp_call := f\<rparr>) = le_audit E"
    by simp_all
  then show ?thesis unfolding dispatch_builtin_def by presburger
qed

lemma dispatch_mcp_same:
  assumes "never_approved E" "\<And>args w. \<not> le_mcp_needs_approval E name \<Longrightarrow> f name args w = le_mcp_call E name args w"
  shows "dispatch_mcp (E\<lparr>le_mcp_call := f\<rparr>) name args raw w = dispatch_mcp E name args raw w"
proof (cases "le_mcp_needs_approval E name")
  case True
  show ?thesis
  proof (cases "le_approval E")
    case (Some approve)
    then obtain w' reason where "approve name args (le_step E (StepTool name raw) w) = (w', Inl reason)"
      using assms(1) unfolding never_approved_def by blast
    with Some True show ?thesis by (simp add: dispatch_mcp_def Let_def)
  qed (simp add: dispatch_mcp_def Let_def True)
qed (simp add: dispatch_mcp_def Let_def assms(2))


definition demo_asks :: "tool_policies" where
  "demo_asks = [(''read'', MCPToolPolicyAutoApprove), (''drop'', MCPToolPolicyNeedsApprove)]"

definition demo_strict :: "((string \<times> string) list, string) mcp_client" where
  "demo_strict = demo_client\<lparr>cl_call := \<lambda>c n args w. if n = ''drop'' then ([], Inl ''destroyed'') else cl_call demo_client c n args w\<rparr>"

definition demo_refuser :: "(string \<times> string) list loop_env" where
  "demo_refuser = \<lparr>le_chat = (\<lambda>_ w. (w, Inr \<lparr>rs_Content = [], rs_ToolCalls = [\<lparr>tk_ID = ''1'', tk_Name = ''drop'', tk_Arguments = ''{}''\<rparr>],
                             rs_InputTokens = 5, rs_OutputTokens = 5, rs_FinishReason = ''tool_use''\<rparr>)),
     le_chat_plain = (\<lambda>_ w. (w, Inl ''offline'')), le_window = None, le_moves = True, le_ctx_err = (\<lambda>_. None),
     le_args = (\<lambda>_. Some (JObj [])), le_tool = (\<lambda>name _ _ w. (w, ''done'')), le_audit = (\<lambda>_ _ _ _ w. w),
     le_step = (\<lambda>_ w. w), le_progress = (\<lambda>_ _ w. w), le_approval = Some (\<lambda>_ _ w. (w, Inl ''rejected'')),
     le_mcp_in_sessions = (\<lambda>_. False), le_mcp_needs_approval = (\<lambda>_. False), le_mcp_call = (\<lambda>_ _ w. (w, Inl [])), le_toolCtx = None\<rparr>"


text \<open>With two servers that offer a tool under one name the sessions' order decides: the check can
  look at the server that lets the tool run freely while the call goes to the one that protects
  it.\<close>

definition offer :: "string \<Rightarrow> MCPToolPolicyType \<Rightarrow> string mcpSession" where
  "offer name p = \<lparr>mx_name = name, mx_session = name, mx_cfg = (demo_cfg [(''drop'', p)])\<lparr>mc_Name := name\<rparr>, mx_allTools = [demo_tool ''drop''],
     mx_tools = [demo_tool ''drop''], mx_sanitizedToOriginal = [(''drop'', ''drop'')], mx_toolPolicies = [(''drop'', p)]\<rparr>"

lemma approval_depends_on_visiting_order:
  defines "free \<equiv> offer ''a'' MCPToolPolicyAutoApprove" and "protected \<equiv> offer ''b'' MCPToolPolicyNeedsApprove"
  shows "session_ok ''a'' free" "session_ok ''b'' protected"
    and "\<not> MCPToolNeedsApproval [free, protected] ''drop'' [''a'', ''b'']"
    and "CallToolInSessions demo_client [protected, free] ''drop'' JNull [''a'', ''b''] [] = ([(''b'', ''drop'')], Inr ''ok'')"
proof -
  have san: "sanitizeToolName ''drop'' = ''drop''" by (simp add: sanitizeToolName_def tool_name_char_def less_eq_char_def)
  show "session_ok ''a'' free" "session_ok ''b'' protected"
    by (simp_all add: free_def protected_def offer_def session_ok_def demo_cfg_def policy_filter_def name_map_def demo_tool_def san)
  have found: "session_tool free ''drop'' = Some ''drop''" "session_tool protected ''drop'' = Some ''drop''"
    by (simp_all add: free_def protected_def offer_def session_tool_def demo_tool_def)
  have "mx_name free = ''a''" "mx_name protected = ''b''" "mx_toolPolicies free = [(''drop'', MCPToolPolicyAutoApprove)]"
    "mx_toolPolicies protected = [(''drop'', MCPToolPolicyNeedsApprove)]" "mx_session protected = ''b''"
    by (simp_all add: free_def protected_def offer_def)
  then show "\<not> MCPToolNeedsApproval [free, protected] ''drop'' [''a'', ''b'']"
    "CallToolInSessions demo_client [protected, free] ''drop'' JNull [''a'', ''b''] [] = ([(''b'', ''drop'')], Inr ''ok'')"
    using found
    by (simp_all add: MCPToolNeedsApproval_def in_scope_def CallToolInSessions_def denied_def demo_client_def call_result_def
        extractMCPText_def content_text_def Let_def)
qed

section \<open>Reconciled policies\<close>

text \<open>After a server whose spec is valid was reconciled at a new generation without an error, its
  session enforces the policies of that spec.\<close>

lemma Connect_success:
  "Connect C cfg m w = (m', w', None) \<Longrightarrow> \<exists>s. map_of m' (mc_Name cfg) = Some s \<and> mx_toolPolicies s = mc_ToolPolicies cfg"
  by (auto simp: Connect_def Let_def split: prod.splits sum.splits)

lemma buildMcpConfig_fields:
  "buildMcpConfig E tool = Inr cfg \<Longrightarrow> mc_Name cfg = sv_Name tool \<and> mc_ToolPolicies cfg = policy_map (sv_ToolPolicies tool)"
  by (auto simp: buildMcpConfig_def split: option.splits sum.splits)

lemma NotifyMcpServerChanged_policies:
  assumes "NotifyMcpServerChanged E C name m w = (m', w', None)" "mv_ownNamespace E = Some own"
    and "mv_getServer E own name = Some server" "sv_Name server = name"
  shows "\<exists>s. map_of m' name = Some s \<and> mx_toolPolicies s = policy_map (sv_ToolPolicies server)"
  using assms
  by (auto simp: NotifyMcpServerChanged_def split: sum.splits prod.splits option.splits
      dest!: Connect_success buildMcpConfig_fields)

text \<open>A spec that no longer passes the checks leaves the session of the previous one, with the
  previous policies, in place.\<close>

lemma invalid_spec_keeps_session:
  assumes "\<not> fst (evaluateMcpServer R server)"
  shows "fst (reconcileMcpServers R E err_text C False server status m w) = m"
  using assms by (auto simp: reconcileMcpServers_def Let_def split: prod.splits option.splits)

text \<open>Deleting a server object of any namespace closes the session of the same name.\<close>

lemma delete_ignores_namespace:
  "\<not> HasSession (sv_Name server) (fst (reconcileMcpServers R E err_text C True server status m w))"
  by (auto simp: reconcileMcpServers_def NotifyMcpServerDeleted_def RemoveSession_def HasSession_def split: prod.splits option.splits)

end
