(* ===== verification/AiChat.thy ===== *)
theory AiChat
  imports AiMcp
begin

text \<open>
  The interactive chat: \<open>ai/chat_loop.go\<close>, \<open>ai/tools_categories.go\<close> and \<open>dispatchToolCall\<close> of
  \<open>ai/tools_exec.go\<close> with the options of a chat.

  The model's stream, the output channel, tools, token accounting and the budget act on a world of
  arbitrary type. A turn has no bound of its own: it is a partial function whose \<open>None\<close> is a turn
  that never ends. Integer overflow of the token counters is left out.
\<close>

section \<open>Tool categories\<close>

record ActiveToolCategories =
  tc_KubernetesRead :: bool
  tc_KubernetesWrite :: bool
  tc_HelmRead :: bool
  tc_HelmWrite :: bool

definition NewActiveToolCategories :: ActiveToolCategories where
  "NewActiveToolCategories = \<lparr>tc_KubernetesRead = True, tc_KubernetesWrite = False, tc_HelmRead = False, tc_HelmWrite = False\<rparr>"

definition activateToolCategoriesName :: string where
  "activateToolCategoriesName = ''activate_tool_categories''"

text \<open>One name of the comma-separated list, with the names activated so far.\<close>

definition activate_one :: "ActiveToolCategories \<times> string list \<Rightarrow> string \<Rightarrow> ActiveToolCategories \<times> string list" where
  "activate_one st raw =
     (case st of (atc, activated) \<Rightarrow>
        (let cat = trim_space raw
         in if cat = ''KubernetesWrite'' then
              (if \<not> tc_KubernetesWrite atc then (atc\<lparr>tc_KubernetesWrite := True\<rparr>, activated @ [''KubernetesWrite'']) else st)
            else if cat = ''HelmRead'' then
              (if \<not> tc_HelmRead atc then (atc\<lparr>tc_HelmRead := True\<rparr>, activated @ [''HelmRead'']) else st)
            else if cat = ''HelmWrite'' then
              (if \<not> tc_HelmWrite atc then (atc\<lparr>tc_HelmWrite := True, tc_HelmRead := True\<rparr>, activated @ [''HelmWrite'']) else st)
            else st))"

definition ActivateFromToolCall :: "ActiveToolCategories \<Rightarrow> json \<Rightarrow> ActiveToolCategories \<times> string" where
  "ActivateFromToolCall atc args =
     (case foldl activate_one (atc, []) (split_on (CHR '','') (nested_string args [''categories''])) of
        (atc', activated) \<Rightarrow>
          (atc', if activated = [] then ''No new categories activated. Already active or unknown category names.''
                 else ''Activated: '' @ join '', '' activated @ ''. These tools are now available.''))"

datatype toolCategory = categoryKubernetesRead | categoryKubernetesWrite | categoryHelmRead | categoryHelmWrite

definition toolCategoryMap :: "(string, toolCategory) gomap" where
  "toolCategoryMap =
     [(''get_kubernetes_resources'', categoryKubernetesRead), (''list_kubernetes_resources'', categoryKubernetesRead),
      (''check_kubernetes_resource'', categoryKubernetesRead), (''get_pod_logs'', categoryKubernetesRead),
      (''get_pod_events'', categoryKubernetesRead),
      (''update_kubernetes_resource'', categoryKubernetesWrite), (''delete_kubernetes_resource'', categoryKubernetesWrite),
      (''create_kubernetes_resource'', categoryKubernetesWrite),
      (''helm_chart_search'', categoryHelmRead), (''helm_chart_show'', categoryHelmRead), (''helm_chart_versions'', categoryHelmRead),
      (''helm_repo_list'', categoryHelmRead), (''helm_release_list'', categoryHelmRead), (''helm_release_get'', categoryHelmRead),
      (''helm_release_history'', categoryHelmRead), (''helm_release_status'', categoryHelmRead),
      (''helm_release_get_workloads'', categoryHelmRead),
      (''helm_repo_add'', categoryHelmWrite), (''helm_repo_patch'', categoryHelmWrite), (''helm_repo_update'', categoryHelmWrite),
      (''helm_repo_remove'', categoryHelmWrite), (''helm_chart_install'', categoryHelmWrite), (''helm_oci_install'', categoryHelmWrite),
      (''helm_release_upgrade'', categoryHelmWrite), (''helm_release_uninstall'', categoryHelmWrite),
      (''helm_release_rollback'', categoryHelmWrite), (''helm_release_link'', categoryHelmWrite)]"

definition shouldIncludeTool :: "string \<Rightarrow> ActiveToolCategories \<Rightarrow> bool" where
  "shouldIncludeTool name cat =
     (case map_of toolCategoryMap name of
        None \<Rightarrow> True
      | Some categoryKubernetesRead \<Rightarrow> tc_KubernetesRead cat
      | Some categoryKubernetesWrite \<Rightarrow> tc_KubernetesWrite cat
      | Some categoryHelmRead \<Rightarrow> tc_HelmRead cat
      | Some categoryHelmWrite \<Rightarrow> tc_HelmWrite cat)"

definition filterAiSDKToolsByCategory :: "string list \<Rightarrow> ActiveToolCategories \<Rightarrow> string list" where
  "filterAiSDKToolsByCategory tools cat = filter (\<lambda>t. shouldIncludeTool t cat) tools"

section \<open>One tool call\<close>

record ToolUseRecord =
  ur_Tool :: string
  ur_Args :: json
  ur_Result :: string
  ur_Error :: string

definition truncateToolResult :: "string \<Rightarrow> string" where
  "truncateToolResult s = (if length s \<le> 2000 then s else take 2000 s @ ''... (truncated)'')"

text \<open>A streamed piece of an answer; the last one carries the tool calls.\<close>

record chunk =
  ck_Err :: "string option"
  ck_ToolCallName :: string
  ck_Content :: string
  ck_InputTokens :: int
  ck_OutputTokens :: int
  ck_Done :: bool
  ck_ToolCalls :: "ToolCall list"

text \<open>Sending to the output waits until the text is taken or the context ends, which is an error.\<close>

record 'w chat_env =
  ce_stream :: "Message list \<Rightarrow> string list \<Rightarrow> 'w \<Rightarrow> 'w \<times> (string + chunk list)"
  ce_send :: "string \<Rightarrow> 'w \<Rightarrow> 'w \<times> string option"
  ce_tokens_text :: "int \<Rightarrow> int \<Rightarrow> int \<Rightarrow> int \<Rightarrow> string"
  ce_ctx_err :: "'w \<Rightarrow> string option"
  ce_args :: "string \<Rightarrow> string + json"
  ce_tool :: "string \<Rightarrow> json \<Rightarrow> ToolContext option \<Rightarrow> 'w \<Rightarrow> 'w \<times> string"
  ce_is_mcp :: "string \<Rightarrow> 'w \<Rightarrow> bool"
  ce_mcp_call :: "string \<Rightarrow> json \<Rightarrow> 'w \<Rightarrow> 'w \<times> (string + string)"
  ce_usage :: "int \<Rightarrow> string \<Rightarrow> 'w \<Rightarrow> 'w"
  ce_budget :: "'w \<Rightarrow> 'w \<times> string option"
  ce_audit :: "string \<Rightarrow> string option \<Rightarrow> ToolUseRecord list \<Rightarrow> int \<Rightarrow> int \<Rightarrow> string \<Rightarrow> 'w \<Rightarrow> 'w"
  ce_user :: "User option"
  ce_toolCtx :: "ToolContext option"
  ce_role :: "string option"
  ce_mcp_tools :: "string list"

definition recordStat :: "string \<Rightarrow> json \<Rightarrow> string \<Rightarrow> string \<Rightarrow> ToolUseRecord list \<Rightarrow> ToolUseRecord list" where
  "recordStat name args result errStr records =
     records @ [if errStr \<noteq> [] then \<lparr>ur_Tool = name, ur_Args = args, ur_Result = [], ur_Error = errStr\<rparr>
                else \<lparr>ur_Tool = name, ur_Args = args, ur_Result = truncateToolResult result, ur_Error = []\<rparr>]"

text \<open>\<open>dispatchToolCall\<close> with the options of a chat: categories and statistics are kept, nothing is
  intercepted, MCP calls go to any server, unknown tools are answered. \<open>recorder\<close> says whether the
  options hold a step recorder: the branch of the built-in tools calls it before anything else,
  and a call through the nil interface panics.\<close>

definition chat_dispatch ::
  "bool \<Rightarrow> 'w chat_env \<Rightarrow> string \<Rightarrow> json \<Rightarrow> ActiveToolCategories \<Rightarrow> ToolUseRecord list \<Rightarrow> 'w
    \<Rightarrow> 'w \<times> ActiveToolCategories \<times> ToolUseRecord list \<times> toolOutcome" where
  "chat_dispatch recorder E name args cat records w =
     (if name = activateToolCategoriesName then
        (case ActivateFromToolCall cat args of (cat', result) \<Rightarrow> (w, cat', recordStat name args result [] records, Result result))
      else if name \<in> set toolDefinitions then
        (if \<not> recorder then (w, cat, records, Panic)
         else case ce_tool E name args (ce_toolCtx E) w of
                (w1, result) \<Rightarrow> (w1, cat, recordStat name args result [] records, Result result))
      else if ce_is_mcp E name w then
        (case ce_mcp_call E name args w of
           (w1, Inl e) \<Rightarrow> (let toolErr = ''Error calling MCP tool: '' @ e in (w1, cat, recordStat name args [] toolErr records, Result toolErr))
         | (w1, Inr result) \<Rightarrow> (w1, cat, recordStat name args result [] records, Result result))
      else (w, cat, records, Result (''Unknown tool: '' @ name)))"

section \<open>One turn\<close>

record chat_state =
  cs_messages :: "Message list"
  cs_categories :: ActiveToolCategories
  cs_records :: "ToolUseRecord list"
  cs_in :: int
  cs_out :: int
  cs_count :: int

datatype turn_end = TurnOk string | TurnErr string | TurnPanic

text \<open>Reading the stream: text is collected and passed on, token counts are overwritten, the tool
  calls come with the piece that is marked done.\<close>

fun read_stream ::
  "'w chat_env \<Rightarrow> chunk list \<Rightarrow> string \<Rightarrow> ToolCall list \<Rightarrow> int \<Rightarrow> int \<Rightarrow> 'w \<Rightarrow> 'w \<times> (string + string \<times> ToolCall list \<times> int \<times> int)" where
  "read_stream E [] fullText calls tin tout w = (w, Inr (fullText, calls, tin, tout))"
| "read_stream E (c # cs) fullText calls tin tout w =
     (case ck_Err c of
        Some e \<Rightarrow> (w, Inl e)
      | None \<Rightarrow>
          (case (if ck_ToolCallName c \<noteq> [] then ce_send E ([CHR 0x0A] @ ''[Using tool: '' @ ck_ToolCallName c @ '']'' @ [CHR 0x0A]) w
                 else (w, None)) of
             (w1, Some e) \<Rightarrow> (w1, Inl e)
           | (w1, None) \<Rightarrow>
               (case (if ck_Content c \<noteq> [] then ce_send E (ck_Content c) w1 else (w1, None)) of
                  (w2, Some e) \<Rightarrow> (w2, Inl e)
                | (w2, None) \<Rightarrow>
                    read_stream E cs (fullText @ ck_Content c) (if ck_Done c then ck_ToolCalls c else calls)
                      (if ck_InputTokens c > 0 then ck_InputTokens c else tin)
                      (if ck_OutputTokens c > 0 then ck_OutputTokens c else tout) w2)))"

definition tool_message :: "ToolCall \<Rightarrow> string \<Rightarrow> Message" where
  "tool_message tc content = (text_message RoleTool content)\<lparr>ms_ToolCallID := tk_ID tc, ms_ToolName := tk_Name tc\<rparr>"

fun chat_tools :: "bool \<Rightarrow> 'w chat_env \<Rightarrow> ToolCall list \<Rightarrow> chat_state \<Rightarrow> 'w \<Rightarrow> 'w \<times> chat_state \<times> turn_end option" where
  "chat_tools recorder E [] st w = (w, st, None)"
| "chat_tools recorder E (tc # tcs) st w =
     (case ce_ctx_err E w of
        Some e \<Rightarrow> (w, st, Some (TurnErr e))
      | None \<Rightarrow>
          (case ce_args E (tk_Arguments tc) of
             Inl e \<Rightarrow> chat_tools recorder E tcs (st\<lparr>cs_messages := cs_messages st @ [tool_message tc (''Error parsing arguments: '' @ e)]\<rparr>) w
           | Inr args \<Rightarrow>
               (case chat_dispatch recorder E (tk_Name tc) args (cs_categories st) (cs_records st) w of
                  (w1, cat, records, Result content) \<Rightarrow>
                    chat_tools recorder E tcs
                      (st\<lparr>cs_messages := cs_messages st @ [tool_message tc content], cs_categories := cat, cs_records := records\<rparr>) w1
                | (w1, cat, records, Fatal e) \<Rightarrow> (w1, st\<lparr>cs_categories := cat, cs_records := records\<rparr>, Some (TurnErr e))
                | (w1, cat, records, Panic) \<Rightarrow> (w1, st\<lparr>cs_categories := cat, cs_records := records\<rparr>, Some TurnPanic))))"

definition chat_key :: "User option \<Rightarrow> string" where
  "chat_key u = (case u of Some user \<Rightarrow> if u_Email user \<noteq> [] then ''chat:'' @ u_Email user else ''chat'' | None \<Rightarrow> ''chat'')"

datatype 'w chat_step = TurnEnded 'w chat_state turn_end | TurnAgain chat_state 'w

text \<open>One round: offer the tools of the active categories, stream the answer, account for its tokens,
  append it, and run its tool calls unless the limit is reached.\<close>

definition chat_round :: "bool \<Rightarrow> 'w chat_env \<Rightarrow> string list \<Rightarrow> int \<Rightarrow> chat_state \<Rightarrow> 'w \<Rightarrow> 'w chat_step" where
  "chat_round recorder E allTools maxToolCalls st w =
     (case ce_send E (''[AI is thinking...]'' @ [CHR 0x0A]) w of
        (w1, Some e) \<Rightarrow> TurnEnded w1 st (TurnErr e)
      | (w1, None) \<Rightarrow>
          (case ce_stream E (cs_messages st) (filterAiSDKToolsByCategory allTools (cs_categories st)) w1 of
             (w2, Inl e) \<Rightarrow> TurnEnded w2 st (TurnErr e)
           | (w2, Inr chunks) \<Rightarrow>
               (case read_stream E chunks [] [] 0 0 w2 of
                  (w3, Inl e) \<Rightarrow> TurnEnded w3 st (TurnErr e)
                | (w3, Inr (fullText, toolCalls, tin, tout)) \<Rightarrow>
                    (let st1 = st\<lparr>cs_in := cs_in st + tin, cs_out := cs_out st + tout\<rparr>;
                         w4 = fst (ce_send E (ce_tokens_text E tin tout (cs_in st1) (cs_out st1)) w3);
                         w5 = ce_usage E (tin + tout) (chat_key (ce_user E)) w4
                     in case ce_send E [CHR 0x0A, CHR 0x0A] w5 of
                          (w6, Some e) \<Rightarrow> TurnEnded w6 st1 (TurnErr e)
                        | (w6, None) \<Rightarrow>
                            (let answer = (text_message RoleAssistant fullText)\<lparr>ms_ToolCalls := toolCalls\<rparr>;
                                 st2 = st1\<lparr>cs_messages := cs_messages st1 @ [answer]\<rparr>;
                                 count = cs_count st2 + int (length toolCalls);
                                 text = (if fullText = [] then ''[Tool call limit reached]'' else fullText)
                             in if toolCalls = [] then TurnEnded w6 st2 (TurnOk fullText)
                                else if maxToolCalls > 0 \<and> count \<ge> maxToolCalls then
                                  TurnEnded w6 (st1\<lparr>cs_messages := cs_messages st1 @ [text_message RoleAssistant text], cs_count := count\<rparr>) (TurnOk text)
                                else case chat_tools recorder E toolCalls (st2\<lparr>cs_count := count\<rparr>) w6 of
                                       (w7, st3, Some e) \<Rightarrow> TurnEnded w7 st3 e
                                     | (w7, st3, None) \<Rightarrow> TurnAgain st3 w7)))))"

partial_function (option) runChatTurn ::
  "bool \<Rightarrow> 'w chat_env \<Rightarrow> string list \<Rightarrow> int \<Rightarrow> chat_state \<Rightarrow> 'w \<Rightarrow> ('w \<times> chat_state \<times> turn_end) option" where
  "runChatTurn recorder E allTools maxToolCalls st w =
     (case chat_round recorder E allTools maxToolCalls st w of
        TurnEnded w' st' e \<Rightarrow> Some (w', st', e)
      | TurnAgain st' w' \<Rightarrow> runChatTurn recorder E allTools maxToolCalls st' w')"

section \<open>A session\<close>

definition kubernetesAiSDKTools :: "string list" where
  "kubernetesAiSDKTools =
     [''get_kubernetes_resources'', ''list_kubernetes_resources'', ''check_kubernetes_resource'', ''update_kubernetes_resource'',
      ''delete_kubernetes_resource'', ''create_kubernetes_resource'', ''get_pod_logs'', ''get_pod_events'']"

definition helmAiSDKTools :: "string list" where
  "helmAiSDKTools =
     [''helm_repo_add'', ''helm_repo_patch'', ''helm_repo_update'', ''helm_repo_list'', ''helm_repo_remove'', ''helm_chart_search'',
      ''helm_chart_install'', ''helm_oci_install'', ''helm_chart_show'', ''helm_chart_versions'', ''helm_release_upgrade'',
      ''helm_release_uninstall'', ''helm_release_list'', ''helm_release_status'', ''helm_release_history'', ''helm_release_rollback'',
      ''helm_release_get'', ''helm_release_link'', ''helm_release_get_workloads'']"

definition isViewerRole :: "'w chat_env \<Rightarrow> bool" where
  "isViewerRole E \<longleftrightarrow> ce_role E = Some ''viewer''"

definition session_tools :: "'w chat_env \<Rightarrow> string list" where
  "session_tools E =
     filterAiSDKTools (ce_role E)
       (kubernetesAiSDKTools @ helmAiSDKTools @ (if isViewerRole E then [] else [activateToolCategoriesName]) @ ce_mcp_tools E)"

record chat_session =
  ch_messages :: "Message list"
  ch_categories :: ActiveToolCategories
  ch_in :: int
  ch_out :: int

definition new_session :: "string \<Rightarrow> chat_session" where
  "new_session systemPrompt =
     \<lparr>ch_messages = [(text_message RoleSystem systemPrompt)\<lparr>ms_CacheControl := True\<rparr>], ch_categories = NewActiveToolCategories,
      ch_in = 0, ch_out = 0\<rparr>"

datatype session_end = SessionErr string | SessionPanic

text \<open>Two texts in a row, for the budget message and its completion marker.\<close>

definition send_both :: "'w chat_env \<Rightarrow> string \<Rightarrow> string \<Rightarrow> 'w \<Rightarrow> 'w \<times> string option" where
  "send_both E a b w = (case ce_send E a w of (w1, Some e) \<Rightarrow> (w1, Some e) | (w1, None) \<Rightarrow> ce_send E b w1)"

definition turn_state :: "chat_session \<Rightarrow> string \<Rightarrow> chat_state" where
  "turn_state S userInput =
     \<lparr>cs_messages = ch_messages S @ [text_message RoleUser userInput], cs_categories = ch_categories S, cs_records = [],
      cs_in = ch_in S, cs_out = ch_out S, cs_count = 0\<rparr>"

text \<open>One input of the user. The history keeps the question and, of a turn that succeeded, only its
  last message.\<close>

definition chat_input ::
  "bool \<Rightarrow> 'w chat_env \<Rightarrow> int \<Rightarrow> string \<Rightarrow> chat_session \<Rightarrow> 'w \<Rightarrow> ('w \<times> chat_session \<times> session_end option) option" where
  "chat_input recorder E maxToolCalls userInput S w =
     (case ce_budget E w of
        (w1, Some msg) \<Rightarrow>
          Some (case send_both E ([CHR 0x0A] @ ''[Error: '' @ msg @ '']'') ''[COMPLETED]'' w1 of
                  (w2, Some e) \<Rightarrow> (w2, S, Some (SessionErr e)) | (w2, None) \<Rightarrow> (w2, S, None))
      | (w1, None) \<Rightarrow>
          Option.bind (runChatTurn recorder E (session_tools E) maxToolCalls (turn_state S userInput) w1) (\<lambda>(w2, st, e).
            let S1 = S\<lparr>ch_messages := ch_messages S @ [text_message RoleUser userInput], ch_categories := cs_categories st,
                       ch_in := cs_in st, ch_out := cs_out st\<rparr>;
                tin = cs_in st - ch_in S; tout = cs_out st - ch_out S
            in case e of
                 TurnPanic \<Rightarrow> Some (w2, S1, Some SessionPanic)
               | TurnErr err \<Rightarrow>
                   Some (case ce_send E ([CHR 0x0A] @ ''[Error: '' @ err @ '']'')
                                (ce_audit E userInput None (cs_records st) tin tout err w2) of
                           (w3, Some e') \<Rightarrow> (w3, S1, Some (SessionErr e')) | (w3, None) \<Rightarrow> (w3, S1, None))
               | TurnOk text \<Rightarrow>
                   Some (case ce_send E ''[COMPLETED]''
                                (ce_audit E userInput (Some (truncateToolResult text)) (cs_records st) tin tout [] w2) of
                           (w3, r) \<Rightarrow> (w3, S1\<lparr>ch_messages := ch_messages S1 @ [last (cs_messages st)]\<rparr>, map_option SessionErr r))))"

text \<open>The inputs of a session until its channel is closed.\<close>

fun runChatSession ::
  "bool \<Rightarrow> 'w chat_env \<Rightarrow> int \<Rightarrow> string list \<Rightarrow> chat_session \<Rightarrow> 'w \<Rightarrow> ('w \<times> chat_session \<times> session_end option) option" where
  "runChatSession recorder E maxToolCalls [] S w = Some (w, S, None)"
| "runChatSession recorder E maxToolCalls (i # is) S w =
     (case ce_ctx_err E w of
        Some e \<Rightarrow> Some (w, S, Some (SessionErr e))
      | None \<Rightarrow>
          (case chat_input recorder E maxToolCalls i S w of
             None \<Rightarrow> None
           | Some (w1, S1, Some e) \<Rightarrow> Some (w1, S1, Some e)
           | Some (w1, S1, None) \<Rightarrow> runChatSession recorder E maxToolCalls is S1 w1))"

text \<open>The options a chat passes to the dispatch hold no step recorder.\<close>

definition chat_recorder :: bool where
  "chat_recorder = False"

section \<open>Tools that are offered\<close>

lemma categories_cover_tools: "set (map fst toolCategoryMap) = set toolDefinitions" "wf_map toolCategoryMap"
  by code_simp+

text \<open>Categories stay on once they are on.\<close>

definition extends :: "ActiveToolCategories \<Rightarrow> ActiveToolCategories \<Rightarrow> bool" where
  "extends a b \<longleftrightarrow> tc_KubernetesRead b = tc_KubernetesRead a \<and> (tc_KubernetesWrite a \<longrightarrow> tc_KubernetesWrite b) \<and>
     (tc_HelmRead a \<longrightarrow> tc_HelmRead b) \<and> (tc_HelmWrite a \<longrightarrow> tc_HelmWrite b)"

lemma extends_refl [simp]: "extends a a" by (simp add: extends_def)

lemma extends_trans: "extends a b \<Longrightarrow> extends b c \<Longrightarrow> extends a c" by (auto simp: extends_def)

lemma activate_extends: "extends a (fst (ActivateFromToolCall a args))"
proof -
  have "extends a (fst (foldl activate_one (a, done) cats))" for "done" cats
  proof (induction cats arbitrary: a "done")
    case (Cons c cs)
    have "extends a (fst (activate_one (a, done) c))" by (auto simp: activate_one_def extends_def Let_def)
    moreover obtain b done' where "activate_one (a, done) c = (b, done')" by fastforce
    ultimately show ?case using Cons.IH [of b done'] by (auto intro: extends_trans)
  qed simp
  then show ?thesis by (simp add: ActivateFromToolCall_def split: prod.split) (metis fst_conv)
qed

lemma dispatch_extends:
  "chat_dispatch recorder E name args cat records w = (w', cat', records', out) \<Longrightarrow> extends cat cat'"
  using activate_extends [of cat args]
  by (auto simp: chat_dispatch_def Let_def split: if_splits prod.splits sum.splits)

lemma chat_tools_extends: "chat_tools recorder E tcs st w = (w', st', e) \<Longrightarrow> extends (cs_categories st) (cs_categories st')"
proof (induction tcs arbitrary: st w)
  case (Cons tc tcs)
  then show ?case
    by (fastforce split: option.splits sum.splits prod.splits toolOutcome.splits dest: dispatch_extends intro: extends_trans)
qed simp

section \<open>A turn ends\<close>

fun chat_rounds ::
  "nat \<Rightarrow> bool \<Rightarrow> 'w chat_env \<Rightarrow> string list \<Rightarrow> int \<Rightarrow> chat_state \<Rightarrow> 'w \<Rightarrow> ('w \<times> chat_state \<times> turn_end) option" where
  "chat_rounds 0 recorder E allTools maxToolCalls st w = None"
| "chat_rounds (Suc n) recorder E allTools maxToolCalls st w =
     (case chat_round recorder E allTools maxToolCalls st w of
        TurnEnded w' st' e \<Rightarrow> Some (w', st', e)
      | TurnAgain st' w' \<Rightarrow> chat_rounds n recorder E allTools maxToolCalls st' w')"

lemma chat_rounds_turn: "chat_rounds n r E ts m st w = Some out \<Longrightarrow> runChatTurn r E ts m st w = Some out"
proof (induction n arbitrary: st w)
  case (Suc n)
  then show ?case by (auto simp: runChatTurn.simps [of r E ts m st w] split: chat_step.splits)
qed simp

lemma chat_tools_count: "chat_tools r E tcs st w = (w', st', e) \<Longrightarrow> cs_count st' = cs_count st"
proof (induction tcs arbitrary: st w)
  case (Cons tc tcs)
  then show ?case by (fastforce split: option.splits sum.splits prod.splits toolOutcome.splits)
qed simp

lemma chat_round_again:
  assumes "chat_round r E ts m st w = TurnAgain st' w'"
  shows "cs_count st < cs_count st'" and "m > 0 \<Longrightarrow> cs_count st' < m"
  using assms
  by (auto simp: chat_round_def Let_def split: prod.splits option.splits sum.splits if_splits dest!: chat_tools_count)

lemma chat_rounds_enough:
  "m > 0 \<Longrightarrow> 0 < n \<Longrightarrow> m - cs_count st \<le> int n \<Longrightarrow> \<exists>out. chat_rounds n r E ts m st w = Some out"
proof (induction n arbitrary: st w)
  case (Suc n)
  show ?case
  proof (cases "chat_round r E ts m st w")
    case (TurnAgain st' w')
    with chat_round_again [OF TurnAgain] Suc.prems have "m - cs_count st' \<le> int n" "0 < n" by auto
    with Suc.IH Suc.prems TurnAgain show ?thesis by auto
  qed simp
qed simp

text \<open>What holds after every round of a turn holds at its end.\<close>

lemma chat_rounds_induct [consumes 1, case_names ended again]:
  assumes "chat_rounds n r E ts m st w = Some (w', st', e)"
    and "\<And>st w w' st' e. chat_round r E ts m st w = TurnEnded w' st' e \<Longrightarrow> P st st' e"
    and "\<And>st w st1 w1 st' e. chat_round r E ts m st w = TurnAgain st1 w1 \<Longrightarrow> P st1 st' e \<Longrightarrow> P st st' e"
  shows "P st st' e"
  using assms(1)
proof (induction n arbitrary: st w)
  case (Suc n)
  then show ?case by (auto split: chat_step.splits intro: assms(2,3))
qed simp

section \<open>The history\<close>

text \<open>After the system prompt a history holds questions and answers without tool calls.\<close>

definition plain :: "Message \<Rightarrow> bool" where
  "plain x \<longleftrightarrow> ms_Role x \<in> {RoleUser, RoleAssistant} \<and> ms_ToolCalls x = []"

definition clean_history :: "Message list \<Rightarrow> bool" where
  "clean_history msgs \<longleftrightarrow> msgs \<noteq> [] \<and> ms_Role (hd msgs) = RoleSystem \<and> list_all plain (tl msgs)"

lemma clean_history_snoc: "clean_history msgs \<Longrightarrow> plain x \<Longrightarrow> clean_history (msgs @ [x])"
  by (cases msgs) (auto simp: clean_history_def)

lemma clean_history_snoc2: "clean_history msgs \<Longrightarrow> plain x \<Longrightarrow> plain y \<Longrightarrow> clean_history (msgs @ [x, y])"
  by (cases msgs) (auto simp: clean_history_def)

lemma chat_tools_not_ok: "chat_tools r E tcs st w = (w', st', Some e) \<Longrightarrow> e \<noteq> TurnOk text"
proof (induction tcs arbitrary: st w)
  case (Cons tc tcs)
  then show ?case by (auto split: option.splits sum.splits prod.splits toolOutcome.splits)
qed simp

lemma turn_answer:
  assumes "chat_rounds n r E ts m st w = Some (w', st', TurnOk text)"
  shows "last (cs_messages st') = text_message RoleAssistant text"
proof -
  have "e = TurnOk text \<longrightarrow> last (cs_messages st') = text_message RoleAssistant text"
    if "chat_round r E ts m st w = TurnEnded w' st' e" for st w w' st' e
    using that
    by (auto simp: chat_round_def Let_def text_message_def split: prod.splits option.splits sum.splits if_splits
        dest: chat_tools_not_ok)
  then have "TurnOk text = TurnOk text \<longrightarrow> last (cs_messages st') = text_message RoleAssistant text"
    by (induction rule: chat_rounds_induct [OF assms]) auto
  then show ?thesis by simp
qed

lemma plain_text [simp]: "plain (text_message RoleUser t)" "plain (text_message RoleAssistant t)"
  by (simp_all add: plain_def text_message_def)

lemma chat_input_clean:
  assumes "m > 0" "clean_history (ch_messages S)" "chat_input r E m i S w = Some (w', S', e)"
  shows "clean_history (ch_messages S')"
proof -
  obtain w1 budget where budget: "ce_budget E w = (w1, budget)" by fastforce
  show ?thesis
  proof (cases budget)
    case None
    obtain w2 st te where turn: "chat_rounds (nat m) r E (session_tools E) m (turn_state S i) w1 = Some (w2, st, te)"
      using chat_rounds_enough [of m "nat m" "turn_state S i"] assms(1) by (fastforce simp: turn_state_def)
    have "te = TurnOk t \<Longrightarrow> plain (last (cs_messages st))" for t
      using turn_answer [of "nat m" r E "session_tools E" m "turn_state S i" w1 w2 st t] turn by simp
    with assms(2,3) budget None chat_rounds_turn [OF turn] show ?thesis
      by (auto simp: chat_input_def Let_def split: turn_end.splits prod.splits option.splits intro!: clean_history_snoc clean_history_snoc2)
  qed (use assms(2,3) budget in \<open>auto simp: chat_input_def split: prod.splits option.splits\<close>)
qed

lemma runChatSession_clean:
  "m > 0 \<Longrightarrow> clean_history (ch_messages S) \<Longrightarrow> runChatSession r E m is S w = Some (w', S', e) \<Longrightarrow> clean_history (ch_messages S')"
proof (induction "is" arbitrary: S w)
  case (Cons i "is")
  then show ?case by (auto split: option.splits prod.splits intro: chat_input_clean)
qed simp

lemma chat_input_returns:
  assumes "m > 0"
  shows "chat_input r E m i S w \<noteq> None"
proof -
  obtain w1 budget where budget: "ce_budget E w = (w1, budget)" by fastforce
  obtain w2 st te where turn: "chat_rounds (nat m) r E (session_tools E) m (turn_state S i) w1 = Some (w2, st, te)"
    using chat_rounds_enough [of m "nat m" "turn_state S i"] assms by (fastforce simp: turn_state_def)
  show ?thesis
    by (cases budget; cases te) (simp_all add: chat_input_def budget chat_rounds_turn [OF turn] Let_def)
qed

lemma runChatSession_returns: "m > 0 \<Longrightarrow> \<exists>out. runChatSession r E m is S w = Some out"
proof (induction "is" arbitrary: S w)
  case (Cons i "is")
  obtain w1 S1 e where "chat_input r E m i S w = Some (w1, S1, e)" using chat_input_returns [OF Cons.prems, of r E i S w] by auto
  with Cons show ?case by (auto split: option.splits)
qed simp

section \<open>Properties\<close>


text \<open>A model that looks up a resource in its first answer.\<close>

definition demo_answer :: "ToolCall list \<Rightarrow> string \<Rightarrow> chunk list" where
  "demo_answer calls content = [\<lparr>ck_Err = None, ck_ToolCallName = [], ck_Content = content, ck_InputTokens = 7, ck_OutputTokens = 3,
     ck_Done = True, ck_ToolCalls = calls\<rparr>]"

definition demo_lookup :: ToolCall where
  "demo_lookup = \<lparr>tk_ID = ''1'', tk_Name = ''get_kubernetes_resources'', tk_Arguments = ''{}''\<rparr>"

definition demo_chat :: "string list chat_env" where
  "demo_chat = \<lparr>ce_stream = (\<lambda>ms tools w. (w, Inr (demo_answer [demo_lookup] ''let me look''))), ce_send = (\<lambda>t w. (w @ [t], None)),
     ce_tokens_text = (\<lambda>_ _ _ _. ''[TOKENS]''), ce_ctx_err = (\<lambda>_. None), ce_args = (\<lambda>_. Inr (JObj [])),
     ce_tool = (\<lambda>_ _ _ w. (w, ''found'')), ce_is_mcp = (\<lambda>_ _. False), ce_mcp_call = (\<lambda>_ _ w. (w, Inl [])), ce_usage = (\<lambda>_ _ w. w),
     ce_budget = (\<lambda>w. (w, None)), ce_audit = (\<lambda>_ _ _ _ _ _ w. w), ce_user = None, ce_toolCtx = None, ce_role = None, ce_mcp_tools = []\<rparr>"


section \<open>Built-in tools\<close>

lemma dispatch_builtin_panics:
  "name \<in> set toolDefinitions \<Longrightarrow> chat_dispatch chat_recorder E name args cat records w = (w, cat, records, Panic)"
proof -
  have "activateToolCategoriesName \<notin> set toolDefinitions" by code_simp
  then show "name \<in> set toolDefinitions \<Longrightarrow> ?thesis" by (auto simp: chat_dispatch_def chat_recorder_def)
qed

text \<open>No built-in tool works in a chat: as soon as an answer within the limits asks for one with
  arguments that parse, after tool calls that went through, the turn panics: the dispatch calls
  the step recorder, which the chat does not set.\<close>

lemma chat_builtin_tool_panics:
  assumes "chat_tools chat_recorder E before st w0 = (w, st1, None)" "ce_ctx_err E w = None"
    and "tk_Name tc \<in> set toolDefinitions" "ce_args E (tk_Arguments tc) = Inr args"
  shows "chat_tools chat_recorder E (before @ tc # after) st w0 = (w, st1, Some TurnPanic)"
  using assms(1)
proof (induction before arbitrary: st w0)
  case Nil
  with assms(2-4) show ?case by (simp add: dispatch_builtin_panics)
next
  case (Cons b before)
  then show ?case by (auto split: option.splits sum.splits prod.splits toolOutcome.splits)
qed

text \<open>A whole session with such a model ends in a panic.\<close>

lemma demo_session_panics:
  "\<exists>w S. runChatSession chat_recorder demo_chat 5 [''hello''] (new_session ''be brief'') [] = Some (w, S, Some SessionPanic)"
proof -
  have panics: "chat_dispatch chat_recorder demo_chat ''get_kubernetes_resources'' args cat records w = (w, cat, records, Panic)"
    for args cat records w
    by (rule dispatch_builtin_panics) (simp add: toolDefinitions_def kubernetesToolDefinitions_def)
  have fields: "ce_ctx_err demo_chat = (\<lambda>_. None)" "ce_args demo_chat = (\<lambda>_. Inr (JObj []))" "ce_send demo_chat = (\<lambda>t w. (w @ [t], None))"
    "ce_stream demo_chat = (\<lambda>ms tools w. (w, Inr (demo_answer [demo_lookup] ''let me look'')))" "ce_budget demo_chat = (\<lambda>w. (w, None))"
    by (simp_all add: demo_chat_def)
  have "\<exists>w' st. chat_round chat_recorder demo_chat tools 5 (turn_state S i) w = TurnEnded w' st TurnPanic" for tools S i w
    by (simp add: chat_round_def fields demo_answer_def demo_lookup_def turn_state_def panics Let_def)
  then have "\<exists>w' st. runChatTurn chat_recorder demo_chat tools 5 (turn_state S i) w = Some (w', st, TurnPanic)" for tools S i w
    by (subst runChatTurn.simps) (metis chat_step.simps(5))
  then obtain w' st where
    "runChatTurn chat_recorder demo_chat (session_tools demo_chat) 5 (turn_state (new_session ''be brief'') ''hello'') [] = Some (w', st, TurnPanic)"
    by blast
  then show ?thesis by (simp add: chat_input_def fields Let_def)
qed

section \<open>What a model is offered\<close>

text \<open>A viewer's model is only offered tools a viewer may use; a tool that writes is only offered in a
  category that was activated.\<close>

lemma viewer_offers: "isViewerRole E \<Longrightarrow> set (filterAiSDKToolsByCategory (session_tools E) cat) \<subseteq> set viewerAllowedTools"
  by (auto simp: filterAiSDKToolsByCategory_def session_tools_def filterAiSDKTools_def isViewerRole_def)

lemma write_tools_offered_when_active:
  assumes "t \<in> set (filterAiSDKToolsByCategory tools cat)"
  shows "map_of toolCategoryMap t = Some categoryKubernetesWrite \<Longrightarrow> tc_KubernetesWrite cat"
    and "map_of toolCategoryMap t = Some categoryHelmWrite \<Longrightarrow> tc_HelmWrite cat"
  using assms by (auto simp: filterAiSDKToolsByCategory_def shouldIncludeTool_def)

end
