(* ===== verification/AiSteps.thy ===== *)
theory AiSteps
  imports Prelude
begin

text \<open>
  The timeline of an agent run: \<open>ai/runsteps.go\<close>.

  Steps are only appended, so a pointer to a step is its position. A finalizer is a closure over
  such a pointer and over the length limit that was configured when the step was recorded; it may
  be called at any later time, more than once, and interleaved with other steps. Every operation
  runs under the recorder's mutex and rewrites the whole stored list, which fails when the
  database is not reachable.
\<close>

section \<open>Steps\<close>

datatype AiRunStepKind = AI_RUN_STEP_REASON | AI_RUN_STEP_ACT | AI_RUN_STEP_COMPACTION

datatype AiRunStepStatus = AiRunStepStatusRunning | AiRunStepStatusFinished | AiRunStepStatusErrored

record AiRunStep =
  sp_Seq :: nat
  sp_Kind :: AiRunStepKind
  sp_Status :: AiRunStepStatus
  sp_Label :: string
  sp_Tool :: string
  sp_Args :: string
  sp_Result :: string
  sp_Timestamp :: int

definition maxRunSteps :: nat where "maxRunSteps = 200"
definition maxStepLabelLen :: int where "maxStepLabelLen = 600"
definition maxStepArgsLen :: int where "maxStepArgsLen = 600"

abbreviation em_dash :: string where "em_dash \<equiv> [CHR 0xE2, CHR 0x80, CHR 0x94]"
abbreviation ellipsis :: string where "ellipsis \<equiv> [CHR 0xE2, CHR 0x80, CHR 0xA6]"

definition stepLimitExceeded :: string where
  "stepLimitExceeded = ''step limit reached '' @ em_dash @ '' further steps of this run are not recorded''"

definition truncateStepText :: "string \<Rightarrow> int \<Rightarrow> string" where
  "truncateStepText s limit =
     (if limit \<le> 0 then s else if int (length s) \<le> limit then s else take (nat limit) s @ ellipsis)"

section \<open>The recorder\<close>

record aiStepRecorder =
  sr_steps :: "AiRunStep list"
  sr_stored :: "AiRunStep list"

datatype StepFinalizer = Noop | Finalizer nat int

definition newStepRecorder :: aiStepRecorder where
  "newStepRecorder = \<lparr>sr_steps = [], sr_stored = []\<rparr>"

definition persist :: "bool \<Rightarrow> aiStepRecorder \<Rightarrow> aiStepRecorder" where
  "persist ok r = (if ok then r\<lparr>sr_stored := sr_steps r\<rparr> else r)"

text \<open>\<open>cfg\<close> is the configured limit for results, if it can be read.\<close>

definition record_step ::
  "bool \<Rightarrow> int \<Rightarrow> int option \<Rightarrow> AiRunStepKind \<Rightarrow> string \<Rightarrow> string \<Rightarrow> string \<Rightarrow> aiStepRecorder \<Rightarrow> aiStepRecorder \<times> StepFinalizer" where
  "record_step ok now cfg kind label tool args r =
     (let n = length (sr_steps r)
      in if n \<ge> maxRunSteps then (r, Noop)
         else if n = maxRunSteps - 1 then
           (persist ok (r\<lparr>sr_steps := sr_steps r @ [\<lparr>sp_Seq = n + 1, sp_Kind = AI_RUN_STEP_COMPACTION, sp_Status = AiRunStepStatusErrored,
              sp_Label = stepLimitExceeded, sp_Tool = [], sp_Args = [], sp_Result = [], sp_Timestamp = now\<rparr>]\<rparr>), Noop)
         else
           (persist ok (r\<lparr>sr_steps := sr_steps r @ [\<lparr>sp_Seq = n + 1, sp_Kind = kind, sp_Status = AiRunStepStatusRunning,
              sp_Label = truncateStepText label maxStepLabelLen, sp_Tool = tool, sp_Args = truncateStepText args maxStepArgsLen,
              sp_Result = [], sp_Timestamp = now\<rparr>]\<rparr>),
            Finalizer n (case cfg of Some m \<Rightarrow> m | None \<Rightarrow> 1000)))"

definition finalize :: "bool \<Rightarrow> StepFinalizer \<Rightarrow> AiRunStepStatus \<Rightarrow> string \<Rightarrow> string \<Rightarrow> aiStepRecorder \<Rightarrow> aiStepRecorder" where
  "finalize ok f status label result r =
     (case f of
        Noop \<Rightarrow> r
      | Finalizer i maxLen \<Rightarrow>
          (let step = sr_steps r ! i
           in persist ok (r\<lparr>sr_steps := (sr_steps r)[i :=
                step\<lparr>sp_Status := status, sp_Label := (if label \<noteq> [] then truncateStepText label maxStepLabelLen else sp_Label step),
                     sp_Result := truncateStepText result maxLen\<rparr>]\<rparr>)))"

definition ToolCall_step where
  "ToolCall_step ok now cfg tool args = record_step ok now cfg AI_RUN_STEP_ACT tool tool args"

definition Reason_step where
  "Reason_step ok now cfg label = record_step ok now cfg AI_RUN_STEP_REASON label [] []"

definition Compaction_step where
  "Compaction_step ok now cfg label = record_step ok now cfg AI_RUN_STEP_COMPACTION label [] []"

definition Error_step :: "bool \<Rightarrow> int \<Rightarrow> string \<Rightarrow> aiStepRecorder \<Rightarrow> aiStepRecorder" where
  "Error_step ok now label r =
     (let n = length (sr_steps r)
      in if n \<ge> maxRunSteps then r
         else persist ok (r\<lparr>sr_steps := sr_steps r @ [\<lparr>sp_Seq = n + 1, sp_Kind = AI_RUN_STEP_REASON, sp_Status = AiRunStepStatusErrored,
                sp_Label = truncateStepText (if n = maxRunSteps - 1 then stepLimitExceeded else label) maxStepLabelLen,
                sp_Tool = [], sp_Args = [], sp_Result = [], sp_Timestamp = now\<rparr>]\<rparr>))"

text \<open>What a client reads: the stored list, or nothing when the read fails.\<close>

definition getRunSteps :: "bool \<Rightarrow> aiStepRecorder \<Rightarrow> AiRunStep list" where
  "getRunSteps ok r = (if ok then sr_stored r else [])"

section \<open>Every history of a recorder\<close>

text \<open>The finalizers handed out so far, each callable at any time.\<close>

inductive steps_reach :: "aiStepRecorder \<Rightarrow> StepFinalizer set \<Rightarrow> bool" where
  start: "steps_reach newStepRecorder {}"
| tool: "steps_reach r fs \<Longrightarrow> ToolCall_step ok now cfg tool args r = (r', f) \<Longrightarrow> steps_reach r' (insert f fs)"
| reason: "steps_reach r fs \<Longrightarrow> Reason_step ok now cfg label r = (r', f) \<Longrightarrow> steps_reach r' (insert f fs)"
| compaction: "steps_reach r fs \<Longrightarrow> Compaction_step ok now cfg label r = (r', f) \<Longrightarrow> steps_reach r' (insert f fs)"
| err: "steps_reach r fs \<Longrightarrow> steps_reach (Error_step ok now label r) fs"
| finished: "steps_reach r fs \<Longrightarrow> f \<in> fs \<Longrightarrow> steps_reach (finalize ok f status label result r) fs"

definition step_ok :: "AiRunStep \<Rightarrow> bool" where
  "step_ok s \<longleftrightarrow> length (sp_Label s) \<le> 603 \<and> length (sp_Args s) \<le> 603"

definition timeline_ok :: "AiRunStep list \<Rightarrow> bool" where
  "timeline_ok steps \<longleftrightarrow> length steps \<le> maxRunSteps \<and> map sp_Seq steps = [1..<Suc (length steps)] \<and> list_all step_ok steps \<and>
     (length steps = maxRunSteps \<longrightarrow> sp_Label (last steps) = stepLimitExceeded \<and> sp_Status (last steps) = AiRunStepStatusErrored)"

definition steps_inv :: "aiStepRecorder \<Rightarrow> StepFinalizer set \<Rightarrow> bool" where
  "steps_inv r fs \<longleftrightarrow> timeline_ok (sr_steps r) \<and> timeline_ok (sr_stored r) \<and> length (sr_stored r) \<le> length (sr_steps r) \<and>
     (\<forall>i m. Finalizer i m \<in> fs \<longrightarrow> i < length (sr_steps r) \<and> i < maxRunSteps - 1)"

lemma truncate_bound: "length (truncateStepText s maxStepLabelLen) \<le> 603" "length (truncateStepText s maxStepArgsLen) \<le> 603"
  by (auto simp: truncateStepText_def maxStepLabelLen_def maxStepArgsLen_def)

lemma limit_label: "length stepLimitExceeded \<le> 603" "truncateStepText stepLimitExceeded maxStepLabelLen = stepLimitExceeded"
  by (simp_all add: stepLimitExceeded_def truncateStepText_def maxStepLabelLen_def)

lemma timeline_snoc:
  assumes "timeline_ok steps" "length steps < maxRunSteps" "sp_Seq s = length steps + 1" "step_ok s"
    and "length steps = maxRunSteps - 1 \<Longrightarrow> sp_Label s = stepLimitExceeded \<and> sp_Status s = AiRunStepStatusErrored"
  shows "timeline_ok (steps @ [s])"
  using assms by (auto simp: timeline_ok_def maxRunSteps_def)

lemma timeline_update:
  assumes "timeline_ok steps" "i < length steps" "i < maxRunSteps - 1" "step_ok s" "sp_Seq s = sp_Seq (steps ! i)"
  shows "timeline_ok (steps[i := s])"
proof -
  have "list_all step_ok (steps[i := s])"
    using assms(1,4) set_update_subset_insert [of steps i s] by (auto simp: timeline_ok_def list_all_iff)
  moreover have "map sp_Seq (steps[i := s]) = map sp_Seq steps"
    using assms(2,5) by (metis list_update_id map_update)
  moreover have "last (steps[i := s]) = last steps" if "length steps = maxRunSteps"
    using assms(2,3) that by (subst last_list_update) (auto simp: maxRunSteps_def)
  ultimately show ?thesis using assms(1) by (auto simp: timeline_ok_def)
qed

lemma persist_inv: "steps_inv (r\<lparr>sr_stored := sr_steps r\<rparr>) fs \<Longrightarrow> steps_inv r fs \<Longrightarrow> steps_inv (persist ok r) fs"
  by (simp add: persist_def)

lemma append_inv:
  assumes "steps_inv r fs" "length (sr_steps r) < maxRunSteps" "sp_Seq s = length (sr_steps r) + 1" "step_ok s"
    and "length (sr_steps r) = maxRunSteps - 1 \<Longrightarrow> sp_Label s = stepLimitExceeded \<and> sp_Status s = AiRunStepStatusErrored"
    and "f = Noop \<or> (\<exists>m. f = Finalizer (length (sr_steps r)) m \<and> length (sr_steps r) < maxRunSteps - 1)"
  shows "steps_inv (persist ok (r\<lparr>sr_steps := sr_steps r @ [s]\<rparr>)) (insert f fs)"
  using assms timeline_snoc [of "sr_steps r" s]
  by (intro persist_inv) (auto simp: steps_inv_def less_SucI)

lemma record_inv:
  assumes "steps_inv r fs" "record_step ok now cfg kind label tool args r = (r', f)"
  shows "steps_inv r' (insert f fs)"
proof (cases "length (sr_steps r) \<ge> maxRunSteps")
  case True
  with assms show ?thesis by (auto simp: record_step_def Let_def steps_inv_def)
next
  case False
  with assms truncate_bound limit_label show ?thesis
    by (auto simp: record_step_def Let_def step_ok_def split: if_splits intro!: append_inv)
qed

lemma Error_inv:
  assumes "steps_inv r fs"
  shows "steps_inv (Error_step ok now label r) fs"
proof (cases "length (sr_steps r) \<ge> maxRunSteps")
  case False
  with assms truncate_bound limit_label have "steps_inv (Error_step ok now label r) (insert Noop fs)"
    unfolding Error_step_def Let_def by (auto simp: step_ok_def intro!: append_inv)
  then show ?thesis by (auto simp: steps_inv_def)
qed (simp add: Error_step_def Let_def assms)

text \<open>A finalizer changes its own step only, never its number, tool or arguments.\<close>

lemma finalize_inv:
  assumes "steps_inv r fs" "f \<in> fs"
  shows "steps_inv (finalize ok f status label result r) fs"
proof (cases f)
  case (Finalizer i m)
  with assms have i: "i < length (sr_steps r)" "i < maxRunSteps - 1" by (auto simp: steps_inv_def)
  let ?s = "(sr_steps r ! i)\<lparr>sp_Status := status, sp_Label := (if label \<noteq> [] then truncateStepText label maxStepLabelLen
    else sp_Label (sr_steps r ! i)), sp_Result := truncateStepText result m\<rparr>"
  have "timeline_ok (sr_steps r)" using assms(1) by (simp add: steps_inv_def)
  moreover from this have "step_ok ?s" using i truncate_bound by (auto simp: timeline_ok_def step_ok_def list_all_length)
  ultimately have "timeline_ok ((sr_steps r)[i := ?s])" using i by (auto intro: timeline_update)
  then have "steps_inv (persist ok (r\<lparr>sr_steps := (sr_steps r)[i := ?s]\<rparr>)) fs"
    using assms(1) by (intro persist_inv) (simp_all add: steps_inv_def)
  then show ?thesis by (simp only: finalize_def Finalizer StepFinalizer.case Let_def)
qed (simp add: finalize_def assms(1))

lemma steps_reach_inv: "steps_reach r fs \<Longrightarrow> steps_inv r fs"
proof (induction rule: steps_reach.induct)
  case start
  show ?case by (simp add: steps_inv_def newStepRecorder_def timeline_ok_def maxRunSteps_def)
qed (auto simp: ToolCall_step_def Reason_step_def Compaction_step_def intro: record_inv Error_inv finalize_inv)

section \<open>Properties\<close>



end
