(* ===== verification/GitOps.thy ===== *)
theory GitOps
  imports Unstructured
begin

text \<open>
  The GitOps installers of \<open>gitops\<close>: \<open>installer.go\<close>, \<open>argocd.go\<close> and \<open>flux.go\<close>. A component is
  installed by applying one or more custom resources of the engine, and uninstalled by deleting
  them. The API server is a parameter (\<open>dynamic_client\<close>) with a state of its own; what is relied on
  is stated as \<open>api_server\<close>, weak enough to allow a request that fails after it took effect.
\<close>

section \<open>The API server\<close>

type_synonym gvr = "string \<times> string \<times> string"

datatype api_error = ApiNotFound | ApiAlreadyExists | ApiOther string

record 's dynamic_client =
  dc_Create :: "gvr \<Rightarrow> string \<Rightarrow> json \<Rightarrow> 's \<Rightarrow> api_error option \<times> 's"
  dc_Get :: "gvr \<Rightarrow> string \<Rightarrow> string \<Rightarrow> 's \<Rightarrow> (api_error + json) \<times> 's"
  dc_Update :: "gvr \<Rightarrow> string \<Rightarrow> json \<Rightarrow> 's \<Rightarrow> api_error option \<times> 's"
  dc_Delete :: "gvr \<Rightarrow> string \<Rightarrow> string \<Rightarrow> 's \<Rightarrow> api_error option \<times> 's"

type_synonym obj_key = "gvr \<times> string \<times> string"

text \<open>An object is live when it exists and is not marked for deletion. A request that reports an error
  may or may not have taken effect; nothing but the object it names changes.\<close>

definition api_server :: "'s dynamic_client \<Rightarrow> ('s \<Rightarrow> obj_key set) \<Rightarrow> bool" where
  "api_server dc live \<longleftrightarrow>
     (\<forall>g ns obj s r s'. dc_Create dc g ns obj s = (r, s') \<longrightarrow>
        live s \<subseteq> live s' \<and> live s' \<subseteq> insert (g, ns, GetName obj) (live s)) \<and>
     (\<forall>g ns n s r s'. dc_Get dc g ns n s = (r, s') \<longrightarrow> live s' = live s) \<and>
     (\<forall>g ns obj s r s'. dc_Update dc g ns obj s = (r, s') \<longrightarrow> live s' = live s) \<and>
     (\<forall>g ns n s r s'. dc_Delete dc g ns n s = (r, s') \<longrightarrow>
        live s - {(g, ns, n)} \<subseteq> live s' \<and> live s' \<subseteq> live s \<and>
        (r \<in> {None, Some ApiNotFound} \<longrightarrow> live s' = live s - {(g, ns, n)}))"

definition meta_field :: "string \<Rightarrow> json \<Rightarrow> json \<Rightarrow> json" where
  "meta_field k v obj = set_field ''metadata'' (set_field k v (case nested obj [''metadata''] of Some m \<Rightarrow> m | None \<Rightarrow> JObj [])) obj"

definition SetOwnerReferences :: "json list \<Rightarrow> json \<Rightarrow> json" where
  "SetOwnerReferences refs obj = meta_field ''ownerReferences'' (JArr refs) obj"

definition SetResourceVersion :: "string \<Rightarrow> json \<Rightarrow> json" where
  "SetResourceVersion v obj = (if v = [] then obj else meta_field ''resourceVersion'' (JStr v) obj)"

definition GetResourceVersion :: "json \<Rightarrow> string" where
  "GetResourceVersion obj = nested_string obj [''metadata'', ''resourceVersion'']"

section \<open>Artifacts\<close>

record ArgoCDSettings =
  acs_Project :: string

record HelmChartReference =
  hc_Repository :: string
  hc_Chart :: string
  hc_Name :: string
  hc_Version :: string

text \<open>\<open>FluxCDSettings\<close> has no fields: whether it is set is all there is.\<close>

record GitOpsArtifact =
  ga_Namespace :: string
  ga_Values :: "(string \<times> json) list"
  ga_HelmChart :: HelmChartReference
  ga_ExtraObjects :: "json list"
  ga_ArgoCD :: "ArgoCDSettings option"
  ga_FluxCD :: "unit option"

definition moacRepository :: string where
  "moacRepository = ''https://helm.mogenius.com/public''"

definition moacChart :: string where
  "moacChart = ''moac''"

definition moacVersion :: string where
  "moacVersion = ''1.2.3''"

definition EngineArgoCD :: string where
  "EngineArgoCD = ''argo-cd''"

definition EngineFlux :: string where
  "EngineFlux = ''flux''"

definition defaultLabels :: "string \<Rightarrow> json" where
  "defaultLabels component =
     JObj [(''app.kubernetes.io/managed-by'', JStr ''mogenius-operator''),
           (''app.kubernetes.io/component'', JStr component)]"

text \<open>Create; when the object exists, update it at its current version.\<close>

definition applyUnstructured ::
  "'s dynamic_client \<Rightarrow> gvr \<Rightarrow> string \<Rightarrow> json \<Rightarrow> 's \<Rightarrow> api_error option \<times> 's" where
  "applyUnstructured dc gvr namespace obj s =
     (case dc_Create dc gvr namespace obj s of
        (None, s1) \<Rightarrow> (None, s1)
      | (Some err, s1) \<Rightarrow>
          if err \<noteq> ApiAlreadyExists then (Some err, s1)
          else (case dc_Get dc gvr namespace (GetName obj) s1 of
                  (Inl err2, s2) \<Rightarrow> (Some err2, s2)
                | (Inr existing, s2) \<Rightarrow>
                    dc_Update dc gvr namespace (SetResourceVersion (GetResourceVersion existing) obj) s2))"

text \<open>Requests one after the other up to the first error, which carries the message it is wrapped
  with.\<close>

type_synonym gitops_error = "string \<times> api_error"

fun requests :: "(string \<times> ('s \<Rightarrow> api_error option \<times> 's)) list \<Rightarrow> 's \<Rightarrow> gitops_error option \<times> 's" where
  "requests [] s = (None, s)"
| "requests ((msg, request) # rs) s =
     (case request s of
        (None, s1) \<Rightarrow> requests rs s1
      | (Some err, s1) \<Rightarrow> (Some (msg, err), s1))"

definition ignore_not_found :: "('s \<Rightarrow> api_error option \<times> 's) \<Rightarrow> 's \<Rightarrow> api_error option \<times> 's" where
  "ignore_not_found request s =
     (case request s of (r, s1) \<Rightarrow> (if r = Some ApiNotFound then None else r, s1))"

section \<open>Argo CD\<close>

definition argoApplicationGVR :: gvr where
  "argoApplicationGVR = (''argoproj.io'', ''v1alpha1'', ''applications'')"

definition getArgoProject :: "GitOpsArtifact \<Rightarrow> string" where
  "getArgoProject artifact =
     (case ga_ArgoCD artifact of
        None \<Rightarrow> ''default''
      | Some a \<Rightarrow> if acs_Project a = [] then ''default'' else acs_Project a)"

text \<open>The part the two applications have in common.\<close>

definition argo_application :: "string \<Rightarrow> string \<Rightarrow> string \<Rightarrow> GitOpsArtifact \<Rightarrow> json \<Rightarrow> json" where
  "argo_application name component namespace artifact source =
     JObj
       [(''apiVersion'', JStr ''argoproj.io/v1alpha1''),
        (''kind'', JStr ''Application''),
        (''metadata'', JObj
           [(''name'', JStr name),
            (''namespace'', JStr namespace),
            (''labels'', defaultLabels component),
            (''finalizers'', JArr [JStr ''resources-finalizer.argocd.argoproj.io''])]),
        (''spec'', JObj
           [(''revisionHistoryLimit'', JNum 1),
            (''project'', JStr (getArgoProject artifact)),
            (''source'', source),
            (''destination'', JObj
               [(''name'', JStr ''in-cluster''), (''namespace'', JStr (ga_Namespace artifact))]),
            (''syncPolicy'', JObj
               [(''automated'', JObj [(''prune'', JBool True), (''selfHeal'', JBool True)]),
                (''syncOptions'', JArr [JStr ''CreateNamespace=true'', JStr ''ServerSideApply=true''])])])]"

definition buildArgoApplication :: "string \<Rightarrow> GitOpsArtifact \<Rightarrow> string \<Rightarrow> json" where
  "buildArgoApplication component artifact namespace =
     argo_application component component namespace artifact (JObj
       [(''repoURL'', JStr (hc_Repository (ga_HelmChart artifact))),
        (''chart'', JStr (hc_Chart (ga_HelmChart artifact))),
        (''targetRevision'', JStr (hc_Version (ga_HelmChart artifact))),
        (''helm'', JObj ((''releaseName'', JStr (hc_Name (ga_HelmChart artifact)))
           # (if ga_Values artifact = [] then [] else [(''valuesObject'', JObj (ga_Values artifact))])))])"

definition buildArgoMoacApplication :: "string \<Rightarrow> GitOpsArtifact \<Rightarrow> string \<Rightarrow> json" where
  "buildArgoMoacApplication component artifact namespace =
     argo_application (component @ ''-resources'') component namespace artifact (JObj
       [(''repoURL'', JStr moacRepository),
        (''chart'', JStr moacChart),
        (''targetRevision'', JStr moacVersion),
        (''helm'', JObj
           [(''releaseName'', JStr (hc_Name (ga_HelmChart artifact) @ ''-resources'')),
            (''valuesObject'', JObj [(''rawResources'', JArr (ga_ExtraObjects artifact))])])])"

definition argocd_Install ::
  "'s dynamic_client \<Rightarrow> string \<Rightarrow> json list \<Rightarrow> string \<Rightarrow> GitOpsArtifact \<Rightarrow> 's \<Rightarrow> gitops_error option \<times> 's" where
  "argocd_Install dc namespace ownerRefs component artifact =
     requests
       ((''apply argocd application '' @ component,
         applyUnstructured dc argoApplicationGVR namespace
           (SetOwnerReferences ownerRefs (buildArgoApplication component artifact namespace)))
        # (if ga_ExtraObjects artifact = [] then []
           else [(''apply argocd moac application '' @ component @ ''-resources'',
                  applyUnstructured dc argoApplicationGVR namespace
                    (SetOwnerReferences ownerRefs (buildArgoMoacApplication component artifact namespace)))]))"

definition argocd_UnInstall :: "'s dynamic_client \<Rightarrow> string \<Rightarrow> string \<Rightarrow> 's \<Rightarrow> gitops_error option \<times> 's" where
  "argocd_UnInstall dc namespace component =
     requests
       (map (\<lambda>name. (''delete argocd application '' @ name,
                     ignore_not_found (dc_Delete dc argoApplicationGVR namespace name)))
          [component, component @ ''-resources''])"

section \<open>Flux\<close>

definition fluxHelmRepositoryGVR :: gvr where
  "fluxHelmRepositoryGVR = (''source.toolkit.fluxcd.io'', ''v1'', ''helmrepositories'')"

definition fluxOCIRepositoryGVR :: gvr where
  "fluxOCIRepositoryGVR = (''source.toolkit.fluxcd.io'', ''v1'', ''ocirepositories'')"

definition fluxHelmReleaseGVR :: gvr where
  "fluxHelmReleaseGVR = (''helm.toolkit.fluxcd.io'', ''v2'', ''helmreleases'')"

definition isOCIRepository :: "string \<Rightarrow> bool" where
  "isOCIRepository url \<longleftrightarrow> has_prefix url ''oci://''"

text \<open>An object with the metadata all of Flux's have.\<close>

definition flux_object :: "string \<Rightarrow> string \<Rightarrow> string \<Rightarrow> string \<Rightarrow> string \<Rightarrow> (string \<times> json) list \<Rightarrow> json" where
  "flux_object apiVersion kind name namespace component spec =
     JObj
       [(''apiVersion'', JStr apiVersion),
        (''kind'', JStr kind),
        (''metadata'', JObj
           [(''name'', JStr name), (''namespace'', JStr namespace), (''labels'', defaultLabels component)]),
        (''spec'', JObj spec)]"

definition buildFluxHelmRepository :: "string \<Rightarrow> string \<Rightarrow> string \<Rightarrow> json" where
  "buildFluxHelmRepository name url namespace =
     flux_object ''source.toolkit.fluxcd.io/v1'' ''HelmRepository'' name namespace name [(''url'', JStr url)]"

definition retry_strategy :: json where
  "retry_strategy = JObj [(''name'', JStr ''RetryOnFailure'')]"

definition retry_strategy_3m :: json where
  "retry_strategy_3m = JObj [(''name'', JStr ''RetryOnFailure''), (''retryInterval'', JStr ''3m'')]"

definition values_field :: "(string \<times> json) list \<Rightarrow> (string \<times> json) list" where
  "values_field vs = (if vs = [] then [] else [(''values'', JObj vs)])"

definition buildFluxHelmRelease :: "string \<Rightarrow> GitOpsArtifact \<Rightarrow> (string \<times> json) list \<Rightarrow> string \<Rightarrow> json" where
  "buildFluxHelmRelease component artifact vals namespace =
     flux_object ''helm.toolkit.fluxcd.io/v2'' ''HelmRelease'' component namespace component
       ([(''interval'', JStr ''10m''),
         (''releaseName'', JStr (hc_Name (ga_HelmChart artifact))),
         (''targetNamespace'', JStr (ga_Namespace artifact)),
         (''chart'', JObj [(''spec'', JObj
            [(''chart'', JStr (hc_Chart (ga_HelmChart artifact))),
             (''version'', JStr (hc_Version (ga_HelmChart artifact))),
             (''sourceRef'', JObj
                [(''kind'', JStr ''HelmRepository''), (''name'', JStr component), (''namespace'', JStr namespace)])])]),
         (''install'', JObj [(''createNamespace'', JBool True), (''strategy'', retry_strategy)]),
         (''upgrade'', JObj [(''strategy'', retry_strategy)])]
        @ values_field vals)"

definition buildFluxOCIRepository :: "string \<Rightarrow> string \<Rightarrow> string \<Rightarrow> string \<Rightarrow> json" where
  "buildFluxOCIRepository name url version namespace =
     flux_object ''source.toolkit.fluxcd.io/v1'' ''OCIRepository'' name namespace name
       [(''interval'', JStr ''10m''),
        (''url'', JStr url),
        (''ref'', JObj [(''semver'', JStr (if version = [] then ''*'' else version))])]"

definition buildFluxOCIHelmRelease :: "string \<Rightarrow> GitOpsArtifact \<Rightarrow> string \<Rightarrow> json" where
  "buildFluxOCIHelmRelease component artifact namespace =
     flux_object ''helm.toolkit.fluxcd.io/v2'' ''HelmRelease'' component namespace component
       ([(''interval'', JStr ''10m''),
         (''releaseName'', JStr (hc_Name (ga_HelmChart artifact))),
         (''targetNamespace'', JStr (ga_Namespace artifact)),
         (''chartRef'', JObj [(''kind'', JStr ''OCIRepository''), (''name'', JStr component)]),
         (''install'', JObj [(''createNamespace'', JBool True), (''strategy'', retry_strategy_3m)]),
         (''upgrade'', JObj [(''force'', JBool True), (''strategy'', retry_strategy_3m)])]
        @ values_field (ga_Values artifact))"

definition buildFluxMoacHelmRelease :: "string \<Rightarrow> GitOpsArtifact \<Rightarrow> string \<Rightarrow> json" where
  "buildFluxMoacHelmRelease component artifact namespace =
     flux_object ''helm.toolkit.fluxcd.io/v2'' ''HelmRelease'' (component @ ''-resources'') namespace component
       [(''interval'', JStr ''10m''),
        (''releaseName'', JStr (hc_Name (ga_HelmChart artifact) @ ''-resources'')),
        (''targetNamespace'', JStr (ga_Namespace artifact)),
        (''dependsOn'', JArr [JObj [(''name'', JStr component), (''namespace'', JStr namespace)]]),
        (''chart'', JObj [(''spec'', JObj
           [(''chart'', JStr moacChart),
            (''version'', JStr moacVersion),
            (''sourceRef'', JObj
               [(''kind'', JStr ''HelmRepository''), (''name'', JStr (component @ ''-resources'')),
                (''namespace'', JStr namespace)])])]),
        (''install'', JObj [(''createNamespace'', JBool True), (''strategy'', retry_strategy)]),
        (''upgrade'', JObj [(''strategy'', retry_strategy)]),
        (''values'', JObj [(''rawResources'', JArr (ga_ExtraObjects artifact))])]"

definition flux_Install ::
  "'s dynamic_client \<Rightarrow> string \<Rightarrow> json list \<Rightarrow> string \<Rightarrow> GitOpsArtifact \<Rightarrow> 's \<Rightarrow> gitops_error option \<times> 's" where
  "flux_Install dc namespace ownerRefs component artifact =
     (let apply_owned = (\<lambda>gvr obj. applyUnstructured dc gvr namespace (SetOwnerReferences ownerRefs obj));
          chart = ga_HelmChart artifact
      in requests
        ((if isOCIRepository (hc_Repository chart)
          then [(''apply flux ocirepository '' @ component,
                 apply_owned fluxOCIRepositoryGVR
                   (buildFluxOCIRepository component (hc_Repository chart) (hc_Version chart) namespace)),
                (''apply flux helmrelease '' @ component,
                 apply_owned fluxHelmReleaseGVR (buildFluxOCIHelmRelease component artifact namespace))]
          else [(''apply flux helmrepository '' @ component,
                 apply_owned fluxHelmRepositoryGVR (buildFluxHelmRepository component (hc_Repository chart) namespace)),
                (''apply flux helmrelease '' @ component,
                 apply_owned fluxHelmReleaseGVR (buildFluxHelmRelease component artifact (ga_Values artifact) namespace))])
         @ (if ga_ExtraObjects artifact = [] then []
            else [(''apply flux moac helmrepository '' @ component @ ''-resources'',
                   apply_owned fluxHelmRepositoryGVR
                     (buildFluxHelmRepository (component @ ''-resources'') moacRepository namespace)),
                  (''apply flux moac helmrelease '' @ component @ ''-resources'',
                   apply_owned fluxHelmReleaseGVR (buildFluxMoacHelmRelease component artifact namespace))])))"

definition flux_UnInstall :: "'s dynamic_client \<Rightarrow> string \<Rightarrow> string \<Rightarrow> 's \<Rightarrow> gitops_error option \<times> 's" where
  "flux_UnInstall dc namespace component =
     requests
       (concat (map (\<lambda>name.
          [(''delete flux helmrelease '' @ name, ignore_not_found (dc_Delete dc fluxHelmReleaseGVR namespace name)),
           (''delete flux helmrepository '' @ name, ignore_not_found (dc_Delete dc fluxHelmRepositoryGVR namespace name)),
           (''delete flux ocirepository '' @ name, ignore_not_found (dc_Delete dc fluxOCIRepositoryGVR namespace name))])
          [component, component @ ''-resources'']))"

section \<open>The interface\<close>

datatype GitOpsInstaller = ArgocdInstaller string "json list" | FluxInstaller string "json list" | NoopInstaller

definition NewGitOpsInstaller :: "string \<Rightarrow> string \<Rightarrow> json list \<Rightarrow> GitOpsInstaller" where
  "NewGitOpsInstaller engine namespace ownerRefs =
     (if engine = EngineArgoCD then ArgocdInstaller namespace ownerRefs
      else if engine = EngineFlux then FluxInstaller namespace ownerRefs
      else NoopInstaller)"

fun Install :: "GitOpsInstaller \<Rightarrow> 's dynamic_client \<Rightarrow> string \<Rightarrow> GitOpsArtifact \<Rightarrow> 's \<Rightarrow> gitops_error option \<times> 's" where
  "Install (ArgocdInstaller ns refs) dc component artifact = argocd_Install dc ns refs component artifact"
| "Install (FluxInstaller ns refs) dc component artifact = flux_Install dc ns refs component artifact"
| "Install NoopInstaller dc component artifact = Pair None"

fun UnInstall :: "GitOpsInstaller \<Rightarrow> 's dynamic_client \<Rightarrow> string \<Rightarrow> 's \<Rightarrow> gitops_error option \<times> 's" where
  "UnInstall (ArgocdInstaller ns refs) dc component = argocd_UnInstall dc ns component"
| "UnInstall (FluxInstaller ns refs) dc component = flux_UnInstall dc ns component"
| "UnInstall NoopInstaller dc component = Pair None"

section \<open>What an installer may change\<close>

definition extends :: "('s \<Rightarrow> obj_key set) \<Rightarrow> obj_key set \<Rightarrow> ('s \<Rightarrow> 'e option \<times> 's) \<Rightarrow> bool" where
  "extends live K f \<longleftrightarrow> (\<forall>s r s'. f s = (r, s') \<longrightarrow> live s \<subseteq> live s' \<and> live s' \<subseteq> live s \<union> K)"

definition removes :: "('s \<Rightarrow> obj_key set) \<Rightarrow> obj_key set \<Rightarrow> ('s \<Rightarrow> 'e option \<times> 's) \<Rightarrow> bool" where
  "removes live K f \<longleftrightarrow>
     (\<forall>s r s'. f s = (r, s') \<longrightarrow> live s - K \<subseteq> live s' \<and> live s' \<subseteq> live s \<and> (r = None \<longrightarrow> live s' = live s - K))"

lemma extends_requests_Nil: "extends live K (requests [])"
  by (simp add: extends_def)

lemma extends_requests_Cons:
  assumes "extends live K f" "extends live K (requests rs)"
  shows "extends live K (requests ((m, f) # rs))"
  unfolding extends_def
proof (intro allI impI)
  fix s r s' assume e: "requests ((m, f) # rs) s = (r, s')"
  obtain r1 s1 where r1: "f s = (r1, s1)" by (cases "f s")
  with assms(1) have "live s \<subseteq> live s1 \<and> live s1 \<subseteq> live s \<union> K" by (auto simp: extends_def)
  moreover have "r1 = None \<Longrightarrow> live s1 \<subseteq> live s' \<and> live s' \<subseteq> live s1 \<union> K"
    using e r1 assms(2) by (simp add: extends_def)
  ultimately show "live s \<subseteq> live s' \<and> live s' \<subseteq> live s \<union> K"
    using e r1 by (cases r1) auto
qed

lemma extends_requests_if:
  "extends live K (requests (xs @ zs)) \<Longrightarrow> extends live K (requests (ys @ zs)) \<Longrightarrow>
   extends live K (requests ((if b then xs else ys) @ zs))"
  "extends live K (requests xs) \<Longrightarrow> extends live K (requests ys) \<Longrightarrow>
   extends live K (requests (if b then xs else ys))"
  by simp_all

lemmas extends_requests = extends_requests_Nil extends_requests_Cons extends_requests_if

lemma removes_requests_Nil: "removes live {} (requests [])"
  by (simp add: removes_def)

lemma removes_requests_Cons:
  assumes "removes live {k} f" "removes live K (requests rs)"
  shows "removes live (insert k K) (requests ((m, f) # rs))"
  unfolding removes_def
proof (intro allI impI)
  fix s r s' assume e: "requests ((m, f) # rs) s = (r, s')"
  obtain r1 s1 where r1: "f s = (r1, s1)" by (cases "f s")
  with assms(1) have f: "live s - {k} \<subseteq> live s1" "live s1 \<subseteq> live s" "r1 = None \<longrightarrow> live s1 = live s - {k}"
    by (auto simp: removes_def)
  show "live s - insert k K \<subseteq> live s' \<and> live s' \<subseteq> live s \<and> (r = None \<longrightarrow> live s' = live s - insert k K)"
  proof (cases r1)
    case None
    with e r1 have "requests rs s1 = (r, s')" by simp
    with assms(2) have "live s1 - K \<subseteq> live s'" "live s' \<subseteq> live s1" "r = None \<longrightarrow> live s' = live s1 - K"
      by (auto simp: removes_def)
    with f None show ?thesis by auto
  qed (use e r1 f in auto)
qed

lemmas removes_requests = removes_requests_Cons removes_requests_Nil

lemma api_serverD:
  assumes "api_server dc live"
  shows api_create: "dc_Create dc g ns obj s = (r, s') \<Longrightarrow> live s \<subseteq> live s' \<and> live s' \<subseteq> insert (g, ns, GetName obj) (live s)"
    and api_get: "dc_Get dc g ns n s = (r2, s') \<Longrightarrow> live s' = live s"
    and api_update: "dc_Update dc g ns obj s = (r, s') \<Longrightarrow> live s' = live s"
    and api_delete: "dc_Delete dc g ns n s = (r, s') \<Longrightarrow>
      live s - {(g, ns, n)} \<subseteq> live s' \<and> live s' \<subseteq> live s \<and> (r \<in> {None, Some ApiNotFound} \<longrightarrow> live s' = live s - {(g, ns, n)})"
  using assms unfolding api_server_def by (elim conjE, metis)+

lemma apply_extends:
  assumes "api_server dc live" "(gvr, ns, GetName obj) \<in> K"
  shows "extends live K (applyUnstructured dc gvr ns obj)"
  unfolding extends_def
proof (intro allI impI)
  fix s r s' assume e: "applyUnstructured dc gvr ns obj s = (r, s')"
  obtain r1 s1 where r1: "dc_Create dc gvr ns obj s = (r1, s1)" by (cases "dc_Create dc gvr ns obj s")
  obtain r2 s2 where r2: "dc_Get dc gvr ns (GetName obj) s1 = (r2, s2)" by (cases "dc_Get dc gvr ns (GetName obj) s1")
  have "live s' = live s1"
    using e r1 r2 api_get [OF assms(1) r2] api_update [OF assms(1)]
    by (auto simp: applyUnstructured_def split: option.splits if_splits sum.splits)
  with api_create [OF assms(1) r1] assms(2) show "live s \<subseteq> live s' \<and> live s' \<subseteq> live s \<union> K" by auto
qed

lemma delete_removes:
  assumes "api_server dc live"
  shows "removes live {(gvr, ns, n)} (ignore_not_found (dc_Delete dc gvr ns n))"
  using api_delete [OF assms] unfolding removes_def ignore_not_found_def by (fastforce split: prod.splits if_splits)

text \<open>The names the builders give; setting owners and versions keeps them.\<close>

lemma GetName_SetOwnerReferences [simp]: "GetName (SetOwnerReferences refs (JObj fs)) = GetName (JObj fs)"
  by (auto simp: GetName_def SetOwnerReferences_def meta_field_def nested_string_def set_field_def
      split: option.splits json.splits)

lemma GetName_builders [simp]:
  "GetName (SetOwnerReferences refs (argo_application name component ns a src)) = name"
  "GetName (SetOwnerReferences refs (flux_object v kd name ns component spec)) = name"
  by (simp_all add: argo_application_def flux_object_def) (simp_all add: GetName_def nested_string_def)

lemmas object_builders = buildArgoApplication_def buildArgoMoacApplication_def buildFluxHelmRepository_def
  buildFluxHelmRelease_def buildFluxOCIRepository_def buildFluxOCIHelmRelease_def buildFluxMoacHelmRelease_def

fun component_keys :: "GitOpsInstaller \<Rightarrow> string \<Rightarrow> obj_key set" where
  "component_keys (ArgocdInstaller ns refs) c = {argoApplicationGVR} \<times> {ns} \<times> {c, c @ ''-resources''}"
| "component_keys (FluxInstaller ns refs) c =
     {fluxHelmReleaseGVR, fluxHelmRepositoryGVR, fluxOCIRepositoryGVR} \<times> {ns} \<times> {c, c @ ''-resources''}"
| "component_keys NoopInstaller c = {}"

lemma Install_extends:
  assumes "api_server dc live"
  shows "extends live (component_keys i c) (Install i dc c a)"
proof (cases i)
  case (ArgocdInstaller ns refs)
  show ?thesis
    unfolding ArgocdInstaller Install.simps argocd_Install_def object_builders
    by (intro extends_requests apply_extends [OF assms]) simp_all
next
  case (FluxInstaller ns refs)
  show ?thesis
    unfolding FluxInstaller Install.simps flux_Install_def Let_def object_builders
    by (intro extends_requests; (simp only: append_Cons append_Nil)?; intro extends_requests apply_extends [OF assms]) simp_all
qed (simp add: extends_def)

lemma UnInstall_removes:
  assumes "api_server dc live"
  shows "removes live (component_keys i c) (UnInstall i dc c)"
proof (cases i)
  case (ArgocdInstaller ns refs)
  have keys: "component_keys (ArgocdInstaller ns refs) c = {(argoApplicationGVR, ns, c), (argoApplicationGVR, ns, c @ ''-resources'')}"
    by auto
  show ?thesis
    unfolding ArgocdInstaller keys UnInstall.simps argocd_UnInstall_def list.map
    by (intro removes_requests delete_removes assms)
next
  case (FluxInstaller ns refs)
  let ?d = "c @ ''-resources''"
  have keys: "component_keys (FluxInstaller ns refs) c = {(fluxHelmReleaseGVR, ns, c), (fluxHelmRepositoryGVR, ns, c), (fluxOCIRepositoryGVR, ns, c),
      (fluxHelmReleaseGVR, ns, ?d), (fluxHelmRepositoryGVR, ns, ?d), (fluxOCIRepositoryGVR, ns, ?d)}"
    by auto
  show ?thesis
    unfolding FluxInstaller keys UnInstall.simps flux_UnInstall_def list.map concat.simps append_Cons append_Nil
    by (intro removes_requests delete_removes assms)
qed (simp add: removes_def)

section \<open>The contract\<close>

locale gitops_installer =
  fixes install :: "'s dynamic_client \<Rightarrow> string \<Rightarrow> GitOpsArtifact \<Rightarrow> 's \<Rightarrow> gitops_error option \<times> 's"
    and uninstall :: "'s dynamic_client \<Rightarrow> string \<Rightarrow> 's \<Rightarrow> gitops_error option \<times> 's"
    and keys :: "string \<Rightarrow> obj_key set"
  assumes install_extends: "api_server dc live \<Longrightarrow> extends live (keys c) (install dc c a)"
    and uninstall_removes: "api_server dc live \<Longrightarrow> removes live (keys c) (uninstall dc c)"
begin

abbreviation installs :: "'s dynamic_client \<Rightarrow> string \<Rightarrow> GitOpsArtifact list \<Rightarrow> 's \<Rightarrow> 's" where
  "installs dc c as s \<equiv> fold (\<lambda>a s. snd (install dc c a s)) as s"

lemma installs_extend:
  assumes "api_server dc live"
  shows "live s \<subseteq> live (installs dc c as s) \<and> live (installs dc c as s) \<subseteq> live s \<union> keys c"
proof (induction as arbitrary: s)
  case (Cons a as)
  obtain r s1 where r: "install dc c a s = (r, s1)" by (cases "install dc c a s")
  with install_extends [OF assms, of c a] have "live s \<subseteq> live s1 \<and> live s1 \<subseteq> live s \<union> keys c"
    by (auto simp: extends_def)
  with Cons [of s1] r show ?case by auto
qed simp

lemma uninstall_undoes:
  assumes "api_server dc live" "uninstall dc c (installs dc c as s) = (None, s')"
  shows "live s' = live s - keys c"
  using uninstall_removes [OF assms(1), of c] assms(2) installs_extend [OF assms(1), of s c as]
  unfolding removes_def by blast

lemma installs_keep_stale:
  assumes "api_server dc live" "k \<in> live s"
  shows "k \<in> live (installs dc c as s)"
  using installs_extend [OF assms(1)] assms(2) by blast

end

interpretation engine: gitops_installer "Install i" "UnInstall i" "component_keys i" for i
  using Install_extends UnInstall_removes by unfold_locales

text \<open>A server that keeps the keys of its objects.\<close>

definition key_server :: "obj_key list dynamic_client" where
  "key_server =
     \<lparr>dc_Create = (\<lambda>g ns obj s. if (g, ns, GetName obj) \<in> set s then (Some ApiAlreadyExists, s) else (None, (g, ns, GetName obj) # s)),
      dc_Get = (\<lambda>g ns n s. (if (g, ns, n) \<in> set s then Inr (JObj []) else Inl ApiNotFound, s)),
      dc_Update = (\<lambda>g ns obj s. (if (g, ns, GetName obj) \<in> set s then None else Some ApiNotFound, s)),
      dc_Delete = (\<lambda>g ns n s. (if (g, ns, n) \<in> set s then None else Some ApiNotFound, filter (\<lambda>k. k \<noteq> (g, ns, n)) s))\<rparr>"

lemma key_server_api: "api_server key_server set"
  by (auto simp: api_server_def key_server_def)

definition demo_artifact :: "string \<Rightarrow> json list \<Rightarrow> GitOpsArtifact" where
  "demo_artifact repo extra =
     \<lparr>ga_Namespace = ''loki'', ga_Values = [],
      ga_HelmChart = \<lparr>hc_Repository = repo, hc_Chart = ''loki'', hc_Name = ''loki'', hc_Version = ''1''\<rparr>,
      ga_ExtraObjects = extra, ga_ArgoCD = None, ga_FluxCD = None\<rparr>"

text \<open>C25: uninstalling a component removes everything that installing it can have created. Whatever
  artifacts a component was installed with, in any order, with any of the requests failing
  halfway: after an uninstall that reports no error no object of the component is live, and the
  live objects that are not the component's are those from before. For both engines and the installer
  that does nothing.\<close>
theorem uninstall_undoes_installs:
  assumes "api_server dc live"
    and "UnInstall i dc c (fold (\<lambda>a s. snd (Install i dc c a s)) as s) = (None, s')"
  shows "live s' = live s - component_keys i c"
  using assms by (rule engine.uninstall_undoes)

theorem uninstall_undoes_installs_witness:
  "\<exists>s'. UnInstall (FluxInstaller ''flux-system'' []) key_server ''loki''
          (fold (\<lambda>a s. snd (Install (FluxInstaller ''flux-system'' []) key_server ''loki'' a s))
             [demo_artifact ''oci://a'' [JNull], demo_artifact ''https://b'' []]
             [(fluxHelmReleaseGVR, ''flux-system'', ''alloy'')])
        = (None, s') \<and> set s' = {(fluxHelmReleaseGVR, ''flux-system'', ''alloy'')}"
proof -
  let ?s = "[(fluxHelmReleaseGVR, ''flux-system'', ''alloy'')]"
  let ?as = "[demo_artifact ''oci://a'' [JNull], demo_artifact ''https://b'' []]"
  let ?u = "UnInstall (FluxInstaller ''flux-system'' []) key_server ''loki''
      (fold (\<lambda>a s. snd (Install (FluxInstaller ''flux-system'' []) key_server ''loki'' a s)) ?as ?s)"
  have "fst ?u = None" by code_simp
  then obtain s' where u: "?u = (None, s')" by (metis prod.collapse)
  from uninstall_undoes_installs [OF key_server_api u]
  have "set s' = {(fluxHelmReleaseGVR, ''flux-system'', ''alloy'')}" by auto
  with u show ?thesis by blast
qed

text \<open>An install never removes anything: what an earlier artifact created stays when the next has no
  extra objects, or comes from another kind of repository.\<close>

lemma install_keeps_stale_resources:
  "(argoApplicationGVR, ''argocd'', ''loki-resources'')
     \<in> set (fold (\<lambda>a s. snd (Install (ArgocdInstaller ''argocd'' []) key_server ''loki'' a s))
              [demo_artifact ''https://b'' [JNull], demo_artifact ''https://b'' []] [])"
  by code_simp

end
