(* ===== verification/PlatformObjects.thy ===== *)
theory PlatformObjects
  imports GitOps StoreIndex
begin

text \<open>
  What a \<open>PlatformConfig\<close> describes (\<open>crds/v1alpha1/type_platform_config.go\<close>), the Kubernetes objects
  the platform reconcilers derive from it (\<open>reconciler/additional_resources.go\<close>, the builders of
  \<open>platform_argocd.go\<close>, \<open>platform_fluxcd.go\<close>, \<open>platform_certManager.go\<close> and
  \<open>platform_renovate_operator.go\<close>), and the GitOps engine it reports
  (\<open>reconciler/platform_gitops_status.go\<close>, \<open>buildGitOpsStatus\<close> of \<open>platformConfig.go\<close>).

  Raw JSON of a resource (\<open>runtime.RawExtension\<close>) is what it parses to.
\<close>

section \<open>The spec\<close>

record HelmChartRef =
  hr_Name :: string
  hr_Chart :: string
  hr_Version :: string
  hr_Repository :: string
  hr_Namespace :: string

record ExternalSecret =
  es_Vault :: string
  es_Path :: string
  es_Key :: string

record GitOpsWriteConfig =
  gw_Enabled :: "bool option"
  gw_SecretRef :: "ExternalSecret option option"

text \<open>\<open>gw_SecretRef\<close> is the pointer to a \<open>GenericSecretReference\<close>, of which only the pointer to the
  external secret is read.\<close>

record GitOpsRepositoryConfig =
  gr_Name :: string
  gr_URL :: string
  gr_Path :: string
  gr_Revision :: string
  gr_ExternalSecret :: "ExternalSecret option"
  gr_Write :: "GitOpsWriteConfig option"

record InstallConfig =
  ic_Enabled :: bool
  ic_Patches :: "string list"
  ic_Chart :: "HelmChartRef option"

record ArgoCDInstallConfig = InstallConfig +
  ic_Project :: string

record GitOpsConfig =
  gc_ArgoCD :: "ArgoCDInstallConfig option"
  gc_FluxCD :: "InstallConfig option"
  gc_Repositories :: "GitOpsRepositoryConfig list"

record IssuerConfig =
  is_Name :: string
  is_Email :: string
  is_Namespace :: string
  is_Server :: string
  is_Solvers :: "json list"

record CertManagerConfig = InstallConfig +
  ic_Issuers :: "IssuerConfig list"
  ic_ClusterIssuers :: "IssuerConfig list"

text \<open>A cluster issuer has the fields of an issuer but no namespace, which is not read.\<close>

record TraefikConfig = InstallConfig +
  ic_Service :: "json option"

record ExternalDNSConfig = InstallConfig +
  ic_Provider :: string
  ic_DomainFilters :: "string list"
  ic_ExternalSecret :: ExternalSecret

record RenovateJobConfig =
  rj_Name :: string
  rj_GitOpsRepository :: string
  rj_Filter :: string
  rj_ProviderName :: string
  rj_ProviderEndpoint :: string
  rj_Schedule :: string
  rj_ExternalSecret :: "ExternalSecret option"

record RenovateOperatorConfig = InstallConfig +
  ic_MaxParallelJobs :: int
  ic_RenovateRepositories :: "RenovateJobConfig list"

text \<open>The provider of a vault parses to an object, or does not.\<close>

record ExternalSecretVault =
  ev_Name :: string
  ev_Type :: string
  ev_Provider :: "json option"

record ExternalSecretsOperatorConfig = InstallConfig +
  ic_Vaults :: "ExternalSecretVault list"

record PlatformConfigSpec =
  ps_PlatformVersion :: string
  ps_PlatformSource :: string
  ps_GitOps :: "GitOpsConfig option"
  ps_CertManager :: "CertManagerConfig option"
  ps_Traefik :: "TraefikConfig option"
  ps_ExternalDNS :: "ExternalDNSConfig option"
  ps_KubePrometheusStack :: "InstallConfig option"
  ps_Loki :: "InstallConfig option"
  ps_Alloy :: "InstallConfig option"
  ps_RenovateOperator :: "RenovateOperatorConfig option"
  ps_ExternalSecretsOperator :: "ExternalSecretsOperatorConfig option"

section \<open>Chart references\<close>

definition or_default :: "HelmChartRef option \<Rightarrow> (HelmChartRef \<Rightarrow> string) \<Rightarrow> string \<Rightarrow> string" where
  "or_default reference field d =
     (case reference of Some r \<Rightarrow> if field r \<noteq> [] then field r else d | None \<Rightarrow> d)"

definition helmChartName :: "HelmChartRef option \<Rightarrow> string \<Rightarrow> string" where
  "helmChartName reference = or_default reference hr_Chart"

definition helmReleaseName :: "HelmChartRef option \<Rightarrow> string \<Rightarrow> string" where
  "helmReleaseName reference = or_default reference hr_Name"

definition helmRepository :: "HelmChartRef option \<Rightarrow> string \<Rightarrow> string" where
  "helmRepository reference = or_default reference hr_Repository"

definition helmVersion :: "HelmChartRef option \<Rightarrow> string \<Rightarrow> string" where
  "helmVersion reference = or_default reference hr_Version"

definition helmNamespace :: "HelmChartRef option \<Rightarrow> string \<Rightarrow> string" where
  "helmNamespace reference = or_default reference hr_Namespace"

section \<open>Names\<close>

definition repo_char :: "char \<Rightarrow> bool" where
  "repo_char c \<longleftrightarrow> (CHR ''a'' \<le> c \<and> c \<le> CHR ''z'') \<or> (CHR ''0'' \<le> c \<and> c \<le> CHR ''9'')"

text \<open>\<open>repoNameSanitizer\<close>: every run of other characters becomes one dash.\<close>

fun sanitize_runs :: "bool \<Rightarrow> string \<Rightarrow> string" where
  "sanitize_runs inRun [] = []"
| "sanitize_runs inRun (c # cs) =
     (if repo_char c then c # sanitize_runs False cs
      else if inRun then sanitize_runs True cs
      else CHR ''-'' # sanitize_runs True cs)"

definition trim_prefix :: "string \<Rightarrow> string \<Rightarrow> string" where
  "trim_prefix p s = (if has_prefix s p then drop (length p) s else s)"

definition trim_dashes :: "string \<Rightarrow> string" where
  "trim_dashes s = rev (dropWhile (\<lambda>c. c = CHR ''-'') (rev (dropWhile (\<lambda>c. c = CHR ''-'') s)))"

definition repositorySecretName :: "string \<Rightarrow> string" where
  "repositorySecretName url =
     (let s = foldl (\<lambda>s p. trim_prefix p s) (to_lower url) [''https://'', ''http://'', ''ssh://'', ''git@''];
          s = trim_dashes (sanitize_runs False s)
      in ''mo-repo-'' @ (if length s > 55 then take 55 s else s))"

section \<open>Objects\<close>

definition ExternalSecretResource :: ResourceDescriptor where
  "ExternalSecretResource = \<lparr>rd_Kind = ''ExternalSecret'', rd_Plural = ''externalsecrets'', rd_ApiVersion = ''external-secrets.io/v1'', rd_Namespaced = True\<rparr>"

definition ClusterSecretStoreResource :: ResourceDescriptor where
  "ClusterSecretStoreResource = \<lparr>rd_Kind = ''ClusterSecretStore'', rd_Plural = ''clustersecretstores'', rd_ApiVersion = ''external-secrets.io/v1'', rd_Namespaced = False\<rparr>"

definition ClusterIssuerResource :: ResourceDescriptor where
  "ClusterIssuerResource = \<lparr>rd_Kind = ''ClusterIssuer'', rd_Plural = ''clusterissuers'', rd_ApiVersion = ''cert-manager.io/v1'', rd_Namespaced = False\<rparr>"

definition IssuerResource :: ResourceDescriptor where
  "IssuerResource = \<lparr>rd_Kind = ''Issuer'', rd_Plural = ''issuers'', rd_ApiVersion = ''cert-manager.io/v1'', rd_Namespaced = True\<rparr>"

definition AppProjectResource :: ResourceDescriptor where
  "AppProjectResource = \<lparr>rd_Kind = ''AppProject'', rd_Plural = ''appprojects'', rd_ApiVersion = ''argoproj.io/v1alpha1'', rd_Namespaced = True\<rparr>"

definition KustomizationResource :: ResourceDescriptor where
  "KustomizationResource = \<lparr>rd_Kind = ''Kustomization'', rd_Plural = ''kustomizations'', rd_ApiVersion = ''kustomize.toolkit.fluxcd.io/v1'', rd_Namespaced = True\<rparr>"

definition ServiceMonitorResource :: ResourceDescriptor where
  "ServiceMonitorResource = \<lparr>rd_Kind = ''ServiceMonitor'', rd_Plural = ''servicemonitors'', rd_ApiVersion = ''monitoring.coreos.com/v1'', rd_Namespaced = True\<rparr>"

definition string_map :: "(string \<times> string) list \<Rightarrow> json" where
  "string_map m = JObj (map (\<lambda>(k, v). (k, JStr v)) m)"

definition secret_template :: "(string \<times> string) list \<Rightarrow> (string \<times> string) list \<Rightarrow> (string \<times> json) list" where
  "secret_template targetLabels extraData =
     (if targetLabels \<noteq> [] \<or> extraData \<noteq> []
      then [(''template'', JObj
              ((if targetLabels \<noteq> [] then [(''metadata'', JObj [(''labels'', string_map targetLabels)])] else [])
               @ (if extraData \<noteq> [] then [(''data'', string_map extraData)] else [])))]
      else [])"

definition externalSecretResource ::
  "string \<Rightarrow> string \<Rightarrow> ExternalSecret \<Rightarrow> (string \<times> string) list \<Rightarrow> (string \<times> string) list \<Rightarrow> json" where
  "externalSecretResource name namespace es targetLabels extraData =
     JObj
       [(''apiVersion'', JStr (rd_ApiVersion ExternalSecretResource)),
        (''kind'', JStr (rd_Kind ExternalSecretResource)),
        (''metadata'', JObj [(''name'', JStr name), (''namespace'', JStr namespace)]),
        (''spec'', JObj
           [(''data'', JArr [JObj
               [(''remoteRef'', JObj ((''key'', JStr (es_Path es))
                   # (if es_Key es \<noteq> [] then [(''property'', JStr (es_Key es))] else []))),
                (''secretKey'', JStr (if es_Key es \<noteq> [] then es_Key es else ''token''))]]),
            (''secretStoreRef'', JObj
               [(''kind'', JStr (rd_Kind ClusterSecretStoreResource)), (''name'', JStr (es_Vault es))]),
            (''target'', JObj
               ([(''creationPolicy'', JStr ''Owner''), (''deletionPolicy'', JStr ''Merge''), (''name'', JStr name)]
                @ secret_template targetLabels extraData))])]"

definition sync_policy :: json where
  "sync_policy = JObj
     [(''automated'', JObj [(''prune'', JBool True), (''selfHeal'', JBool True)]),
      (''syncOptions'', JArr [JStr ''CreateNamespace=true'', JStr ''ServerSideApply=true''])]"

definition argo_revision :: "GitOpsRepositoryConfig \<Rightarrow> string" where
  "argo_revision repo = (if gr_Revision repo = [] then ''HEAD'' else gr_Revision repo)"

definition argoApplicationObject :: "string \<Rightarrow> GitOpsRepositoryConfig \<Rightarrow> string \<Rightarrow> string \<Rightarrow> json" where
  "argoApplicationObject name repo namespace project =
     JObj
       [(''apiVersion'', JStr ''argoproj.io/v1alpha1''),
        (''kind'', JStr ''Application''),
        (''metadata'', JObj
           [(''name'', JStr name), (''namespace'', JStr namespace),
            (''finalizers'', JArr [JStr ''resources-finalizer.argocd.argoproj.io''])]),
        (''spec'', JObj
           [(''project'', JStr project),
            (''source'', JObj
               [(''repoURL'', JStr (gr_URL repo)), (''path'', JStr (gr_Path repo)),
                (''targetRevision'', JStr (argo_revision repo))]),
            (''destination'', JObj [(''name'', JStr ''in-cluster''), (''namespace'', JStr ''default'')]),
            (''syncPolicy'', sync_policy)])]"

definition argoAppSetObject :: "string \<Rightarrow> GitOpsRepositoryConfig \<Rightarrow> string \<Rightarrow> string \<Rightarrow> json" where
  "argoAppSetObject name repo namespace project =
     JObj
       [(''apiVersion'', JStr ''argoproj.io/v1alpha1''),
        (''kind'', JStr ''ApplicationSet''),
        (''metadata'', JObj [(''name'', JStr name), (''namespace'', JStr namespace)]),
        (''spec'', JObj
           [(''generators'', JArr [JObj [(''git'', JObj
               [(''repoURL'', JStr (gr_URL repo)), (''revision'', JStr (argo_revision repo)),
                (''directories'', JArr [JObj [(''path'', JStr (gr_Path repo))]])])]]),
            (''template'', JObj
               [(''metadata'', JObj [(''name'', JStr ''{{path.basename}}-app'')]),
                (''spec'', JObj
                   [(''project'', JStr project),
                    (''source'', JObj
                       [(''repoURL'', JStr (gr_URL repo)), (''path'', JStr ''{{path}}''),
                        (''targetRevision'', JStr (argo_revision repo))]),
                    (''destination'', JObj
                       [(''name'', JStr ''in-cluster''), (''namespace'', JStr ''{{path.basename}}'')]),
                    (''syncPolicy'', sync_policy)])])])]"

definition argo_app_project :: "string \<Rightarrow> string \<Rightarrow> json" where
  "argo_app_project project namespace =
     JObj
       [(''apiVersion'', JStr (rd_ApiVersion AppProjectResource)),
        (''kind'', JStr (rd_Kind AppProjectResource)),
        (''metadata'', JObj [(''name'', JStr project), (''namespace'', JStr namespace)]),
        (''spec'', JObj
           [(''clusterResourceWhitelist'', JArr [JObj [(''group'', JStr ''*''), (''kind'', JStr ''*'')]]),
            (''destinations'', JArr [JObj [(''namespace'', JStr ''*''), (''server'', JStr ''*'')]]),
            (''sourceRepos'', JArr [JStr ''*''])])]"

definition fluxInstanceObject :: "string \<Rightarrow> json" where
  "fluxInstanceObject namespace =
     JObj
       [(''apiVersion'', JStr ''fluxcd.controlplane.io/v1''),
        (''kind'', JStr ''FluxInstance''),
        (''metadata'', JObj [(''name'', JStr ''flux''), (''namespace'', JStr namespace)]),
        (''spec'', JObj
           [(''distribution'', JObj [(''version'', JStr ''2.x''), (''registry'', JStr ''ghcr.io/fluxcd'')]),
            (''components'', JArr
               [JStr ''source-controller'', JStr ''kustomize-controller'', JStr ''helm-controller'',
                JStr ''notification-controller''])])]"

definition fluxKustomizationObject :: "string \<Rightarrow> GitOpsRepositoryConfig \<Rightarrow> string \<Rightarrow> json" where
  "fluxKustomizationObject name repo namespace =
     JObj
       [(''apiVersion'', JStr ''kustomize.toolkit.fluxcd.io/v1''),
        (''kind'', JStr ''Kustomization''),
        (''metadata'', JObj [(''name'', JStr name), (''namespace'', JStr namespace)]),
        (''spec'', JObj
           [(''interval'', JStr ''1m''),
            (''sourceRef'', JObj [(''kind'', JStr ''GitRepository''), (''name'', JStr name)]),
            (''path'', JStr (if gr_Path repo = [] then ''./'' else gr_Path repo)),
            (''prune'', JBool True)])]"

definition fluxGitRepositoryObject :: "string \<Rightarrow> GitOpsRepositoryConfig \<Rightarrow> string \<Rightarrow> json" where
  "fluxGitRepositoryObject name repo namespace =
     JObj
       [(''apiVersion'', JStr ''source.toolkit.fluxcd.io/v1''),
        (''kind'', JStr ''GitRepository''),
        (''metadata'', JObj [(''name'', JStr name), (''namespace'', JStr namespace)]),
        (''spec'', JObj
           ([(''interval'', JStr ''1m''),
             (''url'', JStr (gr_URL repo)),
             (''ref'', JObj [(''branch'', JStr (if gr_Revision repo = [] then ''main'' else gr_Revision repo))])]
            @ (if gr_ExternalSecret repo \<noteq> None then [(''secretRef'', JObj [(''name'', JStr name)])] else [])))]"

definition getServer :: "string \<Rightarrow> string" where
  "getServer server = (if server = [] then ''https://acme-v02.api.letsencrypt.org/directory'' else server)"

definition issuer_spec :: "IssuerConfig \<Rightarrow> json" where
  "issuer_spec issuer = JObj [(''acme'', JObj
     [(''email'', JStr (is_Email issuer)),
      (''privateKeySecretRef'', JObj [(''name'', JStr (is_Name issuer))]),
      (''server'', JStr (getServer (is_Server issuer))),
      (''solvers'', JArr (is_Solvers issuer))])]"

definition buildClusterIssuerObject :: "IssuerConfig \<Rightarrow> json" where
  "buildClusterIssuerObject issuer =
     JObj
       [(''apiVersion'', JStr (rd_ApiVersion ClusterIssuerResource)),
        (''kind'', JStr (rd_Kind ClusterIssuerResource)),
        (''metadata'', JObj [(''name'', JStr (is_Name issuer))]),
        (''spec'', issuer_spec issuer)]"

definition buildIssuerObject :: "IssuerConfig \<Rightarrow> json" where
  "buildIssuerObject issuer =
     JObj
       [(''apiVersion'', JStr (rd_ApiVersion IssuerResource)),
        (''kind'', JStr (rd_Kind IssuerResource)),
        (''metadata'', JObj [(''name'', JStr (is_Name issuer)), (''namespace'', JStr (is_Namespace issuer))]),
        (''spec'', issuer_spec issuer)]"

definition renovateJobObject :: "string \<Rightarrow> RenovateJobConfig \<Rightarrow> string \<Rightarrow> json" where
  "renovateJobObject name rc namespace =
     (let topic = (if rj_GitOpsRepository rc = [] then rj_Filter rc else rj_GitOpsRepository rc)
      in JObj
       [(''apiVersion'', JStr ''renovate-operator.mogenius.com/v1alpha1''),
        (''kind'', JStr ''RenovateJob''),
        (''metadata'', JObj [(''name'', JStr name), (''namespace'', JStr namespace)]),
        (''spec'', JObj
           ([(''schedule'', JStr (if rj_Schedule rc = [] then ''0 * * * *'' else rj_Schedule rc)),
             (''provider'', JObj ((''name'', JStr (rj_ProviderName rc))
                # (if rj_ProviderEndpoint rc \<noteq> [] then [(''endpoint'', JStr (rj_ProviderEndpoint rc))] else []))),
             (''parallelism'', JNum 1)]
            @ (if topic \<noteq> [] then [(''discoverTopics'', JArr [JStr topic])] else [])
            @ (if rj_ExternalSecret rc \<noteq> None then [(''secretRef'', JStr name)] else [])))])"

definition vault_object :: "ExternalSecretVault \<Rightarrow> json \<Rightarrow> json" where
  "vault_object vault provider =
     JObj
       [(''apiVersion'', JStr (rd_ApiVersion ClusterSecretStoreResource)),
        (''kind'', JStr (rd_Kind ClusterSecretStoreResource)),
        (''metadata'', JObj [(''name'', JStr (ev_Name vault))]),
        (''spec'', JObj [(''provider'', JObj [(ev_Type vault, provider)])])]"

section \<open>The engine that runs\<close>

definition firstNonEmpty :: "string list \<Rightarrow> string" where
  "firstNonEmpty vals = (case dropWhile (\<lambda>v. v = []) vals of [] \<Rightarrow> [] | v # _ \<Rightarrow> v)"

record GitOpsControllerStatus =
  cs_Name :: string
  cs_Version :: string
  cs_Ready :: bool

definition imageTag :: "string \<Rightarrow> string" where
  "imageTag img =
     (let ref = takeWhile (\<lambda>c. c \<noteq> CHR ''@'') img;
          name = rev (takeWhile (\<lambda>c. c \<noteq> CHR ''/'') (rev ref))
      in case cut colon name of None \<Rightarrow> [] | Some (_, tag) \<Rightarrow> tag)"

definition firstContainerImage :: "json \<Rightarrow> string" where
  "firstContainerImage deployment =
     (case nested deployment [''spec'', ''template'', ''spec'', ''containers''] of
        Some (JArr (container # _)) \<Rightarrow> nested_string container [''image'']
      | _ \<Rightarrow> [])"

definition nested_int :: "json \<Rightarrow> string list \<Rightarrow> int" where
  "nested_int v path = (case nested v path of Some (JNum n) \<Rightarrow> n | _ \<Rightarrow> 0)"

definition controllerStatus :: "json \<Rightarrow> GitOpsControllerStatus" where
  "controllerStatus deployment =
     (let label = nested_string deployment [''metadata'', ''labels'', ''app.kubernetes.io/version''];
          replicas = nested_int deployment [''spec'', ''replicas''];
          readyReplicas = nested_int deployment [''status'', ''readyReplicas'']
      in \<lparr>cs_Name = GetName deployment,
          cs_Version = (if label = [] then imageTag (firstContainerImage deployment) else label),
          cs_Ready = (replicas > 0 \<and> readyReplicas \<ge> replicas)\<rparr>)"

fun first_version :: "(string \<Rightarrow> bool) \<Rightarrow> GitOpsControllerStatus list \<Rightarrow> string option" where
  "first_version P [] = None"
| "first_version P (c # cs) = (if P (cs_Name c) then Some (cs_Version c) else first_version P cs)"

definition controllerVersionByName :: "GitOpsControllerStatus list \<Rightarrow> string \<Rightarrow> string" where
  "controllerVersionByName controllers name =
     (case first_version (\<lambda>n. n = name) controllers of
        Some v \<Rightarrow> v
      | None \<Rightarrow> (case first_version (\<lambda>n. has_suffix n (''-'' @ name)) controllers of Some v \<Rightarrow> v | None \<Rightarrow> []))"

text \<open>The counts per version. The loop over them sees their entries in any order.\<close>

definition version_count :: "(string, nat) gomap \<Rightarrow> string \<Rightarrow> nat" where
  "version_count counts v = (case map_of counts v of Some n \<Rightarrow> n | None \<Rightarrow> 0)"

fun version_counts :: "GitOpsControllerStatus list \<Rightarrow> (string, nat) gomap \<Rightarrow> (string, nat) gomap" where
  "version_counts [] counts = counts"
| "version_counts (c # cs) counts =
     version_counts cs
       (if cs_Version c \<noteq> [] then AList.update (cs_Version c) (version_count counts (cs_Version c) + 1) counts else counts)"

fun best_version :: "(string, nat) gomap \<Rightarrow> string \<Rightarrow> (string, nat) gomap \<Rightarrow> string" where
  "best_version counts best [] = best"
| "best_version counts best ((version, count) # entries) =
     best_version counts
       (if count > version_count counts best \<or> count = version_count counts best \<and> version < best then version else best) entries"

definition mostCommonControllerVersion :: "((string, nat) gomap \<Rightarrow> (string, nat) gomap) \<Rightarrow> GitOpsControllerStatus list \<Rightarrow> string" where
  "mostCommonControllerVersion order controllers =
     (let counts = version_counts controllers [] in best_version counts [] (order counts))"

record engineDetection =
  ed_engine :: string
  ed_installed :: bool
  ed_namespace :: string
  ed_releaseName :: string
  ed_version :: string
  ed_controllers :: "GitOpsControllerStatus list"

record gitOpsDetection =
  gd_argoCD :: "engineDetection option"
  gd_flux :: "engineDetection option"

definition forEngine :: "gitOpsDetection \<Rightarrow> string \<Rightarrow> engineDetection option" where
  "forEngine g engine =
     (if engine = EngineArgoCD then gd_argoCD g else if engine = EngineFlux then gd_flux g else None)"

definition preferred :: "gitOpsDetection \<Rightarrow> engineDetection option" where
  "preferred g = (case gd_argoCD g of Some d \<Rightarrow> Some d | None \<Rightarrow> gd_flux g)"

text \<open>The reads detection makes of the cluster: which resources are available, the deployments with a
  \<open>part-of\<close> label (none when listing fails), and the Flux report of a namespace (none when reading
  fails).\<close>

record detection_env =
  de_available :: "ResourceDescriptor \<Rightarrow> bool"
  de_deployments :: "string \<Rightarrow> json list"
  de_fluxReport :: "string \<Rightarrow> json option"
  de_order :: "(string, nat) gomap \<Rightarrow> (string, nat) gomap"

definition fluxReportVersion :: "detection_env \<Rightarrow> string \<Rightarrow> string" where
  "fluxReportVersion E namespace =
     (case de_fluxReport E (if namespace = [] then ''flux-system'' else namespace) of
        None \<Rightarrow> []
      | Some report \<Rightarrow> firstNonEmpty
          [nested_string report [''spec'', ''distribution'', ''version''],
           nested_string report [''status'', ''distribution'', ''version'']])"

definition annotation :: "json \<Rightarrow> string \<Rightarrow> string" where
  "annotation obj k = nested_string obj [''metadata'', ''annotations'', k]"

fun add_deployments :: "json list \<Rightarrow> engineDetection \<Rightarrow> engineDetection" where
  "add_deployments [] d = d"
| "add_deployments (deployment # ds) d =
     add_deployments ds (d
       \<lparr>ed_namespace := (if ed_namespace d = []
            then firstNonEmpty [annotation deployment ''meta.helm.sh/release-namespace'', GetNamespace deployment]
            else ed_namespace d),
        ed_releaseName := (if ed_releaseName d = [] then annotation deployment ''meta.helm.sh/release-name'' else ed_releaseName d),
        ed_controllers := ed_controllers d @ [controllerStatus deployment]\<rparr>)"

definition detectEngine :: "detection_env \<Rightarrow> string \<Rightarrow> ResourceDescriptor \<Rightarrow> string \<Rightarrow> engineDetection option" where
  "detectEngine E engine crd partOf =
     (if \<not> de_available E crd then None
      else
        let d = add_deployments (de_deployments E partOf)
              \<lparr>ed_engine = engine, ed_installed = True, ed_namespace = [], ed_releaseName = [], ed_version = [], ed_controllers = []\<rparr>;
            common = mostCommonControllerVersion (de_order E) (ed_controllers d)
        in Some (if engine = EngineFlux
                 then d\<lparr>ed_version := firstNonEmpty [fluxReportVersion E (ed_namespace d), common]\<rparr>
                 else if engine = EngineArgoCD
                 then d\<lparr>ed_version := firstNonEmpty [controllerVersionByName (ed_controllers d) ''argocd-server'', common]\<rparr>
                 else d))"

definition detectGitOpsStatus :: "detection_env \<Rightarrow> gitOpsDetection" where
  "detectGitOpsStatus E =
     \<lparr>gd_argoCD = detectEngine E EngineArgoCD AppProjectResource ''argocd'',
      gd_flux = detectEngine E EngineFlux KustomizationResource ''flux''\<rparr>"

section \<open>The engine that is reported\<close>

record GitOpsStatus =
  gs_Engine :: string
  gs_Installed :: bool
  gs_Namespace :: string
  gs_ReleaseName :: string
  gs_Version :: string
  gs_IsUserManaged :: bool
  gs_Source :: string
  gs_DefaultProjectName :: string
  gs_Controllers :: "GitOpsControllerStatus list"

definition specGitOps :: "GitOpsConfig option \<Rightarrow> string \<times> bool \<times> HelmChartRef option \<times> string" where
  "specGitOps gitOps =
     (case gitOps of
        None \<Rightarrow> ([], False, None, [])
      | Some g \<Rightarrow>
          (case (gc_ArgoCD g, gc_FluxCD g) of
             (Some a, f) \<Rightarrow>
               if ic_Enabled a then (EngineArgoCD, True, ic_Chart a, ic_Project a)
               else (case f of
                       Some x \<Rightarrow> if ic_Enabled x then (EngineFlux, True, ic_Chart x, [])
                                 else (EngineArgoCD, False, ic_Chart a, ic_Project a)
                     | None \<Rightarrow> (EngineArgoCD, False, ic_Chart a, ic_Project a))
           | (None, Some f) \<Rightarrow> (EngineFlux, ic_Enabled f, ic_Chart f, [])
           | (None, None) \<Rightarrow> ([], False, None, [])))"

definition defaultEngineNamespace :: "string \<Rightarrow> string" where
  "defaultEngineNamespace engine =
     (if engine = EngineArgoCD then ''argocd'' else if engine = EngineFlux then ''flux-system'' else [])"

definition defaultEngineReleaseName :: "string \<Rightarrow> string" where
  "defaultEngineReleaseName engine =
     (if engine = EngineArgoCD then ''argocd'' else if engine = EngineFlux then ''flux-operator'' else [])"

text \<open>The engine, the chart and project that belong to it, what was detected of it, and where it comes
  from: without an engine that mogenius owns, whatever runs wins.\<close>

definition reported_engine ::
  "PlatformConfigSpec \<Rightarrow> gitOpsDetection \<Rightarrow> string \<times> HelmChartRef option \<times> string \<times> engineDetection option \<times> string" where
  "reported_engine spec detection =
     (case specGitOps (ps_GitOps spec) of
        (engine, enabled, chart, project) \<Rightarrow>
          (case (enabled, preferred detection) of
             (False, Some fallback) \<Rightarrow>
               if ed_engine fallback \<noteq> engine then (ed_engine fallback, None, [], Some fallback, ''detected'')
               else (engine, chart, project, Some fallback, ''detected'')
           | _ \<Rightarrow> (engine, chart, project, forEngine detection engine, ''spec'')))"

definition buildGitOpsStatus :: "PlatformConfigSpec \<Rightarrow> gitOpsDetection \<Rightarrow> GitOpsStatus" where
  "buildGitOpsStatus spec detection =
     (let enabled = fst (snd (specGitOps (ps_GitOps spec)))
      in case reported_engine spec detection of
        (engine, chart, project, detected, source) \<Rightarrow>
          if engine = []
          then \<lparr>gs_Engine = [], gs_Installed = False, gs_Namespace = [], gs_ReleaseName = [], gs_Version = [],
                gs_IsUserManaged = False, gs_Source = ''detected'', gs_DefaultProjectName = [], gs_Controllers = []\<rparr>
          else
            let namespace1 = helmNamespace chart [];
                release1 = helmReleaseName chart [];
                (installed, version, controllers, namespace2, release2) =
                  (case detected of
                     None \<Rightarrow> (False, [], [], namespace1, release1)
                   | Some d \<Rightarrow> (ed_installed d, ed_version d, ed_controllers d,
                                firstNonEmpty [namespace1, ed_namespace d], firstNonEmpty [release1, ed_releaseName d]))
            in \<lparr>gs_Engine = engine, gs_Installed = installed,
                gs_Namespace = firstNonEmpty [namespace2, defaultEngineNamespace engine],
                gs_ReleaseName = (if source = ''spec'' then firstNonEmpty [release2, defaultEngineReleaseName engine] else release2),
                gs_Version = version, gs_IsUserManaged = (\<not> enabled), gs_Source = source,
                gs_DefaultProjectName = (if engine = EngineArgoCD then firstNonEmpty [project, ''mogenius''] else []),
                gs_Controllers = controllers\<rparr>)"

datatype engine_error = BothEnabled

definition inferGitOpsEngine :: "GitOpsConfig option \<Rightarrow> engine_error + string \<times> string" where
  "inferGitOpsEngine gitOps =
     (case gitOps of
        None \<Rightarrow> Inr ([], [])
      | Some g \<Rightarrow>
          let argoCDEnabled = (case gc_ArgoCD g of Some a \<Rightarrow> ic_Enabled a | None \<Rightarrow> False);
              fluxCDEnabled = (case gc_FluxCD g of Some f \<Rightarrow> ic_Enabled f | None \<Rightarrow> False)
          in if argoCDEnabled \<and> fluxCDEnabled then Inl BothEnabled
             else if argoCDEnabled
             then Inr (EngineArgoCD, helmNamespace (Option.bind (gc_ArgoCD g) ic_Chart) ''argocd'')
             else if fluxCDEnabled
             then Inr (EngineFlux, helmNamespace (Option.bind (gc_FluxCD g) ic_Chart) ''flux-system'')
             else Inr ([], []))"

section \<open>Names are safe\<close>

lemma repo_char_dash [simp]: "\<not> repo_char CHR ''-''"
  by code_simp

lemma sanitize_runs_chars: "c \<in> set (sanitize_runs b s) \<Longrightarrow> repo_char c \<or> c = CHR ''-''"
  by (induction b s rule: sanitize_runs.induct) (auto split: if_splits)

lemma set_trim_dashes: "set (trim_dashes s) \<subseteq> set s"
  by (auto simp: trim_dashes_def dest!: set_dropWhileD)

lemma repositorySecretName_shape:
  "length (repositorySecretName url) \<le> 63 \<and> (\<forall>c \<in> set (repositorySecretName url). repo_char c \<or> c = CHR ''-'')"
proof -
  let ?s = "trim_dashes (sanitize_runs False (foldl (\<lambda>s p. trim_prefix p s) (to_lower url) [''https://'', ''http://'', ''ssh://'', ''git@'']))"
  have "\<forall>c \<in> set ?s. repo_char c \<or> c = CHR ''-''" using set_trim_dashes sanitize_runs_chars by blast
  moreover have "\<forall>c \<in> set ''mo-repo-''. repo_char c \<or> c = CHR ''-''" by code_simp
  ultimately show ?thesis unfolding repositorySecretName_def Let_def by (auto dest: in_set_takeD)
qed

text \<open>Trimming comes before cutting, so that a long URL can leave a trailing dash, which no Kubernetes name
  may have.\<close>

lemma repositorySecretName_trailing_dash:
  "last (repositorySecretName (''https://example.org/'' @ replicate 42 CHR ''a'' @ ''/b'')) = CHR ''-''"
  by code_simp

section \<open>Versions\<close>

abbreviation versions :: "GitOpsControllerStatus list \<Rightarrow> string list" where
  "versions cs \<equiv> filter (\<lambda>v. v \<noteq> []) (map cs_Version cs)"

lemma version_count_update:
  "version_count (AList.update k n m) v = (if v = k then n else version_count m v)"
  by (simp add: version_count_def update_conv')

lemma version_counts_count:
  "version_count (version_counts cs m) v = version_count m v + count_list (versions cs) v"
  by (induction cs m rule: version_counts.induct) (auto simp: version_count_update)

lemma version_counts_wf: "wf_map m \<Longrightarrow> wf_map (version_counts cs m)"
  by (induction cs m rule: version_counts.induct) (auto simp: distinct_update)

lemma version_counts_keys: "fst ` set (version_counts cs m) = fst ` set m \<union> set (versions cs)"
  by (induction cs m rule: version_counts.induct) (auto simp: update_keys dom_update)

lemma version_counts_entry:
  assumes "(v, n) \<in> set (version_counts cs [])"
  shows "n = count_list (versions cs) v \<and> v \<in> set (versions cs)"
proof -
  have "map_of (version_counts cs []) v = Some n"
    using assms version_counts_wf [of "[]" cs] by simp
  then have "version_count (version_counts cs []) v = n" by (simp add: version_count_def)
  moreover have "v \<in> fst ` set (version_counts cs [])" using assms by force
  moreover have "version_count [] v = 0" by (simp add: version_count_def)
  ultimately show ?thesis unfolding version_counts_count version_counts_keys by simp
qed

text \<open>The better of two versions: the one with more controllers, and of equals the first in the
  alphabet.\<close>

definition better :: "(string \<Rightarrow> nat) \<Rightarrow> string \<Rightarrow> string \<Rightarrow> bool" where
  "better f v u \<longleftrightarrow> f u < f v \<or> f u = f v \<and> v \<le> u"

lemma better_refl [simp]: "better f v v"
  by (simp add: better_def)

lemma better_trans: "better f u v \<Longrightarrow> better f v w \<Longrightarrow> better f u w"
  by (auto simp: better_def)

lemma best_version_better:
  assumes "\<And>v n. (v, n) \<in> set es \<Longrightarrow> n = version_count counts v"
  shows "best_version counts b es \<in> insert b (fst ` set es)
     \<and> (\<forall>v \<in> insert b (fst ` set es). better (version_count counts) (best_version counts b es) v)"
  using assms
proof (induction es arbitrary: b)
  case (Cons e es)
  obtain v n where e: "e = (v, n)" by (cases e)
  let ?b = "if n > version_count counts b \<or> n = version_count counts b \<and> v < b then v else b"
  have n: "n = version_count counts v" using Cons.prems e by simp
  have IH: "best_version counts ?b es \<in> insert ?b (fst ` set es)"
    "\<forall>v \<in> insert ?b (fst ` set es). better (version_count counts) (best_version counts ?b es) v"
    using Cons.IH [of ?b] Cons.prems by auto
  have "better (version_count counts) ?b v \<and> better (version_count counts) ?b b"
    using n by (auto simp: better_def)
  with IH e show ?case by (auto split: if_splits intro: better_trans)
qed simp

text \<open>The version reported for an engine with several controllers is the one most of them run, and
  of the versions that as many controllers run the first in the alphabet, in whatever order the
  map of counts is visited; there is none exactly when no controller has a version.\<close>
lemma mostCommonControllerVersion_correct:
  assumes "\<And>m. set (order m) = set m"
  shows "if versions cs = [] then mostCommonControllerVersion order cs = []
         else mostCommonControllerVersion order cs \<in> set (versions cs)
           \<and> (\<forall>u \<in> set (versions cs). better (count_list (versions cs)) (mostCommonControllerVersion order cs) u)"
proof -
  let ?c = "version_counts cs []" and ?v = "mostCommonControllerVersion order cs"
  have cnt: "version_count ?c = count_list (versions cs)"
    using version_counts_count [of cs "[]"] by (auto simp: version_count_def)
  have "?v \<in> insert [] (fst ` set (order ?c)) \<and> (\<forall>v \<in> insert [] (fst ` set (order ?c)). better (version_count ?c) ?v v)"
    unfolding mostCommonControllerVersion_def Let_def
    by (rule best_version_better) (use assms version_counts_entry cnt in auto)
  then have v: "?v \<in> insert [] (set (versions cs))" "\<forall>v \<in> insert [] (set (versions cs)). better (count_list (versions cs)) ?v v"
    using assms version_counts_keys [of cs "[]"] cnt by auto
  show ?thesis
  proof (cases "versions cs = []")
    case False
    then obtain u where u: "u \<in> set (versions cs)" by (metis list.set_sel(1))
    have "?v \<noteq> []"
    proof
      assume "?v = []"
      then have "better (count_list (versions cs)) [] u" using v(2) u by auto
      moreover have "count_list (versions cs) [] = 0" by (rule count_notin) simp
      moreover have "count_list (versions cs) u \<noteq> 0" using u by (simp only: count_list_0_iff) simp
      ultimately show False by (simp add: better_def)
    qed
    with v False show ?thesis by auto
  qed (use v in auto)
qed

text \<open>The tag of an image: behind the name, whatever the registry with its port is, and before the
  digest.\<close>

lemma takeWhile_stop: "x \<notin> set xs \<Longrightarrow> takeWhile (\<lambda>c. c \<noteq> x) (xs @ x # ys) = xs"
  by (induction xs) auto

lemma imageTag_correct:
  assumes "CHR ''@'' \<notin> set (registry @ name @ tag)" "CHR ''/'' \<notin> set (name @ tag)" "colon \<notin> set name"
  shows "imageTag (registry @ ''/'' @ name @ '':'' @ tag @ ''@'' @ digest) = tag"
proof -
  let ?n = "name @ colon # tag"
  have "takeWhile (\<lambda>c. c \<noteq> CHR ''@'') ((registry @ ''/'' @ ?n) @ CHR ''@'' # digest) = registry @ ''/'' @ ?n"
    by (rule takeWhile_stop) (use assms(1) in auto)
  moreover have "takeWhile (\<lambda>c. c \<noteq> CHR ''/'') (rev ?n @ CHR ''/'' # rev registry) = rev ?n"
    by (rule takeWhile_stop) (use assms(2) in auto)
  ultimately show ?thesis using cut_append [OF assms(3), of tag] by (simp add: imageTag_def)
qed

section \<open>The reported engine\<close>

lemma engines_distinct [simp]: "EngineArgoCD \<noteq> []" "EngineFlux \<noteq> []" "EngineArgoCD \<noteq> EngineFlux" "EngineFlux \<noteq> EngineArgoCD"
  by (simp_all add: EngineArgoCD_def EngineFlux_def)

lemma add_deployments_engine [simp]:
  "ed_engine (add_deployments ds d) = ed_engine d" "ed_installed (add_deployments ds d) = ed_installed d"
  by (induction ds d rule: add_deployments.induct) simp_all

lemma detectEngine_engine:
  "detectEngine E engine crd partOf = Some d \<Longrightarrow> ed_engine d = engine \<and> ed_installed d"
  by (auto simp: detectEngine_def Let_def split: if_splits)

text \<open>When the engine to reconcile with is inferred, it is the engine that is reported, as one mogenius
  manages, in the namespace components are installed in unless the chart names none and the
  engine was found elsewhere.\<close>

lemma inferred_engine_reported:
  assumes "inferGitOpsEngine (ps_GitOps spec) = Inr (engine, ns)" "engine \<noteq> []"
  shows "gs_Engine (buildGitOpsStatus spec det) = engine \<and> \<not> gs_IsUserManaged (buildGitOpsStatus spec det)
    \<and> gs_Source (buildGitOpsStatus spec det) = ''spec''"
proof -
  from assms have "fst (specGitOps (ps_GitOps spec)) = engine" "fst (snd (specGitOps (ps_GitOps spec)))"
    by (auto simp: inferGitOpsEngine_def specGitOps_def Let_def split: option.splits if_splits)
  then obtain chart project where "specGitOps (ps_GitOps spec) = (engine, True, chart, project)"
    by (metis prod.collapse)
  with assms(2) show ?thesis
    by (auto simp: buildGitOpsStatus_def reported_engine_def Let_def split: option.splits)
qed

end
