(* ===== verification/PlatformValues.thy ===== *)
theory PlatformValues
  imports Unstructured
begin

text \<open>
  Merging Helm values: \<open>mergeMaps\<close> and \<open>mergeHelmValues\<close> of \<open>reconciler/platform_helm.go\<close>, and the
  values \<open>reconciler/platform_argocd.go\<close> passes to them.

  The merge stores nested maps by reference and writes into them later, so what it computes depends
  on which maps are shared. Maps live in a heap; a value is an address or a leaf (everything that
  is not a map, of which the merge never looks inside). The merge of trees that have no heap is the
  specification.
\<close>

section \<open>The heap\<close>

type_synonym addr = nat

datatype hval = HMap addr | HLeaf json

type_synonym entries = "(string, hval) gomap"

type_synonym heap = "addr \<Rightarrow> entries option"

text \<open>The entries of a map in the order a loop visits them.\<close>

definition entries_of :: "heap \<Rightarrow> addr \<Rightarrow> entries" where
  "entries_of h a = (case h a of Some es \<Rightarrow> es | None \<Rightarrow> [])"

definition put :: "heap \<Rightarrow> addr \<Rightarrow> string \<Rightarrow> hval \<Rightarrow> heap" where
  "put h a k v = h(a \<mapsto> AList.update k v (entries_of h a))"

text \<open>The loop of \<open>mergeMaps\<close> over the entries of its source. Nothing bounds the depth of a heap that
  refers to itself, so the loop is partial.\<close>

partial_function (option) merge_entries :: "heap \<Rightarrow> addr \<Rightarrow> entries \<Rightarrow> heap option" where
  "merge_entries h dst es =
     (case es of
        [] \<Rightarrow> Some h
      | (k, v) # rest \<Rightarrow>
          (case v of
             HMap s \<Rightarrow>
               (case map_of (entries_of h dst) k of
                  Some (HMap d) \<Rightarrow> Option.bind (merge_entries h d (entries_of h s)) (\<lambda>h1. merge_entries h1 dst rest)
                | _ \<Rightarrow> merge_entries (put h dst k v) dst rest)
           | HLeaf _ \<Rightarrow> merge_entries (put h dst k v) dst rest))"

definition mergeMaps :: "heap \<Rightarrow> addr \<Rightarrow> addr \<Rightarrow> heap option" where
  "mergeMaps h dst src = merge_entries h dst (entries_of h src)"

text \<open>Decoding a JSON object makes new maps; \<open>n\<close> is the next free address.\<close>

fun alloc :: "json \<Rightarrow> heap \<Rightarrow> addr \<Rightarrow> hval \<times> heap \<times> addr"
  and alloc_fields :: "(string \<times> json) list \<Rightarrow> heap \<Rightarrow> addr \<Rightarrow> entries \<times> heap \<times> addr" where
  "alloc (JObj fs) h n = (case alloc_fields fs h (Suc n) of (es, h1, n1) \<Rightarrow> (HMap n, h1(n \<mapsto> es), n1))"
| "alloc j h n = (HLeaf j, h, n)"
| "alloc_fields [] h n = ([], h, n)"
| "alloc_fields ((k, j) # fs) h n =
     (case alloc j h n of (v, h1, n1) \<Rightarrow> (case alloc_fields fs h1 n1 of (es, h2, n2) \<Rightarrow> ((k, v) # es, h2, n2)))"

text \<open>A patch has no values, values that do not parse, or values.\<close>

type_synonym patch_values = "(string \<times> json) list option option"

datatype merge_error = ParsePatchValues

definition merge_opt :: "heap \<Rightarrow> addr \<Rightarrow> addr option \<Rightarrow> heap option" where
  "merge_opt h dst src = (case src of None \<Rightarrow> Some h | Some a \<Rightarrow> mergeMaps h dst a)"

fun merge_patches :: "heap \<Rightarrow> addr \<Rightarrow> addr \<Rightarrow> patch_values list \<Rightarrow> (merge_error + heap) option" where
  "merge_patches h n dst [] = Some (Inr h)"
| "merge_patches h n dst (None # ps) = merge_patches h n dst ps"
| "merge_patches h n dst (Some None # ps) = Some (Inl ParsePatchValues)"
| "merge_patches h n dst (Some (Some fs) # ps) =
     (case alloc (JObj fs) h n of
        (v, h1, n1) \<Rightarrow>
          Option.bind (merge_entries h1 dst (entries_of h1 n)) (\<lambda>h2. merge_patches h2 n1 dst ps))"

text \<open>The result is a new map at \<open>n\<close>; a nil source is \<open>None\<close>.\<close>

definition mergeHelmValues ::
  "heap \<Rightarrow> addr \<Rightarrow> addr option \<Rightarrow> addr option \<Rightarrow> patch_values list \<Rightarrow> (merge_error + heap \<times> addr) option" where
  "mergeHelmValues h n defaults configValues patches =
     Option.bind (merge_opt (h(n \<mapsto> [])) n defaults) (\<lambda>h1.
       Option.bind (merge_opt h1 n configValues) (\<lambda>h2.
         map_option (map_sum id (\<lambda>h3. (h3, n))) (merge_patches h2 (Suc n) n patches)))"

section \<open>Trees\<close>

text \<open>The specification: fields of the source win, objects are merged field by field.\<close>

fun merge_fields :: "(string \<times> json) list \<Rightarrow> (string \<times> json) list \<Rightarrow> (string \<times> json) list" where
  "merge_fields dst [] = dst"
| "merge_fields dst ((k, v) # es) =
     merge_fields
       (AList.update k
          (case v of
             JObj s \<Rightarrow> (case map_of dst k of Some (JObj d) \<Rightarrow> JObj (merge_fields d s) | _ \<Rightarrow> v)
           | _ \<Rightarrow> v) dst) es"

text \<open>The value under a path of keys.\<close>

fun at_path :: "heap \<Rightarrow> hval \<Rightarrow> string list \<Rightarrow> hval option" where
  "at_path h v [] = Some v"
| "at_path h (HMap a) (k # ks) = (case map_of (entries_of h a) k of None \<Rightarrow> None | Some v \<Rightarrow> at_path h v ks)"
| "at_path h (HLeaf j) (k # ks) = None"

text \<open>The values \<open>reconcileArgoCD\<close> derives when service monitors are available: the four components
  refer to the same \<open>metricsBlock\<close>.\<close>

definition argocd_values :: "heap \<Rightarrow> addr \<Rightarrow> bool \<Rightarrow> addr option \<times> heap \<times> addr" where
  "argocd_values h n serviceMonitors =
     (if serviceMonitors
      then (Some (n + 6),
        h(n \<mapsto> [(''enabled'', HLeaf (JBool True))],
          n + 1 \<mapsto> [(''enabled'', HLeaf (JBool True)), (''serviceMonitor'', HMap n)],
          n + 2 \<mapsto> [(''metrics'', HMap (n + 1))], n + 3 \<mapsto> [(''metrics'', HMap (n + 1))],
          n + 4 \<mapsto> [(''metrics'', HMap (n + 1))], n + 5 \<mapsto> [(''metrics'', HMap (n + 1))],
          n + 6 \<mapsto> [(''controller'', HMap (n + 2)), (''server'', HMap (n + 3)),
                    (''repoServer'', HMap (n + 4)), (''applicationSet'', HMap (n + 5))]),
        n + 7)
      else (None, h, n))"

text \<open>A value of the heap is a tree: no map is reached twice. The set holds the addresses it uses.\<close>

inductive rep :: "heap \<Rightarrow> hval \<Rightarrow> json \<Rightarrow> addr set \<Rightarrow> bool"
  and rep_fields :: "heap \<Rightarrow> entries \<Rightarrow> (string \<times> json) list \<Rightarrow> addr set \<Rightarrow> bool" for h where
  leaf: "(\<And>fs. j \<noteq> JObj fs) \<Longrightarrow> rep h (HLeaf j) j {}"
| obj: "h a = Some es \<Longrightarrow> rep_fields h es fs A \<Longrightarrow> a \<notin> A \<Longrightarrow> rep h (HMap a) (JObj fs) (insert a A)"
| nil: "rep_fields h [] [] {}"
| cons: "rep h v j A \<Longrightarrow> rep_fields h es fs B \<Longrightarrow> A \<inter> B = {} \<Longrightarrow> rep_fields h ((k, v) # es) ((k, j) # fs) (A \<union> B)"

inductive_cases rep_HMapE: "rep h (HMap a) j A"
inductive_cases rep_HLeafE: "rep h (HLeaf l) j A"
inductive_cases rep_JObjE: "rep h v (JObj fs) A"
inductive_cases rep_fields_NilE: "rep_fields h es [] A"
inductive_cases rep_fields_ConsE: "rep_fields h es (f # fs) A"

lemma rep_frame:
  "rep h v j A \<Longrightarrow> (\<forall>x \<in> A. h' x = h x) \<longrightarrow> rep h' v j A"
  "rep_fields h es fs B \<Longrightarrow> (\<forall>x \<in> B. h' x = h x) \<longrightarrow> rep_fields h' es fs B"
  by (induction rule: rep_rep_fields.inducts) (auto intro: rep_rep_fields.intros)

text \<open>The value under a key with what is left of the tree, into which another value can be put.\<close>

definition slot :: "heap \<Rightarrow> string \<Rightarrow> entries \<Rightarrow> (string \<times> json) list \<Rightarrow> addr set \<Rightarrow> bool" where
  "slot h k es fs R \<longleftrightarrow>
     (\<forall>h' v j C. (\<forall>x \<in> R. h' x = h x) \<longrightarrow> rep h' v j C \<longrightarrow> C \<inter> R = {}
        \<longrightarrow> rep_fields h' (AList.update k v es) (AList.update k j fs) (C \<union> R))"

lemma slot_head:
  assumes "rep_fields h es fs R"
  shows "slot h k ((k, v) # es) ((k, j) # fs) R"
  unfolding slot_def
proof (intro allI impI)
  fix h' v' j' C
  assume "\<forall>x \<in> R. h' x = h x" "rep h' v' j' C" "C \<inter> R = {}"
  moreover from this(1) have "rep_fields h' es fs R" using rep_frame(2) [OF assms] by blast
  ultimately show "rep_fields h' (AList.update k v' ((k, v) # es)) (AList.update k j' ((k, j) # fs)) (C \<union> R)"
    by (simp add: rep_rep_fields.cons)
qed

lemma slot_tail:
  assumes "slot h k es fs R" "rep h v j A" "A \<inter> R = {}" "k' \<noteq> k"
  shows "slot h k ((k', v) # es) ((k', j) # fs) (A \<union> R)"
  unfolding slot_def
proof (intro allI impI)
  fix h' v' j' C
  assume that: "\<forall>x \<in> A \<union> R. h' x = h x" "rep h' v' j' C" "C \<inter> (A \<union> R) = {}"
  have "rep h' v j A" using that(1) rep_frame(1) [OF assms(2)] by blast
  moreover have "rep_fields h' (AList.update k v' es) (AList.update k j' fs) (C \<union> R)"
    using assms(1) that unfolding slot_def by blast
  ultimately have "rep_fields h' ((k', v) # AList.update k v' es) ((k', j) # AList.update k j' fs) (A \<union> (C \<union> R))"
    using assms(3) that(3) by (intro rep_rep_fields.cons) blast+
  with assms(4) show "rep_fields h' (AList.update k v' ((k', v) # es)) (AList.update k j' ((k', j) # fs)) (C \<union> (A \<union> R))"
    by (simp add: Un_left_commute)
qed

lemma rep_fields_present:
  "rep_fields h es fs A \<Longrightarrow> map_of fs k = Some j \<Longrightarrow>
   \<exists>v K R. map_of es k = Some v \<and> rep h v j K \<and> A = K \<union> R \<and> K \<inter> R = {} \<and> slot h k es fs R"
proof (induction fs arbitrary: es A)
  case (Cons f fs)
  obtain k0 j0 where f: "f = (k0, j0)" by (cases f)
  from Cons.prems(1) f obtain v0 es0 A0 B where e: "es = (k0, v0) # es0" "rep h v0 j0 A0" "rep_fields h es0 fs B" "A0 \<inter> B = {}" "A = A0 \<union> B"
    by (auto elim: rep_fields_ConsE)
  show ?case
  proof (cases "k0 = k")
    case True
    with Cons.prems(2) f e slot_head [OF e(3)] show ?thesis
      by (intro exI [of _ v0] exI [of _ A0] exI [of _ B]) simp
  next
    case False
    with Cons.prems(2) f have "map_of fs k = Some j" by simp
    from Cons.IH [OF e(3) this] obtain v K R where IH: "map_of es0 k = Some v" "rep h v j K" "B = K \<union> R" "K \<inter> R = {}" "slot h k es0 fs R"
      by blast
    with e False f slot_tail [OF IH(5) e(2) _ False] show ?thesis
      by (intro exI [of _ v] exI [of _ K] exI [of _ "A0 \<union> R"]) auto
  qed
qed simp

lemma rep_fields_absent:
  "rep_fields h es fs A \<Longrightarrow> map_of fs k = None \<Longrightarrow> map_of es k = None \<and> slot h k es fs A"
proof (induction fs arbitrary: es A)
  case Nil
  then have e: "es = []" "A = {}" by (auto elim: rep_fields_NilE)
  have "slot h k [] [] {}"
    using rep_rep_fields.cons [OF _ rep_rep_fields.nil, where k = k] by (auto simp: slot_def)
  with e show ?case by simp
next
  case (Cons f fs)
  obtain k0 j0 where f: "f = (k0, j0)" by (cases f)
  from Cons.prems(1) f obtain v0 es0 A0 B where e: "es = (k0, v0) # es0" "rep h v0 j0 A0" "rep_fields h es0 fs B" "A0 \<inter> B = {}" "A = A0 \<union> B"
    by (auto elim: rep_fields_ConsE)
  from Cons.prems(2) f have k: "k0 \<noteq> k" "map_of fs k = None" by (auto split: if_splits)
  from Cons.IH [OF e(3) k(2)] slot_tail [OF _ e(2,4) k(1)] e f k show ?case by simp
qed

lemma update_same: "map_of m k = Some v \<Longrightarrow> AList.update k v m = m"
  by (induction m) auto

section \<open>The merge of the heap is the merge of trees\<close>

lemma entries_of_Some [simp]: "h a = Some es \<Longrightarrow> entries_of h a = es"
  by (simp add: entries_of_def)

lemma rep_put:
  assumes "rep h (HMap a) (JObj d) A" "rep h v j C" "A \<inter> C = {}"
  shows "\<exists>A1. rep (put h a k v) (HMap a) (JObj (AList.update k j d)) A1 \<and> A1 \<subseteq> A \<union> C"
proof -
  from assms(1) obtain fs A0 where a: "h a = Some fs" "rep_fields h fs d A0" "a \<notin> A0" "A = insert a A0"
    by (auto elim: rep_HMapE)
  have "\<exists>R. R \<subseteq> A0 \<and> slot h k fs d R"
  proof (cases "map_of d k")
    case None
    then show ?thesis using rep_fields_absent [OF a(2)] by blast
  next
    case (Some j0)
    then show ?thesis using rep_fields_present [OF a(2)] by blast
  qed
  then obtain R where R: "R \<subseteq> A0" "slot h k fs d R" by blast
  let ?h = "put h a k v"
  have fr: "\<forall>x. x \<noteq> a \<longrightarrow> ?h x = h x" by (simp add: put_def)
  have "rep ?h v j C" using rep_frame(1) [OF assms(2)] fr assms(3) a(4) by blast
  moreover have "\<forall>x \<in> R. ?h x = h x" using fr R(1) a(3) by (metis subsetD)
  moreover have "C \<inter> R = {}" using R(1) a(4) assms(3) by blast
  ultimately have "rep_fields ?h (AList.update k v fs) (AList.update k j d) (C \<union> R)"
    using R(2) unfolding slot_def by blast
  moreover have "?h a = Some (AList.update k v fs)" by (simp add: put_def a(1))
  moreover have "a \<notin> C \<union> R" using R(1) a(3,4) assms(3) by blast
  ultimately have "rep ?h (HMap a) (JObj (AList.update k j d)) (insert a (C \<union> R))"
    using rep_rep_fields.obj by blast
  with R(1) a(4) show ?thesis by blast
qed

lemma rep_child:
  assumes "rep h (HMap a) (JObj d) A" "map_of d k = Some (JObj dv)"
  obtains c K where "map_of (entries_of h a) k = Some (HMap c)" "rep h (HMap c) (JObj dv) K" "K \<subseteq> A"
    "\<And>h1 K1 j E. rep h1 (HMap c) j K1 \<Longrightarrow> K1 \<subseteq> K \<union> E \<Longrightarrow> A \<inter> E = {} \<Longrightarrow> \<forall>x. x \<notin> K \<union> E \<longrightarrow> h1 x = h x
       \<Longrightarrow> \<exists>A1. rep h1 (HMap a) (JObj (AList.update k j d)) A1 \<and> A1 \<subseteq> A \<union> E"
proof -
  from assms(1) obtain fs A0 where a: "h a = Some fs" "rep_fields h fs d A0" "a \<notin> A0" "A = insert a A0"
    by (auto elim: rep_HMapE)
  from rep_fields_present [OF a(2) assms(2)] obtain w K R where
    K: "map_of fs k = Some w" "rep h w (JObj dv) K" "A0 = K \<union> R" "K \<inter> R = {}" "slot h k fs d R"
    by blast
  obtain c where c: "w = HMap c" using K(2) by (auto elim: rep_JObjE)
  show thesis
  proof (rule that [of c K])
    fix h1 K1 j E
    assume e: "rep h1 (HMap c) j K1" "K1 \<subseteq> K \<union> E" "A \<inter> E = {}" "\<forall>x. x \<notin> K \<union> E \<longrightarrow> h1 x = h x"
    have "\<forall>x \<in> R. h1 x = h x" "K1 \<inter> R = {}" using e(2,3,4) K(3,4) a(4) by blast+
    with e(1) K(5) have "rep_fields h1 (AList.update k (HMap c) fs) (AList.update k j d) (K1 \<union> R)"
      unfolding slot_def by blast
    then have "rep_fields h1 fs (AList.update k j d) (K1 \<union> R)" using update_same [OF K(1)] c by simp
    moreover have "h1 a = Some fs" using e(3,4) a K(3) by (metis UnCI UnE disjoint_iff insertCI)
    moreover have "a \<notin> K1 \<union> R" using e(2,3) a(3,4) K(3) by blast
    ultimately have "rep h1 (HMap a) (JObj (AList.update k j d)) (insert a (K1 \<union> R))"
      using rep_rep_fields.obj by blast
    moreover have "insert a (K1 \<union> R) \<subseteq> A \<union> E" using e(2) a(4) K(3) by blast
    ultimately show "\<exists>A1. rep h1 (HMap a) (JObj (AList.update k j d)) A1 \<and> A1 \<subseteq> A \<union> E" by blast
  qed (use K a c in auto)
qed

lemma merge_entries_Nil: "merge_entries h a [] = Some h"
  by (simp add: merge_entries.simps)

lemma merge_entries_put:
  assumes "\<not> (\<exists>s c. v = HMap s \<and> map_of (entries_of h a) k = Some (HMap c))"
  shows "merge_entries h a ((k, v) # es) = merge_entries (put h a k v) a es"
  using assms by (subst merge_entries.simps) (auto split: hval.splits option.splits)

lemma merge_entries_nested:
  "map_of (entries_of h a) k = Some (HMap c) \<Longrightarrow>
   merge_entries h a ((k, HMap s) # es)
     = Option.bind (merge_entries h c (entries_of h s)) (\<lambda>h1. merge_entries h1 a es)"
  by (subst merge_entries.simps) simp

lemma rep_kind: "rep h v j A \<Longrightarrow> (\<exists>a. v = HMap a) \<longleftrightarrow> (\<exists>fs. j = JObj fs)"
  by (cases v) (auto elim: rep_HMapE rep_HLeafE)

lemma rep_lookup_kind:
  assumes "rep h (HMap a) (JObj d) A" "map_of (entries_of h a) k = Some (HMap c)"
  shows "\<exists>dv. map_of d k = Some (JObj dv)"
proof -
  from assms(1) obtain fs A0 where a: "h a = Some fs" "rep_fields h fs d A0" by (auto elim: rep_HMapE)
  show ?thesis
  proof (cases "map_of d k")
    case None
    with rep_fields_absent [OF a(2)] a(1) assms(2) show ?thesis by simp
  next
    case (Some j)
    with rep_fields_present [OF a(2) Some] rep_kind a(1) assms(2) show ?thesis by fastforce
  qed
qed

lemma merge_entries_rep:
  "rep h (HMap a) (JObj d) A \<Longrightarrow> rep_fields h es s B \<Longrightarrow> A \<inter> B = {} \<Longrightarrow>
   \<exists>h' A'. merge_entries h a es = Some h' \<and> rep h' (HMap a) (JObj (merge_fields d s)) A'
     \<and> A' \<subseteq> A \<union> B \<and> (\<forall>x. x \<notin> A \<union> B \<longrightarrow> h' x = h x)"
proof (induction d s arbitrary: h a es A B rule: merge_fields.induct)
  case (1 d)
  then have "es = []" "B = {}" by (auto elim: rep_fields_NilE)
  with 1 show ?case by (intro exI [of _ h] exI [of _ A]) (simp add: merge_entries_Nil)
next
  case (2 d k v s)
  from "2.prems"(2) obtain hv es' Bv Bs where
    es: "es = (k, hv) # es'" "rep h hv v Bv" "rep_fields h es' s Bs" "Bv \<inter> Bs = {}" "B = Bv \<union> Bs"
    by (auto elim: rep_fields_ConsE)
  define w where "w = (case v of JObj s \<Rightarrow> (case map_of d k of Some (JObj d) \<Rightarrow> JObj (merge_fields d s) | _ \<Rightarrow> v) | _ \<Rightarrow> v)"
  have "\<exists>h1 A1. merge_entries h a es = merge_entries h1 a es' \<and> rep h1 (HMap a) (JObj (AList.update k w d)) A1
      \<and> A1 \<subseteq> A \<union> Bv \<and> (\<forall>x. x \<notin> A \<union> Bv \<longrightarrow> h1 x = h x)"
  proof (cases "\<exists>sv dv. v = JObj sv \<and> map_of d k = Some (JObj dv)")
    case True
    then obtain sv dv where v: "v = JObj sv" "map_of d k = Some (JObj dv)" by blast
    from es(2) v obtain b bes Bb where b: "hv = HMap b" "h b = Some bes" "rep_fields h bes sv Bb" "Bv = insert b Bb"
      by (auto elim: rep_JObjE)
    from rep_child [OF "2.prems"(1) v(2)] obtain c K where
      c: "map_of (entries_of h a) k = Some (HMap c)" "rep h (HMap c) (JObj dv) K" "K \<subseteq> A"
        "\<And>h1 K1 j E. rep h1 (HMap c) j K1 \<Longrightarrow> K1 \<subseteq> K \<union> E \<Longrightarrow> A \<inter> E = {} \<Longrightarrow> \<forall>x. x \<notin> K \<union> E \<longrightarrow> h1 x = h x
           \<Longrightarrow> \<exists>A1. rep h1 (HMap a) (JObj (AList.update k j d)) A1 \<and> A1 \<subseteq> A \<union> E"
      by metis
    have "A \<inter> Bb = {}" "K \<inter> Bb = {}" using "2.prems"(3) b(4) es(5) c(3) by blast+
    from "2.IH"(1) [OF v refl c(2) b(3) this(2)] obtain h1 K1 where
      h1: "merge_entries h c bes = Some h1" "rep h1 (HMap c) (JObj (merge_fields dv sv)) K1"
        "K1 \<subseteq> K \<union> Bb" "\<forall>x. x \<notin> K \<union> Bb \<longrightarrow> h1 x = h x"
      by blast
    from c(4) [OF h1(2,3) \<open>A \<inter> Bb = {}\<close> h1(4)] obtain A1 where
      "rep h1 (HMap a) (JObj (AList.update k (JObj (merge_fields dv sv)) d)) A1" "A1 \<subseteq> A \<union> Bb" by blast
    moreover have "merge_entries h a es = merge_entries h1 a es'"
      using es(1) b(1,2) h1(1) merge_entries_nested [OF c(1)] by simp
    moreover have "\<forall>x. x \<notin> A \<union> Bv \<longrightarrow> h1 x = h x" using h1(4) c(3) b(4) by blast
    ultimately show ?thesis unfolding w_def using v b(4) by auto
  next
    case False
    then have w: "w = v" unfolding w_def by (auto split: json.splits option.splits)
    have "\<not> (\<exists>s c. hv = HMap s \<and> map_of (entries_of h a) k = Some (HMap c))"
      using False rep_kind [OF es(2)] rep_lookup_kind [OF "2.prems"(1)] by blast
    then have "merge_entries h a es = merge_entries (put h a k hv) a es'" unfolding es(1) by (rule merge_entries_put)
    moreover have "\<forall>x. x \<notin> A \<union> Bv \<longrightarrow> put h a k hv x = h x"
      using "2.prems"(1) by (auto simp: put_def elim: rep_HMapE)
    moreover have "A \<inter> Bv = {}" using "2.prems"(3) es(5) by blast
    ultimately show ?thesis using rep_put [OF "2.prems"(1) es(2)] w by blast
  qed
  then obtain h1 A1 where s1: "merge_entries h a es = merge_entries h1 a es'"
    "rep h1 (HMap a) (JObj (AList.update k w d)) A1" "A1 \<subseteq> A \<union> Bv" "\<forall>x. x \<notin> A \<union> Bv \<longrightarrow> h1 x = h x"
    by blast
  have disj: "(A \<union> Bv) \<inter> Bs = {}" using "2.prems"(3) es(4,5) by blast
  then have "rep_fields h1 es' s Bs" using rep_frame(2) [OF es(3)] s1(4) by blast
  moreover have "A1 \<inter> Bs = {}" using disj s1(3) by blast
  ultimately obtain h' A' where IH: "merge_entries h1 a es' = Some h'"
    "rep h' (HMap a) (JObj (merge_fields (AList.update k w d) s)) A'"
    "A' \<subseteq> A1 \<union> Bs" "\<forall>x. x \<notin> A1 \<union> Bs \<longrightarrow> h' x = h1 x"
    using "2.IH"(2) [folded w_def] s1(2) by blast
  have "\<forall>x. x \<notin> A \<union> B \<longrightarrow> h' x = h x" "A' \<subseteq> A \<union> B" using IH(3,4) s1(3,4) es(5) by auto
  moreover have "merge_fields d ((k, v) # s) = merge_fields (AList.update k w d) s" by (simp add: w_def)
  ultimately show ?case using IH(1,2) s1(1) by auto
qed

section \<open>Decoding makes a separate tree\<close>

lemma alloc_rep:
  "alloc j h n = (v, h', n') \<Longrightarrow> n \<le> n' \<and> rep h' v j {n..<n'} \<and> (\<forall>x. x < n \<longrightarrow> h' x = h x)"
  "alloc_fields fs h n = (es, h', n') \<Longrightarrow> n \<le> n' \<and> rep_fields h' es fs {n..<n'} \<and> (\<forall>x. x < n \<longrightarrow> h' x = h x)"
proof (induction j h n and fs h n arbitrary: v h' n' and es h' n' rule: alloc_alloc_fields.induct)
  case (1 fs h n)
  obtain es h1 n1 where r: "alloc_fields fs h (Suc n) = (es, h1, n1)" by (cases "alloc_fields fs h (Suc n)")
  from 1(1) [OF r] have IH: "Suc n \<le> n1" "rep_fields h1 es fs {Suc n..<n1}" "\<forall>x. x < Suc n \<longrightarrow> h1 x = h x" by blast+
  have e: "v = HMap n" "h' = h1(n \<mapsto> es)" "n' = n1" using 1(2) r by simp_all
  have "rep_fields h' es fs {Suc n..<n1}" using rep_frame(2) [OF IH(2)] by (simp add: e)
  then have "rep h' (HMap n) (JObj fs) (insert n {Suc n..<n1})" by (intro rep_rep_fields.obj) (simp_all add: e)
  moreover have "insert n {Suc n..<n1} = {n..<n1}" using IH(1) by auto
  ultimately show ?case using IH e(1,3) unfolding e(2) by (auto simp: fun_upd_def)
next
  case (4 k j fs h n)
  obtain v h1 n1 where r: "alloc j h n = (v, h1, n1)" by (cases "alloc j h n")
  obtain es1 h2 n2 where r2: "alloc_fields fs h1 n1 = (es1, h2, n2)" by (cases "alloc_fields fs h1 n1")
  from 4(1) [OF r] have IH1: "n \<le> n1" "rep h1 v j {n..<n1}" "\<forall>x. x < n \<longrightarrow> h1 x = h x" by blast+
  from 4(2) [OF r [symmetric] refl r2] have IH2: "n1 \<le> n2" "rep_fields h2 es1 fs {n1..<n2}" "\<forall>x. x < n1 \<longrightarrow> h2 x = h1 x" by blast+
  have "rep h2 v j {n..<n1}" using rep_frame(1) [OF IH1(2)] IH2(3) by simp
  from rep_rep_fields.cons [OF this IH2(2), of k] have "rep_fields h2 ((k, v) # es1) ((k, j) # fs) ({n..<n1} \<union> {n1..<n2})"
    by auto
  moreover have "{n..<n1} \<union> {n1..<n2} = {n..<n2}" using IH1(1) IH2(1) by auto
  ultimately show ?case using 4(3) r r2 IH1 IH2 by auto
qed (auto intro: rep_rep_fields.intros)

section \<open>Three layers\<close>

text \<open>The layers of a result: a tree at \<open>dst\<close>, below the first free address \<open>n\<close>.\<close>

definition layered :: "heap \<Rightarrow> addr \<Rightarrow> addr \<Rightarrow> (string \<times> json) list \<Rightarrow> bool" where
  "layered h n dst d \<longleftrightarrow> (\<exists>A. rep h (HMap dst) (JObj d) A \<and> A \<subseteq> {..<n})"

text \<open>The values of the patches that have some; none when one of them does not parse.\<close>

fun patch_layers :: "patch_values list \<Rightarrow> (string \<times> json) list list option" where
  "patch_layers [] = Some []"
| "patch_layers (None # ps) = patch_layers ps"
| "patch_layers (Some None # ps) = None"
| "patch_layers (Some (Some fs) # ps) = map_option (Cons fs) (patch_layers ps)"

lemma merge_patches_layered:
  "layered h n dst d \<Longrightarrow>
   (case patch_layers ps of
      None \<Rightarrow> merge_patches h n dst ps = Some (Inl ParsePatchValues)
    | Some trees \<Rightarrow> \<exists>h' n'. merge_patches h n dst ps = Some (Inr h') \<and> layered h' n' dst (foldl merge_fields d trees))"
proof (induction h n dst ps arbitrary: d rule: merge_patches.induct)
  case (4 h n dst fs ps)
  obtain v h1 n1 where r: "alloc (JObj fs) h n = (v, h1, n1)" by (cases "alloc (JObj fs) h n")
  from alloc_rep(1) [OF r] have al: "n \<le> n1" "rep h1 v (JObj fs) {n..<n1}" "\<forall>x. x < n \<longrightarrow> h1 x = h x" by blast+
  have "v = HMap n" using r by (auto split: prod.splits)
  with al(2) obtain es B where es: "h1 n = Some es" "rep_fields h1 es fs B" "{n..<n1} = insert n B"
    by (auto elim: rep_HMapE)
  from "4.prems" obtain A where A: "rep h (HMap dst) (JObj d) A" "A \<subseteq> {..<n}" by (auto simp: layered_def)
  have "rep h1 (HMap dst) (JObj d) A" using rep_frame(1) [OF A(1)] al(3) A(2) by auto
  moreover have B: "B \<subseteq> {n..<n1}" "A \<inter> B = {}" using es(3) A(2) by force+
  ultimately obtain h2 A2 where m: "merge_entries h1 dst es = Some h2"
    "rep h2 (HMap dst) (JObj (merge_fields d fs)) A2" "A2 \<subseteq> A \<union> B"
    using merge_entries_rep es(2) by blast
  have "layered h2 n1 dst (merge_fields d fs)" using m(2,3) B(1) A(2) al(1) by (fastforce simp: layered_def)
  from "4.IH" [OF r [symmetric] refl _ this] m(1) r es(1) show ?case
    by (auto split: option.splits)
qed (auto split: option.splits)

text \<open>A source below \<open>n\<close>: nil, or a tree.\<close>

definition layer :: "heap \<Rightarrow> addr option \<Rightarrow> (string \<times> json) list \<Rightarrow> addr set \<Rightarrow> bool" where
  "layer h src fs A \<longleftrightarrow> (case src of None \<Rightarrow> fs = [] | Some a \<Rightarrow> rep h (HMap a) (JObj fs) A)"

lemma layer_frame: "layer h src fs A \<Longrightarrow> \<forall>x \<in> A. h' x = h x \<Longrightarrow> layer h' src fs A"
  by (auto simp: layer_def rep_frame split: option.splits)

lemma merge_opt_rep:
  assumes "rep h (HMap dst) (JObj d) D" "layer h src fs A" "D \<inter> A = {}"
  shows "\<exists>h' D'. merge_opt h dst src = Some h' \<and> rep h' (HMap dst) (JObj (merge_fields d fs)) D'
           \<and> D' \<subseteq> D \<union> A \<and> (\<forall>x. x \<notin> D \<union> A \<longrightarrow> h' x = h x)"
proof (cases src)
  case None
  with assms show ?thesis by (auto simp: merge_opt_def layer_def)
next
  case (Some a)
  with assms(2) obtain es B where a: "h a = Some es" "rep_fields h es fs B" "A = insert a B"
    by (auto simp: layer_def elim: rep_HMapE)
  from merge_entries_rep [OF assms(1) a(2)] assms(3) a(3) obtain h' D' where
    "merge_entries h dst es = Some h'" "rep h' (HMap dst) (JObj (merge_fields d fs)) D'"
    "D' \<subseteq> D \<union> B" "\<forall>x. x \<notin> D \<union> B \<longrightarrow> h' x = h x"
    by blast
  with Some a show ?thesis by (auto simp: merge_opt_def mergeMaps_def)
qed

text \<open>The values a component is installed with are the three layers merged as trees: the
  defaults, then the values derived from the spec, then every patch in order, whatever the heap
  looks like elsewhere, provided that the defaults and the spec's values share no map (the defaults are
  decoded anew for every merge). A patch that does not parse is the error, whichever patches come
  before it. The merge terminates.\<close>
lemma mergeHelmValues_refines:
  assumes "layer h defaults d A" "layer h config c B" "A \<inter> B = {}" "A \<union> B \<subseteq> {..<n}"
  shows "case patch_layers patches of
           None \<Rightarrow> mergeHelmValues h n defaults config patches = Some (Inl ParsePatchValues)
         | Some trees \<Rightarrow> \<exists>h' R. mergeHelmValues h n defaults config patches = Some (Inr (h', n))
             \<and> rep h' (HMap n) (JObj (foldl merge_fields [] ([d, c] @ trees))) R"
proof -
  let ?h = "h(n \<mapsto> [])"
  have r0: "rep ?h (HMap n) (JObj []) {n}"
    using rep_rep_fields.obj [OF _ rep_rep_fields.nil] by fastforce
  have fr: "\<forall>x \<in> A. ?h x = h x" "\<forall>x \<in> B. ?h x = h x" "n \<notin> A \<union> B" using assms(4) by auto
  from merge_opt_rep [OF r0 layer_frame [OF assms(1) fr(1)]] fr(3) obtain h1 D1 where
    h1: "merge_opt ?h n defaults = Some h1" "rep h1 (HMap n) (JObj (merge_fields [] d)) D1"
      "D1 \<subseteq> {n} \<union> A" "\<forall>x. x \<notin> {n} \<union> A \<longrightarrow> h1 x = ?h x"
    by blast
  have "\<forall>x \<in> B. h1 x = h x" "D1 \<inter> B = {}" using h1(3,4) fr(2,3) assms(3) by auto
  from merge_opt_rep [OF h1(2) layer_frame [OF assms(2) this(1)] this(2)] obtain h2 D2 where
    h2: "merge_opt h1 n config = Some h2" "rep h2 (HMap n) (JObj (merge_fields (merge_fields [] d) c)) D2"
      "D2 \<subseteq> D1 \<union> B"
    by blast
  have "D2 \<subseteq> {..<Suc n}" using h2(3) h1(3) assms(4) by fastforce
  with h2(2) have "layered h2 (Suc n) n (merge_fields (merge_fields [] d) c)" by (auto simp: layered_def)
  from merge_patches_layered [OF this, of patches] h1(1) h2(1) show ?thesis
    by (auto simp: mergeHelmValues_def layered_def split: option.splits)
qed

section \<open>Precedence\<close>

fun wf_tree :: "json \<Rightarrow> bool" where
  "wf_tree (JObj fs) \<longleftrightarrow> distinct (map fst fs) \<and> (\<forall>f \<in> set fs. wf_tree (snd f))"
| "wf_tree _ \<longleftrightarrow> True"

lemma map_of_merge_fields:
  "distinct (map fst s) \<Longrightarrow>
   map_of (merge_fields d s) k =
     (case map_of s k of
        None \<Rightarrow> map_of d k
      | Some v \<Rightarrow> Some (case v of JObj sv \<Rightarrow> (case map_of d k of Some (JObj dv) \<Rightarrow> JObj (merge_fields dv sv) | _ \<Rightarrow> v) | _ \<Rightarrow> v))"
proof (induction s arbitrary: d)
  case (Cons f s)
  obtain k0 v0 where f: "f = (k0, v0)" by (cases f)
  from Cons.prems f have d: "distinct (map fst s)" "k0 = k \<Longrightarrow> map_of s k = None" by (auto simp: map_of_eq_None_iff)
  show ?case
  proof (cases "k0 = k")
    case True
    with Cons.IH [OF d(1)] d(2) f show ?thesis by (simp add: update_conv')
  next
    case False
    then have u: "map_of (AList.update k0 w d) k = map_of d k" for w by (simp add: update_conv')
    from False show ?thesis unfolding f merge_fields.simps Cons.IH [OF d(1)] u by simp
  qed
qed simp

text \<open>The order in which the loop visits the source does not matter.\<close>

lemma merge_fields_order_free:
  "distinct (map fst s) \<Longrightarrow> distinct (map fst s') \<Longrightarrow> set s = set s' \<Longrightarrow>
   map_of (merge_fields d s) = map_of (merge_fields d s')"
proof (rule ext)
  fix k
  assume d: "distinct (map fst s)" "distinct (map fst s')" "set s = set s'"
  then have "map_of s = map_of s'" by (simp add: map_of_inject_set)
  then show "map_of (merge_fields d s) k = map_of (merge_fields d s') k"
    unfolding map_of_merge_fields [OF d(1)] map_of_merge_fields [OF d(2)] by simp
qed

lemma merge_leaf_wins:
  "nested (JObj s) p = Some v \<Longrightarrow> wf_tree (JObj s) \<Longrightarrow> (\<And>fs. v \<noteq> JObj fs) \<Longrightarrow>
   nested (JObj (merge_fields d s)) p = Some v"
proof (induction p arbitrary: s d)
  case (Cons k p)
  from Cons.prems(1) obtain w where w: "map_of s k = Some w" "nested w p = Some v" by (auto split: option.splits)
  have m: "wf_tree w" using w(1) Cons.prems(2) by (auto dest: map_of_SomeD)
  show ?case
  proof (cases "\<exists>sv dv. w = JObj sv \<and> map_of d k = Some (JObj dv)")
    case True
    then obtain sv dv where s: "w = JObj sv" "map_of d k = Some (JObj dv)" by blast
    with w m Cons.IH [of sv dv] Cons.prems(2,3) show ?thesis by (simp add: map_of_merge_fields)
  next
    case False
    with w Cons.prems(2) have "map_of (merge_fields d s) k = Some w"
      by (auto simp: map_of_merge_fields split: json.splits option.splits)
    with w show ?thesis by simp
  qed
qed auto

lemma merge_absent_keeps:
  "distinct (map fst s) \<Longrightarrow> map_of s k = None \<Longrightarrow> nested (JObj (merge_fields d s)) (k # p) = nested (JObj d) (k # p)"
  by (simp add: map_of_merge_fields)

section \<open>Shared maps\<close>

text \<open>The metrics values of Argo CD are shared, so that they are no tree, and a patch that turns the
  metrics of one component off turns them off for the others.\<close>

lemma argocd_patch_leaks:
  "case argocd_values (\<lambda>_. None) 0 True of
     (config, h, n) \<Rightarrow>
       (case mergeHelmValues h n None config [Some (Some [(''controller'', JObj [(''metrics'', JObj [(''enabled'', JBool False)])])])] of
          Some (Inr (h', r)) \<Rightarrow> at_path h' (HMap r) [''server'', ''metrics'', ''enabled''] = Some (HLeaf (JBool False))
        | _ \<Rightarrow> False)"
  by (simp add: argocd_values_def mergeHelmValues_def merge_opt_def mergeMaps_def merge_entries.simps put_def entries_of_def)

end
