(* ===== verification/Platform.thy ===== *)
theory Platform
  imports PlatformObjects PlatformValues
begin

text \<open>
  The reconciler of a \<open>PlatformConfig\<close>: \<open>reconciler/platformConfig.go\<close>, the flow all components share
  (\<open>platform_component.go\<close>), the components (\<open>platform_argocd.go\<close>, \<open>platform_fluxcd.go\<close>,
  \<open>platform_external_secrets_operator.go\<close>, \<open>platform_certManager.go\<close>, \<open>platform_traefik.go\<close>,
  \<open>platform_external_dns.go\<close>, \<open>platform_kube_prometheus_stack.go\<close>, \<open>platform_loki.go\<close>,
  \<open>platform_renovate_operator.go\<close>), the cache of default configurations (\<open>platform_default.go\<close>) and
  of available CRDs (\<open>crd_checker.go\<close>).

  A nil pointer that is dereferenced is the outcome \<open>Panics\<close>: nothing between a reconciler and the
  process recovers. Errors are values of \<open>platform_error\<close>; their text is a parameter.
\<close>

section \<open>Which CRDs are available\<close>

record crdChecker =
  cc_present :: "string list"
  cc_absentAt :: "(string, int) gomap"

text \<open>One minute, in nanoseconds.\<close>

definition absentTTL :: int where
  "absentTTL = 60 * 10 ^ 9"

definition newCRDChecker :: crdChecker where
  "newCRDChecker = \<lparr>cc_present = [], cc_absentAt = []\<rparr>"

text \<open>\<open>list\<close> is what the discovery API lists for the group and version, none on an error.\<close>

definition checkAPI :: "(string \<Rightarrow> string list option) \<Rightarrow> ResourceDescriptor \<Rightarrow> bool" where
  "checkAPI kinds resource =
     (case kinds (rd_ApiVersion resource) of None \<Rightarrow> False | Some ks \<Rightarrow> rd_Kind resource \<in> set ks)"

definition IsAvailable ::
  "(string \<Rightarrow> string list option) \<Rightarrow> int \<Rightarrow> ResourceDescriptor \<Rightarrow> crdChecker \<Rightarrow> bool \<times> crdChecker" where
  "IsAvailable kinds now resource c =
     (let key = rd_ApiVersion resource @ ''/'' @ rd_Kind resource
      in if key \<in> set (cc_present c) then (True, c)
         else if (case map_of (cc_absentAt c) key of None \<Rightarrow> False | Some ts \<Rightarrow> now - ts < absentTTL) then (False, c)
         else if checkAPI kinds resource
         then (True, c\<lparr>cc_absentAt := AList.delete key (cc_absentAt c), cc_present := key # cc_present c\<rparr>)
         else (False, c\<lparr>cc_absentAt := AList.update key now (cc_absentAt c)\<rparr>))"

section \<open>Default configurations\<close>

datatype default_error = FetchDefault string | ParseDefault

record componentDefaultSpec =
  cd_Version :: string
  cd_ValuesObject :: "(string \<times> json) list option"

type_synonym config_cache = "(string, string \<times> int) gomap"

text \<open>Five minutes.\<close>

definition defaultConfigCacheTTL :: int where
  "defaultConfigCacheTTL = 300 * 10 ^ 9"

definition fetchDefaultConfigCached ::
  "(string \<Rightarrow> string + string) \<Rightarrow> int \<Rightarrow> string \<Rightarrow> config_cache \<Rightarrow> (default_error + string) \<times> config_cache" where
  "fetchDefaultConfigCached http now url cache =
     (case map_of cache url of
        Some (body, fetchedAt) \<Rightarrow>
          if now - fetchedAt < defaultConfigCacheTTL then (Inr body, cache)
          else (case http url of
                  Inl e \<Rightarrow> (Inl (FetchDefault e), cache)
                | Inr body \<Rightarrow> (Inr body, AList.update url (body, now) cache))
      | None \<Rightarrow>
          (case http url of
             Inl e \<Rightarrow> (Inl (FetchDefault e), cache)
           | Inr body \<Rightarrow> (Inr body, AList.update url (body, now) cache)))"

definition getDefaultConfig ::
  "(string \<Rightarrow> string + string) \<Rightarrow> (string \<Rightarrow> componentDefaultSpec option) \<Rightarrow> int \<Rightarrow> string \<Rightarrow> string \<Rightarrow> string \<Rightarrow> config_cache
     \<Rightarrow> (default_error + componentDefaultSpec) \<times> config_cache" where
  "getDefaultConfig http yaml now source version component cache =
     (let source = (if source = [] then ''https://raw.githubusercontent.com/mogenius/platform-defaults/refs/heads'' else source);
          url = source @ ''/'' @ version @ ''/'' @ component @ ''.yaml''
      in case fetchDefaultConfigCached http now url cache of
           (Inl e, cache) \<Rightarrow> (Inl e, cache)
         | (Inr body, cache) \<Rightarrow>
             (case yaml body of None \<Rightarrow> (Inl ParseDefault, cache) | Some spec \<Rightarrow> (Inr spec, cache)))"

section \<open>Environment and errors\<close>

text \<open>A raw extra object is unset, does not parse, or is an object.\<close>

record PlatformPatch =
  pp_ValuesObject :: patch_values
  pp_ExtraObjects :: "json option option list"

record 's platform_env =
  pe_dc :: "'s dynamic_client"
  pe_patch :: "'s \<Rightarrow> string \<Rightarrow> api_error + PlatformPatch"
  pe_http :: "string \<Rightarrow> string + string"
  pe_yaml :: "string \<Rightarrow> componentDefaultSpec option"
  pe_available :: "ResourceDescriptor \<Rightarrow> bool"
  pe_ownNamespace :: string
  pe_clusterName :: "string option"
  pe_now :: int
  pe_detection :: detection_env
  pe_devBuild :: bool

datatype extra_error = NoVault string | NoJobVault string | NoDnsVault | NoRenovateName string | BadProvider string

datatype platform_error =
    UninstallFailed string gitops_error
  | DefaultConfigFailed string default_error
  | FetchPatchFailed string api_error
  | MergeFailed string merge_error
  | ExtraObjectsFailed string extra_error
  | ExtractFailed string
  | InstallFailed string gitops_error
  | EngineError engine_error

datatype 'a outcome = Panics | Returns 'a

record 's platform_state =
  pl_cluster :: 's
  pl_cache :: config_cache

datatype operation = createOperation | updateOperation | deleteOperation | backgroundOperation

section \<open>The flow all components share\<close>

record componentSpec =
  co_enabled :: bool
  co_chart :: "HelmChartRef option"
  co_patches :: "string list"
  co_name :: string
  co_defaultNamespace :: string
  co_defaultChart :: string
  co_defaultRepo :: string
  co_defaultName :: string

type_synonym extra_objects = "(extra_error + json list) outcome"

text \<open>Values are built on the heap, from the next free address.\<close>

type_synonym extra_values = "heap \<Rightarrow> addr \<Rightarrow> addr option \<times> heap \<times> addr"

text \<open>Fetching the patches: one that is not found is a nil pointer, which is dereferenced.\<close>

fun fetch_patches :: "(string \<Rightarrow> api_error + PlatformPatch) \<Rightarrow> string list \<Rightarrow> (api_error + PlatformPatch list) outcome" where
  "fetch_patches get [] = Returns (Inr [])"
| "fetch_patches get (r # refs) =
     (case get r of
        Inl err \<Rightarrow> if err \<noteq> ApiNotFound then Returns (Inl err) else Panics
      | Inr patch \<Rightarrow>
          (case fetch_patches get refs of
             Returns (Inr ps) \<Rightarrow> Returns (Inr (patch # ps))
           | other \<Rightarrow> other))"

fun extract_raw :: "json option option list \<Rightarrow> json list option" where
  "extract_raw [] = Some []"
| "extract_raw (None # rs) = extract_raw rs"
| "extract_raw (Some None # rs) = None"
| "extract_raw (Some (Some obj) # rs) = map_option (Cons obj) (extract_raw rs)"

definition extractPatchExtraObjects :: "PlatformPatch list \<Rightarrow> json list option" where
  "extractPatchExtraObjects patches = extract_raw (concat (map pp_ExtraObjects patches))"

definition getSpecificGitOpsConfig :: "GitOpsConfig option \<Rightarrow> ArgoCDSettings option \<times> unit option" where
  "getSpecificGitOpsConfig settings =
     (case settings of
        None \<Rightarrow> (None, None)
      | Some g \<Rightarrow>
          (case gc_ArgoCD g of
             Some a \<Rightarrow> (Some \<lparr>acs_Project = (if ic_Project a \<noteq> [] then ic_Project a else ''mogenius'')\<rparr>, None)
           | None \<Rightarrow> (case gc_FluxCD g of Some f \<Rightarrow> (None, Some ()) | None \<Rightarrow> (None, None))))"

text \<open>The values as they are sent: what the maps hold when they are serialized.\<close>

partial_function (option) snapshot :: "heap \<Rightarrow> entries \<Rightarrow> (string \<times> json) list option" where
  "snapshot h es =
     (case es of
        [] \<Rightarrow> Some []
      | (k, v) # rest \<Rightarrow>
          Option.bind
            (case v of
               HLeaf j \<Rightarrow> Some j
             | HMap a \<Rightarrow> Option.bind (snapshot h (entries_of h a)) (\<lambda>fs. Some (JObj fs)))
            (\<lambda>j. Option.bind (snapshot h rest) (\<lambda>fs. Some ((k, j) # fs))))"

definition alloc_opt :: "(string \<times> json) list option \<Rightarrow> extra_values" where
  "alloc_opt fs h n =
     (case fs of
        None \<Rightarrow> (None, h, n)
      | Some fs \<Rightarrow> (case alloc (JObj fs) h n of (v, h1, n1) \<Rightarrow> (Some n, h1, n1)))"

text \<open>The values of a component: the defaults are decoded, the values of the spec are built, and the
  patches are merged into them. A merge that does not end has no value.\<close>

definition component_values ::
  "componentDefaultSpec \<Rightarrow> extra_values \<Rightarrow> PlatformPatch list \<Rightarrow> (merge_error + (string \<times> json) list) option" where
  "component_values defaults buildExtraValues patches =
     (case alloc_opt (cd_ValuesObject defaults) (\<lambda>_. None) 0 of
        (d, h, n) \<Rightarrow>
          (case buildExtraValues h n of
             (c, h1, n1) \<Rightarrow>
               Option.bind (mergeHelmValues h1 n1 d c (map pp_ValuesObject patches)) (\<lambda>r.
                 case r of
                   Inl e \<Rightarrow> Some (Inl e)
                 | Inr (h2, a) \<Rightarrow> Option.bind (snapshot h2 (entries_of h2 a)) (\<lambda>fs. Some (Inr fs)))))"

definition component_artifact ::
  "PlatformConfigSpec \<Rightarrow> componentSpec \<Rightarrow> string \<Rightarrow> (string \<times> json) list \<Rightarrow> json list \<Rightarrow> GitOpsArtifact" where
  "component_artifact spec cs version vals extra =
     \<lparr>ga_Namespace = helmNamespace (co_chart cs) (co_defaultNamespace cs),
      ga_Values = vals,
      ga_HelmChart =
        \<lparr>hc_Repository = helmRepository (co_chart cs) (co_defaultRepo cs),
         hc_Chart = helmChartName (co_chart cs) (co_defaultChart cs),
         hc_Name = helmReleaseName (co_chart cs) (co_defaultName cs),
         hc_Version = helmVersion (co_chart cs) version\<rparr>,
      ga_ExtraObjects = extra,
      ga_ArgoCD = fst (getSpecificGitOpsConfig (ps_GitOps spec)),
      ga_FluxCD = snd (getSpecificGitOpsConfig (ps_GitOps spec))\<rparr>"

type_synonym 's reconcile_step = "'s platform_state \<Rightarrow> platform_error option outcome \<times> 's platform_state"

definition reconcileComponent ::
  "'s platform_env \<Rightarrow> PlatformConfigSpec \<Rightarrow> GitOpsInstaller \<Rightarrow> operation \<Rightarrow> componentSpec \<Rightarrow> extra_objects \<Rightarrow> extra_values
     \<Rightarrow> 's reconcile_step" where
  "reconcileComponent E spec installer op cs buildExtraObjects buildExtraValues st =
     (if \<not> co_enabled cs \<or> op = deleteOperation
      then (case UnInstall installer (pe_dc E) (co_name cs) (pl_cluster st) of
              (err, s) \<Rightarrow> (Returns (map_option (UninstallFailed (co_name cs)) err), st\<lparr>pl_cluster := s\<rparr>))
      else
        case getDefaultConfig (pe_http E) (pe_yaml E) (pe_now E) (ps_PlatformSource spec) (ps_PlatformVersion spec)
               (co_name cs) (pl_cache st) of
          (Inl err, cache) \<Rightarrow> (Returns (Some (DefaultConfigFailed (co_name cs) err)), st\<lparr>pl_cache := cache\<rparr>)
        | (Inr defaults, cache) \<Rightarrow>
            (let st = st\<lparr>pl_cache := cache\<rparr>
             in case fetch_patches (pe_patch E (pl_cluster st)) (co_patches cs) of
                  Panics \<Rightarrow> (Panics, st)
                | Returns (Inl err) \<Rightarrow> (Returns (Some (FetchPatchFailed (co_name cs) err)), st)
                | Returns (Inr patches) \<Rightarrow>
                    (case component_values defaults buildExtraValues patches of
                       None \<Rightarrow> (Panics, st)
                     | Some (Inl err) \<Rightarrow> (Returns (Some (MergeFailed (co_name cs) err)), st)
                     | Some (Inr mergedValues) \<Rightarrow>
                         (case buildExtraObjects of
                            Panics \<Rightarrow> (Panics, st)
                          | Returns (Inl err) \<Rightarrow> (Returns (Some (ExtraObjectsFailed (co_name cs) err)), st)
                          | Returns (Inr extraObjects) \<Rightarrow>
                              (case extractPatchExtraObjects patches of
                                 None \<Rightarrow> (Returns (Some (ExtractFailed (co_name cs))), st)
                               | Some extraPatchObjects \<Rightarrow>
                                   (case Install installer (pe_dc E) (co_name cs)
                                           (component_artifact spec cs (cd_Version defaults) mergedValues
                                              (extraObjects @ extraPatchObjects)) (pl_cluster st) of
                                      (err, s) \<Rightarrow>
                                        (Returns (map_option (InstallFailed (co_name cs)) err), st\<lparr>pl_cluster := s\<rparr>)))))))"

section \<open>The components\<close>

text \<open>The objects of one element after the other, up to the first that fails.\<close>

fun collect :: "('a \<Rightarrow> extra_objects) \<Rightarrow> 'a list \<Rightarrow> extra_objects" where
  "collect f [] = Returns (Inr [])"
| "collect f (x # xs) =
     (case f x of
        Returns (Inr objs) \<Rightarrow>
          (case collect f xs of
             Returns (Inr rest) \<Rightarrow> Returns (Inr (objs @ rest))
           | other \<Rightarrow> other)
      | other \<Rightarrow> other)"

text \<open>The vault of an external secret is the first of the external secrets operator unless it is named.\<close>

definition with_vault :: "PlatformConfigSpec \<Rightarrow> extra_error \<Rightarrow> ExternalSecret \<Rightarrow> extra_error + ExternalSecret" where
  "with_vault spec err es =
     (if es_Vault es = []
      then (case ps_ExternalSecretsOperator spec of
              None \<Rightarrow> Inl err
            | Some c \<Rightarrow> (case ic_Vaults c of [] \<Rightarrow> Inl err | v # _ \<Rightarrow> Inr (es\<lparr>es_Vault := ev_Name v\<rparr>)))
      else Inr es)"

definition repo_name :: "GitOpsRepositoryConfig \<Rightarrow> string" where
  "repo_name repo = (if gr_Name repo = [] then repositorySecretName (gr_URL repo) else gr_Name repo)"

text \<open>Of an enabled write access the reference to the secret is read without looking whether there is
  one.\<close>

definition write_secret :: "'s platform_env \<Rightarrow> GitOpsRepositoryConfig \<Rightarrow> json list outcome" where
  "write_secret E repo =
     (case gr_Write repo of
        None \<Rightarrow> Returns []
      | Some w \<Rightarrow>
          if gw_Enabled w = Some True
          then (case gw_SecretRef w of
                  None \<Rightarrow> Panics
                | Some None \<Rightarrow> Returns []
                | Some (Some es) \<Rightarrow> Returns [externalSecretResource (repo_name repo @ ''-write'') (pe_ownNamespace E) es [] []])
          else Returns [])"

definition repo_secret ::
  "'s platform_env \<Rightarrow> PlatformConfigSpec \<Rightarrow> string \<Rightarrow> (string \<times> string) list \<Rightarrow> (string \<Rightarrow> (string \<times> string) list)
     \<Rightarrow> GitOpsRepositoryConfig \<Rightarrow> extra_error + json list" where
  "repo_secret E spec namespace labels data repo =
     (case gr_ExternalSecret repo of
        None \<Rightarrow> Inr []
      | Some es \<Rightarrow>
          (case with_vault spec (NoVault (gr_URL repo)) es of
             Inl e \<Rightarrow> Inl e
           | Inr es \<Rightarrow>
               let repoSecretKey = (if es_Key es \<noteq> [] then es_Key es else ''token'')
               in Inr (if pe_available E ExternalSecretResource
                       then [externalSecretResource (repo_name repo) namespace es labels
                               (data (''{{ .'' @ repoSecretKey @ '' }}''))]
                       else [])))"

definition argocd_repository :: "'s platform_env \<Rightarrow> PlatformConfigSpec \<Rightarrow> string \<Rightarrow> string \<Rightarrow> GitOpsRepositoryConfig \<Rightarrow> extra_objects" where
  "argocd_repository E spec namespace project repo =
     (case repo_secret E spec namespace [(''argocd.argoproj.io/secret-type'', ''repository'')]
             (\<lambda>password. [(''type'', ''git''), (''url'', gr_URL repo), (''username'', ''x-token-auth''), (''password'', password)]) repo of
        Inl e \<Rightarrow> Returns (Inl e)
      | Inr secret \<Rightarrow>
          (case write_secret E repo of
             Panics \<Rightarrow> Panics
           | Returns writeSecret \<Rightarrow>
               Returns (Inr (secret
                 @ (if gr_Path repo \<noteq> []
                    then [if has_suffix (gr_Path repo) ''/**''
                          then argoAppSetObject (repo_name repo) repo namespace project
                          else argoApplicationObject (repo_name repo) repo namespace project]
                    else [])
                 @ writeSecret))))"

definition componentArgoCD :: string where
  "componentArgoCD = ''argocd''"

definition reconcileArgoCD ::
  "'s platform_env \<Rightarrow> PlatformConfigSpec \<Rightarrow> GitOpsInstaller \<Rightarrow> operation \<Rightarrow> GitOpsConfig \<Rightarrow> 's reconcile_step" where
  "reconcileArgoCD E spec installer op g st =
     (case gc_ArgoCD g of
        None \<Rightarrow> (Panics, st)
      | Some cfg \<Rightarrow>
          let namespace = helmNamespace (ic_Chart cfg) ''argocd'';
              project = (if ic_Project cfg \<noteq> [] then ic_Project cfg else ''mogenius'')
          in reconcileComponent E spec installer op
            \<lparr>co_enabled = ic_Enabled cfg, co_chart = ic_Chart cfg, co_patches = ic_Patches cfg, co_name = componentArgoCD,
             co_defaultNamespace = ''argocd'', co_defaultChart = ''argo-cd'',
             co_defaultRepo = ''https://argoproj.github.io/argo-helm'', co_defaultName = ''argocd''\<rparr>
            (case collect (argocd_repository E spec namespace project) (gc_Repositories g) of
               Returns (Inr objs) \<Rightarrow> Returns (Inr (argo_app_project project namespace # objs))
             | other \<Rightarrow> other)
            (\<lambda>h n. argocd_values h n (pe_available E ServiceMonitorResource)) st)"

definition fluxcd_repository :: "'s platform_env \<Rightarrow> PlatformConfigSpec \<Rightarrow> string \<Rightarrow> GitOpsRepositoryConfig \<Rightarrow> extra_objects" where
  "fluxcd_repository E spec namespace repo =
     (case repo_secret E spec namespace [] (\<lambda>password. [(''username'', ''git''), (''password'', password)]) repo of
        Inl e \<Rightarrow> Returns (Inl e)
      | Inr secret \<Rightarrow>
          (case write_secret E repo of
             Panics \<Rightarrow> Panics
           | Returns writeSecret \<Rightarrow>
               Returns (Inr (secret
                 @ [fluxGitRepositoryObject (repo_name repo) repo namespace,
                    fluxKustomizationObject (repo_name repo) repo namespace]
                 @ writeSecret))))"

definition componentFluxCD :: string where
  "componentFluxCD = ''flux-operator''"

definition empty_install :: InstallConfig where
  "empty_install = \<lparr>ic_Enabled = False, ic_Patches = [], ic_Chart = None\<rparr>"

definition reconcileFluxCD ::
  "'s platform_env \<Rightarrow> PlatformConfigSpec \<Rightarrow> GitOpsInstaller \<Rightarrow> operation \<Rightarrow> GitOpsConfig \<Rightarrow> 's reconcile_step" where
  "reconcileFluxCD E spec installer op g =
     (let cfg = (case gc_FluxCD g of Some c \<Rightarrow> c | None \<Rightarrow> empty_install);
          namespace = helmNamespace (ic_Chart cfg) ''flux-system''
      in reconcileComponent E spec installer op
        \<lparr>co_enabled = ic_Enabled cfg, co_chart = ic_Chart cfg, co_patches = ic_Patches cfg, co_name = componentFluxCD,
         co_defaultNamespace = ''flux-system'', co_defaultChart = ''flux-operator'',
         co_defaultRepo = ''oci://ghcr.io/controlplaneio-fluxcd/charts/flux-operator'', co_defaultName = ''flux-operator''\<rparr>
        (case collect (fluxcd_repository E spec namespace) (gc_Repositories g) of
           Returns (Inr objs) \<Rightarrow> Returns (Inr (fluxInstanceObject namespace # objs))
         | other \<Rightarrow> other)
        (alloc_opt (if pe_available E ServiceMonitorResource
                    then Some [(''serviceMonitor'', JObj [(''create'', JBool True)])] else None)))"

text \<open>A component of which only the chart is installed.\<close>

definition plain_component ::
  "'s platform_env \<Rightarrow> PlatformConfigSpec \<Rightarrow> GitOpsInstaller \<Rightarrow> operation \<Rightarrow> InstallConfig option \<Rightarrow> string \<Rightarrow> string \<Rightarrow> string \<Rightarrow> string
     \<Rightarrow> 's reconcile_step" where
  "plain_component E spec installer op config name chart repo namespace =
     (let c = (case config of Some c \<Rightarrow> c | None \<Rightarrow> empty_install)
      in reconcileComponent E spec installer op
        \<lparr>co_enabled = ic_Enabled c, co_chart = ic_Chart c, co_patches = ic_Patches c, co_name = name,
         co_defaultNamespace = namespace, co_defaultChart = chart, co_defaultRepo = repo, co_defaultName = name\<rparr>
        (Returns (Inr [])) (alloc_opt None))"

definition reconcileKubePrometheusStack ::
  "'s platform_env \<Rightarrow> PlatformConfigSpec \<Rightarrow> GitOpsInstaller \<Rightarrow> operation \<Rightarrow> 's reconcile_step" where
  "reconcileKubePrometheusStack E spec installer op =
     plain_component E spec installer op (ps_KubePrometheusStack spec) ''kube-prometheus-stack'' ''kube-prometheus-stack''
       ''https://prometheus-community.github.io/helm-charts'' ''monitoring''"

definition reconcileLoki :: "'s platform_env \<Rightarrow> PlatformConfigSpec \<Rightarrow> GitOpsInstaller \<Rightarrow> operation \<Rightarrow> 's reconcile_step" where
  "reconcileLoki E spec installer op =
     plain_component E spec installer op (ps_Loki spec) ''loki'' ''loki''
       ''https://grafana.github.io/helm-charts'' ''monitoring''"

definition reconcileAlloy :: "'s platform_env \<Rightarrow> PlatformConfigSpec \<Rightarrow> GitOpsInstaller \<Rightarrow> operation \<Rightarrow> 's reconcile_step" where
  "reconcileAlloy E spec installer op =
     plain_component E spec installer op (ps_Alloy spec) ''alloy'' ''alloy''
       ''https://grafana.github.io/helm-charts'' ''monitoring''"

definition reconcileExternalSecretsOperator ::
  "'s platform_env \<Rightarrow> PlatformConfigSpec \<Rightarrow> GitOpsInstaller \<Rightarrow> operation \<Rightarrow> 's reconcile_step" where
  "reconcileExternalSecretsOperator E spec installer op =
     (let c = (case ps_ExternalSecretsOperator spec of
                 Some c \<Rightarrow> c
               | None \<Rightarrow> \<lparr>ic_Enabled = False, ic_Patches = [], ic_Chart = None, ic_Vaults = []\<rparr>)
      in reconcileComponent E spec installer op
        \<lparr>co_enabled = ic_Enabled c, co_chart = ic_Chart c, co_patches = ic_Patches c, co_name = ''external-secrets-operator'',
         co_defaultNamespace = ''external-secrets-operator'', co_defaultChart = ''external-secrets'',
         co_defaultRepo = ''https://charts.external-secrets.io'', co_defaultName = ''external-secrets-operator''\<rparr>
        (collect (\<lambda>vault. Returns (case ev_Provider vault of
             None \<Rightarrow> Inl (BadProvider (ev_Name vault))
           | Some provider \<Rightarrow> Inr [vault_object vault provider])) (ic_Vaults c))
        (alloc_opt (if pe_available E ServiceMonitorResource
                    then Some [(''serviceMonitor'', JObj [(''enabled'', JBool True)]),
                               (''metrics'', JObj [(''service'', JObj [(''enabled'', JBool True)])])]
                    else None)))"

definition reconcileCertManager :: "'s platform_env \<Rightarrow> PlatformConfigSpec \<Rightarrow> GitOpsInstaller \<Rightarrow> operation \<Rightarrow> 's reconcile_step" where
  "reconcileCertManager E spec installer op =
     (let c = (case ps_CertManager spec of
                 Some c \<Rightarrow> c
               | None \<Rightarrow> \<lparr>ic_Enabled = False, ic_Patches = [], ic_Chart = None, ic_Issuers = [], ic_ClusterIssuers = []\<rparr>)
      in reconcileComponent E spec installer op
        \<lparr>co_enabled = ic_Enabled c, co_chart = ic_Chart c, co_patches = ic_Patches c, co_name = ''cert-manager'',
         co_defaultNamespace = ''cert-manager'', co_defaultChart = ''cert-manager'',
         co_defaultRepo = ''https://charts.jetstack.io'', co_defaultName = ''cert-manager''\<rparr>
        (Returns (Inr (map buildIssuerObject (ic_Issuers c) @ map buildClusterIssuerObject (ic_ClusterIssuers c))))
        (alloc_opt None))"

text \<open>The service of Traefik is raw JSON and not a map: it is merged as a whole.\<close>

definition traefik_values :: "'s platform_env \<Rightarrow> json option \<Rightarrow> extra_values" where
  "traefik_values E service h n =
     (case alloc (JObj
        (if pe_available E ServiceMonitorResource
         then [(''metrics'', JObj [(''prometheus'', JObj
                 [(''enabled'', JBool True), (''entryPoint'', JStr ''metrics''),
                  (''service'', JObj [(''enabled'', JBool True)]),
                  (''serviceMonitor'', JObj [(''enabled'', JBool True)])])])]
         else [])) h n of
        (v, h1, n1) \<Rightarrow>
          (Some n, (case service of None \<Rightarrow> h1 | Some j \<Rightarrow> put h1 n ''service'' (HLeaf j)), n1))"

definition reconcileTraefik :: "'s platform_env \<Rightarrow> PlatformConfigSpec \<Rightarrow> GitOpsInstaller \<Rightarrow> operation \<Rightarrow> 's reconcile_step" where
  "reconcileTraefik E spec installer op =
     (let t = (case ps_Traefik spec of
                 Some t \<Rightarrow> t
               | None \<Rightarrow> \<lparr>ic_Enabled = False, ic_Patches = [], ic_Chart = None, ic_Service = None\<rparr>)
      in reconcileComponent E spec installer op
        \<lparr>co_enabled = ic_Enabled t, co_chart = ic_Chart t, co_patches = ic_Patches t, co_name = ''traefik'',
         co_defaultNamespace = ''traefik'', co_defaultChart = ''traefik'',
         co_defaultRepo = ''https://helm.traefik.io/traefik'', co_defaultName = ''traefik''\<rparr>
        (Returns (Inr [])) (traefik_values E (ic_Service t)))"

definition external_dns_objects :: "'s platform_env \<Rightarrow> PlatformConfigSpec \<Rightarrow> ExternalDNSConfig \<Rightarrow> string \<Rightarrow> string \<Rightarrow> extra_objects" where
  "external_dns_objects E spec c providerSecretName namespace =
     (let secret = ic_ExternalSecret c;
          objects = (\<lambda>es. Returns (Inr (if pe_available E ExternalSecretResource
             then [externalSecretResource providerSecretName namespace es [] []] else [])))
      in if es_Vault secret = []
         then (case ps_ExternalSecretsOperator spec of
                 None \<Rightarrow> Panics
               | Some eso \<Rightarrow> (case ic_Vaults eso of
                              [] \<Rightarrow> Returns (Inl NoDnsVault)
                            | v # _ \<Rightarrow> objects (secret\<lparr>es_Vault := ev_Name v\<rparr>)))
         else objects secret)"

definition external_dns_values :: "'s platform_env \<Rightarrow> ExternalDNSConfig \<Rightarrow> string \<Rightarrow> (string \<times> json) list" where
  "external_dns_values E c providerSecretName =
     (let (clusterName, failed) = (case pe_clusterName E of None \<Rightarrow> ([], True) | Some v \<Rightarrow> (v, False));
          secretKey = (if es_Key (ic_ExternalSecret c) \<noteq> [] then es_Key (ic_ExternalSecret c) else ''token'')
      in [(''provider'', JObj [(''name'', JStr (ic_Provider c))]),
          (''domainFilters'', JArr (map JStr (ic_DomainFilters c)))]
         @ (if failed \<and> clusterName \<noteq> [] then [(''txtOwnerId'', JStr clusterName)] else [])
         @ (if ic_Provider c = ''cloudflare''
            then [(''env'', JArr [JObj
                    [(''name'', JStr ''CF_API_TOKEN''),
                     (''valueFrom'', JObj [(''secretKeyRef'', JObj
                        [(''name'', JStr providerSecretName), (''key'', JStr secretKey)])])]])]
            else [])
         @ (if pe_available E ServiceMonitorResource then [(''serviceMonitor'', JObj [(''enabled'', JBool True)])] else []))"

text \<open>The provider is read from the spec before anything else, also when there is none.\<close>

definition reconcileExternalDNS :: "'s platform_env \<Rightarrow> PlatformConfigSpec \<Rightarrow> GitOpsInstaller \<Rightarrow> operation \<Rightarrow> 's reconcile_step" where
  "reconcileExternalDNS E spec installer op st =
     (case ps_ExternalDNS spec of
        None \<Rightarrow> (Panics, st)
      | Some c \<Rightarrow>
          let providerSecretName = ic_Provider c @ ''-external-dns'';
              namespace = helmNamespace (ic_Chart c) ''external-dns''
          in reconcileComponent E spec installer op
            \<lparr>co_enabled = ic_Enabled c, co_chart = ic_Chart c, co_patches = ic_Patches c, co_name = ''external-dns'',
             co_defaultNamespace = namespace, co_defaultChart = ''external-dns'',
             co_defaultRepo = ''https://kubernetes-sigs.github.io/external-dns/'', co_defaultName = ''external-dns''\<rparr>
            (external_dns_objects E spec c providerSecretName namespace)
            (alloc_opt (Some (external_dns_values E c providerSecretName))) st)"

definition renovate_objects :: "'s platform_env \<Rightarrow> PlatformConfigSpec \<Rightarrow> string \<Rightarrow> RenovateJobConfig \<Rightarrow> extra_objects" where
  "renovate_objects E spec namespace rc =
     (let name = (if rj_Name rc = [] then rj_GitOpsRepository rc else rj_Name rc)
      in if name = [] then Returns (Inl (NoRenovateName (rj_Filter rc)))
         else Returns
           (case rj_ExternalSecret rc of
              None \<Rightarrow> Inr [renovateJobObject name rc namespace]
            | Some es \<Rightarrow>
                (case with_vault spec (NoJobVault name) es of
                   Inl e \<Rightarrow> Inl e
                 | Inr es \<Rightarrow>
                     Inr ((if pe_available E ExternalSecretResource then [externalSecretResource name namespace es [] []] else [])
                          @ [renovateJobObject name rc namespace]))))"

definition renovate_values :: "'s platform_env \<Rightarrow> int \<Rightarrow> (string \<times> json) list option" where
  "renovate_values E maxParallelJobs =
     (let vals =
        (if maxParallelJobs > 0 then [(''config'', JObj [(''globalParallelismLimit'', JNum maxParallelJobs)])] else [])
        @ (if pe_available E ServiceMonitorResource
           then [(''metrics'', JObj [(''enabled'', JBool True), (''serviceMonitor'', JObj [(''enabled'', JBool True)])])]
           else [])
      in if vals = [] then None else Some vals)"

definition reconcileRenovateOperator :: "'s platform_env \<Rightarrow> PlatformConfigSpec \<Rightarrow> GitOpsInstaller \<Rightarrow> operation \<Rightarrow> 's reconcile_step" where
  "reconcileRenovateOperator E spec installer op =
     (let c = (case ps_RenovateOperator spec of
                 Some c \<Rightarrow> c
               | None \<Rightarrow> \<lparr>ic_Enabled = False, ic_Patches = [], ic_Chart = None, ic_MaxParallelJobs = 0, ic_RenovateRepositories = []\<rparr>);
          namespace = helmNamespace (ic_Chart c) ''renovate-operator''
      in reconcileComponent E spec installer op
        \<lparr>co_enabled = ic_Enabled c, co_chart = ic_Chart c, co_patches = ic_Patches c, co_name = ''renovate-operator'',
         co_defaultNamespace = namespace, co_defaultChart = ''renovate-operator'',
         co_defaultRepo = ''oci://ghcr.io/mogenius/helm-charts/renovate-operator'', co_defaultName = ''renovate-operator''\<rparr>
        (collect (renovate_objects E spec namespace) (ic_RenovateRepositories c))
        (alloc_opt (renovate_values E (ic_MaxParallelJobs c))))"

section \<open>The resource\<close>

record Condition =
  cn_Type :: string
  cn_Status :: bool
  cn_ObservedGeneration :: int
  cn_LastTransitionTime :: int
  cn_Reason :: string
  cn_Message :: string

record PlatformConfig =
  pc_Name :: string
  pc_UID :: string
  pc_Generation :: int
  pc_Spec :: PlatformConfigSpec
  pc_Conditions :: "Condition list"
  pc_GitOpsStatus :: "GitOpsStatus option"

text \<open>A patch of the status: the conditions, when they are sent, and the engine.\<close>

type_synonym status_patch = "Condition list option \<times> GitOpsStatus"

definition conditionsEqual :: "Condition list \<Rightarrow> Condition list \<Rightarrow> bool" where
  "conditionsEqual current desired \<longleftrightarrow>
     length current = length desired \<and>
     list_all2 (\<lambda>c d. cn_Type c = cn_Type d \<and> cn_Status c = cn_Status d \<and> cn_Message c = cn_Message d) current desired"

text \<open>The last of several conditions of a type counts.\<close>

definition existing_condition :: "Condition list \<Rightarrow> string \<Rightarrow> Condition option" where
  "existing_condition cs t = map_of (rev (map (\<lambda>c. (cn_Type c, c)) cs)) t"

definition component_condition ::
  "(platform_error \<Rightarrow> string) \<Rightarrow> int \<Rightarrow> int \<Rightarrow> Condition list \<Rightarrow> string \<times> platform_error option \<Rightarrow> Condition" where
  "component_condition Error now generation existing c =
     (case c of
        (name, result) \<Rightarrow>
          let condStatus = (result = None)
          in \<lparr>cn_Type = name, cn_Status = condStatus, cn_ObservedGeneration = generation,
              cn_LastTransitionTime =
                (case existing_condition existing name of
                   Some prev \<Rightarrow> if cn_Status prev = condStatus then cn_LastTransitionTime prev else now
                 | None \<Rightarrow> now),
              cn_Reason = (if condStatus then ''Ready'' else ''ReconcileFailed''),
              cn_Message = (case result of None \<Rightarrow> ''ready'' | Some e \<Rightarrow> Error e)\<rparr>)"

fun run_components :: "(string \<times> 's reconcile_step) list \<Rightarrow> 's platform_state
    \<Rightarrow> (string \<times> platform_error option) list outcome \<times> 's platform_state" where
  "run_components [] st = (Returns [], st)"
| "run_components ((name, step) # steps) st =
     (case step st of
        (Panics, st1) \<Rightarrow> (Panics, st1)
      | (Returns r, st1) \<Rightarrow>
          (case run_components steps st1 of
             (Panics, st2) \<Rightarrow> (Panics, st2)
           | (Returns rs, st2) \<Rightarrow> (Returns ((name, r) # rs), st2)))"

definition patchGitOpsStatus :: "GitOpsStatus option \<Rightarrow> GitOpsStatus \<Rightarrow> status_patch option" where
  "patchGitOpsStatus current desired = (if current = Some desired then None else Some (None, desired))"

definition owner_reference :: "PlatformConfig \<Rightarrow> json" where
  "owner_reference pc = JObj
     [(''apiVersion'', JStr ''mogenius.com/v1alpha1''), (''kind'', JStr ''PlatformConfig''),
      (''name'', JStr (pc_Name pc)), (''uid'', JStr (pc_UID pc))]"

definition platform_components ::
  "'s platform_env \<Rightarrow> PlatformConfigSpec \<Rightarrow> GitOpsInstaller \<Rightarrow> operation \<Rightarrow> string \<Rightarrow> GitOpsConfig \<Rightarrow> (string \<times> 's reconcile_step) list" where
  "platform_components E spec installer op engine g =
     [if engine = EngineArgoCD then (componentArgoCD, reconcileArgoCD E spec installer op g)
      else (componentFluxCD, reconcileFluxCD E spec installer op g),
      (''external-secrets-operator'', reconcileExternalSecretsOperator E spec installer op),
      (''cert-manager'', reconcileCertManager E spec installer op),
      (''traefik'', reconcileTraefik E spec installer op),
      (''external-dns'', reconcileExternalDNS E spec installer op),
      (''kube-prometheus-stack'', reconcileKubePrometheusStack E spec installer op),
      (''loki'', reconcileLoki E spec installer op),
      (''alloy'', reconcileAlloy E spec installer op),
      (''renovate-operator'', reconcileRenovateOperator E spec installer op)]"

text \<open>The errors of the components, and the patch of the status that is sent, if one is. \<open>Error\<close> is the
  text of an error. An engine is only inferred from a GitOps section.\<close>

definition reconcilePlatformConfig ::
  "'s platform_env \<Rightarrow> (platform_error \<Rightarrow> string) \<Rightarrow> PlatformConfig \<Rightarrow> operation \<Rightarrow> 's platform_state
     \<Rightarrow> (platform_error list \<times> status_patch option) outcome \<times> 's platform_state" where
  "reconcilePlatformConfig E Error pc op st =
     (let gitOpsStatus = buildGitOpsStatus (pc_Spec pc) (detectGitOpsStatus (pe_detection E));
          statusOnly = patchGitOpsStatus (pc_GitOpsStatus pc) gitOpsStatus
      in case (inferGitOpsEngine (ps_GitOps (pc_Spec pc)), ps_GitOps (pc_Spec pc)) of
           (Inl err, _) \<Rightarrow> (Returns ([EngineError err], statusOnly), st)
         | (Inr (engine, engineNs), None) \<Rightarrow> (Returns ([], statusOnly), st)
         | (Inr (engine, engineNs), Some g) \<Rightarrow>
             if engine = [] \<or> \<not> pe_devBuild E then (Returns ([], statusOnly), st)
             else
               (let installer = NewGitOpsInstaller engine engineNs [owner_reference pc]
                in case run_components (platform_components E (pc_Spec pc) installer op engine g) st of
                     (Panics, st) \<Rightarrow> (Panics, st)
                   | (Returns results, st) \<Rightarrow>
                       let conditions = map (component_condition Error (pe_now E) (pc_Generation pc) (pc_Conditions pc)) results
                       in (Returns (List.map_filter snd results,
                             if \<not> conditionsEqual (pc_Conditions pc) conditions \<or> pc_GitOpsStatus pc \<noteq> Some gitOpsStatus
                             then Some (Some conditions, gitOpsStatus) else None), st)))"

section \<open>The values that are sent\<close>

lemma snapshot_rep_fields:
  "rep h v j A \<Longrightarrow> (\<forall>a. v = HMap a \<longrightarrow> (\<exists>fs. j = JObj fs \<and> snapshot h (entries_of h a) = Some fs)) \<and> (\<forall>l. v = HLeaf l \<longrightarrow> j = l)"
  "rep_fields h es fs B \<Longrightarrow> snapshot h es = Some fs"
proof (induction rule: rep_rep_fields.inducts)
  case (cons v j A es fs B k)
  then show ?case by (subst snapshot.simps) (auto split: hval.splits)
qed (auto simp: snapshot.simps)

lemma snapshot_rep: "rep h (HMap a) (JObj fs) A \<Longrightarrow> snapshot h (entries_of h a) = Some fs"
  using snapshot_rep_fields(1) by fastforce

lemma alloc_opt_layer:
  assumes "alloc_opt fs h n = (src, h1, n1)"
  shows "n \<le> n1 \<and> layer h1 src (case fs of None \<Rightarrow> [] | Some x \<Rightarrow> x) {n..<n1} \<and> (\<forall>x. x < n \<longrightarrow> h1 x = h x)"
proof (cases fs)
  case None
  with assms show ?thesis by (auto simp: alloc_opt_def layer_def)
next
  case (Some x)
  obtain v where v: "alloc (JObj x) h n = (v, h1, n1)" "src = Some n"
    using assms Some by (auto simp: alloc_opt_def split: prod.splits)
  then have "v = HMap n" by (auto split: prod.splits)
  with alloc_rep(1) [OF v(1)] v(2) Some show ?thesis by (simp add: layer_def)
qed


section \<open>Uninstalling\<close>

definition step_removes :: "('s \<Rightarrow> obj_key set) \<Rightarrow> obj_key set \<Rightarrow> 's reconcile_step \<Rightarrow> bool" where
  "step_removes live K step \<longleftrightarrow>
     (\<forall>st r st'. step st = (Returns r, st') \<longrightarrow>
        live (pl_cluster st') \<subseteq> live (pl_cluster st)
        \<and> live (pl_cluster st) - K \<subseteq> live (pl_cluster st')
        \<and> (r = None \<longrightarrow> live (pl_cluster st') \<inter> K = {}))"

lemma delete_step_removes:
  assumes "api_server (pe_dc E) live" "co_name cs = name"
  shows "step_removes live (component_keys installer name) (reconcileComponent E spec installer deleteOperation cs objs vals)"
  unfolding step_removes_def
proof (intro allI impI)
  fix st r st'
  assume e: "reconcileComponent E spec installer deleteOperation cs objs vals st = (Returns r, st')"
  obtain err s where u: "UnInstall installer (pe_dc E) name (pl_cluster st) = (err, s)"
    by (cases "UnInstall installer (pe_dc E) name (pl_cluster st)")
  with e assms(2) have "st' = st\<lparr>pl_cluster := s\<rparr>" "r = None \<longrightarrow> err = None" by (auto simp: reconcileComponent_def)
  moreover have "live (pl_cluster st) - component_keys installer name \<subseteq> live s" "live s \<subseteq> live (pl_cluster st)"
    "err = None \<longrightarrow> live s = live (pl_cluster st) - component_keys installer name"
    using UnInstall_removes [OF assms(1), of installer name] u unfolding removes_def by blast+
  ultimately show "live (pl_cluster st') \<subseteq> live (pl_cluster st)
      \<and> live (pl_cluster st) - component_keys installer name \<subseteq> live (pl_cluster st')
      \<and> (r = None \<longrightarrow> live (pl_cluster st') \<inter> component_keys installer name = {})"
    by auto
qed

lemma panic_step_removes: "step_removes live K (\<lambda>st. (Panics, st))"
  by (simp add: step_removes_def)

lemma run_components_removes:
  assumes "run_components steps st = (Returns rs, st')"
    and "\<And>name step. (name, step) \<in> set steps \<Longrightarrow> step_removes live (component_keys installer name) step"
  shows "live (pl_cluster st') \<subseteq> live (pl_cluster st)
    \<and> live (pl_cluster st) - \<Union> (component_keys installer ` fst ` set steps) \<subseteq> live (pl_cluster st')
    \<and> (\<forall>name. (name, None) \<in> set rs \<longrightarrow> live (pl_cluster st') \<inter> component_keys installer name = {})
    \<and> map fst rs = map fst steps"
  using assms
proof (induction steps st arbitrary: rs rule: run_components.induct)
  case (2 name step steps st)
  from "2.prems"(1) obtain r st1 rs1 where
    r: "step st = (Returns r, st1)" "run_components steps st1 = (Returns rs1, st')" "rs = (name, r) # rs1"
    by (auto split: prod.splits outcome.splits)
  have "step_removes live (component_keys installer name) step" using "2.prems"(2) by simp
  with r(1) have s: "live (pl_cluster st1) \<subseteq> live (pl_cluster st)"
    "live (pl_cluster st) - component_keys installer name \<subseteq> live (pl_cluster st1)"
    "r = None \<longrightarrow> live (pl_cluster st1) \<inter> component_keys installer name = {}"
    unfolding step_removes_def by blast+
  have IH: "live (pl_cluster st') \<subseteq> live (pl_cluster st1)"
    "live (pl_cluster st1) - \<Union> (component_keys installer ` fst ` set steps) \<subseteq> live (pl_cluster st')"
    "\<forall>name. (name, None) \<in> set rs1 \<longrightarrow> live (pl_cluster st') \<inter> component_keys installer name = {}"
    "map fst rs1 = map fst steps"
    using "2.IH" [OF r(1) [symmetric] refl r(2)] "2.prems"(2) by auto
  have "\<forall>nm. (nm, None) \<in> set rs \<longrightarrow> live (pl_cluster st') \<inter> component_keys installer nm = {}"
    using s(3) IH(1,3) r(3) by auto
  moreover have "live (pl_cluster st') \<subseteq> live (pl_cluster st)" using s(1) IH(1) by (rule order_trans [rotated])
  moreover have "live (pl_cluster st) - \<Union> (component_keys installer ` fst ` set ((name, step) # steps)) \<subseteq> live (pl_cluster st')"
    using s(2) IH(2) by (simp add: image_Un) blast
  ultimately show ?case using IH(4) r(3) by simp
qed auto

lemma component_steps_remove:
  assumes "api_server (pe_dc E) live"
    and "(name, step) \<in> set (platform_components E spec installer deleteOperation engine g)"
  shows "step_removes live (component_keys installer name) step"
proof -
  note d = delete_step_removes [OF assms(1)]
  have argo: "step_removes live (component_keys installer componentArgoCD) (reconcileArgoCD E spec installer deleteOperation g)"
    unfolding reconcileArgoCD_def Let_def by (cases "gc_ArgoCD g") (auto intro: d panic_step_removes)
  have dns: "step_removes live (component_keys installer ''external-dns'') (reconcileExternalDNS E spec installer deleteOperation)"
    unfolding reconcileExternalDNS_def Let_def by (cases "ps_ExternalDNS spec") (auto intro: d panic_step_removes)
  have flux: "step_removes live (component_keys installer componentFluxCD) (reconcileFluxCD E spec installer deleteOperation g)"
    unfolding reconcileFluxCD_def Let_def by (rule d) simp
  have plain: "step_removes live (component_keys installer nm) (plain_component E spec installer deleteOperation c nm ch repo ns)" for c nm ch repo ns
    unfolding plain_component_def Let_def by (rule d) simp
  have eso: "step_removes live (component_keys installer ''external-secrets-operator'') (reconcileExternalSecretsOperator E spec installer deleteOperation)"
    unfolding reconcileExternalSecretsOperator_def Let_def by (rule d) simp
  have cert: "step_removes live (component_keys installer ''cert-manager'') (reconcileCertManager E spec installer deleteOperation)"
    unfolding reconcileCertManager_def Let_def by (rule d) simp
  have traefik: "step_removes live (component_keys installer ''traefik'') (reconcileTraefik E spec installer deleteOperation)"
    unfolding reconcileTraefik_def Let_def by (rule d) simp
  have renovate: "step_removes live (component_keys installer ''renovate-operator'') (reconcileRenovateOperator E spec installer deleteOperation)"
    unfolding reconcileRenovateOperator_def Let_def by (rule d) simp
  from assms(2) argo dns flux plain eso cert traefik renovate show ?thesis
    unfolding platform_components_def reconcileKubePrometheusStack_def reconcileLoki_def reconcileAlloy_def
    by (auto split: if_splits)
qed

definition component_names :: "string \<Rightarrow> string list" where
  "component_names engine =
     [if engine = EngineArgoCD then componentArgoCD else componentFluxCD, ''external-secrets-operator'', ''cert-manager'',
      ''traefik'', ''external-dns'', ''kube-prometheus-stack'', ''loki'', ''alloy'', ''renovate-operator'']"

lemma platform_components_names: "map fst (platform_components E spec installer op engine g) = component_names engine"
  by (simp add: platform_components_def component_names_def)

lemma inferred_engine_gitops: "inferGitOpsEngine gitOps = Inr (engine, ns) \<Longrightarrow> engine \<noteq> [] \<Longrightarrow> \<exists>g. gitOps = Some g"
  by (cases gitOps) (simp_all add: inferGitOpsEngine_def)

text \<open>A reconcile that installs runs the components.\<close>

lemma reconcilePlatformConfig_runs:
  assumes "inferGitOpsEngine (ps_GitOps (pc_Spec pc)) = Inr (engine, ns)" "engine \<noteq> []" "pe_devBuild E"
    and "ps_GitOps (pc_Spec pc) = Some g"
  shows "fst (reconcilePlatformConfig E Error pc op st) =
      (case fst (run_components (platform_components E (pc_Spec pc) (NewGitOpsInstaller engine ns [owner_reference pc]) op engine g) st) of
         Panics \<Rightarrow> Panics
       | Returns rs \<Rightarrow> Returns (List.map_filter snd rs,
           let cs = map (component_condition Error (pe_now E) (pc_Generation pc) (pc_Conditions pc)) rs;
               gs = buildGitOpsStatus (pc_Spec pc) (detectGitOpsStatus (pe_detection E))
           in if \<not> conditionsEqual (pc_Conditions pc) cs \<or> pc_GitOpsStatus pc \<noteq> Some gs then Some (Some cs, gs) else None))"
    and "snd (reconcilePlatformConfig E Error pc op st) =
      snd (run_components (platform_components E (pc_Spec pc) (NewGitOpsInstaller engine ns [owner_reference pc]) op engine g) st)"
  using assms by (auto simp: reconcilePlatformConfig_def Let_def split: prod.splits outcome.splits)

lemma map_filter_Nil: "List.map_filter snd rs = [] \<Longrightarrow> x \<in> fst ` set rs \<Longrightarrow> (x, None) \<in> set rs"
  by (induction rs) (auto simp: List.map_filter_simps split: option.splits)


definition demo_spec :: "ExternalDNSConfig option \<Rightarrow> PlatformConfigSpec" where
  "demo_spec dns =
     \<lparr>ps_PlatformVersion = ''1'', ps_PlatformSource = [],
      ps_GitOps = Some \<lparr>gc_ArgoCD = Some \<lparr>ic_Enabled = True, ic_Patches = [], ic_Chart = None, ic_Project = []\<rparr>,
        gc_FluxCD = None, gc_Repositories = []\<rparr>,
      ps_CertManager = None, ps_Traefik = None, ps_ExternalDNS = dns, ps_KubePrometheusStack = None,
      ps_Loki = None, ps_Alloy = None, ps_RenovateOperator = None, ps_ExternalSecretsOperator = None\<rparr>"

definition demo_dns :: ExternalDNSConfig where
  "demo_dns = \<lparr>ic_Enabled = False, ic_Patches = [], ic_Chart = None, ic_Provider = [], ic_DomainFilters = [],
     ic_ExternalSecret = \<lparr>es_Vault = [], es_Path = [], es_Key = []\<rparr>\<rparr>"

definition demo_config :: "ExternalDNSConfig option \<Rightarrow> PlatformConfig" where
  "demo_config dns = \<lparr>pc_Name = ''p'', pc_UID = ''1'', pc_Generation = 1, pc_Spec = demo_spec dns, pc_Conditions = [], pc_GitOpsStatus = None\<rparr>"

definition demo_env :: "obj_key list platform_env" where
  "demo_env =
     \<lparr>pe_dc = key_server, pe_patch = (\<lambda>_ _. Inl ApiNotFound), pe_http = (\<lambda>_. Inr []),
      pe_yaml = (\<lambda>_. Some \<lparr>cd_Version = ''1'', cd_ValuesObject = None\<rparr>), pe_available = (\<lambda>_. False),
      pe_ownNamespace = ''mogenius'', pe_clusterName = None, pe_now = 0,
      pe_detection = \<lparr>de_available = (\<lambda>_. False), de_deployments = (\<lambda>_. []), de_fluxReport = (\<lambda>_. None), de_order = id\<rparr>,
      pe_devBuild = True\<rparr>"

lemma demo_engine: "inferGitOpsEngine (ps_GitOps (pc_Spec (demo_config dns))) = Inr (EngineArgoCD, ''argocd'')"
  by (simp add: demo_config_def demo_spec_def inferGitOpsEngine_def helmNamespace_def or_default_def)

lemma demo_env_sel: "pe_dc demo_env = key_server" "pe_devBuild demo_env"
  by (simp_all add: demo_env_def)


section \<open>A configuration without external DNS\<close>

lemma run_components_panics:
  "(name, step) \<in> set steps \<Longrightarrow> (\<And>st. fst (step st) = Panics) \<Longrightarrow> fst (run_components steps st) = Panics"
proof (induction steps st rule: run_components.induct)
  case (2 name' step' steps st)
  show ?case
  proof (cases "step' st")
    case (Pair r st1)
    then show ?thesis
      using "2.IH" [OF Pair [symmetric]] "2.prems" by (cases r) (auto split: prod.splits outcome.splits, (metis fst_conv outcome.distinct(1))+)
  qed
qed simp

text \<open>A platform configuration with an engine and no \<open>externalDns\<close> section crashes the operator, in
  every build that installs components, for every operation: the provider is read from the
  section before it is checked.\<close>
lemma platform_without_external_dns_panics:
  assumes "inferGitOpsEngine (ps_GitOps (pc_Spec pc)) = Inr (engine, ns)" "engine \<noteq> []" "pe_devBuild E"
    and "ps_ExternalDNS (pc_Spec pc) = None"
  shows "fst (reconcilePlatformConfig E Error pc op st) = Panics"
proof -
  from inferred_engine_gitops [OF assms(1,2)] obtain g where g: "ps_GitOps (pc_Spec pc) = Some g" by blast
  let ?i = "NewGitOpsInstaller engine ns [owner_reference pc]"
  have "(''external-dns'', reconcileExternalDNS E (pc_Spec pc) ?i op) \<in> set (platform_components E (pc_Spec pc) ?i op engine g)"
    by (simp add: platform_components_def)
  moreover have "fst (reconcileExternalDNS E (pc_Spec pc) ?i op st) = Panics" for st
    using assms(4) by (simp add: reconcileExternalDNS_def)
  ultimately have "fst (run_components (platform_components E (pc_Spec pc) ?i op engine g) st) = Panics"
    by (rule run_components_panics)
  with reconcilePlatformConfig_runs(1) [OF assms(1-3) g] show ?thesis by simp
qed

section \<open>The status settles\<close>

lemma conditions_settle:
  "conditionsEqual (map (component_condition Error now gen existing) rs) (map (component_condition Error now' gen' existing') rs)"
  by (auto simp: conditionsEqual_def list_all2_conv_all_nth component_condition_def Let_def split: prod.splits)

lemma transition_kept:
  assumes "existing_condition existing name = Some prev" "cn_Status prev = (result = None)"
  shows "cn_LastTransitionTime (component_condition Error now gen existing (name, result)) = cn_LastTransitionTime prev"
  using assms by (simp add: component_condition_def Let_def)

text \<open>After the status was patched, a reconcile whose components end the same way and that finds the same engine
  patches nothing, at whatever time: the update of the status does not cause the next one.\<close>

lemma status_settles:
  assumes "fst (reconcilePlatformConfig E Error pc op st) = Returns (errs, Some (Some cs, gs))"
    and "inferGitOpsEngine (ps_GitOps (pc_Spec pc)) = Inr (engine, ns)" "engine \<noteq> []" "pe_devBuild E"
    and "ps_GitOps (pc_Spec pc) = Some g" "pe_devBuild E'" "pe_detection E' = pe_detection E"
    and "pc' = pc\<lparr>pc_Conditions := cs, pc_GitOpsStatus := Some gs\<rparr>"
    and "fst (run_components (platform_components E' (pc_Spec pc) (NewGitOpsInstaller engine ns [owner_reference pc]) op' engine g) st')
       = fst (run_components (platform_components E (pc_Spec pc) (NewGitOpsInstaller engine ns [owner_reference pc]) op engine g) st)"
  shows "fst (reconcilePlatformConfig E' Error pc' op' st') = Returns (errs, None)"
proof -
  have "owner_reference pc' = owner_reference pc" "pc_Spec pc' = pc_Spec pc" using assms(8) by (simp_all add: owner_reference_def)
  note r' = reconcilePlatformConfig_runs(1) [of pc' engine ns E' g Error op' st', unfolded this, OF assms(2,3,6,5)]
  note r = reconcilePlatformConfig_runs(1) [OF assms(2-5), of Error op st]
  from r assms(1) obtain rs where
    rs: "fst (run_components (platform_components E (pc_Spec pc) (NewGitOpsInstaller engine ns [owner_reference pc]) op engine g) st) = Returns rs"
    "errs = List.map_filter snd rs" "cs = map (component_condition Error (pe_now E) (pc_Generation pc) (pc_Conditions pc)) rs"
    "gs = buildGitOpsStatus (pc_Spec pc) (detectGitOpsStatus (pe_detection E))"
    by (auto simp: Let_def split: outcome.splits if_splits)
  show ?thesis unfolding r' assms(9) rs(1) using rs(2-4) assms(7,8) conditions_settle by (simp add: Let_def)
qed

end
