(* ===== verification/ApiSchema.thy ===== *)
theory ApiSchema
  imports Prelude
begin

text \<open>
  The schema of the request and result types of the API (\<open>schema/schema.go\<close>), which is derived from
  Go types by reflection. A type is an identifier of a table that gives its structure; types refer to
  each other, and to themselves, by identifier, and two types are the same when their identifiers are.
  The map of a layout's properties is shared between the layout that was stored and the one that is
  still being filled, so property maps have addresses.
\<close>

section \<open>Types\<close>

type_synonym tid = nat

record struct_field =
  sf_Name :: string
  sf_PkgPath :: string
  sf_Type :: tid
  sf_Tag :: string

text \<open>\<open>KOther\<close> are the kinds no case handles: channels, complex numbers, raw pointers.\<close>

datatype kind = KBool | KInt | KUint | KFloat | KString | KFunc | KInterface
  | KPointer tid | KMap tid tid | KSlice tid | KStruct string string "struct_field list" | KOther

type_synonym types = "tid \<Rightarrow> kind"

datatype SchemaType = SchemaTypeBoolean | SchemaTypeInteger | SchemaTypeUnsignedInteger | SchemaTypeFloat
  | SchemaTypeString | SchemaTypeStruct | SchemaTypeArray | SchemaTypeMap | SchemaTypeFunction | SchemaTypeAny

datatype TypeInfo = TypeInfo (ti_Type: SchemaType) (ti_Pointer: bool) (ti_ElementType: "TypeInfo option")
  (ti_StructRef: string) (ti_KeyType: "TypeInfo option") (ti_ValueType: "TypeInfo option")

record StructLayout =
  sl_Name :: string
  sl_Properties :: nat
  sl_reflectedType :: tid

record Schema =
  sc_StructLayouts :: "(string, StructLayout) gomap"
  sc_properties :: "(string, TypeInfo) gomap list"

datatype schema_error = NotAStruct | LayoutNotFound

definition TypeInfo_StructLayout :: "TypeInfo \<Rightarrow> Schema \<Rightarrow> schema_error + StructLayout" where
  "TypeInfo_StructLayout ti schema =
     (if ti_Type ti \<noteq> SchemaTypeStruct then Inl NotAStruct
      else case map_of (sc_StructLayouts schema) (ti_StructRef ti) of
             None \<Rightarrow> Inl LayoutNotFound
           | Some layout \<Rightarrow> Inr layout)"

fun struct_fields :: "kind \<Rightarrow> struct_field list" where
  "struct_fields (KStruct pkg name fds) = fds"
| "struct_fields k = []"

definition Equals :: "types \<Rightarrow> StructLayout \<Rightarrow> StructLayout \<Rightarrow> bool" where
  "Equals T self other \<longleftrightarrow>
     sl_Name self = sl_Name other \<and>
     list_all2 (\<lambda>f g. sf_Name f = sf_Name g \<and> sf_PkgPath f = sf_PkgPath g \<and> sf_Type f = sf_Type g)
       (struct_fields (T (sl_reflectedType self))) (struct_fields (T (sl_reflectedType other)))"

section \<open>Generation\<close>

datatype parse_error = DepthExceeded | UnhandledType

text \<open>The first byte of a name, read as a code point, is an upper case letter.\<close>

definition exported :: "string \<Rightarrow> bool" where
  "exported name \<longleftrightarrow>
     (case name of
        [] \<Rightarrow> False
      | c # _ \<Rightarrow> (let n = of_char c :: nat in (65 \<le> n \<and> n \<le> 90) \<or> (192 \<le> n \<and> n \<le> 222 \<and> n \<noteq> 215)))"

text \<open>The name of a field in JSON; none when the field is skipped.\<close>

definition property_name :: "struct_field \<Rightarrow> string option" where
  "property_name f =
     (if \<not> exported (sf_Name f) then None
      else
        let fieldName = (case cut CHR '','' (sf_Tag f) of None \<Rightarrow> sf_Tag f | Some (name, _) \<Rightarrow> name)
        in if fieldName = ''-'' then None
           else if fieldName = [] then Some (sf_Name f)
           else Some fieldName)"

definition simple :: "SchemaType \<Rightarrow> bool \<Rightarrow> TypeInfo" where
  "simple t p = TypeInfo t p None [] None None"

definition struct_name :: "string \<Rightarrow> string \<Rightarrow> string" where
  "struct_name pkg name = (if pkg = [] \<and> name = [] then [] else pkg @ ''.'' @ name)"

definition struct_id :: "Schema \<Rightarrow> string \<Rightarrow> string" where
  "struct_id S name = (if name = [] then ''ANON_STRUCT_'' @ show_nat (length (sc_StructLayouts S)) else name)"

definition set_property :: "nat \<Rightarrow> string \<Rightarrow> TypeInfo \<Rightarrow> Schema \<Rightarrow> Schema" where
  "set_property a k ti S = S\<lparr>sc_properties := (sc_properties S)[a := AList.update k ti (sc_properties S ! a)]\<rparr>"

text \<open>\<open>order\<close> is the order in which the loop over the layouts visits them. The depth bounds the recursion.\<close>

function (sequential) parseSchema ::
    "types \<Rightarrow> ((string, StructLayout) gomap \<Rightarrow> (string, StructLayout) gomap) \<Rightarrow> tid \<Rightarrow> nat \<Rightarrow> Schema \<Rightarrow> (parse_error + TypeInfo) \<times> Schema"
  and parse_fields ::
    "types \<Rightarrow> ((string, StructLayout) gomap \<Rightarrow> (string, StructLayout) gomap) \<Rightarrow> struct_field list \<Rightarrow> nat \<Rightarrow> nat \<Rightarrow> Schema \<Rightarrow> parse_error option \<times> Schema"
  where
  "parseSchema T order input depth S =
     (if depth > 4096 then (Inl DepthExceeded, S)
      else
        case (case T input of KPointer e \<Rightarrow> (e, True) | _ \<Rightarrow> (input, False)) of
          (t, pointer) \<Rightarrow>
            (case T t of
               KBool \<Rightarrow> (Inr (simple SchemaTypeBoolean pointer), S)
             | KInt \<Rightarrow> (Inr (simple SchemaTypeInteger pointer), S)
             | KUint \<Rightarrow> (Inr (simple SchemaTypeUnsignedInteger pointer), S)
             | KFloat \<Rightarrow> (Inr (simple SchemaTypeFloat pointer), S)
             | KString \<Rightarrow> (Inr (simple SchemaTypeString pointer), S)
             | KFunc \<Rightarrow> (Inr (simple SchemaTypeFunction pointer), S)
             | KInterface \<Rightarrow> (Inr (simple SchemaTypeAny True), S)
             | KMap k v \<Rightarrow>
                 (case parseSchema T order k (Suc depth) S of
                    (Inl e, S1) \<Rightarrow> (Inl e, S1)
                  | (Inr kt, S1) \<Rightarrow>
                      (case parseSchema T order v (Suc depth) S1 of
                         (Inl e, S2) \<Rightarrow> (Inl e, S2)
                       | (Inr vt, S2) \<Rightarrow> (Inr (TypeInfo SchemaTypeMap pointer None [] (Some kt) (Some vt)), S2)))
             | KSlice e \<Rightarrow>
                 (case parseSchema T order e (Suc depth) S of
                    (Inl err, S1) \<Rightarrow> (Inl err, S1)
                  | (Inr et, S1) \<Rightarrow> (Inr (TypeInfo SchemaTypeArray pointer (Some et) [] None None), S1))
             | KStruct pkg name fds \<Rightarrow>
                 (let decl = \<lparr>sl_Name = struct_name pkg name, sl_Properties = length (sc_properties S), sl_reflectedType = t\<rparr>
                  in case find (\<lambda>(key, existing). Equals T existing decl) (order (sc_StructLayouts S)) of
                       Some (key, _) \<Rightarrow> (Inr (TypeInfo SchemaTypeStruct pointer None key None None), S)
                     | None \<Rightarrow>
                         let structId = struct_id S (sl_Name decl);
                             S1 = S\<lparr>sc_StructLayouts := AList.update structId decl (sc_StructLayouts S),
                                    sc_properties := sc_properties S @ [[]]\<rparr>
                         in case parse_fields T order fds (sl_Properties decl) depth S1 of
                              (Some err, S2) \<Rightarrow> (Inl err, S2)
                            | (None, S2) \<Rightarrow> (Inr (TypeInfo SchemaTypeStruct pointer None structId None None), S2))
             | _ \<Rightarrow> (Inl UnhandledType, S)))"
| "parse_fields T order [] a depth S = (None, S)"
| "parse_fields T order (f # fs) a depth S =
     (case property_name f of
        None \<Rightarrow> parse_fields T order fs a depth S
      | Some fieldName \<Rightarrow>
          (case parseSchema T order (sf_Type f) (Suc depth) S of
             (Inl err, S1) \<Rightarrow> (Some err, S1)
           | (Inr ft, S1) \<Rightarrow> parse_fields T order fs a depth (set_property a fieldName ft S1)))"
  by pat_completeness auto

termination
  by (relation "inv_image (less_than <*lex*> less_than)
      (\<lambda>x. case x of
         Inl (T, order, input, depth, S) \<Rightarrow> (4097 - depth, 0)
       | Inr (T, order, fs, a, depth, S) \<Rightarrow> (4096 - depth, Suc (length fs)))") auto

declare parseSchema.simps [simp del]

definition empty_schema :: Schema where
  "empty_schema = \<lparr>sc_StructLayouts = [], sc_properties = []\<rparr>"

text \<open>An untyped nil has no type.\<close>

definition TryGenerate ::
  "types \<Rightarrow> ((string, StructLayout) gomap \<Rightarrow> (string, StructLayout) gomap) \<Rightarrow> tid option \<Rightarrow> parse_error + TypeInfo \<times> Schema" where
  "TryGenerate T order input =
     (case input of
        None \<Rightarrow> Inr (simple SchemaTypeAny True, empty_schema)
      | Some t \<Rightarrow>
          (case parseSchema T order t 0 empty_schema of
             (Inl e, _) \<Rightarrow> Inl e
           | (Inr ti, S) \<Rightarrow> Inr (ti, S)))"

definition Generate ::
  "types \<Rightarrow> ((string, StructLayout) gomap \<Rightarrow> (string, StructLayout) gomap) \<Rightarrow> tid option \<Rightarrow> (TypeInfo \<times> Schema) option" where
  "Generate T order input = (case TryGenerate T order input of Inl _ \<Rightarrow> None | Inr r \<Rightarrow> Some r)"

text \<open>The fixed schemas; \<open>Interface\<close> and \<open>Error\<close> are the same as \<open>Any\<close>.\<close>

definition String_schema :: "TypeInfo \<times> Schema" where
  "String_schema = (simple SchemaTypeString False, empty_schema)"

definition Any_schema :: "TypeInfo \<times> Schema" where
  "Any_schema = (simple SchemaTypeAny True, empty_schema)"

section \<open>References resolve\<close>

text \<open>A type info that a type info consists of, itself included.\<close>

inductive part_of :: "TypeInfo \<Rightarrow> TypeInfo \<Rightarrow> bool" where
  self: "part_of ti ti"
| elem: "ti_ElementType ti = Some e \<Longrightarrow> part_of x e \<Longrightarrow> part_of x ti"
| key: "ti_KeyType ti = Some e \<Longrightarrow> part_of x e \<Longrightarrow> part_of x ti"
| val: "ti_ValueType ti = Some e \<Longrightarrow> part_of x e \<Longrightarrow> part_of x ti"

inductive_simps part_of_iff: "part_of x (TypeInfo t p e r k v)"

lemma part_of_simple [simp]: "part_of x (simple t p) \<longleftrightarrow> x = simple t p"
  by (auto simp: simple_def part_of_iff)

definition resolves :: "Schema \<Rightarrow> TypeInfo \<Rightarrow> bool" where
  "resolves S ti \<longleftrightarrow> (\<forall>x. part_of x ti \<longrightarrow> ti_Type x = SchemaTypeStruct \<longrightarrow> ti_StructRef x \<in> fst ` set (sc_StructLayouts S))"

definition schema_inv :: "Schema \<Rightarrow> bool" where
  "schema_inv S \<longleftrightarrow>
     (\<forall>ps \<in> set (sc_properties S). \<forall>p \<in> set ps. resolves S (snd p)) \<and>
     (\<forall>l \<in> set (sc_StructLayouts S). sl_Properties (snd l) < length (sc_properties S))"

definition grows :: "Schema \<Rightarrow> Schema \<Rightarrow> bool" where
  "grows S S' \<longleftrightarrow>
     fst ` set (sc_StructLayouts S) \<subseteq> fst ` set (sc_StructLayouts S') \<and> length (sc_properties S) \<le> length (sc_properties S')"

lemma grows_refl [simp]: "grows S S"
  by (simp add: grows_def)

lemma grows_trans: "grows S S' \<Longrightarrow> grows S' S'' \<Longrightarrow> grows S S''"
  by (auto simp: grows_def)

lemma resolves_mono: "resolves S ti \<Longrightarrow> grows S S' \<Longrightarrow> resolves S' ti"
  by (auto simp: resolves_def grows_def)

lemma resolves_intros:
  "t \<noteq> SchemaTypeStruct \<Longrightarrow> resolves S (simple t p)"
  "r \<in> fst ` set (sc_StructLayouts S) \<Longrightarrow> resolves S (TypeInfo SchemaTypeStruct p None r None None)"
  "resolves S e \<Longrightarrow> resolves S (TypeInfo SchemaTypeArray p (Some e) [] None None)"
  "resolves S k \<Longrightarrow> resolves S v \<Longrightarrow> resolves S (TypeInfo SchemaTypeMap p None [] (Some k) (Some v))"
  unfolding resolves_def part_of_simple part_of_iff by (auto simp: simple_def)

lemma set_property_grows [simp]: "grows S (set_property a k ti S)"
  by (simp add: grows_def set_property_def)

lemma set_property_inv:
  assumes "schema_inv S" "resolves S ti" "a < length (sc_properties S)"
  shows "schema_inv (set_property a k ti S)"
proof -
  have "resolves (set_property a k ti S) x" if "resolves S x" for x
    using resolves_mono [OF that set_property_grows] .
  moreover have "\<forall>p \<in> set (AList.update k ti (sc_properties S ! a)). resolves S (snd p)"
  proof -
    have "set (AList.update k ti ps) \<subseteq> insert (k, ti) (set ps)" for ps :: "(string, TypeInfo) gomap"
      by (induction ps) auto
    then show ?thesis using assms nth_mem [OF assms(3)] unfolding schema_inv_def by fastforce
  qed
  ultimately show ?thesis
    using assms unfolding schema_inv_def set_property_def
    by (auto dest!: set_update_subset_insert [THEN subsetD])
qed

lemma add_layout:
  assumes "schema_inv S" "sl_Properties decl = length (sc_properties S)"
    and S1: "S1 = S\<lparr>sc_StructLayouts := AList.update sid decl (sc_StructLayouts S), sc_properties := sc_properties S @ [[]]\<rparr>"
  shows "schema_inv S1 \<and> grows S S1 \<and> sid \<in> fst ` set (sc_StructLayouts S1) \<and> sl_Properties decl < length (sc_properties S1)"
proof -
  have u: "set (AList.update sid l ls) \<subseteq> insert (sid, l) (set ls)" for l and ls :: "(string, StructLayout) gomap"
    by (induction ls) auto
  have k: "fst ` set (AList.update sid l ls) = insert sid (fst ` set ls)" for l and ls :: "(string, StructLayout) gomap"
    using dom_update [of sid l ls] by simp
  have g: "grows S S1" by (auto simp: grows_def S1 k)
  have "\<forall>ps \<in> set (sc_properties S1). \<forall>p \<in> set ps. resolves S1 (snd p)"
    using assms(1) resolves_mono [OF _ g] unfolding schema_inv_def by (auto simp: S1)
  moreover have "\<forall>l \<in> set (sc_StructLayouts S1). sl_Properties (snd l) < length (sc_properties S1)"
    using assms(1,2) u unfolding schema_inv_def S1 by fastforce
  ultimately show ?thesis using g assms(2) by (auto simp: schema_inv_def S1 k)
qed

definition parse_ok :: "Schema \<Rightarrow> (parse_error + TypeInfo) \<times> Schema \<Rightarrow> bool" where
  "parse_ok S r \<longleftrightarrow> schema_inv (snd r) \<and> grows S (snd r) \<and> (\<forall>ti. fst r = Inr ti \<longrightarrow> resolves (snd r) ti)"

lemma parse_okI:
  "schema_inv S' \<Longrightarrow> grows S S' \<Longrightarrow> resolves S' ti \<Longrightarrow> parse_ok S (Inr ti, S')"
  "schema_inv S' \<Longrightarrow> grows S S' \<Longrightarrow> parse_ok S (Inl e, S')"
  by (simp_all add: parse_ok_def)

lemma parse_map_ok:
  assumes "parse_ok S (parseSchema T order k d S)"
    and "\<And>kt S1. parseSchema T order k d S = (Inr kt, S1) \<Longrightarrow> parse_ok S1 (parseSchema T order v d S1)"
  shows "parse_ok S
    (case parseSchema T order k d S of
       (Inl e, S1) \<Rightarrow> (Inl e, S1)
     | (Inr kt, S1) \<Rightarrow>
         (case parseSchema T order v d S1 of
            (Inl e, S2) \<Rightarrow> (Inl e, S2)
          | (Inr vt, S2) \<Rightarrow> (Inr (TypeInfo SchemaTypeMap pointer None [] (Some kt) (Some vt)), S2)))"
proof (cases "parseSchema T order k d S")
  case (Pair r S1)
  show ?thesis
  proof (cases r)
    case (Inl e)
    with assms(1) Pair show ?thesis by (simp add: parse_ok_def)
  next
    case (Inr kt)
    with assms(1) Pair have S1: "grows S S1" "resolves S1 kt" by (simp_all add: parse_ok_def)
    obtain r2 S2 where r2: "parseSchema T order v d S1 = (r2, S2)" by (cases "parseSchema T order v d S1")
    from assms(2) Pair Inr r2 have "parse_ok S1 (r2, S2)" by simp
    with S1 Pair Inr r2 show ?thesis
      by (cases r2) (auto simp: parse_ok_def intro: grows_trans resolves_intros resolves_mono)
  qed
qed

lemma parse_slice_ok:
  assumes "parse_ok S (parseSchema T order e d S)"
  shows "parse_ok S
    (case parseSchema T order e d S of
       (Inl err, S1) \<Rightarrow> (Inl err, S1)
     | (Inr et, S1) \<Rightarrow> (Inr (TypeInfo SchemaTypeArray pointer (Some et) [] None None), S1))"
  using assms by (auto simp: parse_ok_def intro: resolves_intros split: prod.splits sum.splits)

lemma parseSchema_ok:
  "schema_inv S \<Longrightarrow> \<forall>m. set (order m) \<subseteq> set m \<Longrightarrow> parse_ok S (parseSchema T order t d S)"
  "schema_inv S' \<Longrightarrow> \<forall>m. set (order m) \<subseteq> set m \<Longrightarrow> a < length (sc_properties S') \<Longrightarrow>
     schema_inv (snd (parse_fields T order fs a d' S')) \<and> grows S' (snd (parse_fields T order fs a d' S'))"
proof (induction T order t d S and T order fs a d' S' rule: parseSchema_parse_fields.induct)
  case (1 T order t d S)
  show ?case
  proof (cases "4096 < d")
    case True
    with 1(5) show ?thesis by (simp add: parseSchema.simps parse_ok_def)
  next
    case d: False
    obtain u p where u: "(u, p) = (case T t of KPointer e \<Rightarrow> (e, True) | _ \<Rightarrow> (t, False))" by (metis prod.collapse)
    note body = parseSchema.simps [of T order t d S, unfolded u [symmetric] prod.case]
    show ?thesis
    proof (cases "T u")
      case (KMap k v)
      have "parse_ok S (parseSchema T order k (Suc d) S)" using 1(1) [OF d u KMap 1(5,6)] .
      moreover have "parse_ok S1 (parseSchema T order v (Suc d) S1)" if "parseSchema T order k (Suc d) S = (Inr kt, S1)" for kt S1
        using 1(2) [OF d u KMap that [symmetric] refl _ 1(6)] calculation that by (simp add: parse_ok_def)
      ultimately show ?thesis using d by (simp only: body KMap kind.case if_False) (rule parse_map_ok)
    next
      case (KSlice e)
      have "parse_ok S (parseSchema T order e (Suc d) S)" using 1(3) [OF d u KSlice 1(5,6)] .
      then show ?thesis using d by (simp only: body KSlice kind.case if_False) (rule parse_slice_ok)
    next
      case (KStruct pkg name fds)
      let ?decl = "\<lparr>sl_Name = struct_name pkg name, sl_Properties = length (sc_properties S), sl_reflectedType = u\<rparr>"
      show ?thesis
      proof (cases "find (\<lambda>(key, existing). Equals T existing ?decl) (order (sc_StructLayouts S))")
        case (Some kl)
        obtain key l where kl: "kl = (key, l)" by (cases kl)
        from Some kl have "(key, l) \<in> set (order (sc_StructLayouts S))" by (metis find_Some_iff nth_mem)
        then have "key \<in> fst ` set (sc_StructLayouts S)" using 1(6) by force
        with 1(5) d Some kl show ?thesis by (simp add: body KStruct parse_okI(1) resolves_intros)
      next
        case None
        let ?sid = "struct_id S (sl_Name ?decl)"
        let ?S1 = "S\<lparr>sc_StructLayouts := AList.update ?sid ?decl (sc_StructLayouts S), sc_properties := sc_properties S @ [[]]\<rparr>"
        from add_layout [OF 1(5) _ refl, of ?decl ?sid] have S1: "schema_inv ?S1" "grows S ?S1"
          "?sid \<in> fst ` set (sc_StructLayouts ?S1)" "sl_Properties ?decl < length (sc_properties ?S1)" by simp_all
        obtain r S2 where r: "parse_fields T order fds (sl_Properties ?decl) d ?S1 = (r, S2)"
          by (cases "parse_fields T order fds (sl_Properties ?decl) d ?S1")
        have S2: "schema_inv S2" "grows ?S1 S2"
          using 1(4) [OF d u KStruct refl None refl refl S1(1) 1(6) S1(4)] r by simp_all
        have "resolves S2 (TypeInfo SchemaTypeStruct p None ?sid None None)"
          using S1(3) S2(2) by (intro resolves_intros) (auto simp: grows_def)
        with S2 grows_trans [OF S1(2) S2(2)] d None r show ?thesis
          by (simp add: body KStruct Let_def parse_okI split: option.splits)
      qed
    qed (use d 1(5) in \<open>simp_all add: body parse_okI resolves_intros\<close>)
  qed
next
  case (2 T order a d S)
  then show ?case by simp
next
  case (3 T order f fs a d S)
  show ?case
  proof (cases "property_name f")
    case None
    with 3 show ?thesis by simp
  next
    case (Some k)
    obtain r S1 where r: "parseSchema T order (sf_Type f) (Suc d) S = (r, S1)" by (cases "parseSchema T order (sf_Type f) (Suc d) S")
    with "3.IH"(2) [OF Some] "3.prems"(1,2) have ok: "parse_ok S (r, S1)" by simp
    show ?thesis
    proof (cases r)
      case (Inl e)
      with ok r Some show ?thesis by (simp add: parse_ok_def)
    next
      case (Inr ft)
      with ok have S1: "schema_inv S1" "grows S S1" "resolves S1 ft" by (simp_all add: parse_ok_def)
      have a: "a < length (sc_properties S1)" using "3.prems"(3) S1(2) by (simp add: grows_def)
      let ?S = "set_property a k ft S1"
      have "schema_inv ?S" "a < length (sc_properties ?S)" using set_property_inv [OF S1(1,3) a] a by (simp_all add: set_property_def)
      with "3.IH"(3) [OF Some r [symmetric] Inr] "3.prems"(2) have "schema_inv (snd (parse_fields T order fs a d ?S)) \<and> grows ?S (snd (parse_fields T order fs a d ?S))"
        by simp
      moreover have "grows S ?S" using grows_trans [OF S1(2) set_property_grows] .
      ultimately show ?thesis using r Inr Some grows_trans by auto
    qed
  qed
qed

lemma resolves_StructLayout:
  "resolves S ti \<Longrightarrow> part_of x ti \<Longrightarrow> ti_Type x = SchemaTypeStruct \<Longrightarrow> \<exists>l. TypeInfo_StructLayout x S = Inr l"
  unfolding resolves_def TypeInfo_StructLayout_def
  by (auto split: option.splits simp: map_of_eq_None_iff)

lemma TryGenerate_ok:
  assumes "\<forall>m. set (order m) \<subseteq> set m" "TryGenerate T order input = Inr (ti, S)"
  shows "schema_inv S \<and> resolves S ti"
proof (cases input)
  case None
  with assms(2) show ?thesis by (auto simp: TryGenerate_def schema_inv_def empty_schema_def resolves_intros)
next
  case (Some t)
  have "schema_inv empty_schema" by (simp add: schema_inv_def empty_schema_def)
  from parseSchema_ok(1) [OF this assms(1), of T t 0] Some assms(2) show ?thesis
    by (auto simp: TryGenerate_def parse_ok_def split: prod.splits sum.splits)
qed

text \<open>C28: a generated schema has no dangling reference, however the types refer to each other. Every
  struct the type info mentions, at any depth, has a layout, and so has every struct that a
  property of a layout mentions; so looking a layout up never fails for a struct of the schema. The order in which
  the layouts are visited does not matter.\<close>
theorem schema_references_resolve:
  assumes "\<forall>m. set (order m) \<subseteq> set m" "TryGenerate T order input = Inr (ti, S)"
    and "whole = ti \<or> (\<exists>key l k. (key, l) \<in> set (sc_StructLayouts S) \<and> (k, whole) \<in> set (sc_properties S ! sl_Properties l))"
    and "part_of x whole" "ti_Type x = SchemaTypeStruct"
  shows "\<exists>layout. TypeInfo_StructLayout x S = Inr layout"
proof -
  from TryGenerate_ok [OF assms(1,2)] have S: "schema_inv S" "resolves S ti" by simp_all
  have "resolves S whole"
    using assms(3)
  proof (elim disjE exE conjE)
    fix key l k
    assume "(key, l) \<in> set (sc_StructLayouts S)" "(k, whole) \<in> set (sc_properties S ! sl_Properties l)"
    moreover from this(1) S(1) have "sl_Properties l < length (sc_properties S)" by (force simp: schema_inv_def)
    ultimately show "resolves S whole" using S(1) nth_mem unfolding schema_inv_def by fastforce
  qed (use S(2) in simp)
  then show ?thesis using assms(4,5) by (rule resolves_StructLayout)
qed

text \<open>A struct that refers to itself through a slice of pointers.\<close>

definition demo_types :: types where
  "demo_types t =
     (if t = 0 then KStruct ''p'' ''Node'' [\<lparr>sf_Name = ''Next'', sf_PkgPath = [], sf_Type = 2, sf_Tag = ''next,omitempty''\<rparr>,
                                          \<lparr>sf_Name = ''hidden'', sf_PkgPath = ''p'', sf_Type = 3, sf_Tag = []\<rparr>]
      else if t = 1 then KPointer 0
      else if t = 2 then KSlice 1
      else KString)"

lemma demo_schema:
  "TryGenerate demo_types id (Some 0) =
     Inr (TypeInfo SchemaTypeStruct False None ''p.Node'' None None,
       \<lparr>sc_StructLayouts = [(''p.Node'', \<lparr>sl_Name = ''p.Node'', sl_Properties = 0, sl_reflectedType = 0\<rparr>)],
        sc_properties = [[(''next'', TypeInfo SchemaTypeArray False
          (Some (TypeInfo SchemaTypeStruct True None ''p.Node'' None None)) [] None None)]]\<rparr>)"
  by code_simp

theorem schema_references_resolve_witness:
  "\<exists>S ti layout. TryGenerate demo_types id (Some 0) = Inr (ti, S)
     \<and> TypeInfo_StructLayout (TypeInfo SchemaTypeStruct True None ''p.Node'' None None) S = Inr layout"
proof -
  let ?x = "TypeInfo SchemaTypeStruct True None ''p.Node'' None None"
  let ?w = "TypeInfo SchemaTypeArray False (Some ?x) [] None None"
  have "part_of ?x ?w" by (rule part_of.elem [OF _ part_of.self]) simp
  moreover have "\<forall>m. set (id m) \<subseteq> set m" by simp
  ultimately show ?thesis
    using schema_references_resolve [where order = id, OF _ demo_schema, of ?w ?x] demo_schema by fastforce
qed

text \<open>Two struct types of the same package and name (types local to functions can be such) share one
  layout: the second replaces the first, and the reference to the first describes the second.\<close>

lemma same_name_overwrites:
  "case TryGenerate (\<lambda>t. if t = 0 then KStruct ''p'' ''A'' [\<lparr>sf_Name = ''X'', sf_PkgPath = [], sf_Type = 1, sf_Tag = []\<rparr>, \<lparr>sf_Name = ''Y'', sf_PkgPath = [], sf_Type = 2, sf_Tag = []\<rparr>]
       else if t = 1 then KStruct ''p'' ''B'' [\<lparr>sf_Name = ''U'', sf_PkgPath = [], sf_Type = 3, sf_Tag = []\<rparr>]
       else if t = 2 then KStruct ''p'' ''B'' [\<lparr>sf_Name = ''V'', sf_PkgPath = [], sf_Type = 3, sf_Tag = []\<rparr>]
       else KInt) id (Some 0) of
     Inr (ti, S) \<Rightarrow> map fst (sc_StructLayouts S) = [''p.A'', ''p.B'']
       \<and> map_option sl_reflectedType (map_of (sc_StructLayouts S) ''p.B'') = Some 2
   | Inl _ \<Rightarrow> False"
  by code_simp

text \<open>A pointer to a pointer is not handled.\<close>

lemma pointer_to_pointer: "Generate (\<lambda>t. if t < 2 then KPointer (Suc t) else KInt) id (Some 0) = None"
  by code_simp

end
