(* ===== verification/SocketApi.thy ===== *)
theory SocketApi
  imports ErrorStatus
begin

text \<open>
  The request side of the operator's API (\<open>core/socketapi.go\<close>, \<open>structs/datagram.go\<close>,
  \<open>utils/zlib.go\<close>): the table of pattern handlers, the decoding of a request and the building of its
  response, the dispatch of a datagram and its reply, and the loop that reads the messages of the job
  client with its file uploads.

  Clients are numbered, \<open>0\<close> is the default job client. Handlers, JSON decoding and validation, zlib, and the
  file service are parameters. The time a datagram was created and its user are carried along unread
  and are left out.
\<close>

section \<open>Datagrams\<close>

text \<open>A payload is absent, JSON text (\<open>json.RawMessage\<close>), bytes, or a value that has no JSON form.\<close>

datatype payload = NoPayload | RawMessage string | Bytes string | Unmarshalable

record Datagram =
  dg_Id :: string
  dg_Pattern :: string
  dg_Payload :: payload
  dg_Err :: string
  dg_Zlib :: bool

definition CreateDatagramAck :: "string \<Rightarrow> string \<Rightarrow> Datagram" where
  "CreateDatagramAck pattern ident = \<lparr>dg_Id = ident, dg_Pattern = pattern, dg_Payload = NoPayload, dg_Err = [], dg_Zlib = False\<rparr>"

text \<open>The codecs of the standard library: base64, zlib in both directions, and what of their result is
  relied on, the header of RFC 1950: the low four bits of the first byte are 8.\<close>

record codec =
  cd_base64 :: "string \<Rightarrow> string"
  cd_compress :: "string \<Rightarrow> string option"
  cd_decompress :: "string \<Rightarrow> string option"

definition zlib_header :: "codec \<Rightarrow> bool" where
  "zlib_header C \<longleftrightarrow> (\<forall>b x. cd_decompress C b = Some x \<longrightarrow> b \<noteq> [] \<and> (of_char (hd b) :: nat) mod 16 = 8)"

fun json_Marshal :: "codec \<Rightarrow> payload \<Rightarrow> string option" where
  "json_Marshal C NoPayload = Some ''null''"
| "json_Marshal C (RawMessage text) = Some text"
| "json_Marshal C (Bytes b) = Some (CHR 0x22 # cd_base64 C b @ [CHR 0x22])"
| "json_Marshal C Unmarshalable = None"

definition TryZlibDecompress :: "codec \<Rightarrow> payload \<Rightarrow> payload option" where
  "TryZlibDecompress C data =
     (case json_Marshal C data of
        None \<Rightarrow> None
      | Some bytes \<Rightarrow> map_option Bytes (cd_decompress C bytes))"

section \<open>Handlers\<close>

text \<open>A handler computes its response from a datagram and the state of the operator. \<open>ph_Client\<close> is the
  client it is registered for, none for all.\<close>

record 's PatternHandler =
  ph_Callback :: "Datagram \<Rightarrow> 's \<Rightarrow> payload \<times> 's"
  ph_Client :: "nat option"

type_synonym 's handlers = "(string, 's PatternHandler) gomap"

text \<open>Registering a pattern twice panics.\<close>

definition AddPatternHandlerForClient :: "string \<Rightarrow> 's PatternHandler \<Rightarrow> 's handlers \<Rightarrow> 's handlers option" where
  "AddPatternHandlerForClient pattern handler hs =
     (if map_of hs pattern \<noteq> None then None else Some (AList.update pattern handler hs))"

definition upper_char :: "char \<Rightarrow> char" where
  "upper_char c = (let n = of_char c :: nat in if 97 \<le> n \<and> n \<le> 122 then char_of (n - 32) else c)"

definition NormalizePatternName :: "string \<Rightarrow> string" where
  "NormalizePatternName pattern =
     map (\<lambda>c. if c = CHR ''/'' \<or> c = CHR ''-'' then CHR ''_'' else c) (map upper_char pattern)"

definition AssertPatternsUnique :: "'s handlers \<Rightarrow> bool" where
  "AssertPatternsUnique hs \<longleftrightarrow> distinct (map (NormalizePatternName \<circ> fst) hs)"

section \<open>Typed handlers\<close>

text \<open>An error with its text. An error of decoding or validation is of no class the status knows.\<close>

type_synonym api_failure = "string \<times> go_error"

definition plain_error :: go_error where
  "plain_error =
     \<lparr>IsNotFound = False, IsAlreadyExists = False, IsConflict = False, IsForbidden = False, IsUnauthorized = False,
      IsInvalid = False, IsBadRequest = False, IsTimeout = False, IsServerTimeout = False, IsDeadlineExceeded = False,
      IsTooManyRequests = False, IsServiceUnavailable = False, IsNotAcceptable = False, IsUnsupportedMediaType = False,
      IsCanceled = False, StatusCode = None\<rparr>"

text \<open>The response: an error with its message and status, a message, or data. A result that is a string becomes the
  message.\<close>

datatype 'd Result = ResultError string int | ResultMessage string | ResultData 'd

fun buildResponse :: "api_failure + string + 'd \<Rightarrow> 'd Result" where
  "buildResponse (Inl (message, err)) = ResultError message (HttpStatusForError (Some err))"
| "buildResponse (Inr (Inl str)) = ResultMessage str"
| "buildResponse (Inr (Inr data)) = ResultData data"

text \<open>Decoding into the request type: \<open>unmarshal\<close> fails with a text, \<open>validate\<close> too.\<close>

definition LoadRequest ::
  "codec \<Rightarrow> (string \<Rightarrow> string + 'r) \<Rightarrow> ('r \<Rightarrow> string option) \<Rightarrow> Datagram \<Rightarrow> string + 'r" where
  "LoadRequest C unmarshal validate datagram =
     (case json_Marshal C (dg_Payload datagram) of
        None \<Rightarrow> Inl ''json: unsupported type''
      | Some payloadBytes \<Rightarrow>
          (case unmarshal payloadBytes of
             Inl err \<Rightarrow> Inl err
           | Inr data \<Rightarrow> (case validate data of Some err \<Rightarrow> Inl err | None \<Rightarrow> Inr data)))"

text \<open>What is registered for a typed callback: the request is loaded, except for a pointer type without
  payload, which is nil (\<open>zero\<close>).\<close>

definition typed_handler ::
  "codec \<Rightarrow> (string \<Rightarrow> string + 'r) \<Rightarrow> ('r \<Rightarrow> string option) \<Rightarrow> bool \<Rightarrow> 'r
     \<Rightarrow> (Datagram \<Rightarrow> 'r \<Rightarrow> 's \<Rightarrow> (api_failure + string + 'd) \<times> 's) \<Rightarrow> ('d Result \<Rightarrow> payload) \<Rightarrow> Datagram \<Rightarrow> 's \<Rightarrow> payload \<times> 's" where
  "typed_handler C unmarshal validate isPointer zero callback encode datagram s =
     (case (if isPointer \<and> dg_Payload datagram = NoPayload then Inr zero else LoadRequest C unmarshal validate datagram) of
        Inl err \<Rightarrow> (encode (buildResponse (Inl (err, plain_error))), s)
      | Inr data \<Rightarrow> (case callback datagram data s of (result, s1) \<Rightarrow> (encode (buildResponse result), s1)))"

section \<open>Dispatch\<close>

text \<open>What is sent, with the client it goes to.\<close>

type_synonym sent = "(nat \<times> Datagram) list"

text \<open>A datagram whose payload has no JSON form is not sent.\<close>

definition JobServerSendData :: "codec \<Rightarrow> nat \<Rightarrow> Datagram \<Rightarrow> sent" where
  "JobServerSendData C client datagram =
     (if json_Marshal C (dg_Payload datagram) = None then [] else [(client, datagram)])"

text \<open>The payload of an error reply; \<open>text\<close> is its JSON text.\<close>

definition error_reply :: "Datagram \<Rightarrow> string \<Rightarrow> Datagram" where
  "error_reply datagram message =
     \<lparr>dg_Id = dg_Id datagram, dg_Pattern = dg_Pattern datagram,
      dg_Payload = RawMessage (''{\"status\":\"error\",\"message\":\"'' @ message @ ''\"}''), dg_Err = [], dg_Zlib = False\<rparr>"

definition sendNoHandlerError :: "codec \<Rightarrow> nat \<Rightarrow> Datagram \<Rightarrow> sent" where
  "sendNoHandlerError C client datagram =
     JobServerSendData C client (error_reply datagram (''No handler for pattern '' @ [CHR 0x27] @ dg_Pattern datagram @ [CHR 0x27] @ '' found''))"

definition ExecuteCommandRequest :: "'s handlers \<Rightarrow> Datagram \<Rightarrow> 's \<Rightarrow> payload \<times> 's" where
  "ExecuteCommandRequest hs datagram s =
     (case map_of hs (dg_Pattern datagram) of
        Some handler \<Rightarrow> ph_Callback handler datagram s
      | None \<Rightarrow> (RawMessage ''{\"status\":\"error\",\"message\":\"Pattern not found\"}'', s))"

definition compressionThreshold :: nat where
  "compressionThreshold = 1024"

text \<open>The payload of a response and whether it is compressed.\<close>

definition response_payload :: "codec \<Rightarrow> payload \<Rightarrow> payload \<times> bool" where
  "response_payload C response =
     (case json_Marshal C response of
        None \<Rightarrow> (response, False)
      | Some bytes \<Rightarrow>
          if length bytes > compressionThreshold
          then (case cd_compress C bytes of
                  Some compressed \<Rightarrow> (Bytes compressed, True)
                | None \<Rightarrow> (RawMessage bytes, False))
          else (RawMessage bytes, False))"

definition handlePatternRequest :: "codec \<Rightarrow> 's handlers \<Rightarrow> nat \<Rightarrow> Datagram \<Rightarrow> 's \<Rightarrow> sent \<times> 's" where
  "handlePatternRequest C hs responseClient datagram s =
     (case (if dg_Zlib datagram then TryZlibDecompress C (dg_Payload datagram) else Some (dg_Payload datagram)) of
        None \<Rightarrow> (JobServerSendData C responseClient (error_reply datagram ''failed to decompress payload''), s)
      | Some request \<Rightarrow>
          (case ExecuteCommandRequest hs (datagram\<lparr>dg_Payload := request\<rparr>) s of
             (response, s1) \<Rightarrow>
               (case response_payload C response of
                  (payload, shouldCompress) \<Rightarrow>
                    (JobServerSendData C responseClient
                       \<lparr>dg_Id = dg_Id datagram, dg_Pattern = dg_Pattern datagram, dg_Payload = payload, dg_Err = [],
                        dg_Zlib = shouldCompress\<rparr>, s1))))"

text \<open>The two kinds of workers: of a client that is not the default one, and of the default one.\<close>

definition dispatchClientMessage :: "codec \<Rightarrow> 's handlers \<Rightarrow> nat \<Rightarrow> Datagram \<Rightarrow> 's \<Rightarrow> sent \<times> 's" where
  "dispatchClientMessage C hs client datagram s =
     (case map_of hs (dg_Pattern datagram) of
        Some handler \<Rightarrow>
          if ph_Client handler = None \<or> ph_Client handler = Some client then handlePatternRequest C hs client datagram s
          else (sendNoHandlerError C client datagram, s)
      | None \<Rightarrow> (sendNoHandlerError C client datagram, s))"

definition dispatchJobClientMessage :: "codec \<Rightarrow> 's handlers \<Rightarrow> Datagram \<Rightarrow> 's \<Rightarrow> sent \<times> 's" where
  "dispatchJobClientMessage C hs datagram s =
     (if map_of hs (dg_Pattern datagram) \<noteq> None then handlePatternRequest C hs 0 datagram s
      else (sendNoHandlerError C 0 datagram, s))"

definition dispatch :: "codec \<Rightarrow> 's handlers \<Rightarrow> nat \<Rightarrow> Datagram \<Rightarrow> 's \<Rightarrow> sent \<times> 's" where
  "dispatch C hs client = (if client = 0 then dispatchJobClientMessage C hs else dispatchClientMessage C hs client)"

text \<open>The jobs of a client in the order its workers finish them.\<close>

fun run_jobs :: "codec \<Rightarrow> 's handlers \<Rightarrow> nat \<Rightarrow> Datagram list \<Rightarrow> 's \<Rightarrow> sent \<times> 's" where
  "run_jobs C hs client [] s = ([], s)"
| "run_jobs C hs client (d # ds) s =
     (case dispatch C hs client d s of
        (sent1, s1) \<Rightarrow> (case run_jobs C hs client ds s1 of (sent2, s2) \<Rightarrow> (sent1 @ sent2, s2)))"

section \<open>The read loop of the job client\<close>

definition start_upload :: string where
  "start_upload = ''######START_UPLOAD######;''"

definition end_upload :: string where
  "end_upload = ''######END_UPLOAD######;''"

text \<open>Parameters of the loop: parsing a message, the request of an upload, whether a temporary file can be opened,
  and the file service, which gets the contents of the file. \<open>'r\<close> is the type of upload requests.\<close>

record 'r loop_env =
  le_ParseDatagram :: "string \<Rightarrow> Datagram option"
  le_uploadRequest :: "Datagram \<Rightarrow> 'r"
  le_requestId :: "'r \<Rightarrow> string"
  le_open :: "string \<Rightarrow> bool"
  le_Uploaded :: "string \<Rightarrow> 'r \<Rightarrow> string option"

text \<open>The temporary files, the uploads handed to the file service, the acknowledgements and the jobs queued so
  far. \<open>ls_ids\<close> are the identifiers still to be generated.\<close>

record 'r loop_state =
  ls_fileName :: "string option"
  ls_request :: "'r option"
  ls_files :: "(string, string) gomap"
  ls_uploaded :: "(string \<times> 'r) list"
  ls_acks :: "Datagram list"
  ls_jobs :: "Datagram list"
  ls_ids :: "string list"

definition upload_file :: "string \<Rightarrow> string" where
  "upload_file nanoId = ''/tmp/'' @ nanoId @ ''.zip''"

definition start_step :: "'r loop_env \<Rightarrow> 'r loop_state \<Rightarrow> 'r loop_state" where
  "start_step E st =
     (case ls_ids st of
        [] \<Rightarrow> st
      | nanoId # ids \<Rightarrow>
          let name = upload_file nanoId
          in if le_open E name
             then st\<lparr>ls_fileName := Some name, ls_ids := ids,
                     ls_files := (case map_of (ls_files st) name of
                                    Some _ \<Rightarrow> ls_files st
                                  | None \<Rightarrow> AList.update name [] (ls_files st))\<rparr>
             else st\<lparr>ls_fileName := None, ls_ids := ids\<rparr>)"

definition end_step :: "'r loop_env \<Rightarrow> 'r loop_state \<Rightarrow> 'r loop_state" where
  "end_step E st =
     (let content = (case ls_fileName st of
            None \<Rightarrow> []
          | Some name \<Rightarrow> (case map_of (ls_files st) name of Some c \<Rightarrow> c | None \<Rightarrow> []));
          (uploaded, uploadErr) =
            (case (ls_fileName st, ls_request st) of
               (Some name, Some req) \<Rightarrow> ([(content, req)], le_Uploaded E content req)
             | (None, _) \<Rightarrow> ([], Some ''upload failed: could not open temporary file'')
             | (Some name, None) \<Rightarrow> ([], None));
          acks = (case ls_request st of
            None \<Rightarrow> []
          | Some req \<Rightarrow>
              [(CreateDatagramAck ''ack:files/upload:end'' (le_requestId E req))
                 \<lparr>dg_Err := (case uploadErr of None \<Rightarrow> [] | Some e \<Rightarrow> e)\<rparr>])
      in st\<lparr>ls_fileName := None, ls_request := None,
            ls_files := (case ls_fileName st of None \<Rightarrow> ls_files st | Some name \<Rightarrow> AList.delete name (ls_files st)),
            ls_uploaded := ls_uploaded st @ uploaded, ls_acks := ls_acks st @ acks\<rparr>)"

definition loop_step :: "'r loop_env \<Rightarrow> string \<Rightarrow> 'r loop_state \<Rightarrow> 'r loop_state" where
  "loop_step E message st =
     (if message = [] then st
      else if has_prefix message start_upload then start_step E st
      else if has_prefix message end_upload then end_step E st
      else
        case ls_fileName st of
          Some name \<Rightarrow>
            st\<lparr>ls_files := AList.update name
                 ((case map_of (ls_files st) name of Some c \<Rightarrow> c | None \<Rightarrow> []) @ message) (ls_files st)\<rparr>
        | None \<Rightarrow>
            (case le_ParseDatagram E message of
               None \<Rightarrow> st
             | Some datagram \<Rightarrow>
                 if dg_Pattern datagram = ''files/upload''
                 then st\<lparr>ls_request := Some (le_uploadRequest E datagram),
                         ls_acks := ls_acks st @ [CreateDatagramAck ''ack:files/upload:datagram'' (dg_Id datagram)]\<rparr>
                 else st\<lparr>ls_jobs := ls_jobs st @ [datagram]\<rparr>))"

definition read_loop :: "'r loop_env \<Rightarrow> string list \<Rightarrow> 'r loop_state \<Rightarrow> 'r loop_state" where
  "read_loop E messages st = fold (loop_step E) messages st"

section \<open>Registration\<close>

lemma AddPatternHandler_once:
  "AddPatternHandlerForClient pattern h hs = Some hs' \<Longrightarrow> AddPatternHandlerForClient pattern h' hs' = None"
  by (auto simp: AddPatternHandlerForClient_def split: if_splits)

lemma AddPatternHandler_keeps:
  "AddPatternHandlerForClient pattern h hs = Some hs' \<Longrightarrow> map_of hs p = Some h' \<Longrightarrow> map_of hs' p = Some h'"
  by (auto simp: AddPatternHandlerForClient_def split: if_splits)

text \<open>Patterns that differ only in case or in the separator are the same pattern to clients.\<close>

lemma normalized_collision: "NormalizePatternName ''live-stream/pod-cpu'' = NormalizePatternName ''live-stream/pod/cpu''"
  by code_simp

section \<open>Replies\<close>

definition answers :: "nat \<Rightarrow> Datagram \<Rightarrow> sent \<Rightarrow> bool" where
  "answers client d out \<longleftrightarrow> map (\<lambda>(c, r). (c, dg_Id r, dg_Pattern r)) out = [(client, dg_Id d, dg_Pattern d)]"

lemma error_reply_answers [simp]:
  "answers client d (JobServerSendData C client (error_reply d m))" "answers client d (sendNoHandlerError C client d)"
  by (simp_all add: answers_def JobServerSendData_def sendNoHandlerError_def error_reply_def)

definition encodable :: "'s handlers \<Rightarrow> bool" where
  "encodable hs \<longleftrightarrow> (\<forall>h \<in> snd ` set hs. \<forall>d s. fst (ph_Callback h d s) \<noteq> Unmarshalable)"

lemma json_Marshal_None [simp]: "json_Marshal C p = None \<longleftrightarrow> p = Unmarshalable"
  by (cases p) simp_all

lemma response_payload_encodable: "response \<noteq> Unmarshalable \<Longrightarrow> fst (response_payload C response) \<noteq> Unmarshalable"
  by (cases "json_Marshal C response") (auto simp: response_payload_def split: option.splits)

lemma ExecuteCommandRequest_encodable: "encodable hs \<Longrightarrow> fst (ExecuteCommandRequest hs d s) \<noteq> Unmarshalable"
  by (fastforce simp: ExecuteCommandRequest_def encodable_def split: option.splits dest: map_of_SomeD)

lemma handlePatternRequest_answers:
  assumes "encodable hs"
  shows "answers client d (fst (handlePatternRequest C hs client d s))"
proof (cases "if dg_Zlib d then TryZlibDecompress C (dg_Payload d) else Some (dg_Payload d)")
  case None
  then show ?thesis by (simp add: handlePatternRequest_def)
next
  case (Some request)
  obtain response s1 where r: "ExecuteCommandRequest hs (d\<lparr>dg_Payload := request\<rparr>) s = (response, s1)"
    by (cases "ExecuteCommandRequest hs (d\<lparr>dg_Payload := request\<rparr>) s")
  obtain pl z where p: "response_payload C response = (pl, z)" by (cases "response_payload C response")
  have "pl \<noteq> Unmarshalable"
    using response_payload_encodable [of response C] ExecuteCommandRequest_encodable [OF assms, of "d\<lparr>dg_Payload := request\<rparr>" s] r p by simp
  with Some r p show ?thesis by (simp add: handlePatternRequest_def answers_def JobServerSendData_def)
qed

lemma dispatch_answers: "encodable hs \<Longrightarrow> answers client d (fst (dispatch C hs client d s))"
  using handlePatternRequest_answers
  by (auto simp: dispatch_def dispatchClientMessage_def dispatchJobClientMessage_def split: option.splits)


definition demo_codec :: codec where
  "demo_codec =
     \<lparr>cd_base64 = id, cd_compress = (\<lambda>b. Some (CHR 0x78 # b)),
      cd_decompress = (\<lambda>b. case b of c # cs \<Rightarrow> if c = CHR 0x78 then Some cs else None | [] \<Rightarrow> None)\<rparr>"

definition demo_handlers :: "nat handlers" where
  "demo_handlers = [(''describe'', \<lparr>ph_Callback = (\<lambda>d n. (RawMessage ''{}'', Suc n)), ph_Client = None\<rparr>),
                    (''only-2'', \<lparr>ph_Callback = (\<lambda>d n. (RawMessage ''{}'', Suc n)), ph_Client = Some 2\<rparr>)]"

definition demo_datagram :: "string \<Rightarrow> string \<Rightarrow> Datagram" where
  "demo_datagram ident pattern = \<lparr>dg_Id = ident, dg_Pattern = pattern, dg_Payload = NoPayload, dg_Err = [], dg_Zlib = False\<rparr>"

lemma demo_encodable: "encodable demo_handlers"
  by (simp add: encodable_def demo_handlers_def)


text \<open>A response without a JSON form is logged and not sent: the request stays unanswered.\<close>

lemma unmarshalable_unanswered:
  assumes "map_of hs (dg_Pattern d) = Some h" "\<not> dg_Zlib d" "fst (ph_Callback h d s) = Unmarshalable"
  shows "fst (dispatchJobClientMessage C hs d s) = []"
proof -
  obtain r s1 where r: "ph_Callback h d s = (r, s1)" by (cases "ph_Callback h d s")
  have "d\<lparr>dg_Payload := dg_Payload d\<rparr> = d" by simp
  with assms r show ?thesis
    by (simp add: dispatchJobClientMessage_def handlePatternRequest_def ExecuteCommandRequest_def response_payload_def JobServerSendData_def)
qed

text \<open>A handler that is registered for one client also answers on the default client, and handlers that
  are registered for none answer on every client.\<close>

lemma client_handlers_reachable:
  assumes "map_of hs (dg_Pattern d) = Some h"
  shows "dispatchJobClientMessage C hs d s = handlePatternRequest C hs 0 d s"
    and "ph_Client h = None \<Longrightarrow> dispatchClientMessage C hs client d s = handlePatternRequest C hs client d s"
    and "ph_Client h = Some c \<Longrightarrow> c \<noteq> client \<Longrightarrow> dispatchClientMessage C hs client d s = (sendNoHandlerError C client d, s)"
  using assms by (simp_all add: dispatchJobClientMessage_def dispatchClientMessage_def)

section \<open>Requests that are not decoded\<close>

text \<open>A typed callback only sees requests that decode and pass validation; all others are answered with
  status 400 and do not change the state.\<close>

lemma typed_handler_rejects:
  assumes "\<not> (isPointer \<and> dg_Payload d = NoPayload)" "LoadRequest C unmarshal validate d = Inl err"
  shows "typed_handler C unmarshal validate isPointer zero callback encode d s = (encode (ResultError err 400), s)"
  using assms by (auto simp: typed_handler_def plain_error_def HttpStatusForError_def forwarded_code_def)

lemma LoadRequest_valid:
  "LoadRequest C unmarshal validate d = Inr req \<Longrightarrow> validate req = None \<and> (\<exists>b. json_Marshal C (dg_Payload d) = Some b \<and> unmarshal b = Inr req)"
  by (auto simp: LoadRequest_def split: option.splits sum.splits)

text \<open>A request that is compressed the way the operator compresses its responses is never
  executed. Its payload arrives as the JSON string of the base64 text, and this text, quotes
  included, is what is decompressed: no zlib stream begins with a quote.\<close>
lemma compressed_request_rejected:
  assumes "zlib_header C" "dg_Zlib d" "json_Marshal C (Bytes b) = Some text" "dg_Payload d = RawMessage text"
  shows "handlePatternRequest C hs client d s = ([(client, error_reply d ''failed to decompress payload'')], s)"
proof -
  obtain rest where "text = CHR 0x22 # rest" using assms(3) by auto
  moreover have "(of_char (CHR 0x22) :: nat) mod 16 \<noteq> 8" by code_simp
  ultimately have "cd_decompress C text = None"
    using assms(1) unfolding zlib_header_def by (metis list.sel(1) not_None_eq)
  with assms show ?thesis
    by (simp add: handlePatternRequest_def TryZlibDecompress_def JobServerSendData_def error_reply_def)
qed

section \<open>Uploads\<close>

text \<open>A piece of a file: not empty, and not beginning like a marker.\<close>

definition chunk :: "string \<Rightarrow> bool" where
  "chunk m \<longleftrightarrow> m \<noteq> [] \<and> \<not> has_prefix m start_upload \<and> \<not> has_prefix m end_upload"

lemma start_not_end: "has_prefix m end_upload \<Longrightarrow> \<not> has_prefix m start_upload"
  by (auto simp: start_upload_def end_upload_def prefix_def)

lemma loop_step_start: "has_prefix m start_upload \<Longrightarrow> loop_step E m st = start_step E st"
  by (auto simp: loop_step_def start_upload_def)

lemma loop_step_end: "has_prefix m end_upload \<Longrightarrow> loop_step E m st = end_step E st"
  using start_not_end [of m] by (auto simp: loop_step_def end_upload_def)

lemma read_loop_chunks:
  assumes "\<forall>m \<in> set ms. chunk m" "ls_fileName st = Some name" "map_of (ls_files st) name = Some c"
  shows "\<exists>fs. read_loop E ms st = st\<lparr>ls_files := fs\<rparr> \<and> map_of fs name = Some (c @ concat ms)
    \<and> (\<forall>n. n \<noteq> name \<longrightarrow> map_of fs n = map_of (ls_files st) n)"
  using assms
proof (induction ms arbitrary: st c)
  case Nil
  then show ?case by (intro exI [of _ "ls_files st"]) (simp add: read_loop_def)
next
  case (Cons m ms)
  let ?st = "st\<lparr>ls_files := AList.update name (c @ m) (ls_files st)\<rparr>"
  have step: "loop_step E m st = ?st" using Cons.prems by (simp add: loop_step_def chunk_def)
  obtain fs where "read_loop E ms ?st = ?st\<lparr>ls_files := fs\<rparr>" "map_of fs name = Some ((c @ m) @ concat ms)"
    "\<forall>n. n \<noteq> name \<longrightarrow> map_of fs n = map_of (ls_files ?st) n"
    using Cons.IH [of ?st "c @ m"] Cons.prems by auto
  then show ?case using step by (intro exI [of _ fs]) (simp add: read_loop_def)
qed

text \<open>An upload arrives whole. When a request for an upload is followed by a start marker, pieces of
  any content that does not begin like a marker, and an end marker, the file service gets exactly
  the concatenation of the pieces with this request; the request and the end are acknowledged, the
  end with the error of the file service if there is one; none of the pieces is taken for a
  request, the other temporary files are untouched and the upload's own is removed, and the loop
  is ready for the next message.\<close>
lemma upload_arrives_whole:
  assumes "ls_fileName st = None" "ls_ids st = nanoId # ids" "map_of (ls_files st) (upload_file nanoId) = None"
    and "chunk m" "le_ParseDatagram E m = Some d" "dg_Pattern d = ''files/upload''"
    and "has_prefix start start_upload" "le_open E (upload_file nanoId)" "\<forall>p \<in> set pieces. chunk p" "has_prefix stop end_upload"
  shows "\<exists>fs. map_of fs = map_of (ls_files st)
    \<and> read_loop E ([m, start] @ pieces @ [stop]) st = st
      \<lparr>ls_request := None, ls_files := fs, ls_ids := ids,
       ls_uploaded := ls_uploaded st @ [(concat pieces, le_uploadRequest E d)],
       ls_acks := ls_acks st @
         [CreateDatagramAck ''ack:files/upload:datagram'' (dg_Id d),
          (CreateDatagramAck ''ack:files/upload:end'' (le_requestId E (le_uploadRequest E d)))
            \<lparr>dg_Err := (case le_Uploaded E (concat pieces) (le_uploadRequest E d) of None \<Rightarrow> [] | Some e \<Rightarrow> e)\<rparr>]\<rparr>"
proof -
  let ?n = "upload_file nanoId" and ?r = "le_uploadRequest E d"
  let ?a = "CreateDatagramAck ''ack:files/upload:datagram'' (dg_Id d)"
  define st1 where "st1 = st\<lparr>ls_request := Some ?r, ls_acks := ls_acks st @ [?a]\<rparr>"
  define st2 where "st2 = st1\<lparr>ls_fileName := Some ?n, ls_ids := ids, ls_files := AList.update ?n [] (ls_files st)\<rparr>"
  have 1: "loop_step E m st = st1" using assms(1,4,5,6) by (simp add: loop_step_def chunk_def st1_def)
  have 2: "loop_step E start st1 = st2"
    using assms(2,3,7,8) by (simp add: loop_step_start start_step_def st1_def st2_def Let_def)
  have "ls_fileName st2 = Some ?n" "map_of (ls_files st2) ?n = Some []" by (simp_all add: st2_def)
  from read_loop_chunks [OF assms(9) this] obtain fs where
    fs: "read_loop E pieces st2 = st2\<lparr>ls_files := fs\<rparr>" "map_of fs ?n = Some (concat pieces)"
      "\<forall>n. n \<noteq> ?n \<longrightarrow> map_of fs n = map_of (ls_files st2) n"
    by auto
  have files2: "ls_files st2 = AList.update ?n [] (ls_files st)" by (simp add: st2_def)
  have files: "map_of (AList.delete ?n fs) = map_of (ls_files st)"
  proof (rule ext)
    fix n
    show "map_of (AList.delete ?n fs) n = map_of (ls_files st) n"
    proof (cases "n = ?n")
      case False
      then have "map_of fs n = map_of (ls_files st2) n" using fs(3) by blast
      also have "\<dots> = map_of (ls_files st) n" unfolding files2 map_of_update by (rule fun_upd_other) (rule False)
      finally show ?thesis unfolding map_of_delete using fun_upd_other [OF False] by metis
    qed (simp add: assms(3))
  qed
  have whole: "read_loop E ([m, start] @ pieces @ [stop]) st = end_step E (st2\<lparr>ls_files := fs\<rparr>)"
    using 1 2 fs(1) loop_step_end [OF assms(10)] by (simp add: read_loop_def)
  have stopped: "end_step E (st2\<lparr>ls_files := fs\<rparr>) = st
      \<lparr>ls_request := None, ls_files := AList.delete ?n fs, ls_ids := ids,
       ls_uploaded := ls_uploaded st @ [(concat pieces, ?r)],
       ls_acks := ls_acks st @ [?a, (CreateDatagramAck ''ack:files/upload:end'' (le_requestId E ?r))
            \<lparr>dg_Err := (case le_Uploaded E (concat pieces) ?r of None \<Rightarrow> [] | Some e \<Rightarrow> e)\<rparr>]\<rparr>"
    using fs(2) assms(1) by (simp add: end_step_def Let_def st2_def st1_def)
  show ?thesis by (rule exI, rule conjI, rule files, rule trans [OF whole stopped])
qed

definition demo_loop :: "string loop_env" where
  "demo_loop =
     \<lparr>le_ParseDatagram = (\<lambda>m. Some (demo_datagram m ''files/upload'')), le_uploadRequest = dg_Id, le_requestId = id,
      le_open = (\<lambda>_. True), le_Uploaded = (\<lambda>_ _. None)\<rparr>"

definition demo_idle :: "string loop_state" where
  "demo_idle = \<lparr>ls_fileName = None, ls_request = None, ls_files = [], ls_uploaded = [], ls_acks = [], ls_jobs = [], ls_ids = [''x'']\<rparr>"

end
