(* ===== verification/WorkspaceApi.thy ===== *)
theory WorkspaceApi
  imports AiAccess StorePage
begin

text \<open>
  The workspace operations of the API (\<open>core/api.go\<close>) and the listing of a namespace they rest on
  (\<open>GetUnstructuredNamespaceResourceList\<close> of \<open>kubernetes/watcheractions.go\<close>): the resources of a
  workspace, collected by one goroutine per entry of the workspace, filtered, deduplicated, sorted and
  cut into pages; and the deletion of a workspace with the cleanup of the volumes of its namespaces.

  The goroutines append under a mutex, so that they are modelled by the order in which they take it.
  Helm's selection of the workloads of a release, the workspaces and the volumes are parameters.
\<close>

section \<open>Listing a namespace\<close>

text \<open>A nil descriptor that is reached is dereferenced: \<open>None\<close>.\<close>

fun ContainsResourceDescriptor :: "ResourceDescriptor option list \<Rightarrow> ResourceDescriptor \<Rightarrow> bool option" where
  "ContainsResourceDescriptor [] target = Some False"
| "ContainsResourceDescriptor (None # rs) target = None"
| "ContainsResourceDescriptor (Some r # rs) target =
     (if rd_Kind r = rd_Kind target \<and> rd_ApiVersion r = rd_ApiVersion target then Some True
      else ContainsResourceDescriptor rs target)"

definition NamespaceResource :: ResourceDescriptor where
  "NamespaceResource = \<lparr>rd_Kind = ''Namespace'', rd_Plural = ''namespaces'', rd_ApiVersion = ''v1'', rd_Namespaced = False\<rparr>"

text \<open>A cluster-scoped kind is looked at only in a namespace and when it is listed explicitly.\<close>

definition kind_allowed ::
  "string \<Rightarrow> ResourceDescriptor option list \<Rightarrow> ResourceDescriptor option list \<Rightarrow> ResourceDescriptor \<Rightarrow> bool option" where
  "kind_allowed namespace whitelist blacklist v =
     (if \<not> rd_Namespaced v \<and> (namespace = [] \<or> whitelist = []) then Some False
      else Option.bind (if whitelist = [] then Some True else ContainsResourceDescriptor whitelist v) (\<lambda>listed.
             if listed then map_option Not (ContainsResourceDescriptor blacklist v) else Some False))"

text \<open>The kinds to read and whether the namespace itself is wanted.\<close>

fun allowed_kinds ::
  "string \<Rightarrow> ResourceDescriptor option list \<Rightarrow> ResourceDescriptor option list \<Rightarrow> ResourceDescriptor list
     \<Rightarrow> (ResourceDescriptor list \<times> bool) option" where
  "allowed_kinds namespace whitelist blacklist [] = Some ([], False)"
| "allowed_kinds namespace whitelist blacklist (v # vs) =
     Option.bind (kind_allowed namespace whitelist blacklist v) (\<lambda>allowed.
       Option.bind (allowed_kinds namespace whitelist blacklist vs) (\<lambda>(kinds, wantsNamespace).
         Some (if \<not> allowed then (kinds, wantsNamespace)
               else if rd_Namespaced v then (v # kinds, wantsNamespace)
               else (kinds, wantsNamespace
                 \<or> rd_Kind v = rd_Kind NamespaceResource \<and> rd_ApiVersion v = rd_ApiVersion NamespaceResource))))"

datatype list_result = ListPanic | ListError | Listed "json list"

definition GetUnstructuredNamespaceResourceList ::
  "'db server \<Rightarrow> (string \<Rightarrow> json option) \<Rightarrow> ResourceDescriptor list option \<Rightarrow> 'db \<Rightarrow> string
     \<Rightarrow> ResourceDescriptor option list \<Rightarrow> ResourceDescriptor option list \<Rightarrow> 'db \<times> list_result" where
  "GetUnstructuredNamespaceResourceList srv dec available db namespace whitelist blacklist =
     (case available of
        None \<Rightarrow> (db, ListError)
      | Some resources \<Rightarrow>
          (case allowed_kinds namespace whitelist blacklist resources of
             None \<Rightarrow> (db, ListPanic)
           | Some (allowed, includeNamespaceObject) \<Rightarrow>
               (case GetResourcesByNamespaceAndKinds srv dec db namespace allowed of
                  (db1, _, Some e) \<Rightarrow> (db1, ListError)
                | (db1, results, None) \<Rightarrow>
                    if includeNamespaceObject
                    then (case GetResource srv dec db1 (rd_ApiVersion NamespaceResource) (rd_Kind NamespaceResource) [] namespace of
                            (db2, Found nsObj) \<Rightarrow> (db2, Listed (results @ [nsObj]))
                          | (db2, _) \<Rightarrow> (db2, Listed results))
                    else (db1, Listed results))))"

section \<open>The resources of a workspace\<close>

record GetWorkspaceResult =
  gw_Name :: string
  gw_Resources :: "WorkspaceResource list"

text \<open>The goroutines of the entries: those of types other than these two have none.\<close>

datatype ws_task = NamespaceTask string | HelmTask string string

definition in_whitelist :: "string list \<Rightarrow> string \<Rightarrow> bool" where
  "in_whitelist namespaceWhitelist ns \<longleftrightarrow> namespaceWhitelist = [] \<or> ns \<in> set namespaceWhitelist"

fun workspace_tasks :: "string list \<Rightarrow> WorkspaceResource list \<Rightarrow> ws_task list" where
  "workspace_tasks nw [] = []"
| "workspace_tasks nw (v # vs) =
     (if ws_Type v = ''namespace'' \<and> in_whitelist nw (ws_Id v) then [NamespaceTask (ws_Id v)]
      else if ws_Type v = ''helm'' \<and> in_whitelist nw (ws_Namespace v) then [HelmTask (ws_Namespace v) (ws_Id v)]
      else []) @ workspace_tasks nw vs"

definition item_key :: "json \<Rightarrow> string" where
  "item_key item = GetNamespace item @ ''/'' @ GetName item"

text \<open>Items whose namespace and name were seen are skipped. The set of what was seen is what the result
  holds.\<close>

fun appendUnique :: "json list \<Rightarrow> json list \<Rightarrow> json list" where
  "appendUnique result [] = result"
| "appendUnique result (item # items) =
     (if item_key item \<in> item_key ` set result then appendUnique result items
      else appendUnique (result @ [item]) items)"

text \<open>The results in the order the goroutines take the mutex; \<open>None\<close> is an error.\<close>

fun collect_results :: "json list option list \<Rightarrow> json list \<times> bool \<Rightarrow> json list \<times> bool" where
  "collect_results [] st = st"
| "collect_results (r # rs) (result, failed) =
     (case r of
        None \<Rightarrow> collect_results rs (result, True)
      | Some items \<Rightarrow> collect_results rs (appendUnique result items, failed))"

text \<open>\<open>run\<close> is what a task reads, \<open>order\<close> the order in which they finish, \<open>workspace\<close> the entries of the
  workspace, none when it is not found. The flag of the result is the error.\<close>

definition GetWorkspaceResources ::
  "(ws_task \<Rightarrow> json list option) \<Rightarrow> (ws_task list \<Rightarrow> ws_task list) \<Rightarrow> WorkspaceResource list option \<Rightarrow> string \<Rightarrow> string list
     \<Rightarrow> json list \<times> bool" where
  "GetWorkspaceResources run order workspace workspaceName namespaceWhitelist =
     (if workspaceName = []
      then
        if namespaceWhitelist = [] then (case run (NamespaceTask []) of None \<Rightarrow> ([], True) | Some items \<Rightarrow> (items, False))
        else foldl (\<lambda>(results, failed) ns.
               if failed then (results, True)
               else case run (NamespaceTask ns) of None \<Rightarrow> (results, True) | Some items \<Rightarrow> (results @ items, False))
             ([], False) namespaceWhitelist
      else
        case workspace of
          None \<Rightarrow> ([], True)
        | Some resources \<Rightarrow> collect_results (map run (order (workspace_tasks namespaceWhitelist resources))) ([], False))"

section \<open>Pages\<close>

definition filterUnstructuredBySearch :: "json list \<Rightarrow> SearchFilterGroup list \<Rightarrow> json list" where
  "filterUnstructuredBySearch items groups =
     (if groups = [] then items
      else filter (\<lambda>it. \<forall>g \<in> set groups. Matches g (GetName it) (GetKind it) (GetNamespace it) (GetAPIVersion it)) items)"

definition GetUID :: "json \<Rightarrow> string" where
  "GetUID obj = nested_string obj [''metadata'', ''uid'']"

fun dedupe_uid :: "string list \<Rightarrow> json list \<Rightarrow> json list" where
  "dedupe_uid seen [] = []"
| "dedupe_uid seen (it # items) =
     (if GetUID it = [] then it # dedupe_uid seen items
      else if GetUID it \<in> set seen then dedupe_uid seen items
      else it # dedupe_uid (GetUID it # seen) items)"

definition dedupeUnstructuredByUID :: "json list \<Rightarrow> json list" where
  "dedupeUnstructuredByUID items = dedupe_uid [] items"

text \<open>\<open>timeOf\<close> reads the creation timestamp.\<close>

definition item_less :: "(json \<Rightarrow> int) \<Rightarrow> string \<Rightarrow> string \<Rightarrow> json \<Rightarrow> json \<Rightarrow> bool" where
  "item_less timeOf sortBy sortOrder a b \<longleftrightarrow>
     (if sortBy = ''name''
      then let desc = (sortOrder = ''desc'')
           in if GetName a = GetName b then GetUID a < GetUID b
              else if desc then GetName b < GetName a else GetName a < GetName b
      else let desc = (sortOrder = ''desc'' \<or> sortOrder = [])
           in if timeOf a = timeOf b then GetUID a < GetUID b
              else if desc then timeOf b < timeOf a else timeOf a < timeOf b)"

definition sortUnstructured :: "(json \<Rightarrow> int) \<Rightarrow> json list \<Rightarrow> string \<Rightarrow> string \<Rightarrow> json list" where
  "sortUnstructured timeOf items sortBy sortOrder = stable_sort (item_less timeOf sortBy sortOrder) items"

record WorkspaceResourcesPaginatedRequest =
  wp_Whitelist :: "ResourceDescriptor option list"
  wp_Blacklist :: "ResourceDescriptor option list"
  wp_NamespaceWhitelist :: "string list"
  wp_Offset :: int
  wp_Limit :: int
  wp_SortBy :: string
  wp_SortOrder :: string
  wp_groups :: "SearchFilterGroup list"

text \<open>\<open>wp_groups\<close> is what \<open>BuildSearchFilterGroups\<close> makes of the three search fields. The slice of the
  in-memory path: bounds out of order panic.\<close>

definition slice_page :: "int \<Rightarrow> int \<Rightarrow> json list \<Rightarrow> json list option" where
  "slice_page offset limit items =
     (let total = int (length items)
      in if limit > 0
         then let start = min (max offset 0) total;
                  stop = min (wrap64 (start + limit)) total
              in if stop < start then None else Some (take (nat (stop - start)) (drop (nat start) items))
         else Some items)"

definition workspace_page ::
  "(json \<Rightarrow> int) \<Rightarrow> WorkspaceResourcesPaginatedRequest \<Rightarrow> json list \<Rightarrow> page_result" where
  "workspace_page timeOf req items =
     (let items = sortUnstructured timeOf (dedupeUnstructuredByUID (filterUnstructuredBySearch items (wp_groups req)))
                    (wp_SortBy req) (wp_SortOrder req)
      in case slice_page (wp_Offset req) (wp_Limit req) items of
           None \<Rightarrow> PagePanic
         | Some page \<Rightarrow> Page page (int (length items)))"

text \<open>The namespaces of a selection the index can answer; \<open>None\<close> falls back to the in-memory path.\<close>

fun indexable_entries :: "string list \<Rightarrow> string list \<Rightarrow> WorkspaceResource list \<Rightarrow> string list option" where
  "indexable_entries nw seen [] = Some []"
| "indexable_entries nw seen (v # vs) =
     (if ws_Type v = ''helm'' then None
      else if ws_Type v = ''namespace''
      then if \<not> in_whitelist nw (ws_Id v) \<or> ws_Id v \<in> set seen then indexable_entries nw seen vs
           else map_option (Cons (ws_Id v)) (indexable_entries nw (ws_Id v # seen) vs)
      else indexable_entries nw seen vs)"

definition indexableWorkspaceNamespaces ::
  "WorkspaceResource list option \<Rightarrow> string \<Rightarrow> WorkspaceResourcesPaginatedRequest \<Rightarrow> string list option" where
  "indexableWorkspaceNamespaces workspace workspaceName req =
     (if wp_Whitelist req = [] then None
      else if \<exists>w \<in> set (wp_Whitelist req). (case w of Some d \<Rightarrow> \<not> rd_Namespaced d | None \<Rightarrow> False) then None
      else if workspaceName = [] then Some (wp_NamespaceWhitelist req)
      else case workspace of
             None \<Rightarrow> None
           | Some resources \<Rightarrow>
               (case indexable_entries (wp_NamespaceWhitelist req) [] resources of
                  None \<Rightarrow> None
                | Some [] \<Rightarrow> None
                | Some namespaces \<Rightarrow> Some namespaces))"

definition GetWorkspaceResourcesPaginated ::
  "'db server \<Rightarrow> (string \<Rightarrow> json option) \<Rightarrow> 'db \<Rightarrow> (json \<Rightarrow> int) \<Rightarrow> (ws_task \<Rightarrow> json list option) \<Rightarrow> (ws_task list \<Rightarrow> ws_task list)
     \<Rightarrow> WorkspaceResource list option \<Rightarrow> string \<Rightarrow> WorkspaceResourcesPaginatedRequest \<Rightarrow> 'db \<times> page_result" where
  "GetWorkspaceResourcesPaginated srv dec db timeOf run order workspace workspaceName req =
     (case indexableWorkspaceNamespaces workspace workspaceName req of
        Some namespaces \<Rightarrow>
          GetResourcesByWhitelistPaginated srv dec db (wp_Whitelist req) (wp_Blacklist req) namespaces
            (wp_Offset req) (wp_Limit req) (wp_SortBy req) (wp_SortOrder req) (wp_groups req)
      | None \<Rightarrow>
          (db, case GetWorkspaceResources run order workspace workspaceName (wp_NamespaceWhitelist req) of
                 (items, True) \<Rightarrow> PageError
               | (items, False) \<Rightarrow> workspace_page timeOf req items))"

section \<open>Deleting a workspace\<close>

definition GetWorkspaceNamespaces :: "WorkspaceResource list \<Rightarrow> string list" where
  "GetWorkspaceNamespaces resources = map ws_Id (filter (\<lambda>v. ws_Type v = ''namespace'') resources)"

text \<open>\<open>allWorkspaces\<close> is none when listing them fails.\<close>

definition findExclusiveNamespaces :: "GetWorkspaceResult list option \<Rightarrow> string \<Rightarrow> string list \<Rightarrow> string list" where
  "findExclusiveNamespaces allWorkspaces workspaceName namespaces =
     (case allWorkspaces of
        None \<Rightarrow> []
      | Some wss \<Rightarrow>
          let shared = concat (map (\<lambda>ws. GetWorkspaceNamespaces (gw_Resources ws)) (filter (\<lambda>ws. gw_Name ws \<noteq> workspaceName) wss))
          in filter (\<lambda>ns. ns \<notin> set shared) namespaces)"

text \<open>The namespaces whose volumes are cleaned up, in order, and whether the workspace is deleted:
  \<open>deletes\<close> is the outcome of deleting its resource.\<close>

definition DeleteWorkspace ::
  "WorkspaceResource list option \<Rightarrow> GetWorkspaceResult list option \<Rightarrow> bool \<Rightarrow> string \<Rightarrow> string list \<times> bool" where
  "DeleteWorkspace workspace allWorkspaces deletes name =
     (case workspace of
        None \<Rightarrow> ([], deletes)
      | Some resources \<Rightarrow> (findExclusiveNamespaces allWorkspaces name (GetWorkspaceNamespaces resources), deletes))"

section \<open>The volumes of other workspaces\<close>


definition demo_entry :: "string \<Rightarrow> string \<Rightarrow> string \<Rightarrow> WorkspaceResource" where
  "demo_entry ty ident ns = \<lparr>ws_Type = ty, ws_Id = ident, ws_Namespace = ns\<rparr>"

definition demo_workspaces :: "GetWorkspaceResult list" where
  "demo_workspaces =
     [\<lparr>gw_Name = ''a'', gw_Resources = [demo_entry ''namespace'' ''n1'' [], demo_entry ''namespace'' ''n2'' []]\<rparr>,
      \<lparr>gw_Name = ''b'', gw_Resources = [demo_entry ''namespace'' ''n2'' [], demo_entry ''helm'' ''rel'' ''n1'']\<rparr>]"

lemma demo_delete: "fst (DeleteWorkspace (Some (gw_Resources (hd demo_workspaces))) (Some demo_workspaces) True ''a'') = [''n1'']"
  by code_simp


text \<open>A release of another workspace in the namespace does not count: in the example, workspace \<open>b\<close> has a
  release in \<open>n1\<close>, and the deletion of \<open>a\<close> removes the volumes of \<open>n1\<close>.\<close>

lemma exclusive_ignores_helm:
  "''n1'' \<in> set (fst (DeleteWorkspace (Some (gw_Resources (hd demo_workspaces))) (Some demo_workspaces) deletes ''a''))
     \<and> (\<exists>ws \<in> set demo_workspaces. gw_Name ws \<noteq> ''a'' \<and> (\<exists>r \<in> set (gw_Resources ws). ws_Namespace r = ''n1''))"
  by (simp add: DeleteWorkspace_def findExclusiveNamespaces_def demo_workspaces_def demo_entry_def GetWorkspaceNamespaces_def)

section \<open>Order of the goroutines\<close>

lemma appendUnique_keys: "item_key ` set (appendUnique result items) = item_key ` set result \<union> item_key ` set items"
  by (induction result items rule: appendUnique.induct) auto

lemma appendUnique_distinct: "distinct (map item_key result) \<Longrightarrow> distinct (map item_key (appendUnique result items))"
  by (induction result items rule: appendUnique.induct) auto

lemma collect_results_keys:
  "item_key ` set (fst (collect_results rs (result, failed)))
     = item_key ` set result \<union> (\<Union>r \<in> set rs. case r of None \<Rightarrow> {} | Some items \<Rightarrow> item_key ` set items)"
  by (induction rs "(result, failed)" arbitrary: result failed rule: collect_results.induct)
    (auto simp: appendUnique_keys split: option.splits)

lemma collect_results_distinct:
  "distinct (map item_key result) \<Longrightarrow> distinct (map item_key (fst (collect_results rs (result, failed))))"
  by (induction rs "(result, failed)" arbitrary: result failed rule: collect_results.induct)
    (auto simp: appendUnique_distinct split: option.splits)

lemma collect_results_failed: "snd (collect_results rs (result, failed)) \<longleftrightarrow> failed \<or> None \<in> set rs"
  by (induction rs "(result, failed)" arbitrary: result failed rule: collect_results.induct) (auto split: option.splits)

text \<open>Which names a workspace shows, and whether there is an error, does not depend on the order in which
  the goroutines finish. Which of several resources of one name it shows does: a deployment hides the
  service of its name or the other way round.\<close>

lemma workspace_names_order_free:
  assumes "set (order ts) = set ts" "set (order' ts) = set ts"
    and "ts = workspace_tasks nw resources" "name \<noteq> []"
  shows "item_key ` set (fst (GetWorkspaceResources run order (Some resources) name nw))
           = item_key ` set (fst (GetWorkspaceResources run order' (Some resources) name nw))"
    and "snd (GetWorkspaceResources run order (Some resources) name nw)
           = snd (GetWorkspaceResources run order' (Some resources) name nw)"
proof -
  have "set (map run (order ts)) = set (map run (order' ts))" using assms(1,2) by simp
  with assms(3,4) show "item_key ` set (fst (GetWorkspaceResources run order (Some resources) name nw))
           = item_key ` set (fst (GetWorkspaceResources run order' (Some resources) name nw))"
    by (simp add: GetWorkspaceResources_def collect_results_keys del: set_map)
  from \<open>set (map run (order ts)) = set (map run (order' ts))\<close> assms(3,4)
  show "snd (GetWorkspaceResources run order (Some resources) name nw)
           = snd (GetWorkspaceResources run order' (Some resources) name nw)"
    by (simp add: GetWorkspaceResources_def collect_results_failed del: set_map)
qed

definition demo_object :: "string \<Rightarrow> string \<Rightarrow> json" where
  "demo_object kd uid = JObj [(''kind'', JStr kd), (''metadata'', JObj [(''name'', JStr ''web''), (''namespace'', JStr ''n''), (''uid'', JStr uid)])]"

lemma same_name_hidden:
  "fst (GetWorkspaceResources (\<lambda>_. Some [demo_object ''Deployment'' ''1'', demo_object ''Service'' ''2'']) id
          (Some [demo_entry ''namespace'' ''n'' []]) ''w'' []) = [demo_object ''Deployment'' ''1'']"
  by code_simp

section \<open>Pages make up the list\<close>

interpretation item: go_less "item_less timeOf sortBy sortOrder" for timeOf sortBy sortOrder
  by unfold_locales (auto simp: item_less_def Let_def split: if_splits)

definition whole_list :: "(json \<Rightarrow> int) \<Rightarrow> WorkspaceResourcesPaginatedRequest \<Rightarrow> json list \<Rightarrow> json list" where
  "whole_list timeOf req items =
     sortUnstructured timeOf (dedupeUnstructuredByUID (filterUnstructuredBySearch items (wp_groups req))) (wp_SortBy req) (wp_SortOrder req)"

lemma dedupe_uid_length: "length (dedupe_uid seen items) \<le> length items"
  by (induction seen items rule: dedupe_uid.induct) auto

lemma whole_list_length: "length (whole_list timeOf req items) \<le> length items"
proof -
  have "length (filterUnstructuredBySearch items (wp_groups req)) \<le> length items" by (simp add: filterUnstructuredBySearch_def)
  then show ?thesis
    using dedupe_uid_length [of "[]" "filterUnstructuredBySearch items (wp_groups req)"]
    by (simp add: whole_list_def sortUnstructured_def dedupeUnstructuredByUID_def)
qed

lemma dedupe_uid_uids: "GetUID ` set (dedupe_uid seen items) - {[]} = GetUID ` set items - set seen - {[]}"
  by (induction seen items rule: dedupe_uid.induct) auto

lemma dedupe_uid_seen: "u \<in> set seen \<Longrightarrow> u \<noteq> [] \<Longrightarrow> u \<notin> GetUID ` set (dedupe_uid seen items)"
  using dedupe_uid_uids [of seen items] by blast

lemma dedupe_uid_distinct: "distinct (filter (\<lambda>u. u \<noteq> []) (map GetUID (dedupe_uid seen items)))"
proof (induction seen items rule: dedupe_uid.induct)
  case (2 seen it items)
  then show ?case using dedupe_uid_seen [of "GetUID it" "GetUID it # seen" items] by auto
qed simp

lemma insert_by_filter_distinct:
  "distinct (filter P (map f (insert_by lt x ys))) \<longleftrightarrow> distinct (filter P (map f (x # ys)))"
  "set (filter P (map f (insert_by lt x ys))) = set (filter P (map f (x # ys)))"
  by (induction ys) auto

lemma stable_sort_filter_distinct:
  "distinct (filter P (map f (stable_sort lt xs))) \<longleftrightarrow> distinct (filter P (map f xs))"
  by (induction xs) (auto simp: insert_by_filter_distinct)

lemma slice_page_in_bounds:
  assumes "0 < l" "int i * l + l < 2 ^ 63"
  shows "slice_page (int i * l) l xs = Some (take (nat l) (drop (i * nat l) xs))"
proof -
  let ?t = "int (length xs)" and ?s = "min (int i * l) (int (length xs))"
  have off: "0 \<le> int i * l" using assms(1) by simp
  have "0 \<le> ?s" "?s \<le> int i * l" by (rule min.boundedI [OF off], simp) (rule min.cobounded1)
  then have "wrap64 (?s + l) = ?s + l" using assms by (intro wrap64_id) linarith+
  then have "slice_page (int i * l) l xs = Some (take (nat (min (?s + l) ?t - ?s)) (drop (nat ?s) xs))"
    using assms(1) unfolding slice_page_def Let_def max_absorb1 [OF off]
    by (simp only: if_True) (simp add: min_def)
  also have "take (nat (min (?s + l) ?t - ?s)) (drop (nat ?s) xs) = take (nat l) (drop (i * nat l) xs)"
  proof (cases "int i * l \<le> ?t")
    case True
    have "nat (int i * l) = i * nat l" using assms(1) by (simp add: nat_mult_distrib)
    with True assms(1) show ?thesis by (auto simp: min_def nat_le_iff take_all_iff)
  next
    case False
    have "int (i * nat l) = int i * l" using assms(1) by simp
    with False have "length xs \<le> i * nat l" by linarith
    with False show ?thesis by (simp add: min_def)
  qed
  finally show ?thesis .
qed

text \<open>the pages of a workspace make up its list. When the pages of one size are read one after the other
  they show, one after the other, the whole list: the items that match the search, each object once
  however many entries of the workspace select it, in the requested order with the
  identifier deciding between equals.\<close>
lemma workspace_pages_partition:
  assumes "wp_Limit req = l" "0 < l" "int (length items) \<le> int n * l" "int n * l < 2 ^ 63"
  shows "concat (map (\<lambda>i. page_items_of (workspace_page timeOf (req\<lparr>wp_Offset := int i * l\<rparr>) items)) [0..<n])
           = whole_list timeOf req items
    \<and> sorted_wrt (\<lambda>a b. \<not> item_less timeOf (wp_SortBy req) (wp_SortOrder req) b a) (whole_list timeOf req items)
    \<and> distinct (filter (\<lambda>u. u \<noteq> []) (map GetUID (whole_list timeOf req items)))
    \<and> GetUID ` set (whole_list timeOf req items) - {[]} = GetUID ` set (filterUnstructuredBySearch items (wp_groups req)) - {[]}"
proof -
  let ?w = "whole_list timeOf req items"
  have "page_items_of (workspace_page timeOf (req\<lparr>wp_Offset := int i * l\<rparr>) items) = take (nat l) (drop (i * nat l) ?w)"
    if "i < n" for i
  proof -
    have "int i * l + l = (int i + 1) * l" by (simp add: algebra_simps)
    also have "\<dots> \<le> int n * l" using that assms(2) by (intro mult_right_mono) simp_all
    finally have "int i * l + l < 2 ^ 63" using assms(4) by linarith
    from slice_page_in_bounds [OF assms(2) this, of ?w] assms(1) show ?thesis
      by (simp add: workspace_page_def Let_def whole_list_def)
  qed
  then have "concat (map (\<lambda>i. page_items_of (workspace_page timeOf (req\<lparr>wp_Offset := int i * l\<rparr>) items)) [0..<n])
      = concat (map (\<lambda>i. take (nat l) (drop (i * nat l) ?w)) [0..<n])"
    by (intro arg_cong [of _ _ concat] map_cong) auto
  also have "\<dots> = take (n * nat l) ?w" by (rule slices_concat)
  also have "\<dots> = ?w"
  proof (rule take_all)
    have "int (length ?w) \<le> int n * l" using whole_list_length [of timeOf req items] assms(3) by linarith
    also have "int n * l = int (n * nat l)" using assms(2) by simp
    finally show "length ?w \<le> n * nat l" by (simp only: of_nat_le_iff)
  qed
  finally have pages: "concat (map (\<lambda>i. page_items_of (workspace_page timeOf (req\<lparr>wp_Offset := int i * l\<rparr>) items)) [0..<n]) = ?w" .
  have sorted: "sorted_wrt (\<lambda>a b. \<not> item_less timeOf (wp_SortBy req) (wp_SortOrder req) b a) ?w"
    unfolding whole_list_def sortUnstructured_def by (rule item.stable_sort_ordered)
  have once: "distinct (filter (\<lambda>u. u \<noteq> []) (map GetUID ?w))"
    unfolding whole_list_def sortUnstructured_def stable_sort_filter_distinct dedupeUnstructuredByUID_def by (rule dedupe_uid_distinct)
  have all: "GetUID ` set ?w - {[]} = GetUID ` set (filterUnstructuredBySearch items (wp_groups req)) - {[]}"
    using dedupe_uid_uids [of "[]" "filterUnstructuredBySearch items (wp_groups req)"]
    by (simp add: whole_list_def sortUnstructured_def dedupeUnstructuredByUID_def)
  from pages sorted once all show ?thesis by blast
qed

definition demo_request :: WorkspaceResourcesPaginatedRequest where
  "demo_request = \<lparr>wp_Whitelist = [], wp_Blacklist = [], wp_NamespaceWhitelist = [], wp_Offset = 0, wp_Limit = 1,
     wp_SortBy = ''name'', wp_SortOrder = [], wp_groups = []\<rparr>"

text \<open>An offset and a limit whose sum is no 64-bit integer panic as soon as there is an item.\<close>

lemma slice_page_overflow_panics: "slice_page 1 (2 ^ 63 - 1) (x # xs) = None"
proof -
  have "wrap64 (1 + (2 ^ 63 - 1)) = - (2 ^ 63)" by code_simp
  moreover have "min (max 1 0) (int (length (x # xs))) = 1" by simp
  ultimately show ?thesis by (simp add: slice_page_def Let_def)
qed

end
