(* ===== verification/ValkeyStreams.thy ===== *)
theory ValkeyStreams
  imports ValkeyKeys
begin

text \<open>
  Streams of \<open>valkeyclient/valkeyclient.go\<close>: time series of JSON values under one key, written by
  \<open>StoreSortedListEntry\<close> with a retention by age and by number, read by range.

  An id of the sources is always \<open><milliseconds>-0\<close>, so an id is an integer here. The server is a
  parameter; the locale \<open>stream_server\<close> states the documented effect and reply of each command on
  the streams it holds. A command that is answered by an error may or may not have had its effect
  (the connection may have been lost after it).
\<close>

section \<open>Streams and their commands\<close>

text \<open>The greatest id a stream ever had, which outlives its entry, and its entries.\<close>

record stream =
  sm_top :: "int option"
  sm_entries :: "(int \<times> string) list"

definition empty_stream :: stream where
  "empty_stream = \<lparr>sm_top = None, sm_entries = []\<rparr>"

datatype xcmd =
    XADD string int string
  | XTRIM_MINID string int
  | XTRIM_MAXLEN string int
  | XEXPIRE string int
  | XDEL string "int list"
  | XRANGE string int int
  | XREVRANGE string "nat option"
  | PUBLISH string string

datatype xreply = XOk | XSmallId | XWrongType | XErr | XEntries "(int \<times> string) list"

type_synonym 'x stream_db = "'x \<Rightarrow> xcmd \<Rightarrow> 'x \<times> xreply"

definition fresh_id :: "int \<Rightarrow> stream \<Rightarrow> bool" where
  "fresh_id i s \<longleftrightarrow> 0 < i \<and> (case sm_top s of None \<Rightarrow> True | Some t \<Rightarrow> t < i)"

fun stream_effect :: "xcmd \<Rightarrow> (string \<Rightarrow> stream) \<Rightarrow> string \<Rightarrow> stream" where
  "stream_effect (XADD k i d) s =
     (if fresh_id i (s k) then s(k := \<lparr>sm_top = Some i, sm_entries = sm_entries (s k) @ [(i, d)]\<rparr>) else s)"
| "stream_effect (XTRIM_MINID k m) s = s(k := (s k)\<lparr>sm_entries := filter (\<lambda>e. m \<le> fst e) (sm_entries (s k))\<rparr>)"
| "stream_effect (XTRIM_MAXLEN k n) s =
     s(k := (s k)\<lparr>sm_entries := drop (length (sm_entries (s k)) - nat n) (sm_entries (s k))\<rparr>)"
| "stream_effect (XEXPIRE k secs) s = (if 0 < secs then s else s(k := empty_stream))"
| "stream_effect (XDEL k ids) s = s(k := (s k)\<lparr>sm_entries := filter (\<lambda>e. fst e \<notin> set ids) (sm_entries (s k))\<rparr>)"
| "stream_effect (XRANGE k a b) s = s"
| "stream_effect (XREVRANGE k n) s = s"
| "stream_effect (PUBLISH ch m) s = s"

fun stream_reply :: "xcmd \<Rightarrow> (string \<Rightarrow> stream) \<Rightarrow> xreply" where
  "stream_reply (XADD k i d) s = (if fresh_id i (s k) then XOk else if 0 < i then XSmallId else XErr)"
| "stream_reply (XRANGE k a b) s = XEntries (filter (\<lambda>e. a \<le> fst e \<and> fst e \<le> b) (sm_entries (s k)))"
| "stream_reply (XREVRANGE k n) s =
     XEntries ((case n of None \<Rightarrow> (\<lambda>l. l) | Some m \<Rightarrow> take m) (rev (sm_entries (s k))))"
| "stream_reply _ s = XOk"

definition failed :: "xreply \<Rightarrow> bool" where
  "failed r \<longleftrightarrow> r = XErr \<or> r = XWrongType"

definition stream_ok :: "stream \<Rightarrow> bool" where
  "stream_ok s \<longleftrightarrow> sorted_wrt (<) (map fst (sm_entries s)) \<and>
     (case sm_top s of None \<Rightarrow> sm_entries s = [] | Some t \<Rightarrow> list_all (\<lambda>e. fst e \<le> t) (sm_entries s))"

locale stream_server =
  fixes srv :: "'x stream_db" and view :: "'x \<Rightarrow> string \<Rightarrow> stream"
  assumes view_ok: "stream_ok (view db k)"
    and answered: "\<not> failed (snd (srv db c)) \<Longrightarrow>
      snd (srv db c) = stream_reply c (view db) \<and> view (fst (srv db c)) = stream_effect c (view db)"
    and refused: "failed (snd (srv db c)) \<Longrightarrow> view (fst (srv db c)) \<in> {view db, stream_effect c (view db)}"

section \<open>The client\<close>

text \<open>Retention in milliseconds and in entries, with their defaults.\<close>

record retention =
  MAX_RETENTION_TIME :: int
  MAX_RETENTION_SIZE :: int

definition defaultRetention :: retention where
  "defaultRetention = \<lparr>MAX_RETENTION_TIME = 24 * 3600 * 1000, MAX_RETENTION_SIZE = 1440\<rparr>"

text \<open>\<open>Connect\<close> replaces a default by a configured positive number.\<close>

definition retention_from :: "string \<Rightarrow> string \<Rightarrow> retention" where
  "retention_from entries hours =
     \<lparr>MAX_RETENTION_TIME = (case parse_int64 hours of Some h \<Rightarrow> if 0 < h then h * 3600 * 1000 else MAX_RETENTION_TIME defaultRetention
                               | None \<Rightarrow> MAX_RETENTION_TIME defaultRetention),
      MAX_RETENTION_SIZE = (case parse_int64 entries of Some n \<Rightarrow> if 0 < n then n else MAX_RETENTION_SIZE defaultRetention
                               | None \<Rightarrow> MAX_RETENTION_SIZE defaultRetention)\<rparr>"

fun DoMulti_stream :: "'x stream_db \<Rightarrow> 'x \<Rightarrow> xcmd list \<Rightarrow> 'x \<times> xreply list" where
  "DoMulti_stream srv db [] = (db, [])"
| "DoMulti_stream srv db (c # cs) =
     (case srv db c of (db1, r) \<Rightarrow> (case DoMulti_stream srv db1 cs of (db2, rs) \<Rightarrow> (db2, r # rs)))"

definition createChannel :: "string list \<Rightarrow> string" where
  "createChannel parts = join [colon] parts @ '':channel''"

text \<open>Small timestamps are taken for seconds.\<close>

definition stream_id :: "int \<Rightarrow> int" where
  "stream_id timestamp = (if timestamp < 10000000000 then wrap64 (timestamp * 1000) else timestamp)"

definition store_cmds :: "retention \<Rightarrow> int \<Rightarrow> string \<Rightarrow> int \<Rightarrow> string \<Rightarrow> xcmd list" where
  "store_cmds R now streamKey i jsonData =
     [XADD streamKey i jsonData]
     @ (if 0 < MAX_RETENTION_TIME R then [XTRIM_MINID streamKey (now - MAX_RETENTION_TIME R)] else [])
     @ (if 0 < MAX_RETENTION_SIZE R then [XTRIM_MAXLEN streamKey (MAX_RETENTION_SIZE R)] else [])
     @ [XEXPIRE streamKey (MAX_RETENTION_TIME R div 1000)]"

text \<open>Whether no error is returned; \<open>now\<close> is the clock in milliseconds.\<close>

definition StoreSortedListEntry ::
  "'x stream_db \<Rightarrow> retention \<Rightarrow> int \<Rightarrow> ('v \<Rightarrow> string option) \<Rightarrow> 'v \<Rightarrow> int \<Rightarrow> string list \<Rightarrow> 'x \<Rightarrow> 'x \<times> bool" where
  "StoreSortedListEntry srv R now enc data timestamp keys db =
     (case enc data of
        None \<Rightarrow> (db, False)
      | Some jsonData \<Rightarrow>
          (case DoMulti_stream srv db (store_cmds R now (createKey keys) (stream_id timestamp) jsonData) of
             (db1, replies) \<Rightarrow>
               if hd replies = XSmallId then (db1, True)
               else if failed (hd replies) then (db1, False)
               else (case srv db1 (PUBLISH (createChannel keys) jsonData) of (db2, r) \<Rightarrow> (db2, \<not> failed r))))"

definition parseStreamMessages :: "(string \<Rightarrow> 'v option) \<Rightarrow> (int \<times> string) list \<Rightarrow> 'v list" where
  "parseStreamMessages dec messages = List.map_filter (\<lambda>e. dec (snd e)) messages"

definition entries_reply :: "(string \<Rightarrow> 'v option) \<Rightarrow> 'x \<times> xreply \<Rightarrow> 'x \<times> 'v list option" where
  "entries_reply dec reply =
     (fst reply, case snd reply of XEntries messages \<Rightarrow> Some (parseStreamMessages dec messages) | _ \<Rightarrow> None)"

definition GetObjectsFromSortedListWithRange ::
  "'x stream_db \<Rightarrow> (string \<Rightarrow> 'v option) \<Rightarrow> int \<Rightarrow> int \<Rightarrow> string list \<Rightarrow> 'x \<Rightarrow> 'x \<times> 'v list option" where
  "GetObjectsFromSortedListWithRange srv dec start stop keys db = entries_reply dec (srv db (XRANGE (createKey keys) start stop))"

definition GetObjectsFromSortedListWithDuration ::
  "'x stream_db \<Rightarrow> (string \<Rightarrow> 'v option) \<Rightarrow> int \<Rightarrow> int \<Rightarrow> string list \<Rightarrow> 'x \<Rightarrow> 'x \<times> 'v list option" where
  "GetObjectsFromSortedListWithDuration srv dec now duration keys db =
     GetObjectsFromSortedListWithRange srv dec (now - duration * 60000) now keys db"

definition GetLastObjectsFromSortedList ::
  "'x stream_db \<Rightarrow> (string \<Rightarrow> 'v option) \<Rightarrow> nat \<Rightarrow> string list \<Rightarrow> 'x \<Rightarrow> 'x \<times> 'v list option" where
  "GetLastObjectsFromSortedList srv dec count keys db = entries_reply dec (srv db (XREVRANGE (createKey keys) (Some count)))"

text \<open>The ids of the entries about one Helm release; an entry that does not decode ends the search.\<close>

fun release_ids :: "(string \<Rightarrow> json option) \<Rightarrow> string \<Rightarrow> string \<Rightarrow> (int \<times> string) list \<Rightarrow> int list option" where
  "release_ids dec namespace releaseName [] = Some []"
| "release_ids dec namespace releaseName ((i, d) # es) =
     (case dec d of
        None \<Rightarrow> None
      | Some obj \<Rightarrow>
          map_option (\<lambda>ids. if nested obj [''Payload'', ''namespace''] = Some (JStr namespace)
                               \<and> nested obj [''Payload'', ''releaseName''] = Some (JStr releaseName) then i # ids else ids)
            (release_ids dec namespace releaseName es))"

definition DeleteFromSortedListWithNsAndReleaseName ::
  "'x stream_db \<Rightarrow> (string \<Rightarrow> json option) \<Rightarrow> string \<Rightarrow> string \<Rightarrow> string list \<Rightarrow> 'x \<Rightarrow> 'x \<times> bool" where
  "DeleteFromSortedListWithNsAndReleaseName srv dec namespace releaseName keys db =
     (case srv db (XREVRANGE (createKey keys) None) of
        (db1, XEntries messages) \<Rightarrow>
          (case release_ids dec namespace releaseName messages of
             None \<Rightarrow> (db1, False)
           | Some [] \<Rightarrow> (db1, True)
           | Some ids \<Rightarrow> (case srv db1 (XDEL (createKey keys) ids) of (db2, r) \<Rightarrow> (db2, \<not> failed r)))
      | (db1, _) \<Rightarrow> (db1, False))"

section \<open>What a write does\<close>

fun touches :: "xcmd \<Rightarrow> string option" where
  "touches (XADD k i d) = Some k"
| "touches (XTRIM_MINID k m) = Some k"
| "touches (XTRIM_MAXLEN k n) = Some k"
| "touches (XEXPIRE k secs) = Some k"
| "touches (XDEL k ids) = Some k"
| "touches _ = None"

lemma effect_other: "touches c \<noteq> Some k \<Longrightarrow> stream_effect c s k = s k"
  by (cases c) auto

text \<open>Trimming and expiry only take entries away.\<close>

lemma effect_subset:
  "set (sm_entries (stream_effect c s k)) \<subseteq> set (sm_entries (s k)) \<union> (case c of XADD k' i d \<Rightarrow> {(i, d)} | _ \<Rightarrow> {})"
  by (cases c) (auto simp: empty_stream_def dest: in_set_dropD)

text \<open>The maintenance commands of a write with a positive retention.\<close>

definition maintains :: "retention \<Rightarrow> int \<Rightarrow> string \<Rightarrow> xcmd \<Rightarrow> bool" where
  "maintains R now k c \<longleftrightarrow> c \<in> {XTRIM_MINID k (now - MAX_RETENTION_TIME R), XTRIM_MAXLEN k (MAX_RETENTION_SIZE R),
     XEXPIRE k (MAX_RETENTION_TIME R div 1000)}"

definition newest :: "int \<times> string \<Rightarrow> stream \<Rightarrow> bool" where
  "newest e s \<longleftrightarrow> sm_entries s \<noteq> [] \<and> last (sm_entries s) = e"

lemma newest_effect:
  assumes "newest (i, d) (s k)" "maintains R now k c" "0 < MAX_RETENTION_SIZE R" "1000 \<le> MAX_RETENTION_TIME R"
    and "now - MAX_RETENTION_TIME R \<le> i"
  shows "newest (i, d) (stream_effect c s k)"
proof -
  obtain es where es: "sm_entries (s k) = es @ [(i, d)]"
    using assms(1) by (metis append_butlast_last_id newest_def)
  show ?thesis
    using assms(2-5) es by (auto simp: newest_def maintains_def split: if_splits)
qed

context stream_server
begin

lemma view_step: "view (fst (srv db c)) \<in> {view db, stream_effect c (view db)}"
  using answered [of db c] refused [of db c] by blast

lemma view_other: "touches c \<noteq> Some k \<Longrightarrow> view (fst (srv db c)) k = view db k"
  using view_step [of db c] effect_other by auto

lemma view_read: "touches c = None \<Longrightarrow> view (fst (srv db c)) = view db"
  by (rule ext, rule view_other) simp

lemma multi_other: "\<forall>c \<in> set cs. touches c = Some k' \<Longrightarrow> k \<noteq> k' \<Longrightarrow> view (fst (DoMulti_stream srv db cs)) k = view db k"
proof (induction cs arbitrary: db)
  case (Cons c cs)
  obtain db1 r where c: "srv db c = (db1, r)" by force
  with Cons.prems view_other [of c k db] have "view db1 k = view db k" by auto
  with Cons.IH [of db1] Cons.prems c show ?case by (simp split: prod.split) (metis fst_conv)
qed simp

lemma multi_subset:
  "\<forall>c \<in> set cs. maintains R now k c \<Longrightarrow>
   set (sm_entries (view (fst (DoMulti_stream srv db cs)) k)) \<subseteq> set (sm_entries (view db k))"
proof (induction cs arbitrary: db)
  case (Cons c cs)
  obtain db1 r where c: "srv db c = (db1, r)" by force
  have "set (sm_entries (view db1 k)) \<subseteq> set (sm_entries (view db k))"
    using view_step [of db c] effect_subset [of c "view db" k] Cons.prems c by (auto simp: maintains_def)
  with Cons.IH [of db1] Cons.prems c show ?case by (auto split: prod.split)
qed simp

lemma multi_newest:
  assumes "\<forall>c \<in> set cs. maintains R now k c" "newest (i, d) (view db k)"
    and "0 < MAX_RETENTION_SIZE R" "1000 \<le> MAX_RETENTION_TIME R" "now - MAX_RETENTION_TIME R \<le> i"
  shows "newest (i, d) (view (fst (DoMulti_stream srv db cs)) k)"
  using assms(1,2)
proof (induction cs arbitrary: db)
  case (Cons c cs)
  obtain db1 r where c: "srv db c = (db1, r)" by force
  have "newest (i, d) (view db1 k)"
    using view_step [of db c] newest_effect [of i d "view db" k R now c] Cons.prems assms(3-5) c by auto
  with Cons.IH [of db1] Cons.prems(1) c show ?case by (auto split: prod.split)
qed simp

lemma store_cmds_Cons:
  "\<exists>cs. store_cmds R now k i d = XADD k i d # cs \<and> (\<forall>c \<in> set cs. maintains R now k c)"
  by (auto simp: store_cmds_def maintains_def)

lemma maintains_touches: "maintains R now k c \<Longrightarrow> touches c = Some k"
  by (auto simp: maintains_def)

lemma store_view:
  assumes "enc data = Some d"
  shows "view (fst (StoreSortedListEntry srv R now enc data ts keys db))
     = view (fst (DoMulti_stream srv db (store_cmds R now (createKey keys) (stream_id ts) d)))"
proof -
  obtain db1 rs where m: "DoMulti_stream srv db (store_cmds R now (createKey keys) (stream_id ts) d) = (db1, rs)" by force
  obtain db2 r where p: "srv db1 (PUBLISH (createChannel keys) d) = (db2, r)" by force
  have "view db2 = view db1" using view_read [of "PUBLISH (createChannel keys) d" db1] p by simp
  with m p assms show ?thesis by (simp add: StoreSortedListEntry_def)
qed

text \<open>A write leaves every other stream alone.\<close>

lemma store_other:
  assumes "k \<noteq> createKey keys"
  shows "view (fst (StoreSortedListEntry srv R now enc data ts keys db)) k = view db k"
proof (cases "enc data")
  case (Some d)
  have "view (fst (DoMulti_stream srv db (store_cmds R now (createKey keys) (stream_id ts) d))) k = view db k"
    using assms store_cmds_Cons [of R now "createKey keys" "stream_id ts" d]
    by (intro multi_other [where k' = "createKey keys"]) (auto dest: maintains_touches)
  then show ?thesis by (simp add: store_view [where enc = enc and data = data and d = d, OF Some])
qed (simp add: StoreSortedListEntry_def)

text \<open>A write under an id that is not new stores nothing, and reports success unless the server fails.\<close>

lemma store_stale:
  assumes "\<not> fresh_id (stream_id ts) (view db (createKey keys))"
  shows "set (sm_entries (view (fst (StoreSortedListEntry srv R now enc data ts keys db)) (createKey keys)))
     \<subseteq> set (sm_entries (view db (createKey keys)))"
proof (cases "enc data")
  case (Some d)
  let ?k = "createKey keys" and ?i = "stream_id ts"
  obtain cs where cs: "store_cmds R now ?k ?i d = XADD ?k ?i d # cs" "\<forall>c \<in> set cs. maintains R now ?k c"
    using store_cmds_Cons by blast
  obtain db1 r where x: "srv db (XADD ?k ?i d) = (db1, r)" by force
  have "view db1 = view db" using view_step [of db "XADD ?k ?i d"] x assms by simp
  then have "set (sm_entries (view (fst (DoMulti_stream srv db1 cs)) ?k)) \<subseteq> set (sm_entries (view db ?k))"
    using multi_subset [OF cs(2), of db1] by simp
  moreover have "fst (DoMulti_stream srv db (store_cmds R now ?k ?i d)) = fst (DoMulti_stream srv db1 cs)"
    by (simp add: cs(1) x split: prod.split)
  ultimately show ?thesis by (simp add: store_view [where enc = enc and data = data and d = d, OF Some])
qed (simp add: StoreSortedListEntry_def)

text \<open>A successful write under a new id leaves its entry as the newest one of the stream.\<close>

lemma store_newest:
  assumes run: "StoreSortedListEntry srv R now enc data ts keys db = (db', True)"
    and fresh: "fresh_id (stream_id ts) (view db (createKey keys))" and enc: "enc data = Some d"
    and R: "0 < MAX_RETENTION_SIZE R" "1000 \<le> MAX_RETENTION_TIME R" "now - MAX_RETENTION_TIME R \<le> stream_id ts"
  shows "newest (stream_id ts, d) (view db' (createKey keys))"
proof -
  let ?k = "createKey keys" and ?i = "stream_id ts"
  obtain cs where cs: "store_cmds R now ?k ?i d = XADD ?k ?i d # cs" "\<forall>c \<in> set cs. maintains R now ?k c"
    using store_cmds_Cons by blast
  obtain db1 r where x: "srv db (XADD ?k ?i d) = (db1, r)" by force
  obtain db2 rs where m: "DoMulti_stream srv db1 cs = (db2, rs)" by force
  have "r \<noteq> XSmallId" using answered [of db "XADD ?k ?i d"] x fresh by (auto simp: failed_def)
  with run enc cs(1) x m have nf: "\<not> failed r" and pub: "db' = fst (srv db2 (PUBLISH (createChannel keys) d))"
    by (auto simp: StoreSortedListEntry_def split: prod.splits if_splits)
  have "newest (?i, d) (view db1 ?k)"
    using answered [of db "XADD ?k ?i d"] x nf fresh by (simp add: newest_def)
  from multi_newest [OF cs(2) this R] m have "newest (?i, d) (view db2 ?k)" by simp
  moreover have "view db' = view db2" unfolding pub by (rule view_read) simp
  ultimately show ?thesis by simp
qed

lemma range_reply:
  assumes "GetObjectsFromSortedListWithRange srv dec start stop keys db = (db', Some vs)"
  shows "vs = parseStreamMessages dec (filter (\<lambda>e. start \<le> fst e \<and> fst e \<le> stop) (sm_entries (view db (createKey keys))))"
  using assms answered [of db "XRANGE (createKey keys) start stop"]
  by (auto simp: GetObjectsFromSortedListWithRange_def entries_reply_def failed_def split: xreply.splits)

text \<open>Any two entries of a stream have different ids.\<close>

lemma ids_distinct: "distinct (map fst (sm_entries (view db k)))"
  using view_ok [of db k] strict_sorted_iff by (auto simp: stream_ok_def)

end

section \<open>A server in memory\<close>

type_synonym mem_streams = "(string, stream) gomap"

definition mem_view :: "mem_streams \<Rightarrow> string \<Rightarrow> stream" where
  "mem_view m k = (case map_of m k of None \<Rightarrow> empty_stream | Some s \<Rightarrow> if stream_ok s then s else empty_stream)"

definition mem_stream_do :: "mem_streams stream_db" where
  "mem_stream_do m c =
     (case touches c of None \<Rightarrow> m | Some k \<Rightarrow> AList.update k (stream_effect c (mem_view m) k) m, stream_reply c (mem_view m))"

lemma mem_view_ok: "stream_ok (mem_view m k)"
  by (simp add: mem_view_def empty_stream_def stream_ok_def split: option.split)

lemma stream_ok_empty: "stream_ok empty_stream"
  by (simp add: empty_stream_def stream_ok_def)

lemma stream_ok_fewer:
  assumes "stream_ok s" "sorted_wrt (<) (map fst es)" "set es \<subseteq> set (sm_entries s)"
  shows "stream_ok (s\<lparr>sm_entries := es\<rparr>)"
  using assms by (auto simp: stream_ok_def list_all_iff split: option.splits)

lemma stream_ok_filter: "stream_ok s \<Longrightarrow> stream_ok (s\<lparr>sm_entries := filter P (sm_entries s)\<rparr>)"
  by (rule stream_ok_fewer) (auto simp: stream_ok_def sorted_wrt_map intro: sorted_wrt_filter)

lemma stream_ok_drop: "stream_ok s \<Longrightarrow> stream_ok (s\<lparr>sm_entries := drop n (sm_entries s)\<rparr>)"
  by (rule stream_ok_fewer) (auto simp: stream_ok_def sorted_wrt_drop drop_map [symmetric] dest: in_set_dropD)

lemma stream_ok_add:
  assumes "stream_ok s" "fresh_id i s"
  shows "stream_ok \<lparr>sm_top = Some i, sm_entries = sm_entries s @ [(i, d)]\<rparr>"
  using assms by (force simp: stream_ok_def fresh_id_def sorted_wrt_append list_all_iff split: option.splits)

lemma effect_ok: "stream_ok (s k) \<Longrightarrow> stream_ok (stream_effect c s k)"
  by (cases c) (auto simp: stream_ok_empty intro: stream_ok_filter stream_ok_drop stream_ok_add)

lemma mem_view_do: "mem_view (fst (mem_stream_do m c)) = stream_effect c (mem_view m)"
proof
  fix k
  have ok: "stream_ok (stream_effect c (mem_view m) k)" by (rule effect_ok) (rule mem_view_ok)
  have upd: "mem_view (AList.update k' v m) k = (if k = k' then if stream_ok v then v else empty_stream else mem_view m k)" for k' v
    by (simp add: mem_view_def)
  show "mem_view (fst (mem_stream_do m c)) k = stream_effect c (mem_view m) k"
    using ok effect_other [of c k "mem_view m"] by (auto simp: mem_stream_do_def upd split: option.split)
qed

interpretation memx: stream_server mem_stream_do mem_view
  by unfold_locales (simp_all add: mem_view_ok mem_view_do, simp add: mem_stream_do_def)

section \<open>Written and read back\<close>

lemma last_map_filter: "xs \<noteq> [] \<Longrightarrow> f (last xs) = Some v \<Longrightarrow> List.map_filter f xs \<noteq> [] \<and> last (List.map_filter f xs) = v"
  by (induction xs rule: rev_induct) (auto simp: map_filter_def)

text \<open>C40: A successful write of a time series under a new id is read back: with a positive retention and
  an id within it, every later read of a range that holds the id ends with the written value, and
  no other stream has changed.\<close>
theorem stream_entry_read_back:
  assumes server: "stream_server srv view"
    and run: "StoreSortedListEntry srv R now enc data ts keys db = (db', True)"
    and fresh: "fresh_id (stream_id ts) (view db (createKey keys))"
    and codec: "enc data = Some d" "dec d = Some v"
    and retention: "0 < MAX_RETENTION_SIZE R" "1000 \<le> MAX_RETENTION_TIME R" "now - MAX_RETENTION_TIME R \<le> stream_id ts"
    and range: "start \<le> stream_id ts" "stream_id ts \<le> stop"
    and read: "GetObjectsFromSortedListWithRange srv dec start stop keys db' = (db'', Some vs)"
  shows "vs \<noteq> [] \<and> last vs = v \<and> (\<forall>k. k \<noteq> createKey keys \<longrightarrow> view db' k = view db k)"
proof -
  let ?es = "sm_entries (view db' (createKey keys))" and ?P = "\<lambda>e. start \<le> fst e \<and> fst e \<le> stop"
  have "newest (stream_id ts, d) (view db' (createKey keys))"
    by (rule stream_server.store_newest [OF server run fresh codec(1) retention])
  then obtain es where "?es = es @ [(stream_id ts, d)]" by (metis append_butlast_last_id newest_def)
  with range have "filter ?P ?es \<noteq> []" "last (filter ?P ?es) = (stream_id ts, d)" by simp_all
  with codec(2) last_map_filter [of "filter ?P ?es" "\<lambda>e. dec (snd e)" v] have "vs \<noteq> [] \<and> last vs = v"
    using stream_server.range_reply [OF server read] by (simp add: parseStreamMessages_def)
  moreover have "view db' k = view db k" if "k \<noteq> createKey keys" for k
    using stream_server.store_other [OF server that, of R now enc data ts db] run by simp
  ultimately show ?thesis by blast
qed

theorem stream_entry_read_back_witness:
  "snd (GetObjectsFromSortedListWithRange mem_stream_do Some 0 2000000 [''s'']
      (fst (StoreSortedListEntry mem_stream_do defaultRetention 1000000 Some ''x'' 1000 [''s''] []))) = Some [''x''] \<and> last [''x''] = ''x''"
proof -
  let ?w = "StoreSortedListEntry mem_stream_do defaultRetention 1000000 Some ''x'' 1000 [''s''] []"
  let ?g = "GetObjectsFromSortedListWithRange mem_stream_do Some 0 2000000 [''s''] (fst ?w)"
  have w: "?w = (fst ?w, True)" by code_simp
  have g: "snd ?g = Some [''x'']" by code_simp
  then have "?g = (fst ?g, Some [''x''])" by (metis prod.collapse)
  from stream_entry_read_back [OF memx.stream_server_axioms w _ _ _ _ _ _ _ _ this, of "''x''" "''x''"]
  have "last [''x''] = ''x''"
    by (simp add: defaultRetention_def stream_id_def wrap64_def fresh_id_def mem_view_def empty_stream_def)
  with g show ?thesis by simp
qed

end
