(* ===== verification/StatsDb.thy ===== *)
theory StatsDb
  imports ValkeyStreams OwnerCache "HOL-Library.Word"
begin

text \<open>
  The statistics of \<open>core/dbstats.go\<close>: what is written into the time series of pods, nodes and
  interfaces, and the charts read from them.

  Times are milliseconds since the epoch, network counters are 64-bit words as in the source. Chart
  values are floating point in the source; they are sums of integers, which are exact below
  \<open>2\<^sup>5\<^sup>3\<close>, and integers here. The owner lookup is the one of \<open>OwnerCache\<close>, with its cache; JSON
  encoding is a parameter.
\<close>

section \<open>Samples\<close>

text \<open>\<open>structs.PodStats\<close> and \<open>networkmonitor.PodNetworkStats\<close>.\<close>

record PodStats =
  po_Namespace :: string
  po_PodName :: string
  po_ContainerName :: string
  po_Cpu :: int
  po_CpuLimit :: int
  po_Memory :: int
  po_MemoryLimit :: int
  po_EphemeralStorage :: int
  po_EphemeralStorageLimit :: int
  po_StartTime :: int
  po_CreatedAt :: int

record PodNetworkStats =
  pn_Pod :: string
  pn_Namespace :: string
  pn_ReceivedPackets :: "64 word"
  pn_ReceivedBytes :: "64 word"
  pn_ReceivedStartBytes :: "64 word"
  pn_TransmitPackets :: "64 word"
  pn_TransmitBytes :: "64 word"
  pn_TransmitStartBytes :: "64 word"
  pn_CreatedAt :: int

record 'x stats_env =
  se_streams :: "'x stream_db"
  se_retention :: retention
  se_getter :: object_getter
  se_podEnc :: "PodStats \<Rightarrow> string option"
  se_podDec :: "string \<Rightarrow> PodStats option"
  se_netEnc :: "PodNetworkStats \<Rightarrow> string option"
  se_netDec :: "string \<Rightarrow> PodNetworkStats option"

record 'x stats_state =
  sd_db :: 'x
  sd_owners :: "(string, WorkloadSingleRequest) gomap"
  sd_last :: "PodNetworkStats list"

definition DB_STATS_TRAFFIC_BUCKET_NAME :: string where
  "DB_STATS_TRAFFIC_BUCKET_NAME = ''traffic-stats''"

definition DB_STATS_POD_STATS_BUCKET_NAME :: string where
  "DB_STATS_POD_STATS_BUCKET_NAME = ''pod-stats''"

text \<open>\<open>time.Now().Truncate(time.Minute).Unix()\<close> and \<open>t.Truncate(time.Minute)\<close>, \<open>t.Round(time.Minute)\<close>.\<close>

definition minute_unix :: "int \<Rightarrow> int" where
  "minute_unix now = now div 60000 * 60"

definition truncate_minute :: "int \<Rightarrow> int" where
  "truncate_minute t = t div 60000 * 60000"

definition round_minute :: "int \<Rightarrow> int" where
  "round_minute t = (t + 30000) div 60000 * 60000"

text \<open>The zero time of Go.\<close>

definition zero_time :: int where
  "zero_time = - 62135596800000"

section \<open>Writing\<close>

text \<open>A counter that has gone back was reset.\<close>

definition counter_delta :: "64 word \<Rightarrow> 64 word \<Rightarrow> 64 word" where
  "counter_delta now prev = (if prev \<le> now then now - prev else 0)"

definition last_stats_map :: "PodNetworkStats list \<Rightarrow> (string, PodNetworkStats) gomap" where
  "last_stats_map lastStats = foldl (\<lambda>m e. AList.update (pn_Pod e) e m) [] lastStats"

definition delta_stat :: "(string, PodNetworkStats) gomap \<Rightarrow> PodNetworkStats \<Rightarrow> PodNetworkStats" where
  "delta_stat lastStatsMap currentStat =
     (case map_of lastStatsMap (pn_Pod currentStat) of
        Some lastEntry \<Rightarrow>
          currentStat\<lparr>pn_Namespace := [],
            pn_ReceivedBytes := counter_delta (pn_ReceivedBytes currentStat) (pn_ReceivedBytes lastEntry),
            pn_ReceivedPackets := counter_delta (pn_ReceivedPackets currentStat) (pn_ReceivedPackets lastEntry),
            pn_TransmitBytes := counter_delta (pn_TransmitBytes currentStat) (pn_TransmitBytes lastEntry),
            pn_TransmitPackets := counter_delta (pn_TransmitPackets currentStat) (pn_TransmitPackets lastEntry)\<rparr>
      | None \<Rightarrow>
          currentStat\<lparr>pn_Namespace := [], pn_ReceivedBytes := 0, pn_ReceivedPackets := 0, pn_TransmitBytes := 0, pn_TransmitPackets := 0\<rparr>)"

text \<open>The loop over the current samples; \<open>None\<close> if an owner lookup never returns.\<close>

fun store_deltas ::
  "'x stats_env \<Rightarrow> int \<Rightarrow> (string, PodNetworkStats) gomap \<Rightarrow> PodNetworkStats list \<Rightarrow> 'x stats_state \<Rightarrow> 'x stats_state option" where
  "store_deltas E now lastStatsMap [] st = Some st"
| "store_deltas E now lastStatsMap (currentStat # stats) st =
     Option.bind (ControllerForPod (se_getter E) (pn_Namespace currentStat) (pn_Pod currentStat) (sd_owners st)) (\<lambda>(controller, owners).
       let name = (case controller of Some c \<Rightarrow> wl_ResourceName c | None \<Rightarrow> pn_Pod currentStat);
           db = fst (StoreSortedListEntry (se_streams E) (se_retention E) now (se_netEnc E) (delta_stat lastStatsMap currentStat)
                  (minute_unix now) [DB_STATS_TRAFFIC_BUCKET_NAME, pn_Namespace currentStat, name] (sd_db st))
       in store_deltas E now lastStatsMap stats (st\<lparr>sd_db := db, sd_owners := owners\<rparr>))"

definition AddInterfaceStatsToDb :: "'x stats_env \<Rightarrow> int \<Rightarrow> PodNetworkStats list \<Rightarrow> 'x stats_state \<Rightarrow> 'x stats_state option" where
  "AddInterfaceStatsToDb E now currentStats st =
     store_deltas E now (last_stats_map (sd_last st)) currentStats (st\<lparr>sd_last := currentStats\<rparr>)"

text \<open>A pod without a controller is skipped; the first failing write ends the loop with an error.\<close>

fun AddPodStatsToDb :: "'x stats_env \<Rightarrow> int \<Rightarrow> PodStats list \<Rightarrow> 'x stats_state \<Rightarrow> ('x stats_state \<times> bool) option" where
  "AddPodStatsToDb E now [] st = Some (st, True)"
| "AddPodStatsToDb E now (stat # stats) st =
     Option.bind (ControllerForPod (se_getter E) (po_Namespace stat) (po_PodName stat) (sd_owners st)) (\<lambda>(controller, owners).
       case controller of
         None \<Rightarrow> AddPodStatsToDb E now stats (st\<lparr>sd_owners := owners\<rparr>)
       | Some c \<Rightarrow>
           (case StoreSortedListEntry (se_streams E) (se_retention E) now (se_podEnc E)
                   (stat\<lparr>po_CreatedAt := now, po_Namespace := []\<rparr>) (minute_unix now)
                   [DB_STATS_POD_STATS_BUCKET_NAME, po_Namespace stat, wl_ResourceName c] (sd_db st) of
              (db, ok) \<Rightarrow>
                if ok then AddPodStatsToDb E now stats (st\<lparr>sd_db := db, sd_owners := owners\<rparr>)
                else Some (st\<lparr>sd_db := db, sd_owners := owners\<rparr>, False)))"

section \<open>Reading\<close>

text \<open>The namespace, which writers strip, is filled in again; a failed read is logged and gives nothing.\<close>

definition GetPodStatsEntriesForController ::
  "'x stats_env \<Rightarrow> int \<Rightarrow> string \<Rightarrow> string \<Rightarrow> int \<Rightarrow> 'x \<Rightarrow> PodStats list" where
  "GetPodStatsEntriesForController E now name namespace timeOffsetMinutes db =
     (case snd (GetObjectsFromSortedListWithDuration (se_streams E) (se_podDec E) now timeOffsetMinutes
              [DB_STATS_POD_STATS_BUCKET_NAME, namespace, name] db) of
        None \<Rightarrow> []
      | Some result \<Rightarrow> map (\<lambda>s. if po_Namespace s = [] then s\<lparr>po_Namespace := namespace\<rparr> else s) result)"

definition GetTrafficStatsEntriesForController ::
  "'x stats_env \<Rightarrow> int \<Rightarrow> string \<Rightarrow> string \<Rightarrow> int \<Rightarrow> 'x \<Rightarrow> PodNetworkStats list" where
  "GetTrafficStatsEntriesForController E now name namespace timeOffsetMinutes db =
     (case snd (GetObjectsFromSortedListWithDuration (se_streams E) (se_netDec E) now timeOffsetMinutes
              [DB_STATS_TRAFFIC_BUCKET_NAME, namespace, name] db) of
        None \<Rightarrow> []
      | Some result \<Rightarrow> map (\<lambda>s. if pn_Namespace s = [] then s\<lparr>pn_Namespace := namespace\<rparr> else s) result)"

section \<open>Charts\<close>

record GenericChartEntry =
  ge_Time :: int
  ge_Value :: int
  ge_Pods :: "(string, int) gomap"

type_synonym chart = "(int, GenericChartEntry) gomap"

fun findSmallest :: "(string, int) gomap \<Rightarrow> (string \<times> int) option" where
  "findSmallest [] = None"
| "findSmallest ((k, v) # m) =
     Some (foldl (\<lambda>(sk, sv) (key, value). if value < sv then (key, value) else (sk, sv)) (k, v) m)"

definition updateTop5Pods :: "(string, int) gomap \<Rightarrow> int \<Rightarrow> string \<Rightarrow> (string, int) gomap" where
  "updateTop5Pods pods compareValue podName =
     (if map_of pods podName \<noteq> None then AList.update podName compareValue pods
      else if length pods < 5 then AList.update podName compareValue pods
      else case findSmallest pods of
             None \<Rightarrow> pods
           | Some (smallestKey, smallestValue) \<Rightarrow>
               if smallestValue < compareValue
               then AList.update podName compareValue (AList.delete smallestKey pods)
               else pods)"

text \<open>One value of a pod at a minute; a minute without an entry starts with an empty one.\<close>

definition chart_at :: "chart \<Rightarrow> int \<Rightarrow> GenericChartEntry" where
  "chart_at c t = (case map_of c t of None \<Rightarrow> \<lparr>ge_Time = t, ge_Value = 0, ge_Pods = []\<rparr> | Some e \<Rightarrow> e)"

definition chart_add :: "chart \<Rightarrow> int \<times> string \<times> int \<Rightarrow> chart" where
  "chart_add c = (\<lambda>(t, pod, value).
     let e = chart_at c t
     in AList.update t (e\<lparr>ge_Value := ge_Value e + value, ge_Pods := updateTop5Pods (ge_Pods e) value pod\<rparr>) c)"

definition chart_merge :: "chart \<Rightarrow> chart \<Rightarrow> chart" where
  "chart_merge result localAgg =
     foldl (\<lambda>c (t, e). let g = chart_at c t
        in AList.update t (g\<lparr>ge_Value := ge_Value g + ge_Value e,
             ge_Pods := foldl (\<lambda>ps (pod, v). updateTop5Pods ps v pod) (ge_Pods g) (ge_Pods e)\<rparr>) c) result localAgg"

definition clamp_offset :: "int \<Rightarrow> int" where
  "clamp_offset timeOffsetInMinutes =
     (let t = (if timeOffsetInMinutes < 5 then 5 else timeOffsetInMinutes) in if t > 60 * 24 * 7 then 60 * 24 * 7 else t)"

text \<open>The samples of one controller that count: the first \<open>timeOffsetInMinutes\<close>, without those that have
  no time.\<close>

definition pod_samples :: "(PodStats \<Rightarrow> int) \<Rightarrow> int \<Rightarrow> PodStats list \<Rightarrow> (int \<times> string \<times> int) list" where
  "pod_samples val offset values =
     map (\<lambda>s. (truncate_minute (po_CreatedAt s), po_PodName s, val s))
       (filter (\<lambda>s. po_CreatedAt s \<noteq> zero_time) (take (nat offset) values))"

text \<open>The chart in the order of time, from the samples of the controllers whose series could be read,
  in the order in which their goroutines merge. The traffic chart takes over the entry of the first
  controller at a minute as it is, which has the same pods as merging them into an empty entry.\<close>

definition time_less :: "int \<times> GenericChartEntry \<Rightarrow> int \<times> GenericChartEntry \<Rightarrow> bool" where
  "time_less x y \<longleftrightarrow> fst x < fst y"

definition chart_of :: "(int \<times> string \<times> int) list list \<Rightarrow> GenericChartEntry list" where
  "chart_of samples =
     map snd (stable_sort time_less (foldl (\<lambda>result values. chart_merge result (foldl chart_add [] values)) [] samples))"

definition GetWorkspaceStatsCpuUtilization :: "int \<Rightarrow> PodStats list option list \<Rightarrow> GenericChartEntry list" where
  "GetWorkspaceStatsCpuUtilization timeOffsetInMinutes arrived =
     chart_of (map (pod_samples po_Cpu (clamp_offset timeOffsetInMinutes)) (List.map_filter (\<lambda>r. r) arrived))"

definition GetWorkspaceStatsMemoryUtilization :: "int \<Rightarrow> PodStats list option list \<Rightarrow> GenericChartEntry list" where
  "GetWorkspaceStatsMemoryUtilization timeOffsetInMinutes arrived =
     chart_of (map (pod_samples po_Memory (clamp_offset timeOffsetInMinutes)) (List.map_filter (\<lambda>r. r) arrived))"

text \<open>Counters stored before underflow was handled are taken for zero.\<close>

definition clamp_counter :: "64 word \<Rightarrow> 64 word" where
  "clamp_counter w = (if 184467440736991000 < w then 0 else w)"

definition traffic_samples :: "PodNetworkStats list \<Rightarrow> (int \<times> string \<times> int) list" where
  "traffic_samples values =
     map (\<lambda>s. (round_minute (pn_CreatedAt s), pn_Pod s,
                uint (clamp_counter (pn_TransmitBytes s) + clamp_counter (pn_ReceivedBytes s)))) values"

definition GetWorkspaceStatsTrafficUtilization :: "PodNetworkStats list option list \<Rightarrow> GenericChartEntry list" where
  "GetWorkspaceStatsTrafficUtilization arrived = chart_of (map traffic_samples (List.map_filter (\<lambda>r. r) arrived))"

section \<open>Traffic adds up\<close>

lemma counter_delta_le: "counter_delta now prev \<le> now"
  by (auto simp: counter_delta_def word_le_nat_alt unat_sub)

lemma unat_counter_delta: "prev \<le> now \<Longrightarrow> unat (counter_delta now prev) = unat now - unat prev"
  by (simp add: counter_delta_def unat_sub)

lemma last_stats_map_lookup:
  "distinct (map pn_Pod stats) \<Longrightarrow> s \<in> set stats \<Longrightarrow> map_of (last_stats_map stats) (pn_Pod s) = Some s"
proof (induction stats rule: rev_induct)
  case (snoc e stats)
  then show ?case by (auto simp: last_stats_map_def) (metis image_eqI)
qed simp

lemma last_stats_map_None: "p \<notin> pn_Pod ` set stats \<Longrightarrow> map_of (last_stats_map stats) p = None"
  by (induction stats rule: rev_induct) (auto simp: last_stats_map_def)

text \<open>What is written over several rounds of samples, each compared with the one before it.\<close>

fun delta_rounds :: "PodNetworkStats list \<Rightarrow> PodNetworkStats list list \<Rightarrow> PodNetworkStats list list" where
  "delta_rounds prev [] = []"
| "delta_rounds prev (c # cs) = map (delta_stat (last_stats_map prev)) c # delta_rounds c cs"

definition received :: "string \<Rightarrow> PodNetworkStats list \<Rightarrow> nat" where
  "received pod stats = sum_list (map (\<lambda>s. unat (pn_ReceivedBytes s)) (filter (\<lambda>s. pn_Pod s = pod) stats))"

definition one_sample :: "string \<Rightarrow> PodNetworkStats list \<Rightarrow> bool" where
  "one_sample pod stats \<longleftrightarrow> distinct (map pn_Pod stats) \<and> pod \<in> pn_Pod ` set stats"

lemma delta_stat_Pod [simp]: "pn_Pod (delta_stat m s) = pn_Pod s"
  by (simp add: delta_stat_def split: option.split)

lemma filter_single:
  "distinct (map f xs) \<Longrightarrow> x \<in> set xs \<Longrightarrow> filter (\<lambda>y. f y = f x) xs = [x]"
  by (induction xs) (auto simp: filter_empty_conv, metis image_eqI)

lemma received_delta:
  assumes "one_sample pod prev" "one_sample pod c" "received pod prev \<le> received pod c"
  shows "received pod (map (delta_stat (last_stats_map prev)) c) = received pod c - received pod prev"
proof -
  obtain s s' where s: "s \<in> set prev" "pn_Pod s = pod" "s' \<in> set c" "pn_Pod s' = pod"
    using assms(1,2) by (auto simp: one_sample_def)
  have f: "filter (\<lambda>x. pn_Pod x = pod) prev = [s]" "filter (\<lambda>x. pn_Pod x = pod) c = [s']"
    using assms(1,2) s filter_single [of pn_Pod prev s] filter_single [of pn_Pod c s'] by (auto simp: one_sample_def)
  have "filter (\<lambda>x. pn_Pod x = pod) (map (delta_stat (last_stats_map prev)) c) = [delta_stat (last_stats_map prev) s']"
    using f(2) by (simp add: filter_map o_def)
  moreover have "map_of (last_stats_map prev) (pn_Pod s') = Some s"
    using last_stats_map_lookup [of prev s] assms(1) s by (simp add: one_sample_def)
  moreover have "pn_ReceivedBytes s \<le> pn_ReceivedBytes s'"
    using assms(3) f by (simp add: received_def word_le_nat_alt)
  ultimately show ?thesis using f by (simp add: received_def delta_stat_def unat_counter_delta)
qed

lemma received_first:
  assumes "pod \<notin> pn_Pod ` set prev"
  shows "received pod (map (delta_stat (last_stats_map prev)) c) = 0"
proof -
  have "pn_ReceivedBytes (delta_stat (last_stats_map prev) s) = 0" if "pn_Pod s = pod" for s
    using that last_stats_map_None [OF assms] by (simp add: delta_stat_def)
  then show ?thesis by (simp add: received_def filter_map o_def sum_list_eq_0_iff)
qed

lemma delta_rounds_sum:
  assumes "one_sample pod prev" "list_all (one_sample pod) cs" "sorted (map (received pod) (prev # cs))"
  shows "sum_list (map (received pod) (delta_rounds prev cs)) = received pod (last (prev # cs)) - received pod prev"
  using assms
proof (induction cs arbitrary: prev)
  case (Cons c cs)
  have le: "received pod prev \<le> received pod c" "received pod c \<le> received pod (last (c # cs))"
    using Cons.prems(3) by (auto simp: sorted_append last_map)
  have "sum_list (map (received pod) (delta_rounds c cs)) = received pod (last (c # cs)) - received pod c"
    using Cons by simp
  with received_delta [OF Cons.prems(1) _ le(1)] Cons.prems(2) le show ?case by simp
qed simp


definition demo_sample :: "string \<Rightarrow> string \<Rightarrow> 64 word \<Rightarrow> PodNetworkStats" where
  "demo_sample namespace pod n =
     \<lparr>pn_Pod = pod, pn_Namespace = namespace, pn_ReceivedPackets = 1, pn_ReceivedBytes = n, pn_ReceivedStartBytes = 0,
      pn_TransmitPackets = 1, pn_TransmitBytes = n, pn_TransmitStartBytes = 0, pn_CreatedAt = 0\<rparr>"


text \<open>Samples are compared by the name of the pod alone, so a pod of the same name in another
  namespace is taken for its predecessor.\<close>

lemma same_pod_name_mixes:
  "map pn_ReceivedBytes (delta_stat (last_stats_map [demo_sample ''a'' ''db-0'' 100, demo_sample ''b'' ''db-0'' 7])
      (demo_sample ''a'' ''db-0'' 100) # []) = [93]"
  by (simp add: delta_stat_def last_stats_map_def demo_sample_def counter_delta_def)

section \<open>One entry per controller and minute\<close>

text \<open>The id of an entry is its minute and the key names the controller, so of several pods of one
  controller only the first one recorded in a minute is kept: a write while the stream already has
  an entry of that minute adds nothing.\<close>

lemma second_pod_dropped:
  assumes server: "stream_server (se_streams E) view"
    and ctl: "ControllerForPod (se_getter E) (po_Namespace stat) (po_PodName stat) (sd_owners st) = Some (Some c, owners)"
    and key: "k = createKey [DB_STATS_POD_STATS_BUCKET_NAME, po_Namespace stat, wl_ResourceName c]"
    and top: "sm_top (view (sd_db st) k) = Some (stream_id (minute_unix now))"
    and run: "AddPodStatsToDb E now [stat] st = Some (st', ok)"
  shows "set (sm_entries (view (sd_db st') k)) \<subseteq> set (sm_entries (view (sd_db st) k))"
proof -
  have "\<not> fresh_id (stream_id (minute_unix now)) (view (sd_db st) k)" using top by (simp add: fresh_id_def)
  from stream_server.store_stale [OF server this [unfolded key], of "se_retention E" now "se_podEnc E"
      "stat\<lparr>po_CreatedAt := now, po_Namespace := []\<rparr>"]
  show ?thesis using run ctl key by (auto split: prod.splits if_splits)
qed

section \<open>The five largest\<close>

text \<open>A map of pods holds the five largest values of a set of pods with their values.\<close>

definition top5 :: "(string \<times> int) set \<Rightarrow> (string, int) gomap \<Rightarrow> bool" where
  "top5 S m \<longleftrightarrow> wf_map m \<and> set m \<subseteq> S \<and> length m = min 5 (card S) \<and> (\<forall>x \<in> S - set m. \<forall>y \<in> set m. snd x \<le> snd y)"

lemma update_fresh: "k \<notin> fst ` set m \<Longrightarrow> AList.update k v m = m @ [(k, v)]"
  by (induction m) auto

lemma findSmallest_least:
  assumes "findSmallest m = Some x"
  shows "x \<in> set m \<and> (\<forall>y \<in> set m. snd x \<le> snd y)"
proof -
  have fold: "foldl (\<lambda>(sk, sv) (key, value). if value < sv then (key, value) else (sk, sv)) a es \<in> insert a (set es)
      \<and> (\<forall>y \<in> insert a (set es). snd (foldl (\<lambda>(sk, sv) (key, value). if value < sv then (key, value) else (sk, sv)) a es) \<le> snd y)"
    for a :: "string \<times> int" and es
  proof (induction es arbitrary: a)
    case (Cons e es)
    obtain sk sv key v where ae: "a = (sk, sv)" "e = (key, v)" by force
    from Cons.IH [of "if v < sv then e else a"] ae show ?case by (auto split: if_splits)
  qed simp
  show ?thesis using assms fold by (cases m rule: findSmallest.cases) auto
qed

lemma findSmallest_Some: "m \<noteq> [] \<Longrightarrow> \<exists>x. findSmallest m = Some x"
  by (cases m rule: findSmallest.cases) auto

lemma card_wf_map: "wf_map m \<Longrightarrow> card (set m) = length m"
  by (simp add: distinct_card distinct_map)

lemma set_delete_entry: "wf_map m \<Longrightarrow> (k, v) \<in> set m \<Longrightarrow> set (AList.delete k m) = set m - {(k, v)}"
  by (induction m) (auto simp: AList.delete_eq rev_image_eqI)

lemma top5_all:
  assumes "top5 S m" "finite S" "length m < 5"
  shows "set m = S"
  using assms card_wf_map [of m] card_subset_eq [of S "set m"] by (auto simp: top5_def)

lemma top5_update:
  assumes S: "top5 S m" "finite S" and new: "p \<notin> fst ` S"
  shows "top5 (insert (p, v) S) (updateTop5Pods m v p)"
proof -
  have wf: "wf_map m" and sub: "set m \<subseteq> S" and big: "\<forall>x \<in> S - set m. \<forall>y \<in> set m. snd x \<le> snd y"
    and len: "length m = min 5 (card S)" using S(1) by (auto simp: top5_def)
  have p: "p \<notin> fst ` set m" using new sub by auto
  have card: "card (insert (p, v) S) = Suc (card S)" using new S(2) by (intro card_insert_disjoint) force+
  show ?thesis
  proof (cases "length m < 5")
    case True
    have "set m = S" by (rule top5_all [OF S True])
    with True p wf len card show ?thesis by (auto simp: updateTop5Pods_def map_of_eq_None_iff update_fresh top5_def)
  next
    case False
    then obtain k s where ks: "findSmallest m = Some (k, s)" using findSmallest_Some [of m] by force
    have least: "(k, s) \<in> set m" "\<forall>y \<in> set m. s \<le> snd y" using findSmallest_least [OF ks] by auto
    have len5: "length m = 5" "5 \<le> card S" using False len by auto
    show ?thesis
    proof (cases "s < v")
      case True
      let ?d = "AList.delete k m"
      have d: "set ?d = set m - {(k, s)}" "wf_map ?d"
        using least(1) wf by (simp_all add: set_delete_entry)
      have "length ?d = 4" using d card_wf_map [of ?d] card_wf_map [OF wf] least(1) len5 by simp
      moreover have upd: "updateTop5Pods m v p = ?d @ [(p, v)]"
        using False p ks True update_fresh [of p ?d v] d by (auto simp: updateTop5Pods_def map_of_eq_None_iff)
      moreover have "snd x \<le> snd y" if "x \<in> insert (p, v) S - set (?d @ [(p, v)])" "y \<in> set (?d @ [(p, v)])" for x y
      proof (cases "x = (k, s)")
        case True
        then show ?thesis using that(2) d least(2) \<open>s < v\<close> by auto
      next
        case False
        then have "x \<in> S - set m" using that(1) d by auto
        then have "\<forall>y \<in> set m. snd x \<le> snd y" using big by blast
        then show ?thesis using that(2) d least(1) \<open>s < v\<close> by force
      qed
      ultimately show ?thesis using d p sub len5 card by (auto simp: top5_def)
    next
      case False2: False
      have "updateTop5Pods m v p = m" using False False2 p ks by (auto simp: updateTop5Pods_def map_of_eq_None_iff)
      moreover have "\<forall>y \<in> set m. v \<le> snd y" using least False2 by force
      ultimately show ?thesis using wf sub big len5 card by (auto simp: top5_def)
    qed
  qed
qed

lemma top5_fold:
  assumes "top5 S m" "finite S" "wf_map xs" "fst ` set xs \<inter> fst ` S = {}"
  shows "top5 (S \<union> set xs) (foldl (\<lambda>ps (pod, v). updateTop5Pods ps v pod) m xs)"
  using assms
proof (induction xs arbitrary: S m)
  case (Cons x xs)
  obtain p v where x: "x = (p, v)" by force
  have "top5 (insert (p, v) S) (updateTop5Pods m v p)" using Cons.prems x by (intro top5_update) auto
  from Cons.IH [OF this] Cons.prems x show ?case by auto
qed simp

text \<open>The five largest of two parts are the five largest of what was kept of them.\<close>

lemma top5_merge:
  assumes T: "top5 (S1 \<union> set m2) m" and m2: "top5 S2 m2" and fin: "finite S1" "finite S2"
  shows "top5 (S1 \<union> S2) m"
proof (cases "set m2 = S2")
  case False
  have wf2: "wf_map m2" and sub2: "set m2 \<subseteq> S2" using m2 by (auto simp: top5_def)
  have len2: "length m2 = 5" using top5_all [OF m2 fin(2)] False m2 by (force simp: top5_def)
  have "card (set m2) \<le> card (S1 \<union> set m2)" "card (S1 \<union> set m2) \<le> card (S1 \<union> S2)"
    using fin sub2 by (auto intro!: card_mono)
  then have len: "length m = 5" "5 \<le> card (S1 \<union> S2)" using T card_wf_map [OF wf2] len2 by (auto simp: top5_def)
  have "snd x \<le> snd y" if x: "x \<in> S2 - set m2" and y: "y \<in> set m" for x y
  proof (rule ccontr)
    assume less: "\<not> snd x \<le> snd y"
    have ge: "\<forall>z \<in> set m2. snd x \<le> snd z" using m2 x by (auto simp: top5_def)
    have "set m2 \<subseteq> set m"
    proof
      fix z assume z: "z \<in> set m2"
      show "z \<in> set m"
      proof (rule ccontr)
        assume "z \<notin> set m"
        with T z y have "snd z \<le> snd y" by (auto simp: top5_def)
        with ge z less show False by force
      qed
    qed
    moreover have "y \<notin> set m2" using ge less by auto
    ultimately have "card (set m2) < card (set m)" using y by (intro psubset_card_mono) auto
    then show False using card_wf_map [OF wf2] card_wf_map [of m] T len len2 by (simp add: top5_def)
  qed
  with T sub2 len show ?thesis by (auto simp: top5_def)
qed (use T in simp)

lemma top5_empty: "top5 {} []"
  by (simp add: top5_def)

section \<open>Charts are complete\<close>

definition at_time :: "int \<Rightarrow> (int \<times> string \<times> int) list \<Rightarrow> (string \<times> int) list" where
  "at_time t X = map snd (filter (\<lambda>s. fst s = t) X)"

text \<open>An entry of a chart stands for the samples of its minute.\<close>

definition entry_rep :: "int \<Rightarrow> (string \<times> int) list \<Rightarrow> GenericChartEntry \<Rightarrow> bool" where
  "entry_rep t xs e \<longleftrightarrow> ge_Time e = t \<and> ge_Value e = sum_list (map snd xs) \<and> (distinct (map fst xs) \<longrightarrow> top5 (set xs) (ge_Pods e))"

definition chart_rep :: "chart \<Rightarrow> (int \<times> string \<times> int) list \<Rightarrow> bool" where
  "chart_rep c X \<longleftrightarrow> wf_map c \<and> fst ` set c = fst ` set X \<and> (\<forall>t. entry_rep t (at_time t X) (chart_at c t))"

lemma at_time_append [simp]: "at_time t (X @ Y) = at_time t X @ at_time t Y"
  by (simp add: at_time_def)

lemma fst_set_update: "fst ` set (AList.update k v m) = insert k (fst ` set m)"
  using dom_update [of k v m] by simp

lemma chart_at_update: "chart_at (AList.update t e c) t' = (if t' = t then e else chart_at c t')"
  by (simp add: chart_at_def)

lemma chart_rep_Nil: "chart_rep [] []"
  by (simp add: chart_rep_def chart_at_def entry_rep_def at_time_def top5_empty)

lemma chart_add_rep:
  assumes "chart_rep c X"
  shows "chart_rep (chart_add c s) (X @ [s])"
proof -
  obtain t p v where s: "s = (t, p, v)" by (cases s)
  have rep: "entry_rep u (at_time u X) (chart_at c u)" for u using assms by (simp add: chart_rep_def)
  have "top5 (insert (p, v) (set (at_time t X))) (updateTop5Pods (ge_Pods (chart_at c t)) v p)"
    if "distinct (map fst (at_time t X))" "p \<notin> fst ` set (at_time t X)"
    using rep [of t] that by (intro top5_update) (auto simp: entry_rep_def)
  with rep have "entry_rep u (at_time u (X @ [s])) (chart_at (chart_add c s) u)" for u
    by (auto simp: s chart_add_def Let_def chart_at_update entry_rep_def at_time_def)
  then show ?thesis using assms by (simp add: chart_rep_def s chart_add_def Let_def fst_set_update)
qed

lemma chart_add_fold: "chart_rep c X \<Longrightarrow> chart_rep (foldl chart_add c vs) (X @ vs)"
proof (induction vs arbitrary: c X)
  case (Cons s vs)
  from Cons.IH [OF chart_add_rep [OF Cons.prems, of s]] show ?case by simp
qed simp

definition merge_entry :: "GenericChartEntry \<Rightarrow> GenericChartEntry \<Rightarrow> GenericChartEntry" where
  "merge_entry g e = g\<lparr>ge_Value := ge_Value g + ge_Value e,
     ge_Pods := foldl (\<lambda>ps (pod, v). updateTop5Pods ps v pod) (ge_Pods g) (ge_Pods e)\<rparr>"

lemma chart_merge_simps:
  "chart_merge c [] = c"
  "chart_merge c ((t, e) # l) = chart_merge (AList.update t (merge_entry (chart_at c t) e) c) l"
  by (simp_all add: chart_merge_def merge_entry_def Let_def)

lemma chart_merge_at:
  "wf_map l \<Longrightarrow> chart_at (chart_merge c l) t = (case map_of l t of None \<Rightarrow> chart_at c t | Some e \<Rightarrow> merge_entry (chart_at c t) e)"
proof (induction l arbitrary: c)
  case (Cons x l)
  obtain u e where x: "x = (u, e)" by force
  have "map_of l u = None" using Cons.prems x by (simp add: map_of_eq_None_iff)
  with Cons x show ?case by (auto simp: chart_merge_simps chart_at_update split: option.split)
qed (simp add: chart_merge_simps)

lemma chart_merge_keys: "wf_map c \<Longrightarrow> wf_map (chart_merge c l) \<and> fst ` set (chart_merge c l) = fst ` set c \<union> fst ` set l"
proof (induction l arbitrary: c)
  case (Cons x l)
  from Cons.IH [of "AList.update (fst x) (merge_entry (chart_at c (fst x)) (snd x)) c"] Cons.prems show ?case
    by (cases x) (simp add: chart_merge_simps fst_set_update)
qed (simp add: chart_merge_simps)

lemma merge_entry_rep:
  assumes g: "entry_rep t xs g" and e: "entry_rep t ys e"
  shows "entry_rep t (xs @ ys) (merge_entry g e)"
proof -
  have "top5 (set xs \<union> set ys) (ge_Pods (merge_entry g e))" if d: "distinct (map fst (xs @ ys))"
  proof -
    have x: "top5 (set xs) (ge_Pods g)" and y: "top5 (set ys) (ge_Pods e)" using g e d by (auto simp: entry_rep_def)
    have "fst ` set (ge_Pods e) \<subseteq> fst ` set ys" using y by (intro image_mono) (simp add: top5_def)
    then have "fst ` set (ge_Pods e) \<inter> fst ` set xs = {}" using d by auto
    moreover have "wf_map (ge_Pods e)" using y by (simp add: top5_def)
    ultimately have "top5 (set xs \<union> set (ge_Pods e)) (ge_Pods (merge_entry g e))"
      using top5_fold [OF x, of "ge_Pods e"] by (simp add: merge_entry_def)
    then show ?thesis by (rule top5_merge [OF _ y]) simp_all
  qed
  then show ?thesis using g e by (auto simp: entry_rep_def merge_entry_def)
qed

lemma chart_rep_entry:
  assumes "chart_rep c X" "map_of c t = Some e"
  shows "entry_rep t (at_time t X) e"
proof -
  have "entry_rep t (at_time t X) (chart_at c t)" using assms(1) by (simp add: chart_rep_def)
  with assms(2) show ?thesis by (simp add: chart_at_def)
qed

lemma chart_merge_rep:
  assumes c: "chart_rep c X" and l: "chart_rep l Y"
  shows "chart_rep (chart_merge c l) (X @ Y)"
proof -
  have wf: "wf_map c" "wf_map l" using c l by (simp_all add: chart_rep_def)
  have "entry_rep t (at_time t (X @ Y)) (chart_at (chart_merge c l) t)" for t
  proof (cases "map_of l t")
    case None
    then have "t \<notin> fst ` set Y" using l by (simp add: chart_rep_def map_of_eq_None_iff)
    then have "at_time t Y = []" by (force simp: at_time_def filter_empty_conv)
    with None c show ?thesis by (simp add: chart_merge_at [OF wf(2)] chart_rep_def)
  next
    case (Some e)
    then have "entry_rep t (at_time t Y) e" by (rule chart_rep_entry [OF l])
    with Some c show ?thesis by (simp add: chart_merge_at [OF wf(2)] chart_rep_def merge_entry_rep)
  qed
  then show ?thesis using chart_merge_keys [OF wf(1)] c l by (auto simp: chart_rep_def)
qed

lemma chart_fold_rep:
  "chart_rep c X \<Longrightarrow> chart_rep (foldl (\<lambda>result values. chart_merge result (foldl chart_add [] values)) c samples) (X @ concat samples)"
proof (induction samples arbitrary: c X)
  case (Cons vs samples)
  have "chart_rep (foldl chart_add [] vs) vs" using chart_add_fold [OF chart_rep_Nil, of vs] by simp
  from chart_merge_rep [OF Cons.prems this] Cons.IH show ?case by fastforce
qed simp

interpretation chart_time: go_less time_less
  by unfold_locales (auto simp: time_less_def)

lemma ordered_times:
  assumes "wf_map c"
  shows "sorted_wrt (<) (map fst (stable_sort time_less c))"
proof -
  have "sorted (map fst (stable_sort time_less c))"
    using chart_time.stable_sort_ordered [of c] by (simp add: time_less_def sorted_map not_less)
  moreover have "distinct (map fst (stable_sort time_less c))"
    using assms by (simp add: distinct_map)
  ultimately show ?thesis by (simp add: strict_sorted_iff)
qed

text \<open>A chart is complete and in order, whatever the order in which the controllers were merged: its
  times are strictly increasing and are the minutes of the samples, the value at a minute is the
  sum of all samples of that minute over all controllers, and where no pod has two samples in a
  minute the pods listed are the five largest of the whole minute, although each controller only
  kept its own five largest.\<close>
lemma chart_complete:
  "sorted_wrt (<) (map ge_Time (chart_of samples)) \<and> ge_Time ` set (chart_of samples) = fst ` set (concat samples)
   \<and> (\<forall>e \<in> set (chart_of samples). ge_Value e = sum_list (map snd (at_time (ge_Time e) (concat samples)))
        \<and> (distinct (map fst (at_time (ge_Time e) (concat samples))) \<longrightarrow> top5 (set (at_time (ge_Time e) (concat samples))) (ge_Pods e)))"
proof -
  define c where "c = foldl (\<lambda>result values. chart_merge result (foldl chart_add [] values)) [] samples"
  have rep: "chart_rep c (concat samples)" using chart_fold_rep [OF chart_rep_Nil, of samples] by (simp add: c_def)
  then have wf: "wf_map c" by (simp add: chart_rep_def)
  have entry: "entry_rep t (at_time t (concat samples)) e" if "(t, e) \<in> set c" for t e
    by (rule chart_rep_entry [OF rep map_of_is_SomeI [OF wf that]])
  have chart: "chart_of samples = map snd (stable_sort time_less c)" by (simp add: chart_of_def c_def)
  have time: "ge_Time e = t" if "(t, e) \<in> set c" for t e using entry [OF that] by (simp add: entry_rep_def)
  have times: "map ge_Time (chart_of samples) = map fst (stable_sort time_less c)"
    unfolding chart map_map by (rule map_cong [OF refl]) (use time in force)
  have "sorted_wrt (<) (map ge_Time (chart_of samples))" unfolding times by (rule ordered_times [OF wf])
  moreover have "ge_Time ` set (chart_of samples) = fst ` set (concat samples)"
    using arg_cong [OF times, of set] rep by (simp add: chart_rep_def)
  moreover have "ge_Value e = sum_list (map snd (at_time (ge_Time e) (concat samples)))
        \<and> (distinct (map fst (at_time (ge_Time e) (concat samples))) \<longrightarrow> top5 (set (at_time (ge_Time e) (concat samples))) (ge_Pods e))"
    if e: "e \<in> set (chart_of samples)" for e
  proof -
    obtain t where te: "(t, e) \<in> set c" using e by (auto simp: chart)
    show ?thesis using entry [OF te] time [OF te] by (simp add: entry_rep_def)
  qed
  ultimately show ?thesis by blast
qed

text \<open>A pod with several samples in one minute, such as one per container, counts with each of them in
  the total and with the last one in the list of pods.\<close>

lemma repeated_pod_shows_last:
  "chart_of [[(60000, ''a'', 3), (60000, ''a'', 1)]] = [\<lparr>ge_Time = 60000, ge_Value = 4, ge_Pods = [(''a'', 1)]\<rparr>]"
  by code_simp

text \<open>The sum of two clamped counters does not wrap.\<close>

lemma traffic_value: "uint (clamp_counter a + clamp_counter b) = uint (clamp_counter a) + uint (clamp_counter b)"
proof -
  have "uint (clamp_counter w) \<le> 184467440736991000" for w
    by (auto simp: clamp_counter_def word_less_def not_less)
  from this [of a] this [of b] show ?thesis by (subst uint_add_lem [symmetric]) simp
qed

end
