(* ===== verification/WorkloadStatus.thy ===== *)
theory WorkloadStatus
  imports WorkspaceApi OwnerCache
begin

text \<open>
  The status of workloads with what they own: \<open>kubernetes/workloadstatus.go\<close>.

  A request is turned into queries, each run by a goroutine; what a query reads from the store is a
  parameter, and results arrive in any order. The objects of a kind in a namespace, which the
  source reads from the store, are a parameter too; the caches in front of them are modelled. The
  recursion into owned objects follows data that nothing bounds, so it is a partial function.
\<close>

section \<open>Items\<close>

record WorkloadStatusItemDto =
  wi_UID :: string
  wi_Kind :: string
  wi_ApiVersion :: string
  wi_Name :: string
  wi_Namespace :: string
  wi_CreationTimestamp :: string
  wi_OwnerReferences :: "json option"
  wi_Status :: "json option"
  wi_Events :: "json list"
  wi_Replicas :: "int option"
  wi_SpecClusterIP :: string
  wi_SpecType :: string
  wi_Endpoints :: "json option"

definition spec_replicas :: "json \<Rightarrow> int option" where
  "spec_replicas workload = (case nested workload [''spec'', ''replicas''] of Some (JNum n) \<Rightarrow> Some n | _ \<Rightarrow> None)"

definition status_item :: "(string, json list) gomap \<Rightarrow> json \<Rightarrow> WorkloadStatusItemDto" where
  "status_item eventsByUID workload =
     \<lparr>wi_UID = GetUID workload, wi_Kind = GetKind workload, wi_ApiVersion = GetAPIVersion workload, wi_Name = GetName workload,
      wi_Namespace = GetNamespace workload, wi_CreationTimestamp = nested_string workload [''metadata'', ''creationTimestamp''],
      wi_OwnerReferences = nested workload [''metadata'', ''ownerReferences''], wi_Status = nested workload [''status''],
      wi_Events = (case map_of eventsByUID (GetUID workload) of None \<Rightarrow> [] | Some es \<Rightarrow> es), wi_Replicas = spec_replicas workload,
      wi_SpecClusterIP = nested_string workload [''spec'', ''clusterIP''], wi_SpecType = nested_string workload [''spec'', ''type''],
      wi_Endpoints = nested workload [''endpoints'']\<rparr>"

definition owner_uids :: "json \<Rightarrow> string list" where
  "owner_uids obj = (case nested obj [''metadata'', ''ownerReferences''] of Some (JArr refs) \<Rightarrow> map (\<lambda>r. nested_string r [''uid'']) refs | _ \<Rightarrow> [])"

definition hasOwnerReference :: "json \<Rightarrow> string \<Rightarrow> bool" where
  "hasOwnerReference obj workloadUID \<longleftrightarrow> workloadUID \<in> set (owner_uids obj)"

section \<open>What a workload owns\<close>

text \<open>The caches of replica sets, jobs and pods by namespace.\<close>

type_synonym ns_cache = "(string, json list) gomap"

record caches =
  ca_replicaSets :: ns_cache
  ca_jobs :: ns_cache
  ca_pods :: ns_cache

type_synonym kind_lister = "ResourceDescriptor \<Rightarrow> string \<Rightarrow> json list"

text \<open>\<open>getOrFetchReplicaSets\<close>, \<open>getOrFetchJobs\<close> and \<open>getOrFetchPods\<close>.\<close>

definition getOrFetch :: "json list \<Rightarrow> ns_cache \<Rightarrow> string \<Rightarrow> json list \<times> ns_cache" where
  "getOrFetch fetched cache namespace =
     (case map_of cache namespace of Some cached \<Rightarrow> (cached, cache) | None \<Rightarrow> (fetched, AList.update namespace fetched cache))"

definition pod_owner_kinds :: "string list" where
  "pod_owner_kinds = [''ReplicaSet'', ''StatefulSet'', ''DaemonSet'', ''Job'', ''ReplicationController'']"

definition dependents :: "kind_lister \<Rightarrow> json \<Rightarrow> caches \<Rightarrow> json list \<times> caches" where
  "dependents fetch workload c =
     (let ns = GetNamespace workload; owned = filter (\<lambda>obj. hasOwnerReference obj (GetUID workload))
      in if GetKind workload = ''Deployment''
         then (case getOrFetch (fetch ReplicaSetResource ns) (ca_replicaSets c) ns of
                 (replicaSets, cache) \<Rightarrow>
                   ((case spec_replicas workload of Some n \<Rightarrow> if n > 0 then owned replicaSets else [] | None \<Rightarrow> []),
                    c\<lparr>ca_replicaSets := cache\<rparr>))
         else if GetKind workload = ''CronJob''
         then (case getOrFetch (fetch JobResource ns) (ca_jobs c) ns of (jobs, cache) \<Rightarrow> (owned jobs, c\<lparr>ca_jobs := cache\<rparr>))
         else if GetKind workload \<in> set pod_owner_kinds
         then (case getOrFetch (fetch PodResource ns) (ca_pods c) ns of (pods, cache) \<Rightarrow> (owned pods, c\<lparr>ca_pods := cache\<rparr>))
         else ([], c))"

text \<open>The items of several workloads, each followed by those of what it owns.\<close>

partial_function (option) status_items ::
  "kind_lister \<Rightarrow> (string, json list) gomap \<Rightarrow> bool \<Rightarrow> json list \<Rightarrow> caches \<Rightarrow> (WorkloadStatusItemDto list \<times> caches) option" where
  "status_items fetch eventsByUID ignoreDependents workloads c =
     (case workloads of
        [] \<Rightarrow> Some ([], c)
      | w # ws \<Rightarrow>
          (case (if ignoreDependents then ([], c) else dependents fetch w c) of
             (children, c1) \<Rightarrow>
               Option.bind (status_items fetch eventsByUID ignoreDependents children c1) (\<lambda>(xs, c2).
               Option.bind (status_items fetch eventsByUID ignoreDependents ws c2) (\<lambda>(ys, c3).
                 Some (status_item eventsByUID w # xs @ ys, c3)))))"

definition GetWorkloadStatusItems ::
  "kind_lister \<Rightarrow> json \<Rightarrow> (string, json list) gomap \<Rightarrow> bool \<Rightarrow> caches \<Rightarrow> (WorkloadStatusItemDto list \<times> caches) option" where
  "GetWorkloadStatusItems fetch workload eventsByUID ignoreDependents c = status_items fetch eventsByUID ignoreDependents [workload] c"

section \<open>Requests\<close>

record GetWorkloadStatusRequest =
  wr_ResourceDescriptor :: "ResourceDescriptor option"
  wr_Namespaces :: "string list option"
  wr_HelmReleases :: "(string \<times> string) list option"
  wr_ResourceNames :: "string list option"
  wr_IgnoreDependentResources :: "bool option"

datatype status_query =
    HelmQuery string string "ResourceDescriptor option"
  | KindQuery ResourceDescriptor "string option"
  | NamespaceQuery string
  | NamespaceObjectsQuery ResourceDescriptor "string list"
  | NamedQuery ResourceDescriptor string "string option"
  | AnyKindQuery string string

definition non_empty :: "'a list option \<Rightarrow> 'a list option" where
  "non_empty l = (if l = Some [] then None else l)"

definition descriptor_empty :: "ResourceDescriptor option \<Rightarrow> bool" where
  "descriptor_empty rd \<longleftrightarrow> (case rd of None \<Rightarrow> True | Some r \<Rightarrow> rd_Kind r = [] \<and> rd_ApiVersion r = [])"

text \<open>The queries of a request beside those for Helm releases; \<open>None\<close> is the branch without a filter.\<close>

definition filter_queries :: "GetWorkloadStatusRequest \<Rightarrow> status_query list option" where
  "filter_queries q =
     (case (if descriptor_empty (wr_ResourceDescriptor q) then None else wr_ResourceDescriptor q,
            non_empty (wr_Namespaces q), non_empty (wr_ResourceNames q)) of
        (Some rd, None, None) \<Rightarrow> Some [KindQuery rd None]
      | (None, Some nss, None) \<Rightarrow> Some (map NamespaceQuery nss)
      | (Some rd, Some nss, None) \<Rightarrow>
          if rd_Kind rd = ''Namespace'' \<and> rd_ApiVersion rd = ''v1'' then Some [NamespaceObjectsQuery rd nss]
          else Some (map (\<lambda>ns. KindQuery rd (Some ns)) nss)
      | (Some rd, Some nss, Some names) \<Rightarrow> Some (concat (map (\<lambda>n. map (\<lambda>ns. NamedQuery rd n (Some ns)) nss) names))
      | (Some rd, None, Some names) \<Rightarrow> Some (map (\<lambda>n. NamedQuery rd n None) names)
      | (None, Some nss, Some names) \<Rightarrow> Some (concat (map (\<lambda>n. map (\<lambda>ns. AnyKindQuery ns n) nss) names))
      | _ \<Rightarrow> None)"

definition status_queries :: "GetWorkloadStatusRequest \<Rightarrow> status_query list option" where
  "status_queries q =
     map_option (\<lambda>qs. (case non_empty (wr_HelmReleases q) of None \<Rightarrow> []
                        | Some rs \<Rightarrow> map (\<lambda>(ns, r). HelmQuery ns r (wr_ResourceDescriptor q)) rs) @ qs)
       (filter_queries q)"

text \<open>The caches after the prefetch, for every namespace among the workloads.\<close>

definition prefetch :: "kind_lister \<Rightarrow> json list \<Rightarrow> caches" where
  "prefetch fetch workloads =
     (let nss = remdups (filter (\<lambda>ns. ns \<noteq> []) (map GetNamespace workloads)); table = (\<lambda>rd. map (\<lambda>ns. (ns, fetch rd ns)) nss)
      in \<lparr>ca_replicaSets = table ReplicaSetResource, ca_jobs = table JobResource, ca_pods = table PodResource\<rparr>)"

text \<open>The loop over the workloads: one whose UID was completed is skipped.\<close>

fun status_loop ::
  "kind_lister \<Rightarrow> (string, json list) gomap \<Rightarrow> bool \<Rightarrow> string list \<Rightarrow> json list \<Rightarrow> caches \<Rightarrow> WorkloadStatusItemDto list list option" where
  "status_loop fetch eventsByUID ignoreDependents completed [] c = Some []"
| "status_loop fetch eventsByUID ignoreDependents completed (w # ws) c =
     (if GetUID w \<in> set completed then status_loop fetch eventsByUID ignoreDependents completed ws c
      else Option.bind (GetWorkloadStatusItems fetch w eventsByUID ignoreDependents c) (\<lambda>(items, c1).
             map_option ((#) items) (status_loop fetch eventsByUID ignoreDependents (GetUID w # completed) ws c1)))"

text \<open>\<open>run\<close> is what a query reads, none when it fails; \<open>order\<close> the order in which the results arrive.\<close>

definition GetWorkloadStatus ::
  "kind_lister \<Rightarrow> (status_query \<Rightarrow> json list option) \<Rightarrow> (status_query list \<Rightarrow> status_query list) \<Rightarrow> GetWorkloadStatusRequest
     \<Rightarrow> WorkloadStatusItemDto list list option" where
  "GetWorkloadStatus fetch run order requestData =
     (case status_queries requestData of
        None \<Rightarrow> Some []
      | Some qs \<Rightarrow>
          (let workloads = concat (List.map_filter run (order qs));
               ignoreDependents = (wr_IgnoreDependentResources requestData = Some True)
           in status_loop fetch [] ignoreDependents [] workloads
                (if ignoreDependents then \<lparr>ca_replicaSets = [], ca_jobs = [], ca_pods = []\<rparr> else prefetch fetch workloads)))"

section \<open>The status without caches\<close>

definition owned_by :: "kind_lister \<Rightarrow> json \<Rightarrow> json list" where
  "owned_by fetch w =
     (let owned = (\<lambda>rd. filter (\<lambda>obj. hasOwnerReference obj (GetUID w)) (fetch rd (GetNamespace w)))
      in if GetKind w = ''Deployment'' then (case spec_replicas w of Some n \<Rightarrow> if n > 0 then owned ReplicaSetResource else [] | None \<Rightarrow> [])
         else if GetKind w = ''CronJob'' then owned JobResource
         else if GetKind w \<in> set pod_owner_kinds then owned PodResource
         else [])"

text \<open>A workload and, down to the given depth, everything it owns.\<close>

fun tree_items :: "kind_lister \<Rightarrow> (string, json list) gomap \<Rightarrow> nat \<Rightarrow> json \<Rightarrow> WorkloadStatusItemDto list" where
  "tree_items fetch ev 0 w = [status_item ev w]"
| "tree_items fetch ev (Suc n) w = status_item ev w # concat (map (tree_items fetch ev n) (owned_by fetch w))"

definition cached :: "kind_lister \<Rightarrow> ResourceDescriptor \<Rightarrow> ns_cache \<Rightarrow> bool" where
  "cached fetch rd m \<longleftrightarrow> (\<forall>ns l. map_of m ns = Some l \<longrightarrow> l = fetch rd ns)"

definition coherent :: "kind_lister \<Rightarrow> caches \<Rightarrow> bool" where
  "coherent fetch c \<longleftrightarrow> cached fetch ReplicaSetResource (ca_replicaSets c) \<and> cached fetch JobResource (ca_jobs c) \<and> cached fetch PodResource (ca_pods c)"

text \<open>The store answers a query for a kind with objects of that kind.\<close>

definition typed_store :: "kind_lister \<Rightarrow> bool" where
  "typed_store fetch \<longleftrightarrow> (\<forall>rd ns. \<forall>obj \<in> set (fetch rd ns). GetKind obj = rd_Kind rd)"

definition kind_rank :: "string \<Rightarrow> nat" where
  "kind_rank k = (if k = ''Deployment'' \<or> k = ''CronJob'' then 2 else if k \<in> set pod_owner_kinds then 1 else 0)"

lemma getOrFetch_coherent:
  assumes "cached fetch rd m"
  shows "\<exists>m'. getOrFetch (fetch rd ns) m ns = (fetch rd ns, m') \<and> cached fetch rd m'"
  using assms by (auto simp: getOrFetch_def cached_def split: option.splits)

lemma dependents_coherent:
  assumes "coherent fetch c"
  shows "\<exists>c'. dependents fetch w c = (owned_by fetch w, c') \<and> coherent fetch c'"
proof -
  have m: "cached fetch ReplicaSetResource (ca_replicaSets c)" "cached fetch JobResource (ca_jobs c)" "cached fetch PodResource (ca_pods c)"
    using assms by (simp_all add: coherent_def)
  from getOrFetch_coherent [OF m(1), of "GetNamespace w"] getOrFetch_coherent [OF m(2), of "GetNamespace w"]
    getOrFetch_coherent [OF m(3), of "GetNamespace w"]
  show ?thesis using m by (auto simp: dependents_def owned_by_def coherent_def Let_def)
qed

lemma owned_cases:
  assumes "x \<in> set (owned_by fetch w)"
  shows "GetKind w = ''Deployment'' \<and> x \<in> set (fetch ReplicaSetResource (GetNamespace w))
    \<or> GetKind w = ''CronJob'' \<and> x \<in> set (fetch JobResource (GetNamespace w))
    \<or> GetKind w \<in> set pod_owner_kinds \<and> x \<in> set (fetch PodResource (GetNamespace w))"
  using assms unfolding owned_by_def Let_def by (simp split: option.splits if_splits)

lemma kind_rank_simps:
  "kind_rank ''Deployment'' = 2" "kind_rank ''CronJob'' = 2" "kind_rank (rd_Kind ReplicaSetResource) = 1"
  "kind_rank (rd_Kind JobResource) = 1" "kind_rank (rd_Kind PodResource) = 0" "k \<in> set pod_owner_kinds \<Longrightarrow> 0 < kind_rank k"
  by (simp_all add: kind_rank_def pod_owner_kinds_def ReplicaSetResource_def JobResource_def PodResource_def)

lemma owned_rank:
  assumes "typed_store fetch" "x \<in> set (owned_by fetch w)"
  shows "kind_rank (GetKind x) < kind_rank (GetKind w)"
proof -
  have k: "GetKind obj = rd_Kind rd" if "obj \<in> set (fetch rd ns)" for obj rd ns
    using assms(1) that by (simp add: typed_store_def)
  from owned_cases [OF assms(2)] show ?thesis
    by (elim disjE conjE) (simp_all add: k kind_rank_simps)
qed

lemma status_items_ignore: "status_items fetch ev True ws c = Some (map (status_item ev) ws, c)"
proof (induction ws arbitrary: c)
  case Nil
  then show ?case by (subst status_items.simps) simp
next
  case (Cons w ws)
  have "status_items fetch ev True [] c = Some ([], c)" by (subst status_items.simps) simp
  with Cons show ?case by (subst status_items.simps) simp
qed

text \<open>The items of a list of workloads, given those of what each of them owns.\<close>

lemma status_items_list:
  assumes "\<And>w c. w \<in> set ws \<Longrightarrow> coherent fetch c \<Longrightarrow>
      \<exists>c'. coherent fetch c' \<and> status_items fetch ev False (owned_by fetch w) c = Some (sub w, c')"
    and "coherent fetch c"
  shows "\<exists>c'. coherent fetch c' \<and> status_items fetch ev False ws c = Some (concat (map (\<lambda>w. status_item ev w # sub w) ws), c')"
  using assms
proof (induction ws arbitrary: c)
  case Nil
  then show ?case by (subst status_items.simps) simp
next
  case (Cons w ws)
  obtain c1 where c1: "dependents fetch w c = (owned_by fetch w, c1)" "coherent fetch c1"
    using dependents_coherent [OF Cons.prems(2), of w] by auto
  obtain c2 where c2: "coherent fetch c2" "status_items fetch ev False (owned_by fetch w) c1 = Some (sub w, c2)"
    using Cons.prems(1) [of w c1] c1(2) by auto
  obtain c3 where c3: "coherent fetch c3"
    "status_items fetch ev False ws c2 = Some (concat (map (\<lambda>w. status_item ev w # sub w) ws), c3)"
    using Cons.IH [OF Cons.prems(1) c2(1)] by auto
  show ?case by (subst status_items.simps) (simp add: c1 c2 c3)
qed

lemma status_items_Nil: "status_items fetch ev False [] c = Some ([], c)"
  by (subst status_items.simps) simp

lemma status_items_tree:
  assumes "typed_store fetch" "coherent fetch c" "\<forall>w \<in> set ws. kind_rank (GetKind w) \<le> n"
  shows "\<exists>c'. coherent fetch c' \<and> status_items fetch ev False ws c = Some (concat (map (tree_items fetch ev n) ws), c')"
  using assms(2,3)
proof (induction n arbitrary: ws c)
  case 0
  have "owned_by fetch w = []" if "w \<in> set ws" for w
    using owned_rank [OF assms(1), of _ w] 0(2) that by (cases "owned_by fetch w") auto
  then have "\<exists>c'. coherent fetch c' \<and> status_items fetch ev False ws c = Some (concat (map (\<lambda>w. status_item ev w # []) ws), c')"
    by (intro status_items_list 0(1)) (simp add: status_items_Nil)
  moreover have "tree_items fetch ev 0 = (\<lambda>w. status_item ev w # [])" by (simp add: fun_eq_iff)
  ultimately show ?case by metis
next
  case (Suc n)
  have "\<forall>x \<in> set (owned_by fetch w). kind_rank (GetKind x) \<le> n" if "w \<in> set ws" for w
    using owned_rank [OF assms(1), of _ w] Suc.prems(2) that by fastforce
  with Suc.IH have "\<exists>c'. coherent fetch c' \<and> status_items fetch ev False ws c
      = Some (concat (map (\<lambda>w. status_item ev w # concat (map (tree_items fetch ev n) (owned_by fetch w))) ws), c')"
    by (intro status_items_list Suc.prems(1)) blast
  moreover have "tree_items fetch ev (Suc n) = (\<lambda>w. status_item ev w # concat (map (tree_items fetch ev n) (owned_by fetch w)))"
    by (simp add: fun_eq_iff)
  ultimately show ?case by metis
qed

lemma prefetch_coherent: "coherent fetch (prefetch fetch workloads)"
  by (auto simp: coherent_def cached_def prefetch_def Let_def map_of_map_restrict restrict_map_def split: if_splits)

definition item_list :: "kind_lister \<Rightarrow> bool \<Rightarrow> json \<Rightarrow> WorkloadStatusItemDto list" where
  "item_list fetch ignoreDependents w = (if ignoreDependents then [status_item [] w] else tree_items fetch [] 2 w)"

lemma GetWorkloadStatusItems_tree:
  assumes "typed_store fetch" "coherent fetch c"
  shows "\<exists>c'. coherent fetch c' \<and> GetWorkloadStatusItems fetch w [] ignoreDependents c = Some (item_list fetch ignoreDependents w, c')"
proof (cases ignoreDependents)
  case True
  then show ?thesis using assms(2) by (simp add: GetWorkloadStatusItems_def item_list_def status_items_ignore)
next
  case False
  then show ?thesis
    using status_items_tree [OF assms, of "[w]" 2 "[]"] by (simp add: GetWorkloadStatusItems_def item_list_def kind_rank_def)
qed

lemma status_loop_tree:
  assumes "typed_store fetch" "coherent fetch c"
  shows "\<exists>kept. status_loop fetch [] ig completed ws c = Some (map (item_list fetch ig) kept) \<and> distinct (map GetUID kept)
    \<and> set kept \<subseteq> set ws \<and> GetUID ` set kept = GetUID ` set ws - set completed"
  using assms(2)
proof (induction ws arbitrary: c completed)
  case (Cons w ws)
  show ?case
  proof (cases "GetUID w \<in> set completed")
    case True
    with Cons.IH [OF Cons.prems, of completed] show ?thesis by auto
  next
    case False
    obtain c1 where c1: "coherent fetch c1" "GetWorkloadStatusItems fetch w [] ig c = Some (item_list fetch ig w, c1)"
      using GetWorkloadStatusItems_tree [OF assms(1) Cons.prems] by blast
    obtain kept where "status_loop fetch [] ig (GetUID w # completed) ws c1 = Some (map (item_list fetch ig) kept)" "distinct (map GetUID kept)"
      "set kept \<subseteq> set ws" "GetUID ` set kept = GetUID ` set ws - set (GetUID w # completed)"
      using Cons.IH [OF c1(1), of "GetUID w # completed"] by blast
    with False c1 show ?thesis by (intro exI [of _ "w # kept"]) auto
  qed
qed simp


text \<open>A cron job and its job, read twice in one request.\<close>

definition demo_object :: "string \<Rightarrow> string \<Rightarrow> string \<Rightarrow> json" where
  "demo_object kind uid owner =
     JObj [(''kind'', JStr kind),
           (''metadata'', JObj [(''uid'', JStr uid), (''namespace'', JStr ''shop''),
                                (''ownerReferences'', JArr [JObj [(''uid'', JStr owner)]])])]"

definition demo_lister :: kind_lister where
  "demo_lister rd ns = (if rd = JobResource \<and> ns = ''shop'' then [demo_object ''Job'' ''j'' ''c''] else [])"

definition demo_status_request :: GetWorkloadStatusRequest where
  "demo_status_request =
     \<lparr>wr_ResourceDescriptor = None, wr_Namespaces = Some [''shop'', ''shop''], wr_HelmReleases = None, wr_ResourceNames = None,
      wr_IgnoreDependentResources = None\<rparr>"

lemma demo_lister_typed: "typed_store demo_lister"
  by (simp add: typed_store_def demo_lister_def demo_object_def GetKind_def nested_string_def JobResource_def)

lemma demo_status_queries: "status_queries demo_status_request = Some [NamespaceQuery ''shop'', NamespaceQuery ''shop'']"
  by (simp add: status_queries_def filter_queries_def non_empty_def descriptor_empty_def demo_status_request_def)


text \<open>A request for the workloads of Helm releases alone returns nothing, whatever their queries read.\<close>

lemma helm_only_request_empty:
  assumes "descriptor_empty (wr_ResourceDescriptor q)" "non_empty (wr_Namespaces q) = None"
  shows "GetWorkloadStatus fetch run order q = Some []"
  using assms by (simp add: GetWorkloadStatus_def status_queries_def filter_queries_def split: option.splits)

text \<open>No item of a result has events.\<close>

lemma tree_items_no_events: "i \<in> set (tree_items fetch [] n w) \<Longrightarrow> wi_Events i = []"
  by (induction n arbitrary: w) (auto simp: status_item_def)

lemma item_list_no_events: "i \<in> set (item_list fetch ig w) \<Longrightarrow> wi_Events i = []"
  using tree_items_no_events [of i fetch 2 w] by (cases ig) (auto simp: item_list_def status_item_def)

end
