(* ===== verification/HelmReleases.thy ===== *)
theory HelmReleases
  imports WorkloadStatus "HOL-Library.Multiset"
begin

text \<open>
  Lists of Helm releases: the listing part of \<open>helm/helm.go\<close> and the scope of a workspace from
  \<open>core/socketapi.go\<close>.

  Helm keeps every revision of a release in a secret; its driver, the metadata client and the cache of
  stubs are parameters, and so is the order in which Go iterates a map. Times are seconds.
\<close>

section \<open>Releases\<close>

text \<open>A stored revision: what its labels say, and what decoding it gives.\<close>

record revision =
  rv_Namespace :: string
  rv_Name :: string
  rv_Version :: int
  rv_Status :: string
  rv_ModifiedAt :: "int option"
  rv_LastDeployed :: int
  rv_Chart :: "string option"

record FluxReleaseInfo =
  fx_ParentName :: string
  fx_ParentNamespace :: string

record ArgoReleaseInfo =
  ag_ParentName :: string
  ag_ParentNamespace :: string
  ag_DestNamespace :: string
  ag_RepoName :: string
  ag_CreatedAt :: int

record HelmRelease =
  hr_Name :: string
  hr_Namespace :: string
  hr_Version :: int
  hr_Info :: "(int \<times> string) option"
  hr_Chart :: "string option"
  hr_RepoName :: string
  hr_Argo :: "ArgoReleaseInfo option"
  hr_Flux :: "FluxReleaseInfo option"

definition helm_zero_time :: int where
  "helm_zero_time = - 62135596800"

definition WorkspaceHelmKey :: "string \<Rightarrow> string \<Rightarrow> string" where
  "WorkspaceHelmKey namespace releaseName = namespace @ CHR 0x00 # releaseName"

definition helmReleaseScopeKey :: "HelmRelease \<Rightarrow> string" where
  "helmReleaseScopeKey hr =
     (case hr_Argo hr of Some a \<Rightarrow> WorkspaceHelmKey (ag_ParentNamespace a) (hr_Name hr) | None \<Rightarrow> WorkspaceHelmKey (hr_Namespace hr) (hr_Name hr))"

definition helmReleaseLastDeployed :: "HelmRelease \<Rightarrow> int" where
  "helmReleaseLastDeployed hr =
     (case hr_Argo hr of Some a \<Rightarrow> ag_CreatedAt a | None \<Rightarrow> (case hr_Info hr of None \<Rightarrow> helm_zero_time | Some (t, _) \<Rightarrow> t))"

definition helmReleaseFromRelease :: "revision \<Rightarrow> string \<Rightarrow> HelmRelease" where
  "helmReleaseFromRelease re repoName =
     \<lparr>hr_Name = rv_Name re, hr_Namespace = rv_Namespace re, hr_Version = rv_Version re, hr_Info = Some (rv_LastDeployed re, rv_Status re),
      hr_Chart = rv_Chart re, hr_RepoName = repoName, hr_Argo = None, hr_Flux = None\<rparr>"

definition NewArgoHelmRelease :: "string \<Rightarrow> ArgoReleaseInfo \<Rightarrow> HelmRelease" where
  "NewArgoHelmRelease releaseName info =
     \<lparr>hr_Name = releaseName, hr_Namespace = ag_DestNamespace info, hr_Version = 0, hr_Info = None, hr_Chart = None,
      hr_RepoName = ag_RepoName info, hr_Argo = Some info, hr_Flux = None\<rparr>"

section \<open>Pages\<close>

record HelmReleaseListPaginatedRequest =
  hq_Namespace :: string
  hq_Filter :: string
  hq_Offset :: int
  hq_Limit :: int
  hq_SortBy :: string
  hq_SortOrder :: string
  hq_WorkspaceName :: string
  hq_ExcludeGitOpsManaged :: bool

type_synonym flux_index = "(string, FluxReleaseInfo) gomap"

definition in_scope :: "string list option \<Rightarrow> HelmRelease \<Rightarrow> bool" where
  "in_scope scope hr \<longleftrightarrow> (case scope of None \<Rightarrow> True | Some allowed \<Rightarrow> helmReleaseScopeKey hr \<in> set allowed)"

definition gitops_managed :: "flux_index \<Rightarrow> HelmRelease \<Rightarrow> bool" where
  "gitops_managed fluxIndex hr \<longleftrightarrow> hr_Argo hr \<noteq> None \<or> map_of fluxIndex (WorkspaceHelmKey (hr_Namespace hr) (hr_Name hr)) \<noteq> None"

definition release_matches :: "HelmReleaseListPaginatedRequest \<Rightarrow> string list option \<Rightarrow> flux_index \<Rightarrow> HelmRelease \<Rightarrow> bool" where
  "release_matches data scope fluxIndex hr \<longleftrightarrow>
     in_scope scope hr \<and> \<not> (hq_ExcludeGitOpsManaged data \<and> gitops_managed fluxIndex hr)
     \<and> (hq_Filter data = [] \<or> str_contains (to_lower (hr_Name hr)) (to_lower (hq_Filter data)))"

definition release_less :: "string \<Rightarrow> string \<Rightarrow> HelmRelease \<Rightarrow> HelmRelease \<Rightarrow> bool" where
  "release_less sortBy sortOrder x y \<longleftrightarrow>
     (if sortBy = ''name'' then (if sortOrder = ''desc'' then hr_Name y < hr_Name x else hr_Name x < hr_Name y)
      else let tx = helmReleaseLastDeployed x; ty = helmReleaseLastDeployed y
           in if tx = ty then hr_Name x < hr_Name y else if sortOrder = ''asc'' then tx < ty else ty < tx)"

text \<open>The slice of a page; \<open>None\<close> is the panic of a slice whose end lies before its start.\<close>

definition page_slice :: "int \<Rightarrow> int \<Rightarrow> 'a list \<Rightarrow> 'a list option" where
  "page_slice offset limit items =
     (let total = int (length items)
      in if limit > 0
         then let start = min (max offset 0) total; stop = min (wrap64 (start + limit)) total
              in if stop < start then None else Some (take (nat (stop - start)) (drop (nat start) items))
         else Some items)"

definition paginateHelmReleases ::
  "HelmRelease list \<Rightarrow> HelmReleaseListPaginatedRequest \<Rightarrow> string list option \<Rightarrow> flux_index \<Rightarrow> (HelmRelease list \<times> int) option" where
  "paginateHelmReleases items data scope fluxIndex =
     (let items = stable_sort (release_less (hq_SortBy data) (hq_SortOrder data)) (filter (release_matches data scope fluxIndex) items)
      in map_option (\<lambda>page. (page, int (length items))) (page_slice (hq_Offset data) (hq_Limit data) items))"

definition tagFluxHelmReleases :: "flux_index \<Rightarrow> HelmRelease list \<Rightarrow> HelmRelease list" where
  "tagFluxHelmReleases fluxIndex page =
     map (\<lambda>hr. if hr_Argo hr \<noteq> None then hr
               else case map_of fluxIndex (WorkspaceHelmKey (hr_Namespace hr) (hr_Name hr)) of None \<Rightarrow> hr | Some info \<Rightarrow> hr\<lparr>hr_Flux := Some info\<rparr>) page"

section \<open>Current revisions\<close>

definition nonSupersededStatuses :: "string list" where
  "nonSupersededStatuses =
     [''unknown'', ''deployed'', ''uninstalled'', ''failed'', ''uninstalling'', ''pending-install'', ''pending-upgrade'', ''pending-rollback'']"

definition release_key :: "revision \<Rightarrow> string" where
  "release_key re = rv_Namespace re @ ''/'' @ rv_Name re"

text \<open>The map of the newest revision by release; of two with one version the first stays.\<close>

definition keep_latest :: "revision \<Rightarrow> (string, revision) gomap \<Rightarrow> (string, revision) gomap" where
  "keep_latest re latest =
     (case map_of latest (release_key re) of
        None \<Rightarrow> AList.update (release_key re) re latest
      | Some prev \<Rightarrow> if rv_Version re > rv_Version prev then AList.update (release_key re) re latest else latest)"

text \<open>The storage of Helm: the query by labels of the secrets driver, or \<open>None\<close> for another driver, whose releases
  Helm itself lists (\<open>run\<close>). \<open>order\<close> is the order of iteration of a map.\<close>

type_synonym helm_driver = "((revision \<Rightarrow> bool) \<Rightarrow> revision list) option"

definition listCurrentReleases :: "helm_driver \<Rightarrow> revision list \<Rightarrow> (revision list \<Rightarrow> revision list) \<Rightarrow> revision list" where
  "listCurrentReleases driver run order =
     (case driver of
        None \<Rightarrow> run
      | Some query \<Rightarrow> order (map snd (fold keep_latest (concat (map (\<lambda>st. query (\<lambda>re. rv_Status re = st)) nonSupersededStatuses)) [])))"

definition modifiedAtFromLabels :: "revision \<Rightarrow> int" where
  "modifiedAtFromLabels re = (case rv_ModifiedAt re of None \<Rightarrow> helm_zero_time | Some t \<Rightarrow> t)"

definition release_stub :: "revision \<Rightarrow> HelmRelease" where
  "release_stub re =
     \<lparr>hr_Name = rv_Name re, hr_Namespace = rv_Namespace re, hr_Version = rv_Version re, hr_Info = Some (modifiedAtFromLabels re, rv_Status re),
      hr_Chart = None, hr_RepoName = [], hr_Argo = None, hr_Flux = None\<rparr>"

text \<open>The stubs of all revisions that are not superseded, from the cache when it has them.\<close>

definition listReleaseStubsCached ::
  "HelmRelease list option \<Rightarrow> revision list \<Rightarrow> (revision list \<Rightarrow> revision list) \<Rightarrow> HelmRelease list \<times> HelmRelease list option" where
  "listReleaseStubsCached cachedStubs stored order =
     (case cachedStubs of
        Some stubs \<Rightarrow> (stubs, cachedStubs)
      | None \<Rightarrow>
          (let stubs = map release_stub (order (map snd (fold keep_latest
                         (filter (\<lambda>re. rv_Status re \<noteq> ''superseded'' \<and> rv_Name re \<noteq> []) stored) [])))
           in (stubs, Some stubs)))"

text \<open>\<open>strings.Replace(s, old, "", 1)\<close>.\<close>

fun replace_first :: "string \<Rightarrow> string \<Rightarrow> string" where
  "replace_first old [] = []"
| "replace_first old (c # s) = (if has_prefix (c # s) old then drop (length old) (c # s) else c # replace_first old s)"

definition decodePageRelease :: "((revision \<Rightarrow> bool) \<Rightarrow> revision list) \<Rightarrow> string \<Rightarrow> string \<Rightarrow> int \<Rightarrow> revision option" where
  "decodePageRelease query namespace name version =
     find (\<lambda>re. rv_Namespace re = namespace) (query (\<lambda>re. rv_Name re = name \<and> rv_Version re = version))"

text \<open>\<open>kept\<close> is the chart reference kept for a release of a name and a namespace.\<close>

definition release_repo :: "(string \<Rightarrow> string \<Rightarrow> string option) \<Rightarrow> string \<Rightarrow> string \<Rightarrow> string option \<Rightarrow> string" where
  "release_repo kept name namespace chart =
     (case kept name namespace of
        None \<Rightarrow> []
      | Some rep \<Rightarrow> replace_first (CHR ''/'' # (case chart of None \<Rightarrow> [] | Some c \<Rightarrow> c)) rep)"

definition decode_entry :: "((revision \<Rightarrow> bool) \<Rightarrow> revision list) \<Rightarrow> (string \<Rightarrow> string \<Rightarrow> string option) \<Rightarrow> HelmRelease \<Rightarrow> HelmRelease" where
  "decode_entry query kept hr =
     (if hr_Argo hr \<noteq> None then hr
      else case decodePageRelease query (hr_Namespace hr) (hr_Name hr) (hr_Version hr) of
             None \<Rightarrow> hr
           | Some re \<Rightarrow> helmReleaseFromRelease re (release_repo kept (rv_Name re) (rv_Namespace re) (rv_Chart re)))"

definition set_repo :: "(string \<Rightarrow> string \<Rightarrow> string option) \<Rightarrow> HelmRelease \<Rightarrow> HelmRelease" where
  "set_repo kept hr =
     (if hr_Argo hr \<noteq> None \<or> kept (hr_Name hr) (hr_Namespace hr) = None then hr
      else hr\<lparr>hr_RepoName := release_repo kept (hr_Name hr) (hr_Namespace hr) (hr_Chart hr)\<rparr>)"

definition helmReleaseListPaginatedFull ::
  "helm_driver \<Rightarrow> revision list \<Rightarrow> (revision list \<Rightarrow> revision list) \<Rightarrow> (string \<Rightarrow> string \<Rightarrow> string option)
     \<Rightarrow> HelmReleaseListPaginatedRequest \<Rightarrow> string list option \<Rightarrow> HelmRelease list \<Rightarrow> flux_index \<Rightarrow> (HelmRelease list \<times> int) option" where
  "helmReleaseListPaginatedFull driver run order kept data scope argoItems fluxIndex =
     map_option (\<lambda>(page, total). (tagFluxHelmReleases fluxIndex (map (set_repo kept) page), total))
       (paginateHelmReleases (map (\<lambda>re. helmReleaseFromRelease re []) (listCurrentReleases driver run order) @ argoItems) data scope fluxIndex)"

text \<open>\<open>stored\<close> is what the metadata client lists: the labels of all revisions.\<close>

definition HelmReleaseListPaginated ::
  "helm_driver \<Rightarrow> revision list \<Rightarrow> revision list \<Rightarrow> HelmRelease list option \<Rightarrow> (revision list \<Rightarrow> revision list) \<Rightarrow> (string \<Rightarrow> string \<Rightarrow> string option)
     \<Rightarrow> HelmReleaseListPaginatedRequest \<Rightarrow> string list option \<Rightarrow> HelmRelease list \<Rightarrow> flux_index \<Rightarrow> (HelmRelease list \<times> int) option" where
  "HelmReleaseListPaginated driver run stored cachedStubs order kept data scope argoItems fluxIndex =
     (case driver of
        None \<Rightarrow> helmReleaseListPaginatedFull driver run order kept data scope argoItems fluxIndex
      | Some query \<Rightarrow>
          map_option (\<lambda>(page, total). (tagFluxHelmReleases fluxIndex (map (decode_entry query kept) page), total))
            (paginateHelmReleases (fst (listReleaseStubsCached cachedStubs stored order) @ argoItems) data scope fluxIndex))"

text \<open>The list without pages: it clears fields of the chart, so a revision without one is a nil dereference (\<open>None\<close>).\<close>

fun release_list :: "(string \<Rightarrow> string \<Rightarrow> string option) \<Rightarrow> string \<Rightarrow> revision list \<Rightarrow> HelmRelease list option" where
  "release_list kept name [] = Some []"
| "release_list kept name (re # res) =
     (if name \<noteq> [] \<and> rv_Chart re \<noteq> Some name then release_list kept name res
      else if rv_Chart re = None then None
      else map_option (\<lambda>hrs. helmReleaseFromRelease re (release_repo kept (rv_Name re) (rv_Namespace re) (rv_Chart re)) # hrs)
             (release_list kept name res))"

definition HelmReleaseList ::
  "helm_driver \<Rightarrow> revision list \<Rightarrow> (revision list \<Rightarrow> revision list) \<Rightarrow> (string \<Rightarrow> string \<Rightarrow> string option) \<Rightarrow> string \<Rightarrow> HelmRelease list option" where
  "HelmReleaseList driver run order kept name = release_list kept name (listCurrentReleases driver run order)"

section \<open>The scope of a workspace\<close>

record flux_release =
  fr_Name :: string
  fr_Namespace :: string
  fr_TargetNamespace :: string
  fr_ReleaseName :: string

definition workspace_scope_keys :: "flux_release list \<Rightarrow> WorkspaceResource \<Rightarrow> string list" where
  "workspace_scope_keys fluxReleases r =
     (if ws_Type r = ''helm'' \<or> ws_Type r = ''argocd'' then [WorkspaceHelmKey (ws_Namespace r) (ws_Id r)]
      else if ws_Type r = ''flux''
      then (case cut (CHR ''/'') (ws_Id r) of
              None \<Rightarrow> []
            | Some (kind, name) \<Rightarrow>
                if to_lower kind \<noteq> ''helmrelease'' then []
                else (case find (\<lambda>fr. fr_Name fr = name \<and> fr_Namespace fr = ws_Namespace r) fluxReleases of
                        None \<Rightarrow> [] | Some fr \<Rightarrow> [WorkspaceHelmKey (fr_TargetNamespace fr) (fr_ReleaseName fr)]))
      else [])"

definition workspace_scope :: "flux_release list \<Rightarrow> WorkspaceResource list \<Rightarrow> string list" where
  "workspace_scope fluxReleases resources = concat (map (workspace_scope_keys fluxReleases) resources)"

definition flux_index_of :: "flux_release list \<Rightarrow> flux_index" where
  "flux_index_of fluxReleases =
     fold (\<lambda>fr. AList.update (WorkspaceHelmKey (fr_TargetNamespace fr) (fr_ReleaseName fr))
                  \<lparr>fx_ParentName = fr_Name fr, fx_ParentNamespace = fr_Namespace fr\<rparr>) fluxReleases []"

text \<open>The handler of \<open>cluster/helm-release-list-paginated\<close>: the scope of the workspace is resolved before the pages
  are cut. \<open>Inl\<close> is the error of a workspace that cannot be read.\<close>

definition helm_release_list_paginated ::
  "flux_release list \<Rightarrow> (string \<Rightarrow> 'e + WorkspaceResource list)
     \<Rightarrow> (HelmReleaseListPaginatedRequest \<Rightarrow> string list option \<Rightarrow> flux_index \<Rightarrow> (HelmRelease list \<times> int) option)
     \<Rightarrow> HelmReleaseListPaginatedRequest \<Rightarrow> 'e + (HelmRelease list \<times> int) option" where
  "helm_release_list_paginated fluxReleases getWorkspace list_page data =
     (if hq_WorkspaceName data = [] then Inr (list_page data None (flux_index_of fluxReleases))
      else case getWorkspace (hq_WorkspaceName data) of
             Inl e \<Rightarrow> Inl e
           | Inr resources \<Rightarrow> Inr (list_page data (Some (workspace_scope fluxReleases resources)) (flux_index_of fluxReleases)))"

section \<open>Workloads of a release\<close>

definition label_is :: "(string, string) gomap option \<Rightarrow> string \<Rightarrow> string \<Rightarrow> bool" where
  "label_is labels key v \<longleftrightarrow> (case labels of None \<Rightarrow> False | Some m \<Rightarrow> (case map_of m key of None \<Rightarrow> [] | Some x \<Rightarrow> x) = v)"

definition IsManagedByHelmRelease :: "(string, string) gomap option \<Rightarrow> (string, string) gomap option \<Rightarrow> string \<Rightarrow> bool" where
  "IsManagedByHelmRelease labels annotations releaseName \<longleftrightarrow>
     (let labelManagedByHelm = label_is labels ''app.kubernetes.io/managed-by'' ''Helm'';
          labelInstanceRelease = label_is labels ''app.kubernetes.io/instance'' releaseName;
          annotationReleaseName = label_is annotations ''meta.helm.sh/release-name'' releaseName
      in annotationReleaseName \<or> (labelManagedByHelm \<and> (labelInstanceRelease \<or> annotationReleaseName)))"

text \<open>How often a pod is appended: once for every replica set of the release that owns it.\<close>

definition pod_copies :: "(json \<Rightarrow> bool) \<Rightarrow> json list \<Rightarrow> json \<Rightarrow> nat" where
  "pod_copies managed replicaSets pod = length (filter (\<lambda>rs. GetUID rs \<in> set (owner_uids pod) \<and> managed rs) replicaSets)"

fun release_workloads :: "(json \<Rightarrow> bool) \<Rightarrow> json list \<Rightarrow> string list \<Rightarrow> json list \<Rightarrow> json list" where
  "release_workloads managed replicaSets appended [] = []"
| "release_workloads managed replicaSets appended (w # ws) =
     (if GetUID w \<in> set appended then release_workloads managed replicaSets appended ws
      else let n = (if GetKind w = ''Pod'' then pod_copies managed replicaSets w else if managed w then 1 else 0)
           in replicate n w @ release_workloads managed replicaSets (if n = 0 then appended else GetUID w # appended) ws)"

definition HelmReleaseGetWorkloads ::
  "json list option \<Rightarrow> json list \<Rightarrow> (json \<Rightarrow> (string, string) gomap option) \<Rightarrow> (json \<Rightarrow> (string, string) gomap option) \<Rightarrow> string \<Rightarrow> json list option" where
  "HelmReleaseGetWorkloads workloads replicaSets labels annotations release =
     map_option (release_workloads (\<lambda>w. IsManagedByHelmRelease (labels w) (annotations w) release) replicaSets []) workloads"

section \<open>Sorting and slicing\<close>

interpretation release_order: go_less "release_less sortBy sortOrder" for sortBy sortOrder
  by unfold_locales (auto simp: release_less_def Let_def split: if_splits)

lemma insert_by_map: "insert_by lt (f x) (map f ys) = map f (insert_by (\<lambda>a b. lt (f a) (f b)) x ys)"
  by (induction ys) auto

lemma stable_sort_map: "stable_sort lt (map f xs) = map f (stable_sort (\<lambda>a b. lt (f a) (f b)) xs)"
  by (induction xs) (simp_all add: insert_by_map)

lemma page_slice_map: "page_slice offset limit (map f xs) = map_option (map f) (page_slice offset limit xs)"
  by (simp add: page_slice_def Let_def take_map drop_map)

lemma ordered_unique:
  assumes "sorted_wrt (\<lambda>x y. \<not> lt y x) xs" "sorted_wrt (\<lambda>x y. \<not> lt y x) ys" "mset xs = mset ys"
    "\<And>x y. x \<in> set xs \<Longrightarrow> y \<in> set xs \<Longrightarrow> x \<noteq> y \<Longrightarrow> lt x y \<or> lt y x"
  shows "xs = ys"
  using assms
proof (induction xs arbitrary: ys)
  case (Cons x xs)
  then obtain y zs where ys: "ys = y # zs" by (cases ys) auto
  have "set (x # xs) = set (y # zs)" using Cons.prems(3) ys mset_eq_setD by blast
  then have "y \<in> set (x # xs)" "x \<in> set (y # zs)" by auto
  then have "x = y" using Cons.prems(1,2) Cons.prems(4) [of x y] ys by auto
  with Cons ys show ?case by auto
qed simp

lemma mset_insert_by: "mset (insert_by lt x xs) = add_mset x (mset xs)"
  by (induction xs) auto

lemma mset_stable_sort: "mset (stable_sort lt xs) = mset xs"
  by (induction xs) (simp_all add: mset_insert_by)

section \<open>The current revision of every release\<close>

definition newest :: "revision list \<Rightarrow> revision \<Rightarrow> bool" where
  "newest rs re \<longleftrightarrow> re \<in> set rs \<and> (\<forall>r \<in> set rs. release_key r = release_key re \<longrightarrow> rv_Version r \<le> rv_Version re)"

text \<open>No two stored revisions of a release have one version.\<close>

definition one_per_version :: "revision list \<Rightarrow> bool" where
  "one_per_version rs \<longleftrightarrow> (\<forall>r \<in> set rs. \<forall>r' \<in> set rs. release_key r = release_key r' \<longrightarrow> rv_Version r = rv_Version r' \<longrightarrow> r = r')"

lemma newest_exists:
  assumes "x \<in> set rs"
  shows "\<exists>re. newest rs re \<and> release_key re = release_key x"
proof -
  let ?S = "{r \<in> set rs. release_key r = release_key x}"
  have fin: "finite (rv_Version ` ?S)" "rv_Version ` ?S \<noteq> {}" using assms by auto
  obtain re where re: "re \<in> ?S" "rv_Version re = Max (rv_Version ` ?S)"
    using Max_in [OF fin] by (elim imageE) metis
  have "rv_Version r \<le> rv_Version re" if "r \<in> ?S" for r using re(2) Max_ge [OF fin(1)] that by simp
  with re(1) show ?thesis by (auto simp: newest_def)
qed

lemma newest_unique:
  "\<lbrakk>one_per_version rs; newest rs x; newest rs y; release_key x = release_key y\<rbrakk> \<Longrightarrow> x = y"
  unfolding one_per_version_def newest_def by (metis order_antisym)

lemma newest_snoc:
  "newest (rs @ [r]) re \<longleftrightarrow>
     (newest rs re \<and> (release_key r = release_key re \<longrightarrow> rv_Version r \<le> rv_Version re))
     \<or> re = r \<and> (\<forall>x \<in> set rs. release_key x = release_key r \<longrightarrow> rv_Version x \<le> rv_Version r)"
  by (auto simp: newest_def)

lemma one_per_version_snoc: "one_per_version (seen @ r # rs) \<Longrightarrow> one_per_version (seen @ [r])"
  by (auto simp: one_per_version_def)

lemma keep_latest_keys: "distinct (map fst m) \<Longrightarrow> distinct (map fst (keep_latest re m))"
  by (auto simp: keep_latest_def distinct_update split: option.splits)

lemma keep_latest_lookup:
  "map_of (keep_latest re m) k =
     (if k = release_key re \<and> (case map_of m k of None \<Rightarrow> True | Some prev \<Rightarrow> rv_Version prev < rv_Version re) then Some re else map_of m k)"
  by (auto simp: keep_latest_def update_conv' split: option.splits)

lemma latest_lookup:
  assumes "one_per_version (seen @ rs)" "distinct (map fst m)"
    "\<And>k re. map_of m k = Some re \<longleftrightarrow> newest seen re \<and> release_key re = k"
  shows "distinct (map fst (fold keep_latest rs m))
    \<and> (\<forall>k re. map_of (fold keep_latest rs m) k = Some re \<longleftrightarrow> newest (seen @ rs) re \<and> release_key re = k)"
  using assms
proof (induction rs arbitrary: seen m)
  case (Cons r rs)
  have step: "map_of (keep_latest r m) k = Some re \<longleftrightarrow> newest (seen @ [r]) re \<and> release_key re = k" for k re
  proof (cases "map_of m (release_key r)")
    case None
    have "release_key x \<noteq> release_key r" if "x \<in> set seen" for x
      using newest_exists [OF that] Cons.prems(3) None by (metis option.distinct(1))
    with None Cons.prems(3) show ?thesis by (auto simp: keep_latest_lookup newest_def)
  next
    case (Some prev)
    then have p: "newest seen prev" "release_key prev = release_key r" using Cons.prems(3) by auto
    show ?thesis
    proof (cases "k = release_key r")
      case False
      then show ?thesis using Cons.prems(3) by (auto simp: keep_latest_lookup newest_snoc)
    next
      case True
      let ?w = "if rv_Version prev < rv_Version r then r else prev"
      have lookup: "map_of (keep_latest r m) k = Some ?w" using Some True by (simp add: keep_latest_lookup)
      have new: "newest (seen @ [r]) ?w" using p by (fastforce simp: newest_def)
      have key: "release_key ?w = k" using p(2) True by simp
      have "re = ?w" if "newest (seen @ [r]) re" "release_key re = k"
        by (rule newest_unique [OF one_per_version_snoc [OF Cons.prems(1)] that(1) new]) (simp only: that(2) key)
      then show ?thesis using new key unfolding lookup by auto
    qed
  qed
  have "one_per_version ((seen @ [r]) @ rs)" using Cons.prems(1) by simp
  from Cons.IH [OF this keep_latest_keys [OF Cons.prems(2)] step] show ?case by simp
qed simp

lemma latest_values:
  assumes "one_per_version rs"
  shows "distinct (map snd (fold keep_latest rs [])) \<and> set (map snd (fold keep_latest rs [])) = {re. newest rs re}"
proof -
  let ?m = "fold keep_latest rs []"
  have m: "distinct (map fst ?m)" "\<And>k re. map_of ?m k = Some re \<longleftrightarrow> newest rs re \<and> release_key re = k"
    using latest_lookup [of "[]" rs "[]"] assms by (auto simp: newest_def)
  have mem: "(k, re) \<in> set ?m \<longleftrightarrow> newest rs re \<and> release_key re = k" for k re
    using m(1) m(2) [of k re] by (simp add: map_of_eq_Some_iff)
  have "inj_on snd (set ?m)" by (rule inj_onI) (auto simp: mem)
  moreover have "distinct ?m" using m(1) by (simp add: distinct_map)
  moreover have "re \<in> snd ` set ?m" if "newest rs re" for re
    using mem [of "release_key re" re] that image_eqI [of re snd "(release_key re, re)"] by simp
  moreover have "newest rs re" if "re \<in> snd ` set ?m" for re
    using that mem [of _ re] by (elim imageE) (metis prod.collapse)
  ultimately show ?thesis by (simp add: distinct_map set_eq_iff) blast
qed

lemma newest_cong: "set rs = set rs' \<Longrightarrow> newest rs re = newest rs' re"
  by (simp add: newest_def)

lemma one_per_version_subset: "set rs \<subseteq> set rs' \<Longrightarrow> one_per_version rs' \<Longrightarrow> one_per_version rs"
  by (auto simp: one_per_version_def)

lemma latest_cong:
  assumes "one_per_version rs" "one_per_version rs'" "set rs = set rs'"
  shows "mset (map snd (fold keep_latest rs [])) = mset (map snd (fold keep_latest rs' []))"
proof (rule iffD1 [OF set_eq_iff_mset_eq_distinct])
  show "set (map snd (fold keep_latest rs [])) = set (map snd (fold keep_latest rs' []))"
    unfolding latest_values [OF assms(1), THEN conjunct2] latest_values [OF assms(2), THEN conjunct2] newest_cong [OF assms(3)] by (rule refl)
qed (rule latest_values [OF assms(1), THEN conjunct1], rule latest_values [OF assms(2), THEN conjunct1])

text \<open>Both ways of reading the current revisions find the same ones.\<close>

lemma current_revisions_agree:
  assumes "one_per_version stored" "\<forall>re \<in> set stored. rv_Name re \<noteq> []"
    "\<forall>re \<in> set stored. rv_Status re \<noteq> ''superseded'' \<longleftrightarrow> rv_Status re \<in> set nonSupersededStatuses"
  shows "mset (map snd (fold keep_latest (filter (\<lambda>re. rv_Status re \<noteq> ''superseded'' \<and> rv_Name re \<noteq> []) stored) []))
       = mset (map snd (fold keep_latest (concat (map (\<lambda>st. filter (\<lambda>re. rv_Status re = st) stored) nonSupersededStatuses)) []))"
    (is "mset (map snd (fold keep_latest ?a [])) = mset (map snd (fold keep_latest ?b []))")
proof (rule latest_cong)
  show "one_per_version ?a" by (rule one_per_version_subset [OF _ assms(1)]) auto
  show "one_per_version ?b" by (rule one_per_version_subset [OF _ assms(1)]) auto
  show "set ?a = set ?b" using assms(2,3) by auto
qed

lemma fast_revisions_stored:
  assumes "one_per_version stored"
  shows "set (map snd (fold keep_latest (filter P stored) [])) \<subseteq> set stored"
proof -
  have "one_per_version (filter P stored)" by (rule one_per_version_subset [OF _ assms]) auto
  then show ?thesis using latest_values [of "filter P stored"] by (auto simp: newest_def)
qed

section \<open>The fast path agrees with the full one\<close>

text \<open>An entry of a list before it is rendered: a revision or an entry of Argo CD.\<close>

definition entries :: "revision list \<Rightarrow> HelmRelease list \<Rightarrow> (revision + HelmRelease) list" where
  "entries rs argoItems = map Inl rs @ map Inr argoItems"

definition stub_of :: "revision + HelmRelease \<Rightarrow> HelmRelease" where
  "stub_of e = (case e of Inl re \<Rightarrow> release_stub re | Inr hr \<Rightarrow> hr)"

definition full_of :: "revision + HelmRelease \<Rightarrow> HelmRelease" where
  "full_of e = (case e of Inl re \<Rightarrow> helmReleaseFromRelease re [] | Inr hr \<Rightarrow> hr)"

lemma entries_stub: "map release_stub rs @ argoItems = map stub_of (entries rs argoItems)"
  by (simp add: entries_def stub_of_def comp_def)

lemma entries_full: "map (\<lambda>re. helmReleaseFromRelease re []) rs @ argoItems = map full_of (entries rs argoItems)"
  by (simp add: entries_def full_of_def comp_def)

lemma mset_entries: "mset rs = mset rs' \<Longrightarrow> mset (entries rs argoItems) = mset (entries rs' argoItems)"
  by (simp add: entries_def)

lemma stub_matches: "release_matches data scope fluxIndex (stub_of e) = release_matches data scope fluxIndex (full_of e)"
  by (cases e) (simp_all add: stub_of_def full_of_def release_matches_def in_scope_def gitops_managed_def helmReleaseScopeKey_def
      release_stub_def helmReleaseFromRelease_def split: option.split)

text \<open>The label Helm sets on every write carries the time of the deployment.\<close>

definition labelled :: "revision \<Rightarrow> bool" where
  "labelled re \<longleftrightarrow> rv_ModifiedAt re = Some (rv_LastDeployed re)"

definition proper_entry :: "revision + HelmRelease \<Rightarrow> bool" where
  "proper_entry e \<longleftrightarrow> (case e of Inl re \<Rightarrow> labelled re | Inr hr \<Rightarrow> hr_Argo hr \<noteq> None)"

lemma stub_order_key:
  assumes "proper_entry e"
  shows "helmReleaseLastDeployed (stub_of e) = helmReleaseLastDeployed (full_of e) \<and> hr_Name (stub_of e) = hr_Name (full_of e)"
  using assms by (cases e) (simp_all add: stub_of_def full_of_def helmReleaseLastDeployed_def release_stub_def
      helmReleaseFromRelease_def modifiedAtFromLabels_def labelled_def proper_entry_def)

lemma insert_by_cong:
  assumes "\<And>y. y \<in> set xs \<Longrightarrow> lt x y = lt' x y \<and> lt y x = lt' y x"
  shows "insert_by lt x xs = insert_by lt' x xs"
  using assms by (induction xs) auto

lemma stable_sort_cong:
  assumes "\<And>x y. x \<in> set xs \<Longrightarrow> y \<in> set xs \<Longrightarrow> lt x y = lt' x y"
  shows "stable_sort lt xs = stable_sort lt' xs"
  using assms
proof (induction xs)
  case (Cons x xs)
  then have "stable_sort lt xs = stable_sort lt' xs" by simp
  moreover have "insert_by lt x (stable_sort lt' xs) = insert_by lt' x (stable_sort lt' xs)"
    by (rule insert_by_cong) (use Cons.prems in \<open>auto simp: set_stable_sort\<close>)
  ultimately show ?case by simp
qed simp

lemma go_less_pull: "go_less lt \<Longrightarrow> go_less (\<lambda>a b. lt (f a) (f b))"
  unfolding go_less_def by blast

lemma sort_unique:
  assumes "go_less lt" "mset xs = mset ys" "\<And>x y. x \<in> set xs \<Longrightarrow> y \<in> set xs \<Longrightarrow> x \<noteq> y \<Longrightarrow> lt x y \<or> lt y x"
  shows "stable_sort lt xs = stable_sort lt ys"
  by (rule ordered_unique [OF go_less.stable_sort_ordered [OF assms(1)] go_less.stable_sort_ordered [OF assms(1)]])
     (use assms(2,3) in \<open>auto simp: mset_stable_sort\<close>)

text \<open>The order decides between any two different entries of a list.\<close>

definition decisive :: "string \<Rightarrow> string \<Rightarrow> HelmRelease list \<Rightarrow> bool" where
  "decisive sortBy sortOrder items \<longleftrightarrow>
     (\<forall>x \<in> set items. \<forall>y \<in> set items. x \<noteq> y \<longrightarrow> release_less sortBy sortOrder x y \<or> release_less sortBy sortOrder y x)"

lemma full_of_inj: "proper_entry e \<Longrightarrow> proper_entry e' \<Longrightarrow> full_of e = full_of e' \<Longrightarrow> e = e'"
  by (cases e; cases e') (auto simp: proper_entry_def full_of_def helmReleaseFromRelease_def labelled_def)

lemma stub_less:
  "proper_entry e \<Longrightarrow> proper_entry e' \<Longrightarrow>
   release_less sortBy sortOrder (stub_of e) (stub_of e') = release_less sortBy sortOrder (full_of e) (full_of e')"
  by (simp add: release_less_def stub_order_key)

lemma page_slice_set: "page_slice offset limit xs = Some ys \<Longrightarrow> set ys \<subseteq> set xs"
  by (auto simp: page_slice_def Let_def split: if_splits dest!: in_set_takeD in_set_dropD)

lemma sorted_entries_agree:
  fixes es es' :: "(revision + HelmRelease) list" and data scope fluxIndex
  assumes "mset es = mset es'" "\<forall>e \<in> set es. proper_entry e" "decisive sortBy sortOrder (map full_of es')"
  defines "S \<equiv> stable_sort (\<lambda>a b. release_less sortBy sortOrder (full_of a) (full_of b)) (filter (\<lambda>e. release_matches data scope fluxIndex (full_of e)) es)"
  shows "stable_sort (release_less sortBy sortOrder) (filter (release_matches data scope fluxIndex) (map stub_of es)) = map stub_of S"
    and "stable_sort (release_less sortBy sortOrder) (filter (release_matches data scope fluxIndex) (map full_of es')) = map full_of S"
    and "set S \<subseteq> set es"
proof -
  let ?lt = "\<lambda>a b. release_less sortBy sortOrder (full_of a) (full_of b)"
  let ?es = "filter (\<lambda>e. release_matches data scope fluxIndex (full_of e)) es"
  let ?es' = "filter (\<lambda>e. release_matches data scope fluxIndex (full_of e)) es'"
  have set_es: "set es = set es'" using assms(1) by (rule mset_eq_setD)
  have "stable_sort (\<lambda>a b. release_less sortBy sortOrder (stub_of a) (stub_of b)) ?es = S"
    unfolding S_def by (rule stable_sort_cong) (use assms(2) stub_less in auto)
  then show "stable_sort (release_less sortBy sortOrder) (filter (release_matches data scope fluxIndex) (map stub_of es)) = map stub_of S"
    by (simp add: filter_map comp_def stub_matches stable_sort_map)
  have "S = stable_sort ?lt ?es'"
    unfolding S_def
  proof (rule sort_unique)
    show "go_less ?lt" by (rule go_less_pull) (rule release_order.go_less_axioms)
    show "mset ?es = mset ?es'" using assms(1) by (simp add: mset_filter)
    show "?lt x y \<or> ?lt y x" if "x \<in> set ?es" "y \<in> set ?es" "x \<noteq> y" for x y
    proof -
      have mem: "x \<in> set es" "y \<in> set es" using that(1,2) by simp_all
      then have "full_of x \<noteq> full_of y" using full_of_inj [of x y] that(3) assms(2) by blast
      moreover have "full_of x \<in> set (map full_of es')" "full_of y \<in> set (map full_of es')" using mem set_es by simp_all
      ultimately show ?thesis using assms(3) unfolding decisive_def by blast
    qed
  qed
  then show "stable_sort (release_less sortBy sortOrder) (filter (release_matches data scope fluxIndex) (map full_of es')) = map full_of S"
    by (simp add: filter_map comp_def stable_sort_map)
  show "set S \<subseteq> set es" by (auto simp: S_def)
qed

lemma decode_finds:
  assumes "one_per_version stored" "re \<in> set stored"
  shows "decodePageRelease (\<lambda>P. filter P stored) (rv_Namespace re) (rv_Name re) (rv_Version re) = Some re"
proof -
  let ?rs = "filter (\<lambda>r. rv_Name r = rv_Name re \<and> rv_Version r = rv_Version re) stored"
  let ?P = "\<lambda>r. rv_Namespace r = rv_Namespace re"
  obtain r where r: "find ?P ?rs = Some r" using assms(2) by (cases "find ?P ?rs") (auto simp: find_None_iff)
  then obtain i where i: "i < length ?rs" "?P (?rs ! i)" "r = ?rs ! i" by (auto simp: find_Some_iff)
  from nth_mem [OF i(1)] i have "rv_Name r = rv_Name re" "rv_Version r = rv_Version re" "?P r" "r \<in> set stored" by auto
  with assms have "r = re" by (auto simp: one_per_version_def release_key_def)
  with r show ?thesis by (simp add: decodePageRelease_def)
qed

lemma decode_entry_full:
  assumes "one_per_version stored" "proper_entry e" "\<And>re. e = Inl re \<Longrightarrow> re \<in> set stored"
  shows "decode_entry (\<lambda>P. filter P stored) kept (stub_of e) = set_repo kept (full_of e)"
  using assms decode_finds
  by (cases e) (auto simp: decode_entry_def set_repo_def stub_of_def full_of_def proper_entry_def release_stub_def helmReleaseFromRelease_def release_repo_def)

text \<open>What Helm's own listing promises: the newest revision of every release, and no revision that is superseded.\<close>

definition helm_lists :: "revision list \<Rightarrow> revision list \<Rightarrow> bool" where
  "helm_lists stored run \<longleftrightarrow>
     distinct run \<and> set run \<subseteq> set stored \<and> (\<forall>re \<in> set stored. re \<in> set run \<longleftrightarrow> newest stored re)
     \<and> (\<forall>re \<in> set run. rv_Status re \<noteq> ''superseded'')"

lemma newest_filter:
  assumes "\<And>re. newest rs re \<Longrightarrow> P re"
  shows "newest (filter P rs) re \<longleftrightarrow> newest rs re"
proof
  assume f: "newest (filter P rs) re"
  then have "re \<in> set rs" by (simp add: newest_def)
  from newest_exists [OF this] obtain top where top: "newest rs top" "release_key top = release_key re" by blast
  with assms [OF top(1)] f show "newest rs re" by (fastforce simp: newest_def)
qed (use assms in \<open>auto simp: newest_def\<close>)

lemma helm_lists_latest:
  assumes "one_per_version stored" "helm_lists stored run" "\<forall>re \<in> set stored. rv_Name re \<noteq> []"
  shows "mset (map snd (fold keep_latest (filter (\<lambda>re. rv_Status re \<noteq> ''superseded'' \<and> rv_Name re \<noteq> []) stored) [])) = mset run"
    (is "mset (map snd (fold keep_latest (filter ?P stored) [])) = _")
proof (rule iffD1 [OF set_eq_iff_mset_eq_distinct])
  have one: "one_per_version (filter ?P stored)" by (rule one_per_version_subset [OF _ assms(1)]) auto
  note v = latest_values [OF one]
  show "distinct (map snd (fold keep_latest (filter ?P stored) []))" by (rule v [THEN conjunct1])
  show "distinct run" using assms(2) by (simp add: helm_lists_def)
  have top: "newest stored re \<longleftrightarrow> re \<in> set run" for re using assms(2) by (auto simp: helm_lists_def newest_def)
  then have "?P re" if "newest stored re" for re using that assms(2,3) by (auto simp: helm_lists_def)
  then have "newest (filter ?P stored) re \<longleftrightarrow> re \<in> set run" for re using newest_filter [of stored ?P] top by blast
  then show "set (map snd (fold keep_latest (filter ?P stored) [])) = set run" unfolding v [THEN conjunct2] by blast
qed


definition demo_revision :: "string \<Rightarrow> string \<Rightarrow> int \<Rightarrow> string \<Rightarrow> int \<Rightarrow> revision" where
  "demo_revision ns name v st t =
     \<lparr>rv_Namespace = ns, rv_Name = name, rv_Version = v, rv_Status = st, rv_ModifiedAt = Some t, rv_LastDeployed = t, rv_Chart = Some ''nginx''\<rparr>"

definition demo_revisions :: "revision list" where
  "demo_revisions = [demo_revision ''prod'' ''web'' 1 ''superseded'' 10, demo_revision ''prod'' ''web'' 2 ''deployed'' 30,
     demo_revision ''dev'' ''db'' 1 ''failed'' 20]"

definition demo_page :: HelmReleaseListPaginatedRequest where
  "demo_page = \<lparr>hq_Namespace = [], hq_Filter = [], hq_Offset = 0, hq_Limit = 1, hq_SortBy = ''name'', hq_SortOrder = ''asc'', hq_WorkspaceName = [], hq_ExcludeGitOpsManaged = False\<rparr>"

lemmas demo_release_defs = demo_revisions_def demo_revision_def demo_page_def listCurrentReleases_def keep_latest_def release_key_def
  nonSupersededStatuses_def helmReleaseFromRelease_def


section \<open>Flaws\<close>

text \<open>Two releases of one name in two namespaces tie in the order by name, so the page shows whichever comes
  first in the iteration of a Go map.\<close>

definition twin_revisions :: "revision list" where
  "twin_revisions = [demo_revision ''prod'' ''web'' 1 ''deployed'' 10, demo_revision ''dev'' ''web'' 1 ''deployed'' 10]"

lemma page_depends_on_map_order:
  "HelmReleaseListPaginated (Some (\<lambda>P. filter P twin_revisions)) [] twin_revisions None (\<lambda>xs. xs) (\<lambda>_ _. None) demo_page None [] []
     \<noteq> HelmReleaseListPaginated (Some (\<lambda>P. filter P twin_revisions)) [] twin_revisions None rev (\<lambda>_ _. None) demo_page None [] []"
  by (simp add: HelmReleaseListPaginated_def listReleaseStubsCached_def paginateHelmReleases_def page_slice_def decode_entry_def
      decodePageRelease_def tagFluxHelmReleases_def release_stub_def release_matches_def in_scope_def release_less_def twin_revisions_def
      release_repo_def wrap64_def modifiedAtFromLabels_def Let_def demo_release_defs)

text \<open>The end of a page is computed in 64 bits: with a huge limit it lies before the start, and slicing panics.\<close>

lemma release_page_overflow_panics: "page_slice 1 (2 ^ 63 - 1) [a, b] = None"
  by (simp add: page_slice_def wrap64_def)

text \<open>A pod that two replica sets of the release own is listed twice.\<close>

lemma shared_pod_listed_twice:
  assumes "GetKind pod = ''Pod''" "GetUID rs \<in> set (owner_uids pod)" "GetUID rs' \<in> set (owner_uids pod)" "managed rs" "managed rs'"
  shows "release_workloads managed [rs, rs'] [] [pod] = [pod, pod]"
  using assms by (simp add: pod_copies_def numeral_2_eq_2)

text \<open>The unpaged list fails on a revision without a chart, which the pages show.\<close>

lemma unpaged_list_panics:
  "HelmReleaseList None [(demo_revision ''prod'' ''web'' 1 ''deployed'' 10)\<lparr>rv_Chart := None\<rparr>] (\<lambda>xs. xs) (\<lambda>_ _. None) [] = None"
  by (simp add: HelmReleaseList_def listCurrentReleases_def demo_revision_def)

text \<open>A page of a workspace only shows entries its resources name.\<close>

lemma workspace_page_in_scope:
  assumes "helm_release_list_paginated fluxReleases getWorkspace (\<lambda>data scope. paginateHelmReleases items data scope) data = Inr (Some (page, n))"
    "hq_WorkspaceName data \<noteq> []" "hr \<in> set page"
  shows "\<exists>resources. getWorkspace (hq_WorkspaceName data) = Inr resources \<and> helmReleaseScopeKey hr \<in> set (workspace_scope fluxReleases resources)"
  using assms
  by (auto simp: helm_release_list_paginated_def paginateHelmReleases_def Let_def release_matches_def in_scope_def
      split: sum.splits if_splits dest!: page_slice_set)

end
