(* ===== verification/WebsocketClient.thy ===== *)
theory WebsocketClient
  imports Prelude
begin

text \<open>
  The websocket client the operator talks to the platform with: \<open>websocket/client.go\<close>.

  A client has three threads, the runtime, the reader and the writer, and any number of goroutines
  that call its API or run \<open>requestReconnect\<close>. All of them are steps of one relation: a send and a
  receive on an unbuffered channel are one step of both sides. The peer and the network decide the
  result of a dial, a read or a write; a step that only happens when the peer sends something is
  labelled, so that what the client does without the peer can be stated. The deadline of a write
  and the handshake timeout of a dial bound those, and a read of a closed connection fails.

  \<open>w_accepted\<close> and \<open>w_written\<close>, the identity of the caller a thread serves, and \<open>w_crashed\<close>, a failed
  assertion or a call on no connection, are not part of the source.
\<close>

section \<open>Backoff\<close>

text \<open>Nanoseconds. \<open>k\<close> is the random number: \<open>rand.Float64\<close> is a multiple of \<open>2 ^ -53\<close> below one.\<close>

definition writeDeadline :: int where
  "writeDeadline = 10 * 10 ^ 9"

definition livenessTimeout :: int where
  "livenessTimeout = 90 * 10 ^ 9"

definition backoff_delay :: "int \<Rightarrow> int" where
  "backoff_delay attempt =
     (let shift = min (max (attempt - 1) 0) 6 in min (500 * 10 ^ 6 * 2 ^ nat shift) (30 * 10 ^ 9))"

definition reconnectBackoff :: "int \<Rightarrow> int \<Rightarrow> int" where
  "reconnectBackoff k attempt = backoff_delay attempt * (8 * 2 ^ 53 + 4 * k) div (10 * 2 ^ 53)"

section \<open>State\<close>

type_synonym header = "(string, string list) gomap"

datatype ws_error =
    ClientTerminated
  | AlreadyConnected
  | NotConnected
  | DialFailed
  | MarshalFailed
  | CloseError
  | TimeoutError
  | ECONNRESET
  | ECONNREFUSED
  | ECONNABORTED
  | EPIPE
  | OtherError

datatype request =
    SetUrl string
  | GetUrl
  | SetHeader header
  | GetHeader
  | Connect
  | Disconnect
  | Terminate
  | WriteMessage int string
  | ReadMessage
  | ReadJSON
  | WriteRaw string

text \<open>The pair of channels a request goes through.\<close>

datatype api = ApiSetUrl | ApiGetUrl | ApiSetHeader | ApiConnect | ApiDisconnect | ApiTerminate | ApiWriteMessage | ApiReadMessage | ApiReadJson

text \<open>The channels of \<open>GetHeader\<close> are declared and never made: nothing is ever sent on them.\<close>

fun api_of :: "request \<Rightarrow> api option" where
  "api_of (SetUrl u) = Some ApiSetUrl"
| "api_of GetUrl = Some ApiGetUrl"
| "api_of (SetHeader h) = Some ApiSetHeader"
| "api_of GetHeader = None"
| "api_of Connect = Some ApiConnect"
| "api_of Disconnect = Some ApiDisconnect"
| "api_of Terminate = Some ApiTerminate"
| "api_of (WriteMessage t d) = Some ApiWriteMessage"
| "api_of ReadMessage = Some ApiReadMessage"
| "api_of ReadJSON = Some ApiReadJson"
| "api_of (WriteRaw d) = None"

datatype reply =
    Done "ws_error option"
  | UrlReply string "ws_error option"
  | HeaderReply header "ws_error option"
  | MessageReply int string "ws_error option"

datatype cause = ByTerminate | ByDisconnect

fun cause_request :: "cause \<Rightarrow> request" where
  "cause_request ByTerminate = Terminate"
| "cause_request ByDisconnect = Disconnect"

datatype stage = SendClose | AwaitClose | CloseConn | StopReader | StopWriter | AwaitReader | AwaitWriter

datatype runtime_pc =
    RtSelect
  | RtDial nat
  | RtSpawned nat
  | RtStop stage cause nat
  | RtReply request reply nat
  | RtCancel
  | RtEnd

datatype reader_pc =
    RdOff
  | RdStart
  | RdSelect
  | RdRead request nat
  | RdReply request reply "ws_error option" nat
  | RdHealth "ws_error option"
  | RdAck

datatype writer_pc =
    WrOff
  | WrSelect
  | WrReply request "ws_error option" nat
  | WrHealth "ws_error option" bool
  | WrClose
  | WrCloseReply "ws_error option"
  | WrAck

text \<open>Why a goroutine makes a call: a client of the API, or one of the calls of \<open>requestReconnect\<close>.\<close>

datatype role = Client | RcDisconnect bool | RcConnect | RcRetry int

datatype goroutine =
    GoOffer role request
  | GoAwait role request
  | GoResult role request reply
  | GoBegin
  | GoSwap
  | GoLoad
  | GoLoop int
  | GoSleep int int
  | GoStore
  | GoEnd

record ws_conn =
  cn_url :: string
  cn_header :: header
  cn_closed :: bool

record websocketClient =
  w_terminated :: bool
  w_enableReconnecting :: bool
  w_reconnectRequested :: bool
  w_lastActivity :: int
  w_hasReader :: bool
  w_ctxDone :: bool
  w_connection :: "ws_conn option"
  w_isRunning :: bool
  w_url :: string
  w_header :: header
  w_runtime :: runtime_pc
  w_reader :: reader_pc
  w_writer :: writer_pc
  w_writeQueue :: "string list"
  w_gs :: "nat \<Rightarrow> goroutine option"
  w_clock :: int
  w_accepted :: "string list"
  w_written :: "(string \<times> ws_error option) list"
  w_crashed :: bool

definition writeQueueSize :: nat where
  "writeQueueSize = 100"

definition NewWebsocketClient :: websocketClient where
  "NewWebsocketClient =
     \<lparr>w_terminated = False, w_enableReconnecting = False, w_reconnectRequested = False, w_lastActivity = 0, w_hasReader = False,
      w_ctxDone = False, w_connection = None, w_isRunning = False, w_url = [], w_header = [], w_runtime = RtSelect,
      w_reader = RdOff, w_writer = WrOff, w_writeQueue = [], w_gs = (\<lambda>_. None), w_clock = 0, w_accepted = [], w_written = [],
      w_crashed = False\<rparr>"

definition go :: "nat \<Rightarrow> goroutine \<Rightarrow> websocketClient \<Rightarrow> websocketClient" where
  "go i p s = s\<lparr>w_gs := (w_gs s)(i \<mapsto> p)\<rparr>"

section \<open>Callers\<close>

fun terminated_reply :: "request \<Rightarrow> reply" where
  "terminated_reply GetUrl = UrlReply [] (Some ClientTerminated)"
| "terminated_reply GetHeader = HeaderReply [] (Some ClientTerminated)"
| "terminated_reply ReadMessage = MessageReply 0 [] (Some ClientTerminated)"
| "terminated_reply r = Done (Some ClientTerminated)"

text \<open>\<open>WriteJSON\<close> encodes and queues; \<open>marshal\<close> is the encoder.\<close>

definition WriteJSON :: "('a \<Rightarrow> string option) \<Rightarrow> 'a \<Rightarrow> request + ws_error" where
  "WriteJSON marshal data = (case marshal data of None \<Rightarrow> Inr MarshalFailed | Some raw \<Rightarrow> Inl (WriteRaw raw))"

definition enqueue :: "string \<Rightarrow> websocketClient \<Rightarrow> websocketClient option" where
  "enqueue data s =
     (if length (w_writeQueue s) < writeQueueSize
      then Some (s\<lparr>w_writeQueue := w_writeQueue s @ [data], w_accepted := w_accepted s @ [data]\<rparr>) else None)"

section \<open>Runtime\<close>

text \<open>A request arrives at the select of \<open>startRuntime\<close>; \<open>j\<close> names the goroutine it may start.\<close>

fun runtime_take :: "nat \<Rightarrow> nat \<Rightarrow> request \<Rightarrow> websocketClient \<Rightarrow> websocketClient option" where
  "runtime_take j i Terminate s =
     (let s1 = s\<lparr>w_terminated := True, w_enableReconnecting := False\<rparr>
      in Some (if \<not> w_terminated s \<and> w_isRunning s then s1\<lparr>w_runtime := RtStop SendClose ByTerminate i\<rparr>
               else s1\<lparr>w_runtime := RtReply Terminate (Done None) i\<rparr>))"
| "runtime_take j i (SetUrl newUrl) s =
     (let s1 = s\<lparr>w_url := newUrl, w_runtime := RtReply (SetUrl newUrl) (Done None) i\<rparr>
      in Some (if w_isRunning s then go j GoBegin s1 else s1))"
| "runtime_take j i GetUrl s = Some (s\<lparr>w_runtime := RtReply GetUrl (UrlReply (w_url s) None) i\<rparr>)"
| "runtime_take j i (SetHeader newHeader) s =
     (let s1 = s\<lparr>w_header := newHeader, w_runtime := RtReply (SetHeader newHeader) (Done None) i\<rparr>
      in Some (if w_isRunning s then go j GoBegin s1 else s1))"
| "runtime_take j i Connect s =
     Some (if w_isRunning s then s\<lparr>w_runtime := RtReply Connect (Done (Some AlreadyConnected)) i\<rparr> else s\<lparr>w_runtime := RtDial i\<rparr>)"
| "runtime_take j i Disconnect s =
     Some (if \<not> w_isRunning s then s\<lparr>w_runtime := RtReply Disconnect (Done (Some NotConnected)) i\<rparr>
           else s\<lparr>w_runtime := RtStop SendClose ByDisconnect i\<rparr>)"
| "runtime_take j i r s = None"

definition dial_failed :: "nat \<Rightarrow> websocketClient \<Rightarrow> websocketClient" where
  "dial_failed i s = s\<lparr>w_runtime := RtReply Connect (Done (Some DialFailed)) i\<rparr>"

definition dialed :: "nat \<Rightarrow> websocketClient \<Rightarrow> websocketClient" where
  "dialed i s =
     s\<lparr>w_connection := Some \<lparr>cn_url = w_url s, cn_header = w_header s, cn_closed = False\<rparr>, w_lastActivity := w_clock s,
       w_reader := RdStart, w_writer := WrSelect, w_runtime := RtSpawned i\<rparr>"

definition connected :: "nat \<Rightarrow> websocketClient \<Rightarrow> websocketClient" where
  "connected i s = s\<lparr>w_enableReconnecting := True, w_isRunning := True, w_runtime := RtReply Connect (Done None) i\<rparr>"

text \<open>\<open>sendCloseMessage\<close>, the close of the connection and \<open>shutdownWorkerThreads\<close>; a stage that has to wait
  for another thread gives \<open>None\<close>.\<close>

fun sendCloseMessage :: "stage \<Rightarrow> websocketClient \<Rightarrow> websocketClient option" where
  "sendCloseMessage SendClose s = (if w_writer s = WrSelect then Some (s\<lparr>w_writer := WrClose\<rparr>) else None)"
| "sendCloseMessage AwaitClose s = (case w_writer s of WrCloseReply e \<Rightarrow> Some (s\<lparr>w_writer := WrSelect\<rparr>) | _ \<Rightarrow> None)"
| "sendCloseMessage st s = None"

fun shutdownWorkerThreads :: "stage \<Rightarrow> websocketClient \<Rightarrow> websocketClient option" where
  "shutdownWorkerThreads StopReader s = (if w_reader s = RdSelect then Some (s\<lparr>w_reader := RdAck\<rparr>) else None)"
| "shutdownWorkerThreads StopWriter s = (if w_writer s = WrSelect then Some (s\<lparr>w_writer := WrAck\<rparr>) else None)"
| "shutdownWorkerThreads AwaitReader s = (if w_reader s = RdAck then Some (s\<lparr>w_reader := RdOff\<rparr>) else None)"
| "shutdownWorkerThreads AwaitWriter s = (if w_writer s = WrAck then Some (s\<lparr>w_writer := WrOff\<rparr>) else None)"
| "shutdownWorkerThreads st s = None"

definition close_connection :: "websocketClient \<Rightarrow> websocketClient" where
  "close_connection s =
     (case w_connection s of None \<Rightarrow> s\<lparr>w_crashed := True\<rparr> | Some c \<Rightarrow> s\<lparr>w_connection := Some (c\<lparr>cn_closed := True\<rparr>)\<rparr>)"

fun next_stage :: "stage \<Rightarrow> stage option" where
  "next_stage SendClose = Some AwaitClose"
| "next_stage AwaitClose = Some CloseConn"
| "next_stage CloseConn = Some StopReader"
| "next_stage StopReader = Some StopWriter"
| "next_stage StopWriter = Some AwaitReader"
| "next_stage AwaitReader = Some AwaitWriter"
| "next_stage AwaitWriter = None"

definition stop_stage :: "stage \<Rightarrow> websocketClient \<Rightarrow> websocketClient option" where
  "stop_stage st s =
     (if st \<in> {SendClose, AwaitClose} then sendCloseMessage st s
      else if st = CloseConn then Some (close_connection s) else shutdownWorkerThreads st s)"

definition stopped :: "cause \<Rightarrow> nat \<Rightarrow> websocketClient \<Rightarrow> websocketClient" where
  "stopped why i s =
     (let s1 = s\<lparr>w_connection := None, w_runtime := RtReply (cause_request why) (Done None) i\<rparr>
      in if why = ByDisconnect then s1\<lparr>w_enableReconnecting := False, w_isRunning := False\<rparr> else s1)"

definition runtime_stop :: "stage \<Rightarrow> cause \<Rightarrow> nat \<Rightarrow> websocketClient \<Rightarrow> websocketClient option" where
  "runtime_stop st why i s =
     map_option (\<lambda>s1. case next_stage st of None \<Rightarrow> stopped why i s1 | Some st' \<Rightarrow> s1\<lparr>w_runtime := RtStop st' why i\<rparr>) (stop_stage st s)"

definition runtime_replied :: "request \<Rightarrow> websocketClient \<Rightarrow> websocketClient" where
  "runtime_replied r s = s\<lparr>w_runtime := (if r = Terminate then RtCancel else RtSelect)\<rparr>"

section \<open>Reader and writer\<close>

fun reconnect_error :: "ws_error \<Rightarrow> bool" where
  "reconnect_error CloseError = True"
| "reconnect_error TimeoutError = True"
| "reconnect_error ECONNRESET = True"
| "reconnect_error ECONNREFUSED = True"
| "reconnect_error ECONNABORTED = True"
| "reconnect_error EPIPE = True"
| "reconnect_error _ = False"

definition healthcheck :: "ws_error option \<Rightarrow> websocketClient \<Rightarrow> bool" where
  "healthcheck err s \<longleftrightarrow>
     (case err of None \<Rightarrow> False | Some e \<Rightarrow> \<not> w_terminated s \<and> \<not> w_ctxDone s \<and> reconnect_error e)"

definition on_connection :: "(websocketClient \<Rightarrow> websocketClient) \<Rightarrow> websocketClient \<Rightarrow> websocketClient" where
  "on_connection f s = (if w_connection s = None then s\<lparr>w_crashed := True\<rparr> else f s)"

definition reader_started :: "websocketClient \<Rightarrow> websocketClient" where
  "reader_started = on_connection (\<lambda>s. s\<lparr>w_reader := RdSelect\<rparr>)"

definition reader_take :: "nat \<Rightarrow> request \<Rightarrow> websocketClient \<Rightarrow> websocketClient" where
  "reader_take i r = on_connection (\<lambda>s. s\<lparr>w_hasReader := True, w_reader := RdRead r i\<rparr>)"

fun read_reply :: "request \<Rightarrow> int \<Rightarrow> string \<Rightarrow> ws_error option \<Rightarrow> reply" where
  "read_reply ReadMessage t p err = MessageReply t p err"
| "read_reply _ t p err = Done err"

definition reader_returned :: "request \<Rightarrow> nat \<Rightarrow> int \<Rightarrow> string \<Rightarrow> ws_error option \<Rightarrow> websocketClient \<Rightarrow> websocketClient" where
  "reader_returned r i t p err s =
     s\<lparr>w_lastActivity := (if err = None then w_clock s else w_lastActivity s), w_reader := RdReply r (read_reply r t p err) err i\<rparr>"

definition reader_checked :: "nat \<Rightarrow> ws_error option \<Rightarrow> websocketClient \<Rightarrow> websocketClient" where
  "reader_checked j err s = (let s1 = s\<lparr>w_reader := RdSelect\<rparr> in if healthcheck err s then go j GoBegin s1 else s1)"

text \<open>What the writer does for a ping, a queued frame, a message and a close message, each with the result of its write.\<close>

definition writer_ping :: "ws_error option \<Rightarrow> websocketClient \<Rightarrow> websocketClient" where
  "writer_ping err = on_connection (\<lambda>s. s\<lparr>w_writer := WrHealth err True\<rparr>)"

definition writer_dequeue :: "ws_error option \<Rightarrow> websocketClient \<Rightarrow> websocketClient" where
  "writer_dequeue err =
     on_connection (\<lambda>s. s\<lparr>w_writeQueue := tl (w_writeQueue s), w_written := w_written s @ [(hd (w_writeQueue s), err)],
                          w_writer := WrHealth err False\<rparr>)"

definition writer_take :: "nat \<Rightarrow> request \<Rightarrow> ws_error option \<Rightarrow> websocketClient \<Rightarrow> websocketClient" where
  "writer_take i r err = on_connection (\<lambda>s. s\<lparr>w_writer := WrReply r err i\<rparr>)"

definition writer_close :: "ws_error option \<Rightarrow> websocketClient \<Rightarrow> websocketClient" where
  "writer_close err = on_connection (\<lambda>s. s\<lparr>w_writer := WrCloseReply err\<rparr>)"

definition watchdog :: "websocketClient \<Rightarrow> bool" where
  "watchdog s \<longleftrightarrow> w_hasReader s \<and> w_clock s - w_lastActivity s > livenessTimeout"

definition writer_checked :: "nat \<Rightarrow> nat \<Rightarrow> ws_error option \<Rightarrow> bool \<Rightarrow> websocketClient \<Rightarrow> websocketClient" where
  "writer_checked j k err pinged s =
     (let s1 = s\<lparr>w_writer := WrSelect\<rparr>; s2 = (if healthcheck err s then go j GoBegin s1 else s1)
      in if pinged \<and> watchdog s then go k GoBegin s2 else s2)"

section \<open>Reconnecting\<close>

text \<open>The next state of a goroutine that runs \<open>requestReconnect\<close>; \<open>k\<close> is the random number of the backoff.
  \<open>None\<close> when it waits for a call, the clock, or is done.\<close>

fun requestReconnect :: "int \<Rightarrow> nat \<Rightarrow> goroutine \<Rightarrow> websocketClient \<Rightarrow> websocketClient option" where
  "requestReconnect k i GoBegin s = Some (go i (if w_ctxDone s then GoEnd else GoSwap) s)"
| "requestReconnect k i GoSwap s =
     Some (if w_reconnectRequested s then go i GoEnd s else go i GoLoad (s\<lparr>w_reconnectRequested := True\<rparr>))"
| "requestReconnect k i GoLoad s = Some (go i (GoOffer (RcDisconnect (w_enableReconnecting s)) Disconnect) s)"
| "requestReconnect k i (GoResult (RcDisconnect shouldReconnect) r err) s =
     Some (go i (if shouldReconnect then GoOffer RcConnect Connect else GoStore) s)"
| "requestReconnect k i (GoResult RcConnect r err) s = Some (go i (if err = Done None then GoStore else GoLoop 0) s)"
| "requestReconnect k i (GoLoop attempts) s =
     Some (go i (if w_terminated s then GoStore
                 else GoSleep (attempts + 1) (w_clock s + reconnectBackoff k (attempts + 1))) s)"
| "requestReconnect k i (GoSleep attempts until) s =
     (if until \<le> w_clock s then Some (go i (GoOffer (RcRetry attempts) Connect) s) else None)"
| "requestReconnect k i (GoResult (RcRetry attempts) r err) s =
     Some (go i (if err = Done None then GoStore else GoLoop attempts) s)"
| "requestReconnect k i GoStore s = Some (go i GoEnd (s\<lparr>w_reconnectRequested := False\<rparr>))"
| "requestReconnect k i _ s = None"

section \<open>Steps\<close>

text \<open>The label of a step is true when it needs the peer. A goroutine that waits for a reply on a channel
  may take whatever is sent there: nothing in the source ties a reply to its caller.\<close>

definition write_result :: "ws_error option \<Rightarrow> websocketClient \<Rightarrow> bool" where
  "write_result err s \<longleftrightarrow> (\<forall>c. w_connection s = Some c \<longrightarrow> cn_closed c \<longrightarrow> err \<noteq> None)"

definition read_closed :: "websocketClient \<Rightarrow> bool" where
  "read_closed s \<longleftrightarrow> (\<exists>c. w_connection s = Some c \<and> cn_closed c)"

abbreviation fresh :: "nat \<Rightarrow> websocketClient \<Rightarrow> bool" where
  "fresh i s \<equiv> w_gs s i = None"

inductive caller_step :: "bool \<Rightarrow> websocketClient \<Rightarrow> websocketClient \<Rightarrow> bool" where
  call: "fresh i s \<Longrightarrow> caller_step False s (go i (GoOffer Client r) s)"
| tick: "0 < d \<Longrightarrow> caller_step False s (s\<lparr>w_clock := w_clock s + d\<rparr>)"
| ctx_offer: "w_ctxDone s \<Longrightarrow> w_gs s i = Some (GoOffer ro r) \<Longrightarrow> caller_step False s (go i (GoResult ro r (terminated_reply r)) s)"
| ctx_await: "w_ctxDone s \<Longrightarrow> w_gs s i = Some (GoAwait ro r) \<Longrightarrow> caller_step False s (go i (GoResult ro r (terminated_reply r)) s)"
| write_raw: "w_gs s i = Some (GoOffer ro (WriteRaw data)) \<Longrightarrow> enqueue data s = Some s' \<Longrightarrow>
    caller_step False s (go i (GoResult ro (WriteRaw data) (Done None)) s')"
| reconnect: "w_gs s i = Some p \<Longrightarrow> 0 \<le> k \<Longrightarrow> k < 2 ^ 53 \<Longrightarrow> requestReconnect k i p s = Some s' \<Longrightarrow> caller_step False s s'"

inductive runtime_step :: "bool \<Rightarrow> websocketClient \<Rightarrow> websocketClient \<Rightarrow> bool" where
  rt_take: "w_runtime s = RtSelect \<Longrightarrow> w_gs s i = Some (GoOffer ro r) \<Longrightarrow> fresh j s \<Longrightarrow>
    runtime_take j i r (go i (GoAwait ro r) s) = Some s' \<Longrightarrow> runtime_step False s s'"
| rt_dial_failed: "w_runtime s = RtDial i \<Longrightarrow> runtime_step False s (dial_failed i s)"
| rt_dialed: "w_runtime s = RtDial i \<Longrightarrow> runtime_step True s (dialed i s)"
| rt_connected: "w_runtime s = RtSpawned i \<Longrightarrow> runtime_step False s (connected i s)"
| rt_stop: "w_runtime s = RtStop st why i \<Longrightarrow> runtime_stop st why i s = Some s' \<Longrightarrow> runtime_step False s s'"
| rt_reply: "w_runtime s = RtReply r rep g \<Longrightarrow> w_gs s i = Some (GoAwait ro r') \<Longrightarrow> api_of r' = api_of r \<Longrightarrow>
    runtime_step False s (runtime_replied r (go i (GoResult ro r' rep) s))"
| rt_cancel: "w_runtime s = RtCancel \<Longrightarrow> runtime_step False s (s\<lparr>w_ctxDone := True, w_runtime := RtEnd\<rparr>)"

inductive reader_step :: "bool \<Rightarrow> websocketClient \<Rightarrow> websocketClient \<Rightarrow> bool" where
  rd_start: "w_reader s = RdStart \<Longrightarrow> reader_step False s (reader_started s)"
| rd_take: "w_reader s = RdSelect \<Longrightarrow> w_gs s i = Some (GoOffer ro r) \<Longrightarrow> r \<in> {ReadMessage, ReadJSON} \<Longrightarrow>
    reader_step False s (reader_take i r (go i (GoAwait ro r) s))"
| rd_read: "w_reader s = RdRead r i \<Longrightarrow> \<not> read_closed s \<Longrightarrow> reader_step True s (reader_returned r i t p err s)"
| rd_closed: "w_reader s = RdRead r i \<Longrightarrow> read_closed s \<Longrightarrow> reader_step False s (reader_returned r i t p (Some e) s)"
| rd_pong: "w_reader s = RdRead r i \<Longrightarrow> \<not> read_closed s \<Longrightarrow> reader_step True s (s\<lparr>w_lastActivity := w_clock s\<rparr>)"
| rd_close_message: "w_reader s = RdRead r i \<Longrightarrow> \<not> read_closed s \<Longrightarrow> fresh j s \<Longrightarrow> reader_step True s (go j GoBegin s)"
| rd_reply: "w_reader s = RdReply r rep err g \<Longrightarrow> w_gs s i = Some (GoAwait ro r') \<Longrightarrow> api_of r' = api_of r \<Longrightarrow>
    reader_step False s ((go i (GoResult ro r' rep) s)\<lparr>w_reader := RdHealth err\<rparr>)"
| rd_health: "w_reader s = RdHealth err \<Longrightarrow> fresh j s \<Longrightarrow> reader_step False s (reader_checked j err s)"

inductive writer_step :: "bool \<Rightarrow> websocketClient \<Rightarrow> websocketClient \<Rightarrow> bool" where
  wr_ping: "w_writer s = WrSelect \<Longrightarrow> write_result err s \<Longrightarrow> writer_step False s (writer_ping err s)"
| wr_queue: "w_writer s = WrSelect \<Longrightarrow> w_writeQueue s \<noteq> [] \<Longrightarrow> write_result err s \<Longrightarrow> writer_step False s (writer_dequeue err s)"
| wr_take: "w_writer s = WrSelect \<Longrightarrow> w_gs s i = Some (GoOffer ro (WriteMessage t d)) \<Longrightarrow> write_result err s \<Longrightarrow>
    writer_step False s (writer_take i (WriteMessage t d) err (go i (GoAwait ro (WriteMessage t d)) s))"
| wr_reply: "w_writer s = WrReply r err g \<Longrightarrow> w_gs s i = Some (GoAwait ro r') \<Longrightarrow> api_of r' = api_of r \<Longrightarrow>
    writer_step False s ((go i (GoResult ro r' (Done err)) s)\<lparr>w_writer := WrHealth err False\<rparr>)"
| wr_health: "w_writer s = WrHealth err pinged \<Longrightarrow> fresh j s \<Longrightarrow> fresh k s \<Longrightarrow> writer_step False s (writer_checked j k err pinged s)"
| wr_close: "w_writer s = WrClose \<Longrightarrow> write_result err s \<Longrightarrow> writer_step False s (writer_close err s)"

definition ws_step :: "bool \<Rightarrow> websocketClient \<Rightarrow> websocketClient \<Rightarrow> bool" where
  "ws_step peer s s' \<longleftrightarrow> caller_step peer s s' \<or> runtime_step peer s s' \<or> reader_step peer s s' \<or> writer_step peer s s'"

inductive ws_reach :: "websocketClient \<Rightarrow> bool" where
  init: "ws_reach NewWebsocketClient"
| step: "ws_reach s \<Longrightarrow> ws_step peer s s' \<Longrightarrow> ws_reach s'"

section \<open>Threads and the connection\<close>

definition reader_on :: "websocketClient \<Rightarrow> bool" where
  "reader_on s \<longleftrightarrow> w_reader s \<noteq> RdOff \<and> w_reader s \<noteq> RdAck"

definition writer_on :: "websocketClient \<Rightarrow> bool" where
  "writer_on s \<longleftrightarrow> (case w_writer s of WrSelect \<Rightarrow> True | WrReply r e i \<Rightarrow> True | WrHealth e p \<Rightarrow> True | _ \<Rightarrow> False)"

definition workers_on :: "websocketClient \<Rightarrow> bool" where
  "workers_on s \<longleftrightarrow> reader_on s \<and> writer_on s \<and> w_connection s \<noteq> None \<and> \<not> read_closed s"

definition workers_off :: "websocketClient \<Rightarrow> bool" where
  "workers_off s \<longleftrightarrow> w_reader s = RdOff \<and> w_writer s = WrOff \<and> w_connection s = None"

fun stage_inv :: "stage \<Rightarrow> websocketClient \<Rightarrow> bool" where
  "stage_inv SendClose s \<longleftrightarrow> reader_on s \<and> writer_on s \<and> \<not> read_closed s"
| "stage_inv AwaitClose s \<longleftrightarrow> reader_on s \<and> \<not> read_closed s \<and> (w_writer s = WrClose \<or> (\<exists>e. w_writer s = WrCloseReply e))"
| "stage_inv CloseConn s \<longleftrightarrow> reader_on s \<and> writer_on s \<and> \<not> read_closed s"
| "stage_inv StopReader s \<longleftrightarrow> reader_on s \<and> writer_on s \<and> read_closed s"
| "stage_inv StopWriter s \<longleftrightarrow> w_reader s = RdAck \<and> writer_on s \<and> read_closed s"
| "stage_inv AwaitReader s \<longleftrightarrow> w_reader s = RdAck \<and> w_writer s = WrAck \<and> read_closed s"
| "stage_inv AwaitWriter s \<longleftrightarrow> w_reader s = RdOff \<and> w_writer s = WrAck \<and> read_closed s"

fun runtime_api :: "request \<Rightarrow> bool" where
  "runtime_api (WriteMessage t d) = False"
| "runtime_api ReadMessage = False"
| "runtime_api ReadJSON = False"
| "runtime_api r = (api_of r \<noteq> None)"

definition thread_inv :: "websocketClient \<Rightarrow> bool" where
  "thread_inv s \<longleftrightarrow>
     (case w_runtime s of
        RtSelect \<Rightarrow> (if w_isRunning s then workers_on s else workers_off s) \<and> \<not> w_terminated s
      | RtDial i \<Rightarrow> workers_off s \<and> \<not> w_isRunning s \<and> \<not> w_terminated s
      | RtSpawned i \<Rightarrow> workers_on s \<and> \<not> w_isRunning s \<and> \<not> w_terminated s
      | RtStop st why i \<Rightarrow> stage_inv st s \<and> w_connection s \<noteq> None \<and> w_isRunning s \<and> w_terminated s = (why = ByTerminate)
      | RtReply r rep i \<Rightarrow> runtime_api r \<and> w_terminated s = (r = Terminate)
          \<and> (if r \<noteq> Terminate \<and> w_isRunning s then workers_on s else workers_off s)
      | RtCancel \<Rightarrow> workers_off s \<and> w_terminated s
      | RtEnd \<Rightarrow> workers_off s \<and> w_terminated s)
     \<and> w_ctxDone s = (w_runtime s = RtEnd) \<and> \<not> w_crashed s
     \<and> (case w_reader s of RdRead r i \<Rightarrow> r \<in> {ReadMessage, ReadJSON} | RdReply r rep e i \<Rightarrow> r \<in> {ReadMessage, ReadJSON} | _ \<Rightarrow> True)
     \<and> (case w_writer s of WrReply r e i \<Rightarrow> api_of r = Some ApiWriteMessage | _ \<Rightarrow> True)"

lemmas step_defs = go_def dial_failed_def dialed_def connected_def runtime_replied_def on_connection_def reader_started_def
  reader_take_def reader_returned_def reader_checked_def writer_ping_def writer_dequeue_def writer_take_def writer_close_def
  writer_checked_def enqueue_def Let_def

lemmas thread_defs = thread_inv_def workers_on_def workers_off_def reader_on_def writer_on_def read_closed_def

text \<open>Goroutines change neither the threads nor the connection.\<close>

definition same_threads :: "websocketClient \<Rightarrow> websocketClient \<Rightarrow> bool" where
  "same_threads s s' \<longleftrightarrow> w_runtime s' = w_runtime s \<and> w_reader s' = w_reader s \<and> w_writer s' = w_writer s \<and> w_connection s' = w_connection s
     \<and> w_isRunning s' = w_isRunning s \<and> w_terminated s' = w_terminated s \<and> w_ctxDone s' = w_ctxDone s \<and> w_crashed s' = w_crashed s"

lemma stage_inv_same: "same_threads s s' \<Longrightarrow> stage_inv st s' = stage_inv st s"
  by (cases st) (simp_all add: same_threads_def thread_defs)

lemma thread_inv_same: "same_threads s s' \<Longrightarrow> thread_inv s' = thread_inv s"
  using stage_inv_same [of s s'] by (simp add: same_threads_def thread_defs split: runtime_pc.splits)

lemma same_threads_simps [simp]:
  "same_threads s (go i p s)" "same_threads s (go i p (s\<lparr>w_reconnectRequested := b\<rparr>))" "same_threads s (s\<lparr>w_clock := t\<rparr>)"
  "same_threads s (s\<lparr>w_lastActivity := t\<rparr>)"
  by (simp_all add: same_threads_def go_def)

lemma go_simps [simp]:
  "w_runtime (go i p s) = w_runtime s" "w_reader (go i p s) = w_reader s" "w_writer (go i p s) = w_writer s"
  "w_connection (go i p s) = w_connection s" "w_gs (go i p s) = (w_gs s)(i \<mapsto> p)" "w_writeQueue (go i p s) = w_writeQueue s"
  "w_accepted (go i p s) = w_accepted s" "w_written (go i p s) = w_written s" "w_reconnectRequested (go i p s) = w_reconnectRequested s"
  "w_ctxDone (go i p s) = w_ctxDone s" "w_terminated (go i p s) = w_terminated s" "w_isRunning (go i p s) = w_isRunning s"
  by (simp_all add: go_def)

lemma thread_inv_go [simp]:
  "thread_inv (go i p s) = thread_inv s" "thread_inv (s\<lparr>w_clock := t\<rparr>) = thread_inv s" "thread_inv (s\<lparr>w_lastActivity := t\<rparr>) = thread_inv s"
  by (simp_all add: thread_inv_same)

lemma requestReconnect_same: "requestReconnect k i p s = Some s' \<Longrightarrow> same_threads s s'"
  by (cases "(k, i, p, s)" rule: requestReconnect.cases) (auto split: if_splits)

lemma enqueue_same: "enqueue d s = Some s' \<Longrightarrow> same_threads s (go i p s')"
  by (auto simp: enqueue_def same_threads_def go_def split: if_splits)

lemma runtime_take_inv:
  assumes "thread_inv s" "w_runtime s = RtSelect" "runtime_take j i r s = Some s'"
  shows "thread_inv s'"
  using assms by (cases "(j, i, r, s)" rule: runtime_take.cases) (auto simp: thread_defs go_def Let_def split: if_splits)

lemma close_connection_inv:
  assumes "stage_inv CloseConn s" "w_connection s \<noteq> None"
  shows "stage_inv StopReader (close_connection s)" "w_connection (close_connection s) \<noteq> None"
  using assms by (auto simp: close_connection_def thread_defs split: option.splits)

lemma runtime_stop_iff:
  "runtime_stop SendClose why i s = Some s' \<longleftrightarrow> w_writer s = WrSelect \<and> s' = s\<lparr>w_writer := WrClose, w_runtime := RtStop AwaitClose why i\<rparr>"
  "runtime_stop AwaitClose why i s = Some s' \<longleftrightarrow>
     (\<exists>e. w_writer s = WrCloseReply e) \<and> s' = s\<lparr>w_writer := WrSelect, w_runtime := RtStop CloseConn why i\<rparr>"
  "runtime_stop CloseConn why i s = Some s' \<longleftrightarrow> s' = (close_connection s)\<lparr>w_runtime := RtStop StopReader why i\<rparr>"
  "runtime_stop StopReader why i s = Some s' \<longleftrightarrow> w_reader s = RdSelect \<and> s' = s\<lparr>w_reader := RdAck, w_runtime := RtStop StopWriter why i\<rparr>"
  "runtime_stop StopWriter why i s = Some s' \<longleftrightarrow> w_writer s = WrSelect \<and> s' = s\<lparr>w_writer := WrAck, w_runtime := RtStop AwaitReader why i\<rparr>"
  "runtime_stop AwaitReader why i s = Some s' \<longleftrightarrow> w_reader s = RdAck \<and> s' = s\<lparr>w_reader := RdOff, w_runtime := RtStop AwaitWriter why i\<rparr>"
  "runtime_stop AwaitWriter why i s = Some s' \<longleftrightarrow> w_writer s = WrAck \<and> s' = stopped why i (s\<lparr>w_writer := WrOff\<rparr>)"
  by (auto simp: runtime_stop_def stop_stage_def split: if_splits writer_pc.splits)

lemma runtime_stop_inv:
  assumes "thread_inv s" "w_runtime s = RtStop st why i" "runtime_stop st why i s = Some s'"
  shows "thread_inv s'"
proof (cases st)
  case CloseConn
  with assms close_connection_inv [of s] show ?thesis
    by (auto simp: runtime_stop_iff close_connection_def thread_defs)
next
  case AwaitWriter
  with assms show ?thesis by (cases why) (auto simp: runtime_stop_iff stopped_def thread_defs Let_def)
qed (use assms in \<open>auto simp: runtime_stop_iff thread_defs\<close>)

text \<open>A worker that is on has a connection, and may move between its states.\<close>

lemma stage_inv_connection: "stage_inv st s \<Longrightarrow> st \<notin> {SendClose, AwaitClose, CloseConn} \<Longrightarrow> read_closed s"
  by (cases st) simp_all

lemma worker_has_connection:
  assumes "thread_inv s" "w_reader s \<noteq> RdOff \<or> w_writer s \<noteq> WrOff"
  shows "w_connection s \<noteq> None"
  using assms by (auto simp: thread_inv_def workers_on_def workers_off_def split: runtime_pc.splits if_splits)

lemma reader_move:
  assumes "thread_inv s" "reader_on s" "rd \<notin> {RdOff, RdAck}"
    "\<And>r i. rd = RdRead r i \<Longrightarrow> r \<in> {ReadMessage, ReadJSON}" "\<And>r rep e i. rd = RdReply r rep e i \<Longrightarrow> r \<in> {ReadMessage, ReadJSON}"
  shows "thread_inv (s\<lparr>w_reader := rd\<rparr>)"
proof -
  have st: "stage_inv st (s\<lparr>w_reader := rd\<rparr>)" if "stage_inv st s" for st
    using that assms(2,3) by (cases st) (auto simp: reader_on_def writer_on_def read_closed_def)
  have on: "workers_on (s\<lparr>w_reader := rd\<rparr>) = workers_on s" "workers_off s = False"
    using assms(2,3) by (auto simp: workers_on_def workers_off_def reader_on_def writer_on_def read_closed_def)
  have ty: "case rd of RdRead r i \<Rightarrow> r \<in> {ReadMessage, ReadJSON} | RdReply r rep e i \<Rightarrow> r \<in> {ReadMessage, ReadJSON} | _ \<Rightarrow> True"
    using assms(4,5) by (cases rd) auto
  show ?thesis
    using assms(1) ty st unfolding thread_inv_def by (simp add: on split: runtime_pc.splits if_splits)
qed

lemma writer_move:
  assumes "thread_inv s" "writer_on s" "writer_on (s\<lparr>w_writer := wr\<rparr>)" "\<And>r e i. wr = WrReply r e i \<Longrightarrow> api_of r = Some ApiWriteMessage"
  shows "thread_inv (s\<lparr>w_writer := wr\<rparr>)"
proof -
  have st: "stage_inv st (s\<lparr>w_writer := wr\<rparr>)" if "stage_inv st s" for st
    using that assms(2,3) by (cases st) (auto simp: reader_on_def read_closed_def writer_on_def)
  have on: "workers_on (s\<lparr>w_writer := wr\<rparr>) = workers_on s" "workers_off s = False"
    using assms(2,3) by (auto simp: workers_on_def workers_off_def reader_on_def read_closed_def writer_on_def)
  have ty: "case wr of WrReply r e i \<Rightarrow> api_of r = Some ApiWriteMessage | _ \<Rightarrow> True"
    using assms(4) by (cases wr) auto
  show ?thesis
    using assms(1) ty st unfolding thread_inv_def by (simp add: on split: runtime_pc.splits if_splits)
qed

lemma reader_moved:
  assumes "thread_inv s" "reader_on s" "same_threads (s\<lparr>w_reader := rd\<rparr>) s'" "rd \<notin> {RdOff, RdAck}"
    "\<And>r i. rd = RdRead r i \<Longrightarrow> r \<in> {ReadMessage, ReadJSON}" "\<And>r rep e i. rd = RdReply r rep e i \<Longrightarrow> r \<in> {ReadMessage, ReadJSON}"
  shows "thread_inv s'"
  using reader_move [OF assms(1,2,4-6)] thread_inv_same [OF assms(3)] by simp

lemma writer_moved:
  assumes "thread_inv s" "writer_on s" "same_threads (s\<lparr>w_writer := wr\<rparr>) s'" "writer_on (s\<lparr>w_writer := wr\<rparr>)"
    "\<And>r e i. wr = WrReply r e i \<Longrightarrow> api_of r = Some ApiWriteMessage"
  shows "thread_inv s'"
  using writer_move [OF assms(1,2,4,5)] thread_inv_same [OF assms(3)] by simp

lemma reader_typed: "thread_inv s \<Longrightarrow> w_reader s = RdRead r i \<Longrightarrow> r \<in> {ReadMessage, ReadJSON}"
  by (simp add: thread_inv_def)

lemma closing_stage:
  assumes "thread_inv s" "w_writer s = WrClose"
  obtains why i where "w_runtime s = RtStop AwaitClose why i"
proof (cases "w_runtime s")
  case (RtStop st why i)
  then have "stage_inv st s" using assms(1) by (simp add: thread_inv_def)
  then have "st = AwaitClose" using assms(2) by (cases st) (simp_all add: writer_on_def)
  with RtStop that show ?thesis by simp
qed (use assms in \<open>simp_all add: thread_inv_def workers_on_def workers_off_def writer_on_def split: if_splits\<close>)

lemma close_move:
  assumes "thread_inv s" "w_writer s = WrClose"
  shows "thread_inv (s\<lparr>w_writer := WrCloseReply e\<rparr>)"
proof -
  obtain why i where "w_runtime s = RtStop AwaitClose why i" by (rule closing_stage [OF assms])
  with assms show ?thesis by (simp add: thread_inv_def reader_on_def read_closed_def)
qed

lemma caller_thread_inv:
  assumes "caller_step peer s s'" "thread_inv s"
  shows "thread_inv s'"
  using assms(1)
proof (cases rule: caller_step.cases)
  case (write_raw i ro data s1)
  with assms(2) enqueue_same thread_inv_same show ?thesis by blast
next
  case (reconnect i p k)
  with assms(2) requestReconnect_same thread_inv_same show ?thesis by blast
qed (use assms(2) in simp_all)

lemma runtime_thread_inv:
  assumes "runtime_step peer s s'" "thread_inv s"
  shows "thread_inv s'"
  using assms(1)
proof (cases rule: runtime_step.cases)
  case (rt_take i ro r j)
  with assms(2) show ?thesis by (intro runtime_take_inv [OF _ _ rt_take(5)]) simp_all
next
  case (rt_dial_failed i)
  with assms(2) show ?thesis by (auto simp: thread_defs dial_failed_def)
next
  case (rt_dialed i)
  with assms(2) show ?thesis by (auto simp: thread_defs dialed_def)
next
  case (rt_connected i)
  with assms(2) show ?thesis by (auto simp: thread_defs connected_def)
next
  case (rt_stop st why i)
  with assms(2) runtime_stop_inv show ?thesis by blast
next
  case (rt_reply r rep g i ro r')
  with assms(2) show ?thesis by (auto simp: thread_defs runtime_replied_def go_def split: if_splits)
next
  case rt_cancel
  with assms(2) show ?thesis by (auto simp: thread_defs)
qed

lemma reader_thread_inv:
  assumes "reader_step peer s s'" "thread_inv s"
  shows "thread_inv s'"
  using assms(1)
proof (cases rule: reader_step.cases)
  case rd_start
  with worker_has_connection [OF assms(2)] show ?thesis
    by (intro reader_moved [OF assms(2), of RdSelect]) (auto simp: step_defs reader_on_def same_threads_def)
next
  case (rd_take i ro r)
  with worker_has_connection [OF assms(2)] show ?thesis
    by (intro reader_moved [OF assms(2), of "RdRead r i"]) (simp_all add: reader_take_def on_connection_def reader_on_def same_threads_def go_def)
next
  case (rd_read r i t p err)
  with reader_typed [OF assms(2)] show ?thesis
    by (intro reader_moved [OF assms(2), of "RdReply r (read_reply r t p err) err i"]) (simp_all add: reader_returned_def reader_on_def same_threads_def)
next
  case (rd_closed r i t p e)
  with reader_typed [OF assms(2)] show ?thesis
    by (intro reader_moved [OF assms(2), of "RdReply r (read_reply r t p (Some e)) (Some e) i"])
      (simp_all add: reader_returned_def reader_on_def same_threads_def)
next
  case (rd_reply r rep err g i ro r')
  then show ?thesis by (intro reader_moved [OF assms(2), of "RdHealth err"]) (auto simp: step_defs reader_on_def same_threads_def)
next
  case (rd_health err j)
  then show ?thesis by (intro reader_moved [OF assms(2), of RdSelect]) (auto simp: step_defs reader_on_def same_threads_def)
qed (use assms(2) in simp_all)

lemma writer_thread_inv:
  assumes "writer_step peer s s'" "thread_inv s"
  shows "thread_inv s'"
  using assms(1)
proof (cases rule: writer_step.cases)
  case (wr_ping err)
  with worker_has_connection [OF assms(2)] show ?thesis
    by (intro writer_moved [OF assms(2), of "WrHealth err True"]) (auto simp: step_defs writer_on_def same_threads_def)
next
  case (wr_queue err)
  with worker_has_connection [OF assms(2)] show ?thesis
    by (intro writer_moved [OF assms(2), of "WrHealth err False"]) (auto simp: step_defs writer_on_def same_threads_def)
next
  case (wr_take i ro t d err)
  with worker_has_connection [OF assms(2)] show ?thesis
    by (intro writer_moved [OF assms(2), of "WrReply (WriteMessage t d) err i"])
      (auto simp: writer_take_def on_connection_def writer_on_def same_threads_def go_def)
next
  case (wr_reply r err g i ro r')
  then show ?thesis by (intro writer_moved [OF assms(2), of "WrHealth err False"]) (auto simp: step_defs writer_on_def same_threads_def)
next
  case (wr_health err pinged j k)
  then show ?thesis by (intro writer_moved [OF assms(2), of WrSelect]) (auto simp: step_defs writer_on_def same_threads_def)
next
  case (wr_close err)
  with worker_has_connection [OF assms(2)] close_move [OF assms(2)] show ?thesis by (auto simp: writer_close_def on_connection_def)
qed

lemma thread_inv_step: "ws_step peer s s' \<Longrightarrow> thread_inv s \<Longrightarrow> thread_inv s'"
  using caller_thread_inv runtime_thread_inv reader_thread_inv writer_thread_inv by (auto simp: ws_step_def)

lemma reach_thread_inv: "ws_reach s \<Longrightarrow> thread_inv s"
proof (induction rule: ws_reach.induct)
  case init
  then show ?case by (simp add: NewWebsocketClient_def thread_defs)
next
  case (step s peer s')
  then show ?case by (simp add: thread_inv_step)
qed

section \<open>Replies\<close>

definition awaits :: "websocketClient \<Rightarrow> nat \<Rightarrow> request \<Rightarrow> bool" where
  "awaits s i r \<longleftrightarrow> (\<exists>ro. w_gs s i = Some (GoAwait ro r))"

fun runtime_serves :: "runtime_pc \<Rightarrow> nat \<Rightarrow> request \<Rightarrow> bool" where
  "runtime_serves (RtDial g) i r \<longleftrightarrow> g = i \<and> r = Connect"
| "runtime_serves (RtSpawned g) i r \<longleftrightarrow> g = i \<and> r = Connect"
| "runtime_serves (RtStop st why g) i r \<longleftrightarrow> g = i \<and> r = cause_request why"
| "runtime_serves (RtReply q rep g) i r \<longleftrightarrow> g = i \<and> r = q"
| "runtime_serves _ i r \<longleftrightarrow> False"

fun reader_serves :: "reader_pc \<Rightarrow> nat \<Rightarrow> request \<Rightarrow> bool" where
  "reader_serves (RdRead q g) i r \<longleftrightarrow> g = i \<and> r = q"
| "reader_serves (RdReply q rep e g) i r \<longleftrightarrow> g = i \<and> r = q"
| "reader_serves _ i r \<longleftrightarrow> False"

fun writer_serves :: "writer_pc \<Rightarrow> nat \<Rightarrow> request \<Rightarrow> bool" where
  "writer_serves (WrReply q e g) i r \<longleftrightarrow> g = i \<and> r = q"
| "writer_serves _ i r \<longleftrightarrow> False"

definition serves :: "websocketClient \<Rightarrow> nat \<Rightarrow> request \<Rightarrow> bool" where
  "serves s i r \<longleftrightarrow> runtime_serves (w_runtime s) i r \<or> reader_serves (w_reader s) i r \<or> writer_serves (w_writer s) i r"

text \<open>A goroutine waits for a reply exactly when a thread serves its request.\<close>

definition match_inv :: "websocketClient \<Rightarrow> bool" where
  "match_inv s \<longleftrightarrow> (\<forall>i r. awaits s i r = serves s i r)"

lemma awaits_go: "awaits (go i p s) j r \<longleftrightarrow> (if j = i then \<exists>ro. p = GoAwait ro r else awaits s j r)"
  by (auto simp: awaits_def)

lemma cause_api: "runtime_api (cause_request why)"
  by (cases why) simp_all

lemma runtime_serves_api: "thread_inv s \<Longrightarrow> runtime_serves (w_runtime s) i r \<Longrightarrow> runtime_api r"
  by (cases "w_runtime s") (auto simp: thread_inv_def cause_api)

lemma reader_serves_api: "thread_inv s \<Longrightarrow> reader_serves (w_reader s) i r \<Longrightarrow> r \<in> {ReadMessage, ReadJSON}"
  by (cases "w_reader s") (auto simp: thread_inv_def)

lemma writer_serves_api: "thread_inv s \<Longrightarrow> writer_serves (w_writer s) i r \<Longrightarrow> api_of r = Some ApiWriteMessage"
  by (cases "w_writer s") (auto simp: thread_inv_def)

lemma runtime_serves_unique: "runtime_serves p i r \<Longrightarrow> runtime_serves p j r' \<Longrightarrow> i = j \<and> r = r'"
  by (cases p) auto

lemma reader_serves_unique: "reader_serves p i r \<Longrightarrow> reader_serves p j r' \<Longrightarrow> i = j \<and> r = r'"
  by (cases p) auto

lemma writer_serves_unique: "writer_serves p i r \<Longrightarrow> writer_serves p j r' \<Longrightarrow> i = j \<and> r = r'"
  by (cases p) auto

fun server :: "api option \<Rightarrow> nat" where
  "server (Some ApiReadMessage) = 1"
| "server (Some ApiReadJson) = 1"
| "server (Some ApiWriteMessage) = 2"
| "server _ = 0"

lemma serves_cases:
  assumes "thread_inv s" "serves s i r"
  shows "server (api_of r) = 0 \<and> runtime_serves (w_runtime s) i r \<or> server (api_of r) = 1 \<and> reader_serves (w_reader s) i r
    \<or> server (api_of r) = 2 \<and> writer_serves (w_writer s) i r"
proof -
  have "server (api_of r) = 0" if "runtime_api r" using that by (cases r) simp_all
  with assms(2) runtime_serves_api [OF assms(1), of i r] reader_serves_api [OF assms(1), of i r] writer_serves_api [OF assms(1), of i r]
  show ?thesis unfolding serves_def by (elim disjE) (simp, force, simp)
qed

text \<open>No two callers are served on one pair of channels, so a reply has only one taker.\<close>

lemma serves_unique:
  assumes "thread_inv s" "serves s i r" "serves s j r'" "api_of r = api_of r'"
  shows "i = j \<and> r = r'"
  using serves_cases [OF assms(1,2)] serves_cases [OF assms(1,3)] assms(4)
  by (elim disjE conjE) (simp_all add: runtime_serves_unique reader_serves_unique writer_serves_unique)

lemma ctx_serves_none: "thread_inv s \<Longrightarrow> w_ctxDone s \<Longrightarrow> \<not> serves s i r"
  by (auto simp: thread_inv_def serves_def workers_off_def)

lemma serves_same: "same_threads s s' \<Longrightarrow> serves s' = serves s"
  by (simp add: fun_eq_iff serves_def same_threads_def)

lemma match_go:
  assumes "match_inv s" "same_threads s s'" "w_gs s' = (w_gs s)(i \<mapsto> p)" "\<And>r. \<not> awaits s i r" "\<And>ro r. p \<noteq> GoAwait ro r"
  shows "match_inv s'"
proof -
  have "awaits s' j r = awaits s j r" for j r using assms(3-5) by (auto simp: awaits_def)
  with assms(1) serves_same [OF assms(2)] show ?thesis by (simp add: match_inv_def)
qed

text \<open>At most new goroutines that reconnect.\<close>

definition only_spawns :: "(nat \<Rightarrow> goroutine option) \<Rightarrow> (nat \<Rightarrow> goroutine option) \<Rightarrow> bool" where
  "only_spawns g g' \<longleftrightarrow> (\<forall>i. g' i = g i \<or> g i = None \<and> g' i = Some GoBegin)"

lemma only_spawns_simps [simp]: "only_spawns g g" "g j = None \<Longrightarrow> only_spawns g (g(j \<mapsto> GoBegin))"
  "g j = None \<Longrightarrow> g k = None \<Longrightarrow> only_spawns g (g(j \<mapsto> GoBegin, k \<mapsto> GoBegin))"
  by (simp_all add: only_spawns_def)

lemma only_spawnsD: "only_spawns g g' \<Longrightarrow> g i = Some p \<Longrightarrow> g' i = Some p"
  by (metis only_spawns_def option.distinct(1))

lemma match_same:
  assumes "match_inv s" "only_spawns (w_gs s) (w_gs s')" "serves s' = serves s"
  shows "match_inv s'"
proof -
  have "awaits s' i r = awaits s i r" for i r using assms(2) [unfolded only_spawns_def, rule_format, of i] by (elim disjE) (simp_all add: awaits_def)
  with assms(1,3) show ?thesis by (simp add: match_inv_def)
qed

lemma requestReconnect_gs:
  assumes "requestReconnect k i p s = Some s'"
  shows "\<exists>q. w_gs s' = (w_gs s)(i \<mapsto> q) \<and> (\<forall>ro r. p \<noteq> GoAwait ro r \<and> q \<noteq> GoAwait ro r)"
  using assms by (cases "(k, i, p, s)" rule: requestReconnect.cases) (auto simp: go_def split: if_splits)

lemma caller_match_inv:
  assumes "caller_step peer s s'" "thread_inv s" "match_inv s"
  shows "match_inv s'"
  using assms(1)
proof (cases rule: caller_step.cases)
  case (ctx_await i ro r)
  then have "serves s i r" using assms(3) by (auto simp: match_inv_def awaits_def)
  with ctx_serves_none [OF assms(2)] ctx_await show ?thesis by blast
next
  case (write_raw i ro data s1)
  then show ?thesis
    by (intro match_go [OF assms(3) _ _ , of s' i "GoResult ro (WriteRaw data) (Done None)"])
      (auto simp: awaits_def enqueue_def same_threads_def go_def split: if_splits)
next
  case (reconnect i p k)
  obtain q where "w_gs s' = (w_gs s)(i \<mapsto> q)" "\<forall>ro r. p \<noteq> GoAwait ro r \<and> q \<noteq> GoAwait ro r"
    using requestReconnect_gs [OF reconnect(5)] by blast
  with reconnect show ?thesis by (intro match_go [OF assms(3) requestReconnect_same [OF reconnect(5)]]) (auto simp: awaits_def)
next
  case (tick d)
  then show ?thesis by (intro match_same [OF assms(3)]) (auto simp: serves_def fun_eq_iff)
next
  case (call i r)
  then show ?thesis by (intro match_go [OF assms(3), of _ i "GoOffer Client r"]) (auto simp: awaits_def)
next
  case (ctx_offer i ro r)
  then show ?thesis by (intro match_go [OF assms(3), of _ i "GoResult ro r (terminated_reply r)"]) (auto simp: awaits_def)
qed

text \<open>A reply: it goes to the goroutine whose request is served, which no other thread serves.\<close>

lemma reply_taker:
  assumes "thread_inv s" "match_inv s" "serves s g r" "w_gs s i = Some (GoAwait ro r')" "api_of r' = api_of r"
  shows "i = g \<and> r' = r"
proof -
  have "serves s i r'" using assms(2,4) by (auto simp: match_inv_def awaits_def)
  from serves_unique [OF assms(1) this assms(3,5)] show ?thesis .
qed

lemma reply_match:
  assumes "match_inv s" "serves s i r" "\<And>k q. serves s' k q \<longleftrightarrow> serves s k q \<and> \<not> (k = i \<and> q = r)"
    "w_gs s' = (w_gs s)(i \<mapsto> GoResult ro r rep)"
  shows "match_inv s'"
proof -
  have "awaits s i r" using assms(1,2) by (simp add: match_inv_def)
  then have "awaits s' k q \<longleftrightarrow> awaits s k q \<and> \<not> (k = i \<and> q = r)" for k q using assms(4) by (auto simp: awaits_def)
  with assms(1,3) show ?thesis by (simp add: match_inv_def)
qed

lemma take_match:
  assumes "match_inv s" "w_gs s i = Some (GoOffer ro r)" "\<And>k q. serves s' k q \<longleftrightarrow> serves s k q \<or> (k = i \<and> q = r)"
    "w_gs s' = (w_gs s)(i \<mapsto> GoAwait ro r)"
  shows "match_inv s'"
proof -
  have "awaits s' k q \<longleftrightarrow> awaits s k q \<or> (k = i \<and> q = r)" for k q using assms(2,4) by (auto simp: awaits_def)
  with assms(1,3) show ?thesis by (simp add: match_inv_def)
qed

lemma served_once:
  assumes "thread_inv s"
  shows "runtime_serves (w_runtime s) g r \<Longrightarrow> \<not> reader_serves (w_reader s) k r \<and> \<not> writer_serves (w_writer s) k r"
    "reader_serves (w_reader s) g r \<Longrightarrow> \<not> writer_serves (w_writer s) k r"
proof -
  show "\<not> reader_serves (w_reader s) k r \<and> \<not> writer_serves (w_writer s) k r" if "runtime_serves (w_runtime s) g r"
    using runtime_serves_api [OF assms that] reader_serves_api [OF assms, of k r] writer_serves_api [OF assms, of k r] by (cases r) auto
  show "\<not> writer_serves (w_writer s) k r" if "reader_serves (w_reader s) g r"
    using reader_serves_api [OF assms that] writer_serves_api [OF assms, of k r] by auto
qed

lemma runtime_take_effect:
  assumes "runtime_take j i r s = Some s'"
  shows "runtime_serves (w_runtime s') k q \<longleftrightarrow> k = i \<and> q = r" "w_reader s' = w_reader s" "w_writer s' = w_writer s"
    "fresh j s \<Longrightarrow> only_spawns (w_gs s) (w_gs s')"
  using assms by (cases "(j, i, r, s)" rule: runtime_take.cases; auto simp: go_def Let_def split: if_splits)+

lemma runtime_stop_effect:
  assumes "runtime_stop st why i s = Some s'" "w_runtime s = RtStop st why i" "thread_inv s"
  shows "serves s' = serves s" "w_gs s' = w_gs s"
  using assms by (cases st; auto simp: runtime_stop_iff serves_def fun_eq_iff stopped_def close_connection_def Let_def thread_inv_def split: option.splits if_splits)+

lemma runtime_match_inv:
  assumes "runtime_step peer s s'" "thread_inv s" "match_inv s"
  shows "match_inv s'"
  using assms(1)
proof (cases rule: runtime_step.cases)
  case (rt_take i ro r j)
  note e = runtime_take_effect [OF rt_take(5)]
  let ?s = "s'\<lparr>w_gs := (w_gs s)(i \<mapsto> GoAwait ro r)\<rparr>"
  have "match_inv ?s"
    using rt_take(2) e(1-3) by (intro take_match [OF assms(3) rt_take(3)]) (auto simp: serves_def)
  moreover have "serves s' = serves ?s" by (simp add: serves_def fun_eq_iff)
  moreover have "only_spawns (w_gs ?s) (w_gs s')" using e(4) rt_take(3,4) by (cases "i = j") simp_all
  ultimately show ?thesis using match_same by blast
next
  case (rt_stop st why i)
  then show ?thesis by (intro match_same [OF assms(3)]) (simp_all add: runtime_stop_effect [OF _ _ assms(2)])
next
  case (rt_reply r rep g i ro r')
  have g: "serves s g r" using rt_reply(3) by (simp add: serves_def)
  have i: "i = g" "r' = r" using reply_taker [OF assms(2,3) g rt_reply(4,5)] by simp_all
  show ?thesis
    using rt_reply(2,3) served_once(1) [OF assms(2), of g r] i
    by (intro reply_match [OF assms(3) g]) (auto simp: serves_def runtime_replied_def)
qed (rule match_same [OF assms(3)]; auto simp: serves_def fun_eq_iff dial_failed_def dialed_def connected_def; use assms(2) in \<open>simp add: thread_inv_def workers_off_def\<close>)+

lemma reader_match_inv:
  assumes "reader_step peer s s'" "thread_inv s" "match_inv s"
  shows "match_inv s'"
  using assms(1)
proof (cases rule: reader_step.cases)
  case (rd_take i ro r)
  with worker_has_connection [OF assms(2)] show ?thesis
    by (intro take_match [OF assms(3) rd_take(4)]) (auto simp: serves_def reader_take_def on_connection_def)
next
  case (rd_reply r rep err g i ro r')
  have g: "serves s g r" using rd_reply(3) by (simp add: serves_def)
  have i: "i = g" "r' = r" using reply_taker [OF assms(2,3) g rd_reply(4,5)] by simp_all
  show ?thesis
    using rd_reply(2,3) served_once [OF assms(2), of g r] served_once(1) [OF assms(2)] i
    by (intro reply_match [OF assms(3) g]) (auto simp: serves_def)
qed (rule match_same [OF assms(3)];
     auto simp: serves_def fun_eq_iff reader_started_def reader_returned_def reader_checked_def on_connection_def Let_def)+

lemma writer_match_inv:
  assumes "writer_step peer s s'" "thread_inv s" "match_inv s"
  shows "match_inv s'"
  using assms(1)
proof (cases rule: writer_step.cases)
  case (wr_take i ro t d err)
  with worker_has_connection [OF assms(2)] show ?thesis
    by (intro take_match [OF assms(3) wr_take(4)]) (auto simp: serves_def writer_take_def on_connection_def)
next
  case (wr_reply r err g i ro r')
  have g: "serves s g r" using wr_reply(3) by (simp add: serves_def)
  have i: "i = g" "r' = r" using reply_taker [OF assms(2,3) g wr_reply(4,5)] by simp_all
  show ?thesis
    using wr_reply(2,3) served_once(1) [OF assms(2), of g r g] served_once(2) [OF assms(2), of g r g] i
    by (intro reply_match [OF assms(3) g]) (auto simp: serves_def)
qed (rule match_same [OF assms(3)];
     auto simp: serves_def fun_eq_iff writer_ping_def writer_dequeue_def writer_close_def writer_checked_def on_connection_def Let_def)+

lemma reach_match_inv: "ws_reach s \<Longrightarrow> match_inv s"
proof (induction rule: ws_reach.induct)
  case init
  then show ?case by (simp add: NewWebsocketClient_def match_inv_def awaits_def serves_def)
next
  case (step s peer s')
  from reach_thread_inv [OF step(1)] step show ?case
    using caller_match_inv runtime_match_inv reader_match_inv writer_match_inv by (auto simp: ws_step_def)
qed

section \<open>One reconnect at a time\<close>

fun critical :: "goroutine \<Rightarrow> bool" where
  "critical (GoOffer ro r) \<longleftrightarrow> ro \<noteq> Client"
| "critical (GoAwait ro r) \<longleftrightarrow> ro \<noteq> Client"
| "critical (GoResult ro r rep) \<longleftrightarrow> ro \<noteq> Client"
| "critical GoBegin \<longleftrightarrow> False"
| "critical GoSwap \<longleftrightarrow> False"
| "critical GoEnd \<longleftrightarrow> False"
| "critical _ \<longleftrightarrow> True"

definition reconnecting :: "websocketClient \<Rightarrow> nat \<Rightarrow> bool" where
  "reconnecting s i \<longleftrightarrow> (\<exists>p. w_gs s i = Some p \<and> critical p)"

definition reconnect_inv :: "websocketClient \<Rightarrow> bool" where
  "reconnect_inv s \<longleftrightarrow> w_reconnectRequested s = (\<exists>i. reconnecting s i) \<and> (\<forall>i j. reconnecting s i \<longrightarrow> reconnecting s j \<longrightarrow> i = j)"

lemma reconnect_same:
  assumes "reconnect_inv s" "w_reconnectRequested s' = w_reconnectRequested s" "\<And>i. reconnecting s' i = reconnecting s i"
  shows "reconnect_inv s'"
  using assms by (simp add: reconnect_inv_def)

lemma reconnect_spawns: "only_spawns (w_gs s) (w_gs s') \<Longrightarrow> reconnecting s' i = reconnecting s i"
  unfolding only_spawns_def reconnecting_def by (metis critical.simps(4) option.distinct(1) option.inject)

lemma reconnect_go: "w_gs s i = Some p \<Longrightarrow> critical q = critical p \<Longrightarrow> w_gs s' = (w_gs s)(i \<mapsto> q) \<Longrightarrow> reconnecting s' j = reconnecting s j"
  by (auto simp: reconnecting_def)

lemma swap_inv:
  assumes "reconnect_inv s" "w_gs s i = Some GoSwap"
  shows "reconnect_inv (if w_reconnectRequested s then go i GoEnd s else go i GoLoad (s\<lparr>w_reconnectRequested := True\<rparr>))"
proof (cases "w_reconnectRequested s")
  case True
  then show ?thesis by (simp, intro reconnect_same [OF assms(1)] reconnect_go [OF assms(2)]) auto
next
  case False
  then have "\<not> reconnecting s j" for j using assms(1) by (simp add: reconnect_inv_def)
  then have "reconnecting (go i GoLoad (s\<lparr>w_reconnectRequested := True\<rparr>)) j \<longleftrightarrow> j = i" for j
    by (auto simp: reconnecting_def)
  with False show ?thesis by (simp add: reconnect_inv_def)
qed

lemma store_inv:
  assumes "reconnect_inv s" "w_gs s i = Some GoStore"
  shows "reconnect_inv (go i GoEnd (s\<lparr>w_reconnectRequested := False\<rparr>))"
proof -
  have "reconnecting s j \<longleftrightarrow> j = i" for j using assms by (auto simp: reconnect_inv_def reconnecting_def)
  then have "\<not> reconnecting (go i GoEnd (s\<lparr>w_reconnectRequested := False\<rparr>)) j" for j by (auto simp: reconnecting_def)
  then show ?thesis by (simp add: reconnect_inv_def)
qed

lemma requestReconnect_inv:
  assumes "requestReconnect k i p s = Some s'" "w_gs s i = Some p" "reconnect_inv s"
  shows "reconnect_inv s'"
proof (cases "p = GoSwap \<or> p = GoStore")
  case True
  with assms swap_inv [OF assms(3)] store_inv [OF assms(3)] show ?thesis by auto
next
  case False
  then obtain q where "w_gs s' = (w_gs s)(i \<mapsto> q)" "critical q = critical p" "w_reconnectRequested s' = w_reconnectRequested s"
    using assms(1) by (cases "(k, i, p, s)" rule: requestReconnect.cases) (auto simp: go_def split: if_splits)
  then show ?thesis using reconnect_same [OF assms(3)] reconnect_go [OF assms(2)] by blast
qed

lemma caller_reconnect_inv:
  assumes "caller_step peer s s'" "reconnect_inv s"
  shows "reconnect_inv s'"
  using assms(1)
proof (cases rule: caller_step.cases)
  case (reconnect i p k)
  from requestReconnect_inv [OF reconnect(5,2) assms(2)] show ?thesis .
next
  case (write_raw i ro data s1)
  then show ?thesis
    by (intro reconnect_same [OF assms(2)] reconnect_go [OF write_raw(3)]) (auto simp: enqueue_def split: if_splits)
next
  case (ctx_offer i ro r)
  then show ?thesis by (intro reconnect_same [OF assms(2)] reconnect_go [OF ctx_offer(4)]) auto
next
  case (ctx_await i ro r)
  then show ?thesis by (intro reconnect_same [OF assms(2)] reconnect_go [OF ctx_await(4)]) auto
next
  case (call i r)
  then show ?thesis by (intro reconnect_same [OF assms(2)]) (auto simp: reconnecting_def)
next
  case (tick d)
  then show ?thesis by (intro reconnect_same [OF assms(2)]) (auto simp: reconnecting_def)
qed

lemma runtime_stop_keeps: "runtime_stop st why i s = Some s' \<Longrightarrow> w_gs s' = w_gs s \<and> w_reconnectRequested s' = w_reconnectRequested s
    \<and> w_writeQueue s' = w_writeQueue s \<and> w_accepted s' = w_accepted s \<and> w_written s' = w_written s"
  by (cases st; auto simp: runtime_stop_iff stopped_def close_connection_def Let_def split: option.splits)

lemma runtime_take_keeps:
  "runtime_take j i r s = Some s' \<Longrightarrow> w_reconnectRequested s' = w_reconnectRequested s
    \<and> w_writeQueue s' = w_writeQueue s \<and> w_accepted s' = w_accepted s \<and> w_written s' = w_written s"
  by (cases "(j, i, r, s)" rule: runtime_take.cases; auto simp: Let_def split: if_splits)

lemma runtime_reconnect_inv:
  assumes "runtime_step peer s s'" "reconnect_inv s"
  shows "reconnect_inv s'"
  using assms(1)
proof (cases rule: runtime_step.cases)
  case (rt_take i ro r j)
  have "reconnect_inv (go i (GoAwait ro r) s)"
    by (intro reconnect_same [OF assms(2)] reconnect_go [OF rt_take(3)]) auto
  moreover have "only_spawns (w_gs (go i (GoAwait ro r) s)) (w_gs s')"
    using runtime_take_effect(4) [OF rt_take(5)] rt_take(3,4) by (cases "j = i") simp_all
  ultimately show ?thesis using runtime_take_keeps [OF rt_take(5)] reconnect_spawns by (elim reconnect_same) simp_all
next
  case (rt_stop st why i)
  with runtime_stop_keeps [OF rt_stop(3)] assms(2) show ?thesis by (simp add: reconnect_inv_def reconnecting_def)
next
  case (rt_reply r rep g i ro r')
  then show ?thesis by (intro reconnect_same [OF assms(2)] reconnect_go [OF rt_reply(4)]) (auto simp: runtime_replied_def)
qed (use assms(2) in \<open>auto simp: reconnect_inv_def reconnecting_def dial_failed_def dialed_def connected_def\<close>)

lemma reader_reconnect_inv:
  assumes "reader_step peer s s'" "reconnect_inv s"
  shows "reconnect_inv s'"
  using assms(1)
proof (cases rule: reader_step.cases)
  case (rd_take i ro r)
  then show ?thesis by (intro reconnect_same [OF assms(2)] reconnect_go [OF rd_take(4), of "GoAwait ro r"]) (auto simp: reader_take_def on_connection_def)
next
  case (rd_reply r rep err g i ro r')
  then show ?thesis by (intro reconnect_same [OF assms(2)] reconnect_go [OF rd_reply(4)]) auto
qed (intro reconnect_same [OF assms(2)] reconnect_spawns;
     auto simp: reader_started_def reader_returned_def reader_checked_def on_connection_def Let_def)+

lemma writer_reconnect_inv:
  assumes "writer_step peer s s'" "reconnect_inv s"
  shows "reconnect_inv s'"
  using assms(1)
proof (cases rule: writer_step.cases)
  case (wr_take i ro t d err)
  then show ?thesis by (intro reconnect_same [OF assms(2)] reconnect_go [OF wr_take(4)]) (auto simp: writer_take_def on_connection_def)
next
  case (wr_reply r err g i ro r')
  then show ?thesis by (intro reconnect_same [OF assms(2)] reconnect_go [OF wr_reply(4)]) auto
qed (intro reconnect_same [OF assms(2)] reconnect_spawns;
     auto simp: writer_ping_def writer_dequeue_def writer_close_def writer_checked_def on_connection_def Let_def)+

lemma reach_reconnect_inv: "ws_reach s \<Longrightarrow> reconnect_inv s"
proof (induction rule: ws_reach.induct)
  case init
  then show ?case by (simp add: NewWebsocketClient_def reconnect_inv_def reconnecting_def)
next
  case (step s peer s')
  then show ?case
    using caller_reconnect_inv runtime_reconnect_inv reader_reconnect_inv writer_reconnect_inv by (auto simp: ws_step_def)
qed

section \<open>Queued frames\<close>

definition queue_inv :: "websocketClient \<Rightarrow> bool" where
  "queue_inv s \<longleftrightarrow> w_accepted s = map fst (w_written s) @ w_writeQueue s \<and> length (w_writeQueue s) \<le> writeQueueSize \<and> finite (dom (w_gs s))"

lemma queue_same:
  assumes "queue_inv s" "w_writeQueue s' = w_writeQueue s" "w_accepted s' = w_accepted s" "w_written s' = w_written s"
    "dom (w_gs s') \<subseteq> dom (w_gs s) \<union> {i, j}"
  shows "queue_inv s'"
proof -
  have "finite (dom (w_gs s) \<union> {i, j})" using assms(1) by (simp add: queue_inv_def)
  with assms(5) have "finite (dom (w_gs s'))" by (rule finite_subset)
  with assms show ?thesis by (simp add: queue_inv_def)
qed

lemma requestReconnect_keeps:
  "requestReconnect k i p s = Some s' \<Longrightarrow> w_writeQueue s' = w_writeQueue s \<and> w_accepted s' = w_accepted s \<and> w_written s' = w_written s
    \<and> dom (w_gs s') \<subseteq> dom (w_gs s) \<union> {i}"
  by (cases "(k, i, p, s)" rule: requestReconnect.cases) (auto simp: go_def split: if_splits)

lemma enqueue_inv: "queue_inv s \<Longrightarrow> enqueue d s = Some s' \<Longrightarrow> queue_inv s'"
  by (auto simp: queue_inv_def enqueue_def split: if_splits)

lemma caller_queue_inv:
  assumes "caller_step peer s s'" "queue_inv s"
  shows "queue_inv s'"
  using assms(1)
proof (cases rule: caller_step.cases)
  case (write_raw i ro data s1)
  from enqueue_inv [OF assms(2) write_raw(4)] show ?thesis
    by (rule queue_same [where i = i and j = i]) (auto simp: write_raw(2))
next
  case (reconnect i p k)
  from requestReconnect_keeps [OF reconnect(5)] show ?thesis by (intro queue_same [OF assms(2), of _ i i]) auto
qed (use assms(2) in \<open>auto simp: queue_inv_def\<close>)

lemma runtime_queue_inv:
  assumes "runtime_step peer s s'" "queue_inv s"
  shows "queue_inv s'"
  using assms(1)
proof (cases rule: runtime_step.cases)
  case (rt_take i ro r j)
  have "dom (w_gs s') \<subseteq> dom (w_gs s) \<union> {i, j}"
    using rt_take(5) by (cases "(j, i, r, s)" rule: runtime_take.cases) (auto simp: Let_def split: if_splits)
  with runtime_take_keeps [OF rt_take(5)] show ?thesis by (intro queue_same [OF assms(2), of _ i j]) auto
next
  case (rt_stop st why i)
  from runtime_stop_keeps [OF rt_stop(3)] show ?thesis by (intro queue_same [OF assms(2), of _ i i]) auto
qed (use assms(2) in \<open>auto simp: queue_inv_def dial_failed_def dialed_def connected_def runtime_replied_def\<close>)

lemma reader_queue_inv: "reader_step peer s s' \<Longrightarrow> queue_inv s \<Longrightarrow> queue_inv s'"
  by (cases rule: reader_step.cases, assumption)
    (auto simp: queue_inv_def reader_started_def reader_take_def reader_returned_def reader_checked_def on_connection_def Let_def)

lemma writer_queue_inv: "writer_step peer s s' \<Longrightarrow> queue_inv s \<Longrightarrow> queue_inv s'"
  by (cases rule: writer_step.cases, assumption)
    (auto simp: queue_inv_def writer_ping_def writer_dequeue_def writer_take_def writer_close_def writer_checked_def on_connection_def Let_def)

lemma reach_queue_inv: "ws_reach s \<Longrightarrow> queue_inv s"
proof (induction rule: ws_reach.induct)
  case init
  then show ?case by (simp add: NewWebsocketClient_def queue_inv_def)
next
  case (step s peer s')
  then show ?case
    using caller_queue_inv runtime_queue_inv reader_queue_inv writer_queue_inv by (auto simp: ws_step_def)
qed

section \<open>Termination of a client\<close>

text \<open>Steps the client makes without its peer.\<close>

abbreviation alone :: "websocketClient \<Rightarrow> websocketClient \<Rightarrow> bool" where
  "alone \<equiv> (ws_step False)\<^sup>*\<^sup>*"

lemma alone_reach: "alone s s' \<Longrightarrow> ws_reach s \<Longrightarrow> ws_reach s'"
  by (induction rule: rtranclp_induct) (auto intro: ws_reach.step)

lemma alone_step: "ws_step False s s1 \<Longrightarrow> alone s1 s2 \<Longrightarrow> alone s s2"
  by (rule converse_rtranclp_into_rtranclp)

lemmas steps = ws_step_def caller_step.intros runtime_step.intros reader_step.intros writer_step.intros

lemma fresh_exists: "ws_reach s \<Longrightarrow> \<exists>j. fresh j s"
  using reach_queue_inv [of s] by (metis queue_inv_def domIff ex_new_if_finite infinite_UNIV_nat)

lemma served_awaits: "ws_reach s \<Longrightarrow> serves s i r \<Longrightarrow> \<exists>ro. w_gs s i = Some (GoAwait ro r)"
  using reach_match_inv [of s] by (simp add: match_inv_def awaits_def)

lemma health_to_select:
  assumes "ws_reach s" "w_writer s = WrHealth err pinged"
  shows "\<exists>s'. ws_step False s s' \<and> w_writer s' = WrSelect \<and> w_runtime s' = w_runtime s \<and> w_reader s' = w_reader s \<and> w_connection s' = w_connection s"
proof -
  obtain j where "fresh j s" using fresh_exists [OF assms(1)] by blast
  with assms(2) have "ws_step False s (writer_checked j j err pinged s)" by (simp add: steps)
  then show ?thesis by (intro exI [of _ "writer_checked j j err pinged s"]) (simp add: writer_checked_def Let_def)
qed

lemma writer_ready:
  assumes "ws_reach s" "writer_on s"
  shows "\<exists>s'. alone s s' \<and> w_writer s' = WrSelect \<and> w_runtime s' = w_runtime s \<and> w_reader s' = w_reader s \<and> w_connection s' = w_connection s"
proof (cases "w_writer s")
  case (WrReply r err g)
  then obtain ro where g: "w_gs s g = Some (GoAwait ro r)" using served_awaits [OF assms(1), of g r] by (auto simp: serves_def)
  let ?s = "(go g (GoResult ro r (Done err)) s)\<lparr>w_writer := WrHealth err False\<rparr>"
  have 1: "ws_step False s ?s" using WrReply g by (simp add: steps writer_step.wr_reply)
  from health_to_select [OF ws_reach.step [OF assms(1) 1]] obtain s' where
    "ws_step False ?s s'" "w_writer s' = WrSelect" "w_runtime s' = w_runtime s" "w_reader s' = w_reader s" "w_connection s' = w_connection s"
    by auto
  with 1 show ?thesis by (meson alone_step r_into_rtranclp)
next
  case (WrHealth err pinged)
  with health_to_select [OF assms(1)] show ?thesis by blast
qed (use assms(2) in \<open>auto simp: writer_on_def\<close>)

lemma read_health_to_select:
  assumes "ws_reach s" "w_reader s = RdHealth err"
  shows "\<exists>s'. ws_step False s s' \<and> w_reader s' = RdSelect \<and> w_runtime s' = w_runtime s"
proof -
  obtain j where "fresh j s" using fresh_exists [OF assms(1)] by blast
  with assms(2) have "ws_step False s (reader_checked j err s)" by (simp add: steps)
  then show ?thesis by (intro exI [of _ "reader_checked j err s"]) (simp add: reader_checked_def Let_def)
qed

lemma read_reply_to_select:
  assumes "ws_reach s" "w_reader s = RdReply r rep err g"
  shows "\<exists>s'. alone s s' \<and> w_reader s' = RdSelect \<and> w_runtime s' = w_runtime s"
proof -
  obtain ro where g: "w_gs s g = Some (GoAwait ro r)" using assms served_awaits [OF assms(1), of g r] by (auto simp: serves_def)
  let ?s = "(go g (GoResult ro r rep) s)\<lparr>w_reader := RdHealth err\<rparr>"
  have 1: "ws_step False s ?s" using assms(2) g by (simp add: steps reader_step.rd_reply)
  from read_health_to_select [OF ws_reach.step [OF assms(1) 1]] obtain s' where
    "ws_step False ?s s'" "w_reader s' = RdSelect" "w_runtime s' = w_runtime s" by auto
  with 1 show ?thesis by (meson alone_step r_into_rtranclp)
qed

text \<open>A read of a closed connection comes back without the peer.\<close>

lemma reader_ready:
  assumes "ws_reach s" "reader_on s" "read_closed s"
  shows "\<exists>s'. alone s s' \<and> w_reader s' = RdSelect \<and> w_runtime s' = w_runtime s"
proof (cases "w_reader s")
  case RdStart
  then have "ws_step False s (reader_started s)" by (simp add: steps)
  moreover have "w_connection s \<noteq> None" using assms(3) by (auto simp: read_closed_def)
  ultimately show ?thesis
    by (intro exI [of _ "reader_started s"]) (auto simp: reader_started_def on_connection_def)
next
  case (RdRead r i)
  let ?s = "reader_returned r i 0 [] (Some OtherError) s"
  have 1: "ws_step False s ?s" using RdRead assms(3) by (simp add: steps reader_step.rd_closed)
  from read_reply_to_select [OF ws_reach.step [OF assms(1) 1]] obtain s' where
    "alone ?s s'" "w_reader s' = RdSelect" "w_runtime s' = w_runtime s" by (auto simp: reader_returned_def)
  with 1 show ?thesis by (meson alone_step)
next
  case (RdReply r rep err g)
  with read_reply_to_select [OF assms(1)] show ?thesis by blast
next
  case (RdHealth err)
  with read_health_to_select [OF assms(1)] show ?thesis by blast
qed (use assms(2) in \<open>auto simp: reader_on_def\<close>)

definition after_stage :: "stage \<Rightarrow> cause \<Rightarrow> nat \<Rightarrow> runtime_pc" where
  "after_stage st why i =
     (case next_stage st of None \<Rightarrow> RtReply (cause_request why) (Done None) i | Some st' \<Rightarrow> RtStop st' why i)"

lemma runtime_stop_pc: "runtime_stop st why i s = Some s' \<Longrightarrow> w_runtime s' = after_stage st why i"
  by (cases "next_stage st") (auto simp: runtime_stop_def after_stage_def stopped_def Let_def)

text \<open>Every stage of stopping the workers can be done, whatever the workers are at.\<close>

lemma stage_ready:
  assumes "ws_reach s" "w_runtime s = RtStop st why i"
  shows "\<exists>s' s''. alone s s' \<and> w_runtime s' = RtStop st why i \<and> runtime_stop st why i s' = Some s''"
proof -
  have inv: "stage_inv st s" "w_connection s \<noteq> None" using reach_thread_inv [OF assms(1)] assms(2) by (simp_all add: thread_inv_def)
  show ?thesis
  proof (cases st)
    case SendClose
    with inv writer_ready [OF assms(1)] assms(2) show ?thesis by (fastforce simp: runtime_stop_iff)
  next
    case AwaitClose
    show ?thesis
    proof (cases "w_writer s = WrClose")
      case True
      let ?s = "writer_close (Some OtherError) s"
      have "ws_step False s ?s" using True by (simp add: steps write_result_def)
      moreover have "w_writer ?s = WrCloseReply (Some OtherError)" "w_runtime ?s = w_runtime s"
        using inv by (auto simp: writer_close_def on_connection_def)
      ultimately show ?thesis using AwaitClose assms(2) by (auto simp: runtime_stop_iff)
    qed (use inv AwaitClose assms(2) in \<open>auto simp: runtime_stop_iff\<close>)
  next
    case StopReader
    with inv reader_ready [OF assms(1)] assms(2) show ?thesis by (fastforce simp: runtime_stop_iff)
  next
    case StopWriter
    with inv writer_ready [OF assms(1)] assms(2) show ?thesis by (fastforce simp: runtime_stop_iff)
  qed (use inv assms(2) in \<open>auto simp: runtime_stop_iff\<close>)
qed

lemma stage_done:
  assumes "ws_reach s" "w_runtime s = RtStop st why i"
  shows "\<exists>s'. alone s s' \<and> w_runtime s' = after_stage st why i"
proof -
  obtain s1 s2 where s: "alone s s1" "w_runtime s1 = RtStop st why i" "runtime_stop st why i s1 = Some s2"
    using stage_ready [OF assms] by blast
  then have "ws_step False s1 s2" by (simp add: ws_step_def runtime_step.rt_stop)
  with s runtime_stop_pc show ?thesis by (meson rtranclp.rtrancl_into_rtrancl)
qed

fun stages_left :: "stage \<Rightarrow> nat" where
  "stages_left SendClose = 6"
| "stages_left AwaitClose = 5"
| "stages_left CloseConn = 4"
| "stages_left StopReader = 3"
| "stages_left StopWriter = 2"
| "stages_left AwaitReader = 1"
| "stages_left AwaitWriter = 0"

lemma next_stage_left: "next_stage st = Some st' \<Longrightarrow> stages_left st = Suc (stages_left st')"
  by (cases st) auto

lemma stop_done:
  assumes "ws_reach s" "w_runtime s = RtStop st why i"
  shows "\<exists>s'. alone s s' \<and> w_runtime s' = RtReply (cause_request why) (Done None) i"
  using assms
proof (induction "stages_left st" arbitrary: s st rule: less_induct)
  case less
  obtain s1 where s1: "alone s s1" "w_runtime s1 = after_stage st why i" using stage_done [OF less.prems] by blast
  show ?case
  proof (cases "next_stage st")
    case None
    with s1 show ?thesis by (auto simp: after_stage_def)
  next
    case (Some st')
    then have "stages_left st' < stages_left st" "w_runtime s1 = RtStop st' why i" using next_stage_left s1 by (auto simp: after_stage_def)
    from less.hyps [OF this(1) alone_reach [OF s1(1) less.prems(1)] this(2)] s1(1) show ?thesis by (meson rtranclp_trans)
  qed
qed

lemma reply_done:
  assumes "ws_reach s" "w_runtime s = RtReply r rep i"
  shows "\<exists>s'. alone s s' \<and> w_runtime s' = (if r = Terminate then RtCancel else RtSelect)"
proof -
  obtain ro where "w_gs s i = Some (GoAwait ro r)" using served_awaits [OF assms(1), of i r] assms(2) by (auto simp: serves_def)
  with assms(2) have "ws_step False s (runtime_replied r (go i (GoResult ro r rep) s))" by (simp add: ws_step_def runtime_step.rt_reply)
  then show ?thesis by (intro exI [of _ "runtime_replied r (go i (GoResult ro r rep) s)"]) (auto simp: runtime_replied_def)
qed

lemma stop_to_reply:
  assumes "ws_reach s" "w_runtime s = RtStop st why i"
  shows "\<exists>s'. alone s s' \<and> w_runtime s' = (if why = ByTerminate then RtCancel else RtSelect)"
proof -
  obtain s1 where s1: "alone s s1" "w_runtime s1 = RtReply (cause_request why) (Done None) i" using stop_done [OF assms] by blast
  from reply_done [OF alone_reach [OF s1(1) assms(1)] s1(2)] s1(1) show ?thesis
    by (cases why) (auto intro: rtranclp_trans)
qed

text \<open>The runtime always gets back to its select, or past the end of \<open>Terminate\<close>.\<close>

lemma runtime_ready:
  assumes "ws_reach s"
  shows "\<exists>s'. alone s s' \<and> w_runtime s' \<in> {RtSelect, RtCancel, RtEnd}"
proof (cases "w_runtime s")
  case (RtDial i)
  let ?s = "dial_failed i s"
  have 1: "ws_step False s ?s" using RtDial by (simp add: steps)
  from reply_done [OF ws_reach.step [OF assms 1]] obtain s' where "alone ?s s'" "w_runtime s' = RtSelect" by (auto simp: dial_failed_def)
  with 1 show ?thesis by (auto intro: alone_step)
next
  case (RtSpawned i)
  let ?s = "connected i s"
  have 1: "ws_step False s ?s" using RtSpawned by (simp add: steps)
  from reply_done [OF ws_reach.step [OF assms 1]] obtain s' where "alone ?s s'" "w_runtime s' = RtSelect" by (auto simp: connected_def)
  with 1 show ?thesis by (auto intro: alone_step)
next
  case (RtStop st why i)
  from stop_to_reply [OF assms this] show ?thesis by (auto split: if_splits)
next
  case (RtReply r rep i)
  from reply_done [OF assms this] show ?thesis by (auto split: if_splits)
qed auto

lemma cancel_done:
  assumes "alone s s1" "w_runtime s1 = RtCancel"
  shows "\<exists>s'. alone s s' \<and> w_ctxDone s'"
proof -
  have "ws_step False s1 (s1\<lparr>w_ctxDone := True, w_runtime := RtEnd\<rparr>)" using assms(2) by (simp add: steps)
  with assms(1) have "alone s (s1\<lparr>w_ctxDone := True, w_runtime := RtEnd\<rparr>)" by (rule rtranclp.rtrancl_into_rtrancl)
  then show ?thesis by (intro exI [of _ "s1\<lparr>w_ctxDone := True, w_runtime := RtEnd\<rparr>"]) simp
qed

lemma terminate_from_select:
  assumes "ws_reach s" "w_runtime s = RtSelect"
  shows "\<exists>s'. alone s s' \<and> w_runtime s' = RtCancel"
proof -
  obtain i where i: "fresh i s" using fresh_exists [OF assms(1)] by blast
  let ?s = "go i (GoOffer Client Terminate) s"
  have 1: "ws_step False s ?s" using i by (simp add: steps)
  note r = ws_reach.step [OF assms(1) 1]
  obtain j where j: "fresh j ?s" using fresh_exists [OF r] by blast
  obtain s2 where s2: "runtime_take j i Terminate (go i (GoAwait Client Terminate) ?s) = Some s2" by (simp add: Let_def)
  have 2: "ws_step False ?s s2"
    using runtime_step.rt_take [OF _ _ j s2] assms(2) by (simp add: ws_step_def)
  have "w_runtime s2 = RtStop SendClose ByTerminate i \<or> w_runtime s2 = RtReply Terminate (Done None) i"
    using s2 by (auto simp: Let_def split: if_splits)
  with stop_to_reply [OF ws_reach.step [OF r 2]] reply_done [OF ws_reach.step [OF r 2]] obtain s3 where "alone s2 s3" "w_runtime s3 = RtCancel"
    by (metis (full_types))
  with 1 2 show ?thesis by (meson alone_step)
qed

section \<open>Correctness\<close>

text \<open>C31: In every interleaving of the threads of a websocket client with its callers, no thread ever uses
  a missing connection; at most one goroutine reconnects at a time; a thread serves a caller only
  while that caller waits, and a reply can only be taken by the caller whose request it answers;
  and once the client is terminated no worker and no connection is left.\<close>
theorem websocket_client_safe:
  assumes "ws_reach s"
  shows "\<not> w_crashed s \<and> (\<forall>i j. reconnecting s i \<longrightarrow> reconnecting s j \<longrightarrow> i = j)
    \<and> (\<forall>i r. serves s i r \<longrightarrow> awaits s i r)
    \<and> (\<forall>i j r r'. serves s i r \<longrightarrow> awaits s j r' \<longrightarrow> api_of r' = api_of r \<longrightarrow> j = i \<and> r' = r)
    \<and> (w_ctxDone s \<longrightarrow> workers_off s)"
proof -
  note t = reach_thread_inv [OF assms] and m = reach_match_inv [OF assms] and r = reach_reconnect_inv [OF assms]
  have "\<not> w_crashed s" "w_ctxDone s \<longrightarrow> workers_off s" using t by (auto simp: thread_inv_def)
  moreover have "j = i \<and> r' = r" if "serves s i r" "awaits s j r'" "api_of r' = api_of r" for i j r r'
    using reply_taker [OF t m that(1) _ that(3)] that(2) by (auto simp: awaits_def)
  ultimately show ?thesis using m r by (simp add: match_inv_def reconnect_inv_def)
qed

text \<open>A caller that has queued a frame, and one whose connect is being served.\<close>

definition demo_queued :: websocketClient where
  "demo_queued = NewWebsocketClient\<lparr>w_gs := [0 \<mapsto> GoResult Client (WriteRaw ''a'') (Done None)], w_writeQueue := [''a''], w_accepted := [''a'']\<rparr>"

definition demo_dial :: websocketClient where
  "demo_dial = NewWebsocketClient\<lparr>w_gs := [1 \<mapsto> GoAwait Client Connect], w_runtime := RtDial 1\<rparr>"

lemma demo_queued_reach: "ws_reach demo_queued"
proof -
  let ?n = NewWebsocketClient
  have "ws_step False ?n (go 0 (GoOffer Client (WriteRaw ''a'')) ?n)" by (simp add: steps NewWebsocketClient_def)
  note r = ws_reach.step [OF ws_reach.init this]
  have "caller_step False (go 0 (GoOffer Client (WriteRaw ''a'')) ?n) demo_queued"
    using caller_step.write_raw [of "go 0 (GoOffer Client (WriteRaw ''a'')) ?n" 0 Client "''a''"]
    by (simp add: enqueue_def demo_queued_def go_def NewWebsocketClient_def writeQueueSize_def)
  with r show ?thesis by (auto intro: ws_reach.step simp: ws_step_def)
qed

lemma demo_dial_reach: "ws_reach demo_dial"
proof -
  let ?n = NewWebsocketClient
  have "ws_step False ?n (go 1 (GoOffer Client Connect) ?n)" by (simp add: steps NewWebsocketClient_def)
  note r = ws_reach.step [OF ws_reach.init this]
  have "runtime_step False (go 1 (GoOffer Client Connect) ?n) demo_dial"
    by (rule runtime_step.rt_take [where i = 1 and ro = Client and r = Connect and j = 2])
      (simp_all add: demo_dial_def go_def NewWebsocketClient_def)
  with r show ?thesis by (auto intro: ws_reach.step simp: ws_step_def)
qed

theorem websocket_client_safe_witness: "serves demo_dial 1 Connect \<and> awaits demo_dial 1 Connect"
proof -
  have "serves demo_dial 1 Connect" by (simp add: demo_dial_def serves_def)
  with websocket_client_safe [OF demo_dial_reach] show ?thesis by blast
qed

text \<open>C32: A client can always be terminated without its peer: from every reachable state, also with a read
  blocked on a connection that never answers, a reconnect under way or a write in progress, a
  call of \<open>Terminate\<close> can come to its end, with both workers stopped and the connection closed.\<close>
theorem websocket_terminate_finishes:
  assumes "ws_reach s"
  shows "\<exists>s'. alone s s' \<and> w_ctxDone s' \<and> workers_off s'"
proof -
  obtain s1 where s1: "alone s s1" "w_runtime s1 \<in> {RtSelect, RtCancel, RtEnd}" using runtime_ready [OF assms] by blast
  note r = alone_reach [OF s1(1) assms]
  have "\<exists>s'. alone s s' \<and> w_ctxDone s'"
  proof (cases "w_runtime s1 = RtSelect")
    case True
    obtain s2 where "alone s1 s2" "w_runtime s2 = RtCancel" using terminate_from_select [OF r True] by blast
    with s1(1) cancel_done show ?thesis by (meson rtranclp_trans)
  next
    case False
    with s1 reach_thread_inv [OF r] cancel_done [OF s1(1)] show ?thesis by (auto simp: thread_inv_def)
  qed
  then obtain s' where s': "alone s s'" "w_ctxDone s'" by blast
  with reach_thread_inv [OF alone_reach [OF s'(1) assms]] have "workers_off s'" by (auto simp: thread_inv_def)
  with s' show ?thesis by blast
qed

theorem websocket_terminate_finishes_witness: "\<exists>s'. alone demo_dial s' \<and> w_ctxDone s' \<and> workers_off s'"
  by (rule websocket_terminate_finishes [OF demo_dial_reach])



section \<open>Flaws\<close>

text \<open>\<open>GetHeader\<close> never returns before the client is terminated, as its channels are never made.\<close>

lemma GetHeader_blocks:
  assumes "ws_step peer s s'" "w_gs s i = Some (GoOffer ro GetHeader)" "\<not> w_ctxDone s"
  shows "w_gs s' i = Some (GoOffer ro GetHeader)"
proof -
  have ?thesis if "caller_step peer s s'"
    using that
  proof (cases rule: caller_step.cases)
    case (reconnect i' p k)
    then show ?thesis using assms(2) requestReconnect_gs [OF reconnect(5)] by (cases "i = i'") auto
  qed (use assms(2,3) in \<open>auto simp: enqueue_def split: if_splits\<close>)
  moreover have ?thesis if "runtime_step peer s s'"
    using that
  proof (cases rule: runtime_step.cases)
    case (rt_take i' ro' r j)
    then have "only_spawns (w_gs (go i' (GoAwait ro' r) s)) (w_gs s')" using runtime_take_effect(4) [OF rt_take(5)] by (cases "j = i'") simp_all
    from only_spawnsD [OF this, of i] rt_take assms(2) show ?thesis by (cases "i = i'") auto
  next
    case (rt_stop st why i')
    then show ?thesis using assms(2) runtime_stop_keeps by simp
  qed (use assms(2) in \<open>auto simp: dial_failed_def dialed_def connected_def runtime_replied_def\<close>)
  moreover have ?thesis if "reader_step peer s s'"
    using that assms(2) by (cases rule: reader_step.cases)
      (auto simp: reader_started_def reader_take_def reader_returned_def reader_checked_def on_connection_def Let_def)
  moreover have ?thesis if "writer_step peer s s'"
    using that assms(2) by (cases rule: writer_step.cases)
      (auto simp: writer_ping_def writer_dequeue_def writer_take_def writer_close_def writer_checked_def on_connection_def Let_def)
  ultimately show ?thesis using assms(1) by (auto simp: ws_step_def)
qed

text \<open>While the workers are being stopped the writer still takes frames from the queue, and every such frame
  is lost: the write to the closed connection fails and nothing queues it again.\<close>

lemma frame_lost_while_stopping:
  assumes "read_closed s" "writer_step peer s s'" "w_writeQueue s' \<noteq> w_writeQueue s"
  shows "\<exists>d e. w_writeQueue s = d # w_writeQueue s' \<and> w_written s' = w_written s @ [(d, Some e)]"
  using assms(2)
proof (cases rule: writer_step.cases)
  case (wr_queue err)
  with assms(1) show ?thesis
    by (cases "w_writeQueue s") (auto simp: writer_dequeue_def on_connection_def write_result_def read_closed_def)
qed (use assms(3) in \<open>auto simp: writer_ping_def writer_take_def writer_close_def writer_checked_def on_connection_def Let_def split: if_splits\<close>)

lemma reconnectBackoff_bounds:
  assumes "0 \<le> k" "k < 2 ^ 53"
  shows "400 * 10 ^ 6 \<le> reconnectBackoff k attempt" "reconnectBackoff k attempt \<le> 36 * 10 ^ 9"
proof -
  let ?d = "backoff_delay attempt"
  have "(1::int) \<le> 2 ^ n" for n :: nat by simp
  then have d: "500 * 10 ^ 6 \<le> ?d" "?d \<le> 30 * 10 ^ 9" by (auto simp: backoff_delay_def Let_def)
  have "500 * 10 ^ 6 * (8 * 2 ^ 53) \<le> ?d * (8 * 2 ^ 53 + 4 * k)" using d(1) assms by (intro mult_mono) auto
  from zdiv_mono1 [OF this, of "10 * 2 ^ 53"] show "400 * 10 ^ 6 \<le> reconnectBackoff k attempt" by (simp add: reconnectBackoff_def)
  have "?d * (8 * 2 ^ 53 + 4 * k) \<le> 30 * 10 ^ 9 * (12 * 2 ^ 53)" using d assms by (intro mult_mono) auto
  from zdiv_mono1 [OF this, of "10 * 2 ^ 53"] show "reconnectBackoff k attempt \<le> 36 * 10 ^ 9" by (simp add: reconnectBackoff_def)
qed

end
