(* ===== verification/ReconcileHandlers.thy ===== *)
theory ReconcileHandlers
  imports AiAgents AiLoop Reconciler
begin

text \<open>
  The handlers the generic reconciler runs for agents, AI models, workspaces, workspace dashboards
  and UI configurations: \<open>reconciler/agents.go\<close>, \<open>aimodels.go\<close>, \<open>workspaces.go\<close>,
  \<open>workspace_dashboards.go\<close>, \<open>ui_configs.go\<close>, \<open>conditions.go\<close>.

  Conditions are a list of the API machinery, of which the handlers find and set entries; the locale
  \<open>condition_api\<close> states what those two do. Reads of the store, writes to the API server, the start of
  a run and the reset of usage are parameters; the world they change is threaded through.
\<close>

section \<open>Conditions\<close>

datatype ConditionStatus = ConditionTrue | ConditionFalse | ConditionUnknown

record Condition =
  cd_Type :: string
  cd_Status :: ConditionStatus
  cd_Reason :: string
  cd_Message :: string
  cd_ObservedGeneration :: int

locale condition_api =
  fixes find_condition :: "'k \<Rightarrow> string \<Rightarrow> Condition option"
    and set_condition :: "Condition \<Rightarrow> 'k \<Rightarrow> bool \<times> 'k"
  assumes find_set: "find_condition (snd (set_condition c k)) t = (if t = cd_Type c then Some c else find_condition k t)"
    and set_unchanged: "find_condition k (cd_Type c) = Some c \<Longrightarrow> set_condition c k = (False, k)"
    and set_changed: "find_condition k (cd_Type c) \<noteq> Some c \<Longrightarrow> fst (set_condition c k)"
begin

lemma set_settles: "set_condition c (snd (set_condition c k)) = (False, snd (set_condition c k))"
  by (rule set_unchanged) (simp add: find_set)

end

text \<open>Conditions as an association list by type.\<close>

definition list_find :: "(string, Condition) gomap \<Rightarrow> string \<Rightarrow> Condition option" where
  "list_find k t = map_of k t"

definition list_set :: "Condition \<Rightarrow> (string, Condition) gomap \<Rightarrow> bool \<times> (string, Condition) gomap" where
  "list_set c k = (if map_of k (cd_Type c) = Some c then (False, k) else (True, AList.update (cd_Type c) c k))"

interpretation list_conditions: condition_api list_find list_set
  by unfold_locales (auto simp: list_find_def list_set_def update_conv')

section \<open>Environment\<close>

type_synonym ready = "ConditionStatus \<times> string \<times> string"

text \<open>\<open>GetMcpServer\<close> gives the status and reason of the server's Ready condition, when it has one.\<close>

record 'k agent_object =
  ao_Agent :: Agent
  ao_Namespace :: string
  ao_Generation :: int
  ao_ResourceVersion :: int
  ao_RunRequestedAt :: string
  ao_Conditions :: 'k
  ao_ObservedGeneration :: int
  ao_LastHandledTriggerAt :: string

record 'k model_object =
  mo_Model :: AiModel
  mo_Generation :: int
  mo_ResetUsageAt :: string
  mo_Conditions :: 'k
  mo_ObservedGeneration :: int
  mo_LastUsageResetAt :: string

record ('w, 'k) handler_env =
  hv_own :: string
  hv_parses :: "string \<Rightarrow> bool"
  hv_agentError :: "agent_error \<Rightarrow> string"
  hv_modelError :: "model_error \<Rightarrow> string"
  hv_GetWorkspace :: "string \<Rightarrow> string \<Rightarrow> bool"
  hv_models :: model_env
  hv_GetMcpServer :: "string \<Rightarrow> string \<Rightarrow> (ConditionStatus \<times> string) option option"
  hv_find :: "'k \<Rightarrow> string \<Rightarrow> Condition option"
  hv_set :: "Condition \<Rightarrow> 'k \<Rightarrow> bool \<times> 'k"
  hv_TriggerAgent :: "string \<Rightarrow> 'w \<Rightarrow> string option \<times> 'w"
  hv_UpdateAgentStatus :: "'k agent_object \<Rightarrow> 'w \<Rightarrow> string option \<times> 'w"
  hv_ResetTokenUsageForModel :: "string \<Rightarrow> 'w \<Rightarrow> (string + int) \<times> 'w"
  hv_emitAiModelEvent :: "AiModel \<Rightarrow> int \<Rightarrow> 'w \<Rightarrow> 'w"
  hv_UpdateAiModelStatus :: "'k model_object \<Rightarrow> 'w \<Rightarrow> string option \<times> 'w"

definition warning :: "string \<Rightarrow> ReconcileResult" where
  "warning e = \<lparr>rr_Err = Some e, rr_IsWarning = True\<rparr>"

definition failure :: "string \<Rightarrow> ReconcileResult" where
  "failure e = \<lparr>rr_Err = Some e, rr_IsWarning = False\<rparr>"

definition up_to_date :: "Condition option \<Rightarrow> int \<Rightarrow> int \<Rightarrow> ready \<Rightarrow> bool" where
  "up_to_date current observed generation r \<longleftrightarrow>
     (case current of
        None \<Rightarrow> False
      | Some c \<Rightarrow> (cd_Status c, cd_Reason c, cd_Message c) = r \<and> observed = generation)"

definition ready_condition :: "ready \<Rightarrow> int \<Rightarrow> Condition" where
  "ready_condition r generation =
     \<lparr>cd_Type = ''Ready'', cd_Status = fst r, cd_Reason = fst (snd r), cd_Message = snd (snd r), cd_ObservedGeneration = generation\<rparr>"

definition not_ready :: "string \<Rightarrow> string \<Rightarrow> ready \<Rightarrow> ReconcileResult list" where
  "not_ready kind name r =
     (if fst r = ConditionFalse then [warning (kind @ '' '' @ quoted name @ '' is not ready: '' @ fst (snd r) @ '': '' @ snd (snd r))] else [])"

section \<open>Agents\<close>

fun check_mcp_servers :: "('w, 'k) handler_env \<Rightarrow> string list \<Rightarrow> ready option" where
  "check_mcp_servers E [] = None"
| "check_mcp_servers E (ref # refs) =
     (case hv_GetMcpServer E (hv_own E) ref of
        None \<Rightarrow> Some (ConditionFalse, ''McpServerNotFound'',
                      ''tools.mcpServerRefs references McpServer '' @ quoted ref @ '' which does not exist'')
      | Some cond \<Rightarrow>
          if map_option fst cond = Some ConditionTrue then check_mcp_servers E refs
          else Some (ConditionFalse, ''McpServerNotReady'', ''McpServer '' @ quoted ref @ '' is not ready: ''
                       @ (case cond of None \<Rightarrow> ''Unknown'' | Some (_, reason) \<Rightarrow> reason)))"

definition check_model_ref :: "('w, 'k) handler_env \<Rightarrow> string \<Rightarrow> ready option" where
  "check_model_ref E ref =
     (if ref = [] then None
      else case me_GetAiModel (hv_models E) (hv_own E) ref of
             Inr (Some model) \<Rightarrow>
               map_option (\<lambda>err. (ConditionFalse, ''ModelNotReady'',
                   ''spec.modelRef references AiModel '' @ quoted ref @ '' which is not usable: '' @ hv_modelError E err))
                 (ValidateAiModelSpec (am_Spec model))
           | _ \<Rightarrow> Some (ConditionFalse, ''ModelNotFound'', ''spec.modelRef references AiModel '' @ quoted ref @ '' which does not exist''))"

definition evaluateAgent :: "('w, 'k) handler_env \<Rightarrow> 'k agent_object \<Rightarrow> ready" where
  "evaluateAgent E a =
     (let spec = an_Spec (ao_Agent a); ws = sc_WorkspaceRef (as_Scope spec)
      in if ao_Namespace a \<noteq> hv_own E then
           (ConditionFalse, ''IgnoredNamespace'', ''agents are only processed in namespace '' @ quoted (hv_own E))
         else case ValidateAgentSpec (hv_parses E) spec of
                Some err \<Rightarrow> (ConditionFalse, ''InvalidSpec'', hv_agentError E err)
              | None \<Rightarrow>
                  if ws \<noteq> [] \<and> \<not> hv_GetWorkspace E (hv_own E) ws then
                    (ConditionFalse, ''WorkspaceNotFound'', ''scope references workspace '' @ quoted ws @ '' which does not exist'')
                  else case check_model_ref E (ag_ModelRef (as_Model spec)) of
                         Some r \<Rightarrow> r
                       | None \<Rightarrow>
                           (case check_mcp_servers E (as_McpServerRefs spec) of
                              Some r \<Rightarrow> r
                            | None \<Rightarrow> (ConditionTrue, ''Valid'',
                                        if as_Enabled spec then ''spec is valid'' else ''spec is valid; agent is disabled'')))"

text \<open>The request for a manual run: what it adds to the results, the agent and the world after it.\<close>

definition manual_trigger ::
  "('w, 'k) handler_env \<Rightarrow> ConditionStatus \<Rightarrow> 'k agent_object \<Rightarrow> 'w \<Rightarrow> ReconcileResult list \<times> 'k agent_object \<times> 'w" where
  "manual_trigger E status a w =
     (let requested = ao_RunRequestedAt a; name = an_Name (ao_Agent a)
      in if status = ConditionTrue \<and> as_Enabled (an_Spec (ao_Agent a)) \<and> requested \<noteq> [] \<and> requested \<noteq> ao_LastHandledTriggerAt a then
           (case hv_TriggerAgent E name w of
              (Some e, w1) \<Rightarrow> ([warning (''manual run request for agent '' @ quoted name @ '' is pending: '' @ e)], a, w1)
            | (None, w1) \<Rightarrow>
                (let a1 = a\<lparr>ao_LastHandledTriggerAt := requested\<rparr> in ([], a1, snd (hv_UpdateAgentStatus E a1 w1))))
         else ([], a, w))"

definition reconcileAgents ::
  "('w, 'k) handler_env \<Rightarrow> operation \<Rightarrow> (string + 'k agent_object) \<Rightarrow> 'w \<Rightarrow> ReconcileResult list \<times> 'w" where
  "reconcileAgents E op obj w =
     (if op = DeleteOp then ([], w)
      else case obj of
             Inl e \<Rightarrow> ([failure (''failed to parse Agent: '' @ e)], w)
           | Inr agent \<Rightarrow>
               (let r = evaluateAgent E agent; name = an_Name (ao_Agent agent);
                    (results, a, w1) = manual_trigger E (fst r) agent w;
                    done_results = results @ not_ready ''agent'' name r
                in if up_to_date (hv_find E (ao_Conditions a) ''Ready'') (ao_ObservedGeneration a) (ao_Generation a) r then (done_results, w1)
                   else (case hv_UpdateAgentStatus E (a\<lparr>ao_Conditions := snd (hv_set E (ready_condition r (ao_Generation a)) (ao_Conditions a)),
                                                        ao_ObservedGeneration := ao_Generation a\<rparr>) w1 of
                           (Some e, w2) \<Rightarrow> ([failure (''failed to update status of agent '' @ quoted name @ '': '' @ e)], w2)
                         | (None, w2) \<Rightarrow> (done_results, w2))))"

text \<open>The cached agents that \<open>requeueAgentsReferencingMcpServer\<close> runs again.\<close>

definition string_items :: "json option \<Rightarrow> string list" where
  "string_items v = (case v of Some (JArr js) \<Rightarrow> (if list_all is_JStr js then map (\<lambda>j. case j of JStr s \<Rightarrow> s | _ \<Rightarrow> []) js else []) | _ \<Rightarrow> [])"

definition requeueAgentsReferencingMcpServer :: "string \<Rightarrow> string \<Rightarrow> json \<Rightarrow> bool" where
  "requeueAgentsReferencingMcpServer namespace mcpServerName obj \<longleftrightarrow>
     GetNamespace obj = namespace \<and> mcpServerName \<in> set (string_items (nested obj [''spec'', ''tools'', ''mcpServerRefs'']))"

section \<open>AI models\<close>

definition check_key_ref :: "('w, 'k) handler_env \<Rightarrow> AiModel \<Rightarrow> ready option" where
  "check_key_ref E model =
     (case resolveApiKeyFromRef (hv_models E) (am_Namespace model) (sp_ApiKeySecretRef (am_Spec model)) of
        Inl (SecretNotFound n) \<Rightarrow>
          Some (ConditionFalse, ''SecretNotFound'', ''spec.apiKeySecretRef references secret '' @ quoted n @ '' which does not exist'')
      | Inl (KeyNotFound key n) \<Rightarrow> Some (ConditionFalse, ''KeyNotFound'', ''secret '' @ quoted n @ '' has no data key '' @ quoted key)
      | _ \<Rightarrow> None)"

definition check_default :: "('w, 'k) handler_env \<Rightarrow> AiModel \<Rightarrow> ready" where
  "check_default E model =
     (if \<not> sp_Default (am_Spec model) then (ConditionTrue, ''Valid'', ''spec is valid'')
      else case Option.bind (me_GetAllAiModels (hv_models E) (hv_own E)) PickDefaultAiModel of
             Some winner \<Rightarrow>
               if am_Name winner \<noteq> am_Name model then
                 (ConditionFalse, ''DuplicateDefault'', ''AiModel '' @ quoted (am_Name winner)
                    @ '' is also marked as default and wins the election (oldest first); unset spec.default on one of them'')
               else (ConditionTrue, ''Valid'', ''spec is valid; model is the cluster default'')
           | None \<Rightarrow> (ConditionTrue, ''Valid'', ''spec is valid; model is the cluster default''))"

definition evaluateAiModel :: "('w, 'k) handler_env \<Rightarrow> AiModel \<Rightarrow> ready" where
  "evaluateAiModel E model =
     (if am_Namespace model \<noteq> hv_own E then
        (ConditionFalse, ''IgnoredNamespace'', ''aimodels are only processed in namespace '' @ quoted (hv_own E))
      else case ValidateAiModelSpec (am_Spec model) of
             Some err \<Rightarrow> (ConditionFalse, ''InvalidSpec'', hv_modelError E err)
           | None \<Rightarrow> (case check_key_ref E model of Some r \<Rightarrow> r | None \<Rightarrow> check_default E model))"

definition usage_reset :: "('w, 'k) handler_env \<Rightarrow> 'k model_object \<Rightarrow> 'w \<Rightarrow> bool \<times> 'k model_object \<times> 'w" where
  "usage_reset E m w =
     (let requested = mo_ResetUsageAt m; model = mo_Model m
      in if requested \<noteq> [] \<and> requested \<noteq> mo_LastUsageResetAt m then
           (case hv_ResetTokenUsageForModel E (am_Name model) w of
              (Inl e, w1) \<Rightarrow> (False, m, w1)
            | (Inr cleared, w1) \<Rightarrow> (True, m\<lparr>mo_LastUsageResetAt := requested\<rparr>, hv_emitAiModelEvent E model cleared w1))
         else (False, m, w))"

text \<open>The third component says whether the other default models are run again.\<close>

definition reconcileAiModels ::
  "('w, 'k) handler_env \<Rightarrow> operation \<Rightarrow> (string + 'k model_object) \<Rightarrow> 'w \<Rightarrow> ReconcileResult list \<times> 'w \<times> bool" where
  "reconcileAiModels E op obj w =
     (if op = DeleteOp then ([], w, True)
      else case obj of
             Inl e \<Rightarrow> ([failure (''failed to parse AiModel: '' @ e)], w, False)
           | Inr model \<Rightarrow>
               (let r = evaluateAiModel E (mo_Model model); name = am_Name (mo_Model model);
                    (resetHandled, m, w1) = usage_reset E model w;
                    upToDate = up_to_date (hv_find E (mo_Conditions m) ''Ready'') (mo_ObservedGeneration m) (mo_Generation m) r
                in if \<not> upToDate \<or> resetHandled
                   then (case hv_UpdateAiModelStatus E (m\<lparr>mo_Conditions := snd (hv_set E (ready_condition r (mo_Generation m)) (mo_Conditions m)),
                                                          mo_ObservedGeneration := mo_Generation m\<rparr>) w1 of
                           (Some e, w2) \<Rightarrow> ([failure (''failed to update status of aimodel '' @ quoted name @ '': '' @ e)], w2, False)
                         | (None, w2) \<Rightarrow> (not_ready ''aimodel'' name r, w2, \<not> upToDate))
                   else (not_ready ''aimodel'' name r, w1, False)))"

definition requeueDefaultAiModels :: "string \<Rightarrow> string \<Rightarrow> json \<Rightarrow> bool" where
  "requeueDefaultAiModels namespace excludeName model \<longleftrightarrow>
     GetNamespace model = namespace \<and> GetName model \<noteq> excludeName \<and> nested model [''spec'', ''default''] = Some (JBool True)"

section \<open>Status conditions\<close>

text \<open>\<open>patch\<close> sends the conditions of the named object of a kind; a change of no condition sends nothing.\<close>

fun set_all :: "(Condition \<Rightarrow> 'k \<Rightarrow> bool \<times> 'k) \<Rightarrow> Condition list \<Rightarrow> 'k \<Rightarrow> bool \<times> 'k" where
  "set_all set_condition [] k = (False, k)"
| "set_all set_condition (c # cs) k =
     (case set_condition c k of (b, k1) \<Rightarrow> (case set_all set_condition cs k1 of (b', k2) \<Rightarrow> (b \<or> b', k2)))"

definition setStatusConditions ::
  "(Condition \<Rightarrow> 'k \<Rightarrow> bool \<times> 'k) \<Rightarrow> ('k \<Rightarrow> 'w \<Rightarrow> string option \<times> 'w) \<Rightarrow> 'k \<Rightarrow> Condition list \<Rightarrow> 'w \<Rightarrow> string option \<times> 'w" where
  "setStatusConditions set_condition patch current newConditions w =
     (case set_all set_condition newConditions current of (changed, conditions) \<Rightarrow> if changed then patch conditions w else (None, w))"

section \<open>Workspaces\<close>

record 'k workspace_object =
  wo_Generation :: int
  wo_Resources :: "WorkspaceResource list"
  wo_DashboardRef :: string
  wo_Conditions :: 'k

text \<open>\<open>GetWorkspaceDashboard\<close> of the store: an error, or whether the dashboard is there.\<close>

definition dashboard_condition :: "(string \<Rightarrow> string + bool) \<Rightarrow> int \<Rightarrow> string \<Rightarrow> Condition \<times> ReconcileResult list" where
  "dashboard_condition lookup generation ref =
     (let c = (\<lambda>status reason message. \<lparr>cd_Type = ''DashboardRefValid'', cd_Status = status, cd_Reason = reason, cd_Message = message,
                                       cd_ObservedGeneration = generation\<rparr>)
      in if ref = [] then (c ConditionTrue ''NoReference'' ''No WorkspaceDashboard referenced'', [])
         else case lookup ref of
                Inl e \<Rightarrow> (c ConditionUnknown ''LookupFailed'' (''Failed to look up WorkspaceDashboard '' @ quoted ref @ '': '' @ e),
                          [warning (''failed to look up WorkspaceDashboard '' @ quoted ref @ '': '' @ e)])
              | Inr False \<Rightarrow> (c ConditionFalse ''NotFound'' (''WorkspaceDashboard '' @ quoted ref @ '' does not exist''),
                              [failure (''Workspace references a WorkspaceDashboard which does not exist: '' @ quoted ref)])
              | Inr True \<Rightarrow> (c ConditionTrue ''Found'' (''WorkspaceDashboard '' @ quoted ref @ '' exists''), []))"

text \<open>The lookups of namespaces with their memo; \<open>get\<close> is \<open>GetNamespace\<close> of \<open>reads.go\<close>, the error when there is one.\<close>

type_synonym ns_memo = "(string, string option) gomap"

definition checkNamespace :: "(string \<Rightarrow> string option) \<Rightarrow> string \<Rightarrow> ns_memo \<Rightarrow> string option \<times> ns_memo" where
  "checkNamespace get ns memo =
     (case map_of memo ns of Some err \<Rightarrow> (err, memo) | None \<Rightarrow> (get ns, AList.update ns (get ns) memo))"

definition single_quoted :: "string \<Rightarrow> string" where
  "single_quoted s = CHR 0x27 # s @ [CHR 0x27]"

definition namespace_problems ::
  "(string \<Rightarrow> string option) \<Rightarrow> string \<Rightarrow> string \<Rightarrow> string \<Rightarrow> ns_memo \<Rightarrow> ReconcileResult list \<times> ns_memo" where
  "namespace_problems get kind attr namespace memo =
     (case checkNamespace get namespace memo of (err, memo1) \<Rightarrow>
        ((if namespace = [] then [failure (''Workspace contains a resource of type '' @ kind @ '' which does not specifiy the namespace name in '' @ attr)] else [])
         @ (case err of None \<Rightarrow> []
              | Some e \<Rightarrow> [failure (''Workspace contains a resource of type '' @ kind @ '' pointing to a namespace which does not exist: ''
                                   @ quoted namespace @ '', '' @ e)]),
         memo1))"

definition resource_problems :: "(string \<Rightarrow> string option) \<Rightarrow> WorkspaceResource \<Rightarrow> ns_memo \<Rightarrow> ReconcileResult list \<times> ns_memo" where
  "resource_problems get r memo =
     (if ws_Type r = ''namespace'' then namespace_problems get (single_quoted ''namespace'') ''resource.Id'' (ws_Id r) memo
      else if ws_Type r = ''helm'' then namespace_problems get (single_quoted ''helm'') ''resource.Namespace'' (ws_Namespace r) memo
      else if ws_Type r = ''argocd'' \<or> ws_Type r = ''flux'' then ([], memo)
      else ([failure (''Workspace contains a resource with the invalid type: '' @ quoted (ws_Type r))], memo))"

fun resources_loop :: "(string \<Rightarrow> string option) \<Rightarrow> WorkspaceResource list \<Rightarrow> ns_memo \<Rightarrow> ReconcileResult list" where
  "resources_loop get [] memo = []"
| "resources_loop get (r # rs) memo = (case resource_problems get r memo of (ps, memo1) \<Rightarrow> ps @ resources_loop get rs memo1)"

definition resources_condition :: "int \<Rightarrow> ReconcileResult list \<Rightarrow> Condition" where
  "resources_condition generation problems =
     (if problems = [] then
        \<lparr>cd_Type = ''ResourcesValid'', cd_Status = ConditionTrue, cd_Reason = ''AllResourcesFound'',
         cd_Message = ''All referenced resources exist in the cluster'', cd_ObservedGeneration = generation\<rparr>
      else
        \<lparr>cd_Type = ''ResourcesValid'', cd_Status = ConditionFalse, cd_Reason = ''ResourcesNotFound'',
         cd_Message = join ''; '' (List.map_filter rr_Err problems), cd_ObservedGeneration = generation\<rparr>)"

definition verifyWorkspaceIntegrity ::
  "(Condition \<Rightarrow> 'k \<Rightarrow> bool \<times> 'k) \<Rightarrow> ('k \<Rightarrow> 'w \<Rightarrow> string option \<times> 'w) \<Rightarrow> (string \<Rightarrow> string + bool) \<Rightarrow> (string \<Rightarrow> string option)
     \<Rightarrow> (string + 'k workspace_object) \<Rightarrow> 'w \<Rightarrow> ReconcileResult list \<times> 'w" where
  "verifyWorkspaceIntegrity set_condition patch lookup get obj w =
     (case obj of
        Inl e \<Rightarrow> ([failure (''failed to parse Workspace: '' @ e)], w)
      | Inr ws \<Rightarrow>
          (let (dashboardRef, results) = dashboard_condition lookup (wo_Generation ws) (wo_DashboardRef ws);
               problems = resources_loop get (wo_Resources ws) [];
               resources = resources_condition (wo_Generation ws) problems;
               (err, w1) = setStatusConditions set_condition patch (wo_Conditions ws) [resources, dashboardRef] w
           in (results @ problems @ (case err of None \<Rightarrow> [] | Some e \<Rightarrow> [warning (''failed to update Workspace status: '' @ e)]), w1)))"

definition reconcileWorkspaces ::
  "(Condition \<Rightarrow> 'k \<Rightarrow> bool \<times> 'k) \<Rightarrow> ('k \<Rightarrow> 'w \<Rightarrow> string option \<times> 'w) \<Rightarrow> (string \<Rightarrow> string + bool) \<Rightarrow> (string \<Rightarrow> string option)
     \<Rightarrow> operation \<Rightarrow> (string + 'k workspace_object) \<Rightarrow> 'w \<Rightarrow> ReconcileResult list \<times> 'w" where
  "reconcileWorkspaces set_condition patch lookup get op obj w =
     (if op \<noteq> DeleteOp then verifyWorkspaceIntegrity set_condition patch lookup get obj w else ([], w))"

section \<open>Workspace dashboards\<close>

text \<open>Workspaces of the API server in the namespace of the dashboard; \<open>patch\<close> removes the reference of one.\<close>

definition dashboard_ref :: "json \<Rightarrow> string" where
  "dashboard_ref workspace = nested_string workspace [''spec'', ''dashboardRef'']"

definition clearWorkspaceDashboardRefs :: "json list option \<Rightarrow> (string \<Rightarrow> 'w \<Rightarrow> 'w) \<Rightarrow> string \<Rightarrow> 'w \<Rightarrow> 'w" where
  "clearWorkspaceDashboardRefs workspaces patch name w =
     (case workspaces of None \<Rightarrow> w | Some items \<Rightarrow> fold (\<lambda>ws. if dashboard_ref ws = name then patch (GetName ws) else (\<lambda>w. w)) items w)"

definition requeueReferencingWorkspaces :: "json \<Rightarrow> json \<Rightarrow> bool" where
  "requeueReferencingWorkspaces dashboard workspace \<longleftrightarrow>
     GetNamespace workspace = GetNamespace dashboard \<and> dashboard_ref workspace = GetName dashboard"

record CrdReference =
  cr_ApiVersion :: string
  cr_Kind :: string

definition reference_key :: "CrdReference \<Rightarrow> string" where
  "reference_key r = cr_ApiVersion r @ ''/'' @ cr_Kind r"

fun missing_loop :: "string list \<Rightarrow> string list \<Rightarrow> CrdReference list \<Rightarrow> string list" where
  "missing_loop available seen [] = []"
| "missing_loop available seen (r # rs) =
     (if reference_key r \<in> set available \<or> reference_key r \<in> set seen then missing_loop available seen rs
      else reference_key r # missing_loop available (reference_key r # seen) rs)"

record 'k dashboard_object =
  do_Generation :: int
  do_ResourceTables :: "CrdReference list list"
  do_Conditions :: 'k

definition verifyWorkspaceDashboardIntegrity ::
  "(Condition \<Rightarrow> 'k \<Rightarrow> bool \<times> 'k) \<Rightarrow> ('k \<Rightarrow> 'w \<Rightarrow> string option \<times> 'w) \<Rightarrow> (string + CrdReference list)
     \<Rightarrow> (string + 'k dashboard_object) \<Rightarrow> 'w \<Rightarrow> ReconcileResult list \<times> 'w" where
  "verifyWorkspaceDashboardIntegrity set_condition patch available obj w =
     (case obj of
        Inl e \<Rightarrow> ([failure (''failed to parse WorkspaceDashboard: '' @ e)], w)
      | Inr d \<Rightarrow>
          (case available of
             Inl e \<Rightarrow> ([warning (''failed to discover available resources: '' @ e)], w)
           | Inr kinds \<Rightarrow>
               (let missing = missing_loop (map reference_key kinds) [] (concat (do_ResourceTables d)); names = join '', '' missing;
                    c = (\<lambda>status reason message. \<lparr>cd_Type = ''ResourcesValid'', cd_Status = status, cd_Reason = reason, cd_Message = message,
                                                  cd_ObservedGeneration = do_Generation d\<rparr>);
                    (cond, results) =
                      (if missing = [] then (c ConditionTrue ''AllResourcesFound'' ''All referenced resource types exist in the cluster'', [])
                       else (c ConditionFalse ''ResourcesNotFound'' (''Referenced resource types do not exist in the cluster: '' @ names),
                             [failure (''WorkspaceDashboard references resource types which do not exist in the cluster: '' @ names)]));
                    (err, w1) = setStatusConditions set_condition patch (do_Conditions d) [cond] w
                in (results @ (case err of None \<Rightarrow> [] | Some e \<Rightarrow> [warning (''failed to update WorkspaceDashboard status: '' @ e)]), w1))))"

text \<open>The third component says whether the workspaces that refer to the dashboard are run again.\<close>

definition reconcileWorkspaceDashboards ::
  "(Condition \<Rightarrow> 'k \<Rightarrow> bool \<times> 'k) \<Rightarrow> ('k \<Rightarrow> 'w \<Rightarrow> string option \<times> 'w) \<Rightarrow> (string + CrdReference list) \<Rightarrow> json list option
     \<Rightarrow> (string \<Rightarrow> 'w \<Rightarrow> 'w) \<Rightarrow> operation \<Rightarrow> json \<Rightarrow> (string + 'k dashboard_object) \<Rightarrow> 'w \<Rightarrow> ReconcileResult list \<times> 'w \<times> bool" where
  "reconcileWorkspaceDashboards set_condition patch available workspaces clear op raw obj w =
     (if op = DeleteOp then ([], clearWorkspaceDashboardRefs workspaces clear (GetName raw) w, True)
      else case verifyWorkspaceDashboardIntegrity set_condition patch available obj w of (results, w1) \<Rightarrow> (results, w1, op = CreateOp))"

section \<open>UI configurations\<close>

definition api_group :: "string \<Rightarrow> string" where
  "api_group apiVersion = (if CHR ''/'' \<in> set apiVersion then takeWhile (\<lambda>c. c \<noteq> CHR ''/'') apiVersion else [])"

definition expectedUIConfigName :: "CrdReference \<Rightarrow> string" where
  "expectedUIConfigName reference =
     (let group = api_group (cr_ApiVersion reference); name = to_lower (cr_Kind reference)
      in if group \<noteq> [] then name @ ''.'' @ to_lower group else name)"

record 'k uiconfig_object =
  uo_Name :: string
  uo_Generation :: int
  uo_Reference :: CrdReference
  uo_Conditions :: 'k

definition verifyUIConfigName ::
  "(Condition \<Rightarrow> 'k \<Rightarrow> bool \<times> 'k) \<Rightarrow> ('k \<Rightarrow> 'w \<Rightarrow> string option \<times> 'w) \<Rightarrow> (string + 'k uiconfig_object) \<Rightarrow> 'w \<Rightarrow> ReconcileResult list \<times> 'w" where
  "verifyUIConfigName set_condition patch obj w =
     (case obj of
        Inl e \<Rightarrow> ([failure (''failed to parse UIConfig: '' @ e)], w)
      | Inr u \<Rightarrow>
          (let expected = expectedUIConfigName (uo_Reference u);
               c = (\<lambda>status reason message. \<lparr>cd_Type = ''NameValid'', cd_Status = status, cd_Reason = reason, cd_Message = message,
                                             cd_ObservedGeneration = uo_Generation u\<rparr>);
               (cond, results) =
                 (if uo_Name u = expected then
                    (c ConditionTrue ''NameMatchesReference'' ''metadata.name matches the deterministic name derived from spec.reference'', [])
                  else
                    (c ConditionFalse ''NameMismatch''
                       (''metadata.name must be '' @ quoted expected @ '' (derived from spec.reference '' @ cr_ApiVersion (uo_Reference u) @ ''/''
                        @ cr_Kind (uo_Reference u) @ ''); the platform will not find this config under '' @ quoted (uo_Name u)),
                     [failure (''UIConfig '' @ quoted (uo_Name u) @ '' does not follow the deterministic naming scheme, expected '' @ quoted expected)]));
               (err, w1) = setStatusConditions set_condition patch (uo_Conditions u) [cond] w
           in (results @ (case err of None \<Rightarrow> [] | Some e \<Rightarrow> [warning (''failed to update UIConfig status: '' @ e)]), w1)))"

definition reconcileUIConfigs ::
  "(Condition \<Rightarrow> 'k \<Rightarrow> bool \<times> 'k) \<Rightarrow> ('k \<Rightarrow> 'w \<Rightarrow> string option \<times> 'w) \<Rightarrow> operation \<Rightarrow> (string + 'k uiconfig_object) \<Rightarrow> 'w
     \<Rightarrow> ReconcileResult list \<times> 'w" where
  "reconcileUIConfigs set_condition patch op obj w = (if op = DeleteOp then ([], w) else verifyUIConfigName set_condition patch obj w)"

section \<open>Manual runs\<close>

text \<open>An API server that holds one agent and refuses a status write made with an old resource version, as
  the API server does, and a queue of runs that takes a run when it is free.\<close>

record 'k agent_world =
  aw_object :: "'k agent_object"
  aw_runs :: "string list"

definition put_agent_status :: "'k agent_object \<Rightarrow> 'k agent_world \<Rightarrow> string option \<times> 'k agent_world" where
  "put_agent_status a w =
     (if ao_ResourceVersion a = ao_ResourceVersion (aw_object w)
      then (None, w\<lparr>aw_object := (aw_object w)\<lparr>ao_Conditions := ao_Conditions a, ao_ObservedGeneration := ao_ObservedGeneration a,
                                  ao_LastHandledTriggerAt := ao_LastHandledTriggerAt a, ao_ResourceVersion := ao_ResourceVersion a + 1\<rparr>\<rparr>)
      else (Some ''conflict'', w))"

definition trigger_run :: "bool \<Rightarrow> string \<Rightarrow> 'k agent_world \<Rightarrow> string option \<times> 'k agent_world" where
  "trigger_run free name w =
     (if free then (None, w\<lparr>aw_runs := aw_runs w @ [ao_RunRequestedAt (aw_object w)]\<rparr>) else (Some ''a run is already open'', w))"

definition agent_server :: "('k agent_world, 'k) handler_env \<Rightarrow> bool \<Rightarrow> ('k agent_world, 'k) handler_env" where
  "agent_server E free = E\<lparr>hv_TriggerAgent := trigger_run free, hv_UpdateAgentStatus := put_agent_status\<rparr>"

definition reconcile_agent :: "('k agent_world, 'k) handler_env \<Rightarrow> bool \<Rightarrow> 'k agent_world \<Rightarrow> 'k agent_world" where
  "reconcile_agent E free w = snd (reconcileAgents (agent_server E free) UpdateOp (Inr (aw_object w)) w)"

definition run_requested :: "('k agent_world, 'k) handler_env \<Rightarrow> 'k agent_object \<Rightarrow> bool" where
  "run_requested E a \<longleftrightarrow> fst (evaluateAgent E a) = ConditionTrue \<and> as_Enabled (an_Spec (ao_Agent a))
     \<and> ao_RunRequestedAt a \<noteq> [] \<and> ao_RunRequestedAt a \<noteq> ao_LastHandledTriggerAt a"

lemma server_simps:
  "hv_own (agent_server E free) = hv_own E" "hv_parses (agent_server E free) = hv_parses E" "hv_agentError (agent_server E free) = hv_agentError E"
  "hv_modelError (agent_server E free) = hv_modelError E" "hv_GetWorkspace (agent_server E free) = hv_GetWorkspace E"
  "hv_models (agent_server E free) = hv_models E" "hv_GetMcpServer (agent_server E free) = hv_GetMcpServer E"
  "hv_find (agent_server E free) = hv_find E" "hv_set (agent_server E free) = hv_set E"
  "hv_TriggerAgent (agent_server E free) = trigger_run free" "hv_UpdateAgentStatus (agent_server E free) = put_agent_status"
  by (simp_all add: agent_server_def)

lemma check_mcp_servers_server: "check_mcp_servers (agent_server E free) refs = check_mcp_servers E refs"
  by (induction refs) (simp_all only: check_mcp_servers.simps server_simps)

lemma evaluateAgent_server: "evaluateAgent (agent_server E free) a = evaluateAgent E a"
  unfolding evaluateAgent_def check_model_ref_def check_mcp_servers_server server_simps ..

lemma evaluateAgent_spec:
  "ao_Agent a = ao_Agent b \<Longrightarrow> ao_Namespace a = ao_Namespace b \<Longrightarrow> evaluateAgent E a = evaluateAgent E b"
  by (simp add: evaluateAgent_def)

text \<open>One reconcile: a requested run is started when the queue is free and then recorded as handled; the rest
  of the object a user declares stays as it is.\<close>

definition same_request :: "'k agent_object \<Rightarrow> 'k agent_object \<Rightarrow> bool" where
  "same_request a b \<longleftrightarrow> ao_Agent b = ao_Agent a \<and> ao_Namespace b = ao_Namespace a \<and> ao_RunRequestedAt b = ao_RunRequestedAt a"

lemma put_agent_status_effect:
  assumes "put_agent_status a w = (e, w')"
  shows "aw_runs w' = aw_runs w" "same_request (aw_object w) (aw_object w')"
    "ao_LastHandledTriggerAt (aw_object w') \<in> {ao_LastHandledTriggerAt (aw_object w), ao_LastHandledTriggerAt a}"
  using assms by (auto simp: put_agent_status_def same_request_def split: if_splits)

lemma manual_trigger_effect:
  assumes "manual_trigger (agent_server E free) (fst (evaluateAgent E (aw_object w))) (aw_object w) w = (results, a, w')"
  shows "aw_runs w' = aw_runs w @ (if run_requested E (aw_object w) \<and> free then [ao_RunRequestedAt (aw_object w)] else [])"
    "same_request (aw_object w) (aw_object w')" "ao_LastHandledTriggerAt a = ao_LastHandledTriggerAt (aw_object w')"
    "ao_LastHandledTriggerAt (aw_object w')
       = (if run_requested E (aw_object w) \<and> free then ao_RunRequestedAt (aw_object w) else ao_LastHandledTriggerAt (aw_object w))"
  using assms by (auto simp: manual_trigger_def run_requested_def agent_server_def trigger_run_def put_agent_status_def same_request_def Let_def
      split: if_splits)

lemma reconcile_agent_effect:
  shows "aw_runs (reconcile_agent E free w)
      = aw_runs w @ (if run_requested E (aw_object w) \<and> free then [ao_RunRequestedAt (aw_object w)] else [])"
    "same_request (aw_object w) (aw_object (reconcile_agent E free w))"
    "ao_LastHandledTriggerAt (aw_object (reconcile_agent E free w))
       = (if run_requested E (aw_object w) \<and> free then ao_RunRequestedAt (aw_object w) else ao_LastHandledTriggerAt (aw_object w))"
proof -
  obtain results a w1 where m:
    "manual_trigger (agent_server E free) (fst (evaluateAgent E (aw_object w))) (aw_object w) w = (results, a, w1)"
    using prod_cases3 by blast
  note t = manual_trigger_effect [OF m]
  let ?b = "a\<lparr>ao_Conditions := snd (hv_set E (ready_condition (evaluateAgent E (aw_object w)) (ao_Generation a)) (ao_Conditions a)),
                ao_ObservedGeneration := ao_Generation a\<rparr>"
  have "reconcile_agent E free w \<in> {w1, snd (put_agent_status ?b w1)}"
    unfolding reconcile_agent_def reconcileAgents_def evaluateAgent_server server_simps
    by (simp add: m Let_def split: prod.split option.split)
  moreover have "ao_LastHandledTriggerAt ?b = ao_LastHandledTriggerAt a" by simp
  ultimately obtain b e where "reconcile_agent E free w = w1 \<or> ao_LastHandledTriggerAt b = ao_LastHandledTriggerAt a \<and> put_agent_status b w1 = (e, reconcile_agent E free w)"
    by (metis empty_iff insert_iff prod.collapse)
  then have 1: "aw_runs (reconcile_agent E free w) = aw_runs w1" "same_request (aw_object w1) (aw_object (reconcile_agent E free w))"
    "ao_LastHandledTriggerAt (aw_object (reconcile_agent E free w)) = ao_LastHandledTriggerAt (aw_object w1)"
    using put_agent_status_effect [of b w1 e "reconcile_agent E free w"] t(3) by (auto simp: same_request_def)
  show "aw_runs (reconcile_agent E free w)
      = aw_runs w @ (if run_requested E (aw_object w) \<and> free then [ao_RunRequestedAt (aw_object w)] else [])"
    "same_request (aw_object w) (aw_object (reconcile_agent E free w))"
    "ao_LastHandledTriggerAt (aw_object (reconcile_agent E free w))
       = (if run_requested E (aw_object w) \<and> free then ao_RunRequestedAt (aw_object w) else ao_LastHandledTriggerAt (aw_object w))"
    using 1 t by (auto simp: same_request_def)
qed

lemma run_requested_same:
  assumes "same_request a b"
  shows "run_requested E b \<longleftrightarrow> fst (evaluateAgent E a) = ConditionTrue \<and> as_Enabled (an_Spec (ao_Agent a))
     \<and> ao_RunRequestedAt a \<noteq> [] \<and> ao_RunRequestedAt a \<noteq> ao_LastHandledTriggerAt b"
  using assms evaluateAgent_spec [of a b E] by (auto simp: run_requested_def same_request_def)


text \<open>The second status write of a reconcile that started a run carries the resource version from before the
  first: it is refused, the reconcile fails and the condition is not stored.\<close>

lemma second_status_write_refused:
  assumes "run_requested E (aw_object w)"
    "\<not> up_to_date (hv_find E (ao_Conditions (aw_object w)) ''Ready'') (ao_ObservedGeneration (aw_object w)) (ao_Generation (aw_object w))
        (evaluateAgent E (aw_object w))"
  shows "fst (reconcileAgents (agent_server E True) UpdateOp (Inr (aw_object w)) w)
      = [failure (''failed to update status of agent '' @ quoted (an_Name (ao_Agent (aw_object w))) @ '': '' @ ''conflict'')]"
    "ao_Conditions (aw_object (reconcile_agent E True w)) = ao_Conditions (aw_object w)"
  using assms unfolding reconcile_agent_def reconcileAgents_def evaluateAgent_server server_simps
  by (simp_all add: manual_trigger_def server_simps trigger_run_def put_agent_status_def run_requested_def Let_def)

section \<open>The default model\<close>

text \<open>The models of the cluster with their status, and a status write that is stored.\<close>

definition put_model_status :: "'k model_object \<Rightarrow> 'k model_object list \<Rightarrow> string option \<times> 'k model_object list" where
  "put_model_status m ms = (None, map (\<lambda>x. if am_Name (mo_Model x) = am_Name (mo_Model m) then m else x) ms)"

definition model_server :: "('k model_object list, 'k) handler_env \<Rightarrow> 'k model_object list \<Rightarrow> bool" where
  "model_server E ms \<longleftrightarrow> condition_api (hv_find E) (hv_set E) \<and> hv_UpdateAiModelStatus E = put_model_status
     \<and> me_GetAllAiModels (hv_models E) (hv_own E) = Some (map mo_Model ms)
     \<and> distinct (map (am_Name \<circ> mo_Model) ms) \<and> (\<forall>m \<in> set ms. mo_ResetUsageAt m = mo_LastUsageResetAt m)"

definition stale :: "('k model_object list, 'k) handler_env \<Rightarrow> 'k model_object \<Rightarrow> bool" where
  "stale E m \<longleftrightarrow> \<not> up_to_date (hv_find E (mo_Conditions m) ''Ready'') (mo_ObservedGeneration m) (mo_Generation m) (evaluateAiModel E (mo_Model m))"

definition model_named :: "string \<Rightarrow> 'k model_object list \<Rightarrow> 'k model_object option" where
  "model_named n ms = find (\<lambda>m. am_Name (mo_Model m) = n) ms"

definition other_defaults :: "string \<Rightarrow> 'k model_object list \<Rightarrow> string list" where
  "other_defaults n ms = map (am_Name \<circ> mo_Model) (filter (\<lambda>m. am_Name (mo_Model m) \<noteq> n \<and> sp_Default (am_Spec (mo_Model m))) ms)"

text \<open>The models that wait to be reconciled, in order; one whose condition changed queues the other defaults.\<close>

partial_function (option) requeue_run ::
  "('k model_object list, 'k) handler_env \<Rightarrow> string list \<Rightarrow> 'k model_object list \<Rightarrow> 'k model_object list option" where
  "requeue_run E queue ms =
     (case queue of
        [] \<Rightarrow> Some ms
      | n # q \<Rightarrow>
          (case model_named n ms of
             None \<Rightarrow> requeue_run E q ms
           | Some m \<Rightarrow>
               (case reconcileAiModels E UpdateOp (Inr m) ms of
                  (results, ms1, again) \<Rightarrow> requeue_run E (q @ (if again then other_defaults n ms1 else [])) ms1)))"

definition settled :: "('k model_object list, 'k) handler_env \<Rightarrow> 'k model_object \<Rightarrow> 'k model_object" where
  "settled E m = m\<lparr>mo_Conditions := snd (hv_set E (ready_condition (evaluateAiModel E (mo_Model m)) (mo_Generation m)) (mo_Conditions m)),
                   mo_ObservedGeneration := mo_Generation m\<rparr>"

lemma reconcile_model:
  assumes "model_server E ms" "m \<in> set ms"
  shows "snd (reconcileAiModels E UpdateOp (Inr m) ms)
     = (if stale E m then (snd (put_model_status (settled E m) ms), True) else (ms, False))"
  using assms by (auto simp: reconcileAiModels_def usage_reset_def stale_def settled_def model_server_def put_model_status_def Let_def)

lemma settled_not_stale:
  assumes "model_server E ms"
  shows "\<not> stale E (settled E m)"
proof -
  have "condition_api (hv_find E) (hv_set E)" using assms by (simp add: model_server_def)
  from condition_api.find_set [OF this] show ?thesis
    by (simp add: stale_def settled_def up_to_date_def ready_condition_def)
qed

definition put_settled :: "('k model_object list, 'k) handler_env \<Rightarrow> 'k model_object \<Rightarrow> 'k model_object list \<Rightarrow> 'k model_object list" where
  "put_settled E m ms = snd (put_model_status (settled E m) ms)"

lemma named_Some: "model_named n ms = Some m \<Longrightarrow> m \<in> set ms \<and> am_Name (mo_Model m) = n"
  by (auto simp: model_named_def find_Some_iff)

lemma named_None: "model_named n ms = None \<longleftrightarrow> (\<forall>m \<in> set ms. am_Name (mo_Model m) \<noteq> n)"
  by (auto simp: model_named_def find_None_iff)

lemma settled_model [simp]: "mo_Model (settled E m) = mo_Model m" "mo_ResetUsageAt (settled E m) = mo_ResetUsageAt m"
  "mo_LastUsageResetAt (settled E m) = mo_LastUsageResetAt m"
  by (simp_all add: settled_def)

lemma same_name:
  assumes "model_server E ms" "m \<in> set ms" "x \<in> set ms" "am_Name (mo_Model x) = am_Name (mo_Model m)"
  shows "x = m"
  using assms by (auto simp: model_server_def distinct_map inj_on_def)

lemma put_settled_alt:
  assumes "model_server E ms" "m \<in> set ms"
  shows "put_settled E m ms = map (\<lambda>x. if x = m then settled E m else x) ms"
  using same_name [OF assms] by (auto simp: put_settled_def put_model_status_def)

lemma put_settled_models:
  assumes "model_server E ms" "m \<in> set ms"
  shows "map mo_Model (put_settled E m ms) = map mo_Model ms"
  by (simp add: put_settled_alt [OF assms] cong: if_cong)

lemma put_settled_server:
  assumes "model_server E ms" "m \<in> set ms"
  shows "model_server E (put_settled E m ms)"
proof -
  have "map (am_Name \<circ> mo_Model) (put_settled E m ms) = map am_Name (map mo_Model (put_settled E m ms))" by simp
  then have "map (am_Name \<circ> mo_Model) (put_settled E m ms) = map (am_Name \<circ> mo_Model) ms"
    by (simp only: put_settled_models [OF assms] map_map)
  moreover have "\<forall>x \<in> set (put_settled E m ms). mo_ResetUsageAt x = mo_LastUsageResetAt x"
    using assms by (auto simp: put_settled_alt model_server_def)
  ultimately show ?thesis using assms put_settled_models [OF assms] by (simp add: model_server_def)
qed

definition stale_count :: "('k model_object list, 'k) handler_env \<Rightarrow> 'k model_object list \<Rightarrow> nat" where
  "stale_count E ms = length (filter (stale E) ms)"

lemma count_replaced:
  assumes "distinct xs" "m \<in> set xs" "P m" "\<not> P m'"
  shows "Suc (length (filter P (map (\<lambda>x. if x = m then m' else x) xs))) = length (filter P xs)"
  using assms
proof (induction xs)
  case (Cons x xs)
  have "map (\<lambda>x. if x = m then m' else x) xs = xs" if "m \<notin> set xs" using that by (induction xs) auto
  then have "length (filter P (map (\<lambda>x. if x = m then m' else x) xs)) = length (filter P xs)" if "m \<notin> set xs" using that by simp
  with Cons show ?case by (cases "x = m") auto
qed simp

lemma stale_count_drops:
  assumes "model_server E ms" "m \<in> set ms" "stale E m"
  shows "Suc (stale_count E (put_settled E m ms)) = stale_count E ms"
proof -
  have "distinct ms" using assms(1) by (auto simp: model_server_def distinct_map)
  from count_replaced [OF this assms(2), of "stale E" "settled E m"] assms(3) settled_not_stale [OF assms(1)] show ?thesis
    by (simp add: stale_count_def put_settled_alt [OF assms(1,2)])
qed

text \<open>A queue that comes to its end leaves every model of the queue up to date and touches no other specification.\<close>

definition run_ok :: "('k model_object list, 'k) handler_env \<Rightarrow> string list \<Rightarrow> 'k model_object list \<Rightarrow> bool" where
  "run_ok E queue ms \<longleftrightarrow>
     (\<exists>ms'. requeue_run E queue ms = Some ms' \<and> model_server E ms' \<and> map mo_Model ms' = map mo_Model ms
        \<and> (\<forall>m \<in> set ms'. am_Name (mo_Model m) \<in> set queue \<longrightarrow> \<not> stale E m) \<and> (\<forall>m \<in> set ms. \<not> stale E m \<longrightarrow> m \<in> set ms'))"

lemma run_ok_missing:
  assumes "model_named n ms = None" "run_ok E q ms"
  shows "run_ok E (n # q) ms"
proof -
  have run: "requeue_run E (n # q) ms = requeue_run E q ms" using assms(1) by (subst requeue_run.simps) simp
  have "am_Name (mo_Model m) \<noteq> n" if "map mo_Model ms' = map mo_Model ms" "m \<in> set ms'" for ms' and m :: "'a model_object"
  proof -
    have "mo_Model m \<in> mo_Model ` set ms" using that by (metis image_eqI list.set_map)
    then show ?thesis using assms(1) named_None [of n ms] by auto
  qed
  then show ?thesis using assms(2) unfolding run_ok_def run by auto
qed

lemma run_ok_fresh:
  assumes "model_server E ms" "model_named n ms = Some m" "\<not> stale E m" "run_ok E q ms"
  shows "run_ok E (n # q) ms"
proof -
  have m: "m \<in> set ms" "am_Name (mo_Model m) = n" using named_Some [OF assms(2)] by auto
  obtain res where "reconcileAiModels E UpdateOp (Inr m) ms = (res, ms, False)"
    using reconcile_model [OF assms(1) m(1)] assms(3) by (metis prod.collapse)
  then have run: "requeue_run E (n # q) ms = requeue_run E q ms" using assms(2) by (subst requeue_run.simps) simp
  have "x = m" if "model_server E ms'" "\<forall>m \<in> set ms. \<not> stale E m \<longrightarrow> m \<in> set ms'" "x \<in> set ms'" "am_Name (mo_Model x) = n" for x ms'
    using same_name [OF that(1), of m x] that m assms(3) by simp
  then show ?thesis using assms(3,4) unfolding run_ok_def run by (metis set_ConsD)
qed

lemma run_ok_stale:
  assumes "model_server E ms" "model_named n ms = Some m" "stale E m"
    "run_ok E (q @ other_defaults n (put_settled E m ms)) (put_settled E m ms)"
  shows "run_ok E (n # q) ms"
proof -
  let ?ms = "put_settled E m ms" and ?q = "q @ other_defaults n (put_settled E m ms)"
  have m: "m \<in> set ms" "am_Name (mo_Model m) = n" using named_Some [OF assms(2)] by auto
  obtain res where "reconcileAiModels E UpdateOp (Inr m) ms = (res, ?ms, True)"
    using reconcile_model [OF assms(1) m(1)] assms(3) by (metis prod.collapse put_settled_def)
  then have run: "requeue_run E (n # q) ms = requeue_run E ?q ?ms" using assms(2) by (subst requeue_run.simps) simp
  obtain ms' where ms': "requeue_run E ?q ?ms = Some ms'" "model_server E ms'" "map mo_Model ms' = map mo_Model ?ms"
    "\<forall>m \<in> set ms'. am_Name (mo_Model m) \<in> set ?q \<longrightarrow> \<not> stale E m" "\<forall>m \<in> set ?ms. \<not> stale E m \<longrightarrow> m \<in> set ms'"
    using assms(4) unfolding run_ok_def by blast
  have "settled E m \<in> set ?ms" "\<forall>x \<in> set ms. x \<noteq> m \<longrightarrow> x \<in> set ?ms" using m by (auto simp: put_settled_alt [OF assms(1) m(1)])
  with ms'(5) settled_not_stale [OF assms(1)] have i: "settled E m \<in> set ms'" "\<forall>x \<in> set ms. \<not> stale E x \<longrightarrow> x \<in> set ms'"
    using assms(3) by auto
  have "\<not> stale E x" if "x \<in> set ms'" "am_Name (mo_Model x) = n" for x
    using same_name [OF ms'(2) i(1) that(1)] that(2) m(2) settled_not_stale [OF assms(1)] by simp
  then have "\<forall>x \<in> set ms'. am_Name (mo_Model x) \<in> set (n # q) \<longrightarrow> \<not> stale E x" using ms'(4) by simp
  moreover have "map mo_Model ms' = map mo_Model ms" using ms'(3) put_settled_models [OF assms(1) m(1)] by simp
  ultimately show ?thesis unfolding run_ok_def run using ms'(1,2) i(2) by blast
qed

lemma run_settles: "model_server E ms \<Longrightarrow> run_ok E queue ms"
proof (induction "stale_count E ms * Suc (length ms) + length queue" arbitrary: queue ms rule: less_induct)
  case less
  show ?case
  proof (cases queue)
    case Nil
    with less.prems show ?thesis unfolding run_ok_def by (subst requeue_run.simps) simp
  next
    case (Cons n q)
    have shorter: "run_ok E q ms" using less.hyps [OF _ less.prems, of q] Cons by simp
    show ?thesis
    proof (cases "model_named n ms")
      case None
      from run_ok_missing [OF this shorter] Cons show ?thesis by simp
    next
      case (Some m)
      let ?ms = "put_settled E m ms"
      have m: "m \<in> set ms" using named_Some [OF Some] by simp
      show ?thesis
      proof (cases "stale E m")
        case True
        have l: "length ?ms = length ms" using put_settled_models [OF less.prems m] by (metis length_map)
        have "length (other_defaults n ?ms) \<le> length ms" using l by (simp add: other_defaults_def) (metis length_filter_le)
        moreover have "stale_count E ms = Suc (stale_count E ?ms)" using stale_count_drops [OF less.prems m True] by simp
        ultimately have "run_ok E (q @ other_defaults n ?ms) ?ms"
          using put_settled_server [OF less.prems m] Cons l by (intro less.hyps) simp_all
        from run_ok_stale [OF less.prems Some True this] Cons show ?thesis by simp
      next
        case False
        from run_ok_fresh [OF less.prems Some False shorter] Cons show ?thesis by simp
      qed
    qed
  qed
qed

text \<open>Among models that are up to date only the winner of the election is a ready default.\<close>

definition ready_default :: "('k model_object list, 'k) handler_env \<Rightarrow> 'k model_object \<Rightarrow> bool" where
  "ready_default E m \<longleftrightarrow> sp_Default (am_Spec (mo_Model m)) \<and> map_option cd_Status (hv_find E (mo_Conditions m) ''Ready'') = Some ConditionTrue"

lemma check_default_winner:
  assumes "me_GetAllAiModels (hv_models E) (hv_own E) = Some models" "model \<in> set models" "sp_Default (am_Spec model)"
    "fst (check_default E model) = ConditionTrue"
  shows "\<exists>winner. PickDefaultAiModel models = Some winner \<and> am_Name winner = am_Name model"
proof -
  from PickDefault_Some [OF assms(2,3)] obtain d where "PickDefaultAiModel models = Some d" by blast
  with assms show ?thesis by (auto simp: check_default_def split: if_splits)
qed

lemma ready_default_winner:
  assumes "model_server E ms" "m \<in> set ms" "\<not> stale E m" "ready_default E m"
  shows "\<exists>winner. PickDefaultAiModel (map mo_Model ms) = Some winner \<and> am_Name winner = am_Name (mo_Model m)"
proof -
  have "fst (evaluateAiModel E (mo_Model m)) = ConditionTrue"
    using assms(3,4) by (auto simp: stale_def up_to_date_def ready_default_def) (metis fst_conv)
  then have "fst (check_default E (mo_Model m)) = ConditionTrue"
    by (auto simp: evaluateAiModel_def check_key_ref_def split: if_splits option.splits sum.splits model_error.splits)
  then show ?thesis
    using assms by (intro check_default_winner [of E]) (auto simp: model_server_def ready_default_def)
qed


text \<open>Two default models, neither with a status.\<close>

definition demo_objects :: "(string, Condition) gomap model_object list" where
  "demo_objects =
     map (\<lambda>(n, t). \<lparr>mo_Model = demo_model n t, mo_Generation = 1, mo_ResetUsageAt = [], mo_Conditions = [], mo_ObservedGeneration = 0,
                    mo_LastUsageResetAt = []\<rparr>) [(''a'', 1), (''b'', 2)]"

definition demo_handlers :: "((string, Condition) gomap model_object list, (string, Condition) gomap) handler_env" where
  "demo_handlers =
     \<lparr>hv_own = ''mogenius'', hv_parses = (\<lambda>_. True), hv_agentError = (\<lambda>_. []), hv_modelError = (\<lambda>_. []), hv_GetWorkspace = (\<lambda>_ _. True),
      hv_models = \<lparr>me_ownNamespace = Some ''mogenius'', me_storeSecret = (\<lambda>_ _. None), me_secretGetter = (\<lambda>_ _. None),
                   me_GetAiModel = (\<lambda>_ _. Inr None), me_GetAllAiModels = (\<lambda>_. Some (map mo_Model demo_objects))\<rparr>,
      hv_GetMcpServer = (\<lambda>_ _. None), hv_find = list_find, hv_set = list_set, hv_TriggerAgent = (\<lambda>_ w. (None, w)),
      hv_UpdateAgentStatus = (\<lambda>_ w. (None, w)), hv_ResetTokenUsageForModel = (\<lambda>_ w. (Inr 0, w)), hv_emitAiModelEvent = (\<lambda>_ _ w. w),
      hv_UpdateAiModelStatus = put_model_status\<rparr>"

lemma demo_handlers_ok: "model_server demo_handlers demo_objects"
  using list_conditions.condition_api_axioms by (simp add: model_server_def demo_handlers_def demo_objects_def demo_model_def)


section \<open>Workspaces, dashboards and UI configurations\<close>

text \<open>The memo of namespace lookups does not change what is reported.\<close>

definition memo_ok :: "(string \<Rightarrow> string option) \<Rightarrow> ns_memo \<Rightarrow> bool" where
  "memo_ok get memo \<longleftrightarrow> (\<forall>ns e. map_of memo ns = Some e \<longrightarrow> e = get ns)"

lemma checkNamespace_memo: "memo_ok get memo \<Longrightarrow> fst (checkNamespace get ns memo) = get ns \<and> memo_ok get (snd (checkNamespace get ns memo))"
  by (auto simp: checkNamespace_def memo_ok_def update_conv' split: option.splits)

lemma resource_problems_memo:
  assumes "memo_ok get memo"
  shows "fst (resource_problems get r memo) = fst (resource_problems get r []) \<and> memo_ok get (snd (resource_problems get r memo))"
proof -
  have "memo_ok get []" by (simp add: memo_ok_def)
  note c = checkNamespace_memo [OF assms] checkNamespace_memo [OF this]
  have "fst (namespace_problems get kind attr ns memo) = fst (namespace_problems get kind attr ns []) \<and> memo_ok get (snd (namespace_problems get kind attr ns memo))"
    for kind attr ns
    using c(1) [of ns] c(2) [of ns] by (auto simp: namespace_problems_def split: prod.splits)
  then show ?thesis using assms by (simp add: resource_problems_def)
qed

lemma resources_loop_memo: "memo_ok get memo \<Longrightarrow> resources_loop get rs memo = concat (map (\<lambda>r. fst (resource_problems get r [])) rs)"
proof (induction rs arbitrary: memo)
  case (Cons r rs)
  from resource_problems_memo [OF Cons.prems, of r] Cons.IH show ?case by (auto split: prod.splits)
qed simp

text \<open>A workspace has valid resources exactly when every resource has a known type and, where it lives in a
  namespace, names one that exists.\<close>

definition resource_valid :: "(string \<Rightarrow> string option) \<Rightarrow> WorkspaceResource \<Rightarrow> bool" where
  "resource_valid get r \<longleftrightarrow>
     ws_Type r = ''namespace'' \<and> ws_Id r \<noteq> [] \<and> get (ws_Id r) = None
     \<or> ws_Type r = ''helm'' \<and> ws_Namespace r \<noteq> [] \<and> get (ws_Namespace r) = None
     \<or> ws_Type r = ''argocd'' \<or> ws_Type r = ''flux''"

lemma resource_problems_valid: "fst (resource_problems get r []) = [] \<longleftrightarrow> resource_valid get r"
  by (auto simp: resource_problems_def namespace_problems_def checkNamespace_def resource_valid_def split: option.splits)

lemma workspace_resources_valid:
  "cd_Status (resources_condition generation (resources_loop get rs [])) = ConditionTrue \<longleftrightarrow> (\<forall>r \<in> set rs. resource_valid get r)"
proof -
  have "resources_loop get rs [] = concat (map (\<lambda>r. fst (resource_problems get r [])) rs)"
    by (rule resources_loop_memo) (simp add: memo_ok_def)
  then show ?thesis by (simp add: resources_condition_def resource_problems_valid)
qed

text \<open>Setting conditions a second time changes nothing, so a second reconcile writes no status.\<close>

lemma set_all_settles:
  assumes "condition_api find_condition set_condition" "distinct (map cd_Type cs)"
  shows "set_all set_condition cs (snd (set_all set_condition cs k)) = (False, snd (set_all set_condition cs k))"
proof -
  note api = condition_api.find_set [OF assms(1)] condition_api.set_unchanged [OF assms(1)]
  have keep: "find_condition (snd (set_all set_condition cs k)) t = find_condition k t" if "t \<notin> cd_Type ` set cs" for cs k t
    using that by (induction cs arbitrary: k) (auto simp: api(1) split: prod.splits, metis api(1) snd_conv)
  have set': "find_condition (snd (set_all set_condition cs k)) (cd_Type c) = Some c" if "c \<in> set cs" "distinct (map cd_Type cs)" for cs k c
    using that
  proof (induction cs arbitrary: k)
    case (Cons d cs)
    show ?case
    proof (cases "c = d")
      case True
      with Cons.prems keep [of "cd_Type d" cs] show ?thesis by (auto simp: api(1) split: prod.splits) (metis api(1) snd_conv)
    next
      case False
      with Cons show ?thesis by (auto split: prod.splits) (metis snd_conv)
    qed
  qed simp
  have "set_all set_condition ds k' = (False, k')" if "\<forall>c \<in> set ds. find_condition k' (cd_Type c) = Some c" for ds k'
    using that by (induction ds) (simp_all add: api(2))
  then show ?thesis using set' assms(2) by blast
qed

lemma setStatusConditions_settles:
  assumes "condition_api find_condition set_condition" "distinct (map cd_Type cs)"
  shows "setStatusConditions set_condition patch (snd (set_all set_condition cs k)) cs w = (None, w)"
  using set_all_settles [OF assms] by (simp add: setStatusConditions_def)

text \<open>After a dashboard is deleted the reference of every listed workspace to it has been removed.\<close>

lemma dashboard_refs_cleared:
  "clearWorkspaceDashboardRefs (Some items) (\<lambda>n cleared. cleared @ [n]) name [] = map GetName (filter (\<lambda>ws. dashboard_ref ws = name) items)"
proof -
  have "fold (\<lambda>ws. if dashboard_ref ws = name then (\<lambda>cleared. cleared @ [GetName ws]) else (\<lambda>w. w)) items acc
      = acc @ map GetName (filter (\<lambda>ws. dashboard_ref ws = name) items)" for acc
    by (induction items arbitrary: acc) auto
  then show ?thesis by (simp add: clearWorkspaceDashboardRefs_def)
qed

text \<open>The kinds a dashboard misses are reported once each.\<close>

lemma missing_loop_set: "set (missing_loop available seen rs) = reference_key ` set rs - set available - set seen"
  by (induction rs arbitrary: seen) auto

lemma missing_loop_distinct: "distinct (missing_loop available seen rs)"
  by (induction rs arbitrary: seen) (auto simp: missing_loop_set)

end
