(* ===== verification/AiModelKeys.thy ===== *)
theory AiModelKeys
  imports AiModels
begin

text \<open>
  The managed secret of an AI model's API key: \<open>core/aimodel_apikey.go\<close>.

  A key given in plain text is stored in a Secret that the operator owns, referenced by the model and
  owned by it. The API server for secrets and models is a parameter; other clients change its
  objects between any two calls. The locale \<open>secret_server\<close> states what the code relies on: a write
  carries the resource version it was read with and is refused when that is no longer current, a
  delete carries the UID, and a version of an object never changes. \<open>log\<close> is the history of what this
  client replaced or deleted, \<open>versions\<close> the versions of secrets that were ever stored.
\<close>

section \<open>Names\<close>

definition DNS1123SubdomainMaxLength :: nat where "DNS1123SubdomainMaxLength = 253"
definition LabelValueMaxLength :: nat where "LabelValueMaxLength = 63"

text \<open>\<open>sha\<close> is the hexadecimal SHA-256 digest.\<close>

definition truncateWithHash :: "(string \<Rightarrow> string) \<Rightarrow> string \<Rightarrow> nat \<Rightarrow> string" where
  "truncateWithHash sha s maxLen =
     (if length s \<le> maxLen then s
      else let suffix = take 10 (sha s) in take (maxLen - length suffix - 1) s @ ''-'' @ suffix)"

definition managedAiModelSecretName :: "(string \<Rightarrow> string) \<Rightarrow> string \<Rightarrow> string" where
  "managedAiModelSecretName sha modelName =
     ''aimodel-'' @ truncateWithHash sha modelName (DNS1123SubdomainMaxLength - length ''aimodel-'' - length ''-api-key'') @ ''-api-key''"

section \<open>Secrets and models\<close>

record OwnerReference =
  ow_APIVersion :: string
  ow_Kind :: string
  ow_Name :: string
  ow_UID :: string

record Secret =
  sc_Name :: string
  sc_UID :: string
  sc_ResourceVersion :: string
  sc_Labels :: "(string, string) gomap"
  sc_Data :: "(string, string) gomap"
  sc_OwnerReferences :: "OwnerReference list"

record model_cr =
  mc_Name :: string
  mc_UID :: string
  mc_Spec :: AiModelSpec

datatype key_error =
    NotFound
  | AlreadyExists
  | Conflict
  | ServerError string
  | NotManaged string
  | Exclusive string
  | GetSecret string key_error
  | CreateSecret string key_error
  | UpdateSecret string key_error
  | DeleteSecret string key_error
  | Provision key_error

definition aiModelSecretManagedByLabelKey :: string where "aiModelSecretManagedByLabelKey = ''app.kubernetes.io/managed-by''"
definition aiModelSecretManagedByLabelValue :: string where "aiModelSecretManagedByLabelValue = ''mogenius-k8s-manager''"
definition aiModelSecretModelLabelKey :: string where "aiModelSecretModelLabelKey = ''mogenius.com/aimodel''"

definition applyManagedApiKeyRef :: "(string \<Rightarrow> string) \<Rightarrow> string \<Rightarrow> AiModelSpec \<Rightarrow> string \<Rightarrow> key_error + AiModelSpec" where
  "applyManagedApiKeyRef sha modelName spec apiKey =
     (let managedName = managedAiModelSecretName sha modelName;
          wired = spec\<lparr>sp_ApiKeySecretRef := Some \<lparr>sr_Name = managedName, sr_Key = DefaultApiKeySecretKey\<rparr>\<rparr>
      in if apiKey = [] then Inr spec
         else case sp_ApiKeySecretRef spec of
                Some ref \<Rightarrow> if sr_Name ref \<noteq> [] \<and> sr_Name ref \<noteq> managedName then Inl (Exclusive (sr_Name ref)) else Inr wired
              | None \<Rightarrow> Inr wired)"

definition aiModelOwnerReference :: "model_cr \<Rightarrow> OwnerReference" where
  "aiModelOwnerReference model = \<lparr>ow_APIVersion = ''mogenius.com/v1alpha1'', ow_Kind = ''AiModel'', ow_Name = mc_Name model, ow_UID = mc_UID model\<rparr>"

definition hasAiModelOwnerReference :: "Secret \<Rightarrow> model_cr \<Rightarrow> bool" where
  "hasAiModelOwnerReference secret model \<longleftrightarrow> (\<exists>ref \<in> set (sc_OwnerReferences secret). ow_UID ref = mc_UID model)"

definition isManagedAiModelSecret :: "Secret \<Rightarrow> bool" where
  "isManagedAiModelSecret secret \<longleftrightarrow> map_of (sc_Labels secret) aiModelSecretManagedByLabelKey = Some aiModelSecretManagedByLabelValue"

section \<open>Operations\<close>

record 's cluster =
  cl_get :: "string \<Rightarrow> 's \<Rightarrow> (key_error + Secret) \<times> 's"
  cl_create :: "Secret \<Rightarrow> 's \<Rightarrow> key_error option \<times> 's"
  cl_update :: "Secret \<Rightarrow> 's \<Rightarrow> key_error option \<times> 's"
  cl_delete :: "string \<Rightarrow> string \<Rightarrow> 's \<Rightarrow> key_error option \<times> 's"
  cl_createModel :: "string \<Rightarrow> AiModelSpec \<Rightarrow> 's \<Rightarrow> (key_error + model_cr) \<times> 's"
  cl_updateModel :: "string \<Rightarrow> AiModelSpec \<Rightarrow> 's \<Rightarrow> (key_error + model_cr) \<times> 's"
  cl_getModel :: "string \<Rightarrow> 's \<Rightarrow> (key_error + model_cr) \<times> 's"

text \<open>\<open>retry.RetryOnConflict\<close> with the given number of steps.\<close>

fun RetryOnConflict :: "nat \<Rightarrow> ('s \<Rightarrow> key_error option \<times> 's) \<Rightarrow> 's \<Rightarrow> key_error option \<times> 's" where
  "RetryOnConflict 0 f s = (Some Conflict, s)"
| "RetryOnConflict (Suc n) f s = (case f s of (Some Conflict, s1) \<Rightarrow> if n = 0 then (Some Conflict, s1) else RetryOnConflict n f s1 | r \<Rightarrow> r)"

definition fresh_secret :: "(string \<Rightarrow> string) \<Rightarrow> string \<Rightarrow> string \<Rightarrow> model_cr option \<Rightarrow> Secret" where
  "fresh_secret sha modelName apiKey owner =
     \<lparr>sc_Name = managedAiModelSecretName sha modelName, sc_UID = [], sc_ResourceVersion = [],
      sc_Labels = [(aiModelSecretManagedByLabelKey, aiModelSecretManagedByLabelValue),
                   (aiModelSecretModelLabelKey, truncateWithHash sha modelName LabelValueMaxLength)],
      sc_Data = [(DefaultApiKeySecretKey, apiKey)],
      sc_OwnerReferences = (case owner of None \<Rightarrow> [] | Some m \<Rightarrow> [aiModelOwnerReference m])\<rparr>"

definition own_secret :: "model_cr option \<Rightarrow> Secret \<Rightarrow> Secret" where
  "own_secret owner secret =
     (case owner of
        None \<Rightarrow> secret
      | Some m \<Rightarrow> if hasAiModelOwnerReference secret m then secret
                  else secret\<lparr>sc_OwnerReferences := sc_OwnerReferences secret @ [aiModelOwnerReference m]\<rparr>)"

definition rotated :: "(string \<Rightarrow> string) \<Rightarrow> string \<Rightarrow> string \<Rightarrow> model_cr option \<Rightarrow> Secret \<Rightarrow> Secret" where
  "rotated sha modelName apiKey owner current =
     own_secret owner (current\<lparr>sc_Data := AList.update DefaultApiKeySecretKey apiKey (sc_Data current),
       sc_Labels := AList.update aiModelSecretModelLabelKey (truncateWithHash sha modelName LabelValueMaxLength) (sc_Labels current)\<rparr>)"

definition rotate_once :: "'s cluster \<Rightarrow> (string \<Rightarrow> string) \<Rightarrow> string \<Rightarrow> string \<Rightarrow> model_cr option \<Rightarrow> 's \<Rightarrow> key_error option \<times> 's" where
  "rotate_once C sha modelName apiKey owner s =
     (case cl_get C (managedAiModelSecretName sha modelName) s of
        (Inl e, s1) \<Rightarrow> (Some e, s1)
      | (Inr current, s1) \<Rightarrow>
          if \<not> isManagedAiModelSecret current then (Some (NotManaged (managedAiModelSecretName sha modelName)), s1)
          else cl_update C (rotated sha modelName apiKey owner current) s1)"

definition upsertManagedAiModelSecret ::
  "'s cluster \<Rightarrow> nat \<Rightarrow> (string \<Rightarrow> string) \<Rightarrow> string \<Rightarrow> string \<Rightarrow> model_cr option \<Rightarrow> 's \<Rightarrow> (key_error + bool) \<times> 's" where
  "upsertManagedAiModelSecret C steps sha modelName apiKey owner s =
     (let secretName = managedAiModelSecretName sha modelName;
          rotate = (\<lambda>s1. case RetryOnConflict steps (rotate_once C sha modelName apiKey owner) s1 of
                           (Some e, s2) \<Rightarrow> (Inl (UpdateSecret secretName e), s2) | (None, s2) \<Rightarrow> (Inr False, s2))
      in case cl_get C secretName s of
           (Inr _, s1) \<Rightarrow> rotate s1
         | (Inl e, s1) \<Rightarrow>
             if e \<noteq> NotFound then (Inl (GetSecret secretName e), s1)
             else (case cl_create C (fresh_secret sha modelName apiKey owner) s1 of
                     (None, s2) \<Rightarrow> (Inr True, s2)
                   | (Some e2, s2) \<Rightarrow> if e2 \<noteq> AlreadyExists then (Inl (CreateSecret secretName e2), s2) else rotate s2))"

definition own_once :: "'s cluster \<Rightarrow> string \<Rightarrow> model_cr \<Rightarrow> 's \<Rightarrow> key_error option \<times> 's" where
  "own_once C secretName model s =
     (case cl_get C secretName s of
        (Inl e, s1) \<Rightarrow> (Some e, s1)
      | (Inr current, s1) \<Rightarrow>
          if hasAiModelOwnerReference current model then (None, s1)
          else cl_update C (current\<lparr>sc_OwnerReferences := sc_OwnerReferences current @ [aiModelOwnerReference model]\<rparr>) s1)"

definition setAiModelOwnerReference :: "'s cluster \<Rightarrow> nat \<Rightarrow> string \<Rightarrow> model_cr \<Rightarrow> 's \<Rightarrow> key_error option \<times> 's" where
  "setAiModelOwnerReference C steps secretName model = RetryOnConflict steps (own_once C secretName model)"

definition deleteManagedAiModelSecret :: "'s cluster \<Rightarrow> (string \<Rightarrow> string) \<Rightarrow> string \<Rightarrow> 's \<Rightarrow> key_error option \<times> 's" where
  "deleteManagedAiModelSecret C sha modelName s =
     (let secretName = managedAiModelSecretName sha modelName
      in case cl_get C secretName s of
           (Inl e, s1) \<Rightarrow> if e = NotFound then (None, s1) else (Some (GetSecret secretName e), s1)
         | (Inr current, s1) \<Rightarrow>
             if \<not> isManagedAiModelSecret current then (Some (NotManaged secretName), s1)
             else (case cl_delete C secretName (sc_UID current) s1 of
                     (Some e, s2) \<Rightarrow> if e = NotFound then (None, s2) else (Some (DeleteSecret secretName e), s2)
                   | (None, s2) \<Rightarrow> (None, s2)))"

definition references :: "string \<Rightarrow> model_cr \<Rightarrow> bool" where
  "references secretName model \<longleftrightarrow> (\<exists>ref. sp_ApiKeySecretRef (mc_Spec model) = Some ref \<and> sr_Name ref = secretName)"

definition rollbackManagedAiModelSecret ::
  "'s cluster \<Rightarrow> (string \<Rightarrow> string) \<Rightarrow> string \<Rightarrow> bool \<Rightarrow> key_error \<Rightarrow> 's \<Rightarrow> 's" where
  "rollbackManagedAiModelSecret C sha name createdFresh createErr s =
     (let secretName = managedAiModelSecretName sha name
      in if \<not> createdFresh then s
         else if createErr = AlreadyExists
         then (case cl_getModel C name s of
                 (Inr existing, s1) \<Rightarrow> if references secretName existing then s1 else snd (deleteManagedAiModelSecret C sha name s1)
               | (Inl _, s1) \<Rightarrow> snd (deleteManagedAiModelSecret C sha name s1))
         else snd (deleteManagedAiModelSecret C sha name s))"

definition createAiModelWithManagedSecret ::
  "'s cluster \<Rightarrow> nat \<Rightarrow> (string \<Rightarrow> string) \<Rightarrow> string \<Rightarrow> AiModelSpec \<Rightarrow> string \<Rightarrow> 's \<Rightarrow> (key_error + model_cr) \<times> 's" where
  "createAiModelWithManagedSecret C steps sha name spec apiKey s =
     (if apiKey = [] then cl_createModel C name spec s
      else case upsertManagedAiModelSecret C steps sha name apiKey None s of
             (Inl e, s1) \<Rightarrow> (Inl (Provision e), s1)
           | (Inr createdFresh, s1) \<Rightarrow>
               (case cl_createModel C name spec s1 of
                  (Inl e, s2) \<Rightarrow> (Inl e, rollbackManagedAiModelSecret C sha name createdFresh e s2)
                | (Inr created, s2) \<Rightarrow>
                    (Inr created, snd (setAiModelOwnerReference C steps (managedAiModelSecretName sha name) created s2))))"

definition updateAiModelWithManagedSecret ::
  "'s cluster \<Rightarrow> nat \<Rightarrow> (string \<Rightarrow> string) \<Rightarrow> string \<Rightarrow> AiModelSpec \<Rightarrow> string \<Rightarrow> 's \<Rightarrow> (key_error + model_cr) \<times> 's" where
  "updateAiModelWithManagedSecret C steps sha name spec apiKey s =
     (if apiKey = [] then cl_updateModel C name spec s
      else case cl_getModel C name s of
             (Inl e, s1) \<Rightarrow> (Inl e, s1)
           | (Inr existing, s1) \<Rightarrow>
               (case upsertManagedAiModelSecret C steps sha name apiKey (Some existing) s1 of
                  (Inl e, s2) \<Rightarrow> (Inl (Provision e), s2)
                | (Inr _, s2) \<Rightarrow> cl_updateModel C name spec s2))"

section \<open>What the operator touches\<close>

text \<open>A write that replaces a secret keeps its other data and only changes the key of a managed one; a secret
  that is deleted had, when it was read, the UID of a managed one.\<close>

definition allowed :: "string \<Rightarrow> Secret set \<Rightarrow> Secret \<times> Secret option \<Rightarrow> bool" where
  "allowed secretName seen e \<longleftrightarrow>
     sc_Name (fst e) = secretName \<and>
     (case snd e of
        Some new \<Rightarrow> (\<forall>k. k \<noteq> DefaultApiKeySecretKey \<longrightarrow> map_of (sc_Data new) k = map_of (sc_Data (fst e)) k)
          \<and> (isManagedAiModelSecret (fst e) \<and> isManagedAiModelSecret new
             \<or> sc_Data new = sc_Data (fst e) \<and> sc_Labels new = sc_Labels (fst e))
      | None \<Rightarrow> (\<exists>old \<in> seen. sc_Name old = secretName \<and> sc_UID old = sc_UID (fst e) \<and> isManagedAiModelSecret old))"

lemma allowed_mono: "allowed n seen e \<Longrightarrow> seen \<subseteq> seen' \<Longrightarrow> allowed n seen' e"
  by (auto simp: allowed_def split: option.splits)

lemma own_secret_simps [simp]:
  "sc_Name (own_secret owner x) = sc_Name x" "sc_ResourceVersion (own_secret owner x) = sc_ResourceVersion x"
  "sc_Data (own_secret owner x) = sc_Data x" "sc_Labels (own_secret owner x) = sc_Labels x"
  by (simp_all add: own_secret_def split: option.split)

lemma rotated_simps [simp]: "sc_Name (rotated sha m k ow x) = sc_Name x" "sc_ResourceVersion (rotated sha m k ow x) = sc_ResourceVersion x"
  by (simp_all add: rotated_def)

lemma rotated_allowed:
  assumes "sc_Name x = n" "isManagedAiModelSecret x"
  shows "allowed n seen (x, Some (rotated sha m k ow x))"
  using assms by (auto simp: allowed_def rotated_def isManagedAiModelSecret_def update_conv' aiModelSecretModelLabelKey_def
      aiModelSecretManagedByLabelKey_def)

text \<open>From one state to another only such writes were made by this client.\<close>

definition careful ::
  "('s \<Rightarrow> (Secret \<times> Secret option) list) \<Rightarrow> ('s \<Rightarrow> Secret set) \<Rightarrow> string \<Rightarrow> 's \<Rightarrow> 's \<Rightarrow> bool" where
  "careful log versions n s s' \<longleftrightarrow>
     versions s \<subseteq> versions s' \<and> (\<exists>ws. log s' = log s @ ws \<and> (\<forall>e \<in> set ws. allowed n (versions s') e))"

text \<open>The contract of the API server.\<close>

locale secret_server =
  fixes C :: "'s cluster" and log :: "'s \<Rightarrow> (Secret \<times> Secret option) list" and versions :: "'s \<Rightarrow> Secret set"
  assumes get_seen: "cl_get C n s = (Inr x, s') \<Longrightarrow> x \<in> versions s' \<and> sc_Name x = n"
    and get_keeps: "cl_get C n s = (g, s') \<Longrightarrow> log s' = log s \<and> versions s \<subseteq> versions s'"
    and create_keeps: "cl_create C x s = (r, s') \<Longrightarrow> log s' = log s \<and> versions s \<subseteq> versions s'"
    and update_done: "cl_update C x s = (None, s') \<Longrightarrow>
      \<exists>old \<in> versions s'. sc_Name old = sc_Name x \<and> sc_ResourceVersion old = sc_ResourceVersion x \<and> log s' = log s @ [(old, Some x)]"
    and update_refused: "cl_update C x s = (Some e, s') \<Longrightarrow> log s' = log s"
    and update_keeps: "cl_update C x s = (r, s') \<Longrightarrow> versions s \<subseteq> versions s'"
    and delete_done: "cl_delete C n uid s = (None, s') \<Longrightarrow> \<exists>old. sc_Name old = n \<and> sc_UID old = uid \<and> log s' = log s @ [(old, None)]"
    and delete_refused: "cl_delete C n uid s = (Some e, s') \<Longrightarrow> log s' = log s"
    and delete_keeps: "cl_delete C n uid s = (r, s') \<Longrightarrow> versions s \<subseteq> versions s'"
    and model_keeps: "cl_createModel C m spec s = (q, s') \<Longrightarrow> log s' = log s \<and> versions s \<subseteq> versions s'"
      "cl_updateModel C m spec s = (q, s') \<Longrightarrow> log s' = log s \<and> versions s \<subseteq> versions s'"
      "cl_getModel C m s = (q, s') \<Longrightarrow> log s' = log s \<and> versions s \<subseteq> versions s'"
    and version_unique: "x \<in> versions s \<Longrightarrow> y \<in> versions s \<Longrightarrow> sc_Name x = sc_Name y \<Longrightarrow> sc_ResourceVersion x = sc_ResourceVersion y \<Longrightarrow> x = y"
begin

lemma careful_keeps: "log s' = log s \<and> versions s \<subseteq> versions s' \<Longrightarrow> careful log versions n s s'"
  by (simp add: careful_def)

lemma careful_trans:
  assumes "careful log versions n s s1" "careful log versions n s1 s2"
  shows "careful log versions n s s2"
proof -
  obtain ws ws' where w: "log s1 = log s @ ws" "\<forall>e \<in> set ws. allowed n (versions s1) e"
    "log s2 = log s1 @ ws'" "\<forall>e \<in> set ws'. allowed n (versions s2) e" "versions s1 \<subseteq> versions s2" "versions s \<subseteq> versions s2"
    using assms unfolding careful_def by blast
  have "\<forall>e \<in> set (ws @ ws'). allowed n (versions s2) e" using w allowed_mono [OF _ w(5)] by auto
  then show ?thesis using w unfolding careful_def by (intro conjI exI [of _ "ws @ ws'"]) auto
qed

lemma careful_update:
  assumes "cl_get C n s = (Inr x, s1)" "cl_update C y s1 = (r, s2)" "sc_Name y = sc_Name x" "sc_ResourceVersion y = sc_ResourceVersion x"
    "allowed n (versions s2) (x, Some y)"
  shows "careful log versions n s s2"
proof (cases r)
  case None
  obtain old where old: "old \<in> versions s2" "sc_Name old = sc_Name y" "sc_ResourceVersion old = sc_ResourceVersion y" "log s2 = log s1 @ [(old, Some y)]"
    using update_done assms(2) None by blast
  moreover have "x \<in> versions s2" using get_seen [OF assms(1)] update_keeps [OF assms(2)] by blast
  ultimately have "old = x" using version_unique assms(3,4) by simp
  with old get_keeps [OF assms(1)] update_keeps [OF assms(2)] assms(5) show ?thesis unfolding careful_def by auto
next
  case (Some e)
  with update_refused [of y s1 e s2] update_keeps [OF assms(2)] get_keeps [OF assms(1)] assms(2) show ?thesis
    by (intro careful_keeps) auto
qed

lemma rotate_once_careful:
  assumes "rotate_once C sha m k ow s = (r, s')"
  shows "careful log versions (managedAiModelSecretName sha m) s s'"
proof (cases "cl_get C (managedAiModelSecretName sha m) s")
  case (Pair q s1)
  show ?thesis
  proof (cases q)
    case (Inl e)
    with Pair assms get_keeps [OF Pair] show ?thesis by (auto simp: rotate_once_def intro: careful_keeps)
  next
    case (Inr x)
    with Pair assms get_keeps [OF Pair] get_seen [of _ s x s1] careful_update [of _ s x s1 _ r s'] rotated_allowed [of x] show ?thesis
      by (auto simp: rotate_once_def intro: careful_keeps split: if_splits)
  qed
qed

lemma own_once_careful:
  assumes "own_once C n model s = (r, s')"
  shows "careful log versions n s s'"
proof (cases "cl_get C n s")
  case (Pair q s1)
  show ?thesis
  proof (cases q)
    case (Inl e)
    with Pair assms get_keeps [OF Pair] show ?thesis by (auto simp: own_once_def intro: careful_keeps)
  next
    case (Inr x)
    with Pair assms get_keeps [OF Pair] get_seen [of n s x s1] careful_update [of n s x s1 _ r s'] show ?thesis
      by (auto simp: own_once_def allowed_def intro: careful_keeps split: if_splits)
  qed
qed

lemma retry_careful:
  assumes "\<And>s r s'. f s = (r, s') \<Longrightarrow> careful log versions n s s'" "RetryOnConflict steps f s = (r, s')"
  shows "careful log versions n s s'"
  using assms(2)
proof (induction steps arbitrary: s)
  case 0
  then show ?case by (simp add: careful_def)
next
  case (Suc steps)
  obtain q s1 where q: "f s = (q, s1)" by fastforce
  from assms(1) [OF q] Suc.IH [of s1] Suc.prems q careful_trans [of n s s1 s'] show ?case
    by (auto split: option.splits key_error.splits if_splits)
qed

lemma upsert_careful:
  assumes "upsertManagedAiModelSecret C steps sha m k ow s = (r, s')"
  shows "careful log versions (managedAiModelSecretName sha m) s s'"
proof -
  let ?n = "managedAiModelSecretName sha m"
  have rotate: "careful log versions ?n s1 s2" if "RetryOnConflict steps (rotate_once C sha m k ow) s1 = (q, s2)" for q s1 s2
    using retry_careful [OF rotate_once_careful that] .
  obtain q s1 where g: "cl_get C ?n s = (q, s1)" by fastforce
  have g': "careful log versions ?n s s1" using get_keeps [OF g] by (rule careful_keeps)
  show ?thesis
  proof (cases "q = Inl NotFound")
    case True
    obtain e s2 where c: "cl_create C (fresh_secret sha m k ow) s1 = (e, s2)" by fastforce
    have "careful log versions ?n s1 s2" using create_keeps [OF c] by (rule careful_keeps)
    then have "careful log versions ?n s s2" by (rule careful_trans [OF g'])
    with assms g c True rotate careful_trans [of ?n s s2] show ?thesis
      by (auto simp: upsertManagedAiModelSecret_def Let_def split: option.splits if_splits prod.splits)
  next
    case False
    with assms g g' rotate careful_trans [of ?n s s1] show ?thesis
      by (auto simp: upsertManagedAiModelSecret_def Let_def split: option.splits if_splits prod.splits sum.splits)
  qed
qed

lemma delete_careful:
  assumes "deleteManagedAiModelSecret C sha m s = (r, s')"
  shows "careful log versions (managedAiModelSecretName sha m) s s'"
proof -
  let ?n = "managedAiModelSecretName sha m"
  obtain q s1 where g: "cl_get C ?n s = (q, s1)" by fastforce
  have g': "careful log versions ?n s s1" using get_keeps [OF g] by (rule careful_keeps)
  have d: "careful log versions ?n s s2" if "q = Inr x" "isManagedAiModelSecret x" "cl_delete C ?n (sc_UID x) s1 = (e, s2)" for x e s2
  proof -
    have v: "x \<in> versions s2" "sc_Name x = ?n" "versions s1 \<subseteq> versions s2" using get_seen g that delete_keeps [OF that(3)] by auto
    have "careful log versions ?n s1 s2"
      using that delete_done [of ?n "sc_UID x" s1 s2] delete_refused [of ?n "sc_UID x" s1 _ s2] v
      by (cases e) (auto simp: careful_def allowed_def)
    with g' show ?thesis by (rule careful_trans)
  qed
  show ?thesis
    using assms g g' d by (auto simp: deleteManagedAiModelSecret_def Let_def split: sum.splits if_splits prod.splits option.splits)
qed

lemma rollback_careful: "careful log versions (managedAiModelSecretName sha m) s (rollbackManagedAiModelSecret C sha m fresh err s)"
proof -
  let ?n = "managedAiModelSecretName sha m"
  have refl: "careful log versions ?n s s" for s by (simp add: careful_def)
  have del: "careful log versions ?n s (snd (deleteManagedAiModelSecret C sha m s))" for s using delete_careful by (metis prod.collapse)
  obtain q s1 where g: "cl_getModel C m s = (q, s1)" by fastforce
  have "careful log versions ?n s s1" using model_keeps(3) [OF g] by (rule careful_keeps)
  then show ?thesis
    using g refl del careful_trans [of ?n s s1] by (auto simp: rollbackManagedAiModelSecret_def Let_def split: sum.splits)
qed

lemma model_careful:
  "careful log versions n s (snd (cl_createModel C m spec s))" "careful log versions n s (snd (cl_updateModel C m spec s))"
  by (rule careful_keeps, rule model_keeps, rule prod.collapse [symmetric])+

lemma own_careful: "careful log versions n s (snd (setAiModelOwnerReference C steps n x s))"
  unfolding setAiModelOwnerReference_def by (rule retry_careful [OF own_once_careful]) (auto intro: prod.collapse [symmetric])

lemma create_careful: "careful log versions (managedAiModelSecretName sha m) s (snd (createAiModelWithManagedSecret C steps sha m spec k s))"
proof (cases "k = []")
  case True
  then show ?thesis by (simp add: createAiModelWithManagedSecret_def model_careful)
next
  case False
  let ?n = "managedAiModelSecretName sha m"
  obtain r s1 where u: "upsertManagedAiModelSecret C steps sha m k None s = (r, s1)" by fastforce
  obtain q s2 where c: "cl_createModel C m spec s1 = (q, s2)" by fastforce
  have 1: "careful log versions ?n s s1" using upsert_careful [OF u] .
  have 2: "careful log versions ?n s s2" using careful_trans [OF 1 careful_keeps] model_keeps(1) [OF c] by blast
  show ?thesis
    using False u c 1 careful_trans [OF 2 own_careful] careful_trans [OF 2 rollback_careful]
    by (auto simp: createAiModelWithManagedSecret_def split: sum.splits)
qed

lemma update_careful: "careful log versions (managedAiModelSecretName sha m) s (snd (updateAiModelWithManagedSecret C steps sha m spec k s))"
proof (cases "k = []")
  case True
  then show ?thesis by (simp add: updateAiModelWithManagedSecret_def model_careful)
next
  case False
  let ?n = "managedAiModelSecretName sha m"
  obtain q s1 where g: "cl_getModel C m s = (q, s1)" by fastforce
  have 1: "careful log versions ?n s s1" using model_keeps(3) [OF g] by (rule careful_keeps)
  have up: "careful log versions ?n s s2" if "upsertManagedAiModelSecret C steps sha m k (Some x) s1 = (r, s2)" for x r s2
    using careful_trans [OF 1 upsert_careful [OF that]] .
  show ?thesis
  proof (cases q)
    case (Inl e)
    with False g 1 show ?thesis by (simp add: updateAiModelWithManagedSecret_def)
  next
    case (Inr x)
    obtain r s2 where u: "upsertManagedAiModelSecret C steps sha m k (Some x) s1 = (r, s2)" by fastforce
    from False g Inr u up [OF u] careful_trans [OF up [OF u] model_careful(2)] show ?thesis
      by (simp add: updateAiModelWithManagedSecret_def split: sum.split)
  qed
qed

end

section \<open>An API server in memory\<close>

text \<open>The history of all secrets, newest first, an entry without a secret being a deletion. The resource
  version of a secret is its place in the history.\<close>

record mem_cluster =
  mm_history :: "(string \<times> Secret option) list"
  mm_log :: "(Secret \<times> Secret option) list"
  mm_models :: "(string, model_cr) gomap"

fun mem_versions :: "(string \<times> Secret option) list \<Rightarrow> Secret list" where
  "mem_versions [] = []"
| "mem_versions ((n, None) # h) = mem_versions h"
| "mem_versions ((n, Some x) # h) = x\<lparr>sc_Name := n, sc_ResourceVersion := show_nat (length h)\<rparr> # mem_versions h"

fun mem_current :: "string \<Rightarrow> (string \<times> Secret option) list \<Rightarrow> Secret option" where
  "mem_current n [] = None"
| "mem_current n ((k, x) # h) =
     (if k = n then map_option (\<lambda>x. x\<lparr>sc_Name := n, sc_ResourceVersion := show_nat (length h)\<rparr>) x else mem_current n h)"

definition mem_api :: "mem_cluster cluster" where
  "mem_api =
     \<lparr>cl_get = (\<lambda>n s. (case mem_current n (mm_history s) of None \<Rightarrow> Inl NotFound | Some x \<Rightarrow> Inr x, s)),
      cl_create = (\<lambda>x s. if mem_current (sc_Name x) (mm_history s) = None
                         then (None, s\<lparr>mm_history := (sc_Name x, Some (x\<lparr>sc_UID := show_nat (length (mm_history s))\<rparr>)) # mm_history s\<rparr>)
                         else (Some AlreadyExists, s)),
      cl_update = (\<lambda>x s. case mem_current (sc_Name x) (mm_history s) of
                           None \<Rightarrow> (Some NotFound, s)
                         | Some old \<Rightarrow> if sc_ResourceVersion old = sc_ResourceVersion x
                                       then (None, s\<lparr>mm_history := (sc_Name x, Some x) # mm_history s, mm_log := mm_log s @ [(old, Some x)]\<rparr>)
                                       else (Some Conflict, s)),
      cl_delete = (\<lambda>n uid s. case mem_current n (mm_history s) of
                               None \<Rightarrow> (Some NotFound, s)
                             | Some old \<Rightarrow> if sc_UID old = uid
                                           then (None, s\<lparr>mm_history := (n, None) # mm_history s, mm_log := mm_log s @ [(old, None)]\<rparr>)
                                           else (Some Conflict, s)),
      cl_createModel = (\<lambda>n spec s. if map_of (mm_models s) n = None
                                   then let m = \<lparr>mc_Name = n, mc_UID = n, mc_Spec = spec\<rparr> in (Inr m, s\<lparr>mm_models := AList.update n m (mm_models s)\<rparr>)
                                   else (Inl AlreadyExists, s)),
      cl_updateModel = (\<lambda>n spec s. case map_of (mm_models s) n of
                                     None \<Rightarrow> (Inl NotFound, s)
                                   | Some m \<Rightarrow> (Inr (m\<lparr>mc_Spec := spec\<rparr>), s\<lparr>mm_models := AList.update n (m\<lparr>mc_Spec := spec\<rparr>) (mm_models s)\<rparr>)),
      cl_getModel = (\<lambda>n s. (case map_of (mm_models s) n of None \<Rightarrow> Inl NotFound | Some m \<Rightarrow> Inr m, s))\<rparr>"

lemma mem_current_version: "mem_current n h = Some x \<Longrightarrow> x \<in> set (mem_versions h) \<and> sc_Name x = n"
proof (induction n h rule: mem_current.induct)
  case (2 n k y h)
  then show ?case by (cases y) (auto split: if_splits)
qed simp

lemma mem_versions_place: "x \<in> set (mem_versions h) \<Longrightarrow> \<exists>i < length h. sc_ResourceVersion x = show_nat i"
  by (induction h rule: mem_versions.induct) (auto intro: less_SucI)

lemma mem_versions_unique:
  assumes "x \<in> set (mem_versions h)" "y \<in> set (mem_versions h)" "sc_ResourceVersion x = sc_ResourceVersion y"
  shows "x = y"
  using assms
proof (induction h rule: mem_versions.induct)
  case (3 n z h)
  have "sc_ResourceVersion v \<noteq> show_nat (length h)" if "v \<in> set (mem_versions h)" for v
    using mem_versions_place [OF that] by (auto dest: show_nat_inject)
  with 3 show ?case by (auto; metis)
qed simp_all

interpretation mem_secrets: secret_server mem_api mm_log "\<lambda>s. set (mem_versions (mm_history s))"
  by unfold_locales (auto simp: mem_api_def Let_def dest: mem_current_version mem_versions_unique split: option.splits if_splits)

section \<open>Correctness\<close>

text \<open>C36: Creating or updating an AI model with a plain-text key never takes over a secret of somebody else:
  whatever other clients do between any two calls, every secret that is rewritten has the model's
  secret name and keeps all data under other keys, its key and labels change only when it carried
  the operator's label in the very version that is replaced, and every secret that is deleted has
  the UID of a secret that carried the label.\<close>
theorem only_managed_secrets_touched:
  assumes "secret_server C log versions"
  shows "careful log versions (managedAiModelSecretName sha name) s (snd (createAiModelWithManagedSecret C steps sha name spec apiKey s))
    \<and> careful log versions (managedAiModelSecretName sha name) s (snd (updateAiModelWithManagedSecret C steps sha name spec apiKey s))"
  using secret_server.create_careful [OF assms] secret_server.update_careful [OF assms] by blast

definition demo_cluster :: mem_cluster where
  "demo_cluster = \<lparr>mm_history = [(''aimodel-m-api-key'', Some \<lparr>sc_Name = ''aimodel-m-api-key'', sc_UID = ''u'', sc_ResourceVersion = [], sc_Labels = [],
      sc_Data = [(''API_KEY'', ''theirs'')], sc_OwnerReferences = []\<rparr>)], mm_log = [], mm_models = []\<rparr>"

theorem only_managed_secrets_touched_witness:
  "careful mm_log (\<lambda>s. set (mem_versions (mm_history s))) (managedAiModelSecretName (\<lambda>_. []) ''m'') demo_cluster
     (snd (createAiModelWithManagedSecret mem_api 5 (\<lambda>_. []) ''m'' (am_Spec (demo_model ''m'' 1)) ''key'' demo_cluster))"
  using only_managed_secrets_touched [OF mem_secrets.secret_server_axioms] by blast

text \<open>A secret of that name without the label makes the request fail and stays as it is.\<close>

lemma foreign_secret_kept:
  "createAiModelWithManagedSecret mem_api 5 (\<lambda>_. []) ''m'' spec ''key'' demo_cluster
     = (Inl (Provision (UpdateSecret ''aimodel-m-api-key'' (NotManaged ''aimodel-m-api-key''))), demo_cluster)"
  by (simp add: createAiModelWithManagedSecret_def upsertManagedAiModelSecret_def rotate_once_def isManagedAiModelSecret_def mem_api_def demo_cluster_def
      managedAiModelSecretName_def truncateWithHash_def DNS1123SubdomainMaxLength_def Let_def numeral_eq_Suc)

text \<open>A model with a key that is created on a cluster without its secret gets the secret, wired and owned.\<close>

lemma created_secret_owned:
  "case createAiModelWithManagedSecret mem_api 5 (\<lambda>_. []) ''m'' spec ''key'' (demo_cluster\<lparr>mm_history := []\<rparr>) of
     (Inr model, s) \<Rightarrow> (case mem_current ''aimodel-m-api-key'' (mm_history s) of
                         Some x \<Rightarrow> map_of (sc_Data x) ''API_KEY'' = Some ''key'' \<and> isManagedAiModelSecret x \<and> hasAiModelOwnerReference x model
                       | None \<Rightarrow> False)
   | _ \<Rightarrow> False"
  by (simp add: createAiModelWithManagedSecret_def upsertManagedAiModelSecret_def fresh_secret_def setAiModelOwnerReference_def own_once_def
      isManagedAiModelSecret_def hasAiModelOwnerReference_def aiModelOwnerReference_def mem_api_def demo_cluster_def
      managedAiModelSecretName_def truncateWithHash_def DNS1123SubdomainMaxLength_def DefaultApiKeySecretKey_def Let_def numeral_eq_Suc)

text \<open>The owner reference is put on whatever secret has the name, also on one without the label: the
  garbage collector then deletes that secret with the model.\<close>

lemma owner_reference_unchecked:
  assumes "cl_get C n s = (Inr x, s1)" "\<not> hasAiModelOwnerReference x model"
  shows "own_once C n model s = cl_update C (x\<lparr>sc_OwnerReferences := sc_OwnerReferences x @ [aiModelOwnerReference model]\<rparr>) s1"
  using assms by (simp add: own_once_def)

text \<open>Names fit their limits, and short model names get different secret names.\<close>

lemma truncateWithHash_length: "10 < maxLen \<Longrightarrow> length (truncateWithHash sha s maxLen) \<le> maxLen"
  by (auto simp: truncateWithHash_def Let_def)

lemma managedAiModelSecretName_length: "length (managedAiModelSecretName sha m) \<le> DNS1123SubdomainMaxLength"
proof -
  have "length (truncateWithHash sha m 237) \<le> 237" by (rule truncateWithHash_length) simp
  then show ?thesis by (simp add: managedAiModelSecretName_def DNS1123SubdomainMaxLength_def)
qed

lemma managedAiModelSecretName_inject:
  assumes "length m \<le> 237" "length m' \<le> 237" "managedAiModelSecretName sha m = managedAiModelSecretName sha m'"
  shows "m = m'"
  using assms by (simp add: managedAiModelSecretName_def truncateWithHash_def DNS1123SubdomainMaxLength_def)

text \<open>A key and a reference to another secret exclude each other; otherwise the model refers to its own secret.\<close>

lemma applyManagedApiKeyRef_wired:
  assumes "applyManagedApiKeyRef sha m spec key = Inr spec'" "key \<noteq> []"
  shows "references (managedAiModelSecretName sha m) \<lparr>mc_Name = m, mc_UID = uid, mc_Spec = spec'\<rparr>"
  using assms by (auto simp: applyManagedApiKeyRef_def references_def Let_def split: option.splits if_splits)

end
