(* ===== verification/Spec2Isabelle.thy ===== *)
theory Spec2Isabelle
  imports ConfigModule HashSet Secrets StoreSearch StorePage ValkeyKeys AuditLog Reconciler
    ErrorStatus Watcher AiAccess AiLoop AiModels AiAgents AiTasks OwnerCache
    AiChat AiSteps Platform ApiSchema SocketApi WorkspaceApi StatsDb HelmReleases WebsocketClient
    ReconcileHandlers AiModelKeys
begin

text \<open>
  Verification of the mogenius operator, a Kubernetes operator written in Go. Source paths below
  are relative to \<open>src/\<close> of the repository.

  \<^bold>\<open>The program.\<close> The operator watches the cluster (\<open>watcher\<close>), mirrors every object into a Valkey
  database (\<open>store\<close> over \<open>valkeyclient\<close>) from which the platform reads lists, searches and pages,
  reconciles its own custom resources (\<open>reconciler\<close>), records every change in an audit log
  (\<open>store\<close>), and runs AI agents over the cluster (\<open>ai\<close>) whose changes a user has to approve.
  \<open>config\<close> declares and validates the settings, \<open>secrets\<close> keeps their secret values out of what
  is stored, \<open>utils/errorstatus.go\<close> maps errors to HTTP codes for the platform. The platform talks
  to it over websockets (\<open>core/socketapi.go\<close>, \<open>core/api.go\<close>, with request types described by \<open>schema\<close>), and a
  platform configuration makes it install a set of components through Argo CD or Flux (\<open>gitops\<close>).

  \<^bold>\<open>Theories and sources.\<close>

  \<^item> \<open>Prelude\<close>: Go strings as byte lists, the functions of \<open>strings\<close> and \<open>strconv\<close> the sources call,
    Go maps as association lists with unique keys, the stable sort by a less function and the
    top-k merge. The locale \<open>go_less\<close> states what a less function must satisfy; it is interpreted
    on every order the sources sort by.
  \<^item> \<open>ConfigModule\<close> (\<open>config/config.go\<close>, \<open>config/interface.go\<close>): the \<open>Config\<close> struct as a record, one
    definition per method. Keys stay unique and well-formed and every stored value was accepted by
    its validation; a successful write is read back and announced to exactly the right callbacks;
    after \<open>Validate\<close> every declared key is readable with its type; precedence of environment names.
  \<^item> \<open>HashSet\<close> (\<open>collections/hashset.go\<close>): all methods, with the set contract as a locale.
  \<^item> \<open>Secrets\<close> (\<open>secrets/secrets.go\<close>): the compiled alternation as longest-first replacement; no
    registered secret survives.
  \<^item> \<open>Unstructured\<close>: JSON-like objects and the accessors of Kubernetes' unstructured objects.
  \<^item> \<open>Valkey\<close>, \<open>MemValkey\<close>: the commands the client sends, their documented laws as the locale
    \<open>valkey_server\<close>, and an in-memory server that satisfies them. The server and the network are not
    part of the sources: every definition that talks to them takes them as a parameter.
  \<^item> \<open>ValkeyKeys\<close> (\<open>valkeyclient/valkeyclient.go\<close>): key building, typed reads and writes, enumeration over
    all nodes of a cluster, deletion by pattern, numbered entries with a limit.
  \<^item> \<open>ValkeyStreams\<close> (the stream commands of \<open>valkeyclient/valkeyclient.go\<close>): time series with their retention,
    over a server given by the locale \<open>stream_server\<close>; what is written is read back.
  \<^item> \<open>StatsDb\<close> (\<open>core/dbstats.go\<close>): deltas of traffic counters at 64 bits, pod statistics, and the charts of a
    workspace, whose totals and five largest pods do not depend on the order of merging.
  \<^item> \<open>StoreSearch\<close>, \<open>StoreIndex\<close>, \<open>StorePage\<close> (\<open>store/store.go\<close>): the search language and its shard plan;
    primary keys, sorted-set indexes and the namespace registry, with writers and readers; the
    paginated read with its per-shard top-k and pruning of stale members. The store refines a map
    from identities to objects; lists are complete; a page is the slice of the global order.
  \<^item> \<open>OwnerCache\<close> (\<open>store/ownercacheservice.go\<close>): from a pod up its owner references to the controller on
    top, with its cache; the lookup ends for references without a cycle.
  \<^item> \<open>AuditLog\<close> (\<open>store/store.go\<close>, \<open>structs/datagram.go\<close>): redaction, attribution, the time-ordered index,
    listing with its fallback scan, and the ordered dispatcher of real-time events.
  \<^item> \<open>Reconciler\<close> (\<open>reconciler/reconciler.go\<close>, \<open>cache.go\<close>, \<open>status_api.go\<close>): watch callbacks, the slots of running
    handlers, the periodic sweep, requeues, \<open>Start\<close> and the stages of \<open>Stop\<close> as one step relation over
    all interleavings; the object cache and the status report.
  \<^item> \<open>Watcher\<close> (\<open>watcher/watcher.go\<close>): the table of watched resources, the goroutine that registers a
    handler and waits for its cache, the retry loop, synchronisation callbacks, subscriptions.
  \<^item> \<open>ErrorStatus\<close> (\<open>utils/errorstatus.go\<close>): the status code of an error.
  \<^item> \<open>AiAccess\<close> (\<open>ai/tools.go\<close>, the guards of \<open>ai/tools_kubernetes.go\<close> and \<open>ai/tools_helm.go\<close>): the context a
    tool runs in, built from a workspace grant or an agent, and every check on it, against the
    policy the workspace lists.
  \<^item> \<open>AiLoop\<close> (\<open>ai/agent_loop.go\<close>, \<open>tools_exec.go\<close>, \<open>compact.go\<close>): the loop of an unattended run: model call,
    compaction, tool dispatch with approval, budgets. Model, tools and MCP servers are parameters.
  \<^item> \<open>AiModels\<close> (\<open>ai/aimodels.go\<close>, token accounting of \<open>ai/aimanager.go\<close>): validation, elections, resolution,
    usage entries with their cached summary, the daily budget and its reset.
  \<^item> \<open>AiAgents\<close> (\<open>ai/agents.go\<close>): specs, scope, triggers, the cache of enabled agents, keys of runs.
  \<^item> \<open>AiTasks\<close> (\<open>ai/aimanager.go\<close>, \<open>aimanager_api.go\<close>, \<open>aimanager_cancel.go\<close>, \<open>aimanager_delete.go\<close>,
    \<open>aimanager_execute.go\<close>, approval part of \<open>agents.go\<close>): a stored task and all operations on it, from the
    trigger through queue, slot, approval and end of a run, interleaved with clients, expiry,
    outages of the store and restarts.
  \<^item> \<open>AiMcp\<close> (\<open>ai/mcp_client.go\<close>, \<open>ai/mcp_crd_connector.go\<close>, \<open>reconciler/mcp_servers.go\<close>): sessions with MCP servers,
    their tools and policies, approval and calls, and the resources that configure them. A call
    reaches only a tool its policies do not deny, and a run without approvals none that asks for one.
  \<^item> \<open>AiChat\<close> (\<open>ai/chat_loop.go\<close>, \<open>ai/tools_categories.go\<close>): a chat session, its turns, tool categories and
    history; every turn ends within the limit of tool calls.
  \<^item> \<open>AiSteps\<close> (\<open>ai/runsteps.go\<close>): the bounded timeline of a run.
  \<^item> \<open>GitOps\<close> (\<open>gitops/\<close>): the installers for Argo CD and Flux over an API server given by its laws;
    the locale \<open>gitops_installer\<close> is the contract that uninstalling undoes every installation.
  \<^item> \<open>PlatformValues\<close> (\<open>reconciler/platform_helm.go\<close>): merging of Helm values on Go maps, which are shared by
    reference, as an explicit heap, and its refinement to a pure merge.
  \<^item> \<open>PlatformObjects\<close>, \<open>Platform\<close> (\<open>reconciler/platformConfig.go\<close>, \<open>platform_*.go\<close>, \<open>crd_checker.go\<close>,
    \<open>additional_resources.go\<close>): the objects and the ten components of a platform configuration, engine
    detection, status and conditions, and the handler that reconciles them.
  \<^item> \<open>ApiSchema\<close> (\<open>schema/schema.go\<close>): the schema of a Go type; all its references resolve.
  \<^item> \<open>SocketApi\<close> (\<open>core/socketapi.go\<close>, \<open>structs/datagram.go\<close>, \<open>utils/zlib.go\<close>): registration, dispatch, compression and
    replies of requests, and the upload state of the read loop.
  \<^item> \<open>WorkspaceApi\<close> (\<open>core/api.go\<close>, \<open>kubernetes/watcheractions.go\<close>): the resources of a workspace, their
    pages, and the deletion of a workspace.
  \<^item> \<open>WorkloadStatus\<close> (\<open>kubernetes/workloadstatus.go\<close>): the filters of a status request and the tree of dependents of
    every workload; the recursion ends and the caches do not show.
  \<^item> \<open>HelmReleases\<close> (the lists of \<open>helm/helm.go\<close>, their handler in \<open>core/socketapi.go\<close>): pages of releases from labels
    only, the full list, the scope of a workspace, and the workloads of a release; both ways of
    listing agree.
  \<^item> \<open>WebsocketClient\<close> (\<open>websocket/client.go\<close>): the runtime, the reader, the writer, the callers and the
    reconnecting goroutines as one step relation over channel operations; no crash, no crossed
    reply, frames in order, and termination that does not depend on the peer.
  \<^item> \<open>ReconcileHandlers\<close> (\<open>reconciler/agents.go\<close>, \<open>aimodels.go\<close>, \<open>workspaces.go\<close>, \<open>workspace_dashboards.go\<close>,
    \<open>ui_configs.go\<close>, \<open>conditions.go\<close>): the handlers the generic reconciler runs; a manual run starts once,
    mutual requeues come to rest.
  \<^item> \<open>AiModelKeys\<close> (\<open>core/aimodel_apikey.go\<close>): the managed secret of a model, over an API server given by
    the locale \<open>secret_server\<close> in which other clients act between any two calls.

  \<^bold>\<open>How state and effects are modelled.\<close> A struct is a record, an enum a datatype, a method a function
  from the state to the new state and its result. Errors are values: a sum or an option, one
  branch per early return. Goroutines are steps of an \<open>inductive\<close> relation at the granularity of
  the critical sections; invariants are proved by rule induction over all interleavings. Counters
  that can wrap are wrapped explicitly (\<open>wrap64\<close>); token counts and times are integers.

  \<^bold>\<open>Loops and bounds.\<close> Loops over finite data are structural recursion or folds. The cursor loop of a
  key scan, the agent loop and the chat turn may not end by themselves: they are
  \<open>partial_function (option)\<close>, so that not returning is \<open>None\<close>, and the theorems say when they return:
  the scan for a server whose cursor comes back to zero, the loop and the turn for every positive
  limit of tool calls, after at most that many rounds (\<open>agent_rounds\<close> and \<open>chat_rounds\<close> are the loops cut
  off after a number of rounds, and agree with them). Merging maps on a heap ends for maps that
  represent trees. Schema generation ends by the depth limit of the source. The tree of a workload
  status and the mutual requeues of default models are \<open>partial_function (option)\<close> too, and are proved to
  return.
  Elsewhere the constants of the sources are used as they are: fifty concurrent reconciles, ten
  concurrent agent runs, two attempts per task, ten runs of history, two hundred steps of a
  timeline, retry pauses of one second to five minutes, a hundred queued frames.

  \<^bold>\<open>Flaws found.\<close> Lemmas beside the properties show behaviour that departs from what the sources say
  or intend, for instance \<open>AiMcp.unpoliced_tools_run_unasked\<close>, \<open>AiChat.chat_builtin_tool_panics\<close>,
  \<open>PlatformValues.argocd_patch_leaks\<close>, \<open>Platform.platform_without_external_dns_panics\<close>,
  \<open>SocketApi.compressed_request_rejected\<close>, \<open>WorkspaceApi.same_name_hidden\<close>, \<open>AuditLog.raw_payload_bypasses_redaction\<close>,
  \<open>Watcher.stale_watch_overwrites_state\<close>, \<open>Reconciler.callback_outlives_Stop\<close>, \<open>StatsDb.second_pod_dropped\<close>,
  \<open>WorkloadStatus.helm_only_request_empty\<close>, \<open>WebsocketClient.GetHeader_blocks\<close>,
  \<open>ReconcileHandlers.second_status_write_refused\<close>, \<open>AiModelKeys.owner_reference_unchecked\<close> and
  \<open>HelmReleases.page_depends_on_map_order\<close>.

  \<^bold>\<open>What is not modelled.\<close> Logging and metrics; the several hundred handlers of \<open>core/socketapi.go\<close>, which
  forward to the components above and are parameters of the dispatch; everything that only calls
  client-go, Helm, the controllers' APIs, procfs or a terminal: installing and upgrading charts, the
  clients of Argo CD and Flux, leader election, the node monitors, terminals and port forwarding;
  node statistics and live snapshots, which only forward to the client of the database; generated
  code; the protocol client of MCP and the provider SDKs; the texts of prompts. Their behaviour is
  that of the library or the kernel they call, so a model of them would be a model of code that is
  not here. Byte strings above ASCII are compared but not case-folded; chart values are integers.
  Interleavings are those of whole critical sections, channel operations or API calls, not of
  single reads and writes within one.
\<close>

end
